(* ===== verification/Prelude.thy ===== *)
theory Prelude
  imports Main "HOL-Library.Sublist" "HOL-Library.Char_ord" "HOL-Library.List_Lexorder"
begin

text \<open>
  Shared vocabulary of the development: the integers of the code at their width, the Rust
  string operations on UTF-8 byte strings, and generic lemmas on lists.

  A Rust \<open>String\<close> is modelled as \<open>string\<close>, the list of its UTF-8 bytes. \<open>len\<close>, slicing,
  splitting and searching at ASCII characters work on bytes in Rust as well, so they are
  exact. Character-wise operations go through \<open>utf8_chars\<close>, which groups the bytes of each
  character. Whitespace is the ASCII whitespace (Rust also trims Unicode spaces).

  A \<open>u64\<close> is a \<open>nat\<close> and an \<open>i64\<close> an \<open>int\<close>; casts and the arithmetic that can leave the
  range are written out with their wrap-around (release builds) or saturation.
\<close>

named_theorems str_simps \<open>unfolding of the Rust string operations\<close>
named_theorems int_width \<open>unfolding of the fixed-width arithmetic\<close>

type_synonym str = string
type_synonym path = string
type_synonym u64 = nat
type_synonym i64 = int

section \<open>Fixed-width integers\<close>

definition u64_max :: nat where
  "u64_max = 2 ^ 64 - 1"

definition wrap_u64 :: "nat \<Rightarrow> nat" where
  "wrap_u64 n = n mod 2 ^ 64"

definition sat_mul :: "nat \<Rightarrow> nat \<Rightarrow> nat" where
  "sat_mul a b = min (a * b) u64_max"

definition wrap_i64 :: "int \<Rightarrow> int" where
  "wrap_i64 x = (x + 2 ^ 63) mod 2 ^ 64 - 2 ^ 63"

definition as_i64 :: "nat \<Rightarrow> int" where
  "as_i64 n = wrap_i64 (int n)"

definition as_u64 :: "int \<Rightarrow> nat" where
  "as_u64 x = nat (x mod 2 ^ 64)"

definition i64_add :: "int \<Rightarrow> int \<Rightarrow> int" where
  "i64_add a b = wrap_i64 (a + b)"

definition i64_sub :: "int \<Rightarrow> int \<Rightarrow> int" where
  "i64_sub a b = wrap_i64 (a - b)"

definition i64_min :: int where
  "i64_min = - (2 ^ 63)"

definition i64_sat_sub :: "int \<Rightarrow> int \<Rightarrow> int" where
  "i64_sat_sub a b = max i64_min (min (a - b) (2 ^ 63 - 1))"

definition in_i64 :: "int \<Rightarrow> bool" where
  "in_i64 x \<longleftrightarrow> - (2 ^ 63) \<le> x \<and> x < 2 ^ 63"

lemmas [int_width] = u64_max_def wrap_u64_def sat_mul_def wrap_i64_def as_i64_def as_u64_def
  i64_add_def i64_sub_def i64_sat_sub_def i64_min_def in_i64_def

lemma wrap_i64_id: "in_i64 x \<Longrightarrow> wrap_i64 x = x"
  by (simp add: in_i64_def wrap_i64_def)

lemma in_i64_wrap [simp, intro]: "in_i64 (wrap_i64 x)"
proof -
  have "0 \<le> (x + 2 ^ 63) mod 2 ^ 64" "(x + 2 ^ 63) mod 2 ^ 64 < (2 :: int) ^ 64"
    by (rule pos_mod_sign, simp) (rule pos_mod_bound, simp)
  then show ?thesis by (simp add: in_i64_def wrap_i64_def)
qed

lemma as_i64_id: "n < 2 ^ 63 \<Longrightarrow> as_i64 n = int n"
  unfolding as_i64_def by (rule wrap_i64_id) (simp add: in_i64_def)

lemma as_u64_as_i64: "n < 2 ^ 64 \<Longrightarrow> as_u64 (as_i64 n) = n"
proof -
  assume n: "n < 2 ^ 64"
  have "(wrap_i64 (int n)) mod 2 ^ 64 = int n mod 2 ^ 64"
    unfolding wrap_i64_def by (simp add: mod_diff_left_eq)
  with n show ?thesis by (simp add: as_u64_def as_i64_def)
qed

section \<open>Rust string operations\<close>

definition is_ws :: "char \<Rightarrow> bool" where
  "is_ws c \<longleftrightarrow> c = CHR '' '' \<or> c = CHR 0x09 \<or> c = CHR 0x0A \<or> c = CHR 0x0B
     \<or> c = CHR 0x0C \<or> c = CHR 0x0D"

definition is_digit :: "char \<Rightarrow> bool" where
  "is_digit c \<longleftrightarrow> CHR ''0'' \<le> c \<and> c \<le> CHR ''9''"

definition is_alpha :: "char \<Rightarrow> bool" where
  "is_alpha c \<longleftrightarrow> (CHR ''a'' \<le> c \<and> c \<le> CHR ''z'') \<or> (CHR ''A'' \<le> c \<and> c \<le> CHR ''Z'')"

definition is_alnum :: "char \<Rightarrow> bool" where
  "is_alnum c \<longleftrightarrow> is_alpha c \<or> is_digit c"

definition to_lower :: "char \<Rightarrow> char" where
  "to_lower c = (if CHR ''A'' \<le> c \<and> c \<le> CHR ''Z'' then char_of (of_char c + 32 :: nat) else c)"

definition trim_start :: "str \<Rightarrow> str" where
  "trim_start s = dropWhile is_ws s"

definition trim_end :: "str \<Rightarrow> str" where
  "trim_end s = rev (dropWhile is_ws (rev s))"

definition trim :: "str \<Rightarrow> str" where
  "trim s = trim_end (trim_start s)"

definition starts_with :: "'a list \<Rightarrow> 'a list \<Rightarrow> bool" where
  "starts_with s p \<longleftrightarrow> take (length p) s = p"

definition ends_with :: "'a list \<Rightarrow> 'a list \<Rightarrow> bool" where
  "ends_with s p \<longleftrightarrow> starts_with (rev s) (rev p)"

definition strip_prefix :: "'a list \<Rightarrow> 'a list \<Rightarrow> 'a list option" where
  "strip_prefix p s = (if starts_with s p then Some (drop (length p) s) else None)"

definition strip_suffix :: "'a list \<Rightarrow> 'a list \<Rightarrow> 'a list option" where
  "strip_suffix p s = (if ends_with s p then Some (take (length s - length p) s) else None)"

fun str_contains :: "'a list \<Rightarrow> 'a list \<Rightarrow> bool" where
  "str_contains [] p = (p = [])"
| "str_contains (c # cs) p = (starts_with (c # cs) p \<or> str_contains cs p)"

text \<open>\<open>s.split(c)\<close>: always at least one piece.\<close>

fun split_on :: "'a \<Rightarrow> 'a list \<Rightarrow> 'a list list" where
  "split_on c [] = [[]]"
| "split_on c (x # xs) =
     (if x = c then [] # split_on c xs
      else (case split_on c xs of [] \<Rightarrow> [[x]] | p # ps \<Rightarrow> (x # p) # ps))"

fun join_with :: "'a list \<Rightarrow> 'a list list \<Rightarrow> 'a list" where
  "join_with sep [] = []"
| "join_with sep [x] = x"
| "join_with sep (x # y # ys) = x @ sep @ join_with sep (y # ys)"

text \<open>\<open>s.split_whitespace()\<close>: maximal runs of non-whitespace.\<close>

fun split_ws_acc :: "str \<Rightarrow> str \<Rightarrow> str list" where
  "split_ws_acc acc [] = (if acc = [] then [] else [rev acc])"
| "split_ws_acc acc (c # cs) =
     (if is_ws c then (if acc = [] then split_ws_acc [] cs else rev acc # split_ws_acc [] cs)
      else split_ws_acc (c # acc) cs)"

definition split_whitespace :: "str \<Rightarrow> str list" where
  "split_whitespace s = split_ws_acc [] s"

text \<open>\<open>s.lines()\<close>: split at line feeds; a carriage return before a line feed belongs to the line
  ending, one at the end of an unterminated last line does not; a final empty piece is no line.\<close>

definition drop_cr :: "str \<Rightarrow> str" where
  "drop_cr l = (if l \<noteq> [] \<and> last l = CHR 0x0D then butlast l else l)"

definition str_lines :: "str \<Rightarrow> str list" where
  "str_lines s = (let ps = split_on (CHR 0x0A) s
     in map drop_cr (butlast ps) @ (if last ps = [] then [] else [last ps]))"

text \<open>\<open>Vec::contains\<close> then \<open>push\<close>.\<close>

definition push_new :: "'a list \<Rightarrow> 'a \<Rightarrow> 'a list" where
  "push_new xs x = (if x \<in> set xs then xs else xs @ [x])"

text \<open>UTF-8: a continuation byte is \<open>10xxxxxx\<close>; a character is a leading byte with the
  continuation bytes behind it.\<close>

definition is_cont :: "char \<Rightarrow> bool" where
  "is_cont c \<longleftrightarrow> CHR 0x80 \<le> c \<and> c \<le> CHR 0xBF"

fun utf8_chars :: "str \<Rightarrow> str list" where
  "utf8_chars [] = []"
| "utf8_chars (c # cs) = (case utf8_chars cs of
      [] \<Rightarrow> [[c]]
    | g # gs \<Rightarrow> (if is_cont (hd g) then (c # g) # gs else [c] # g # gs))"

definition is_char_boundary :: "str \<Rightarrow> nat \<Rightarrow> bool" where
  "is_char_boundary s i \<longleftrightarrow> i = 0 \<or> i = length s \<or> (i < length s \<and> \<not> is_cont (s ! i))"

text \<open>The loop that backs \<open>cut\<close> off to a character boundary.\<close>

fun boundary_below :: "str \<Rightarrow> nat \<Rightarrow> nat" where
  "boundary_below s 0 = 0"
| "boundary_below s (Suc n) = (if is_char_boundary s (Suc n) then Suc n else boundary_below s n)"

text \<open>Decimal printing and parsing.\<close>

definition digit_char :: "nat \<Rightarrow> char" where
  "digit_char d = char_of (48 + d)"

fun show_nat :: "nat \<Rightarrow> str" where
  "show_nat n = (if n < 10 then [digit_char n] else show_nat (n div 10) @ [digit_char (n mod 10)])"

declare show_nat.simps [simp del]

definition show_int :: "int \<Rightarrow> str" where
  "show_int i = (if i < 0 then CHR ''-'' # show_nat (nat (- i)) else show_nat (nat i))"

definition digit_val :: "char \<Rightarrow> nat" where
  "digit_val c = of_char c - 48"

fun digits_val :: "nat \<Rightarrow> str \<Rightarrow> nat option" where
  "digits_val acc [] = Some acc"
| "digits_val acc (c # cs) = (if is_digit c then digits_val (10 * acc + digit_val c) cs else None)"

text \<open>\<open>str::parse::<u64>()\<close>: an optional leading plus, at least one digit, in range.\<close>

definition parse_u64 :: "str \<Rightarrow> nat option" where
  "parse_u64 s =
     (let ds = (case s of c # cs \<Rightarrow> if c = CHR ''+'' then cs else s | [] \<Rightarrow> [])
      in if ds = [] then None
         else case digits_val 0 ds of
                None \<Rightarrow> None
              | Some n \<Rightarrow> if n \<le> u64_max then Some n else None)"

section \<open>Lemmas on strings\<close>

lemma starts_with_iff: "starts_with s p \<longleftrightarrow> (\<exists>r. s = p @ r)"
  unfolding starts_with_def by (metis append_eq_conv_conj append_take_drop_id)

lemma starts_with_append [simp]: "starts_with (p @ r) p"
  by (auto simp: starts_with_iff)

lemma starts_with_Nil [simp]: "starts_with s []"
  by (simp add: starts_with_def)

lemma starts_with_Cons [simp]: "starts_with (c # s) (d # p) \<longleftrightarrow> c = d \<and> starts_with s p"
  by (auto simp: starts_with_def)

lemma starts_with_empty [simp]: "starts_with [] (d # p) \<longleftrightarrow> False"
  by (simp add: starts_with_def)

lemma strip_prefix_Some: "strip_prefix p s = Some r \<longleftrightarrow> s = p @ r"
  by (auto simp: strip_prefix_def starts_with_iff)

lemma str_contains_drop: "starts_with (drop i s) p \<Longrightarrow> str_contains s p"
proof (induction s arbitrary: i)
  case Nil
  then show ?case by (cases p) auto
next
  case (Cons c s)
  then show ?case by (cases i) auto
qed

lemma split_on_not_Nil [simp]: "split_on c s \<noteq> []"
  by (cases s) (auto split: list.splits)

lemma split_on_no_sep: "c \<notin> set s \<Longrightarrow> split_on c s = [s]"
  by (induction s) auto

lemma split_on_append: "c \<notin> set s \<Longrightarrow> split_on c (s @ c # r) = s # split_on c r"
  by (induction s) auto

lemma join_with_Cons: "xs \<noteq> [] \<Longrightarrow> join_with sep (x # xs) = x @ sep @ join_with sep xs"
  by (cases xs) auto

lemma split_join:
  "xs \<noteq> [] \<Longrightarrow> (\<forall>x\<in>set xs. c \<notin> set x) \<Longrightarrow> split_on c (join_with [c] xs) = xs"
proof (induction xs)
  case Nil
  then show ?case by simp
next
  case (Cons x xs)
  then show ?case
    by (cases "xs = []") (auto simp: join_with_Cons split_on_no_sep split_on_append)
qed

lemma join_split: "join_with [c] (split_on c s) = s"
proof (induction s)
  case Nil
  then show ?case by simp
next
  case (Cons x xs)
  obtain p ps where ps: "split_on c xs = p # ps"
    by (meson neq_Nil_conv split_on_not_Nil)
  with Cons show ?case by (cases ps) (auto simp: join_with_Cons)
qed

lemma split_on_pieces: "p \<in> set (split_on c s) \<Longrightarrow> c \<notin> set p"
  by (induction s arbitrary: p) (auto split: list.splits if_splits)

lemma dropWhile_ws_id: "s = [] \<or> \<not> is_ws (hd s) \<Longrightarrow> dropWhile is_ws s = s"
  by (cases s) auto

lemma trim_id: "s = [] \<or> (\<not> is_ws (hd s) \<and> \<not> is_ws (last s)) \<Longrightarrow> trim s = s"
  unfolding trim_def trim_end_def trim_start_def
  by (cases "s = []") (auto simp: dropWhile_ws_id hd_rev)

lemma trim_ends: "trim s = [] \<or> (\<not> is_ws (hd (trim s)) \<and> \<not> is_ws (last (trim s)))"
proof (cases "trim s = []")
  case False
  let ?t = "dropWhile is_ws s"
  have t: "trim s = rev (dropWhile is_ws (rev ?t))"
    by (simp add: trim_def trim_end_def trim_start_def)
  have "\<not> is_ws (last (trim s))"
    using False hd_dropWhile[of is_ws "rev ?t"] by (simp add: t last_rev)
  moreover have "\<not> is_ws (hd (trim s))"
  proof -
    have "?t \<noteq> []"
    proof
      assume "?t = []"
      with t have "trim s = []" by (simp only: rev.simps dropWhile.simps)
      with False show False by simp
    qed
    then have "\<not> is_ws (hd ?t)" by (rule hd_dropWhile)
    moreover obtain u where "rev ?t = u @ dropWhile is_ws (rev ?t)"
      by (metis takeWhile_dropWhile_id)
    then have "?t = trim s @ rev u" by (metis rev_append rev_rev_ident t)
    ultimately show ?thesis using False by (metis hd_append2)
  qed
  ultimately show ?thesis by simp
qed simp

lemma trim_trim [simp]: "trim (trim s) = trim s"
  using trim_ends by (intro trim_id) blast

lemma set_trim: "set (trim s) \<subseteq> set s"
  unfolding trim_def trim_end_def trim_start_def
  by (auto dest!: set_dropWhileD)

lemma length_trim_end_le: "length (trim_end s) \<le> length s"
  unfolding trim_end_def by (metis length_dropWhile_le length_rev)

lemma utf8_chars_ascii: "(\<forall>c\<in>set s. \<not> is_cont c) \<Longrightarrow> utf8_chars s = map (\<lambda>c. [c]) s"
  by (induction s) (auto split: list.splits)

lemma concat_utf8_chars: "concat (utf8_chars s) = s"
proof (induction s)
  case Nil
  then show ?case by simp
next
  case (Cons c cs)
  then show ?case by (cases "utf8_chars cs") auto
qed

section \<open>Decimal round trip\<close>

lemma digit_char_props:
  assumes "d < 10"
  shows "is_digit (digit_char d)" and "digit_val (digit_char d) = d"
proof -
  have "d = 0 \<or> d = 1 \<or> d = 2 \<or> d = 3 \<or> d = 4 \<or> d = 5 \<or> d = 6 \<or> d = 7 \<or> d = 8 \<or> d = 9"
    using assms by arith
  then show "is_digit (digit_char d)" and "digit_val (digit_char d) = d"
    by (auto simp: digit_char_def is_digit_def digit_val_def less_eq_char_def)
qed

lemma digits_val_append:
  "digits_val acc (xs @ ys) = (case digits_val acc xs of None \<Rightarrow> None | Some a \<Rightarrow> digits_val a ys)"
  by (induction xs arbitrary: acc) auto

lemma digits_val_show: "digits_val 0 (show_nat n) = Some n"
proof (induction n rule: show_nat.induct)
  case (1 n)
  show ?case
  proof (cases "n < 10")
    case True
    then show ?thesis by (subst show_nat.simps) (simp add: digit_char_props)
  next
    case False
    with 1 show ?thesis
      by (subst show_nat.simps) (simp add: digits_val_append digit_char_props)
  qed
qed

lemma show_nat_inj: "show_nat a = show_nat b \<longleftrightarrow> a = b"
  by (metis digits_val_show option.inject)

lemma show_nat_digits: "c \<in> set (show_nat n) \<Longrightarrow> is_digit c"
proof (induction n rule: show_nat.induct)
  case (1 n)
  then show ?case
    by (subst (asm) (2) show_nat.simps) (auto split: if_splits simp: digit_char_props)
qed

lemma show_nat_not_Nil [simp]: "show_nat n \<noteq> []"
  by (subst show_nat.simps) simp

lemma show_int_inj: "show_int a = show_int b \<longleftrightarrow> a = b"
proof -
  have minus: "\<not> is_digit (CHR ''-'')"
    by (simp add: is_digit_def less_eq_char_def)
  have "show_nat n \<noteq> CHR ''-'' # r" for n r
    using show_nat_digits[of "CHR ''-''" n] minus by auto
  moreover from this have "CHR ''-'' # r \<noteq> show_nat n" for n r by metis
  ultimately show ?thesis
    by (auto simp: show_int_def show_nat_inj)
qed

lemma parse_u64_show: "n \<le> u64_max \<Longrightarrow> parse_u64 (show_nat n) = Some n"
proof -
  assume n: "n \<le> u64_max"
  obtain c cs where s: "show_nat n = c # cs"
    by (meson neq_Nil_conv show_nat_not_Nil)
  then have "is_digit c" using show_nat_digits[of c n] by simp
  then have "c \<noteq> CHR ''+''" by (auto simp: is_digit_def less_eq_char_def)
  with s n digits_val_show[of n] show ?thesis by (simp add: parse_u64_def)
qed

section \<open>Lemmas on lists\<close>

lemma boundary_below_le: "boundary_below s n \<le> n \<and> is_char_boundary s (boundary_below s n)"
  by (induction n) (auto simp: is_char_boundary_def)

lemma push_new_props: "distinct xs \<Longrightarrow> distinct (push_new xs x) \<and> set (push_new xs x) = insert x (set xs)"
  by (auto simp: push_new_def)

lemma set_foldl_push: "set (foldl push_new xs ys) = set xs \<union> set ys"
  by (induction ys arbitrary: xs) (auto simp: push_new_def)

lemma foldl_push_new: "distinct xs \<Longrightarrow>
    distinct (foldl push_new xs ys) \<and> set (foldl push_new xs ys) = set xs \<union> set ys"
proof (induction ys arbitrary: xs)
  case Nil
  then show ?case by simp
next
  case (Cons y ys)
  then show ?case using push_new_props[of xs y] by simp
qed

lemma distinct_push_new [simp]: "distinct (foldl push_new [] ys)"
  and set_push_new [simp]: "set (foldl push_new [] ys) = set ys"
  using foldl_push_new[of "[]" ys] by simp_all

lemma foldl_invariant:
  assumes "P s" and "\<And>s x. P s \<Longrightarrow> x \<in> set xs \<Longrightarrow> P (f s x)"
  shows "P (foldl f s xs)"
  using assms by (induction xs arbitrary: s) auto

lemma filter_Not_length_less:
  assumes "length xs = length ys"
    and "\<And>i. i < length xs \<Longrightarrow> xs ! i \<Longrightarrow> ys ! i"
    and "k < length xs" "\<not> xs ! k" "ys ! k"
  shows "length (filter Not ys) < length (filter Not xs)"
proof -
  have "length (filter Not zs) = card {i. i < length zs \<and> \<not> zs ! i}" for zs
    by (simp add: length_filter_conv_card)
  moreover have "{i. i < length ys \<and> \<not> ys ! i} \<subset> {i. i < length xs \<and> \<not> xs ! i}"
    using assms by auto
  ultimately show ?thesis
    by (simp add: psubset_card_mono)
qed

end
