(* ===== verification/Schedule.thy ===== *)
theory Schedule
  imports Prelude
begin

text \<open>
  \<open>autofork-core/src/schedule.rs\<close>: the \<open>after\<close> dependencies among the selected forks. A
  graph is a list \<open>deps\<close> with \<open>deps ! i\<close> the indices that must finish before node \<open>i\<close>.
  \<open>resolve_deps\<close> builds it and cuts its cycles, \<open>effective_priorities\<close> lifts each priority
  to the priorities of its predecessors. The reference notion is \<open>runnable\<close>, the least set
  closed under "all my dependencies are runnable"; the peel loops are shown to compute it.
\<close>

section \<open>Data and loops\<close>

record selected =
  sel_name :: str
  sel_after :: "str list"
  sel_priority :: int

definition name_to_idx :: "selected list \<Rightarrow> str \<Rightarrow> nat option" where
  "name_to_idx ss = map_of (rev (zip (map sel_name ss) [0..<length ss]))"

text \<open>\<open>Vec::dedup\<close> removes consecutive duplicates only.\<close>

fun dedup :: "'a list \<Rightarrow> 'a list" where
  "dedup (x # y # zs) = (if x = y then dedup (x # zs) else x # dedup (y # zs))"
| "dedup xs = xs"

definition initial_deps :: "selected list \<Rightarrow> nat list list" where
  "initial_deps ss = map (\<lambda>i. dedup (filter (\<lambda>d. d \<noteq> i)
       (List.map_filter (name_to_idx ss) (sel_after (ss ! i))))) [0..<length ss]"

text \<open>\<open>done[d]\<close>; an index out of range would panic, which never happens on the graphs built
  here (\<open>wf_initial_deps\<close>), and counts as not done.\<close>

definition done_at :: "bool list \<Rightarrow> nat \<Rightarrow> bool" where
  "done_at dn d \<longleftrightarrow> d < length dn \<and> dn ! d"

definition peel_step :: "nat list list \<Rightarrow> bool list \<times> bool \<Rightarrow> nat \<Rightarrow> bool list \<times> bool" where
  "peel_step deps st i = (case st of (dn, changed) \<Rightarrow>
     if \<not> done_at dn i \<and> list_all (done_at dn) (deps ! i) then (dn[i := True], True)
     else (dn, changed))"

definition peel_pass :: "nat list list \<Rightarrow> bool list \<Rightarrow> bool list \<times> bool" where
  "peel_pass deps dn = foldl (peel_step deps) (dn, False) [0..<length deps]"

lemma peel_step_take: "\<not> done_at dn i \<Longrightarrow> list_all (done_at dn) (deps ! i) \<Longrightarrow>
    peel_step deps (dn, c) i = (dn[i := True], True)"
  and peel_step_skip: "done_at dn i \<or> \<not> list_all (done_at dn) (deps ! i) \<Longrightarrow>
    peel_step deps (dn, c) i = (dn, c)"
  by (auto simp: peel_step_def)

lemma done_at_update: "done_at (dn[j := True]) i \<longleftrightarrow> done_at dn i \<or> (i = j \<and> j < length dn)"
  by (cases "i = j") (auto simp: done_at_def)

lemma peel_fold_props:
  assumes "foldl (peel_step deps) (dn, c) is = (dn', c')"
    and "\<forall>i\<in>set is. i < length dn"
  shows "length dn' = length dn \<and> (\<forall>i. done_at dn i \<longrightarrow> done_at dn' i)
    \<and> (c' \<longrightarrow> c \<or> (\<exists>i<length dn. \<not> dn ! i \<and> dn' ! i))"
  using assms
proof (induction "is" arbitrary: dn c)
  case Nil
  then show ?case by auto
next
  case (Cons j js)
  show ?case
  proof (cases "\<not> done_at dn j \<and> list_all (done_at dn) (deps ! j)")
    case False
    then have "peel_step deps (dn, c) j = (dn, c)" by (intro peel_step_skip) auto
    with Cons show ?thesis by auto
  next
    case True
    then have st: "peel_step deps (dn, c) j = (dn[j := True], True)" by (simp add: peel_step_take)
    from Cons.prems st have
      "length dn' = length dn \<and> (\<forall>i. done_at (dn[j := True]) i \<longrightarrow> done_at dn' i)"
      using Cons.IH[of "dn[j := True]" True] by auto
    then have len: "length dn' = length dn" and mono: "\<And>i. done_at dn i \<Longrightarrow> done_at dn' i"
      and "done_at dn' j" using Cons.prems by (auto simp: done_at_update)
    with True Cons.prems show ?thesis by (auto simp: done_at_def)
  qed
qed

lemma peel_pass_decreases:
  assumes "peel_pass deps dn = (dn', True)" "length dn = length deps"
  shows "length (filter Not dn') < length (filter Not dn)"
proof -
  have *: "length dn' = length dn \<and> (\<forall>i. done_at dn i \<longrightarrow> done_at dn' i)
      \<and> (\<exists>i<length dn. \<not> dn ! i \<and> dn' ! i)"
    using peel_fold_props[of deps dn False "[0..<length deps]" dn' True] assms
    by (auto simp: peel_pass_def)
  then obtain k where "k < length dn" "\<not> dn ! k" "dn' ! k" by blast
  with * show ?thesis
    by (intro filter_Not_length_less[of dn dn' k]) (auto simp: done_at_def)
qed

text \<open>The inner \<open>loop\<close>: passes until one changes nothing. \<open>dn\<close> always has one flag per node;
  the guard on the length is what the termination argument needs and holds at every call.\<close>

function peel_loop :: "nat list list \<Rightarrow> bool list \<Rightarrow> bool list" where
  "peel_loop deps dn = (case peel_pass deps dn of (dn', changed) \<Rightarrow>
     if changed \<and> length dn = length deps then peel_loop deps dn' else dn')"
  by pat_completeness auto
termination
  by (relation "measure (\<lambda>(deps, dn). length (filter Not dn))") (auto simp: peel_pass_decreases)

declare peel_loop.simps [simp del]

definition peel :: "nat list list \<Rightarrow> bool list" where
  "peel deps = peel_loop deps (replicate (length deps) False)"

section \<open>The peel closure is the least fixpoint\<close>

inductive runnable :: "nat list list \<Rightarrow> nat \<Rightarrow> bool" for deps where
  run: "i < length deps \<Longrightarrow> \<forall>d\<in>set (deps ! i). runnable deps d \<Longrightarrow> runnable deps i"

inductive_cases runnableE: "runnable deps i"

inductive_simps runnable_iff: "runnable deps i"

lemma runnable_lt: "runnable deps i \<Longrightarrow> i < length deps"
  by (erule runnableE)

definition sound_flags :: "nat list list \<Rightarrow> bool list \<Rightarrow> bool" where
  "sound_flags deps dn \<longleftrightarrow> length dn = length deps \<and> (\<forall>i. done_at dn i \<longrightarrow> runnable deps i)"

lemma peel_step_sound:
  "sound_flags deps (fst st) \<Longrightarrow> i < length deps \<Longrightarrow> sound_flags deps (fst (peel_step deps st i))"
  by (cases st) (auto simp: sound_flags_def peel_step_def list_all_iff done_at_update intro: run)

lemma peel_pass_sound:
  assumes "sound_flags deps dn"
  shows "sound_flags deps (fst (peel_pass deps dn))"
  unfolding peel_pass_def
  by (rule foldl_invariant) (auto simp: assms intro!: peel_step_sound)

lemma peel_fold_changed: "snd (foldl (peel_step deps) (dn, True) is)"
proof (induction "is" arbitrary: dn)
  case Nil
  then show ?case by simp
next
  case (Cons j js)
  then show ?case
    by (cases "\<not> done_at dn j \<and> list_all (done_at dn) (deps ! j)")
      (auto simp: peel_step_take peel_step_skip)
qed

lemma peel_fold_unchanged:
  assumes "foldl (peel_step deps) (dn, False) is = (dn', False)"
  shows "dn' = dn \<and> (\<forall>i\<in>set is. list_all (done_at dn) (deps ! i) \<longrightarrow> done_at dn i)"
  using assms
proof (induction "is")
  case Nil
  then show ?case by simp
next
  case (Cons j js)
  show ?case
  proof (cases "\<not> done_at dn j \<and> list_all (done_at dn) (deps ! j)")
    case True
    then have "foldl (peel_step deps) (dn[j := True], True) js = (dn', False)"
      using Cons.prems by (simp add: peel_step_take)
    then show ?thesis using peel_fold_changed[of deps "dn[j := True]" js] by simp
  next
    case False
    then have "peel_step deps (dn, False) j = (dn, False)" by (intro peel_step_skip) auto
    with Cons False show ?thesis by auto
  qed
qed

lemma peel_loop_correct:
  assumes "sound_flags deps dn"
  shows "length (peel_loop deps dn) = length deps \<and>
    (\<forall>i. done_at (peel_loop deps dn) i \<longleftrightarrow> runnable deps i)"
  using assms
proof (induction deps dn rule: peel_loop.induct)
  case (1 deps dn)
  obtain dn' changed where p: "peel_pass deps dn = (dn', changed)" by fastforce
  have s: "sound_flags deps dn'" using peel_pass_sound[OF "1.prems"] p by simp
  have len: "length dn = length deps" using "1.prems" by (simp add: sound_flags_def)
  show ?case
  proof (cases changed)
    case True
    with "1.IH"[OF p[symmetric]] s len p show ?thesis
      by (simp add: peel_loop.simps[of deps dn])
  next
    case False
    then have eq: "dn' = dn"
      and closed: "\<forall>i<length deps. list_all (done_at dn) (deps ! i) \<longrightarrow> done_at dn i"
      using peel_fold_unchanged[of deps dn "[0..<length deps]" dn'] p by (auto simp: peel_pass_def)
    have "done_at dn i" if "runnable deps i" for i
      using that by induction (use closed in \<open>auto simp: list_all_iff\<close>)
    with False p s eq show ?thesis
      by (auto simp: peel_loop.simps[of deps dn] sound_flags_def)
  qed
qed

lemma peel_correct: "done_at (peel deps) i \<longleftrightarrow> runnable deps i"
  and peel_length: "length (peel deps) = length deps"
proof -
  have "sound_flags deps (replicate (length deps) False)"
    by (auto simp: sound_flags_def done_at_def)
  from peel_loop_correct[OF this]
  show "done_at (peel deps) i \<longleftrightarrow> runnable deps i" and "length (peel deps) = length deps"
    by (auto simp: peel_def)
qed

section \<open>Cutting cycles\<close>

definition cut_node :: "nat list list \<Rightarrow> nat \<Rightarrow> nat list list" where
  "cut_node deps cn = deps[cn := filter (done_at (peel deps)) (deps ! cn)]"

lemma cut_node_mono:
  assumes "\<not> runnable deps cn" "runnable deps i"
  shows "runnable (cut_node deps cn) i"
  using assms(2)
proof induction
  case (run i)
  then have "runnable deps i" by (blast intro: runnable.run)
  with assms(1) have "i \<noteq> cn" by auto
  with run show ?case by (intro runnable.run) (auto simp: cut_node_def)
qed

lemma cut_node_runnable:
  assumes "\<not> runnable deps cn" "cn < length deps"
  shows "runnable (cut_node deps cn) cn"
  using assms by (intro runnable.run) (auto simp: cut_node_def peel_correct
      intro: cut_node_mono[OF assms(1), unfolded cut_node_def])

lemma length_cut_node [simp]: "length (cut_node deps cn) = length deps"
  by (simp add: cut_node_def)

lemma cut_node_decreases:
  assumes "\<not> done_at (peel deps) cn" "cn < length deps"
  shows "length (filter Not (peel (cut_node deps cn))) < length (filter Not (peel deps))"
proof (rule filter_Not_length_less[where k = cn])
  have nr: "\<not> runnable deps cn" using assms(1) by (simp add: peel_correct)
  show "length (peel deps) = length (peel (cut_node deps cn))" by (simp add: peel_length)
  show "peel (cut_node deps cn) ! i" if "i < length (peel deps)" "peel deps ! i" for i
    using that cut_node_mono[OF nr, of i] peel_correct[of deps i]
      peel_correct[of "cut_node deps cn" i] by (simp add: done_at_def)
  show "peel (cut_node deps cn) ! cn"
    using cut_node_runnable[OF nr assms(2)] peel_correct[of "cut_node deps cn" cn]
    by (simp add: done_at_def)
  show "cn < length (peel deps)" "\<not> peel deps ! cn"
    using assms by (auto simp: done_at_def peel_length)
qed

lemma find_upt_SomeD: "find P [0..<n] = Some i \<Longrightarrow> P i \<and> i < n"
  by (auto simp: find_Some_iff)

text \<open>The outer \<open>loop\<close>. The \<open>None\<close> branch stands for the panicking \<open>unwrap\<close>: it is only
  reached when every node is done, which the guard before it excludes.\<close>

function resolve_loop :: "nat list list \<Rightarrow> nat list list" where
  "resolve_loop deps =
     (if list_all (done_at (peel deps)) [0..<length deps] then deps
      else case find (\<lambda>i. \<not> done_at (peel deps) i) [0..<length deps] of
             None \<Rightarrow> deps
           | Some cn \<Rightarrow> resolve_loop (cut_node deps cn))"
  by pat_completeness auto
termination
  by (relation "measure (\<lambda>deps. length (filter Not (peel deps)))")
    (auto dest!: find_upt_SomeD simp: cut_node_decreases)

declare resolve_loop.simps [simp del]

definition resolve_deps :: "selected list \<Rightarrow> nat list list" where
  "resolve_deps ss = resolve_loop (initial_deps ss)"

definition roots :: "nat list list \<Rightarrow> nat list" where
  "roots deps = filter (\<lambda>i. deps ! i = []) [0..<length deps]"

lemma resolve_loop_all:
  "length (resolve_loop deps) = length deps
   \<and> (\<forall>i<length deps. runnable (resolve_loop deps) i)
   \<and> (\<forall>i<length deps. set (resolve_loop deps ! i) \<subseteq> set (deps ! i))
   \<and> (\<forall>i. runnable deps i \<longrightarrow> resolve_loop deps ! i = deps ! i)"
proof (induction deps rule: resolve_loop.induct)
  case (1 deps)
  show ?case
  proof (cases "list_all (done_at (peel deps)) [0..<length deps]")
    case True
    then have "resolve_loop deps = deps" by (subst resolve_loop.simps) simp
    with True show ?thesis by (auto simp: list_all_iff peel_correct)
  next
    case False
    then obtain cn where cn: "find (\<lambda>i. \<not> done_at (peel deps) i) [0..<length deps] = Some cn"
      by (cases "find (\<lambda>i. \<not> done_at (peel deps) i) [0..<length deps]")
        (auto simp: find_None_iff list_all_iff)
    from find_upt_SomeD[OF cn] have c: "\<not> runnable deps cn" "cn < length deps"
      by (simp_all add: peel_correct)
    have eq: "resolve_loop deps = resolve_loop (cut_node deps cn)"
      using False cn by (subst resolve_loop.simps) simp
    note IH = "1.IH"[OF False cn]
    have sub: "set (cut_node deps cn ! i) \<subseteq> set (deps ! i)" if "i < length deps" for i
      using that by (cases "i = cn") (auto simp: cut_node_def)
    have same: "cut_node deps cn ! i = deps ! i" if "runnable deps i" for i
      using that c by (auto simp: cut_node_def nth_list_update)
    have runs: "runnable (cut_node deps cn) i" if "runnable deps i" for i
      using that by (rule cut_node_mono[OF c(1)])
    have len: "length (resolve_loop (cut_node deps cn)) = length deps"
      and all: "\<forall>i<length deps. runnable (resolve_loop (cut_node deps cn)) i"
      using IH by simp_all
    have "set (resolve_loop (cut_node deps cn) ! i) \<subseteq> set (deps ! i)" if "i < length deps" for i
      using IH sub[OF that] that by (metis length_cut_node order_trans)
    moreover have "resolve_loop (cut_node deps cn) ! i = deps ! i" if "runnable deps i" for i
      using IH runs[OF that] same[OF that] by simp
    ultimately show ?thesis unfolding eq using len all by blast
  qed
qed

lemma length_initial_deps [simp]: "length (initial_deps ss) = length ss"
  by (simp add: initial_deps_def)

lemma length_resolve_deps [simp]: "length (resolve_deps ss) = length ss"
  by (simp add: resolve_deps_def resolve_loop_all)

lemma set_dedup [simp]: "set (dedup xs) = set xs"
  by (induction xs rule: dedup.induct) auto

lemma name_to_idx_Some: "name_to_idx ss a = Some d \<Longrightarrow> d < length ss \<and> sel_name (ss ! d) = a"
  by (auto simp: name_to_idx_def dest!: map_of_SomeD simp: set_zip)

lemma initial_deps_iff:
  "i < length ss \<Longrightarrow> d \<in> set (initial_deps ss ! i) \<longleftrightarrow>
     d \<noteq> i \<and> (\<exists>a\<in>set (sel_after (ss ! i)). name_to_idx ss a = Some d)"
  by (auto simp: initial_deps_def List.map_filter_def image_iff)

section \<open>Acyclic graphs: the contract the executor relies on\<close>

text \<open>What a client of \<open>resolve_deps\<close> (the wake builder, the final batch, the priority pass)
  needs of a graph: every node can run after finitely many others.\<close>

locale acyclic_deps =
  fixes deps :: "nat list list"
  assumes all_runnable: "i < length deps \<Longrightarrow> runnable deps i"
begin

lemma closed_is_full:
  assumes "\<And>i. i < length deps \<Longrightarrow> \<forall>d\<in>set (deps ! i). P d \<Longrightarrow> P i"
    and "i < length deps"
  shows "P i"
  using all_runnable[OF assms(2)] by induction (use assms(1) in blast)

lemma dep_lt:
  assumes "i < length deps" "d \<in> set (deps ! i)"
  shows "d < length deps"
proof -
  from all_runnable[OF assms(1)] have "\<forall>d\<in>set (deps ! i). runnable deps d"
    by (auto simp: runnable_iff[of deps i])
  with assms(2) show ?thesis by (auto dest: runnable_lt)
qed

lemma exists_ready:
  assumes "i < length deps" "\<not> P i"
  shows "\<exists>j<length deps. \<not> P j \<and> (\<forall>d\<in>set (deps ! j). P d)"
proof (rule ccontr)
  assume "\<not> ?thesis"
  then have "P i" using closed_is_full[of P i] assms(1) by blast
  with assms(2) show False by simp
qed

end

interpretation rd: acyclic_deps "resolve_deps ss" for ss
  by unfold_locales (simp add: resolve_deps_def resolve_loop_all)

section \<open>Effective priorities\<close>

record eff_state =
  es_eff :: "int list"
  es_done :: "bool list"
  es_resolved :: nat
  es_progressed :: bool

definition eff_step :: "nat list list \<Rightarrow> eff_state \<Rightarrow> nat \<Rightarrow> eff_state" where
  "eff_step deps s i =
     (if done_at (es_done s) i \<or> \<not> list_all (done_at (es_done s)) (deps ! i) then s
      else s\<lparr>es_eff := (es_eff s)[i := foldl (\<lambda>m d. max m (es_eff s ! d)) (es_eff s ! i) (deps ! i)],
             es_done := (es_done s)[i := True],
             es_resolved := es_resolved s + 1,
             es_progressed := True\<rparr>)"

definition eff_pass :: "nat list list \<Rightarrow> eff_state \<Rightarrow> eff_state" where
  "eff_pass deps s = foldl (eff_step deps) (s\<lparr>es_progressed := False\<rparr>) [0..<length deps]"

lemma eff_step_resolved:
  "es_resolved s \<le> es_resolved (eff_step deps s i)
   \<and> (es_progressed (eff_step deps s i) \<longrightarrow>
        es_progressed s \<or> es_resolved s < es_resolved (eff_step deps s i))"
  by (simp add: eff_step_def)

lemma eff_fold_resolved:
  "es_resolved s \<le> es_resolved (foldl (eff_step deps) s is)
   \<and> (es_progressed (foldl (eff_step deps) s is) \<longrightarrow>
        es_progressed s \<or> es_resolved s < es_resolved (foldl (eff_step deps) s is))"
proof (induction "is" arbitrary: s)
  case Nil
  then show ?case by simp
next
  case (Cons j js)
  from Cons[of "eff_step deps s j"] eff_step_resolved[of s deps j] show ?case by auto
qed

lemma eff_pass_resolved:
  "es_progressed (eff_pass deps s) \<Longrightarrow> es_resolved s < es_resolved (eff_pass deps s)"
  using eff_fold_resolved[of "s\<lparr>es_progressed := False\<rparr>" deps "[0..<length deps]"]
  by (auto simp: eff_pass_def)

function eff_loop :: "nat list list \<Rightarrow> eff_state \<Rightarrow> eff_state" where
  "eff_loop deps s =
     (if es_resolved s < length deps
      then (if es_progressed (eff_pass deps s) then eff_loop deps (eff_pass deps s)
            else eff_pass deps s)
      else s)"
  by pat_completeness auto
termination
  by (relation "measure (\<lambda>(deps, s). length deps - es_resolved s)")
    (auto dest: eff_pass_resolved)

declare eff_loop.simps [simp del]

definition effective_priorities :: "selected list \<Rightarrow> nat list list \<Rightarrow> int list" where
  "effective_priorities ss deps = es_eff (eff_loop deps
     \<lparr>es_eff = map sel_priority ss, es_done = replicate (length deps) False,
      es_resolved = 0, es_progressed = False\<rparr>)"

text \<open>The invariant of the pass: a settled node carries the priority its equation prescribes,
  and all its predecessors are settled; an unsettled one still its declared priority.\<close>

definition eff_inv :: "(nat \<Rightarrow> int) \<Rightarrow> nat list list \<Rightarrow> eff_state \<Rightarrow> bool" where
  "eff_inv prio deps s \<longleftrightarrow>
     length (es_eff s) = length deps \<and> length (es_done s) = length deps
     \<and> es_resolved s = length (filter id (es_done s))
     \<and> (\<forall>i<length deps. if done_at (es_done s) i
          then list_all (done_at (es_done s)) (deps ! i)
            \<and> es_eff s ! i = foldl (\<lambda>m d. max m (es_eff s ! d)) (prio i) (deps ! i)
          else es_eff s ! i = prio i)"

lemma filter_id_update:
  "i < length bs \<Longrightarrow> \<not> bs ! i \<Longrightarrow> length (filter id (bs[i := True])) = Suc (length (filter id bs))"
proof (induction bs arbitrary: i)
  case Nil
  then show ?case by simp
next
  case (Cons b bs)
  then show ?case by (cases i) auto
qed

lemma foldl_max_cong:
  "(\<And>d. d \<in> set ds \<Longrightarrow> f d = g d) \<Longrightarrow>
     foldl (\<lambda>m d. max m (f d)) (a :: int) ds = foldl (\<lambda>m d. max m (g d)) a ds"
  by (induction ds arbitrary: a) auto

lemma eff_step_inv:
  assumes inv: "eff_inv prio deps s" and i: "i < length deps"
  shows "eff_inv prio deps (eff_step deps s i)"
proof (cases "done_at (es_done s) i \<or> \<not> list_all (done_at (es_done s)) (deps ! i)")
  case True
  with inv show ?thesis by (simp add: eff_step_def)
next
  case False
  let ?dn = "es_done s" and ?eff = "es_eff s"
  let ?e = "foldl (\<lambda>m d. max m (?eff ! d)) (?eff ! i) (deps ! i)"
  have st: "eff_step deps s i = s\<lparr>es_eff := ?eff[i := ?e], es_done := ?dn[i := True],
      es_resolved := es_resolved s + 1, es_progressed := True\<rparr>"
    using False by (simp add: eff_step_def)
  have len: "length ?eff = length deps" "length ?dn = length deps"
    using inv by (simp_all add: eff_inv_def)
  have keep: "foldl (\<lambda>m d. max m (?eff[i := ?e] ! d)) a ds = foldl (\<lambda>m d. max m (?eff ! d)) a ds"
    if "list_all (done_at ?dn) ds" for a ds
  proof (rule foldl_max_cong)
    fix d assume "d \<in> set ds"
    with that False have "d \<noteq> i" by (auto simp: list_all_iff)
    then show "?eff[i := ?e] ! d = ?eff ! d" by simp
  qed
  have "if done_at (?dn[i := True]) k
          then list_all (done_at (?dn[i := True])) (deps ! k)
            \<and> ?eff[i := ?e] ! k = foldl (\<lambda>m d. max m (?eff[i := ?e] ! d)) (prio k) (deps ! k)
          else ?eff[i := ?e] ! k = prio k" if k: "k < length deps" for k
  proof (cases "k = i")
    case True
    have "?eff ! i = prio i" using inv i False by (auto simp: eff_inv_def)
    moreover have "list_all (done_at ?dn) (deps ! i)" using False by simp
    ultimately show ?thesis
      using True False i len keep[of "deps ! i" "prio i"] by (simp add: done_at_update list_all_iff)
  next
    case neq: False
    from inv k have "if done_at ?dn k then list_all (done_at ?dn) (deps ! k)
            \<and> ?eff ! k = foldl (\<lambda>m d. max m (?eff ! d)) (prio k) (deps ! k)
          else ?eff ! k = prio k" by (simp add: eff_inv_def)
    with neq show ?thesis
      by (cases "done_at ?dn k") (auto simp: done_at_update keep list_all_iff)
  qed
  moreover have "es_resolved s + 1 = length (filter id (?dn[i := True]))"
    using inv False i len by (simp add: eff_inv_def filter_id_update done_at_def)
  ultimately show ?thesis using len by (simp add: st eff_inv_def)
qed

lemma eff_pass_inv: "eff_inv prio deps s \<Longrightarrow> eff_inv prio deps (eff_pass deps s)"
  unfolding eff_pass_def
  by (rule foldl_invariant) (auto intro!: eff_step_inv simp: eff_inv_def[of _ _ "_\<lparr>es_progressed := False\<rparr>"] eff_inv_def[of _ _ s])

lemma eff_fold_progressed: "es_progressed s \<Longrightarrow> es_progressed (foldl (eff_step deps) s is)"
  by (induction "is" arbitrary: s) (auto simp: eff_step_def)

lemma eff_fold_stuck:
  assumes "\<not> es_progressed (foldl (eff_step deps) s is)"
  shows "foldl (eff_step deps) s is = s
    \<and> (\<forall>i\<in>set is. list_all (done_at (es_done s)) (deps ! i) \<longrightarrow> done_at (es_done s) i)"
  using assms
proof (induction "is")
  case Nil
  then show ?case by simp
next
  case (Cons j js)
  show ?case
  proof (cases "done_at (es_done s) j \<or> \<not> list_all (done_at (es_done s)) (deps ! j)")
    case True
    then have "eff_step deps s j = s" by (simp add: eff_step_def)
    with Cons True show ?thesis by auto
  next
    case False
    then have "es_progressed (eff_step deps s j)" by (simp add: eff_step_def)
    with Cons.prems show ?thesis by (simp add: eff_fold_progressed)
  qed
qed

lemma filter_id_full: "length (filter id bs) = length bs \<Longrightarrow> i < length bs \<Longrightarrow> bs ! i"
  by (metis filter_id_conv id_apply length_filter_less nat_neq_iff nth_mem)

lemma eff_loop_correct:
  assumes "acyclic_deps deps" "eff_inv prio deps s"
  shows "eff_inv prio deps (eff_loop deps s)
    \<and> (\<forall>i<length deps. done_at (es_done (eff_loop deps s)) i)"
  using assms(2,1)
proof (induction deps s rule: eff_loop.induct)
  case (1 deps s)
  note inv' = eff_pass_inv[OF "1.prems"(1)]
  consider "\<not> es_resolved s < length deps"
    | "es_resolved s < length deps" "es_progressed (eff_pass deps s)"
    | "es_resolved s < length deps" "\<not> es_progressed (eff_pass deps s)" by blast
  then show ?case
  proof cases
    case a: 1
    then have "length (filter id (es_done s)) = length (es_done s)"
      using "1.prems"(1) length_filter_le[of id "es_done s"] by (simp add: eff_inv_def)
    then have "\<forall>i<length deps. done_at (es_done s) i"
      using "1.prems"(1) filter_id_full[of "es_done s"] by (auto simp: eff_inv_def done_at_def)
    with a "1.prems" show ?thesis by (simp add: eff_loop.simps[of deps s])
  next
    case 2
    with "1.IH" inv' "1.prems"(2) show ?thesis by (simp add: eff_loop.simps[of deps s])
  next
    case 3
    then have eq: "eff_pass deps s = s\<lparr>es_progressed := False\<rparr>"
      and closed: "\<forall>i<length deps. list_all (done_at (es_done s)) (deps ! i) \<longrightarrow> done_at (es_done s) i"
      using eff_fold_stuck[of deps "s\<lparr>es_progressed := False\<rparr>" "[0..<length deps]"]
      by (auto simp: eff_pass_def)
    have "done_at (es_done s) i" if "i < length deps" for i
    proof (rule acyclic_deps.closed_is_full[OF "1.prems"(2) _ that])
      show "done_at (es_done s) k" if "k < length deps" "\<forall>d\<in>set (deps ! k). done_at (es_done s) d" for k
        using closed that by (simp add: list_all_iff)
    qed
    with 3 inv' eq show ?thesis by (simp add: eff_loop.simps[of deps s])
  qed
qed

lemma effective_priorities_eq:
  assumes "acyclic_deps deps" "length deps = length ss"
  shows "length (effective_priorities ss deps) = length ss
    \<and> (\<forall>i<length ss. effective_priorities ss deps ! i =
          foldl (\<lambda>m d. max m (effective_priorities ss deps ! d)) (sel_priority (ss ! i)) (deps ! i))"
proof -
  let ?s = "\<lparr>es_eff = map sel_priority ss, es_done = replicate (length deps) False,
      es_resolved = 0, es_progressed = False\<rparr>"
  have "eff_inv (\<lambda>i. sel_priority (ss ! i)) deps ?s"
    using assms(2) by (simp add: eff_inv_def done_at_def)
  from eff_loop_correct[OF assms(1) this] assms(2) show ?thesis
    by (auto simp: effective_priorities_def eff_inv_def)
qed

lemma foldl_max_ge: "(a :: int) \<le> foldl (\<lambda>m d. max m (f d)) a ds
  \<and> (\<forall>d\<in>set ds. f d \<le> foldl (\<lambda>m d. max m (f d)) a ds)"
proof (induction ds arbitrary: a)
  case Nil
  then show ?case by simp
next
  case (Cons d ds)
  from Cons[of "max a (f d)"] show ?case by auto
qed

lemma foldl_max_attained: "foldl (\<lambda>m d. max m (f d)) (a :: int) ds = a
  \<or> (\<exists>d\<in>set ds. foldl (\<lambda>m d. max m (f d)) a ds = f d)"
proof (induction ds arbitrary: a)
  case Nil
  then show ?case by simp
next
  case (Cons d ds)
  from Cons[of "max a (f d)"] show ?case by (auto simp: max_def split: if_splits)
qed

section \<open>Properties\<close>

definition dep_edges :: "nat list list \<Rightarrow> (nat \<times> nat) set" where
  "dep_edges deps = {(i, d). i < length deps \<and> d \<in> set (deps ! i)}"

text \<open>C29. \<open>resolve_deps\<close> returns one dependency list per selected fork, and the graph is always
  acyclic: every fork becomes runnable once its dependencies have run, so readiness counting
  never deadlocks. (The function is total: both loops terminate on every input.)\<close>

theorem resolve_deps_acyclic:
  "length (resolve_deps ss) = length ss
   \<and> list_all (runnable (resolve_deps ss)) [0..<length ss]
   \<and> peel (resolve_deps ss) = replicate (length ss) True"
proof -
  have all: "runnable (resolve_deps ss) i" if "i < length ss" for i
    using rd.all_runnable[of i ss] that by simp
  then have "peel (resolve_deps ss) = replicate (length ss) True"
    using peel_correct[of "resolve_deps ss"] peel_length[of "resolve_deps ss"]
    by (intro nth_equalityI) (auto simp: done_at_def)
  with all show ?thesis by (simp add: list_all_iff)
qed

text \<open>An edge of the resolved graph always comes from an \<open>after\<close> entry naming another
  selected fork: an unselected dependency and a self-edge are dropped, and nothing is
  invented.\<close>

theorem resolve_deps_edges:
  assumes "i < length ss" "d \<in> set (resolve_deps ss ! i)"
  shows "d \<noteq> i \<and> d < length ss \<and> sel_name (ss ! d) \<in> set (sel_after (ss ! i))"
proof -
  have "d \<in> set (initial_deps ss ! i)"
    using assms resolve_loop_all[of "initial_deps ss"] by (auto simp: resolve_deps_def)
  with assms(1) show ?thesis by (auto simp: initial_deps_iff dest: name_to_idx_Some)
qed

definition two_cycle :: "selected list" where
  "two_cycle = [\<lparr>sel_name = ''a'', sel_after = [''b''], sel_priority = 5\<rparr>,
                \<lparr>sel_name = ''b'', sel_after = [''a'', ''zz''], sel_priority = 1\<rparr>]"

lemma resolve_two_cycle: "resolve_deps two_cycle = [[], [0]]"
  by code_simp

theorem resolve_deps_edges_witness: "(0 :: nat) \<noteq> 1 \<and> sel_name (two_cycle ! 0) \<in> set (sel_after (two_cycle ! 1))"
  using resolve_deps_edges[of 1 two_cycle 0] by (simp add: resolve_two_cycle) (simp add: two_cycle_def)

text \<open>Cutting is minimal in reach: a fork that does not sit on or behind a cycle of the
  declared \<open>after\<close> graph keeps all its dependencies, so an acyclic declaration is executed
  exactly as written.\<close>

theorem resolve_deps_keeps_acyclic:
  assumes "runnable (initial_deps ss) i"
  shows "resolve_deps ss ! i = initial_deps ss ! i"
  using assms resolve_loop_all[of "initial_deps ss"] by (simp add: resolve_deps_def)

theorem resolve_deps_keeps_acyclic_witness:
  "resolve_deps [\<lparr>sel_name = ''a'', sel_after = [], sel_priority = 0\<rparr>,
                 \<lparr>sel_name = ''b'', sel_after = [''a''], sel_priority = 0\<rparr>] ! 1 = [0]"
proof -
  let ?ss = "[\<lparr>sel_name = ''a'', sel_after = [], sel_priority = 0\<rparr>,
              \<lparr>sel_name = ''b'', sel_after = [''a''], sel_priority = 0\<rparr>] :: selected list"
  have i: "initial_deps ?ss = [[], [0]]" by code_simp
  have "runnable [[], [0]] 0" by (intro runnable.run) auto
  then have "runnable [[], [0 :: nat]] 1" by (intro runnable.run) auto
  then show ?thesis using resolve_deps_keeps_acyclic[of ?ss 1] by (simp add: i)
qed

text \<open>\<open>effective_priorities\<close> is exactly the least lifting: each fork's value is at least its
  declared priority and at least the value of every predecessor (so a dependent never lands in
  an earlier wave than something it runs after), and it is attained by the declared priority of
  the fork or of one it transitively depends on.\<close>

theorem effective_priorities_exact:
  assumes "i < length ss"
  defines "eff \<equiv> effective_priorities ss (resolve_deps ss)"
  shows "sel_priority (ss ! i) \<le> eff ! i
    \<and> (\<forall>d\<in>set (resolve_deps ss ! i). eff ! d \<le> eff ! i)
    \<and> (\<exists>j<length ss. (i, j) \<in> (dep_edges (resolve_deps ss))\<^sup>* \<and> eff ! i = sel_priority (ss ! j))"
proof -
  let ?deps = "resolve_deps ss"
  have eq: "\<forall>k<length ss. eff ! k = foldl (\<lambda>m d. max m (eff ! d)) (sel_priority (ss ! k)) (?deps ! k)"
    using effective_priorities_eq[OF rd.acyclic_deps_axioms, of ss] by (simp add: eff_def)
  have ge: "sel_priority (ss ! i) \<le> eff ! i \<and> (\<forall>d\<in>set (?deps ! i). eff ! d \<le> eff ! i)"
    using eq assms(1) foldl_max_ge[of "sel_priority (ss ! i)" "\<lambda>d. eff ! d" "?deps ! i"] by metis
  have "\<exists>j<length ss. (i, j) \<in> (dep_edges ?deps)\<^sup>* \<and> eff ! i = sel_priority (ss ! j)"
  proof (rule rd.closed_is_full[of ss])
    fix k assume k: "k < length ?deps"
      and IH: "\<forall>d\<in>set (?deps ! k). \<exists>j<length ss. (d, j) \<in> (dep_edges ?deps)\<^sup>* \<and> eff ! d = sel_priority (ss ! j)"
    have "eff ! k = foldl (\<lambda>m d. max m (eff ! d)) (sel_priority (ss ! k)) (?deps ! k)"
      using eq k by simp
    then consider "eff ! k = sel_priority (ss ! k)" | d where "d \<in> set (?deps ! k)" "eff ! k = eff ! d"
      using foldl_max_attained[of "\<lambda>d. eff ! d" "sel_priority (ss ! k)" "?deps ! k"] by metis
    then show "\<exists>j<length ss. (k, j) \<in> (dep_edges ?deps)\<^sup>* \<and> eff ! k = sel_priority (ss ! j)"
    proof cases
      case 1
      with k show ?thesis by auto
    next
      case 2
      then have "(k, d) \<in> dep_edges ?deps" using k by (simp add: dep_edges_def)
      with IH 2 show ?thesis by (metis converse_rtrancl_into_rtrancl)
    qed
  qed (simp add: assms(1))
  with ge show ?thesis by blast
qed

theorem effective_priorities_exact_witness:
  "effective_priorities two_cycle (resolve_deps two_cycle) = [5, 5] \<and>
   sel_priority (two_cycle ! 1) \<le> effective_priorities two_cycle (resolve_deps two_cycle) ! 1"
proof -
  have "effective_priorities two_cycle [[], [0]] = [5, 5]" by code_simp
  moreover have "1 < length two_cycle" by (simp add: two_cycle_def)
  ultimately show ?thesis
    using effective_priorities_exact[of 1 two_cycle] by (simp add: resolve_two_cycle)
qed

end
