(* ===== verification/Paths.thy ===== *)
theory Paths
  imports Prelude
begin

text \<open>
  Unix paths: the parts of Rust's \<open>std::path\<close> the code uses, \<open>sys::canonical\<close> and
  \<open>sys::home_dir\<close>, and the lexical and canonical normalisations of \<open>guard/mod.rs\<close>
  (\<open>normalize\<close>, \<open>canonical_prefix\<close>), on which every write-set decision rests.
  The file system is the record \<open>fsys\<close>, a parameter of the functions that consult it.
\<close>

section \<open>\<open>std::path\<close> on Unix\<close>

datatype comp = RootDir | CurDir | ParentDir | Normal str

definition slash :: char where
  "slash = CHR 0x2F"

definition is_abs :: "path \<Rightarrow> bool" where
  "is_abs p \<longleftrightarrow> starts_with p [slash]"

definition comp_of :: "str \<Rightarrow> comp list" where
  "comp_of s = (if s = [] \<or> s = ''.'' then [] else if s = ''..'' then [ParentDir] else [Normal s])"

text \<open>\<open>Path::components\<close>: repeated separators and inner \<open>.\<close> vanish; a leading \<open>.\<close> of a relative
  path stays.\<close>

definition components :: "path \<Rightarrow> comp list" where
  "components p =
     (let segs = split_on slash p
      in if is_abs p then RootDir # concat (map comp_of segs)
         else if hd segs = ''.'' then CurDir # concat (map comp_of (tl segs))
         else concat (map comp_of segs))"

definition comp_str :: "comp \<Rightarrow> str" where
  "comp_str c = (case c of RootDir \<Rightarrow> [slash] | CurDir \<Rightarrow> ''.'' | ParentDir \<Rightarrow> ''..'' | Normal s \<Rightarrow> s)"

text \<open>\<open>PathBuf::push\<close>.\<close>

definition path_push :: "path \<Rightarrow> path \<Rightarrow> path" where
  "path_push p q =
     (if is_abs q then q
      else if p \<noteq> [] \<and> last p \<noteq> slash then p @ [slash] @ q
      else p @ q)"

abbreviation path_join :: "path \<Rightarrow> path \<Rightarrow> path" where
  "path_join \<equiv> path_push"

text \<open>The path that pushing the components one by one onto an empty buffer gives.\<close>

definition path_of :: "comp list \<Rightarrow> path" where
  "path_of cs = foldl (\<lambda>p c. path_push p (comp_str c)) [] cs"

definition parent_comps :: "comp list \<Rightarrow> comp list option" where
  "parent_comps cs = (if cs = [] \<or> last cs = RootDir then None else Some (butlast cs))"

definition path_parent :: "path \<Rightarrow> path option" where
  "path_parent p = map_option path_of (parent_comps (components p))"

definition path_file_name :: "path \<Rightarrow> str option" where
  "path_file_name p = (case rev (components p) of Normal n # _ \<Rightarrow> Some n | _ \<Rightarrow> None)"

text \<open>\<open>==\<close> and \<open>starts_with\<close> on paths compare components.\<close>

definition path_eq :: "path \<Rightarrow> path \<Rightarrow> bool" where
  "path_eq p q \<longleftrightarrow> components p = components q"

definition path_starts_with :: "path \<Rightarrow> path \<Rightarrow> bool" where
  "path_starts_with p base \<longleftrightarrow> starts_with (components p) (components base)"

text \<open>\<open>Path::file_stem\<close>: the file name up to its last dot, a leading dot not counting.\<close>

definition path_file_stem :: "path \<Rightarrow> str option" where
  "path_file_stem p = map_option (\<lambda>n.
     let ps = split_on (CHR ''.'') n
     in if length ps < 2 \<or> butlast ps = [[]] then n else join_with ''.'' (butlast ps))
     (path_file_name p)"

section \<open>The file system the code consults\<close>

record fsys =
  fs_exists :: "path \<Rightarrow> bool"
  fs_canonicalize :: "path \<Rightarrow> path option"
  fs_is_file :: "path \<Rightarrow> bool"
  fs_is_dir :: "path \<Rightarrow> bool"
  fs_len :: "path \<Rightarrow> nat"
  fs_read :: "path \<Rightarrow> str option"
  fs_env :: "str \<Rightarrow> str option"

definition home_dir :: "fsys \<Rightarrow> path option" where
  "home_dir fs = (case fs_env fs ''HOME'' of None \<Rightarrow> None
     | Some h \<Rightarrow> if h = [] then None else Some h)"

definition canonical :: "fsys \<Rightarrow> path \<Rightarrow> path" where
  "canonical fs p = (case fs_canonicalize fs p of Some c \<Rightarrow> c | None \<Rightarrow> p)"

section \<open>Normalisation\<close>

text \<open>\<open>PathBuf::pop\<close> on the buffers \<open>normalize\<close> builds.\<close>

definition pop_comp :: "comp list \<Rightarrow> comp list" where
  "pop_comp cs = (case parent_comps cs of Some cs' \<Rightarrow> cs' | None \<Rightarrow> cs)"

definition norm_step :: "comp list \<Rightarrow> comp \<Rightarrow> comp list" where
  "norm_step out c = (case c of CurDir \<Rightarrow> out | ParentDir \<Rightarrow> pop_comp out
     | RootDir \<Rightarrow> [RootDir] | Normal s \<Rightarrow> out @ [Normal s])"

definition norm_comps :: "comp list \<Rightarrow> comp list" where
  "norm_comps cs = foldl norm_step [] cs"

definition normalize :: "path \<Rightarrow> path" where
  "normalize p = path_of (norm_comps (components p))"

fun split_existing :: "fsys \<Rightarrow> comp list \<Rightarrow> str list \<Rightarrow> comp list \<times> str list" where
  "split_existing fs [] rest = ([], rest)"
| "split_existing fs (c # cs) rest =
     (if fs_exists fs (path_of (rev (c # cs))) then (rev (c # cs), rest)
      else case c of Normal n \<Rightarrow> split_existing fs cs (n # rest) | _ \<Rightarrow> (rev (c # cs), rest))"

definition canonical_prefix :: "fsys \<Rightarrow> path \<Rightarrow> path" where
  "canonical_prefix fs p =
     (case split_existing fs (rev (components (normalize p))) [] of
        (ex, rest) \<Rightarrow> foldl path_push (canonical fs (path_of ex)) rest)"

section \<open>Lemmas\<close>

definition plain_name :: "str \<Rightarrow> bool" where
  "plain_name s \<longleftrightarrow> s \<noteq> [] \<and> s \<noteq> ''.'' \<and> s \<noteq> ''..'' \<and> slash \<notin> set s"

fun plain_comp :: "comp \<Rightarrow> bool" where
  "plain_comp (Normal s) = plain_name s"
| "plain_comp _ = False"

definition abs_plain :: "comp list \<Rightarrow> bool" where
  "abs_plain cs \<longleftrightarrow> (\<exists>ns. cs = RootDir # map Normal ns \<and> list_all plain_name ns)"

lemma comp_of_plain: "plain_name s \<Longrightarrow> comp_of s = [Normal s]"
  by (simp add: comp_of_def plain_name_def)

lemma comp_of_cases: "slash \<notin> set s \<Longrightarrow> c \<in> set (comp_of s) \<Longrightarrow> c = ParentDir \<or> plain_comp c"
  by (auto simp: comp_of_def plain_name_def split: if_splits)

lemma not_abs_plain_name: "plain_name s \<Longrightarrow> \<not> is_abs s"
  by (cases s) (auto simp: plain_name_def is_abs_def)

lemma path_push_plain:
  "plain_name s \<Longrightarrow> p \<noteq> [] \<Longrightarrow> path_push p s = (if last p = slash then p @ s else p @ [slash] @ s)"
  by (simp add: path_push_def not_abs_plain_name)

lemma last_plain_name: "plain_name s \<Longrightarrow> s \<noteq> [] \<and> last s \<noteq> slash"
  using last_in_set by (fastforce simp: plain_name_def)

lemma path_of_abs_plain:
  "list_all plain_name ns \<Longrightarrow>
     path_of (RootDir # map Normal ns) = slash # join_with [slash] ns
     \<and> (ns \<noteq> [] \<longrightarrow> last (path_of (RootDir # map Normal ns)) \<noteq> slash)"
proof (induction ns rule: rev_induct)
  case Nil
  then show ?case by (simp add: path_of_def comp_str_def path_push_def is_abs_def)
next
  case (snoc n ns)
  let ?p = "path_of (RootDir # map Normal ns)"
  have step: "path_of (RootDir # map Normal (ns @ [n])) = path_push ?p n"
    by (simp add: path_of_def comp_str_def)
  have join: "join_with [slash] (ns @ [n]) = (if ns = [] then n else join_with [slash] ns @ slash # n)"
    by (induction ns) (auto simp: join_with_Cons)
  from snoc have n: "plain_name n" and IH: "?p = slash # join_with [slash] ns"
    "ns \<noteq> [] \<longrightarrow> last ?p \<noteq> slash" by auto
  from IH(1) have ne: "?p \<noteq> []" by simp
  have "path_push ?p n = slash # join_with [slash] (ns @ [n])"
  proof (cases "ns = []")
    case True
    with IH(1) path_push_plain[OF n ne] show ?thesis by simp
  next
    case False
    with IH path_push_plain[OF n ne] join show ?thesis by simp
  qed
  moreover have "last (path_push ?p n) \<noteq> slash"
    using path_push_plain[OF n ne] last_plain_name[OF n] by simp
  ultimately show ?case using step by simp
qed

lemma components_abs_plain:
  assumes "list_all plain_name ns"
  shows "components (slash # join_with [slash] ns) = RootDir # map Normal ns"
proof (cases "ns = []")
  case True
  then show ?thesis by (simp add: components_def is_abs_def comp_of_def)
next
  case False
  have "split_on slash (join_with [slash] ns) = ns"
    using False assms by (intro split_join) (auto simp: plain_name_def list_all_iff)
  moreover have "concat (map comp_of ns) = map Normal ns"
    using assms by (induction ns) (auto simp: comp_of_plain)
  ultimately show ?thesis
    by (simp add: components_def is_abs_def Let_def) (simp add: comp_of_def)
qed

lemma components_path_of: "abs_plain cs \<Longrightarrow> components (path_of cs) = cs"
  using path_of_abs_plain components_abs_plain by (auto simp: abs_plain_def)

lemma abs_plain_snoc: "abs_plain cs \<Longrightarrow> plain_name s \<Longrightarrow> abs_plain (cs @ [Normal s])"
proof -
  assume "abs_plain cs" "plain_name s"
  then obtain ns where "cs = RootDir # map Normal ns" "list_all plain_name ns"
    by (auto simp: abs_plain_def)
  with \<open>plain_name s\<close> show ?thesis unfolding abs_plain_def
    by (intro exI[of _ "ns @ [s]"]) auto
qed

lemma abs_plain_pop: "abs_plain cs \<Longrightarrow> abs_plain (pop_comp cs)"
proof -
  assume "abs_plain cs"
  then obtain ns where ns: "cs = RootDir # map Normal ns" "list_all plain_name ns"
    by (auto simp: abs_plain_def)
  show ?thesis
  proof (cases ns rule: rev_cases)
    case Nil
    with ns show ?thesis by (auto simp: pop_comp_def parent_comps_def abs_plain_def)
  next
    case (snoc ms m)
    with ns have "pop_comp cs = RootDir # map Normal ms" "list_all plain_name ms"
      by (auto simp: pop_comp_def parent_comps_def butlast_append)
    then show ?thesis by (auto simp: abs_plain_def)
  qed
qed

lemma abs_plain_Root [simp]: "abs_plain [RootDir]"
  by (auto simp: abs_plain_def)

lemma norm_step_abs_plain:
  "abs_plain out \<Longrightarrow> plain_comp c \<or> c = ParentDir \<or> c = CurDir \<or> c = RootDir \<Longrightarrow>
     abs_plain (norm_step out c)"
  by (cases c) (auto simp: norm_step_def abs_plain_snoc abs_plain_pop)

lemma components_parts:
  assumes "is_abs p"
  obtains cs where "components p = RootDir # cs" "\<forall>c\<in>set cs. plain_comp c \<or> c = ParentDir"
proof
  show "components p = RootDir # concat (map comp_of (split_on slash p))"
    using assms by (simp add: components_def Let_def)
  show "\<forall>c\<in>set (concat (map comp_of (split_on slash p))). plain_comp c \<or> c = ParentDir"
    using comp_of_cases split_on_pieces by fastforce
qed

lemma norm_comps_abs_plain:
  assumes "is_abs p"
  shows "abs_plain (norm_comps (components p))"
proof -
  obtain cs where cs: "components p = RootDir # cs" "\<forall>c\<in>set cs. plain_comp c \<or> c = ParentDir"
    using components_parts[OF assms] by blast
  have "abs_plain (foldl norm_step [RootDir] cs)"
    by (rule foldl_invariant) (use cs(2) in \<open>auto intro: norm_step_abs_plain\<close>)
  then show ?thesis by (simp add: norm_comps_def cs(1) norm_step_def)
qed

lemma components_normalize:
  "is_abs p \<Longrightarrow> components (normalize p) = norm_comps (components p)"
  by (simp add: normalize_def components_path_of norm_comps_abs_plain)

lemma is_abs_normalize: "is_abs p \<Longrightarrow> is_abs (normalize p)"
proof -
  assume "is_abs p"
  then obtain ns where ns: "norm_comps (components p) = RootDir # map Normal ns" "list_all plain_name ns"
    using norm_comps_abs_plain by (auto simp: abs_plain_def)
  have "normalize p = slash # join_with [slash] ns"
    using path_of_abs_plain[OF ns(2)] by (simp add: normalize_def ns(1))
  then show ?thesis by (simp add: is_abs_def)
qed

lemma norm_comps_abs_plain_id: "abs_plain cs \<Longrightarrow> norm_comps cs = cs"
proof -
  assume "abs_plain cs"
  then obtain ns where cs: "cs = RootDir # map Normal ns" by (auto simp: abs_plain_def)
  have "foldl norm_step acc (map Normal ns) = acc @ map Normal ns" for acc
    by (induction ns arbitrary: acc) (auto simp: norm_step_def)
  then show ?thesis by (simp add: norm_comps_def cs norm_step_def)
qed

section \<open>Properties\<close>

text \<open>Lexical normalisation of an absolute path leaves a root followed by plain names only:
  no \<open>.\<close>, no \<open>..\<close> and no empty segment survives, so \<open>allowed/../../etc/passwd\<close> is judged as the
  file it names; and normalising again changes nothing.\<close>

theorem normalize_plain_idempotent:
  assumes "is_abs p"
  shows "abs_plain (components (normalize p)) \<and> is_abs (normalize p)
    \<and> normalize (normalize p) = normalize p"
proof -
  have "components (normalize p) = norm_comps (components p)"
    by (rule components_normalize[OF assms])
  moreover from this have "normalize (normalize p) = normalize p"
    unfolding normalize_def[of "normalize p"]
    using norm_comps_abs_plain_id[OF norm_comps_abs_plain[OF assms]] by (simp add: normalize_def)
  ultimately show ?thesis using norm_comps_abs_plain[OF assms] is_abs_normalize[OF assms] by simp
qed

theorem normalize_plain_idempotent_witness:
  "normalize ''/tmp/brain/../../etc/./passwd'' = ''/etc/passwd''
   \<and> normalize (normalize ''/tmp/brain/../../etc/./passwd'') = ''/etc/passwd''"
proof -
  have "is_abs ''/tmp/brain/../../etc/./passwd''" by code_simp
  moreover have "normalize ''/tmp/brain/../../etc/./passwd'' = ''/etc/passwd''" by code_simp
  ultimately show ?thesis
    using normalize_plain_idempotent[of "''/tmp/brain/../../etc/./passwd''"] by simp
qed

end
