(* ===== verification/Glob.thy ===== *)
theory Glob
  imports Paths
begin

text \<open>
  \<open>autofork-core/src/glob.rs\<close>: the path globs of \<open>changed:\<close> triggers, on Unix spellings
  (\<open>cfg!(windows)\<close> is the parameter of \<open>slashes\<close>). \<open>match_loop\<close> is the two-pointer loop of
  \<open>match_one\<close> with each pointer as the suffix it points at and the sentinel
  \<open>usize::MAX\<close> as \<open>None\<close>; \<open>wild\<close> is the declarative meaning of one pattern segment.
\<close>

section \<open>Definitions\<close>

definition fold_windows :: "str \<Rightarrow> str" where
  "fold_windows s0 =
     (let s = map (\<lambda>c. if c = CHR 0x5C then slash else c) s0
      in case strip_prefix ''//?/UNC/'' s of Some rest \<Rightarrow> ''//'' @ rest
         | None \<Rightarrow> (case strip_prefix ''//?/'' s of Some rest \<Rightarrow> rest | None \<Rightarrow> s))"

definition slashes :: "bool \<Rightarrow> str \<Rightarrow> str" where
  "slashes windows s = (if windows then fold_windows s else s)"

definition drive_prefix :: "str \<Rightarrow> str option" where
  "drive_prefix p = (if length p \<ge> 2 \<and> is_alpha (p ! 0) \<and> p ! 1 = CHR '':'' then Some (take 2 p) else None)"

definition is_absolute :: "str \<Rightarrow> bool" where
  "is_absolute p \<longleftrightarrow> starts_with p [slash] \<or> drive_prefix p \<noteq> None"

definition split_drive :: "str \<Rightarrow> str \<times> str" where
  "split_drive p = (case drive_prefix p of Some d \<Rightarrow> (d, drop 2 p) | None \<Rightarrow> ([], p))"

definition dots_step :: "str list \<Rightarrow> str \<Rightarrow> str list" where
  "dots_step out seg =
     (if seg = [] \<or> seg = ''.'' then out
      else if seg = ''..'' then (if out \<noteq> [] \<and> last out \<noteq> ''..'' then butlast out else out @ [''..''])
      else out @ [seg])"

definition normalize_dots :: "str \<Rightarrow> str" where
  "normalize_dots p = (case split_drive p of (head, rest) \<Rightarrow>
     head @ [slash] @ join_with [slash] (foldl dots_step [] (split_on slash rest)))"

definition absolutize :: "str \<Rightarrow> path \<Rightarrow> path option \<Rightarrow> str" where
  "absolutize pattern base home =
     (let p = slashes False (trim pattern)
      in case (strip_prefix ''~/'' p, home) of
           (Some rest, Some h) \<Rightarrow> normalize_dots (slashes False (path_join h rest))
         | _ \<Rightarrow> (case (p = ''~'', home) of
              (True, Some h) \<Rightarrow> slashes False h
            | _ \<Rightarrow> if is_absolute p then normalize_dots p
                   else normalize_dots (slashes False (path_join base p))))"

definition has_wildcard :: "str \<Rightarrow> bool" where
  "has_wildcard s \<longleftrightarrow> CHR ''*'' \<in> set s \<or> CHR ''?'' \<in> set s"

fun literal_segs :: "str list \<Rightarrow> str list" where
  "literal_segs [] = []"
| "literal_segs (seg # segs) =
     (if seg = [] then literal_segs segs
      else if has_wildcard seg then [] else seg # literal_segs segs)"

definition literal_prefix :: "str \<Rightarrow> path" where
  "literal_prefix pattern = (case split_drive pattern of (head, rest) \<Rightarrow>
     head @ [slash] @ join_with [slash] (literal_segs (split_on slash rest)))"

text \<open>The loop of \<open>match_one\<close>: \<open>p\<close> and \<open>s\<close> are what is left of the pattern and of the
  segment, \<open>bt\<close> the pattern behind the last \<open>*\<close> and the segment at its mark.\<close>

function match_loop :: "str list \<Rightarrow> str list \<Rightarrow> (str list \<times> str list) option \<Rightarrow> bool" where
  "match_loop p [] bt = (dropWhile (\<lambda>x. x = ''*'') p = [])"
| "match_loop p (c # s) bt =
     (if p \<noteq> [] \<and> (hd p = ''?'' \<or> hd p = c) then match_loop (tl p) s bt
      else if p \<noteq> [] \<and> hd p = ''*'' then match_loop (tl p) (c # s) (Some (tl p, c # s))
      else (case bt of None \<Rightarrow> False
            | Some (bp, bs) \<Rightarrow> match_loop bp (tl bs) (Some (bp, tl bs))))"
  by pat_completeness auto
termination
proof (relation "measures [\<lambda>(p, s, bt). max (length p) (case bt of None \<Rightarrow> 0 | Some (bp, bs) \<Rightarrow> length bp),
      \<lambda>(p, s, bt). case bt of None \<Rightarrow> 0 | Some (bp, bs) \<Rightarrow> length bs + (if s = [] then 0 else 1),
      \<lambda>(p, s, bt). length s]", goal_cases)
  case 1
  then show ?case by simp
next
  case (2 p c s bt)
  then show ?case by (cases p) (auto split: option.splits simp: max_def)
next
  case (3 p c s bt)
  then show ?case by (cases p) (auto split: option.splits simp: max_def)
next
  case (4 p c s bt a bp bs)
  then show ?case by (cases bs) (auto simp: max_def)
qed

declare match_loop.simps [simp del]

lemma match_loop_Nil: "match_loop p [] bt \<longleftrightarrow> dropWhile (\<lambda>x. x = ''*'') p = []"
  and match_loop_lit: "x = ''?'' \<or> x = c \<Longrightarrow> match_loop (x # p) (c # s) bt = match_loop p s bt"
  and match_loop_star: "''*'' \<noteq> c \<Longrightarrow>
     match_loop (''*'' # p) (c # s) bt = match_loop p (c # s) (Some (p, c # s))"
  by (simp_all add: match_loop.simps)

lemma match_loop_retry:
  assumes "\<not> (p \<noteq> [] \<and> (hd p = ''?'' \<or> hd p = c))" "\<not> (p \<noteq> [] \<and> hd p = ''*'')"
  shows "match_loop p (c # s) bt = (case bt of None \<Rightarrow> False
            | Some (bp, bs) \<Rightarrow> match_loop bp (tl bs) (Some (bp, tl bs)))"
  by (subst match_loop.simps) (simp only: assms if_False)

definition match_one :: "str \<Rightarrow> str \<Rightarrow> bool" where
  "match_one pat seg = match_loop (utf8_chars pat) (utf8_chars seg) None"

fun match_segments :: "str list \<Rightarrow> str list \<Rightarrow> bool" where
  "match_segments [] seg = (seg = [])"
| "match_segments (p # pat) seg =
     (if p = ''**'' then list_ex (\<lambda>i. match_segments pat (drop i seg)) [0..<Suc (length seg)]
      else (case seg of [] \<Rightarrow> False | s # seg' \<Rightarrow> match_one p s \<and> match_segments pat seg'))"

definition segs :: "str \<Rightarrow> str list" where
  "segs p = filter (\<lambda>s. s \<noteq> []) (split_on slash p)"

definition glob_matches :: "str \<Rightarrow> str \<Rightarrow> bool" where
  "glob_matches pattern p = (case (split_drive pattern, split_drive p) of
     ((pd, pat), (sd, rest)) \<Rightarrow>
       if map to_lower pd \<noteq> map to_lower sd then False
       else match_segments (segs pat) (segs rest))"

section \<open>The declarative meaning of one segment\<close>

fun wild :: "str list \<Rightarrow> str list \<Rightarrow> bool" where
  "wild [] s = (s = [])"
| "wild (x # p) s =
     (if x = ''*'' then \<exists>k\<le>length s. wild p (drop k s)
      else s \<noteq> [] \<and> (x = ''?'' \<or> x = hd s) \<and> wild p (tl s))"

lemma wild_star: "wild (''*'' # p) s \<longleftrightarrow> (\<exists>k\<le>length s. wild p (drop k s))"
  by simp

lemma wild_star_mono: "wild (''*'' # p) (drop k s) \<Longrightarrow> wild (''*'' # p) s"
proof -
  assume "wild (''*'' # p) (drop k s)"
  then obtain j where j: "j \<le> length s - k" "wild p (drop (j + k) s)" by auto
  show ?thesis
  proof (cases "k \<le> length s")
    case True
    with j show ?thesis unfolding wild_star by (intro exI[of _ "j + k"]) simp
  next
    case False
    with j show ?thesis unfolding wild_star by (intro exI[of _ "length s"]) simp
  qed
qed

lemma wild_starfree:
  "''*'' \<notin> set u \<Longrightarrow> wild (u @ v) s \<Longrightarrow> length u \<le> length s \<and> wild v (drop (length u) s)"
proof (induction u arbitrary: s)
  case Nil
  then show ?case by simp
next
  case (Cons x u)
  then have "x \<noteq> ''*''" by auto
  with Cons.prems have "s \<noteq> []" "wild (u @ v) (tl s)" by auto
  with Cons.IH[of "tl s"] Cons.prems show ?case by (cases s) auto
qed

lemma wild_Nil: "wild p [] \<longleftrightarrow> dropWhile (\<lambda>x. x = ''*'') p = []"
  by (induction p) auto

definition bt_inv :: "str list \<Rightarrow> str list \<Rightarrow> (str list \<times> str list) option \<Rightarrow> bool" where
  "bt_inv p s bt = (case bt of None \<Rightarrow> True | Some (bp, bs) \<Rightarrow>
     \<exists>u t. bp = u @ p \<and> bs = t @ s \<and> length u = length t \<and> ''*'' \<notin> set u)"

definition bt_wild :: "(str list \<times> str list) option \<Rightarrow> bool" where
  "bt_wild bt = (case bt of None \<Rightarrow> False | Some (bp, bs) \<Rightarrow>
     \<exists>k\<ge>1. k \<le> length bs \<and> wild bp (drop k bs))"

text \<open>Backtracking to the last star alone loses nothing: an alternative of an older star that
  succeeds also succeeds from the current one.\<close>

lemma bt_wild_star:
  assumes "bt_inv (''*'' # p) s bt" "bt_wild bt"
  shows "wild (''*'' # p) s"
proof -
  from assms(2) obtain bp bs k where bt: "bt = Some (bp, bs)" "wild bp (drop k bs)"
    by (auto simp: bt_wild_def split: option.splits)
  with assms(1) obtain u t where ut: "bp = u @ ''*'' # p" "bs = t @ s" "length u = length t" "''*'' \<notin> set u"
    by (auto simp: bt_inv_def)
  then have "wild (''*'' # p) (drop (length u) (drop k bs))"
    using wild_starfree[of u] bt by blast
  moreover have "drop (length u) (drop k bs) = drop k s" 
    unfolding ut(2) drop_drop by (simp add: ut(3))
  ultimately show ?thesis by (metis wild_star_mono)
qed

lemma bt_wild_end:
  assumes "bt_inv p [] bt"
  shows "\<not> bt_wild bt"
proof
  assume "bt_wild bt"
  then obtain bp bs k where bt: "bt = Some (bp, bs)" "k \<ge> 1" "k \<le> length bs" "wild bp (drop k bs)"
    by (auto simp: bt_wild_def split: option.splits)
  with assms obtain u where "bp = u @ p" "length u = length bs" "''*'' \<notin> set u"
    by (auto simp: bt_inv_def)
  with bt wild_starfree[of u p "drop k bs"] show False by auto
qed

lemma bt_wild_step:
  assumes "bs \<noteq> []"
  shows "bt_wild (Some (bp, bs)) \<longleftrightarrow> wild bp (tl bs) \<or> bt_wild (Some (bp, tl bs))"
proof -
  obtain b bs' where bs: "bs = b # bs'" using assms by (cases bs) auto
  have "(\<exists>k\<ge>1. k \<le> length bs \<and> wild bp (drop k bs)) \<longleftrightarrow> (\<exists>j. j \<le> length bs' \<and> wild bp (drop j bs'))"
    unfolding bs by (metis Suc_le_mono drop_Suc_Cons length_Cons not_less_eq_eq One_nat_def Suc_le_D le0)
  also have "\<dots> \<longleftrightarrow> wild bp bs' \<or> (\<exists>k\<ge>1. k \<le> length bs' \<and> wild bp (drop k bs'))"
    by (metis One_nat_def drop0 le0 not_less_eq_eq le_0_eq)
  finally show ?thesis by (simp add: bt_wild_def bs)
qed

lemma bt_inv_lit:
  assumes "bt_inv (x # p) (c # s) bt" "x \<noteq> ''*''"
  shows "bt_inv p s bt"
proof (cases bt)
  case None
  then show ?thesis by (simp add: bt_inv_def)
next
  case (Some b)
  obtain bp bs where b: "b = (bp, bs)" by fastforce
  with Some assms obtain u t where "bp = u @ x # p" "bs = t @ c # s" "length u = length t" "''*'' \<notin> set u"
    by (auto simp: bt_inv_def)
  then show ?thesis unfolding bt_inv_def Some b using assms(2)
    by (auto intro!: exI[of _ "u @ [x]"] exI[of _ "t @ [c]"])
qed

lemma bt_wild_enter: "wild p s \<or> bt_wild (Some (p, s)) \<longleftrightarrow> wild (''*'' # p) s"
  unfolding wild_star bt_wild_def by (simp, metis One_nat_def drop0 le0 not_less_eq_eq le_0_eq)

lemma match_loop_wild:
  assumes "bt_inv p s bt" "''*'' \<notin> set s" "\<And>bp bs. bt = Some (bp, bs) \<Longrightarrow> ''*'' \<notin> set bs"
  shows "match_loop p s bt \<longleftrightarrow> wild p s \<or> bt_wild bt"
  using assms
proof (induction p s bt rule: match_loop.induct)
  case (1 p bt)
  then show ?case by (simp add: match_loop_Nil wild_Nil bt_wild_end)
next
  case (2 p c s bt)
  let ?lit = "p \<noteq> [] \<and> (hd p = ''?'' \<or> hd p = c)"
  let ?star = "p \<noteq> [] \<and> hd p = ''*''"
  from "2.prems"(2) have c: "c \<noteq> ''*''" "''*'' \<notin> set s" by auto
  consider (lit) "?lit" | (star) "\<not> ?lit" "?star" | (retry) "\<not> ?lit" "\<not> ?star" by blast
  then show ?case
  proof cases
    case lit
    then obtain x p' where p: "p = x # p'" "x \<noteq> ''*''" using c by (cases p) auto
    with "2.prems"(1) have "bt_inv p' s bt" by (simp add: bt_inv_lit)
    with "2.IH"(1)[OF lit] "2.prems"(3) c p have "match_loop p' s bt \<longleftrightarrow> wild p' s \<or> bt_wild bt" by simp
    moreover have "match_loop p (c # s) bt = match_loop p' s bt"
      using lit p by (simp add: match_loop_lit)
    ultimately show ?thesis using lit p by auto
  next
    case star
    then obtain p' where p: "p = ''*'' # p'" by (cases p) auto
    have "bt_inv p' (c # s) (Some (p', c # s))" by (simp add: bt_inv_def)
    with "2.IH"(2)[OF star] "2.prems"(2) p
    have eq: "match_loop p (c # s) bt \<longleftrightarrow> wild p' (c # s) \<or> bt_wild (Some (p', c # s))"
      using c by (simp add: match_loop_star)
    with bt_wild_star[of p' "c # s" bt] "2.prems"(1) p show ?thesis by (metis bt_wild_enter)
  next
    case retry
    have "\<not> wild p (c # s)" using retry by (cases p) auto
    moreover have "match_loop p (c # s) bt \<longleftrightarrow> bt_wild bt"
    proof (cases bt)
      case None
      with match_loop_retry[OF retry] show ?thesis by (simp add: bt_wild_def)
    next
      case (Some b)
      obtain bp bs where b: "b = (bp, bs)" by fastforce
      with Some "2.prems"(1) have ne: "bs \<noteq> []" by (auto simp: bt_inv_def)
      have nostar: "''*'' \<notin> set (tl bs)"
        using "2.prems"(3)[of bp bs] Some b ne by (cases bs) auto
      have "bt_inv bp (tl bs) (Some (bp, tl bs))" by (simp add: bt_inv_def)
      then have "match_loop bp (tl bs) (Some (bp, tl bs)) \<longleftrightarrow> wild bp (tl bs) \<or> bt_wild (Some (bp, tl bs))"
        by (rule "2.IH"(3)[OF retry Some b[symmetric]]) (use nostar in simp_all)
      moreover have "match_loop p (c # s) bt = match_loop bp (tl bs) (Some (bp, tl bs))"
        using match_loop_retry[OF retry] Some b by simp
      ultimately show ?thesis using bt_wild_step[OF ne] Some b by simp
    qed
    ultimately show ?thesis by blast
  qed
qed

text \<open>Whatever the segment holds, nothing is matched that the wildcards do not match.\<close>

lemma match_loop_sound:
  assumes "match_loop p s bt" "\<And>bp bs. bt = Some (bp, bs) \<Longrightarrow> length s \<le> length bs"
  shows "wild p s \<or> bt_wild bt"
  using assms
proof (induction p s bt rule: match_loop.induct)
  case (1 p bt)
  then show ?case by (simp add: match_loop_Nil wild_Nil)
next
  case (2 p c s bt)
  let ?lit = "p \<noteq> [] \<and> (hd p = ''?'' \<or> hd p = c)"
  let ?star = "p \<noteq> [] \<and> hd p = ''*''"
  consider (lit) "?lit" | (star) "\<not> ?lit" "?star" | (retry) "\<not> ?lit" "\<not> ?star" by blast
  then show ?case
  proof cases
    case lit
    then obtain x p' where p: "p = x # p'" "x = ''?'' \<or> x = c" by (cases p) auto
    have "length s \<le> length bs" if "bt = Some (bp, bs)" for bp bs using "2.prems"(2)[OF that] by simp
    with "2.IH"(1)[OF lit] "2.prems"(1) p have w: "wild p' s \<or> bt_wild bt" by (simp add: match_loop_lit)
    have "wild p (c # s)" if "wild p' s"
    proof (cases "x = ''*''")
      case True
      with that show ?thesis unfolding p(1) True wild_star by (intro exI[of _ 1]) simp
    next
      case False
      with that p show ?thesis by auto
    qed
    with w show ?thesis by blast
  next
    case star
    then obtain p' where p: "p = ''*'' # p'" by (cases p) auto
    with star(1) "2.prems"(1) have "match_loop p' (c # s) (Some (p', c # s))" by (auto simp: match_loop_star)
    with "2.IH"(2)[OF star] p have "wild p' (c # s) \<or> bt_wild (Some (p', c # s))" by simp
    then show ?thesis unfolding p bt_wild_enter by simp
  next
    case retry
    then obtain bp bs where b: "bt = Some (bp, bs)" "match_loop bp (tl bs) (Some (bp, tl bs))"
      using "2.prems"(1) match_loop_retry[OF retry] by (cases bt) (auto split: prod.splits)
    have "bs \<noteq> []" using "2.prems"(2)[OF b(1)] by auto
    moreover have "wild bp (tl bs) \<or> bt_wild (Some (bp, tl bs))"
      using "2.IH"(3)[OF retry b(1) refl b(2)] by simp
    ultimately show ?thesis using bt_wild_step b(1) by blast
  qed
qed

text \<open>Without a star there is nothing to choose.\<close>

lemma match_loop_starless: "''*'' \<notin> set p \<Longrightarrow> match_loop p s None \<longleftrightarrow> wild p s"
proof (induction p arbitrary: s)
  case Nil
  then show ?case by (cases s) (simp_all add: match_loop_Nil match_loop_retry)
next
  case (Cons x p)
  show ?case
  proof (cases s)
    case Nil
    with Cons.prems show ?thesis by (auto simp: match_loop_Nil wild_Nil)
  next
    case s: (Cons c s')
    show ?thesis
    proof (cases "x = ''?'' \<or> x = c")
      case True
      with Cons s show ?thesis by (auto simp: match_loop_lit)
    next
      case False
      with Cons.prems s show ?thesis by (auto simp: match_loop_retry)
    qed
  qed
qed

lemma star_in_chars: "''*'' \<in> set (utf8_chars seg) \<Longrightarrow> CHR ''*'' \<in> set seg"
proof -
  assume "''*'' \<in> set (utf8_chars seg)"
  then have "CHR ''*'' \<in> set (concat (utf8_chars seg))" by force
  then show ?thesis by (simp add: concat_utf8_chars)
qed

lemma match_one_wild:
  assumes "CHR ''*'' \<notin> set seg"
  shows "match_one pat seg \<longleftrightarrow> wild (utf8_chars pat) (utf8_chars seg)"
proof -
  have "''*'' \<notin> set (utf8_chars seg)" using assms star_in_chars by blast
  then show ?thesis
    using match_loop_wild[of "utf8_chars pat" "utf8_chars seg" None]
    by (simp add: match_one_def bt_inv_def bt_wild_def)
qed

text \<open>A segment pattern without wildcards matches itself only, whatever the segment holds.\<close>

lemma match_loop_literal:
  "''*'' \<notin> set p \<Longrightarrow> ''?'' \<notin> set p \<Longrightarrow> match_loop p s None \<longleftrightarrow> p = s"
proof (induction p arbitrary: s)
  case Nil
  then show ?case
    by (cases s) (simp_all add: match_loop_Nil match_loop_retry)
next
  case (Cons x p)
  show ?case
  proof (cases s)
    case Nil
    with Cons.prems show ?thesis by (auto simp: match_loop_Nil)
  next
    case (Cons c s')
    show ?thesis
    proof (cases "x = c")
      case True
      with Cons Cons.IH Cons.prems show ?thesis by (simp add: match_loop_lit)
    next
      case False
      with Cons Cons.prems show ?thesis by (subst Cons, subst match_loop_retry) auto
    qed
  qed
qed

lemma utf8_chars_inj: "utf8_chars a = utf8_chars b \<longleftrightarrow> a = b"
  by (metis concat_utf8_chars)

lemma utf8_chars_single: "[c] \<in> set (utf8_chars s) \<Longrightarrow> c \<in> set s"
  by (metis concat_utf8_chars list.set_intros(1) UN_I set_concat)

lemma match_one_literal: "\<not> has_wildcard pat \<Longrightarrow> match_one pat seg \<longleftrightarrow> pat = seg"
  unfolding match_one_def has_wildcard_def
  by (subst match_loop_literal) (auto dest: utf8_chars_single simp: utf8_chars_inj)

section \<open>The scan root of a pattern\<close>

lemma segs_join:
  assumes "list_all (\<lambda>s. s \<noteq> [] \<and> slash \<notin> set s) ss"
  shows "segs (slash # join_with [slash] ss) = ss"
proof (cases "ss = []")
  case True
  then show ?thesis by (simp add: segs_def)
next
  case False
  then have "split_on slash (join_with [slash] ss) = ss"
    using assms by (intro split_join) (auto simp: list_all_iff)
  moreover have "filter (\<lambda>s. s \<noteq> []) ss = ss" using assms by (auto simp: list_all_iff filter_id_conv)
  ultimately show ?thesis by (simp add: segs_def)
qed

lemma literal_segs_ok:
  "\<forall>s\<in>set ss. slash \<notin> set s \<Longrightarrow>
     list_all (\<lambda>s. s \<noteq> [] \<and> slash \<notin> set s \<and> \<not> has_wildcard s) (literal_segs ss)"
  by (induction ss) auto

lemma split_drive_prefix:
  "split_drive (fst (split_drive p) @ slash # r) = (fst (split_drive p), slash # r)"
proof (cases "drive_prefix p")
  case None
  have "\<not> is_alpha slash" by code_simp
  then have "drive_prefix (slash # r) = None" by (simp add: drive_prefix_def)
  with None show ?thesis by (simp add: split_drive_def)
next
  case (Some d)
  then have d: "length p \<ge> 2" "is_alpha (p ! 0)" "p ! 1 = CHR '':''" "d = take 2 p"
    by (auto simp: drive_prefix_def split: if_splits)
  then obtain a r' where "p = a # CHR '':'' # r'"
    by (cases p; cases "tl p") auto
  with d Some show ?thesis by (simp add: split_drive_def drive_prefix_def)
qed

lemma match_segments_literal_prefix:
  "match_segments (filter (\<lambda>s. s \<noteq> []) ps) qs \<Longrightarrow> starts_with qs (literal_segs ps)"
proof (induction ps arbitrary: qs)
  case Nil
  then show ?case by simp
next
  case (Cons p ps)
  show ?case
  proof (cases "p = [] \<or> has_wildcard p")
    case True
    with Cons show ?thesis by auto
  next
    case False
    then have "p \<noteq> ''**''" by (auto simp: has_wildcard_def)
    with Cons.prems False obtain q qs' where "qs = q # qs'" "match_one p q"
      "match_segments (filter (\<lambda>s. s \<noteq> []) ps) qs'"
      by (auto split: list.splits)
    with Cons.IH[of qs'] False show ?thesis by (simp add: match_one_literal)
  qed
qed

section \<open>Dot normalisation\<close>

definition dots_ok :: "str list \<Rightarrow> bool" where
  "dots_ok out \<longleftrightarrow> (\<exists>k ns. out = replicate k ''..'' @ ns \<and>
     list_all (\<lambda>s. s \<noteq> [] \<and> s \<noteq> ''.'' \<and> s \<noteq> ''..'' \<and> slash \<notin> set s) ns)"

lemma dots_step_ok:
  assumes "dots_ok out" "slash \<notin> set seg"
  shows "dots_ok (dots_step out seg)"
proof -
  from assms(1) obtain k ns where o: "out = replicate k ''..'' @ ns"
    "list_all (\<lambda>s. s \<noteq> [] \<and> s \<noteq> ''.'' \<and> s \<noteq> ''..'' \<and> slash \<notin> set s) ns"
    by (auto simp: dots_ok_def)
  consider "seg = [] \<or> seg = ''.''" | "seg = ''..''" "ns = []" | "seg = ''..''" "ns \<noteq> []"
    | "seg \<noteq> []" "seg \<noteq> ''.''" "seg \<noteq> ''..''" by blast
  then show ?thesis
  proof cases
    case 1
    with assms(1) show ?thesis by (auto simp: dots_step_def)
  next
    case 2
    then have "dots_step out seg = replicate (Suc k) ''..''"
      using o by (auto simp: dots_step_def replicate_append_same)
    then show ?thesis by (auto simp: dots_ok_def intro!: exI[of _ "Suc k"] exI[of _ "[]"])
  next
    case 3
    with o have "last ns \<noteq> ''..''" by (auto simp: list_all_iff)
    with 3 o have "dots_step out seg = replicate k ''..'' @ butlast ns"
      by (simp add: dots_step_def butlast_append)
    moreover have "list_all (\<lambda>s. s \<noteq> [] \<and> s \<noteq> ''.'' \<and> s \<noteq> ''..'' \<and> slash \<notin> set s) (butlast ns)"
      using o(2) by (auto simp: list_all_iff dest: in_set_butlastD)
    ultimately show ?thesis unfolding dots_ok_def by blast
  next
    case 4
    then have "dots_step out seg = replicate k ''..'' @ (ns @ [seg])"
      using o by (simp add: dots_step_def)
    moreover have "list_all (\<lambda>s. s \<noteq> [] \<and> s \<noteq> ''.'' \<and> s \<noteq> ''..'' \<and> slash \<notin> set s) (ns @ [seg])"
      using o(2) 4 assms(2) by simp
    ultimately show ?thesis unfolding dots_ok_def by blast
  qed
qed

lemma dots_fold_ok: "dots_ok (foldl dots_step [] (split_on slash p))"
proof (rule foldl_invariant)
  show "dots_ok []" by (auto simp: dots_ok_def intro!: exI[of _ 0] exI[of _ "[]"])
qed (auto intro: dots_step_ok dest: split_on_pieces)

lemma dots_ok_stable: "dots_ok out \<Longrightarrow> foldl dots_step [] out = out"
proof -
  assume "dots_ok out"
  then obtain k ns where o: "out = replicate k ''..'' @ ns"
    "list_all (\<lambda>s. s \<noteq> [] \<and> s \<noteq> ''.'' \<and> s \<noteq> ''..'' \<and> slash \<notin> set s) ns"
    by (auto simp: dots_ok_def)
  have up: "foldl dots_step (replicate j ''..'') (replicate k ''..'') = replicate (j + k) ''..''" for j
  proof (induction k arbitrary: j)
    case 0
    then show ?case by simp
  next
    case (Suc k)
    have "dots_step (replicate j ''..'') ''..'' = replicate (Suc j) ''..''"
      by (cases j) (auto simp: dots_step_def replicate_append_same)
    with Suc[of "Suc j"] show ?case by simp
  qed
  have down: "foldl dots_step acc ns = acc @ ns" for acc
    using o(2) by (induction ns arbitrary: acc) (auto simp: dots_step_def)
  show ?thesis using up[of 0] by (simp add: o(1) down)
qed

section \<open>Properties\<close>

text \<open>C30. One segment: the two-pointer loop with backtracking to the last \<open>*\<close> never matches what the declarative
  wildcard relation (\<open>*\<close> any run of characters, \<open>?\<close> one character) does not, and where the segment or the pattern is
  free of star characters it decides exactly that relation. (Where both have one, a match can be missed, as
  \<open>match_one_star_in_segment\<close> shows.)\<close>

theorem match_one_correct:
  "(match_one pat seg \<longrightarrow> wild (utf8_chars pat) (utf8_chars seg))
   \<and> (CHR ''*'' \<notin> set seg \<or> CHR ''*'' \<notin> set pat \<longrightarrow> (match_one pat seg \<longleftrightarrow> wild (utf8_chars pat) (utf8_chars seg)))"
proof (intro conjI impI)
  show "wild (utf8_chars pat) (utf8_chars seg)" if "match_one pat seg"
    using match_loop_sound[of "utf8_chars pat" "utf8_chars seg" None] that by (simp add: match_one_def bt_wild_def)
  assume "CHR ''*'' \<notin> set seg \<or> CHR ''*'' \<notin> set pat"
  then show "match_one pat seg \<longleftrightarrow> wild (utf8_chars pat) (utf8_chars seg)"
  proof
    assume "CHR ''*'' \<notin> set seg"
    then show ?thesis by (rule match_one_wild)
  next
    assume "CHR ''*'' \<notin> set pat"
    then show ?thesis using star_in_chars[of pat] match_loop_starless[of "utf8_chars pat" "utf8_chars seg"]
      by (auto simp: match_one_def)
  qed
qed

theorem match_one_correct_witness:
  "(match_one ''a*b?.rs'' ''axxbby.rs'' \<longleftrightarrow> wild (utf8_chars ''a*b?.rs'') (utf8_chars ''axxbby.rs''))
   \<and> wild (utf8_chars ''*.rs'') (utf8_chars ''*.rs'')"
proof -
  have m: "match_one ''*.rs'' ''*.rs''" by code_simp
  have f: "CHR ''*'' \<notin> set ''axxbby.rs'' \<or> CHR ''*'' \<notin> set ''a*b?.rs''" by simp
  show ?thesis
    by (intro conjI match_one_correct[THEN conjunct2, rule_format, OF f] match_one_correct[THEN conjunct1, rule_format, OF m])
qed

text \<open>The restriction is needed: a literal star in the segment is taken by the equality test
  before the star of the pattern is seen as a wildcard.\<close>

lemma match_one_star_in_segment:
  "\<not> match_one ''*b'' ''*ab'' \<and> wild (utf8_chars ''*b'') (utf8_chars ''*ab'')"
proof -
  have "\<not> match_one ''*b'' ''*ab''" by code_simp
  moreover have "wild (utf8_chars ''*b'') (utf8_chars ''*ab'')"
    by (simp add: is_cont_def less_eq_char_def) (rule exI[of _ 2], simp)
  ultimately show ?thesis by simp
qed

text \<open>The scan root is complete: whatever path a pattern matches lies at or below the
  pattern's \<open>literal_prefix\<close> (segment by segment, on the same drive), so scanning from there
  instead of the file-system root misses nothing.\<close>

theorem literal_prefix_sound:
  assumes "glob_matches pattern p"
  shows "starts_with (segs (snd (split_drive p))) (segs (snd (split_drive (literal_prefix pattern))))
    \<and> map to_lower (fst (split_drive p)) = map to_lower (fst (split_drive (literal_prefix pattern)))"
proof -
  obtain pd pat where pat: "split_drive pattern = (pd, pat)" by fastforce
  obtain sd rest where p: "split_drive p = (sd, rest)" by fastforce
  let ?ls = "literal_segs (split_on slash pat)"
  have lp: "split_drive (literal_prefix pattern) = (pd, slash # join_with [slash] ?ls)"
    using split_drive_prefix[of pattern] by (simp add: literal_prefix_def pat)
  have "list_all (\<lambda>s. s \<noteq> [] \<and> slash \<notin> set s) ?ls"
    using literal_segs_ok[of "split_on slash pat"] split_on_pieces by (fastforce simp: list_all_iff)
  then have "segs (slash # join_with [slash] ?ls) = ?ls" by (rule segs_join)
  moreover have "match_segments (segs pat) (segs rest)" and d: "map to_lower pd = map to_lower sd"
    using assms by (auto simp: glob_matches_def pat p split: if_splits)
  then have "starts_with (segs rest) ?ls"
    using match_segments_literal_prefix by (simp add: segs_def)
  ultimately show ?thesis using d by (simp add: lp p)
qed

theorem literal_prefix_sound_witness:
  "literal_prefix ''/proj/src/**/*.rs'' = ''/proj/src''
   \<and> starts_with (segs ''/proj/src/a/b/x.rs'') (segs ''/proj/src'')"
proof -
  have "glob_matches ''/proj/src/**/*.rs'' ''/proj/src/a/b/x.rs''" by code_simp
  note this' = literal_prefix_sound[OF this]
  have "literal_prefix ''/proj/src/**/*.rs'' = ''/proj/src''"
    "snd (split_drive ''/proj/src/a/b/x.rs'') = ''/proj/src/a/b/x.rs''"
    "snd (split_drive ''/proj/src'') = ''/proj/src''" by code_simp+
  with this' show ?thesis by simp
qed

end
