(* ===== verification/Frontmatter.thy ===== *)
theory Frontmatter
  imports Paths
begin

text \<open>
  \<open>autofork-core/src/frontmatter.rs\<close>, \<open>duration.rs\<close> and the data of \<open>guard/mod.rs\<close> a fork
  definition carries: fork definitions and their parsing. YAML itself (\<open>serde_yaml\<close>) is not
  code of the repository: a YAML value is the datatype \<open>yaml\<close> (mappings as entry lists in
  document order, tags not represented), and the deserializer into \<open>RawFork\<close> is a parameter.
  Warnings are returned beside the result, in the order the code pushes them.
\<close>

section \<open>YAML values\<close>

datatype ynum = YInt int | YFloat str

datatype yaml = YNull | YBool bool | YNumber ynum | YString str | YSeq "yaml list"
  | YMap "(yaml \<times> yaml) list"

fun yn_as_u64 :: "ynum \<Rightarrow> nat option" where
  "yn_as_u64 (YInt i) = (if 0 \<le> i \<and> i < 2 ^ 64 then Some (nat i) else None)"
| "yn_as_u64 (YFloat _) = None"

fun yn_as_i64 :: "ynum \<Rightarrow> int option" where
  "yn_as_i64 (YInt i) = (if in_i64 i then Some i else None)"
| "yn_as_i64 (YFloat _) = None"

fun y_as_str :: "yaml \<Rightarrow> str option" where
  "y_as_str (YString s) = Some s"
| "y_as_str _ = None"

section \<open>Numbers and durations\<close>

definition parse_i64 :: "str \<Rightarrow> int option" where
  "parse_i64 s =
     (let (neg, ds) = (case s of c # cs \<Rightarrow> if c = CHR ''-'' then (True, cs)
                          else if c = CHR ''+'' then (False, cs) else (False, s) | [] \<Rightarrow> (False, []))
      in if ds = [] then None
         else case digits_val 0 ds of
                None \<Rightarrow> None
              | Some n \<Rightarrow> (let v = (if neg then - int n else int n) in if in_i64 v then Some v else None))"

text \<open>\<open>n * mult\<close> wraps in a release build (it panics in a debug build).\<close>

definition parse_duration_str :: "str \<Rightarrow> nat option" where
  "parse_duration_str s0 =
     (let s = trim s0
      in if s = [] then None
         else let c = last s;
                  unit = (if c = CHR ''s'' then Some (butlast s, 1)
                          else if c = CHR ''m'' then Some (butlast s, 60)
                          else if c = CHR ''h'' then Some (butlast s, 3600)
                          else if c = CHR ''d'' then Some (butlast s, 86400)
                          else if is_digit c then Some (s, 1) else None)
              in case unit of None \<Rightarrow> None
                 | Some (num, mult) \<Rightarrow> map_option (\<lambda>n. wrap_u64 (n * mult)) (parse_u64 (trim num)))"

fun parse_duration_yaml :: "yaml \<Rightarrow> nat option" where
  "parse_duration_yaml (YNumber n) = yn_as_u64 n"
| "parse_duration_yaml (YString s) = parse_duration_str s"
| "parse_duration_yaml _ = None"

definition trim_end_char :: "char \<Rightarrow> str \<Rightarrow> str" where
  "trim_end_char c s = rev (dropWhile (\<lambda>x. x = c) (rev s))"

definition parse_percent :: "yaml \<Rightarrow> nat option" where
  "parse_percent v =
     (let n = (case v of YNumber n \<Rightarrow> yn_as_u64 n
               | YString s \<Rightarrow> parse_u64 (trim (trim_end_char (CHR ''%'') (trim s)))
               | _ \<Rightarrow> None)
      in case n of None \<Rightarrow> None | Some k \<Rightarrow> if 1 \<le> k \<and> k \<le> 100 then Some k else None)"

fun parse_token_count :: "yaml \<Rightarrow> nat option" where
  "parse_token_count (YNumber n) = yn_as_u64 n"
| "parse_token_count (YString s) = parse_u64 (trim s)"
| "parse_token_count _ = None"

section \<open>Client-scoped values\<close>

text \<open>A \<open>BTreeMap\<close> is an association list in ascending key order.\<close>

datatype client_scoped = Unset | Scalar "str list" | PerClient "(str \<times> str list) list"

fun btree_insert :: "'a::linorder \<Rightarrow> 'b \<Rightarrow> ('a \<times> 'b) list \<Rightarrow> ('a \<times> 'b) list" where
  "btree_insert k v [] = [(k, v)]"
| "btree_insert k v ((k', v') # m) =
     (if k < k' then (k, v) # (k', v') # m
      else if k = k' then (k, v) # m else (k', v') # btree_insert k v m)"

fun scoped_resolve :: "client_scoped \<Rightarrow> str \<Rightarrow> str list" where
  "scoped_resolve Unset client = []"
| "scoped_resolve (Scalar s) client = s"
| "scoped_resolve (PerClient m) client = (case map_of m client of Some v \<Rightarrow> v | None \<Rightarrow> [])"

definition is_set :: "client_scoped \<Rightarrow> bool" where
  "is_set c \<longleftrightarrow> c \<noteq> Unset"

definition bracket_list :: "str list \<Rightarrow> str" where
  "bracket_list v = (if length v = 1 then hd v else ''['' @ join_with '', '' v @ '']'')"

fun scoped_display :: "client_scoped \<Rightarrow> str option" where
  "scoped_display Unset = None"
| "scoped_display (Scalar s) = Some (bracket_list s)"
| "scoped_display (PerClient m) =
     Some (join_with '', '' (map (\<lambda>(k, v). k @ '': '' @ bracket_list v) m))"

definition quote :: "str \<Rightarrow> str" where
  "quote s = CHR 0x27 # s @ [CHR 0x27]"

definition fork_warn :: "str \<Rightarrow> str \<Rightarrow> str" where
  "fork_warn name msg = ''fork '' @ quote name @ '': '' @ msg"

definition em_dash :: str where
  "em_dash = [CHR 0xE2, CHR 0x80, CHR 0x94]"

definition ellipsis :: str where
  "ellipsis = [CHR 0xE2, CHR 0x80, CHR 0xA6]"

definition parse_candidates :: "yaml \<Rightarrow> str list option" where
  "parse_candidates v = (case v of
     YString s \<Rightarrow> if trim s \<noteq> [] then Some [trim s] else None
   | YSeq sq \<Rightarrow> (let out = filter (\<lambda>s. s \<noteq> []) (map trim (List.map_filter y_as_str sq))
                 in if out \<noteq> [] \<and> length out = length sq then Some out else None)
   | _ \<Rightarrow> None)"

definition scoped_entry :: "str \<Rightarrow> str \<Rightarrow> (str \<times> str list) list \<times> str list \<Rightarrow> yaml \<times> yaml
    \<Rightarrow> (str \<times> str list) list \<times> str list" where
  "scoped_entry key name acc kv = (case acc of (out, ws) \<Rightarrow>
     (case (y_as_str (fst kv), parse_candidates (snd kv)) of
        (Some client, Some cands) \<Rightarrow>
          if trim client \<noteq> [] then (btree_insert (trim client) cands out, ws)
          else (out, ws @ [fork_warn name (key @ '' map entries must be '' @ quote ''client: value''
                  @ '' (or a list of fallback values); skipping one'')])
      | _ \<Rightarrow> (out, ws @ [fork_warn name (key @ '' map entries must be '' @ quote ''client: value''
                  @ '' (or a list of fallback values); skipping one'')])))"

definition parse_client_scoped :: "yaml \<Rightarrow> str \<Rightarrow> str \<Rightarrow> client_scoped \<times> str list" where
  "parse_client_scoped v key name = (case v of
     YMap m \<Rightarrow> (case foldl (scoped_entry key name) ([], []) m of (out, ws) \<Rightarrow>
        if out = [] then (Unset, ws @ [fork_warn name (key @ '' map has no valid entries, ignoring'')])
        else (PerClient out, ws))
   | _ \<Rightarrow> (case parse_candidates v of
        Some c \<Rightarrow> (Scalar c, [])
      | None \<Rightarrow> (Unset, [fork_warn name (key
           @ '' must be a string, a list of strings, or a client-keyed map of them, ignoring'')])))"

section \<open>Guards\<close>

datatype tool_family = TRead | TShell | TEdit | TWeb | TTask | TMcp

definition all_families :: "tool_family list" where
  "all_families = [TRead, TShell, TEdit, TWeb, TTask, TMcp]"

definition family_parse :: "str \<Rightarrow> tool_family option" where
  "family_parse s0 =
     (let s = map to_lower (trim s0)
      in if s = ''read'' then Some TRead
         else if s = ''shell'' \<or> s = ''bash'' then Some TShell
         else if s = ''edit'' \<or> s = ''write'' then Some TEdit
         else if s = ''web'' then Some TWeb
         else if s = ''task'' \<or> s = ''agent'' then Some TTask
         else if s = ''mcp'' then Some TMcp else None)"

fun family_name :: "tool_family \<Rightarrow> str" where
  "family_name TRead = ''read''"
| "family_name TShell = ''shell''"
| "family_name TEdit = ''edit''"
| "family_name TWeb = ''web''"
| "family_name TTask = ''task''"
| "family_name TMcp = ''mcp''"

record guard =
  g_write :: "path list"
  g_tools :: "tool_family list option"
  g_network :: bool
  g_deny :: "str list"
  g_message :: "str option"

definition guard_default :: guard where
  "guard_default = \<lparr>g_write = [], g_tools = None, g_network = False, g_deny = [], g_message = None\<rparr>"

definition guard_expand :: "path option \<Rightarrow> str \<Rightarrow> path option" where
  "guard_expand home s0 =
     (let s = trim s0;
          p = (case strip_prefix ''~/'' s of
                 Some rest \<Rightarrow> map_option (\<lambda>h. path_join h rest) home
               | None \<Rightarrow> if s = ''~'' then home
                         else (case strip_prefix ''$HOME/'' s of
                                 Some rest \<Rightarrow> map_option (\<lambda>h. path_join h rest) home
                               | None \<Rightarrow> Some s))
      in case p of None \<Rightarrow> None
         | Some p' \<Rightarrow> if \<not> is_abs p' then None else Some (normalize p'))"

definition seq_strs :: "yaml list \<Rightarrow> str list" where
  "seq_strs sq = List.map_filter y_as_str sq"

text \<open>The items of \<open>write:\<close>, \<open>tools:\<close> and \<open>deny:\<close>; \<open>None\<close> is the shape the code warns about.\<close>

definition write_items :: "yaml \<Rightarrow> str list option" where
  "write_items v = (case v of YNull \<Rightarrow> Some []
     | YString s \<Rightarrow> Some (if trim s = ''none'' then [] else [s])
     | YSeq sq \<Rightarrow> Some (seq_strs sq) | _ \<Rightarrow> None)"

definition tools_items :: "yaml \<Rightarrow> str list option option" where
  "tools_items v = (case v of
       YString s \<Rightarrow> Some (if trim s = ''none'' then Some [] else if trim s = ''all'' then None else Some [s])
     | YSeq sq \<Rightarrow> Some (Some (seq_strs sq)) | YNull \<Rightarrow> Some None | _ \<Rightarrow> None)"

definition deny_items :: "yaml \<Rightarrow> str list option" where
  "deny_items v = (case v of YNull \<Rightarrow> Some [] | YString s \<Rightarrow> Some [s]
     | YSeq sq \<Rightarrow> Some (seq_strs sq) | _ \<Rightarrow> None)"

definition add_write :: "path option \<Rightarrow> str \<Rightarrow> path list \<times> str list \<Rightarrow> str \<Rightarrow> path list \<times> str list" where
  "add_write home name acc s = (case acc of (w, ws) \<Rightarrow>
     (case guard_expand home s of
        Some p \<Rightarrow> (push_new w p, ws)
      | None \<Rightarrow> (w, ws @ [fork_warn name (''guard.write entry '' @ quote s
           @ '' must be an absolute path or ~/'' @ ellipsis @ ''; ignoring it'')])))"

definition add_tool :: "str \<Rightarrow> tool_family list \<times> str list \<Rightarrow> str \<Rightarrow> tool_family list \<times> str list" where
  "add_tool name acc s = (case acc of (fs, ws) \<Rightarrow>
     (case family_parse s of
        Some f \<Rightarrow> (push_new fs f, ws)
      | None \<Rightarrow> (fs, ws @ [fork_warn name (''guard.tools entry '' @ quote s
           @ '' is not a tool family (read, shell, edit, web, task); ignoring it'')])))"

definition add_deny :: "str list \<Rightarrow> str \<Rightarrow> str list" where
  "add_deny d s = (if trim s = [] then d else push_new d (trim s))"

definition guard_write :: "path option \<Rightarrow> str \<Rightarrow> guard \<times> str list \<Rightarrow> yaml \<Rightarrow> guard \<times> str list" where
  "guard_write home name acc val = (case acc of (g, ws) \<Rightarrow>
     (case write_items val of
        None \<Rightarrow> (g, ws @ [fork_warn name ''guard.write must be a path, a list of paths, or none; ignoring''])
      | Some items \<Rightarrow> (case foldl (add_write home name) (g_write g, ws) items of
          (w, ws') \<Rightarrow> (g\<lparr>g_write := w\<rparr>, ws'))))"

definition guard_tools :: "str \<Rightarrow> guard \<times> str list \<Rightarrow> yaml \<Rightarrow> guard \<times> str list" where
  "guard_tools name acc val = (case acc of (g, ws) \<Rightarrow>
     (case tools_items val of
        None \<Rightarrow> (g, ws @ [fork_warn name ''guard.tools must be none, all, or a list of families; ignoring''])
      | Some None \<Rightarrow> (g\<lparr>g_tools := None\<rparr>, ws)
      | Some (Some items) \<Rightarrow> (case foldl (add_tool name) ([], ws) items of
          (fs, ws') \<Rightarrow> (g\<lparr>g_tools := Some fs\<rparr>, ws'))))"

definition guard_deny :: "str \<Rightarrow> guard \<times> str list \<Rightarrow> yaml \<Rightarrow> guard \<times> str list" where
  "guard_deny name acc val = (case acc of (g, ws) \<Rightarrow>
     (case deny_items val of
        None \<Rightarrow> (g, ws @ [fork_warn name ''guard.deny must be a command pattern or a list of them; ignoring''])
      | Some items \<Rightarrow> (g\<lparr>g_deny := foldl add_deny (g_deny g) items\<rparr>, ws)))"

definition guard_network :: "str \<Rightarrow> guard \<times> str list \<Rightarrow> yaml \<Rightarrow> guard \<times> str list" where
  "guard_network name acc val = (case acc of (g, ws) \<Rightarrow>
     (case val of YBool b \<Rightarrow> (g\<lparr>g_network := b\<rparr>, ws)
      | _ \<Rightarrow> (g, ws @ [fork_warn name ''guard.network must be true or false; using false''])))"

definition guard_message :: "str \<Rightarrow> guard \<times> str list \<Rightarrow> yaml \<Rightarrow> guard \<times> str list" where
  "guard_message name acc val = (case acc of (g, ws) \<Rightarrow>
     (case val of
        YString s \<Rightarrow> (g\<lparr>g_message := (if trim s = [] then None else Some (trim s))\<rparr>, ws)
      | YNull \<Rightarrow> (g, ws)
      | _ \<Rightarrow> (g, ws @ [fork_warn name ''guard.message must be a string; ignoring''])))"

definition guard_entry :: "path option \<Rightarrow> str \<Rightarrow> guard \<times> str list \<Rightarrow> yaml \<times> yaml \<Rightarrow> guard \<times> str list" where
  "guard_entry home name acc kv =
     (case y_as_str (fst kv) of None \<Rightarrow> acc
      | Some k \<Rightarrow>
        if k = ''write'' then guard_write home name acc (snd kv)
        else if k = ''tools'' then guard_tools name acc (snd kv)
        else if k = ''deny'' then guard_deny name acc (snd kv)
        else if k = ''network'' then guard_network name acc (snd kv)
        else if k = ''message'' then guard_message name acc (snd kv)
        else (fst acc, snd acc @ [fork_warn name (''guard.'' @ k
            @ '' is not a guard key (write, tools, network, deny, message); ignoring it'')]))"

definition parse_guard :: "path option \<Rightarrow> yaml \<Rightarrow> str \<Rightarrow> guard option \<times> str list" where
  "parse_guard home v name = (case v of
     YMap m \<Rightarrow> (case foldl (guard_entry home name) (guard_default, []) m of (g, ws) \<Rightarrow> (Some g, ws))
   | _ \<Rightarrow> (None, [fork_warn name ''guard must be a map with write/tools/network/message; ignoring'']))"

section \<open>Triggers\<close>

datatype fork_run_on =
    Idle "nat option"
  | ContextTokens nat
  | ContextUsedPct nat
  | ContextLeft nat
  | Every nat
  | Compact | SessionStart | SessionEnd | ManualStop | Boot
  | Changed str
  | EventNamed str

fun label :: "fork_run_on \<Rightarrow> str" where
  "label (Idle None) = ''idle''"
| "label (Idle (Some s)) = ''idle:'' @ show_nat s"
| "label (ContextTokens n) = ''context_tokens:'' @ show_nat n"
| "label (ContextUsedPct p) = ''context_used:'' @ show_nat p @ ''%''"
| "label (ContextLeft n) = ''context_left:'' @ show_nat n"
| "label (Every n) = ''every:'' @ show_nat n"
| "label Compact = ''compact''"
| "label SessionStart = ''session_start''"
| "label SessionEnd = ''session_end''"
| "label ManualStop = ''manual_stop''"
| "label Boot = ''boot''"
| "label (Changed pattern) = ''changed:'' @ pattern"
| "label (EventNamed name) = ''event:'' @ name"

fun is_supported :: "fork_run_on \<Rightarrow> bool" where
  "is_supported (Idle _) = True"
| "is_supported (ContextTokens _) = True"
| "is_supported (ContextUsedPct _) = True"
| "is_supported (ContextLeft _) = True"
| "is_supported (Every _) = True"
| "is_supported (Changed _) = True"
| "is_supported (EventNamed _) = True"
| "is_supported _ = False"

definition default_run_on :: "fork_run_on list" where
  "default_run_on = [Idle None]"

definition parse_changed :: "str \<Rightarrow> fork_run_on option \<times> str list" where
  "parse_changed pattern = (let p = trim pattern in
     if p = [] then (None, [''empty '' @ quote ''changed'' @ '' pattern, skipping''])
     else (Some (Changed p), []))"

definition parse_event :: "str \<Rightarrow> fork_run_on option \<times> str list" where
  "parse_event name = (let n = trim name in
     if n = [] then (None, [''empty '' @ quote ''event'' @ '' name, skipping''])
     else (Some (EventNamed n), []))"

definition run_on_word :: "str \<Rightarrow> fork_run_on option \<times> str list" where
  "run_on_word s =
     (case strip_prefix ''changed:'' s of Some rest \<Rightarrow> parse_changed rest
      | None \<Rightarrow> (case strip_prefix ''event:'' s of Some rest \<Rightarrow> parse_event rest
      | None \<Rightarrow>
         if s = ''idle'' then (Some (Idle None), [])
         else if s = ''compact'' \<or> s = ''compaction'' then (Some Compact, [])
         else if s = ''session_start'' then (Some SessionStart, [])
         else if s = ''session_end'' then (Some SessionEnd, [])
         else if s = ''manual_stop'' then (Some ManualStop, [])
         else if s = ''boot'' then (Some Boot, [])
         else (None, [''unknown run_on trigger '' @ quote s @ '', skipping''])))"

definition run_on_keyed :: "str \<Rightarrow> yaml \<Rightarrow> fork_run_on option \<times> str list" where
  "run_on_keyed key val =
     (let checked = (\<lambda>parsed. (parsed, if parsed = None
            then [''invalid run_on value for '' @ quote key @ '', skipping''] else []))
      in if key = ''idle'' then checked (map_option (\<lambda>s. Idle (Some s)) (parse_duration_yaml val))
         else if key = ''every'' then
           checked (case parse_duration_yaml val of None \<Rightarrow> None
                    | Some s \<Rightarrow> if s > 0 then Some (Every s) else None)
         else if key = ''context_tokens'' then checked (map_option ContextTokens (parse_token_count val))
         else if key = ''context_used'' then checked (map_option ContextUsedPct (parse_percent val))
         else if key = ''context_left'' then checked (map_option ContextLeft (parse_token_count val))
         else if key = ''changed'' then
           (case y_as_str val of None \<Rightarrow> (None, []) | Some p \<Rightarrow> parse_changed p)
         else if key = ''event'' then
           (case y_as_str val of None \<Rightarrow> (None, []) | Some n \<Rightarrow> parse_event n)
         else (None, [''unknown run_on trigger '' @ quote key @ '', skipping'']))"

definition parse_run_on_entry :: "yaml \<Rightarrow> fork_run_on option \<times> str list" where
  "parse_run_on_entry v = (case v of
     YString s \<Rightarrow> run_on_word s
   | YMap [(YString key, val)] \<Rightarrow> run_on_keyed key val
   | _ \<Rightarrow> (None, [''malformed run_on entry, skipping'']))"

section \<open>\<open>after\<close> and \<open>tags\<close>\<close>

definition ymap_get :: "(yaml \<times> yaml) list \<Rightarrow> str \<Rightarrow> str option" where
  "ymap_get m k = (case map_of m (YString k) of None \<Rightarrow> None | Some v \<Rightarrow> y_as_str v)"

definition parse_after_entry :: "str \<Rightarrow> yaml \<Rightarrow> str option \<times> str list" where
  "parse_after_entry name v =
     (let malformed = (None, [fork_warn name ''malformed after value, ignoring'']) in
      case v of
        YString s \<Rightarrow> if trim s \<noteq> [] then (Some (trim s), []) else malformed
      | YMap m \<Rightarrow>
          (let w1 = (if ymap_get m ''context'' \<noteq> None
                     then [fork_warn name (''after '' @ quote ''context''
                       @ '' is ignored since v0.5 (dependents inherit the parent session)'')] else []);
               raw = (case ymap_get m ''fork'' of Some s \<Rightarrow> Some s | None \<Rightarrow> ymap_get m ''skill'');
               dep = (case raw of None \<Rightarrow> None | Some s \<Rightarrow> if trim s = [] then None else Some (trim s));
               w2 = (if dep = None then [fork_warn name (''after entry is missing ''
                       @ quote ''fork'' @ '', ignoring'')] else [])
           in (dep, w1 @ w2))
      | _ \<Rightarrow> malformed)"

text \<open>\<open>filter_map\<close> with a closure that may also push warnings.\<close>

fun collect_warn :: "('a \<Rightarrow> 'b option \<times> str list) \<Rightarrow> 'a list \<Rightarrow> 'b list \<times> str list" where
  "collect_warn f [] = ([], [])"
| "collect_warn f (x # xs) =
     (case f x of (r, w) \<Rightarrow> (case collect_warn f xs of (rs, ws) \<Rightarrow>
        ((case r of None \<Rightarrow> rs | Some y \<Rightarrow> y # rs), w @ ws)))"

definition after_step :: "str \<Rightarrow> str list \<times> str list \<Rightarrow> str \<Rightarrow> str list \<times> str list" where
  "after_step name acc dep = (case acc of (out, ws) \<Rightarrow>
     if dep = name then (out, ws @ [fork_warn name ''after references itself, ignoring''])
     else if dep \<in> set out then
       (out, ws @ [fork_warn name (''duplicate after entry '' @ quote dep @ '', ignoring'')])
     else (out @ [dep], ws))"

definition after_entries :: "str \<Rightarrow> yaml \<Rightarrow> str list \<times> str list" where
  "after_entries name v = (case v of YSeq sq \<Rightarrow> collect_warn (parse_after_entry name) sq
     | _ \<Rightarrow> collect_warn (parse_after_entry name) [v])"

definition parse_after :: "yaml \<Rightarrow> str \<Rightarrow> str list \<times> str list" where
  "parse_after v name = (case after_entries name v of
     (entries, ws) \<Rightarrow> foldl (after_step name) ([], ws) entries)"

definition push_tag :: "str list \<Rightarrow> str \<Rightarrow> str list" where
  "push_tag out piece = (if trim piece \<noteq> [] \<and> trim piece \<notin> set out then out @ [trim piece] else out)"

definition push_split :: "str \<Rightarrow> str list \<Rightarrow> str list" where
  "push_split s out = foldl push_tag out (split_on (CHR '','') s)"

definition tags_step :: "str \<Rightarrow> str list \<times> str list \<Rightarrow> yaml \<Rightarrow> str list \<times> str list" where
  "tags_step name acc entry = (case acc of (out, ws) \<Rightarrow>
     (case entry of YString s \<Rightarrow> (push_split s out, ws)
      | _ \<Rightarrow> (out, ws @ [fork_warn name ''tags entry is not a string, skipping''])))"

definition parse_tags :: "yaml \<Rightarrow> str \<Rightarrow> str list \<times> str list" where
  "parse_tags v name = (case v of
     YString s \<Rightarrow> (push_split s [], [])
   | YSeq sq \<Rightarrow> foldl (tags_step name) ([], []) sq
   | YNull \<Rightarrow> ([], [])
   | _ \<Rightarrow> ([], [fork_warn name ''tags must be a string or a list of strings, ignoring'']))"

section \<open>Fork definitions\<close>

record fork_def =
  fd_description :: "str option"
  fd_run_on :: "fork_run_on list"
  fd_throttle_secs :: "nat option"
  fd_after :: "str list"
  fd_priority :: int
  fd_overlap :: bool
  fd_tags :: "str list"
  fd_chain :: bool
  fd_chain_limit :: "nat option"
  fd_gate :: bool
  fd_background_hold :: "bool option"
  fd_model :: client_scoped
  fd_mode :: client_scoped
  fd_guard :: "guard option"

definition fork_def_default :: fork_def where
  "fork_def_default = \<lparr>fd_description = None, fd_run_on = default_run_on, fd_throttle_secs = None,
     fd_after = [], fd_priority = 0, fd_overlap = False, fd_tags = [], fd_chain = False,
     fd_chain_limit = None, fd_gate = False, fd_background_hold = None, fd_model = Unset,
     fd_mode = Unset, fd_guard = None\<rparr>"

record raw_fork =
  rf_fork :: "yaml option"
  rf_description :: "str option"
  rf_run_on :: "yaml list option"
  rf_throttle :: "yaml option"
  rf_after :: "yaml option"
  rf_priority :: "yaml option"
  rf_overlap :: "yaml option"
  rf_tags :: "yaml option"
  rf_chain :: "yaml option"
  rf_chain_limit :: "yaml option"
  rf_gate :: "yaml option"
  rf_background_hold :: "yaml option"
  rf_model :: "yaml option"
  rf_mode :: "yaml option"
  rf_guard :: "yaml option"
  rf_delivery :: "yaml option"
  rf_allowed_tools :: "yaml option"
  rf_permission_mode :: "yaml option"
  rf_rag :: "yaml option"
  rf_triggers :: "yaml option"

definition is_marked :: "raw_fork \<Rightarrow> bool" where
  "is_marked r \<longleftrightarrow> rf_fork r = Some (YBool True)"

definition has_fork_like_keys :: "raw_fork \<Rightarrow> bool" where
  "has_fork_like_keys r \<longleftrightarrow> rf_description r \<noteq> None \<or> rf_run_on r \<noteq> None \<or> rf_throttle r \<noteq> None
     \<or> rf_after r \<noteq> None \<or> rf_priority r \<noteq> None \<or> rf_overlap r \<noteq> None \<or> rf_tags r \<noteq> None
     \<or> rf_chain r \<noteq> None \<or> rf_chain_limit r \<noteq> None \<or> rf_gate r \<noteq> None
     \<or> rf_background_hold r \<noteq> None \<or> rf_model r \<noteq> None \<or> rf_mode r \<noteq> None \<or> rf_guard r \<noteq> None
     \<or> rf_delivery r \<noteq> None \<or> rf_allowed_tools r \<noteq> None \<or> rf_permission_mode r \<noteq> None"

record parsed_fork =
  pf_def :: fork_def
  pf_body :: str
  pf_warnings :: "str list"

datatype fork_parse = ForkOk parsed_fork | NotFork bool | Invalid

section \<open>Splitting the file\<close>

definition nl :: char where
  "nl = CHR 0x0A"

definition cr :: char where
  "cr = CHR 0x0D"

text \<open>\<open>str::find\<close>: the first position of a substring.\<close>

fun find_sub :: "str \<Rightarrow> str \<Rightarrow> nat option" where
  "find_sub p [] = (if p = [] then Some 0 else None)"
| "find_sub p (c # cs) = (if starts_with (c # cs) p then Some 0 else map_option Suc (find_sub p cs))"

lemma find_sub_bound: "find_sub p s = Some i \<Longrightarrow> i + length p \<le> length s \<and> starts_with (drop i s) p"
proof (induction s arbitrary: i)
  case Nil
  then show ?case by (auto split: if_splits)
next
  case (Cons c cs)
  then show ?case
    by (auto split: if_splits) (metis length_Cons length_append le_add1 starts_with_iff)
qed

definition fence :: str where
  "fence = nl # ''---''"

definition opt_strip :: "str \<Rightarrow> str \<Rightarrow> str" where
  "opt_strip p s = (case strip_prefix p s of Some r \<Rightarrow> r | None \<Rightarrow> s)"

function split_loop :: "str \<Rightarrow> nat \<Rightarrow> (str \<times> str) option" where
  "split_loop rest start =
     (case find_sub fence (drop start rest) of
        None \<Rightarrow> None
      | Some pos \<Rightarrow>
          (let ab = start + pos;
               front = (case strip_suffix [cr] (take ab rest) of Some f \<Rightarrow> f | None \<Rightarrow> take ab rest);
               tail = opt_strip [cr] (drop (ab + 4) rest)
           in if tail = [] then Some (front, [])
              else if hd tail = nl then Some (front, tl tail)
              else split_loop rest (ab + 4)))"
  by pat_completeness auto
termination
proof (relation "measure (\<lambda>(rest, start). length rest + 1 - start)", goal_cases)
  case 1
  then show ?case by simp
next
  case (2 rest start pos)
  then have "pos + 4 \<le> length rest - start"
    using find_sub_bound[of fence "drop start rest" pos] by (simp add: fence_def)
  then show ?case using 2 by simp
qed

declare split_loop.simps [simp del]

definition split_frontmatter :: "str \<Rightarrow> str option \<times> str" where
  "split_frontmatter content =
     (case strip_prefix ''---'' content of
        None \<Rightarrow> (None, content)
      | Some rest0 \<Rightarrow>
          (case (case strip_prefix [cr, nl] rest0 of Some r \<Rightarrow> Some r | None \<Rightarrow> strip_prefix [nl] rest0) of
             None \<Rightarrow> (None, content)
           | Some rest \<Rightarrow> (case split_loop rest 0 of
                None \<Rightarrow> (None, content)
              | Some (front, body) \<Rightarrow> (Some front, body))))"

section \<open>Parsing a fork file\<close>

definition fork_throttle :: "str \<Rightarrow> raw_fork \<Rightarrow> nat option \<times> str list" where
  "fork_throttle name raw = (case rf_throttle raw of None \<Rightarrow> (None, [])
     | Some v \<Rightarrow> (let parsed = (case parse_duration_yaml v of None \<Rightarrow> None
                                | Some s \<Rightarrow> if s > 0 then Some s else None)
         in (parsed, if parsed = None then [fork_warn name ''invalid throttle value, ignoring''] else [])))"

definition fork_run_ons :: "str \<Rightarrow> raw_fork \<Rightarrow> fork_run_on list \<times> str list" where
  "fork_run_ons name raw = (case rf_run_on raw of None \<Rightarrow> (default_run_on, [])
     | Some entries \<Rightarrow> (case collect_warn parse_run_on_entry entries of (parsed, ws) \<Rightarrow>
         if parsed = [] then (default_run_on, ws @ [fork_warn name
            ''run_on has no valid triggers; using the defaults''])
         else (parsed, ws)))"

definition unsupported_step :: "str \<Rightarrow> str list \<times> str list \<Rightarrow> fork_run_on \<Rightarrow> str list \<times> str list" where
  "unsupported_step name acc t = (case acc of (seen, ws) \<Rightarrow>
     if \<not> is_supported t \<and> label t \<notin> set seen
     then (seen @ [label t], ws @ [fork_warn name (''run_on '' @ quote (label t)
             @ '' is not supported since v0.5, ignoring'')])
     else (seen, ws))"

definition unsupported_warnings :: "str \<Rightarrow> fork_run_on list \<Rightarrow> str list" where
  "unsupported_warnings name run_on = snd (foldl (unsupported_step name) ([], []) run_on)
     @ (if list_ex is_supported run_on then [] else [fork_warn name
          ''no supported run_on moments (idle / context_*); it will never fire''])"

definition fork_priority :: "str \<Rightarrow> raw_fork \<Rightarrow> int \<times> str list" where
  "fork_priority name raw =
     (let bad = (0, [fork_warn name ''priority must be an integer; using 0'']) in
      case rf_priority raw of None \<Rightarrow> (0, [])
      | Some (YNumber n) \<Rightarrow> (case yn_as_i64 n of Some i \<Rightarrow> (i, []) | None \<Rightarrow> bad)
      | Some (YString s) \<Rightarrow> (case parse_i64 (trim s) of Some i \<Rightarrow> (i, []) | None \<Rightarrow> bad)
      | Some _ \<Rightarrow> bad)"

definition fork_flag :: "str \<Rightarrow> str \<Rightarrow> yaml option \<Rightarrow> bool \<times> str list" where
  "fork_flag name key v = (case v of None \<Rightarrow> (False, [])
     | Some (YBool b) \<Rightarrow> (b, [])
     | Some _ \<Rightarrow> (False, [fork_warn name (key @ '' must be true or false; using false'')]))"

definition fork_chain_limit :: "str \<Rightarrow> bool \<Rightarrow> raw_fork \<Rightarrow> nat option \<times> str list" where
  "fork_chain_limit name chain raw =
     (case (case rf_chain_limit raw of None \<Rightarrow> (None, [])
            | Some v \<Rightarrow> (let parsed = (case parse_token_count v of None \<Rightarrow> None
                                       | Some n \<Rightarrow> if n > 0 then Some n else None)
                in (parsed, if parsed = None then [fork_warn name
                      ''chain_limit must be a positive integer, ignoring''] else []))) of
        (limit, ws) \<Rightarrow> (limit, ws @ (if limit \<noteq> None \<and> \<not> chain then [fork_warn name
            ''chain_limit without chain: true has no effect''] else [])))"

definition fork_background_hold :: "str \<Rightarrow> raw_fork \<Rightarrow> bool option \<times> str list" where
  "fork_background_hold name raw = (case rf_background_hold raw of None \<Rightarrow> (None, [])
     | Some (YBool b) \<Rightarrow> (Some b, [])
     | Some _ \<Rightarrow> (None, [fork_warn name ''background_hold must be true or false; using the config default'']))"

definition deprecation_warnings :: "str \<Rightarrow> raw_fork \<Rightarrow> str list" where
  "deprecation_warnings name raw =
     (if rf_rag raw \<noteq> None \<or> rf_triggers raw \<noteq> None
      then [fork_warn name ''RAG keys are not part of the fork format, ignoring''] else [])
     @ (if rf_delivery raw \<noteq> None
        then [fork_warn name (''v0.5 ignores '' @ quote ''delivery'' @ '' '' @ em_dash
                @ '' report delivery is native'')] else [])
     @ (if rf_allowed_tools raw \<noteq> None \<or> rf_permission_mode raw \<noteq> None
        then [fork_warn name (quote ''allowed_tools'' @ '' and '' @ quote ''permission_mode''
                @ '' are ignored '' @ em_dash @ '' use '' @ quote ''mode:''
                @ '' to pick the run'' @ [CHR 0x27] @ ''s operation mode (since v0.17)'')] else [])"

definition opt_parse :: "(yaml \<Rightarrow> 'a \<times> str list) \<Rightarrow> 'a \<Rightarrow> yaml option \<Rightarrow> 'a \<times> str list" where
  "opt_parse f d v = (case v of None \<Rightarrow> (d, []) | Some y \<Rightarrow> f y)"

definition build_fork :: "path option \<Rightarrow> str \<Rightarrow> raw_fork \<Rightarrow> str \<Rightarrow> parsed_fork" where
  "build_fork home name raw body =
     (let (throttle, w1) = fork_throttle name raw;
          (run_on, w2) = fork_run_ons name raw;
          (aft, w3) = opt_parse (\<lambda>v. parse_after v name) [] (rf_after raw);
          (priority, w4) = fork_priority name raw;
          (overlap, w5) = fork_flag name ''overlap'' (rf_overlap raw);
          (chain, w6) = fork_flag name ''chain'' (rf_chain raw);
          (limit, w7) = fork_chain_limit name chain raw;
          (gate, w8) = fork_flag name ''gate'' (rf_gate raw);
          (hold, w9) = fork_background_hold name raw;
          (tags, w10) = opt_parse (\<lambda>v. parse_tags v name) [] (rf_tags raw);
          (model, w11) = opt_parse (\<lambda>v. parse_client_scoped v ''model'' name) Unset (rf_model raw);
          (mode, w12) = opt_parse (\<lambda>v. parse_client_scoped v ''mode'' name) Unset (rf_mode raw);
          (g, w13) = opt_parse (\<lambda>v. parse_guard home v name) None (rf_guard raw)
      in \<lparr>pf_def = \<lparr>fd_description = (case rf_description raw of None \<Rightarrow> None
                       | Some d \<Rightarrow> if trim d = [] then None else Some d),
            fd_run_on = run_on, fd_throttle_secs = throttle, fd_after = aft,
            fd_priority = priority, fd_overlap = overlap, fd_tags = tags, fd_chain = chain,
            fd_chain_limit = limit, fd_gate = gate, fd_background_hold = hold, fd_model = model,
            fd_mode = mode, fd_guard = g\<rparr>,
          pf_body = body,
          pf_warnings = deprecation_warnings name raw @ w1 @ w2 @ unsupported_warnings name run_on
            @ w3 @ w4 @ w5 @ w6 @ w7 @ w8 @ w9 @ w10 @ w11 @ w12 @ w13\<rparr>)"

definition parse_fork_file :: "(str \<Rightarrow> raw_fork option) \<Rightarrow> path option \<Rightarrow> str \<Rightarrow> str \<Rightarrow> fork_parse" where
  "parse_fork_file from_yaml home name content =
     (case split_frontmatter content of (front, body) \<Rightarrow>
        (case front of None \<Rightarrow> NotFork False
         | Some y \<Rightarrow> (case from_yaml y of None \<Rightarrow> Invalid
            | Some raw \<Rightarrow>
                if \<not> is_marked raw
                then NotFork (rf_fork raw \<noteq> Some (YBool False) \<and> has_fork_like_keys raw)
                else ForkOk (build_fork home name raw body))))"

section \<open>Well-formed definitions\<close>

fun wf_trigger :: "fork_run_on \<Rightarrow> bool" where
  "wf_trigger (Every n) = (0 < n)"
| "wf_trigger (ContextUsedPct p) = (1 \<le> p \<and> p \<le> 100)"
| "wf_trigger (Changed p) = (p \<noteq> [] \<and> trim p = p)"
| "wf_trigger (EventNamed n) = (n \<noteq> [] \<and> trim n = n)"
| "wf_trigger _ = True"

definition wf_guard :: "guard \<Rightarrow> bool" where
  "wf_guard g \<longleftrightarrow> list_all (\<lambda>p. is_abs p \<and> abs_plain (components p)) (g_write g)
     \<and> distinct (g_write g) \<and> (case g_tools g of None \<Rightarrow> True | Some fs \<Rightarrow> distinct fs)
     \<and> distinct (g_deny g) \<and> [] \<notin> set (g_deny g)"

definition wf_fork_def :: "str \<Rightarrow> fork_def \<Rightarrow> bool" where
  "wf_fork_def name d \<longleftrightarrow>
     fd_run_on d \<noteq> [] \<and> list_all wf_trigger (fd_run_on d)
     \<and> fd_throttle_secs d \<noteq> Some 0 \<and> fd_chain_limit d \<noteq> Some 0
     \<and> distinct (fd_after d) \<and> name \<notin> set (fd_after d)
     \<and> distinct (fd_tags d) \<and> list_all (\<lambda>t. t \<noteq> [] \<and> trim t = t \<and> CHR '','' \<notin> set t) (fd_tags d)
     \<and> in_i64 (fd_priority d)
     \<and> (case fd_guard d of None \<Rightarrow> True | Some g \<Rightarrow> wf_guard g)"

lemma parse_changed_wf: "fst (parse_changed p) = Some t \<Longrightarrow> wf_trigger t"
  and parse_event_wf: "fst (parse_event p) = Some t \<Longrightarrow> wf_trigger t"
  by (auto simp: parse_changed_def parse_event_def Let_def split: if_splits)

lemma run_on_word_wf: "fst (run_on_word s) = Some t \<Longrightarrow> wf_trigger t"
  by (auto simp: run_on_word_def split: option.splits if_splits
      intro: parse_changed_wf parse_event_wf)

lemma parse_percent_range: "parse_percent v = Some p \<Longrightarrow> 1 \<le> p \<and> p \<le> 100"
  by (auto simp: parse_percent_def Let_def split: option.splits if_splits)

lemma run_on_keyed_wf: "fst (run_on_keyed k v) = Some t \<Longrightarrow> wf_trigger t"
  by (auto simp: run_on_keyed_def Let_def split: option.splits if_splits
      dest: parse_percent_range intro: parse_changed_wf parse_event_wf)

lemma parse_run_on_entry_wf: "fst (parse_run_on_entry v) = Some t \<Longrightarrow> wf_trigger t"
  by (auto simp: parse_run_on_entry_def split: yaml.splits list.splits prod.splits
      intro: run_on_word_wf run_on_keyed_wf)

lemma collect_warn_set: "y \<in> set (fst (collect_warn f xs)) \<Longrightarrow> \<exists>x\<in>set xs. fst (f x) = Some y"
  by (induction xs) (auto split: prod.splits option.splits)

lemma fork_run_ons_wf:
  "fst (fork_run_ons name raw) \<noteq> [] \<and> list_all wf_trigger (fst (fork_run_ons name raw))"
proof (cases "rf_run_on raw")
  case None
  then show ?thesis by (simp add: fork_run_ons_def default_run_on_def)
next
  case (Some entries)
  obtain parsed ws where c: "collect_warn parse_run_on_entry entries = (parsed, ws)" by fastforce
  have "list_all wf_trigger parsed"
    using collect_warn_set[of _ parse_run_on_entry entries] c parse_run_on_entry_wf
    by (fastforce simp: list_all_iff)
  with Some c show ?thesis by (simp add: fork_run_ons_def default_run_on_def)
qed

lemma after_fold:
  "distinct out \<Longrightarrow> name \<notin> set out \<Longrightarrow>
     distinct (fst (foldl (after_step name) (out, ws) ds))
     \<and> name \<notin> set (fst (foldl (after_step name) (out, ws) ds))"
  by (induction ds arbitrary: out ws) (auto simp: after_step_def)

lemma parse_after_wf: "distinct (fst (parse_after v name)) \<and> name \<notin> set (fst (parse_after v name))"
  using after_fold[of "[]" name]
  by (cases "after_entries name v") (simp add: parse_after_def)

definition tags_ok :: "str list \<Rightarrow> bool" where
  "tags_ok ts \<longleftrightarrow> distinct ts \<and> list_all (\<lambda>t. t \<noteq> [] \<and> trim t = t \<and> CHR '','' \<notin> set t) ts"

lemma push_split_ok: "tags_ok out \<Longrightarrow> tags_ok (push_split s out)"
  unfolding push_split_def
proof (rule foldl_invariant)
  fix ts p assume "tags_ok ts" "p \<in> set (split_on (CHR '','') s)"
  moreover from this have "CHR '','' \<notin> set (trim p)"
    using split_on_pieces[of p "CHR '','' " s] set_trim[of p] by blast
  ultimately show "tags_ok (push_tag ts p)"
    by (auto simp: tags_ok_def push_tag_def)
qed

lemma tags_fold_ok: "tags_ok out \<Longrightarrow> tags_ok (fst (foldl (tags_step name) (out, ws) sq))"
  by (induction sq arbitrary: out ws) (auto simp: tags_step_def push_split_ok split: yaml.splits)

lemma tags_ok_Nil [simp]: "tags_ok []"
  by (simp add: tags_ok_def)

lemma parse_tags_ok: "tags_ok (fst (parse_tags v name))"
  by (cases v) (simp_all add: parse_tags_def push_split_ok tags_fold_ok)

lemma guard_expand_ok: "guard_expand home s = Some p \<Longrightarrow> is_abs p \<and> abs_plain (components p)"
  by (auto simp: guard_expand_def Let_def components_normalize norm_comps_abs_plain is_abs_normalize
      split: option.splits if_splits)

definition write_ok :: "path list \<Rightarrow> bool" where
  "write_ok w \<longleftrightarrow> list_all (\<lambda>p. is_abs p \<and> abs_plain (components p)) w \<and> distinct w"

lemma write_fold_ok:
  assumes "write_ok w"
  shows "write_ok (fst (foldl (add_write home name) (w, ws) items))"
proof (rule foldl_invariant)
  fix acc :: "path list \<times> str list" and s assume "write_ok (fst acc)"
  then show "write_ok (fst (add_write home name acc s))"
    using push_new_props[of "fst acc"] guard_expand_ok[of home s]
    by (cases acc; cases "guard_expand home s") (simp_all add: add_write_def write_ok_def list_all_iff)
qed (simp add: assms)

lemma tools_fold_ok: "distinct fs \<Longrightarrow> distinct (fst (foldl (add_tool name) (fs, ws) items))"
  by (induction items arbitrary: fs ws) (auto simp: add_tool_def push_new_props split: option.splits)

lemma deny_fold_ok: "distinct d \<and> [] \<notin> set d \<Longrightarrow>
    distinct (foldl add_deny d items) \<and> [] \<notin> set (foldl add_deny d items)"
  by (induction items arbitrary: d) (auto simp: add_deny_def push_new_props)

lemma wf_guard_updates [simp]:
  "wf_guard (g\<lparr>g_network := b\<rparr>) = wf_guard g" "wf_guard (g\<lparr>g_message := m\<rparr>) = wf_guard g"
  "wf_guard g \<Longrightarrow> wf_guard (g\<lparr>g_tools := None\<rparr>)"
  by (simp_all add: wf_guard_def)

lemma guard_write_wf: "wf_guard (fst acc) \<Longrightarrow> wf_guard (fst (guard_write home name acc v))"
  using write_fold_ok[of "g_write (fst acc)" home name "snd acc"]
  by (auto simp: guard_write_def wf_guard_def write_ok_def split_beta split: option.splits)

lemma guard_tools_wf: "wf_guard (fst acc) \<Longrightarrow> wf_guard (fst (guard_tools name acc v))"
  using tools_fold_ok[of "[]" name "snd acc"]
  by (auto simp: guard_tools_def wf_guard_def split_beta split: option.splits)

lemma guard_deny_wf: "wf_guard (fst acc) \<Longrightarrow> wf_guard (fst (guard_deny name acc v))"
  using deny_fold_ok[of "g_deny (fst acc)"]
  by (auto simp: guard_deny_def wf_guard_def split_beta split: option.splits)

lemma guard_network_message_wf:
  "wf_guard (fst acc) \<Longrightarrow> wf_guard (fst (guard_network name acc v))"
  "wf_guard (fst acc) \<Longrightarrow> wf_guard (fst (guard_message name acc v))"
  by (cases acc; cases v; simp add: guard_network_def guard_message_def)+

lemma guard_entry_wf: "wf_guard (fst acc) \<Longrightarrow> wf_guard (fst (guard_entry home name acc kv))"
  by (simp add: guard_entry_def guard_write_wf guard_tools_wf guard_deny_wf guard_network_message_wf
      split: option.splits)

lemma parse_guard_wf: "fst (parse_guard home v name) = Some g \<Longrightarrow> wf_guard g"
proof -
  assume g: "fst (parse_guard home v name) = Some g"
  then obtain m where m: "v = YMap m" by (auto simp: parse_guard_def split: yaml.splits)
  have "wf_guard (fst (foldl (guard_entry home name) (guard_default, []) m))"
  proof (rule foldl_invariant)
    show "wf_guard (fst (guard_default, []))" by (simp add: wf_guard_def guard_default_def)
  qed (rule guard_entry_wf)
  with g m show ?thesis by (auto simp: parse_guard_def split: prod.splits)
qed

lemma fork_priority_range: "in_i64 (fst (fork_priority name raw))"
  by (auto simp: fork_priority_def in_i64_def parse_i64_def Let_def
      split: option.splits yaml.splits list.splits if_splits elim!: yn_as_i64.elims)

lemma build_fork_wf: "wf_fork_def name (pf_def (build_fork home name raw body))"
proof -
  have thr: "fst (fork_throttle name raw) \<noteq> Some 0"
    by (auto simp: fork_throttle_def Let_def split: option.splits)
  have lim: "fst (fork_chain_limit name c raw) \<noteq> Some 0" for c
    by (auto simp: fork_chain_limit_def Let_def split_beta split: option.splits)
  have aft: "distinct (fst (opt_parse (\<lambda>v. parse_after v name) [] x))
      \<and> name \<notin> set (fst (opt_parse (\<lambda>v. parse_after v name) [] x))" for x
    using parse_after_wf by (auto simp: opt_parse_def split: option.splits)
  have tags: "tags_ok (fst (opt_parse (\<lambda>v. parse_tags v name) [] x))" for x
    using parse_tags_ok by (auto simp: opt_parse_def split: option.splits)
  have g: "fst (opt_parse (\<lambda>v. parse_guard home v name) None x) = Some gd \<Longrightarrow> wf_guard gd" for x gd
    using parse_guard_wf by (auto simp: opt_parse_def split: option.splits)
  show ?thesis
    using thr lim aft tags g fork_run_ons_wf[of name raw] fork_priority_range[of name raw]
    by (simp add: build_fork_def wf_fork_def_def split_beta tags_ok_def Let_def split: option.split)
qed

section \<open>Trigger labels\<close>

lemma show_nat_no_percent: "CHR ''%'' \<notin> set (show_nat n)"
  using show_nat_digits[of "CHR ''%''" n] by (auto simp: is_digit_def less_eq_char_def)

lemma label_inj: "label a = label b \<Longrightarrow> a = b"
  by (cases a rule: label.cases; cases b rule: label.cases) (auto simp: show_nat_inj)

section \<open>Round trip of the file format\<close>

lemma find_sub_none_before:
  "find_sub p (f @ p @ r) = Some (length f)"
  if "p \<noteq> []" "\<And>i. i < length f \<Longrightarrow> \<not> starts_with (drop i (f @ p @ r)) p"
  using that
proof (induction f)
  case Nil
  then show ?case by (cases p) auto
next
  case (Cons c f)
  have "\<not> starts_with (c # f @ p @ r) p" using Cons.prems(2)[of 0] by simp
  moreover have "find_sub p (f @ p @ r) = Some (length f)"
    using Cons.prems(2)[of "Suc i" for i] by (intro Cons.IH Cons.prems(1)) force
  ultimately show ?case by simp
qed

lemma fence_no_overlap:
  assumes "starts_with (t @ fence @ r) fence" "t \<noteq> []"
  shows "starts_with t fence"
proof -
  consider a where "t = [a]" | a b where "t = [a, b]" | a b c where "t = [a, b, c]"
    | a b c d u where "t = a # b # c # d # u"
    using assms(2) by (metis list.exhaust)
  then show ?thesis by cases (use assms(1) in \<open>auto simp: fence_def nl_def\<close>)
qed

lemma find_fence:
  assumes "\<not> str_contains front fence"
  shows "find_sub fence (front @ fence @ r) = Some (length front)"
proof (rule find_sub_none_before)
  fix i assume i: "i < length front"
  show "\<not> starts_with (drop i (front @ fence @ r)) fence"
  proof
    assume "starts_with (drop i (front @ fence @ r)) fence"
    then have "starts_with (drop i front) fence"
      using i fence_no_overlap[of "drop i front" r] by simp
    with assms show False by (auto dest: str_contains_drop)
  qed
qed (simp add: fence_def)

lemma split_loop_found:
  assumes "\<not> str_contains front fence" "front = [] \<or> last front \<noteq> cr"
  shows "split_loop (front @ fence @ nl # body) 0 = Some (front, body)"
proof -
  have "strip_suffix [cr] front = None"
    using assms(2) by (cases front rule: rev_cases) (auto simp: strip_suffix_def ends_with_def)
  moreover have "drop (length front + 4) (front @ fence @ nl # body) = nl # body"
    by (simp add: fence_def)
  moreover have "opt_strip [cr] (nl # body) = nl # body"
    by (simp add: opt_strip_def strip_prefix_def nl_def cr_def)
  ultimately show ?thesis
    by (subst split_loop.simps) (simp add: find_fence[OF assms(1)] Let_def)
qed

section \<open>Properties\<close>

text \<open>C34. Whatever the YAML holds, an accepted definition is well formed: it has a trigger, every
  interval is positive and every percentage within 1..100, throttle and chain limit are positive,
  \<open>after\<close> has no duplicate and never the fork itself, tags are trimmed, non-empty, comma-free and
  distinct, the priority fits an \<open>i64\<close>, and a guard's write set holds only absolute, dot-free
  paths.\<close>

theorem parse_fork_file_wf:
  assumes "parse_fork_file from_yaml home name content = ForkOk p"
  shows "wf_fork_def name (pf_def p)"
  using assms build_fork_wf
  by (auto simp: parse_fork_file_def split: prod.splits option.splits if_splits)

definition raw_empty :: raw_fork where
  "raw_empty = \<lparr>rf_fork = None, rf_description = None, rf_run_on = None, rf_throttle = None,
     rf_after = None, rf_priority = None, rf_overlap = None, rf_tags = None, rf_chain = None,
     rf_chain_limit = None, rf_gate = None, rf_background_hold = None, rf_model = None,
     rf_mode = None, rf_guard = None, rf_delivery = None, rf_allowed_tools = None,
     rf_permission_mode = None, rf_rag = None, rf_triggers = None\<rparr>"

definition sample_yaml :: "str \<Rightarrow> raw_fork option" where
  "sample_yaml y = (if y = ''fork: true'' then Some (raw_empty\<lparr>rf_fork := Some (YBool True),
       rf_tags := Some (YString ''ci, ci ,review''), rf_after := Some (YString ''me'')\<rparr>) else None)"

definition sample_file :: str where
  "sample_file = ''---'' @ [nl] @ ''fork: true'' @ [nl] @ ''---'' @ [nl] @ ''do it''"

definition sample_parsed :: parsed_fork where
  "sample_parsed = \<lparr>pf_def = fork_def_default\<lparr>fd_tags := [''ci'', ''review'']\<rparr>, pf_body = ''do it'',
     pf_warnings = [fork_warn ''me'' ''after references itself, ignoring'']\<rparr>"

theorem parse_fork_file_wf_witness:
  "parse_fork_file sample_yaml None ''me'' sample_file = ForkOk sample_parsed
   \<and> wf_fork_def ''me'' (pf_def sample_parsed)"
proof -
  have "parse_fork_file sample_yaml None ''me'' sample_file = ForkOk sample_parsed" by code_simp
  with parse_fork_file_wf[OF this] show ?thesis by simp
qed

text \<open>The marker gate: a file is taken as a fork exactly if it opens with a frontmatter block
  that deserializes with \<open>fork: true\<close>, and the prompt handed on is then the text after the
  block.\<close>

theorem parse_fork_file_marker:
  "(\<exists>p. parse_fork_file from_yaml home name content = ForkOk p \<and> pf_body p = body) \<longleftrightarrow>
   (\<exists>y raw. split_frontmatter content = (Some y, body) \<and> from_yaml y = Some raw
      \<and> rf_fork raw = Some (YBool True))"
  by (cases "split_frontmatter content")
    (auto simp: parse_fork_file_def is_marked_def build_fork_def split_beta split: option.splits)

text \<open>Trigger labels identify triggers: they are the latch keys and the trigger column of the
  store, and two different triggers never share one.\<close>

theorem label_injective: "label a = label b \<longleftrightarrow> a = b"
  using label_inj by blast

text \<open>Round trip of the file format: a block between two \<open>---\<close> lines is returned verbatim with
  the text behind it as the body, for every block that does not itself contain a line starting
  with three dashes (or end in a carriage return, which belongs to the line break).\<close>

theorem split_frontmatter_roundtrip:
  assumes "\<not> str_contains front fence" "front = [] \<or> last front \<noteq> cr"
  shows "split_frontmatter (''---'' @ [nl] @ front @ fence @ [nl] @ body) = (Some front, body)"
  using split_loop_found[OF assms, of body]
  by (simp add: split_frontmatter_def strip_prefix_def nl_def cr_def)

theorem split_frontmatter_roundtrip_witness:
  "split_frontmatter (''---'' @ [nl] @ ''a: --'' @ fence @ [nl] @ ''body'') = (Some ''a: --'', ''body'')"
  by (rule split_frontmatter_roundtrip) (code_simp, simp add: cr_def)

end
