(* ===== verification/Moments.thy ===== *)
theory Moments
  imports Frontmatter
begin

text \<open>
  \<open>autofork-core/src/moments.rs\<close> and \<open>tags.rs\<close>: the moments a session goes through, which
  trigger of a fork they match, the idle deadlines and interval fire times a poll has to
  schedule, the context window of a session, and the tag filter.
\<close>

section \<open>The context window\<close>

definition DEFAULT_CONTEXT_WINDOW :: nat where
  "DEFAULT_CONTEXT_WINDOW = 200000"

definition CONTEXT_WINDOW_1M :: nat where
  "CONTEXT_WINDOW_1M = 1000000"

definition resolve_context_window :: "str option \<Rightarrow> nat option \<Rightarrow> nat option \<Rightarrow> nat" where
  "resolve_context_window model prompt_tokens reported0 =
     (let reported = (case reported0 of None \<Rightarrow> None | Some w \<Rightarrow> if w > 0 then Some w else None);
          window = (case reported of Some w \<Rightarrow> w
             | None \<Rightarrow> (case model of
                 Some m \<Rightarrow> if str_contains m ''[1m]'' \<or> str_contains m ''fable'' \<or> str_contains m ''mythos''
                           then CONTEXT_WINDOW_1M else DEFAULT_CONTEXT_WINDOW
               | None \<Rightarrow> DEFAULT_CONTEXT_WINDOW))
      in case prompt_tokens of None \<Rightarrow> window
         | Some pt \<Rightarrow> if pt > window then (if reported \<noteq> None then pt else max CONTEXT_WINDOW_1M pt)
                      else window)"

section \<open>Moments and matching\<close>

datatype external_kind = KChanged | KEvent

fun kind_label :: "external_kind \<Rightarrow> str" where
  "kind_label KChanged = ''changed''"
| "kind_label KEvent = ''event''"

definition kind_from_label :: "str \<Rightarrow> external_kind option" where
  "kind_from_label s = (if s = ''changed'' then Some KChanged
     else if s = ''event'' then Some KEvent else None)"

datatype fork_moment =
    MIdle nat
  | MContext nat "nat option"
  | MTick int "int option"
  | MExternal external_kind str

definition every_base :: "int option \<Rightarrow> int \<Rightarrow> int" where
  "every_base last_run_at created = (case last_run_at of Some t \<Rightarrow> t | None \<Rightarrow> created)"

text \<open>The \<open>match (moment, trigger)\<close> of the inner loop.\<close>

fun trigger_hit :: "nat \<Rightarrow> int option \<Rightarrow> int \<Rightarrow> fork_moment \<Rightarrow> fork_run_on \<Rightarrow> bool" where
  "trigger_hit default_idle last_run created (MTick now pause) (Every interval) =
     (let base = every_base last_run created;
          pause_ok = (case pause of None \<Rightarrow> True
             | Some p \<Rightarrow> (case last_run of None \<Rightarrow> True | Some r \<Rightarrow> r < p))
      in as_i64 interval \<le> i64_sub now base \<and> pause_ok)"
| "trigger_hit default_idle last_run created (MIdle deadline) (Idle after_secs) =
     (case after_secs of Some a \<Rightarrow> a = deadline
      | None \<Rightarrow> default_idle > 0 \<and> default_idle = deadline)"
| "trigger_hit default_idle last_run created (MContext pt mx) (ContextTokens n) = (pt \<ge> n)"
| "trigger_hit default_idle last_run created (MContext pt mx) (ContextUsedPct p) =
     (case mx of None \<Rightarrow> False | Some m \<Rightarrow> sat_mul pt 100 \<ge> sat_mul m p)"
| "trigger_hit default_idle last_run created (MContext pt mx) (ContextLeft n) =
     (case mx of None \<Rightarrow> False | Some m \<Rightarrow> m - pt \<le> n)"
| "trigger_hit default_idle last_run created (MExternal KChanged key) (Changed pattern) = (key = pattern)"
| "trigger_hit default_idle last_run created (MExternal KEvent key) (EventNamed name) = (key = name)"
| "trigger_hit default_idle last_run created _ _ = False"

fun match_moments :: "fork_def \<Rightarrow> fork_moment list \<Rightarrow> nat \<Rightarrow> int option \<Rightarrow> int \<Rightarrow> fork_run_on option" where
  "match_moments fork [] default_idle last_run created = None"
| "match_moments fork (m # ms) default_idle last_run created =
     (case find (trigger_hit default_idle last_run created m) (fd_run_on fork) of
        Some t \<Rightarrow> Some t
      | None \<Rightarrow> match_moments fork ms default_idle last_run created)"

definition idle_keep :: "nat \<Rightarrow> fork_run_on \<Rightarrow> nat option" where
  "idle_keep default_idle t = (case t of
     Idle (Some d) \<Rightarrow> Some d
   | Idle None \<Rightarrow> if default_idle > 0 then Some default_idle else None
   | _ \<Rightarrow> None)"

definition idle_deadlines :: "fork_def list \<Rightarrow> nat \<Rightarrow> nat list" where
  "idle_deadlines forks default_idle =
     sort (foldl push_new [] (List.map_filter (idle_keep default_idle) (concat (map fd_run_on forks))))"

definition every_fire :: "(str \<Rightarrow> int option) \<Rightarrow> int \<Rightarrow> str \<Rightarrow> fork_run_on \<Rightarrow> int option" where
  "every_fire ran_at created name t = (case t of
     Every interval \<Rightarrow> Some (i64_add (every_base (ran_at name) created) (as_i64 interval))
   | _ \<Rightarrow> None)"

definition every_fire_times :: "(str \<times> fork_def) list \<Rightarrow> (str \<Rightarrow> int option) \<Rightarrow> int \<Rightarrow> int list" where
  "every_fire_times forks ran_at created =
     sort (foldl push_new [] (concat (map (\<lambda>(name, fork).
        List.map_filter (every_fire ran_at created name) (fd_run_on fork)) forks)))"

section \<open>Tags\<close>

definition tags_allowed :: "str list \<Rightarrow> str list option \<Rightarrow> str list option \<Rightarrow> bool" where
  "tags_allowed fork_tags enable disable =
     (if (case disable of None \<Rightarrow> False | Some ds \<Rightarrow> list_ex (\<lambda>t. list_ex (\<lambda>d. d = t) ds) fork_tags)
      then False
      else (case enable of
              Some es \<Rightarrow> if es \<noteq> [] then list_ex (\<lambda>t. list_ex (\<lambda>e. e = t) es) fork_tags else True
            | None \<Rightarrow> True))"

section \<open>Lemmas\<close>

lemma match_moments_find:
  "match_moments fork ms d l c =
     map_option snd (find (\<lambda>(m, t). trigger_hit d l c m t) (List.product ms (fd_run_on fork)))"
proof (induction ms)
  case Nil
  then show ?case by simp
next
  case (Cons m ms)
  have "find P (map (Pair m) ts @ r) =
      (case find (\<lambda>t. P (m, t)) ts of Some t \<Rightarrow> Some (m, t) | None \<Rightarrow> find P r)" for P ts and r :: "(fork_moment \<times> fork_run_on) list"
    by (induction ts) auto
  with Cons show ?case by (auto split: option.splits)
qed

lemma match_moments_SomeD:
  "match_moments fork ms d l c = Some t \<Longrightarrow> t \<in> set (fd_run_on fork) \<and> (\<exists>m\<in>set ms. trigger_hit d l c m t)"
  by (induction ms) (auto split: option.splits simp: find_Some_iff)

lemma match_moments_NoneD:
  "match_moments fork ms d l c = None \<longleftrightarrow> (\<forall>m\<in>set ms. \<forall>t\<in>set (fd_run_on fork). \<not> trigger_hit d l c m t)"
  by (induction ms) (auto split: option.splits simp: find_None_iff find_Some_iff)

lemma trigger_hit_supported: "trigger_hit d l c m t \<Longrightarrow> is_supported t"
  by (cases "(d, l, c, m, t)" rule: trigger_hit.cases) auto

lemma set_map_filter: "y \<in> set (List.map_filter g xs) \<longleftrightarrow> (\<exists>x\<in>set xs. g x = Some y)"
  by (induction xs) (auto simp: List.map_filter_simps split: option.splits)

lemma set_idle_deadlines:
  "d \<in> set (idle_deadlines forks default_idle) \<longleftrightarrow>
     (\<exists>fork\<in>set forks. \<exists>t\<in>set (fd_run_on fork). idle_keep default_idle t = Some d)"
  by (auto simp: idle_deadlines_def set_map_filter)

lemma idle_keep_hit: "idle_keep d t = Some dl \<longleftrightarrow> trigger_hit d l c (MIdle dl) t"
  by (auto simp: idle_keep_def split: fork_run_on.splits option.splits)

lemma sat_mul_cmp:
  assumes "m * 100 \<le> u64_max" "p \<le> 100"
  shows "sat_mul pt 100 \<ge> sat_mul m p \<longleftrightarrow> pt * 100 \<ge> m * p"
proof -
  have "m * p \<le> m * 100" using assms(2) by simp
  with assms(1) have "m * p \<le> u64_max" by linarith
  then show ?thesis unfolding sat_mul_def by (simp add: min_def)
qed

section \<open>Properties\<close>

text \<open>\<open>match_moments\<close> returns the first hit in the order the loops search (moments outside,
  the fork's triggers inside), and only ever a supported trigger of that fork.\<close>

theorem match_moments_first_hit:
  "match_moments fork ms d l c =
     map_option snd (find (\<lambda>(m, t). is_supported t \<and> trigger_hit d l c m t)
                       (List.product ms (fd_run_on fork)))"
proof -
  have "(\<lambda>(m, t). is_supported t \<and> trigger_hit d l c m t) = (\<lambda>(m, t). trigger_hit d l c m t)"
    by (auto simp: fun_eq_iff dest: trigger_hit_supported)
  then show ?thesis by (simp add: match_moments_find)
qed

text \<open>The context gauge is exact where it can be: for every percentage trigger a parsed
  definition can hold, and every window whose hundredfold fits a \<open>u64\<close>, the saturating test fires
  exactly when the prompt uses at least that share of the window - for every prompt size, the
  saturating ones included, so once crossed it stays crossed as the prompt grows.\<close>

theorem context_used_exact:
  assumes "wf_trigger (ContextUsedPct p)" "w * 100 \<le> u64_max"
  shows "trigger_hit d l c (MContext pt (Some w)) (ContextUsedPct p) \<longleftrightarrow> w * p \<le> pt * 100"
  using assms sat_mul_cmp[of w p pt] by auto

theorem context_used_exact_witness:
  "trigger_hit 900 None 0 (MContext 160000 (Some 200000)) (ContextUsedPct 80)
   \<and> \<not> trigger_hit 900 None 0 (MContext 159999 (Some 200000)) (ContextUsedPct 80)"
  using context_used_exact[of 80 200000 900 None 0 160000]
    context_used_exact[of 80 200000 900 None 0 159999]
  by (simp add: u64_max_def)

text \<open>A pause is not a cron: once a fork has run at or after the start of a pause, no tick
  of that pause matches any of its \<open>every:\<close> triggers again, however late it comes.\<close>

theorem every_once_per_pause:
  assumes "pause \<le> lr"
  shows "\<not> trigger_hit d (Some lr) c (MTick now (Some pause)) (Every interval)"
  using assms by simp

theorem every_once_per_pause_witness:
  "\<not> trigger_hit 900 (Some 100) 0 (MTick 1000000 (Some 100)) (Every 60)
   \<and> trigger_hit 900 (Some 99) 0 (MTick 1000000 (Some 100)) (Every 60)"
  using every_once_per_pause[of 100 100 900 0 1000000 60] by (simp add: int_width every_base_def)

text \<open>The deadlines a poll schedules are complete and tight: ascending without duplicates,
  and an instant is scheduled exactly if some fork would match a pure idle moment there - so no
  idle trigger is missed and no poll wakes for nothing.\<close>

theorem idle_deadlines_complete:
  "sorted (idle_deadlines forks d) \<and> distinct (idle_deadlines forks d)
   \<and> set (idle_deadlines forks d) = {dl. \<exists>fork\<in>set forks. match_moments fork [MIdle dl] d l c \<noteq> None}"
proof -
  have "(match_moments fork [MIdle dl] d l c \<noteq> None)
      = (\<exists>t\<in>set (fd_run_on fork). idle_keep d t = Some dl)" for fork dl
    by (auto simp: match_moments_NoneD idle_keep_hit[symmetric] simp del: match_moments.simps)
  then have "set (idle_deadlines forks d) = {dl. \<exists>fork\<in>set forks. match_moments fork [MIdle dl] d l c \<noteq> None}"
    using set_idle_deadlines[of _ forks d] by blast
  then show ?thesis
    by (simp add: idle_deadlines_def del: match_moments.simps)
qed

text \<open>The fire times of \<open>every:\<close> intervals agree with matching: ascending without duplicates,
  and, while clock values stay in range, an activity tick matches an interval trigger of a fork
  exactly from that trigger's fire time on.\<close>

theorem every_fire_times_agree:
  assumes "in_i64 (int interval)" "in_i64 (every_base (ran_at name) created + int interval)"
    and "in_i64 (now - every_base (ran_at name) created)"
    and "(name, fork) \<in> set forks" "Every interval \<in> set (fd_run_on fork)"
  shows "sorted (every_fire_times forks ran_at created) \<and> distinct (every_fire_times forks ran_at created)
    \<and> (\<exists>fire\<in>set (every_fire_times forks ran_at created).
         fire = every_base (ran_at name) created + int interval
         \<and> (trigger_hit d (ran_at name) created (MTick now None) (Every interval) \<longleftrightarrow> fire \<le> now))"
proof -
  let ?fire = "every_base (ran_at name) created + int interval"
  have iv: "as_i64 interval = int interval" using assms(1) by (simp add: as_i64_def wrap_i64_id)
  then have "every_fire ran_at created name (Every interval) = Some ?fire"
    using assms(2) by (simp add: every_fire_def i64_add_def wrap_i64_id)
  then have "?fire \<in> set (every_fire_times forks ran_at created)"
    using assms(4,5) by (auto simp: every_fire_times_def set_map_filter intro!: bexI[of _ "(name, fork)"])
  moreover have "trigger_hit d (ran_at name) created (MTick now None) (Every interval) \<longleftrightarrow> ?fire \<le> now"
    using assms(3) iv by (auto simp: i64_sub_def wrap_i64_id)
  ultimately show ?thesis
    by (auto simp: every_fire_times_def)
qed

theorem every_fire_times_agree_witness:
  "trigger_hit 900 None 1000 (MTick 1600 None) (Every 600)
   \<and> every_fire_times [(''f'', fork_def_default\<lparr>fd_run_on := [Every 600]\<rparr>)] (\<lambda>_. None) 1000 = [1600]"
proof -
  let ?f = "fork_def_default\<lparr>fd_run_on := [Every 600]\<rparr>"
  have t: "every_fire_times [(''f'', ?f)] (\<lambda>_. None) 1000 = [1600]"
    by (simp add: every_fire_times_def every_fire_def every_base_def int_width List.map_filter_def push_new_def)
  show ?thesis
    using every_fire_times_agree[of 600 "\<lambda>_. None" "''f''" 1000 1600 ?f "[(''f'', ?f)]" 900]
    by (simp add: t in_i64_def every_base_def)
qed

text \<open>The resolved window never lies below the gauge (so \<open>context_left\<close> and
  \<open>context_used\<close> never see more than 100%), is never zero, and a window the client reported is
  used as it is unless the gauge has outgrown it.\<close>

theorem context_window_covers_gauge:
  "(case pt of None \<Rightarrow> 0 | Some n \<Rightarrow> n) \<le> resolve_context_window model pt reported
   \<and> 0 < resolve_context_window model pt reported
   \<and> resolve_context_window model pt (Some (Suc w)) = max (Suc w) (case pt of None \<Rightarrow> 0 | Some n \<Rightarrow> n)"
  by (auto simp: resolve_context_window_def Let_def DEFAULT_CONTEXT_WINDOW_def CONTEXT_WINDOW_1M_def
      split: option.splits)

text \<open>The tag filter: a fork runs exactly if it carries no disabled tag and, when a non-empty
  whitelist is set, at least one enabled tag; disabling wins over enabling.\<close>

theorem tags_allowed_iff:
  "tags_allowed tags enable disable \<longleftrightarrow>
     set tags \<inter> set (case disable of None \<Rightarrow> [] | Some ds \<Rightarrow> ds) = {}
     \<and> (if enable = None \<or> enable = Some [] then True else \<exists>t\<in>set tags. t \<in> set (the enable))"
  by (auto simp: tags_allowed_def list_ex_iff split: option.splits)

end
