(* ===== verification/Tables.thy ===== *)
theory Tables
  imports Prelude
begin

text \<open>
  The fragment of SQL the store uses, on tables kept as lists of rows in insertion order, and
  the two contracts its clients rely on: an edge that is taken once until it is released
  (\<open>once\<close>), and a queue that loses and repeats nothing (\<open>conveyor\<close>). Both speak about runs,
  finite sequences of operations of any kind, so they cover every interleaving of the callers.

  SQLite leaves the order of rows that an \<open>ORDER BY\<close> does not separate unspecified; here it is
  the insertion order.
\<close>

named_theorems tbl \<open>rewriting of the table operations\<close>

section \<open>Statements\<close>

definition upd_where :: "('r \<Rightarrow> bool) \<Rightarrow> ('r \<Rightarrow> 'r) \<Rightarrow> 'r list \<Rightarrow> 'r list" where
  "upd_where P f rows = map (\<lambda>r. if P r then f r else r) rows"

definition del_where :: "('r \<Rightarrow> bool) \<Rightarrow> 'r list \<Rightarrow> 'r list" where
  "del_where P rows = filter (\<lambda>r. \<not> P r) rows"

definition count_where :: "('r \<Rightarrow> bool) \<Rightarrow> 'r list \<Rightarrow> int" where
  "count_where P rows = int (length (filter P rows))"

definition insert_or_ignore :: "('r \<Rightarrow> bool) \<Rightarrow> 'r \<Rightarrow> 'r list \<Rightarrow> 'r list \<times> bool" where
  "insert_or_ignore same r rows = (if list_ex same rows then (rows, False) else (rows @ [r], True))"

definition insert_or_replace :: "('r \<Rightarrow> bool) \<Rightarrow> 'r \<Rightarrow> 'r list \<Rightarrow> 'r list" where
  "insert_or_replace same r rows = del_where same rows @ [r]"

definition insert_or_update :: "('r \<Rightarrow> bool) \<Rightarrow> 'r \<Rightarrow> ('r \<Rightarrow> 'r) \<Rightarrow> 'r list \<Rightarrow> 'r list" where
  "insert_or_update same r f rows = (if list_ex same rows then upd_where same f rows else rows @ [r])"

definition order_by_desc :: "('r \<Rightarrow> 'k::linorder) \<Rightarrow> 'r list \<Rightarrow> 'r list" where
  "order_by_desc k rows = rev (sort_key k (rev rows))"

text \<open>\<open>COALESCE(a, b)\<close> on nullable columns.\<close>

definition coalesce :: "'a option \<Rightarrow> 'a option \<Rightarrow> 'a option" where
  "coalesce a b = (case a of None \<Rightarrow> b | Some x \<Rightarrow> Some x)"

section \<open>Lemmas\<close>

lemma set_upd_where [tbl]: "set (upd_where P f rows) = (\<lambda>r. if P r then f r else r) ` set rows"
  by (simp add: upd_where_def)

lemma set_del_where [tbl]: "set (del_where P rows) = {r \<in> set rows. \<not> P r}"
  by (auto simp: del_where_def)

lemma count_where_pos [tbl]: "count_where P rows > 0 \<longleftrightarrow> (\<exists>r\<in>set rows. P r)"
  by (auto simp: count_where_def filter_empty_conv)

lemma find_unique:
  assumes "distinct (map key rows)" "r \<in> set rows" "P r" "\<forall>x. P x \<longrightarrow> key x = key r"
  shows "find P rows = Some r"
proof -
  obtain x where x: "find P rows = Some x"
    using assms(2,3) by (cases "find P rows") (auto simp: find_None_iff)
  then have "x \<in> set rows" "P x" by (auto simp: find_Some_iff)
  with assms have "x = r" by (metis distinct_map inj_on_def)
  with x show ?thesis by simp
qed

lemma key_upd_where [tbl]:
  "(\<And>r. P r \<Longrightarrow> key (f r) = key r) \<Longrightarrow> map key (upd_where P f rows) = map key rows"
  by (simp add: upd_where_def)

lemma find_upd_where [tbl]:
  "(\<And>r. Q r \<Longrightarrow> P (f r) = P r) \<Longrightarrow>
     find P (upd_where Q f rows) = map_option (\<lambda>r. if Q r then f r else r) (find P rows)"
  by (induction rows) (auto simp: upd_where_def)

lemma list_ex_upd_where [tbl]:
  "(\<And>r. Q r \<Longrightarrow> P (f r) = P r) \<Longrightarrow> list_ex P (upd_where Q f rows) = list_ex P rows"
  by (induction rows) (auto simp: upd_where_def)

lemma upd_where_hit: "r \<in> set rows \<Longrightarrow> P r \<Longrightarrow> y = f r \<Longrightarrow> y \<in> set (upd_where P f rows)"
  and upd_where_miss: "r \<in> set rows \<Longrightarrow> \<not> P r \<Longrightarrow> r \<in> set (upd_where P f rows)"
  by (auto simp: set_upd_where)

lemma find_append: "find P (xs @ ys) = (case find P xs of Some x \<Rightarrow> Some x | None \<Rightarrow> find P ys)"
  by (induction xs) auto

lemma find_in_set: "find P rows = Some x \<Longrightarrow> x \<in> set rows \<and> P x"
  by (induction rows) (auto split: if_splits)

lemma find_insert_or_update:
  assumes "\<And>r. same r \<Longrightarrow> P (f r) = P r" "find P rows = Some x"
  shows "find P (insert_or_update same r f rows) = Some (if same x then f x else x)"
proof (cases "list_ex same rows")
  case True
  then show ?thesis using assms by (simp add: insert_or_update_def find_upd_where)
next
  case False
  then have "\<not> same x" using find_in_set[OF assms(2)] by (auto simp: list_ex_iff)
  with False assms(2) show ?thesis by (simp add: insert_or_update_def find_append)
qed

lemma distinct_del_where [tbl]: "distinct (map key rows) \<Longrightarrow> distinct (map key (del_where P rows))"
  by (simp add: del_where_def distinct_map_filter)

lemma distinct_snoc:
  assumes "distinct (map key rows)" "\<not> list_ex same rows" "\<And>r'. same r' \<longleftrightarrow> key r' = key r"
  shows "distinct (map key (rows @ [r]))"
proof -
  have "key r \<notin> key ` set rows" using assms(2,3) by (metis imageE list_ex_iff)
  with assms(1) show ?thesis by simp
qed

lemma distinct_insert_or_ignore:
  assumes "distinct (map key rows)" "\<And>r'. same r' \<longleftrightarrow> key r' = key r"
  shows "distinct (map key (fst (insert_or_ignore same r rows)))"
  using distinct_snoc[OF assms(1) _ assms(2)] assms(1) by (cases "list_ex same rows") (simp_all add: insert_or_ignore_def)

lemma distinct_insert_or_replace:
  assumes "distinct (map key rows)" "\<And>r'. same r' \<longleftrightarrow> key r' = key r"
  shows "distinct (map key (insert_or_replace same r rows))"
proof -
  have "\<not> list_ex same (del_where same rows)" by (simp add: list_ex_iff set_del_where)
  then show ?thesis
    unfolding insert_or_replace_def using distinct_snoc[OF distinct_del_where[OF assms(1)]] assms(2) by blast
qed

lemma distinct_insert_or_update:
  assumes "distinct (map key rows)" "\<And>r'. same r' \<longleftrightarrow> key r' = key r" "\<And>r'. same r' \<Longrightarrow> key (f r') = key r'"
  shows "distinct (map key (insert_or_update same r f rows))"
  using distinct_snoc[OF assms(1) _ assms(2)] assms(1) key_upd_where[of same key f, OF assms(3)]
  by (cases "list_ex same rows") (simp_all add: insert_or_update_def)

section \<open>Runs\<close>

text \<open>How often an event happens along a run, and what the operations of a run yield.\<close>

fun tally :: "('s \<Rightarrow> 'op \<Rightarrow> 's) \<Rightarrow> ('s \<Rightarrow> 'op \<Rightarrow> bool) \<Rightarrow> 's \<Rightarrow> 'op list \<Rightarrow> nat" where
  "tally step e s [] = 0"
| "tally step e s (op # ops) = (if e s op then 1 else 0) + tally step e (step s op) ops"

fun yield_along :: "('s \<Rightarrow> 'op \<Rightarrow> 's) \<Rightarrow> ('s \<Rightarrow> 'op \<Rightarrow> 'x list) \<Rightarrow> 's \<Rightarrow> 'op list \<Rightarrow> 'x list" where
  "yield_along step y s [] = []"
| "yield_along step y s (op # ops) = y s op @ yield_along step y (step s op) ops"

locale once =
  fixes step :: "'s \<Rightarrow> 'op \<Rightarrow> 's"
    and inv :: "'s \<Rightarrow> bool"
    and held :: "'s \<Rightarrow> bool"
    and fires :: "'s \<Rightarrow> 'op \<Rightarrow> bool"
    and releases :: "'s \<Rightarrow> 'op \<Rightarrow> bool"
  assumes inv_step: "inv s \<Longrightarrow> inv (step s op)"
    and fires_free: "inv s \<Longrightarrow> fires s op \<Longrightarrow> \<not> held s"
    and fires_holds: "inv s \<Longrightarrow> fires s op \<Longrightarrow> held (step s op)"
    and keeps: "inv s \<Longrightarrow> held s \<Longrightarrow> \<not> releases s op \<Longrightarrow> held (step s op)"
begin

lemma fires_bound:
  "inv s \<Longrightarrow> tally step fires s ops \<le> (if held s then 0 else 1) + tally step releases s ops"
proof (induction ops arbitrary: s)
  case Nil
  then show ?case by simp
next
  case (Cons op ops)
  show ?case
    using Cons.IH[OF inv_step[OF Cons.prems], of op] fires_free[OF Cons.prems, of op]
      fires_holds[OF Cons.prems, of op] keeps[OF Cons.prems, of op]
    by (auto split: if_splits)
qed

lemma at_most_once:
  "inv s \<Longrightarrow> tally step releases s ops = 0 \<Longrightarrow> tally step fires s ops \<le> 1"
  using fires_bound[of s ops] by (auto split: if_splits)

lemma never_again:
  assumes "inv s" "fires s op" "tally step releases (step s op) ops = 0"
  shows "tally step fires (step s op) ops = 0"
  using fires_bound[OF inv_step[OF assms(1)], of op ops] fires_holds[OF assms(1,2)] assms(3) by simp

lemma holds_on:
  "inv s \<Longrightarrow> held s \<Longrightarrow> tally step releases s ops = 0 \<Longrightarrow> held (foldl step s ops)"
  by (induction ops arbitrary: s) (auto intro: inv_step keeps split: if_splits)

end

locale conveyor =
  fixes step :: "'s \<Rightarrow> 'op \<Rightarrow> 's"
    and inv :: "'s \<Rightarrow> bool"
    and pending :: "'s \<Rightarrow> 'x list"
    and puts :: "'s \<Rightarrow> 'op \<Rightarrow> 'x list"
    and takes :: "'s \<Rightarrow> 'op \<Rightarrow> 'x list"
  assumes inv_step: "inv s \<Longrightarrow> inv (step s op)"
    and conserve: "inv s \<Longrightarrow> pending s @ puts s op = takes s op @ pending (step s op)"
begin

lemma inv_run: "inv s \<Longrightarrow> inv (foldl step s ops)"
  by (induction ops arbitrary: s) (auto intro: inv_step)

lemma conserve_run:
  "inv s \<Longrightarrow> pending s @ yield_along step puts s ops
     = yield_along step takes s ops @ pending (foldl step s ops)"
proof (induction ops arbitrary: s)
  case Nil
  then show ?case by simp
next
  case (Cons op ops)
  have "pending s @ puts s op @ yield_along step puts (step s op) ops
      = takes s op @ pending (step s op) @ yield_along step puts (step s op) ops"
    using conserve[OF Cons.prems, of op] by (metis append.assoc)
  also have "\<dots> = takes s op @ yield_along step takes (step s op) ops @ pending (foldl step s (op # ops))"
    using Cons.IH[OF inv_step[OF Cons.prems]] by simp
  finally show ?case by simp
qed

end

end
