(* ===== verification/Store.thy ===== *)
theory Store
  imports Tables
begin

text \<open>
  \<open>autofork-core/src/store.rs\<close>, the daemon's SQLite state: one record type per table (columns in
  the schema's order, \<open>NULL\<close> as \<open>None\<close>), one definition per method of \<open>Store\<close>, and \<open>store_step\<close>,
  which runs any one of the methods that write. Statements do not fail here; a transaction is one
  step. Columns hold what the code stores in them: counters as \<open>i64\<close>, tag and name lists joined
  by commas.
\<close>

section \<open>Tables\<close>

datatype session_status = Open | Closed

record harness =
  hp_pid :: nat
  hp_start :: "int option"
  hp_bin :: "path option"

record session_rec =
  se_id :: str
  se_project_root :: path
  se_cwd :: path
  se_transcript_path :: "path option"
  se_status :: session_status
  se_last_activity :: i64
  se_transcript_offset :: i64
  se_prompt_tokens :: "i64 option"
  se_model :: "str option"
  se_created_at :: i64
  se_enable_tags :: "str option"
  se_disable_tags :: "str option"
  se_pause_epoch :: i64
  se_pause_started_at :: "i64 option"
  se_context_window :: "i64 option"
  se_active_gate :: "str option"
  se_client :: "str option"
  se_harness_pid :: "i64 option"
  se_harness_start :: "i64 option"
  se_harness_bin :: "path option"
  se_closed_at :: "i64 option"
  se_close_reason :: "str option"
  se_final_flush_at :: "i64 option"

record roster_rec =
  ro_session :: str
  ro_name :: str
  ro_path :: path
  ro_queued_at :: i64
  ro_ran_at :: "i64 option"

record fire_rec =
  fi_session :: str
  fi_name :: str
  fi_label :: str
  fi_at :: i64

record run_rec =
  rn_id :: i64
  rn_session :: str
  rn_name :: str
  rn_label :: str
  rn_state :: str
  rn_started_at :: i64
  rn_finished_at :: "i64 option"
  rn_tags :: "str option"

record spawn_rec =
  sp_session :: str
  sp_tool :: str
  sp_task :: "str option"
  sp_name :: "str option"
  sp_status :: str
  sp_spawned_at :: i64
  sp_terminal_at :: "i64 option"
  sp_epoch :: "i64 option"

record dep_rec =
  pd_session :: str
  pd_name :: str
  pd_path :: path
  pd_label :: str
  pd_overlap :: bool
  pd_preds :: str
  pd_report_preds :: str
  pd_created_at :: i64

record bg_rec =
  bg_session :: str
  bg_tool :: str
  bg_task :: "str option"
  bg_started_at :: i64
  bg_terminal_at :: "i64 option"

record trig_rec =
  tr_session :: str
  tr_kind :: str
  tr_key :: str
  tr_detail :: str
  tr_created_at :: i64

text \<open>\<open>wake_spool\<close> and \<open>report_spool\<close> have the same columns (\<open>hook_name\<close>, \<open>fork_name\<close>).\<close>

record spool_rec =
  sl_id :: i64
  sl_session :: str
  sl_name :: str
  sl_text :: str
  sl_created_at :: i64

record hook_rec =
  hk_session :: str
  hk_name :: str
  hk_last_run_at :: "i64 option"
  hk_last_hash :: "str option"

text \<open>The database: the tables and the next key of each \<open>AUTOINCREMENT\<close> column.\<close>

record store =
  sessions :: "session_rec list"
  fork_roster :: "roster_rec list"
  fork_fires :: "fire_rec list"
  fork_runs :: "run_rec list"
  fork_spawns :: "spawn_rec list"
  pending_deps :: "dep_rec list"
  bg_tasks :: "bg_rec list"
  pending_trigs :: "trig_rec list"
  wake_spool :: "spool_rec list"
  report_spool :: "spool_rec list"
  hook_state :: "hook_rec list"
  next_run :: int
  next_wake :: int
  next_report :: int

definition store_empty :: store where
  "store_empty = \<lparr>sessions = [], fork_roster = [], fork_fires = [], fork_runs = [], fork_spawns = [],
     pending_deps = [], bg_tasks = [], pending_trigs = [], wake_spool = [], report_spool = [],
     hook_state = [], next_run = 1, next_wake = 1, next_report = 1\<rparr>"

definition split_tags :: "str \<Rightarrow> str list" where
  "split_tags s = filter (\<lambda>t. t \<noteq> []) (map trim (split_on (CHR '','') s))"

section \<open>Sessions\<close>

record session_row =
  s_session_id :: str
  s_project_root :: path
  s_cwd :: path
  s_transcript_path :: "path option"
  s_status :: session_status
  s_last_activity :: i64
  s_transcript_offset :: u64
  s_prompt_tokens :: "u64 option"
  s_model :: "str option"
  s_context_window :: "u64 option"
  s_created_at :: i64
  s_enable_tags :: "str list option"
  s_disable_tags :: "str list option"
  s_pause_epoch :: i64
  s_pause_started_at :: "i64 option"
  s_active_gate :: "str option"
  s_harness :: "harness option"
  s_closed_at :: "i64 option"
  s_close_reason :: "str option"
  s_client :: "str option"

definition row_to_session :: "session_rec \<Rightarrow> session_row" where
  "row_to_session r = \<lparr>s_session_id = se_id r, s_project_root = se_project_root r, s_cwd = se_cwd r,
     s_transcript_path = se_transcript_path r, s_status = se_status r,
     s_last_activity = se_last_activity r, s_transcript_offset = as_u64 (se_transcript_offset r),
     s_prompt_tokens = map_option as_u64 (se_prompt_tokens r), s_model = se_model r,
     s_context_window = map_option as_u64 (se_context_window r), s_created_at = se_created_at r,
     s_enable_tags = map_option split_tags (se_enable_tags r),
     s_disable_tags = map_option split_tags (se_disable_tags r),
     s_pause_epoch = se_pause_epoch r, s_pause_started_at = se_pause_started_at r,
     s_active_gate = se_active_gate r,
     s_harness = (case se_harness_pid r of None \<Rightarrow> None
       | Some pid \<Rightarrow> Some \<lparr>hp_pid = nat (pid mod 2 ^ 32), hp_start = se_harness_start r,
                         hp_bin = se_harness_bin r\<rparr>),
     s_closed_at = se_closed_at r, s_close_reason = se_close_reason r, s_client = se_client r\<rparr>"

abbreviation has_id :: "str \<Rightarrow> session_rec \<Rightarrow> bool" where
  "has_id sid r \<equiv> se_id r = sid"

definition session_rec_of :: "store \<Rightarrow> str \<Rightarrow> session_rec option" where
  "session_rec_of s sid = find (has_id sid) (sessions s)"

definition is_open :: "store \<Rightarrow> str \<Rightarrow> bool" where
  "is_open s sid = (case session_rec_of s sid of None \<Rightarrow> False | Some r \<Rightarrow> se_status r = Open)"

definition upd_session :: "str \<Rightarrow> (session_rec \<Rightarrow> session_rec) \<Rightarrow> store \<Rightarrow> store" where
  "upd_session sid f s = s\<lparr>sessions := upd_where (has_id sid) f (sessions s)\<rparr>"

record session_args =
  a_id :: str
  a_project_root :: path
  a_cwd :: path
  a_transcript_path :: "path option"
  a_model :: "str option"
  a_enable_tags :: "str option"
  a_disable_tags :: "str option"
  a_client :: "str option"

definition new_session :: "session_args \<Rightarrow> int \<Rightarrow> session_rec" where
  "new_session a now = \<lparr>se_id = a_id a, se_project_root = a_project_root a, se_cwd = a_cwd a,
     se_transcript_path = a_transcript_path a, se_status = Open, se_last_activity = now,
     se_transcript_offset = 0, se_prompt_tokens = None, se_model = a_model a, se_created_at = now,
     se_enable_tags = a_enable_tags a, se_disable_tags = a_disable_tags a, se_pause_epoch = 0,
     se_pause_started_at = None, se_context_window = None, se_active_gate = None,
     se_client = a_client a, se_harness_pid = None, se_harness_start = None, se_harness_bin = None,
     se_closed_at = None, se_close_reason = None, se_final_flush_at = None\<rparr>"

definition retouch_session :: "session_args \<Rightarrow> int \<Rightarrow> session_rec \<Rightarrow> session_rec" where
  "retouch_session a now r = r\<lparr>se_project_root := a_project_root a,
     se_transcript_path := coalesce (a_transcript_path a) (se_transcript_path r),
     se_model := coalesce (a_model a) (se_model r),
     se_enable_tags := a_enable_tags a, se_disable_tags := a_disable_tags a,
     se_client := coalesce (a_client a) (se_client r),
     se_final_flush_at := (if se_status r = Closed then None else se_final_flush_at r),
     se_status := Open, se_last_activity := now\<rparr>"

definition upsert_session :: "store \<Rightarrow> session_args \<Rightarrow> int \<Rightarrow> store \<times> bool" where
  "upsert_session s a now =
     (let was_open = is_open s (a_id a)
      in (s\<lparr>sessions := insert_or_update (has_id (a_id a)) (new_session a now)
                           (retouch_session a now) (sessions s)\<rparr>, \<not> was_open))"

definition get_session :: "store \<Rightarrow> str \<Rightarrow> session_row option" where
  "get_session s sid = map_option row_to_session (session_rec_of s sid)"

definition bump_pause_epoch :: "store \<Rightarrow> str \<Rightarrow> store" where
  "bump_pause_epoch s sid = upd_session sid (\<lambda>r. r\<lparr>se_pause_epoch := se_pause_epoch r + 1,
     se_pause_started_at := None, se_active_gate := None\<rparr>) s"

definition clear_pause_baseline :: "store \<Rightarrow> str \<Rightarrow> store" where
  "clear_pause_baseline s sid = upd_session sid (\<lambda>r. r\<lparr>se_pause_started_at := None\<rparr>) s"

definition set_active_gate :: "store \<Rightarrow> str \<Rightarrow> str \<Rightarrow> store" where
  "set_active_gate s sid name = upd_session sid (\<lambda>r. r\<lparr>se_active_gate := Some name\<rparr>) s"

definition clear_active_gate :: "store \<Rightarrow> str \<Rightarrow> store" where
  "clear_active_gate s sid = upd_session sid (\<lambda>r. r\<lparr>se_active_gate := None\<rparr>) s"

definition set_pause_started_at_if_unset :: "store \<Rightarrow> str \<Rightarrow> int \<Rightarrow> store" where
  "set_pause_started_at_if_unset s sid now =
     s\<lparr>sessions := upd_where (\<lambda>r. has_id sid r \<and> se_pause_started_at r = None)
                    (\<lambda>r. r\<lparr>se_pause_started_at := Some now\<rparr>) (sessions s)\<rparr>"

definition list_open_sessions :: "store \<Rightarrow> session_row list" where
  "list_open_sessions s = map row_to_session
     (order_by_desc se_last_activity (filter (\<lambda>r. se_status r = Open) (sessions s)))"

definition set_harness :: "store \<Rightarrow> str \<Rightarrow> harness \<Rightarrow> store" where
  "set_harness s sid h = upd_session sid (\<lambda>r. r\<lparr>se_harness_pid := Some (int (hp_pid h)),
     se_harness_start := hp_start h, se_harness_bin := hp_bin h\<rparr>) s"

definition list_recent_closes :: "store \<Rightarrow> nat \<Rightarrow> (str \<times> str \<times> int) list" where
  "list_recent_closes s limit = take limit (map (\<lambda>r. (se_id r, the (se_close_reason r), the (se_closed_at r)))
     (order_by_desc (\<lambda>r. the (se_closed_at r))
        (filter (\<lambda>r. se_status r = Closed \<and> se_closed_at r \<noteq> None \<and> se_close_reason r \<noteq> None)
          (sessions s))))"

definition set_last_activity :: "store \<Rightarrow> str \<Rightarrow> int \<Rightarrow> store" where
  "set_last_activity s sid now = upd_session sid (\<lambda>r. r\<lparr>se_last_activity := now\<rparr>) s"

definition set_prompt_tokens :: "store \<Rightarrow> str \<Rightarrow> nat \<Rightarrow> store" where
  "set_prompt_tokens s sid n = upd_session sid (\<lambda>r. r\<lparr>se_prompt_tokens := Some (as_i64 n)\<rparr>) s"

definition set_context_window :: "store \<Rightarrow> str \<Rightarrow> nat \<Rightarrow> store" where
  "set_context_window s sid n = upd_session sid (\<lambda>r. r\<lparr>se_context_window := Some (as_i64 n)\<rparr>) s"

definition set_transcript_gauge :: "store \<Rightarrow> str \<Rightarrow> nat \<Rightarrow> nat option \<Rightarrow> store" where
  "set_transcript_gauge s sid offset pt = upd_session sid (\<lambda>r. r\<lparr>se_transcript_offset := as_i64 offset,
     se_prompt_tokens := coalesce (map_option as_i64 pt) (se_prompt_tokens r)\<rparr>) s"

definition try_claim_final_flush :: "store \<Rightarrow> str \<Rightarrow> int \<Rightarrow> store \<times> bool" where
  "try_claim_final_flush s sid now =
     (let P = (\<lambda>r. has_id sid r \<and> se_final_flush_at r = None);
          n = count_where P (sessions s)
      in (s\<lparr>sessions := upd_where P (\<lambda>r. r\<lparr>se_final_flush_at := Some now\<rparr>) (sessions s)\<rparr>, n > 0))"

definition close_session :: "store \<Rightarrow> str \<Rightarrow> str \<Rightarrow> int \<Rightarrow> store \<times> bool" where
  "close_session s sid reason now =
     (let P = (\<lambda>r. has_id sid r \<and> se_status r = Open);
          n = count_where P (sessions s)
      in (s\<lparr>sessions := upd_where P (\<lambda>r. r\<lparr>se_status := Closed, se_closed_at := Some now,
                            se_close_reason := Some reason\<rparr>) (sessions s),
            fork_roster := del_where (\<lambda>r. ro_session r = sid) (fork_roster s),
            fork_fires := del_where (\<lambda>r. fi_session r = sid) (fork_fires s),
            fork_spawns := del_where (\<lambda>r. sp_session r = sid) (fork_spawns s),
            pending_deps := del_where (\<lambda>r. pd_session r = sid) (pending_deps s),
            bg_tasks := del_where (\<lambda>r. bg_session r = sid) (bg_tasks s),
            pending_trigs := del_where (\<lambda>r. tr_session r = sid) (pending_trigs s),
            hook_state := del_where (\<lambda>r. hk_session r = sid) (hook_state s),
            wake_spool := del_where (\<lambda>r. sl_session r = sid) (wake_spool s)\<rparr>, n > 0))"

section \<open>External triggers\<close>

definition is_trig :: "str \<Rightarrow> str \<Rightarrow> str \<Rightarrow> trig_rec \<Rightarrow> bool" where
  "is_trig sid kind key r \<longleftrightarrow> tr_session r = sid \<and> tr_kind r = kind \<and> tr_key r = key"

definition merge_detail :: "str option \<Rightarrow> str \<Rightarrow> nat \<Rightarrow> str" where
  "merge_detail existing detail cap = (case existing of
     None \<Rightarrow> detail
   | Some prev \<Rightarrow>
       (let lines = foldl push_new (str_lines prev) (str_lines detail);
            out = join_with [CHR 0x0A] lines
        in if length out > cap then take (boundary_below out cap) out else out))"

definition record_pending_trigger :: "store \<Rightarrow> str \<Rightarrow> str \<Rightarrow> str \<Rightarrow> str \<Rightarrow> nat \<Rightarrow> int \<Rightarrow> store" where
  "record_pending_trigger s sid kind key detail cap now =
     (let existing = map_option tr_detail (find (is_trig sid kind key) (pending_trigs s));
          merged = merge_detail existing detail cap
      in s\<lparr>pending_trigs := insert_or_update (is_trig sid kind key)
             \<lparr>tr_session = sid, tr_kind = kind, tr_key = key, tr_detail = merged, tr_created_at = now\<rparr>
             (\<lambda>r. r\<lparr>tr_detail := merged\<rparr>) (pending_trigs s)\<rparr>)"

definition pending_triggers :: "store \<Rightarrow> str \<Rightarrow> (str \<times> str \<times> str) list" where
  "pending_triggers s sid = map (\<lambda>r. (tr_kind r, tr_key r, tr_detail r))
     (sort_key tr_created_at (filter (\<lambda>r. tr_session r = sid) (pending_trigs s)))"

definition clear_pending_trigger :: "store \<Rightarrow> str \<Rightarrow> str \<Rightarrow> str \<Rightarrow> store \<times> bool" where
  "clear_pending_trigger s sid kind key =
     (s\<lparr>pending_trigs := del_where (is_trig sid kind key) (pending_trigs s)\<rparr>,
      count_where (is_trig sid kind key) (pending_trigs s) > 0)"

section \<open>Spools\<close>

abbreviation spooled_for :: "str \<Rightarrow> spool_rec \<Rightarrow> bool" where
  "spooled_for sid r \<equiv> sl_session r = sid"

definition spool_texts :: "str \<Rightarrow> spool_rec list \<Rightarrow> str list" where
  "spool_texts sid rows = map sl_text (sort_key sl_id (filter (spooled_for sid) rows))"

definition spool_wake_block :: "store \<Rightarrow> str \<Rightarrow> str \<Rightarrow> str \<Rightarrow> int \<Rightarrow> store" where
  "spool_wake_block s sid hook txt now =
     s\<lparr>wake_spool := wake_spool s @ [\<lparr>sl_id = next_wake s, sl_session = sid, sl_name = hook,
          sl_text = txt, sl_created_at = now\<rparr>], next_wake := next_wake s + 1\<rparr>"

definition take_wake_blocks :: "store \<Rightarrow> str \<Rightarrow> store \<times> str list" where
  "take_wake_blocks s sid =
     (s\<lparr>wake_spool := del_where (spooled_for sid) (wake_spool s)\<rparr>, spool_texts sid (wake_spool s))"

definition has_wake_blocks :: "store \<Rightarrow> str \<Rightarrow> bool" where
  "has_wake_blocks s sid \<longleftrightarrow> count_where (spooled_for sid) (wake_spool s) > 0"

definition has_reports :: "store \<Rightarrow> str \<Rightarrow> bool" where
  "has_reports s sid \<longleftrightarrow> count_where (spooled_for sid) (report_spool s) > 0"

definition spool_report :: "store \<Rightarrow> str \<Rightarrow> str \<Rightarrow> str \<Rightarrow> int \<Rightarrow> store" where
  "spool_report s sid name txt now =
     s\<lparr>report_spool := report_spool s @ [\<lparr>sl_id = next_report s, sl_session = sid, sl_name = name,
          sl_text = txt, sl_created_at = now\<rparr>], next_report := next_report s + 1\<rparr>"

definition take_reports :: "store \<Rightarrow> str \<Rightarrow> store \<times> str list" where
  "take_reports s sid =
     (s\<lparr>report_spool := del_where (spooled_for sid) (report_spool s)\<rparr>, spool_texts sid (report_spool s))"

section \<open>Hook state\<close>

definition is_hook :: "str \<Rightarrow> str \<Rightarrow> hook_rec \<Rightarrow> bool" where
  "is_hook sid hook r \<longleftrightarrow> hk_session r = sid \<and> hk_name r = hook"

definition hook_last_run :: "store \<Rightarrow> str \<Rightarrow> str \<Rightarrow> int option" where
  "hook_last_run s sid hook = Option.bind (find (is_hook sid hook) (hook_state s)) hk_last_run_at"

definition stamp_hook_run :: "store \<Rightarrow> str \<Rightarrow> str \<Rightarrow> int \<Rightarrow> store" where
  "stamp_hook_run s sid hook now =
     s\<lparr>hook_state := insert_or_update (is_hook sid hook)
        \<lparr>hk_session = sid, hk_name = hook, hk_last_run_at = Some now, hk_last_hash = None\<rparr>
        (\<lambda>r. r\<lparr>hk_last_run_at := Some now\<rparr>) (hook_state s)\<rparr>"

definition feed_hash_changed :: "store \<Rightarrow> str \<Rightarrow> str \<Rightarrow> str \<Rightarrow> store \<times> bool" where
  "feed_hash_changed s sid hook hash =
     (if Option.bind (find (is_hook sid hook) (hook_state s)) hk_last_hash = Some hash then (s, False)
      else (s\<lparr>hook_state := insert_or_update (is_hook sid hook)
              \<lparr>hk_session = sid, hk_name = hook, hk_last_run_at = None, hk_last_hash = Some hash\<rparr>
              (\<lambda>r. r\<lparr>hk_last_hash := Some hash\<rparr>) (hook_state s)\<rparr>, True))"

section \<open>Roster and latches\<close>

definition is_rostered :: "str \<Rightarrow> str \<Rightarrow> roster_rec \<Rightarrow> bool" where
  "is_rostered sid name r \<longleftrightarrow> ro_session r = sid \<and> ro_name r = name"

definition queue_fork :: "store \<Rightarrow> str \<Rightarrow> str \<Rightarrow> path \<Rightarrow> int \<Rightarrow> store \<times> bool" where
  "queue_fork s sid name p now =
     (let (rows, n) = insert_or_ignore (is_rostered sid name)
            \<lparr>ro_session = sid, ro_name = name, ro_path = p, ro_queued_at = now, ro_ran_at = None\<rparr>
            (fork_roster s)
      in (s\<lparr>fork_roster := rows\<rparr>, n))"

definition roster :: "store \<Rightarrow> str \<Rightarrow> roster_rec list" where
  "roster s sid = sort_key ro_queued_at (sort_key ro_name
     (filter (\<lambda>r. ro_session r = sid) (fork_roster s)))"

definition touch_fork_ran :: "store \<Rightarrow> str \<Rightarrow> str \<Rightarrow> int \<Rightarrow> store" where
  "touch_fork_ran s sid name now =
     s\<lparr>fork_roster := upd_where (is_rostered sid name) (\<lambda>r. r\<lparr>ro_ran_at := Some now\<rparr>) (fork_roster s)\<rparr>"

definition is_fire :: "str \<Rightarrow> str \<Rightarrow> str \<Rightarrow> fire_rec \<Rightarrow> bool" where
  "is_fire sid name lab r \<longleftrightarrow> fi_session r = sid \<and> fi_name r = name \<and> fi_label r = lab"

definition is_latched :: "store \<Rightarrow> str \<Rightarrow> str \<Rightarrow> str \<Rightarrow> bool" where
  "is_latched s sid name lab \<longleftrightarrow> count_where (is_fire sid name lab) (fork_fires s) > 0"

definition try_latch_fire :: "store \<Rightarrow> str \<Rightarrow> str \<Rightarrow> str \<Rightarrow> int \<Rightarrow> store \<times> bool" where
  "try_latch_fire s sid name lab now =
     (let (rows, n) = insert_or_ignore (is_fire sid name lab)
            \<lparr>fi_session = sid, fi_name = name, fi_label = lab, fi_at = now\<rparr> (fork_fires s)
      in (s\<lparr>fork_fires := rows\<rparr>, n))"

definition idle_pause_label :: "int \<Rightarrow> str" where
  "idle_pause_label epoch = ''idle-pause:'' @ show_int epoch"

definition rearm_idle_latch :: "store \<Rightarrow> str \<Rightarrow> str \<Rightarrow> int \<Rightarrow> store \<times> bool" where
  "rearm_idle_latch s sid name epoch =
     (let P = is_fire sid name (idle_pause_label epoch)
      in (s\<lparr>fork_fires := del_where P (fork_fires s)\<rparr>, count_where P (fork_fires s) > 0))"

section \<open>Issued runs\<close>

definition is_run :: "str \<Rightarrow> str \<Rightarrow> run_rec \<Rightarrow> bool" where
  "is_run sid name r \<longleftrightarrow> rn_session r = sid \<and> rn_name r = name"

definition record_issued_run :: "store \<Rightarrow> str \<Rightarrow> str \<Rightarrow> str \<Rightarrow> str option \<Rightarrow> int \<Rightarrow> store \<times> int" where
  "record_issued_run s sid name lab tags now =
     (s\<lparr>fork_runs := fork_runs s @ [\<lparr>rn_id = next_run s, rn_session = sid, rn_name = name,
          rn_label = lab, rn_state = ''issued'', rn_started_at = now, rn_finished_at = Some now,
          rn_tags = tags\<rparr>], next_run := next_run s + 1\<rparr>, next_run s)"

definition max_opt :: "int list \<Rightarrow> int option" where
  "max_opt xs = (if xs = [] then None else Some (foldl max (hd xs) (tl xs)))"

definition last_issued_at :: "store \<Rightarrow> str \<Rightarrow> str \<Rightarrow> int option" where
  "last_issued_at s sid name = max_opt (map rn_started_at (filter (is_run sid name) (fork_runs s)))"

definition last_run_for_tags :: "store \<Rightarrow> path \<Rightarrow> str list \<Rightarrow> int option" where
  "last_run_for_tags s root tags =
     (if tags = [] then None
      else map_option rn_started_at
        (find (\<lambda>r. list_ex (\<lambda>rt. list_ex (\<lambda>t. t = rt) tags) (split_tags (the (rn_tags r))))
          (order_by_desc rn_started_at (filter (\<lambda>r. rn_tags r \<noteq> None
             \<and> (case session_rec_of s (rn_session r) of None \<Rightarrow> False
                 | Some se \<Rightarrow> se_project_root se = root)) (fork_runs s)))))"

definition count_runs_since :: "store \<Rightarrow> str \<Rightarrow> str \<Rightarrow> int \<Rightarrow> int" where
  "count_runs_since s sid name since = count_where (\<lambda>r. is_run sid name r \<and> rn_started_at r \<ge> since) (fork_runs s)"

definition list_runs :: "store \<Rightarrow> str list \<Rightarrow> nat \<Rightarrow> run_rec list" where
  "list_runs s states limit = take limit (order_by_desc rn_started_at (order_by_desc rn_id
     (filter (\<lambda>r. rn_state r \<in> set states) (fork_runs s))))"

section \<open>Fork spawns\<close>

definition match_ids :: "str option \<Rightarrow> str option \<Rightarrow> str \<Rightarrow> str option \<Rightarrow> bool" where
  "match_ids tool task row_tool row_task \<longleftrightarrow>
     (tool \<noteq> None \<and> tool = Some row_tool) \<or> (task \<noteq> None \<and> row_task = task)"

definition is_spawn :: "str \<Rightarrow> str option \<Rightarrow> str option \<Rightarrow> spawn_rec \<Rightarrow> bool" where
  "is_spawn sid tool task r \<longleftrightarrow> sp_session r = sid \<and> match_ids tool task (sp_tool r) (sp_task r)"

definition spawn_key :: "str \<Rightarrow> str \<Rightarrow> spawn_rec \<Rightarrow> bool" where
  "spawn_key sid tool r \<longleftrightarrow> sp_session r = sid \<and> sp_tool r = tool"

definition live_spawn_exists :: "store \<Rightarrow> str \<Rightarrow> str \<Rightarrow> bool" where
  "live_spawn_exists s sid name \<longleftrightarrow> count_where (\<lambda>r. sp_session r = sid \<and> sp_name r = Some name
     \<and> sp_status r = ''spawned'') (fork_spawns s) > 0"

definition live_spawn_newer_than :: "store \<Rightarrow> str \<Rightarrow> str \<Rightarrow> int \<Rightarrow> bool" where
  "live_spawn_newer_than s sid name min_at \<longleftrightarrow> count_where (\<lambda>r. sp_session r = sid \<and> sp_name r = Some name
     \<and> sp_status r = ''spawned'' \<and> sp_spawned_at r \<ge> min_at) (fork_spawns s) > 0"

definition record_spawn :: "store \<Rightarrow> str \<Rightarrow> str \<Rightarrow> str option \<Rightarrow> int \<Rightarrow> store" where
  "record_spawn s sid tool name now =
     s\<lparr>fork_spawns := fst (insert_or_ignore (spawn_key sid tool)
        \<lparr>sp_session = sid, sp_tool = tool, sp_task = None, sp_name = name, sp_status = ''spawned'',
         sp_spawned_at = now, sp_terminal_at = None,
         sp_epoch = map_option se_pause_epoch (session_rec_of s sid)\<rparr> (fork_spawns s))\<rparr>"

definition spawn_is_stale :: "store \<Rightarrow> str \<Rightarrow> str option \<Rightarrow> str option \<Rightarrow> bool" where
  "spawn_is_stale s sid tool task = (case session_rec_of s sid of None \<Rightarrow> False
     | Some se \<Rightarrow> count_where (\<lambda>r. is_spawn sid tool task r \<and> sp_epoch r \<noteq> None
          \<and> sp_epoch r \<noteq> Some (se_pause_epoch se)) (fork_spawns s) > 0)"

definition set_spawn_task_id :: "store \<Rightarrow> str \<Rightarrow> str \<Rightarrow> str \<Rightarrow> store" where
  "set_spawn_task_id s sid tool task =
     s\<lparr>fork_spawns := upd_where (spawn_key sid tool)
        (\<lambda>r. r\<lparr>sp_task := coalesce (sp_task r) (Some task)\<rparr>) (fork_spawns s)\<rparr>"

definition is_fork_run_ref :: "store \<Rightarrow> str \<Rightarrow> bool" where
  "is_fork_run_ref s i \<longleftrightarrow> count_where (\<lambda>r. sp_tool r = i) (fork_spawns s) > 0"

definition is_fork_spawn :: "store \<Rightarrow> str \<Rightarrow> str option \<Rightarrow> str option \<Rightarrow> bool" where
  "is_fork_spawn s sid tool task \<longleftrightarrow> count_where (is_spawn sid tool task) (fork_spawns s) > 0"

definition mark_spawn_terminal ::
    "store \<Rightarrow> str \<Rightarrow> str option \<Rightarrow> str option \<Rightarrow> str \<Rightarrow> int \<Rightarrow> store \<times> bool \<times> bool" where
  "mark_spawn_terminal s sid tool task status now =
     (if \<not> is_fork_spawn s sid tool task then (s, False, False)
      else (let P = (\<lambda>r. is_spawn sid tool task r \<and> sp_status r = ''spawned'');
                n = count_where P (fork_spawns s)
            in (s\<lparr>fork_spawns := upd_where P (\<lambda>r. r\<lparr>sp_status := status, sp_terminal_at := Some now\<rparr>)
                                   (fork_spawns s)\<rparr>, True, n > 0)))"

definition spawn_fork_name :: "store \<Rightarrow> str \<Rightarrow> str option \<Rightarrow> str option \<Rightarrow> str option" where
  "spawn_fork_name s sid tool task = Option.bind (find (is_spawn sid tool task) (fork_spawns s)) sp_name"

definition list_live_spawns :: "store \<Rightarrow> int \<Rightarrow> (str \<times> str \<times> int) list" where
  "list_live_spawns s min_at = map (\<lambda>r. (sp_session r, case sp_name r of Some n \<Rightarrow> n | None \<Rightarrow> sp_tool r, sp_spawned_at r))
     (sort_key sp_spawned_at (filter (\<lambda>r. sp_terminal_at r = None \<and> sp_spawned_at r > min_at) (fork_spawns s)))"

definition fork_completed_since :: "store \<Rightarrow> str \<Rightarrow> str \<Rightarrow> int \<Rightarrow> bool" where
  "fork_completed_since s sid name since \<longleftrightarrow> count_where (\<lambda>r. sp_session r = sid \<and> sp_name r = Some name
     \<and> sp_status r \<in> {''completed'', ''failed'', ''stopped''}
     \<and> (case sp_terminal_at r of None \<Rightarrow> False | Some t \<Rightarrow> t \<ge> since)) (fork_spawns s) > 0"

section \<open>Background tasks\<close>

definition bg_key :: "str \<Rightarrow> str \<Rightarrow> bg_rec \<Rightarrow> bool" where
  "bg_key sid tool r \<longleftrightarrow> bg_session r = sid \<and> bg_tool r = tool"

definition record_bg_task :: "store \<Rightarrow> str \<Rightarrow> str \<Rightarrow> str \<Rightarrow> int \<Rightarrow> store" where
  "record_bg_task s sid tool task now =
     (if is_fork_spawn s sid (Some tool) None then s
      else s\<lparr>bg_tasks := insert_or_update (bg_key sid tool)
        \<lparr>bg_session = sid, bg_tool = tool, bg_task = Some task, bg_started_at = now, bg_terminal_at = None\<rparr>
        (\<lambda>r. r\<lparr>bg_task := coalesce (bg_task r) (Some task)\<rparr>) (bg_tasks s)\<rparr>)"

definition mark_bg_task_terminal :: "store \<Rightarrow> str \<Rightarrow> str option \<Rightarrow> str option \<Rightarrow> int \<Rightarrow> store \<times> bool" where
  "mark_bg_task_terminal s sid tool task now =
     (let P = (\<lambda>r. bg_session r = sid \<and> bg_terminal_at r = None \<and> match_ids tool task (bg_tool r) (bg_task r))
      in (s\<lparr>bg_tasks := upd_where P (\<lambda>r. r\<lparr>bg_terminal_at := Some now\<rparr>) (bg_tasks s)\<rparr>,
          count_where P (bg_tasks s) > 0))"

definition holding_bg :: "str \<Rightarrow> int \<Rightarrow> bg_rec \<Rightarrow> bool" where
  "holding_bg sid not_before r \<longleftrightarrow> bg_session r = sid \<and> bg_terminal_at r = None \<and> bg_started_at r \<ge> not_before"

definition pending_bg_tasks :: "store \<Rightarrow> str \<Rightarrow> int \<Rightarrow> int" where
  "pending_bg_tasks s sid not_before = count_where (holding_bg sid not_before) (bg_tasks s)"

definition pending_bg_task_starts :: "store \<Rightarrow> str \<Rightarrow> int \<Rightarrow> int list" where
  "pending_bg_task_starts s sid not_before =
     map bg_started_at (sort_key bg_started_at (filter (holding_bg sid not_before) (bg_tasks s)))"

section \<open>Held dependents\<close>

record pending_dep =
  d_name :: str
  d_path :: path
  d_label :: str
  d_overlap :: bool
  d_preds :: "str list"
  d_report_preds :: "str list"
  d_created_at :: i64

definition is_dep :: "str \<Rightarrow> str \<Rightarrow> dep_rec \<Rightarrow> bool" where
  "is_dep sid name r \<longleftrightarrow> pd_session r = sid \<and> pd_name r = name"

definition insert_pending_dep :: "store \<Rightarrow> str \<Rightarrow> pending_dep \<Rightarrow> store" where
  "insert_pending_dep s sid d =
     s\<lparr>pending_deps := insert_or_replace (is_dep sid (d_name d))
        \<lparr>pd_session = sid, pd_name = d_name d, pd_path = d_path d, pd_label = d_label d,
         pd_overlap = d_overlap d, pd_preds = join_with '','' (d_preds d),
         pd_report_preds = join_with '','' (d_report_preds d), pd_created_at = d_created_at d\<rparr>
        (pending_deps s)\<rparr>"

definition row_to_dep :: "dep_rec \<Rightarrow> pending_dep" where
  "row_to_dep r = \<lparr>d_name = pd_name r, d_path = pd_path r, d_label = pd_label r,
     d_overlap = pd_overlap r, d_preds = split_tags (pd_preds r),
     d_report_preds = split_tags (pd_report_preds r), d_created_at = pd_created_at r\<rparr>"

definition list_pending_deps :: "store \<Rightarrow> str \<Rightarrow> pending_dep list" where
  "list_pending_deps s sid = map row_to_dep (sort_key pd_created_at (sort_key pd_name
     (filter (\<lambda>r. pd_session r = sid) (pending_deps s))))"

definition delete_pending_dep :: "store \<Rightarrow> str \<Rightarrow> str \<Rightarrow> store" where
  "delete_pending_dep s sid name = s\<lparr>pending_deps := del_where (is_dep sid name) (pending_deps s)\<rparr>"

definition clear_pending_deps :: "store \<Rightarrow> str \<Rightarrow> store \<times> int" where
  "clear_pending_deps s sid =
     (s\<lparr>pending_deps := del_where (\<lambda>r. pd_session r = sid) (pending_deps s)\<rparr>,
      count_where (\<lambda>r. pd_session r = sid) (pending_deps s))"

end
