(* ===== verification/Store_Laws.thy ===== *)
theory Store_Laws
  imports Store
begin

text \<open>
  What the store guarantees to the daemon, over runs: finite sequences of any of its writing
  methods. \<open>store_op\<close> names the methods with their arguments and \<open>store_step\<close> runs one. The
  contracts of \<open>Tables\<close> are interpreted on them: five edges that are taken once until released,
  and two spools.
\<close>

section \<open>Operations as data\<close>

datatype store_op =
    UpsertSession session_args int
  | BumpPauseEpoch str
  | ClearPauseBaseline str
  | SetActiveGate str str
  | ClearActiveGate str
  | SetPauseStarted str int
  | SetHarness str harness
  | SetLastActivity str int
  | SetPromptTokens str nat
  | SetContextWindow str nat
  | SetTranscriptGauge str nat "nat option"
  | TryClaimFinalFlush str int
  | CloseSession str str int
  | RecordPendingTrigger str str str str nat int
  | ClearPendingTrigger str str str
  | SpoolWakeBlock str str str int
  | TakeWakeBlocks str
  | SpoolReport str str str int
  | TakeReports str
  | StampHookRun str str int
  | FeedHashChanged str str str
  | QueueFork str str path int
  | TouchForkRan str str int
  | TryLatchFire str str str int
  | RearmIdleLatch str str int
  | RecordIssuedRun str str str "str option" int
  | RecordSpawn str str "str option" int
  | SetSpawnTaskId str str str
  | MarkSpawnTerminal str "str option" "str option" str int
  | RecordBgTask str str str int
  | MarkBgTaskTerminal str "str option" "str option" int
  | InsertPendingDep str pending_dep
  | DeletePendingDep str str
  | ClearPendingDeps str

primrec store_step :: "store \<Rightarrow> store_op \<Rightarrow> store" where
  "store_step s (UpsertSession a now) = fst (upsert_session s a now)"
| "store_step s (BumpPauseEpoch sid) = bump_pause_epoch s sid"
| "store_step s (ClearPauseBaseline sid) = clear_pause_baseline s sid"
| "store_step s (SetActiveGate sid name) = set_active_gate s sid name"
| "store_step s (ClearActiveGate sid) = clear_active_gate s sid"
| "store_step s (SetPauseStarted sid now) = set_pause_started_at_if_unset s sid now"
| "store_step s (SetHarness sid h) = set_harness s sid h"
| "store_step s (SetLastActivity sid now) = set_last_activity s sid now"
| "store_step s (SetPromptTokens sid n) = set_prompt_tokens s sid n"
| "store_step s (SetContextWindow sid n) = set_context_window s sid n"
| "store_step s (SetTranscriptGauge sid off pt) = set_transcript_gauge s sid off pt"
| "store_step s (TryClaimFinalFlush sid now) = fst (try_claim_final_flush s sid now)"
| "store_step s (CloseSession sid reason now) = fst (close_session s sid reason now)"
| "store_step s (RecordPendingTrigger sid kind key detail cap now) =
     record_pending_trigger s sid kind key detail cap now"
| "store_step s (ClearPendingTrigger sid kind key) = fst (clear_pending_trigger s sid kind key)"
| "store_step s (SpoolWakeBlock sid hook txt now) = spool_wake_block s sid hook txt now"
| "store_step s (TakeWakeBlocks sid) = fst (take_wake_blocks s sid)"
| "store_step s (SpoolReport sid name txt now) = spool_report s sid name txt now"
| "store_step s (TakeReports sid) = fst (take_reports s sid)"
| "store_step s (StampHookRun sid hook now) = stamp_hook_run s sid hook now"
| "store_step s (FeedHashChanged sid hook hash) = fst (feed_hash_changed s sid hook hash)"
| "store_step s (QueueFork sid name p now) = fst (queue_fork s sid name p now)"
| "store_step s (TouchForkRan sid name now) = touch_fork_ran s sid name now"
| "store_step s (TryLatchFire sid name lab now) = fst (try_latch_fire s sid name lab now)"
| "store_step s (RearmIdleLatch sid name epoch) = fst (rearm_idle_latch s sid name epoch)"
| "store_step s (RecordIssuedRun sid name lab tags now) = fst (record_issued_run s sid name lab tags now)"
| "store_step s (RecordSpawn sid tool name now) = record_spawn s sid tool name now"
| "store_step s (SetSpawnTaskId sid tool task) = set_spawn_task_id s sid tool task"
| "store_step s (MarkSpawnTerminal sid tool task status now) =
     fst (mark_spawn_terminal s sid tool task status now)"
| "store_step s (RecordBgTask sid tool task now) = record_bg_task s sid tool task now"
| "store_step s (MarkBgTaskTerminal sid tool task now) = fst (mark_bg_task_terminal s sid tool task now)"
| "store_step s (InsertPendingDep sid d) = insert_pending_dep s sid d"
| "store_step s (DeletePendingDep sid name) = delete_pending_dep s sid name"
| "store_step s (ClearPendingDeps sid) = fst (clear_pending_deps s sid)"

abbreviation store_run :: "store \<Rightarrow> store_op list \<Rightarrow> store" where
  "store_run s ops \<equiv> foldl store_step s ops"

text \<open>Unfolding of all operations, for proofs that go through the operations one by one.\<close>

lemmas session_ops = upsert_session_def bump_pause_epoch_def clear_pause_baseline_def
  set_active_gate_def clear_active_gate_def set_pause_started_at_if_unset_def set_harness_def
  set_last_activity_def set_prompt_tokens_def set_context_window_def set_transcript_gauge_def
  try_claim_final_flush_def upd_session_def

lemmas other_ops = record_pending_trigger_def clear_pending_trigger_def spool_wake_block_def
  take_wake_blocks_def spool_report_def take_reports_def stamp_hook_run_def feed_hash_changed_def
  queue_fork_def touch_fork_ran_def try_latch_fire_def rearm_idle_latch_def record_issued_run_def
  record_spawn_def set_spawn_task_id_def mark_spawn_terminal_def record_bg_task_def
  mark_bg_task_terminal_def insert_pending_dep_def delete_pending_dep_def clear_pending_deps_def

lemmas all_ops = session_ops other_ops close_session_def

section \<open>Which operations touch which table\<close>

text \<open>The tables an operation can change, by constructor; the rest is framed off.\<close>

lemma fires_step:
  "fork_fires (store_step s op) = (case op of
     CloseSession sid _ _ \<Rightarrow> del_where (\<lambda>r. fi_session r = sid) (fork_fires s)
   | TryLatchFire sid name lab now \<Rightarrow> fst (insert_or_ignore (is_fire sid name lab)
        \<lparr>fi_session = sid, fi_name = name, fi_label = lab, fi_at = now\<rparr> (fork_fires s))
   | RearmIdleLatch sid name epoch \<Rightarrow>
        del_where (is_fire sid name (idle_pause_label epoch)) (fork_fires s)
   | _ \<Rightarrow> fork_fires s)"
  by (cases op) (simp_all add: all_ops Let_def split_beta)

lemma roster_step:
  "fork_roster (store_step s op) = (case op of
     CloseSession sid _ _ \<Rightarrow> del_where (\<lambda>r. ro_session r = sid) (fork_roster s)
   | QueueFork sid name p now \<Rightarrow> fst (insert_or_ignore (is_rostered sid name)
        \<lparr>ro_session = sid, ro_name = name, ro_path = p, ro_queued_at = now, ro_ran_at = None\<rparr> (fork_roster s))
   | TouchForkRan sid name now \<Rightarrow>
        upd_where (is_rostered sid name) (\<lambda>r. r\<lparr>ro_ran_at := Some now\<rparr>) (fork_roster s)
   | _ \<Rightarrow> fork_roster s)"
  by (cases op) (simp_all add: all_ops Let_def split_beta)

lemma spawns_step:
  "fork_spawns (store_step s op) = (case op of
     CloseSession sid _ _ \<Rightarrow> del_where (\<lambda>r. sp_session r = sid) (fork_spawns s)
   | RecordSpawn sid tool name now \<Rightarrow> fork_spawns (record_spawn s sid tool name now)
   | SetSpawnTaskId sid tool task \<Rightarrow> fork_spawns (set_spawn_task_id s sid tool task)
   | MarkSpawnTerminal sid tool task status now \<Rightarrow> fork_spawns (fst (mark_spawn_terminal s sid tool task status now))
   | _ \<Rightarrow> fork_spawns s)"
  by (cases op) (simp_all add: session_ops record_pending_trigger_def clear_pending_trigger_def
    spool_wake_block_def take_wake_blocks_def spool_report_def take_reports_def stamp_hook_run_def
    feed_hash_changed_def queue_fork_def touch_fork_ran_def try_latch_fire_def rearm_idle_latch_def
    record_issued_run_def record_bg_task_def mark_bg_task_terminal_def insert_pending_dep_def
    delete_pending_dep_def clear_pending_deps_def close_session_def Let_def split_beta)

lemma reports_step:
  "report_spool (store_step s op) = (case op of
     SpoolReport sid name txt now \<Rightarrow> report_spool (spool_report s sid name txt now)
   | TakeReports sid \<Rightarrow> del_where (spooled_for sid) (report_spool s)
   | _ \<Rightarrow> report_spool s)
   \<and> next_report (store_step s op) = (case op of SpoolReport _ _ _ _ \<Rightarrow> next_report s + 1 | _ \<Rightarrow> next_report s)"
  by (cases op) (simp_all add: all_ops Let_def split_beta)

lemma wakes_step:
  "wake_spool (store_step s op) = (case op of
     SpoolWakeBlock sid hook txt now \<Rightarrow> wake_spool (spool_wake_block s sid hook txt now)
   | TakeWakeBlocks sid \<Rightarrow> del_where (spooled_for sid) (wake_spool s)
   | CloseSession sid _ _ \<Rightarrow> del_where (spooled_for sid) (wake_spool s)
   | _ \<Rightarrow> wake_spool s)
   \<and> next_wake (store_step s op) = (case op of SpoolWakeBlock _ _ _ _ \<Rightarrow> next_wake s + 1 | _ \<Rightarrow> next_wake s)"
  by (cases op) (simp_all add: all_ops Let_def split_beta)

lemma sessions_ids_step:
  "map se_id (sessions (store_step s op)) = (case op of
     UpsertSession a now \<Rightarrow> map se_id (insert_or_update (has_id (a_id a)) (new_session a now)
                           (retouch_session a now) (sessions s))
   | _ \<Rightarrow> map se_id (sessions s))"
  by (cases op) (simp_all add: all_ops Let_def split_beta key_upd_where)

lemma runs_step:
  "fork_runs (store_step s op) = (case op of
     RecordIssuedRun sid name lab tags now \<Rightarrow> fork_runs (fst (record_issued_run s sid name lab tags now))
   | _ \<Rightarrow> fork_runs s)
   \<and> next_run (store_step s op) = (case op of RecordIssuedRun _ _ _ _ _ \<Rightarrow> next_run s + 1 | _ \<Rightarrow> next_run s)"
  by (cases op) (simp_all add: all_ops Let_def split_beta)

lemma deps_step:
  "pending_deps (store_step s op) = (case op of
     CloseSession sid _ _ \<Rightarrow> del_where (\<lambda>r. pd_session r = sid) (pending_deps s)
   | InsertPendingDep sid d \<Rightarrow> pending_deps (insert_pending_dep s sid d)
   | DeletePendingDep sid name \<Rightarrow> del_where (is_dep sid name) (pending_deps s)
   | ClearPendingDeps sid \<Rightarrow> del_where (\<lambda>r. pd_session r = sid) (pending_deps s)
   | _ \<Rightarrow> pending_deps s)"
  by (cases op) (simp_all add: all_ops Let_def split_beta)

lemma bg_step:
  "bg_tasks (store_step s op) = (case op of
     CloseSession sid _ _ \<Rightarrow> del_where (\<lambda>r. bg_session r = sid) (bg_tasks s)
   | RecordBgTask sid tool task now \<Rightarrow> bg_tasks (record_bg_task s sid tool task now)
   | MarkBgTaskTerminal sid tool task now \<Rightarrow> bg_tasks (fst (mark_bg_task_terminal s sid tool task now))
   | _ \<Rightarrow> bg_tasks s)"
  by (cases op) (simp_all add: session_ops close_session_def record_pending_trigger_def clear_pending_trigger_def
    spool_wake_block_def take_wake_blocks_def spool_report_def take_reports_def stamp_hook_run_def
    feed_hash_changed_def queue_fork_def touch_fork_ran_def try_latch_fire_def rearm_idle_latch_def
    record_issued_run_def record_spawn_def set_spawn_task_id_def mark_spawn_terminal_def
    insert_pending_dep_def delete_pending_dep_def clear_pending_deps_def Let_def split_beta)

lemma trigs_step:
  "pending_trigs (store_step s op) = (case op of
     CloseSession sid _ _ \<Rightarrow> del_where (\<lambda>r. tr_session r = sid) (pending_trigs s)
   | RecordPendingTrigger sid kind key detail cap now \<Rightarrow>
       pending_trigs (record_pending_trigger s sid kind key detail cap now)
   | ClearPendingTrigger sid kind key \<Rightarrow> del_where (is_trig sid kind key) (pending_trigs s)
   | _ \<Rightarrow> pending_trigs s)"
  by (cases op) (simp_all add: session_ops close_session_def clear_pending_trigger_def
    spool_wake_block_def take_wake_blocks_def spool_report_def take_reports_def stamp_hook_run_def
    feed_hash_changed_def queue_fork_def touch_fork_ran_def try_latch_fire_def rearm_idle_latch_def
    record_issued_run_def record_spawn_def set_spawn_task_id_def mark_spawn_terminal_def record_bg_task_def
    mark_bg_task_terminal_def insert_pending_dep_def delete_pending_dep_def clear_pending_deps_def Let_def split_beta)

lemma hooks_step:
  "hook_state (store_step s op) = (case op of
     CloseSession sid _ _ \<Rightarrow> del_where (\<lambda>r. hk_session r = sid) (hook_state s)
   | StampHookRun sid hook now \<Rightarrow> hook_state (stamp_hook_run s sid hook now)
   | FeedHashChanged sid hook hash \<Rightarrow> hook_state (fst (feed_hash_changed s sid hook hash))
   | _ \<Rightarrow> hook_state s)"
  by (cases op) (simp_all add: session_ops close_session_def record_pending_trigger_def clear_pending_trigger_def
    spool_wake_block_def take_wake_blocks_def spool_report_def take_reports_def 
    queue_fork_def touch_fork_ran_def try_latch_fire_def rearm_idle_latch_def
    record_issued_run_def record_spawn_def set_spawn_task_id_def mark_spawn_terminal_def record_bg_task_def
    mark_bg_task_terminal_def insert_pending_dep_def delete_pending_dep_def clear_pending_deps_def Let_def split_beta)

section \<open>The invariant\<close>

text \<open>Primary keys are unique, and \<open>AUTOINCREMENT\<close> keys ascend below the next one.\<close>

definition ids_ok :: "int list \<Rightarrow> int \<Rightarrow> bool" where
  "ids_ok ids nxt \<longleftrightarrow> sorted_wrt (<) ids \<and> (\<forall>i\<in>set ids. i < nxt)"

definition store_ok :: "store \<Rightarrow> bool" where
  "store_ok s \<longleftrightarrow> distinct (map se_id (sessions s))
     \<and> distinct (map (\<lambda>r. (ro_session r, ro_name r)) (fork_roster s))
     \<and> distinct (map (\<lambda>r. (fi_session r, fi_name r, fi_label r)) (fork_fires s))
     \<and> distinct (map (\<lambda>r. (sp_session r, sp_tool r)) (fork_spawns s))
     \<and> distinct (map (\<lambda>r. (pd_session r, pd_name r)) (pending_deps s))
     \<and> distinct (map (\<lambda>r. (bg_session r, bg_tool r)) (bg_tasks s))
     \<and> distinct (map (\<lambda>r. (tr_session r, tr_kind r, tr_key r)) (pending_trigs s))
     \<and> distinct (map (\<lambda>r. (hk_session r, hk_name r)) (hook_state s))
     \<and> ids_ok (map rn_id (fork_runs s)) (next_run s)
     \<and> ids_ok (map sl_id (wake_spool s)) (next_wake s)
     \<and> ids_ok (map sl_id (report_spool s)) (next_report s)"

lemma ids_ok_snoc: "ids_ok ids n \<Longrightarrow> ids_ok (ids @ [n]) (n + 1)"
  by (auto simp: ids_ok_def sorted_wrt_append)

lemma ids_ok_filter: "ids_ok (map f rows) n \<Longrightarrow> ids_ok (map f (filter P rows)) n"
  by (induction rows) (auto simp: ids_ok_def)

lemma store_ok_empty: "store_ok store_empty"
  by (simp add: store_ok_def store_empty_def ids_ok_def)

lemma sessions_distinct_step:
  "distinct (map se_id (sessions s)) \<Longrightarrow> distinct (map se_id (sessions (store_step s op)))"
  unfolding sessions_ids_step
  by (cases op) (simp_all add: distinct_insert_or_update new_session_def retouch_session_def)

lemma roster_distinct_step:
  "distinct (map (\<lambda>r. (ro_session r, ro_name r)) (fork_roster s)) \<Longrightarrow>
   distinct (map (\<lambda>r. (ro_session r, ro_name r)) (fork_roster (store_step s op)))"
  unfolding roster_step
  by (cases op) (simp_all add: distinct_insert_or_ignore is_rostered_def tbl)

lemma fires_distinct_step:
  "distinct (map (\<lambda>r. (fi_session r, fi_name r, fi_label r)) (fork_fires s)) \<Longrightarrow>
   distinct (map (\<lambda>r. (fi_session r, fi_name r, fi_label r)) (fork_fires (store_step s op)))"
  unfolding fires_step
  by (cases op) (simp_all add: distinct_insert_or_ignore is_fire_def tbl)

lemma spawns_distinct_step:
  "distinct (map (\<lambda>r. (sp_session r, sp_tool r)) (fork_spawns s)) \<Longrightarrow>
   distinct (map (\<lambda>r. (sp_session r, sp_tool r)) (fork_spawns (store_step s op)))"
  unfolding spawns_step
  by (cases op) (simp_all add: distinct_insert_or_ignore spawn_key_def tbl record_spawn_def
      set_spawn_task_id_def mark_spawn_terminal_def Let_def)

lemma deps_distinct_step:
  "distinct (map (\<lambda>r. (pd_session r, pd_name r)) (pending_deps s)) \<Longrightarrow>
   distinct (map (\<lambda>r. (pd_session r, pd_name r)) (pending_deps (store_step s op)))"
  unfolding deps_step
  by (cases op) (simp_all add: distinct_insert_or_replace is_dep_def tbl insert_pending_dep_def)

lemma bg_distinct_step:
  "distinct (map (\<lambda>r. (bg_session r, bg_tool r)) (bg_tasks s)) \<Longrightarrow>
   distinct (map (\<lambda>r. (bg_session r, bg_tool r)) (bg_tasks (store_step s op)))"
  unfolding bg_step
  by (cases op) (simp_all add: distinct_insert_or_update bg_key_def tbl record_bg_task_def
      mark_bg_task_terminal_def Let_def)

lemma trigs_distinct_step:
  "distinct (map (\<lambda>r. (tr_session r, tr_kind r, tr_key r)) (pending_trigs s)) \<Longrightarrow>
   distinct (map (\<lambda>r. (tr_session r, tr_kind r, tr_key r)) (pending_trigs (store_step s op)))"
  unfolding trigs_step
  by (cases op) (simp_all add: distinct_insert_or_update is_trig_def tbl record_pending_trigger_def Let_def)

lemma hooks_distinct_step:
  "distinct (map (\<lambda>r. (hk_session r, hk_name r)) (hook_state s)) \<Longrightarrow>
   distinct (map (\<lambda>r. (hk_session r, hk_name r)) (hook_state (store_step s op)))"
  unfolding hooks_step
  by (cases op) (simp_all add: distinct_insert_or_update is_hook_def tbl stamp_hook_run_def feed_hash_changed_def)

lemma ids_ok_step:
  "ids_ok (map rn_id (fork_runs s)) (next_run s) \<Longrightarrow>
     ids_ok (map rn_id (fork_runs (store_step s op))) (next_run (store_step s op))"
  "ids_ok (map sl_id (wake_spool s)) (next_wake s) \<Longrightarrow>
     ids_ok (map sl_id (wake_spool (store_step s op))) (next_wake (store_step s op))"
  "ids_ok (map sl_id (report_spool s)) (next_report s) \<Longrightarrow>
     ids_ok (map sl_id (report_spool (store_step s op))) (next_report (store_step s op))"
  subgoal using runs_step[of s op] by (cases op) (simp_all add: record_issued_run_def ids_ok_snoc)
  subgoal using wakes_step[of s op] by (cases op) (simp_all add: spool_wake_block_def ids_ok_snoc del_where_def ids_ok_filter)
  subgoal using reports_step[of s op] by (cases op) (simp_all add: spool_report_def ids_ok_snoc del_where_def ids_ok_filter)
  done

lemma store_ok_step: "store_ok s \<Longrightarrow> store_ok (store_step s op)"
  unfolding store_ok_def
  by (intro conjI; elim conjE; intro sessions_distinct_step roster_distinct_step fires_distinct_step
      spawns_distinct_step deps_distinct_step bg_distinct_step trigs_distinct_step hooks_distinct_step
      ids_ok_step; assumption)

lemma store_ok_run: "store_ok s \<Longrightarrow> store_ok (store_run s ops)"
  by (induction ops arbitrary: s) (auto intro: store_ok_step)

section \<open>Edges taken once\<close>

text \<open>The once-per-session trigger latch: won by the \<open>try_latch_fire\<close> that inserts the row, released
  by a close of the session or by the re-arming of that very label.\<close>

definition latch_won :: "str \<Rightarrow> str \<Rightarrow> str \<Rightarrow> store \<Rightarrow> store_op \<Rightarrow> bool" where
  "latch_won sid name lab s op = (case op of
     TryLatchFire a b c now \<Rightarrow> a = sid \<and> b = name \<and> c = lab \<and> snd (try_latch_fire s a b c now)
   | _ \<Rightarrow> False)"

definition latch_released :: "str \<Rightarrow> str \<Rightarrow> str \<Rightarrow> store \<Rightarrow> store_op \<Rightarrow> bool" where
  "latch_released sid name lab s op = (case op of
     CloseSession a _ _ \<Rightarrow> a = sid
   | RearmIdleLatch a b e \<Rightarrow> a = sid \<and> b = name \<and> idle_pause_label e = lab
   | _ \<Rightarrow> False)"

lemma is_latched_iff: "is_latched s sid name lab \<longleftrightarrow> (\<exists>r\<in>set (fork_fires s). is_fire sid name lab r)"
  by (simp add: is_latched_def count_where_pos)

lemma try_latch_fire_won: "snd (try_latch_fire s sid name lab now) \<longleftrightarrow> \<not> is_latched s sid name lab"
  by (auto simp: try_latch_fire_def insert_or_ignore_def is_latched_iff list_ex_iff)

lemma try_latch_fire_holds:
  "is_latched (fst (try_latch_fire s sid name lab now)) a b c
     \<longleftrightarrow> is_latched s a b c \<or> (a = sid \<and> b = name \<and> c = lab)"
  by (auto simp: try_latch_fire_def insert_or_ignore_def is_latched_iff list_ex_iff is_fire_def)

lemma latch_keeps:
  "is_latched s sid name lab \<Longrightarrow> \<not> latch_released sid name lab s op \<Longrightarrow> is_latched (store_step s op) sid name lab"
  unfolding is_latched_iff fires_step latch_released_def
  by (cases op) (auto simp: insert_or_ignore_def is_fire_def tbl)

interpretation latch: once store_step "\<lambda>_. True" "\<lambda>s. is_latched s sid name lab"
    "latch_won sid name lab" "latch_released sid name lab" for sid name lab
proof
  fix s op
  show "latch_won sid name lab s op \<Longrightarrow> \<not> is_latched s sid name lab"
    by (cases op) (simp_all add: latch_won_def try_latch_fire_won)
  show "latch_won sid name lab s op \<Longrightarrow> is_latched (store_step s op) sid name lab"
    by (cases op) (simp_all add: latch_won_def try_latch_fire_holds)
qed (auto intro: latch_keeps)

text \<open>The roster: queued by the \<open>queue_fork\<close> that inserts the row, released by a close.\<close>

definition is_queued :: "store \<Rightarrow> str \<Rightarrow> str \<Rightarrow> bool" where
  "is_queued s sid name \<longleftrightarrow> list_ex (is_rostered sid name) (fork_roster s)"

lemma is_rostered_ran [simp]: "is_rostered sid name (r\<lparr>ro_ran_at := x\<rparr>) = is_rostered sid name r"
  by (simp add: is_rostered_def)

definition queue_won :: "str \<Rightarrow> str \<Rightarrow> store \<Rightarrow> store_op \<Rightarrow> bool" where
  "queue_won sid name s op = (case op of
     QueueFork a b p now \<Rightarrow> a = sid \<and> b = name \<and> snd (queue_fork s a b p now) | _ \<Rightarrow> False)"

definition closes :: "str \<Rightarrow> store \<Rightarrow> store_op \<Rightarrow> bool" where
  "closes sid s op = (case op of CloseSession a _ _ \<Rightarrow> a = sid | _ \<Rightarrow> False)"

interpretation queue: once store_step "\<lambda>_. True" "\<lambda>s. is_queued s sid name"
    "queue_won sid name" "closes sid" for sid name
proof
  fix s op
  show "queue_won sid name s op \<Longrightarrow> \<not> is_queued s sid name"
    by (cases op) (auto simp: queue_won_def queue_fork_def is_queued_def insert_or_ignore_def split: if_splits)
  show "queue_won sid name s op \<Longrightarrow> is_queued (store_step s op) sid name"
    by (cases op) (auto simp: queue_won_def queue_fork_def is_queued_def insert_or_ignore_def is_rostered_def
        split: if_splits)
  show "is_queued s sid name \<Longrightarrow> \<not> closes sid s op \<Longrightarrow> is_queued (store_step s op) sid name"
    unfolding is_queued_def roster_step closes_def
    by (cases op) (simp_all add: list_ex_upd_where, auto simp: insert_or_ignore_def is_rostered_def del_where_def list_ex_iff)
qed simp

text \<open>A session row after one operation, as far as the lifecycle columns go.\<close>

definition opens :: "str \<Rightarrow> store \<Rightarrow> store_op \<Rightarrow> bool" where
  "opens sid s op = (case op of UpsertSession a now \<Rightarrow> a_id a = sid \<and> snd (upsert_session s a now) | _ \<Rightarrow> False)"

definition ends :: "str \<Rightarrow> store \<Rightarrow> store_op \<Rightarrow> bool" where
  "ends sid s op = (case op of CloseSession a reason now \<Rightarrow> a = sid \<and> snd (close_session s a reason now) | _ \<Rightarrow> False)"

definition flush_won :: "str \<Rightarrow> store \<Rightarrow> store_op \<Rightarrow> bool" where
  "flush_won sid s op = (case op of
     TryClaimFinalFlush a now \<Rightarrow> a = sid \<and> snd (try_claim_final_flush s a now) | _ \<Rightarrow> False)"

definition bumps :: "str \<Rightarrow> store \<Rightarrow> store_op \<Rightarrow> bool" where
  "bumps sid s op = (case op of BumpPauseEpoch a \<Rightarrow> a = sid | _ \<Rightarrow> False)"

lemma session_rec_of_id: "session_rec_of s sid = Some r \<Longrightarrow> se_id r = sid \<and> r \<in> set (sessions s)"
  unfolding session_rec_of_def by (auto dest: find_in_set)

lemma session_rec_ofI:
  "distinct (map se_id (sessions s)) \<Longrightarrow> r \<in> set (sessions s) \<Longrightarrow> se_id r = sid \<Longrightarrow> session_rec_of s sid = Some r"
  unfolding session_rec_of_def by (rule find_unique[where key = se_id]) auto

lemma session_rec_of_None: "session_rec_of s sid = None \<longleftrightarrow> sid \<notin> set (map se_id (sessions s))"
  by (auto simp: session_rec_of_def find_None_iff)

lemmas session_cols = retouch_session_def new_session_def

lemma session_step_Some:
  assumes ok: "store_ok s" and r: "session_rec_of s sid = Some r"
  shows "\<exists>r'. session_rec_of (store_step s op) sid = Some r'
     \<and> se_cwd r' = se_cwd r \<and> se_created_at r' = se_created_at r
     \<and> se_pause_epoch r' = se_pause_epoch r + (if bumps sid s op then 1 else 0)
     \<and> (se_status r' = Open \<longleftrightarrow> (if opens sid s op then True else if ends sid s op then False else se_status r = Open))
     \<and> (se_final_flush_at r' = None \<longleftrightarrow> (if opens sid s op then True else if flush_won sid s op then False
          else se_final_flush_at r = None))"
proof -
  have f: "find (\<lambda>r. se_id r = sid) (sessions s) = Some r" and i: "se_id r = sid" "r \<in> set (sessions s)"
    using r session_rec_of_id[OF r] by (simp_all add: session_rec_of_def)
  have d: "distinct (map se_id (sessions s))" using ok by (simp add: store_ok_def)
  have u: "x \<in> set (sessions s) \<and> se_id x = sid \<longleftrightarrow> x = r" for x
    using d i by (auto simp: distinct_map dest: inj_onD)
  have c: "count_where (\<lambda>x. se_id x = sid \<and> Q x) (sessions s) > 0 \<longleftrightarrow> Q r" for Q
    unfolding count_where_pos Bex_def conj_assoc[symmetric] by (simp add: u)
  note simps = session_rec_of_def Let_def bumps_def opens_def ends_def flush_won_def
  show ?thesis
  proof (cases op)
    case (UpsertSession a now)
    show ?thesis
    proof (cases "a_id a = sid")
      case True
      then show ?thesis using f i unfolding UpsertSession
        by (cases "se_status r")
          (simp_all add: simps upsert_session_def find_insert_or_update[OF _ f] retouch_session_def is_open_def)
    next
      case False
      then show ?thesis using f i unfolding UpsertSession
        by (simp add: simps upsert_session_def find_insert_or_update[OF _ f] retouch_session_def)
    qed
  next
    case (TryClaimFinalFlush a now)
    then show ?thesis using f i c[of "\<lambda>x. se_final_flush_at x = None"]
      by (cases "a = sid") (auto simp: simps try_claim_final_flush_def find_upd_where)
  next
    case (CloseSession a reason now)
    then show ?thesis using f i c[of "\<lambda>x. se_status x = Open"]
      by (cases "a = sid") (auto simp: simps close_session_def find_upd_where)
  qed (simp_all add: f i simps bump_pause_epoch_def clear_pause_baseline_def set_active_gate_def
      clear_active_gate_def set_pause_started_at_if_unset_def set_harness_def set_last_activity_def
      set_prompt_tokens_def set_context_window_def set_transcript_gauge_def upd_session_def other_ops
      find_upd_where split_beta)
qed

lemma session_step_None:
  assumes n: "session_rec_of s sid = None"
  shows "\<not> ends sid s op \<and> \<not> flush_won sid s op
     \<and> (case session_rec_of (store_step s op) sid of None \<Rightarrow> \<not> opens sid s op
        | Some r \<Rightarrow> opens sid s op \<and> se_status r = Open \<and> se_final_flush_at r = None \<and> se_pause_epoch r = 0)"
proof -
  have f: "find (\<lambda>r. se_id r = sid) (sessions s) = None" using n by (simp add: session_rec_of_def)
  have c: "\<not> count_where (\<lambda>x. se_id x = sid \<and> Q x) (sessions s) > 0" for Q
    using f by (auto simp: count_where_pos find_None_iff)
  note simps = session_rec_of_def Let_def bumps_def opens_def ends_def flush_won_def
  show ?thesis
  proof (cases op)
    case (UpsertSession a now)
    have none: "\<not> list_ex (has_id sid) (sessions s)" using f by (auto simp: find_None_iff list_ex_iff)
    show ?thesis
    proof (cases "a_id a = sid")
      case True
      then show ?thesis using f none unfolding UpsertSession
        by (simp add: simps upsert_session_def insert_or_update_def find_append new_session_def is_open_def)
    next
      case False
      then show ?thesis using f none unfolding UpsertSession
        by (simp add: simps upsert_session_def insert_or_update_def find_append find_upd_where new_session_def
            retouch_session_def)
    qed
  next
    case (TryClaimFinalFlush a now)
    then show ?thesis using f c[of "\<lambda>x. se_final_flush_at x = None"]
      by (cases "a = sid") (auto simp: simps try_claim_final_flush_def find_upd_where)
  next
    case (CloseSession a reason now)
    then show ?thesis using f c[of "\<lambda>x. se_status x = Open"]
      by (cases "a = sid") (auto simp: simps close_session_def find_upd_where)
  qed (simp_all add: f simps bump_pause_epoch_def clear_pause_baseline_def set_active_gate_def
      clear_active_gate_def set_pause_started_at_if_unset_def set_harness_def set_last_activity_def
      set_prompt_tokens_def set_context_window_def set_transcript_gauge_def upd_session_def other_ops
      find_upd_where split_beta)
qed

definition flush_claimed :: "store \<Rightarrow> str \<Rightarrow> bool" where
  "flush_claimed s sid = (case session_rec_of s sid of None \<Rightarrow> True | Some r \<Rightarrow> se_final_flush_at r \<noteq> None)"

lemma opens_iff: "opens sid s op \<longleftrightarrow> (\<exists>a now. op = UpsertSession a now \<and> a_id a = sid) \<and> \<not> is_open s sid"
  by (cases op) (auto simp: opens_def upsert_session_def)

lemma edges_free:
  assumes "store_ok s"
  shows "ends sid s op \<Longrightarrow> is_open s sid" "flush_won sid s op \<Longrightarrow> \<not> flush_claimed s sid"
proof -
  show "is_open s sid" if e: "ends sid s op"
  proof -
    obtain reason now where o: "op = CloseSession sid reason now" using e by (cases op) (auto simp: ends_def)
    with e obtain r where "r \<in> set (sessions s)" "se_id r = sid" "se_status r = Open"
      by (auto simp: ends_def close_session_def Let_def count_where_pos)
    then show ?thesis using session_rec_ofI[of s r sid] assms by (auto simp: is_open_def store_ok_def)
  qed
  show "\<not> flush_claimed s sid" if e: "flush_won sid s op"
  proof -
    obtain now where o: "op = TryClaimFinalFlush sid now" using e by (cases op) (auto simp: flush_won_def)
    with e obtain r where "r \<in> set (sessions s)" "se_id r = sid" "se_final_flush_at r = None"
      by (auto simp: flush_won_def try_claim_final_flush_def Let_def count_where_pos)
    then show ?thesis using session_rec_ofI[of s r sid] assms by (auto simp: flush_claimed_def store_ok_def)
  qed
qed

lemma ops_exclusive: "opens sid s op \<Longrightarrow> \<not> ends sid s op \<and> \<not> flush_won sid s op"
  "flush_won sid s op \<Longrightarrow> \<not> ends sid s op"
  by (cases op; simp add: opens_def ends_def flush_won_def)+

lemma is_open_step:
  assumes "store_ok s"
  shows "is_open (store_step s op) sid \<longleftrightarrow> opens sid s op \<or> (is_open s sid \<and> \<not> ends sid s op)"
proof (cases "session_rec_of s sid")
  case None
  then show ?thesis using session_step_None[OF None, of op]
    by (auto simp: is_open_def split: option.splits)
next
  case (Some r)
  from session_step_Some[OF assms Some, of op] Some show ?thesis
    by (auto simp: is_open_def ops_exclusive split: if_splits)
qed

lemma flush_claimed_step:
  assumes "store_ok s"
  shows "flush_claimed (store_step s op) sid \<longleftrightarrow> \<not> opens sid s op \<and> (flush_claimed s sid \<or> flush_won sid s op)"
proof (cases "session_rec_of s sid")
  case None
  then show ?thesis using session_step_None[OF None, of op]
    by (auto simp: flush_claimed_def split: option.splits)
next
  case (Some r)
  from session_step_Some[OF assms Some, of op] Some show ?thesis
    by (auto simp: flush_claimed_def ops_exclusive split: if_splits)
qed

interpretation ending: once store_step store_ok "\<lambda>s. \<not> is_open s sid" "ends sid" "opens sid" for sid
  by unfold_locales (auto simp: is_open_step store_ok_step ops_exclusive dest: edges_free ops_exclusive)

interpretation starting: once store_step store_ok "\<lambda>s. is_open s sid" "opens sid" "ends sid" for sid
  by unfold_locales (auto simp: is_open_step store_ok_step opens_iff)

interpretation flush: once store_step store_ok "\<lambda>s. flush_claimed s sid" "flush_won sid" "opens sid" for sid
  by unfold_locales (auto simp: flush_claimed_step store_ok_step dest: edges_free ops_exclusive)

section \<open>Spools\<close>

lemma spool_texts_sorted: "ids_ok (map sl_id rows) n \<Longrightarrow> spool_texts sid rows = map sl_text (filter (spooled_for sid) rows)"
proof -
  assume "ids_ok (map sl_id rows) n"
  then have "ids_ok (map sl_id (filter (spooled_for sid) rows)) n" by (rule ids_ok_filter)
  then have "sorted (map sl_id (filter (spooled_for sid) rows))"
    by (simp add: ids_ok_def strict_sorted_iff)
  then show ?thesis unfolding spool_texts_def by (simp add: sort_key_id_if_sorted)
qed

definition report_put :: "str \<Rightarrow> store \<Rightarrow> store_op \<Rightarrow> str list" where
  "report_put sid s op = (case op of SpoolReport a name txt now \<Rightarrow> if a = sid then [txt] else [] | _ \<Rightarrow> [])"

definition report_taken :: "str \<Rightarrow> store \<Rightarrow> store_op \<Rightarrow> str list" where
  "report_taken sid s op = (case op of TakeReports a \<Rightarrow> if a = sid then snd (take_reports s a) else [] | _ \<Rightarrow> [])"

definition wake_put :: "str \<Rightarrow> store \<Rightarrow> store_op \<Rightarrow> str list" where
  "wake_put sid s op = (case op of SpoolWakeBlock a hook txt now \<Rightarrow> if a = sid then [txt] else [] | _ \<Rightarrow> [])"

text \<open>A wake block leaves the spool by being taken or with the close of its session.\<close>

definition wake_gone :: "str \<Rightarrow> store \<Rightarrow> store_op \<Rightarrow> str list" where
  "wake_gone sid s op = (case op of
     TakeWakeBlocks a \<Rightarrow> if a = sid then snd (take_wake_blocks s a) else []
   | CloseSession a _ _ \<Rightarrow> if a = sid then spool_texts a (wake_spool s) else []
   | _ \<Rightarrow> [])"

lemma spool_del:
  "filter (spooled_for sid) (del_where (spooled_for a) rows) = (if a = sid then [] else filter (spooled_for sid) rows)"
  by (auto simp: del_where_def filter_empty_conv intro: filter_cong)

interpretation reports: conveyor store_step store_ok "\<lambda>s. spool_texts sid (report_spool s)"
    "report_put sid" "report_taken sid" for sid
proof
  fix s op
  assume ok: "store_ok s"
  have o: "ids_ok (map sl_id (report_spool s)) (next_report s)"
    "ids_ok (map sl_id (report_spool (store_step s op))) (next_report (store_step s op))"
    using ok store_ok_step[OF ok, of op] by (simp_all add: store_ok_def)
  show "spool_texts sid (report_spool s) @ report_put sid s op
      = report_taken sid s op @ spool_texts sid (report_spool (store_step s op))"
    unfolding spool_texts_sorted[OF o(1)] spool_texts_sorted[OF o(2)] unfolding conjunct1[OF reports_step]
    by (cases op) (auto simp: report_put_def report_taken_def spool_report_def take_reports_def
        spool_texts_sorted[OF o(1)] spool_del)
qed (rule store_ok_step)

interpretation wakes: conveyor store_step store_ok "\<lambda>s. spool_texts sid (wake_spool s)"
    "wake_put sid" "wake_gone sid" for sid
proof
  fix s op
  assume ok: "store_ok s"
  have o: "ids_ok (map sl_id (wake_spool s)) (next_wake s)"
    "ids_ok (map sl_id (wake_spool (store_step s op))) (next_wake (store_step s op))"
    using ok store_ok_step[OF ok, of op] by (simp_all add: store_ok_def)
  show "spool_texts sid (wake_spool s) @ wake_put sid s op
      = wake_gone sid s op @ spool_texts sid (wake_spool (store_step s op))"
    unfolding spool_texts_sorted[OF o(1)] spool_texts_sorted[OF o(2)] unfolding conjunct1[OF wakes_step]
    by (cases op) (auto simp: wake_put_def wake_gone_def spool_wake_block_def take_wake_blocks_def
        spool_texts_sorted[OF o(1)] spool_del)
qed (rule store_ok_step)

section \<open>Spawns\<close>

definition settled :: "store \<Rightarrow> str \<Rightarrow> str \<Rightarrow> bool" where
  "settled s sid tool \<longleftrightarrow> (\<exists>r\<in>set (fork_spawns s). spawn_key sid tool r \<and> sp_status r \<noteq> ''spawned'')"

definition settles :: "str \<Rightarrow> str \<Rightarrow> store \<Rightarrow> store_op \<Rightarrow> bool" where
  "settles sid tool s op = (case op of
     MarkSpawnTerminal a t k status now \<Rightarrow> a = sid \<and> t = Some tool \<and> k = None \<and> status \<noteq> ''spawned''
       \<and> snd (snd (mark_spawn_terminal s a t k status now))
   | _ \<Rightarrow> False)"

lemma is_spawn_tool: "is_spawn sid (Some tool) None = spawn_key sid tool"
  by (auto simp: fun_eq_iff is_spawn_def spawn_key_def match_ids_def)

lemma spawn_unique:
  assumes "store_ok s" "r \<in> set (fork_spawns s)" "r' \<in> set (fork_spawns s)"
    "spawn_key sid tool r" "spawn_key sid tool r'"
  shows "r' = r"
proof -
  have "inj_on (\<lambda>r. (sp_session r, sp_tool r)) (set (fork_spawns s))"
    using assms(1) by (simp add: store_ok_def distinct_map)
  then show ?thesis using assms(2-) by (auto simp: spawn_key_def dest: inj_onD)
qed

lemma spawn_row_step:
  assumes "r \<in> set (fork_spawns s)" "\<not> closes (sp_session r) s op"
  shows "\<exists>r'\<in>set (fork_spawns (store_step s op)).
     sp_session r' = sp_session r \<and> sp_tool r' = sp_tool r \<and> sp_name r' = sp_name r
     \<and> sp_epoch r' = sp_epoch r \<and> sp_spawned_at r' = sp_spawned_at r
     \<and> (sp_status r \<noteq> ''spawned'' \<longrightarrow> sp_status r' = sp_status r \<and> sp_terminal_at r' = sp_terminal_at r)"
proof -
  have "r \<in> set (fork_spawns (store_step s op)) \<or> (\<exists>a t k. op = SetSpawnTaskId a t k)
      \<or> (\<exists>a t k st now. op = MarkSpawnTerminal a t k st now)"
    using assms unfolding spawns_step
    by (cases op) (simp_all add: record_spawn_def insert_or_ignore_def closes_def set_del_where)
  then consider (same) "r \<in> set (fork_spawns (store_step s op))"
    | (SetSpawnTaskId) a t k where "op = SetSpawnTaskId a t k"
    | (MarkSpawnTerminal) a t k st now where "op = MarkSpawnTerminal a t k st now" by blast
  then show ?thesis
  proof cases
  case same
  then show ?thesis by (rule rev_bexI) simp
next
  case (SetSpawnTaskId a t k)
  let ?r = "if spawn_key a t r then r\<lparr>sp_task := coalesce (sp_task r) (Some k)\<rparr> else r"
  have "?r \<in> set (fork_spawns (store_step s op))"
    unfolding SetSpawnTaskId
    by (auto simp: set_spawn_task_id_def intro: upd_where_hit[OF assms(1)] upd_where_miss[OF assms(1)])
  then show ?thesis by (rule rev_bexI) simp
next
  case (MarkSpawnTerminal a t k st now)
  let ?r = "if is_spawn a t k r \<and> sp_status r = ''spawned'' then r\<lparr>sp_status := st, sp_terminal_at := Some now\<rparr> else r"
  have "?r \<in> set (fork_spawns (store_step s op))"
  proof (cases "is_fork_spawn s a t k")
    case True
    then show ?thesis unfolding MarkSpawnTerminal
      by (auto simp: mark_spawn_terminal_def Let_def intro: upd_where_hit[OF assms(1)] upd_where_miss[OF assms(1)])
  next
    case False
    then have "\<not> is_spawn a t k r" using assms(1) by (auto simp: is_fork_spawn_def count_where_pos)
    with False assms(1) show ?thesis unfolding MarkSpawnTerminal by (simp add: mark_spawn_terminal_def)
  qed
  then show ?thesis by (rule rev_bexI) simp
qed
qed

lemma spawn_row_run:
  assumes "r \<in> set (fork_spawns s)" "tally store_step (closes (sp_session r)) s ops = 0"
  shows "\<exists>r'\<in>set (fork_spawns (store_run s ops)).
     sp_session r' = sp_session r \<and> sp_tool r' = sp_tool r \<and> sp_name r' = sp_name r
     \<and> sp_epoch r' = sp_epoch r \<and> sp_spawned_at r' = sp_spawned_at r
     \<and> (sp_status r \<noteq> ''spawned'' \<longrightarrow> sp_status r' = sp_status r \<and> sp_terminal_at r' = sp_terminal_at r)"
  using assms
proof (induction ops arbitrary: s r)
  case Nil
  then show ?case by auto
next
  case (Cons op ops)
  from Cons.prems(2) have "\<not> closes (sp_session r) s op" by (auto split: if_splits)
  from spawn_row_step[OF Cons.prems(1) this] obtain r' where r': "r' \<in> set (fork_spawns (store_step s op))"
     "sp_session r' = sp_session r" "sp_tool r' = sp_tool r" "sp_name r' = sp_name r"
     "sp_epoch r' = sp_epoch r" "sp_spawned_at r' = sp_spawned_at r"
     "sp_status r \<noteq> ''spawned'' \<Longrightarrow> sp_status r' = sp_status r \<and> sp_terminal_at r' = sp_terminal_at r"
    by blast
  have "tally store_step (closes (sp_session r')) (store_step s op) ops = 0"
    using Cons.prems(2) r'(2) by simp
  from Cons.IH[OF r'(1) this] r' show ?case by auto
qed

lemma settlesD:
  assumes "settles sid tool s op"
  shows "\<exists>st now. op = MarkSpawnTerminal sid (Some tool) None st now \<and> st \<noteq> ''spawned''
     \<and> is_fork_spawn s sid (Some tool) None
     \<and> (\<exists>r\<in>set (fork_spawns s). spawn_key sid tool r \<and> sp_status r = ''spawned'')"
proof (cases op)
  case (MarkSpawnTerminal a t k st now)
  with assms have m: "a = sid" "t = Some tool" "k = None" "st \<noteq> ''spawned''"
    "snd (snd (mark_spawn_terminal s sid (Some tool) None st now))" by (auto simp: settles_def)
  then show ?thesis unfolding MarkSpawnTerminal
    by (auto simp: mark_spawn_terminal_def Let_def is_spawn_tool count_where_pos split: if_splits)
qed (use assms in \<open>simp_all add: settles_def\<close>)

lemma settles_holds:
  assumes "settles sid tool s op"
  shows "settled (store_step s op) sid tool"
proof -
  from settlesD[OF assms] obtain st now r where o: "op = MarkSpawnTerminal sid (Some tool) None st now"
    "st \<noteq> ''spawned''" "is_fork_spawn s sid (Some tool) None"
    and r: "r \<in> set (fork_spawns s)" "spawn_key sid tool r" "sp_status r = ''spawned''" by blast
  have "r\<lparr>sp_status := st, sp_terminal_at := Some now\<rparr> \<in> set (fork_spawns (store_step s op))"
    using o(3) r unfolding o(1)
    by (simp add: mark_spawn_terminal_def Let_def is_spawn_tool upd_where_hit[OF r(1)])
  then show ?thesis unfolding settled_def using o(2) r(2) by (intro bexI) (auto simp: spawn_key_def)
qed

lemma settled_keeps:
  assumes "settled s sid tool" "\<not> closes sid s op"
  shows "settled (store_step s op) sid tool"
proof -
  obtain r where r: "r \<in> set (fork_spawns s)" "spawn_key sid tool r" "sp_status r \<noteq> ''spawned''"
    using assms(1) by (auto simp: settled_def)
  then show ?thesis using spawn_row_step[of r s op] assms(2) by (auto simp: settled_def spawn_key_def)
qed

interpretation settling: once store_step store_ok "\<lambda>s. settled s sid tool" "settles sid tool" "closes sid" for sid tool
proof
  fix s op
  assume ok: "store_ok s"
  then show "store_ok (store_step s op)" by (rule store_ok_step)
  show "\<not> settled s sid tool" if "settles sid tool s op"
    using settlesD[OF that] spawn_unique[OF ok] unfolding settled_def by metis
qed (auto intro: settles_holds settled_keeps)

section \<open>Runs of a session row\<close>

lemma session_run_Some:
  "store_ok s \<Longrightarrow> session_rec_of s sid = Some r \<Longrightarrow>
   \<exists>r'. session_rec_of (store_run s ops) sid = Some r' \<and> se_cwd r' = se_cwd r
     \<and> se_created_at r' = se_created_at r
     \<and> se_pause_epoch r' = se_pause_epoch r + int (tally store_step (bumps sid) s ops)"
proof (induction ops arbitrary: s r)
  case Nil
  then show ?case by simp
next
  case (Cons op ops)
  from session_step_Some[OF Cons.prems, of op] obtain r1 where r1:
    "session_rec_of (store_step s op) sid = Some r1" "se_cwd r1 = se_cwd r" "se_created_at r1 = se_created_at r"
    "se_pause_epoch r1 = se_pause_epoch r + (if bumps sid s op then 1 else 0)" by blast
  from Cons.IH[OF store_ok_step[OF Cons.prems(1)] r1(1)] r1(2-) show ?case by auto
qed

lemma edges_balance:
  "store_ok s \<Longrightarrow> tally store_step (opens sid) s ops + (if is_open s sid then 1 else 0)
     = tally store_step (ends sid) s ops + (if is_open (store_run s ops) sid then 1 else 0)"
proof (induction ops arbitrary: s)
  case Nil
  then show ?case by simp
next
  case (Cons op ops)
  show ?case
    using Cons.IH[OF store_ok_step[OF Cons.prems], of op] is_open_step[OF Cons.prems, of op sid]
      edges_free(1)[OF Cons.prems, of sid op] opens_iff[of sid s op] ops_exclusive(1)[of sid s op]
    by (cases "opens sid s op"; cases "ends sid s op"; cases "is_open s sid"; simp)
qed

section \<open>Joined lists\<close>

lemma split_tags_join:
  assumes "\<forall>n\<in>set ns. n \<noteq> [] \<and> CHR '','' \<notin> set n \<and> trim n = n"
  shows "split_tags (join_with '','' ns) = ns"
proof (cases "ns = []")
  case True
  then show ?thesis by (simp add: split_tags_def trim_def trim_start_def trim_end_def)
next
  case False
  have "split_on (CHR '','') (join_with '','' ns) = ns" using assms False by (intro split_join) auto
  moreover have "map trim ns = ns" using assms by (intro map_idI) auto
  moreover have "filter (\<lambda>t. t \<noteq> []) ns = ns" using assms by (auto simp: filter_id_conv)
  ultimately show ?thesis unfolding split_tags_def by simp
qed

definition nl_free :: "str list \<Rightarrow> bool" where
  "nl_free ls \<longleftrightarrow> (\<forall>l\<in>set ls. l \<noteq> [] \<and> CHR 0x0A \<notin> set l \<and> last l \<noteq> CHR 0x0D)"

lemma str_lines_join: "nl_free ls \<Longrightarrow> str_lines (join_with [CHR 0x0A] ls) = ls"
proof (cases "ls = []")
  case True
  then show ?thesis by (simp add: str_lines_def)
next
  case False
  assume l: "nl_free ls"
  have "split_on (CHR 0x0A) (join_with [CHR 0x0A] ls) = ls" using l False by (intro split_join) (auto simp: nl_free_def)
  moreover have "map drop_cr (butlast ls) = butlast ls"
    using l by (intro map_idI) (auto simp: nl_free_def drop_cr_def dest: in_set_butlastD)
  moreover have "last ls \<noteq> []" using l False by (auto simp: nl_free_def)
  ultimately show ?thesis using False by (simp add: str_lines_def Let_def)
qed

lemma merge_detail_bounds:
  assumes "nl_free (str_lines prev)" "nl_free (str_lines detail)"
  shows "let ls = foldl push_new (str_lines prev) (str_lines detail);
             out = join_with [CHR 0x0A] ls; m = merge_detail (Some prev) detail cap
         in length m \<le> cap \<and> (\<exists>n. m = take n out \<and> is_char_boundary out n)
            \<and> (length out \<le> cap \<longrightarrow> str_lines m = ls)"
proof -
  let ?ls = "foldl push_new (str_lines prev) (str_lines detail)"
  have "nl_free ?ls" using assms by (auto simp: nl_free_def set_foldl_push)
  then have "str_lines (join_with [CHR 0x0A] ?ls) = ?ls" by (rule str_lines_join)
  then show ?thesis using boundary_below_le[of "join_with [CHR 0x0A] ?ls" cap]
    by (auto simp: merge_detail_def Let_def is_char_boundary_def
        intro: exI[of _ "length (join_with [CHR 0x0A] ?ls)"])
qed

section \<open>Properties\<close>

text \<open>Every table keeps its primary key, and every spool its ascending ids, whatever sequence
  of operations the daemon runs from an empty database: no session, roster entry, latch, spawn,
  held dependent, background task, pending trigger or hook row ever exists twice.\<close>

theorem store_ok_reachable: "store_ok (store_run store_empty ops)"
  by (rule store_ok_run[OF store_ok_empty])

text \<open>The once-per-pause latch: in any run, the idle trigger of a fork is won for a pause at
  most once, plus once for every release - a close of the session, or a re-arming of exactly that
  pause (a re-arming for another pause, or of another fork, releases nothing).\<close>

theorem idle_latch_once_per_pause:
  "tally store_step (latch_won sid name (idle_pause_label e)) s ops
     \<le> 1 + tally store_step (\<lambda>_ op. (\<exists>reason now. op = CloseSession sid reason now)
                                    \<or> op = RearmIdleLatch sid name e) s ops"
proof -
  have "latch_released sid name (idle_pause_label e) =
      (\<lambda>_ op. (\<exists>reason now. op = CloseSession sid reason now) \<or> op = RearmIdleLatch sid name e)"
    by (auto simp: fun_eq_iff latch_released_def idle_pause_label_def show_int_inj split: store_op.splits)
  then show ?thesis using latch.fires_bound[OF TrueI, of sid name "idle_pause_label e" s ops] by (auto split: if_splits)
qed

text \<open>Lifecycle edges: over any run from an empty database, a session's \<open>session_start\<close> edges
  (the registrations that report a newly opened session) are exactly as many as its
  \<open>session_end\<close> edges (the closes that report a transition), plus one if it is open now. So the
  edges alternate, and racing close paths fire the end hook once.\<close>

theorem lifecycle_edges_alternate:
  "tally store_step (opens sid) store_empty ops
     = tally store_step (ends sid) store_empty ops + (if is_open (store_run store_empty ops) sid then 1 else 0)"
  using edges_balance[OF store_ok_empty, of sid ops]
  by (simp add: is_open_def session_rec_of_def store_empty_def)

text \<open>C22. The flush-on-close batch is claimed at most once per life of a session: any stretch of any run
  from an empty database in which the session is not opened has at most one successful claim, and none if the
  session was never opened before, however the claiming paths and the closes interleave.\<close>

theorem final_flush_once_per_life:
  assumes "tally store_step (opens sid) (store_run store_empty pre) ops = 0"
  shows "tally store_step (flush_won sid) (store_run store_empty pre) ops \<le> 1
    \<and> (tally store_step (opens sid) store_empty pre = 0
       \<longrightarrow> tally store_step (flush_won sid) (store_run store_empty pre) ops = 0)"
proof (intro conjI impI)
  show "tally store_step (flush_won sid) (store_run store_empty pre) ops \<le> 1"
    by (rule flush.at_most_once[OF store_ok_reachable assms])
  assume "tally store_step (opens sid) store_empty pre = 0"
  then have "flush_claimed (store_run store_empty pre) sid"
    by (intro flush.holds_on[OF store_ok_empty]) (simp_all add: flush_claimed_def session_rec_of_def store_empty_def)
  then show "tally store_step (flush_won sid) (store_run store_empty pre) ops = 0"
    using flush.fires_bound[OF store_ok_reachable, of sid pre ops] assms by simp
qed

text \<open>Reports are delivered exactly once and in order: over any run from an empty database, the
  texts spooled for a session are, in order, those its takes returned followed by those still
  waiting, whatever the other sessions and the other operations (closes included) do.\<close>

theorem reports_exactly_once:
  "yield_along store_step (report_put sid) store_empty ops
     = yield_along store_step (report_taken sid) store_empty ops
       @ spool_texts sid (report_spool (store_run store_empty ops))"
  using reports.conserve_run[OF store_ok_empty, of sid ops]
  by (simp add: store_empty_def spool_texts_def)

text \<open>Wake blocks are a queue as well: what was spooled is what was taken, or discarded by a
  close of the session, followed by what is waiting - in order, nothing twice, nothing lost
  otherwise.\<close>

theorem wake_blocks_exactly_once:
  "yield_along store_step (wake_put sid) store_empty ops
     = yield_along store_step (wake_gone sid) store_empty ops
       @ spool_texts sid (wake_spool (store_run store_empty ops))"
  using wakes.conserve_run[OF store_ok_empty, of sid ops]
  by (simp add: store_empty_def spool_texts_def)

text \<open>The identity of a session is pinned by its first event: no later operation changes its
  working directory or its creation time, and its pause epoch is exactly the number of genuine
  activities (\<open>bump_pause_epoch\<close>) since, so an epoch never comes back.\<close>

theorem session_identity_pinned:
  assumes "session_rec_of (store_run store_empty pre) sid = Some r"
  shows "\<exists>r'. session_rec_of (store_run store_empty (pre @ ops)) sid = Some r'
     \<and> se_cwd r' = se_cwd r \<and> se_created_at r' = se_created_at r
     \<and> se_pause_epoch r' = se_pause_epoch r + int (tally store_step (bumps sid) (store_run store_empty pre) ops)"
  using session_run_Some[OF store_ok_reachable assms, of ops] by simp

definition sample_args :: "str \<Rightarrow> session_args" where
  "sample_args cwd = \<lparr>a_id = ''s'', a_project_root = ''/p'', a_cwd = cwd, a_transcript_path = None,
     a_model = None, a_enable_tags = None, a_disable_tags = None, a_client = None\<rparr>"

text \<open>Two paths race for the batch of one life; the second one is refused.\<close>

theorem final_flush_once_per_life_witness:
  "tally store_step (flush_won ''s'') (store_run store_empty [UpsertSession (sample_args ''/p'') 10])
     [CloseSession ''s'' ''client'' 20, TryClaimFinalFlush ''s'' 21, TryClaimFinalFlush ''s'' 22] = 1"
proof -
  let ?pre = "[UpsertSession (sample_args ''/p'') 10]"
    and ?ops = "[CloseSession ''s'' ''client'' 20, TryClaimFinalFlush ''s'' 21, TryClaimFinalFlush ''s'' 22]"
  have "tally store_step (opens ''s'') (store_run store_empty ?pre) ?ops = 0" by (simp add: opens_def)
  moreover have "0 < tally store_step (flush_won ''s'') (store_run store_empty ?pre) ?ops" by code_simp
  ultimately show ?thesis using final_flush_once_per_life[of "''s''" ?pre ?ops] by linarith
qed

lemmas sample_run = sample_args_def upsert_session_def insert_or_update_def new_session_def
  session_rec_of_def store_empty_def Let_def

theorem session_identity_pinned_witness:
  "\<exists>r'. session_rec_of (store_run store_empty [UpsertSession (sample_args ''/p'') 10,
        BumpPauseEpoch ''s'', UpsertSession (sample_args ''/elsewhere'') 20, BumpPauseEpoch ''s'']) ''s'' = Some r'
     \<and> se_cwd r' = ''/p'' \<and> se_created_at r' = 10 \<and> se_pause_epoch r' = 2"
proof -
  let ?pre = "[UpsertSession (sample_args ''/p'') 10]"
  let ?ops = "[BumpPauseEpoch ''s'', UpsertSession (sample_args ''/elsewhere'') 20, BumpPauseEpoch ''s'']"
  have "session_rec_of (store_run store_empty ?pre) ''s'' = Some (new_session (sample_args ''/p'') 10)"
    by (simp add: sample_run)
  from session_identity_pinned[OF this, of ?ops] show ?thesis
    by (simp add: bumps_def new_session_def sample_args_def)
qed

text \<open>The completion of a fork run is acted on once: in any run from an empty database,
  \<open>mark_spawn_terminal\<close> reports a transition for a run reference at most once until the session
  closes, and from then on its recorded outcome and completion time stay what they are.\<close>

theorem spawn_settles_once:
  "tally store_step (settles sid tool) (store_run store_empty pre) ops
     \<le> 1 + tally store_step (closes sid) (store_run store_empty pre) ops
   \<and> (\<forall>r. r \<in> set (fork_spawns (store_run store_empty pre)) \<and> spawn_key sid tool r \<and> sp_status r \<noteq> ''spawned''
        \<and> tally store_step (closes sid) (store_run store_empty pre) ops = 0 \<longrightarrow>
      (\<exists>r'\<in>set (fork_spawns (store_run store_empty (pre @ ops))). spawn_key sid tool r'
          \<and> sp_status r' = sp_status r \<and> sp_terminal_at r' = sp_terminal_at r))"
proof (intro conjI allI impI)
  show "tally store_step (settles sid tool) (store_run store_empty pre) ops
     \<le> 1 + tally store_step (closes sid) (store_run store_empty pre) ops"
    using settling.fires_bound[OF store_ok_reachable, of sid tool pre ops] by (auto split: if_splits)
next
  fix r
  assume "r \<in> set (fork_spawns (store_run store_empty pre)) \<and> spawn_key sid tool r \<and> sp_status r \<noteq> ''spawned''
        \<and> tally store_step (closes sid) (store_run store_empty pre) ops = 0"
  then show "\<exists>r'\<in>set (fork_spawns (store_run store_empty (pre @ ops))). spawn_key sid tool r'
          \<and> sp_status r' = sp_status r \<and> sp_terminal_at r' = sp_terminal_at r"
    using spawn_row_run[of r "store_run store_empty pre" ops] by (auto simp: spawn_key_def)
qed

definition sample_spawned :: "store_op list" where
  "sample_spawned = [UpsertSession (sample_args ''/p'') 10, RecordSpawn ''s'' ''t1'' (Some ''f'') 20,
     MarkSpawnTerminal ''s'' (Some ''t1'') None ''completed'' 30]"

theorem spawn_settles_once_witness:
  "\<exists>r'\<in>set (fork_spawns (store_run store_empty (sample_spawned @
        [MarkSpawnTerminal ''s'' (Some ''t1'') None ''failed'' 40]))).
     sp_status r' = ''completed'' \<and> sp_terminal_at r' = Some 30"
proof -
  let ?r = "\<lparr>sp_session = ''s'', sp_tool = ''t1'', sp_task = None, sp_name = Some ''f'', sp_status = ''completed'',
    sp_spawned_at = 20, sp_terminal_at = Some 30, sp_epoch = Some 0\<rparr>"
  let ?m = "MarkSpawnTerminal ''s'' (Some ''t1'') None ''failed'' 40"
  have "fork_spawns (store_run store_empty sample_spawned) = [?r]"
    by (simp add: sample_spawned_def sample_run record_spawn_def insert_or_ignore_def mark_spawn_terminal_def
        is_fork_spawn_def is_spawn_tool spawn_key_def count_where_def upd_where_def)
  moreover have "tally store_step (closes ''s'') (store_run store_empty sample_spawned) [?m] = 0"
    by (simp add: closes_def)
  ultimately show ?thesis
    using spawn_settles_once[of "''s''" "''t1''" sample_spawned "[?m]"] by (auto simp: spawn_key_def)
qed

text \<open>Staleness of a fork run is exact: a run recorded in an open pause is stale at a later
  instant of the same session life exactly if there has been genuine activity since.\<close>

theorem spawn_stale_iff:
  assumes "session_rec_of (store_run store_empty pre) sid = Some se"
    and "\<not> is_fork_spawn (store_run store_empty pre) sid (Some tool) None"
    and "tally store_step (closes sid) (store_run store_empty (pre @ [RecordSpawn sid tool name now])) ops = 0"
  shows "spawn_is_stale (store_run store_empty (pre @ RecordSpawn sid tool name now # ops)) sid (Some tool) None
     \<longleftrightarrow> tally store_step (bumps sid) (store_run store_empty (pre @ [RecordSpawn sid tool name now])) ops > 0"
proof -
  let ?s0 = "store_run store_empty pre"
  let ?s1 = "store_step ?s0 (RecordSpawn sid tool name now)"
  let ?s2 = "store_run ?s1 ops"
  let ?r = "\<lparr>sp_session = sid, sp_tool = tool, sp_task = None, sp_name = name, sp_status = ''spawned'',
     sp_spawned_at = now, sp_terminal_at = None, sp_epoch = Some (se_pause_epoch se)\<rparr>"
  have "?r \<in> set (fork_spawns ?s1)"
    using assms(1,2) by (auto simp: record_spawn_def insert_or_ignore_def is_fork_spawn_def count_where_pos
        is_spawn_tool list_ex_iff)
  moreover have c: "tally store_step (closes sid) ?s1 ops = 0" using assms(3) by simp
  ultimately obtain r' where r': "r' \<in> set (fork_spawns ?s2)" "spawn_key sid tool r'"
      "sp_epoch r' = Some (se_pause_epoch se)"
    using spawn_row_run[of ?r ?s1 ops] by (auto simp: spawn_key_def)
  have ok: "store_ok ?s1" "store_ok ?s2"
    using store_ok_reachable[of "pre @ [RecordSpawn sid tool name now]"]
      store_ok_reachable[of "pre @ RecordSpawn sid tool name now # ops"] by simp_all
  have "session_rec_of ?s1 sid = Some se" using assms(1) by (simp add: record_spawn_def session_rec_of_def)
  from session_run_Some[OF ok(1) this, of ops] obtain se' where se': "session_rec_of ?s2 sid = Some se'"
      "se_pause_epoch se' = se_pause_epoch se + int (tally store_step (bumps sid) ?s1 ops)" by blast
  have q: "(\<exists>x\<in>set (fork_spawns ?s2). spawn_key sid tool x \<and> Q x) \<longleftrightarrow> Q r'" for Q
    using r'(1,2) spawn_unique[OF ok(2) r'(1) _ r'(2)] by blast
  have "spawn_is_stale ?s2 sid (Some tool) None \<longleftrightarrow> se_pause_epoch se \<noteq> se_pause_epoch se'"
    using q[of "\<lambda>x. sp_epoch x \<noteq> None \<and> sp_epoch x \<noteq> Some (se_pause_epoch se')"] r'(3)
    by (simp add: spawn_is_stale_def se'(1) count_where_pos is_spawn_tool del: store_step.simps)
  with se'(2) show ?thesis by simp
qed

theorem spawn_stale_iff_witness:
  "spawn_is_stale (store_run store_empty ([UpsertSession (sample_args ''/p'') 10]
      @ RecordSpawn ''s'' ''t1'' (Some ''f'') 20 # [BumpPauseEpoch ''s''])) ''s'' (Some ''t1'') None"
proof -
  let ?pre = "[UpsertSession (sample_args ''/p'') 10]"
  have "session_rec_of (store_run store_empty ?pre) ''s'' = Some (new_session (sample_args ''/p'') 10)"
    by (simp add: sample_run)
  moreover have "\<not> is_fork_spawn (store_run store_empty ?pre) ''s'' (Some ''t1'') None"
    by (simp add: sample_run is_fork_spawn_def count_where_def)
  ultimately show ?thesis
    using spawn_stale_iff[of ?pre "''s''" _ "''t1''" "Some ''f''" 20 "[BumpPauseEpoch ''s'']"]
    by (simp add: closes_def bumps_def)
qed

text \<open>Held dependents survive the trip through their comma-joined columns: if the names of a
  dependent's predecessors are trimmed, non-empty and free of commas, listing the session's held
  dependents gives back exactly the one that was inserted, in place of any older one of that name,
  and leaves the others as they were.\<close>

theorem pending_dep_roundtrip:
  assumes "\<forall>n\<in>set (d_preds d) \<union> set (d_report_preds d). n \<noteq> [] \<and> CHR '','' \<notin> set n \<and> trim n = n"
  shows "filter (\<lambda>x. d_name x = d_name d) (list_pending_deps (insert_pending_dep s sid d) sid) = [d]
    \<and> filter (\<lambda>x. d_name x \<noteq> d_name d) (list_pending_deps (insert_pending_dep s sid d) sid)
      = filter (\<lambda>x. d_name x \<noteq> d_name d) (list_pending_deps s sid)"
proof -
  let ?r = "\<lparr>pd_session = sid, pd_name = d_name d, pd_path = d_path d, pd_label = d_label d,
         pd_overlap = d_overlap d, pd_preds = join_with '','' (d_preds d),
         pd_report_preds = join_with '','' (d_report_preds d), pd_created_at = d_created_at d\<rparr>"
  have r: "row_to_dep ?r = d" using assms by (simp add: row_to_dep_def split_tags_join)
  have n: "d_name (row_to_dep x) = pd_name x" for x by (simp add: row_to_dep_def)
  have 1: "filter (\<lambda>x. pd_name x = d_name d) (filter (\<lambda>r. pd_session r = sid)
      (pending_deps (insert_pending_dep s sid d))) = [?r]"
    by (auto simp: insert_pending_dep_def insert_or_replace_def del_where_def is_dep_def filter_empty_conv)
  have 2: "filter (\<lambda>x. pd_name x \<noteq> d_name d) (filter (\<lambda>r. pd_session r = sid)
      (pending_deps (insert_pending_dep s sid d)))
     = filter (\<lambda>x. pd_name x \<noteq> d_name d) (filter (\<lambda>r. pd_session r = sid) (pending_deps s))"
    by (auto simp: insert_pending_dep_def insert_or_replace_def del_where_def is_dep_def intro: filter_cong)
  show ?thesis
    by (simp only: list_pending_deps_def filter_map filter_sort o_def n 1 2)
      (simp add: r)
qed

theorem pending_dep_roundtrip_witness:
  "let d = \<lparr>d_name = ''b'', d_path = ''/b'', d_label = ''idle:60'', d_overlap = False,
      d_preds = [''a'', ''c d''], d_report_preds = [''a''], d_created_at = 5\<rparr>
   in filter (\<lambda>x. d_name x = ''b'') (list_pending_deps (insert_pending_dep store_empty ''s'' d) ''s'') = [d]"
  using pending_dep_roundtrip[of "\<lparr>d_name = ''b'', d_path = ''/b'', d_label = ''idle:60'', d_overlap = False,
      d_preds = [''a'', ''c d''], d_report_preds = [''a''], d_created_at = 5\<rparr>" store_empty "''s''"]
  by (simp add: trim_id is_ws_def)

text \<open>A coalesced burst loses nothing it has room for: when an external trigger fires again before
  it was consumed, the pending detail becomes the old lines followed by the new ones not yet there;
  if that fits the cap its lines are exactly those, and otherwise it is cut at a character boundary
  and never exceeds the cap.\<close>

theorem trigger_burst_merges:
  assumes "find (is_trig sid kind key) (pending_trigs s) = Some prev"
    and "nl_free (str_lines (tr_detail prev))" "nl_free (str_lines detail)"
  shows "\<exists>r. find (is_trig sid kind key) (pending_trigs (record_pending_trigger s sid kind key detail cap now)) = Some r
     \<and> tr_created_at r = tr_created_at prev \<and> length (tr_detail r) \<le> cap
     \<and> (let ls = foldl push_new (str_lines (tr_detail prev)) (str_lines detail);
            out = join_with [CHR 0x0A] ls
        in (\<exists>n. tr_detail r = take n out \<and> is_char_boundary out n)
           \<and> (if length out \<le> cap then str_lines (tr_detail r) = ls else True))"
proof -
  have k: "is_trig sid kind key (r\<lparr>tr_detail := x\<rparr>) = is_trig sid kind key r" for r x
    by (simp add: is_trig_def)
  have "is_trig sid kind key prev" using find_in_set[OF assms(1)] by simp
  then have "find (is_trig sid kind key) (pending_trigs (record_pending_trigger s sid kind key detail cap now))
      = Some (prev\<lparr>tr_detail := merge_detail (Some (tr_detail prev)) detail cap\<rparr>)"
    using assms(1) by (simp add: record_pending_trigger_def Let_def find_insert_or_update[OF _ assms(1)] k)
  with merge_detail_bounds[OF assms(2,3), of cap] show ?thesis by (simp add: Let_def)
qed

theorem trigger_burst_merges_witness:
  "let s = record_pending_trigger store_empty ''s'' ''changed'' ''/p/*'' ''/p/a'' 100 5
   in \<exists>r. find (is_trig ''s'' ''changed'' ''/p/*'')
          (pending_trigs (record_pending_trigger s ''s'' ''changed'' ''/p/*'' ''/p/b'' 100 9)) = Some r
      \<and> str_lines (tr_detail r) = [''/p/a'', ''/p/b''] \<and> tr_created_at r = 5"
proof -
  let ?s = "record_pending_trigger store_empty ''s'' ''changed'' ''/p/*'' ''/p/a'' 100 5"
  let ?p = "\<lparr>tr_session = ''s'', tr_kind = ''changed'', tr_key = ''/p/*'', tr_detail = ''/p/a'', tr_created_at = 5\<rparr>"
  have "find (is_trig ''s'' ''changed'' ''/p/*'') (pending_trigs ?s) = Some ?p"
    by (simp add: record_pending_trigger_def store_empty_def insert_or_update_def is_trig_def merge_detail_def)
  moreover have "str_lines ''/p/a'' = [''/p/a'']" "str_lines ''/p/b'' = [''/p/b'']" by code_simp+
  ultimately show ?thesis
    using trigger_burst_merges[of "''s''" "''changed''" "''/p/*''" ?s ?p "''/p/b''" 100 9]
    by (auto simp: nl_free_def push_new_def Let_def)
qed

text \<open>C23. Closing a session clears everything that could still fire for it - roster, latches, spawns,
  held dependents, background tasks, pending triggers, hook state and wake blocks - and keeps what
  must outlive it: its undelivered reports, the record of issued runs and its flush claim.\<close>

theorem close_clears_session:
  assumes "store_ok s"
  shows "let s' = fst (close_session s sid reason now) in
    \<not> is_open s' sid \<and> roster s' sid = [] \<and> \<not> is_latched s' sid name lab
    \<and> \<not> is_fork_spawn s' sid tool task \<and> list_pending_deps s' sid = [] \<and> pending_bg_tasks s' sid t = 0
    \<and> pending_triggers s' sid = [] \<and> hook_last_run s' sid name = None \<and> \<not> has_wake_blocks s' sid
    \<and> report_spool s' = report_spool s \<and> fork_runs s' = fork_runs s \<and> flush_claimed s' sid = flush_claimed s sid"
proof -
  let ?op = "CloseSession sid reason now"
  have "\<not> is_open (store_step s ?op) sid"
    using is_open_step[OF assms, of ?op sid] edges_free(1)[OF assms]
    by (cases "is_open s sid")
      (auto simp: opens_def ends_def close_session_def Let_def count_where_pos is_open_def split: option.splits
        dest: session_rec_of_id)
  moreover have "flush_claimed (store_step s ?op) sid = flush_claimed s sid"
    using flush_claimed_step[OF assms, of ?op sid] by (simp add: opens_def flush_won_def)
  moreover have "find (is_hook sid name) (del_where (\<lambda>r. hk_session r = sid) (hook_state s)) = None"
    by (auto simp: find_None_iff set_del_where is_hook_def)
  ultimately show ?thesis
    by (auto simp: Let_def close_session_def roster_def is_latched_def is_fork_spawn_def list_pending_deps_def
        pending_bg_tasks_def pending_triggers_def hook_last_run_def has_wake_blocks_def count_where_def
        del_where_def filter_empty_conv is_fire_def is_spawn_def holding_bg_def)
qed

theorem close_clears_session_witness:
  "pending_triggers (fst (close_session (record_pending_trigger store_empty ''s'' ''event'' ''e'' ''x'' 100 5)
      ''s'' ''client'' 9)) ''s'' = []"
proof -
  have "store_ok (record_pending_trigger store_empty ''s'' ''event'' ''e'' ''x'' 100 5)"
    using store_ok_reachable[of "[RecordPendingTrigger ''s'' ''event'' ''e'' ''x'' 100 5]"] by simp
  from close_clears_session[OF this, of "''s''" "''client''" 9] show ?thesis by (simp add: Let_def)
qed

end
