(* ===== verification/Migration.thy ===== *)
theory Migration
  imports Prelude
begin

text \<open>
  How the store comes to have its tables (\<open>Store::init\<close> in store.rs): the SQL statements of the
  fifteen migrations on a database kept as tables of rows, each batch a transaction that happens
  whole or not at all, and the version stamp, written once after the last batch. The lemmas follow
  a statement on the columns of a table and on one row separately; the properties say what an
  upgrade leaves of the data, and what an interrupted one leaves of the store.

  A row is the list of its columns with their values, in the order of the columns. The pragmas on
  journal, timeout and foreign keys touch no table. No statement here inserts a row, so \<open>CHECK\<close>
  and \<open>PRIMARY KEY\<close> are kept as data; SQLite looks at \<open>NOT NULL\<close> when a column is added to a
  table that has rows and when a column is overwritten.
\<close>

section \<open>Databases and statements\<close>

datatype sql_value = SNull | SInt int | SText str

datatype affinity = TextCol | IntegerCol | RealCol

record column =
  cname :: str
  caff :: affinity
  not_null :: bool
  dflt :: sql_value

type_synonym sql_row = "(str \<times> sql_value) list"

record sql_table =
  tname :: str
  tcols :: "column list"
  tkey :: "str list"
  tauto :: bool
  tchecks :: "(str \<times> str list) list"
  trows :: "sql_row list"

record database =
  user_version :: int
  tabs :: "sql_table list"
  indexes :: "(str \<times> str \<times> str list) list"

datatype stmt =
    CreateTable sql_table
  | CreateIndex str str "str list"
  | AddColumn str column
  | CopyColumn str str str

datatype sql_error =
    NoSuchTable str
  | NoSuchColumn str
  | DuplicateColumn str
  | NotNullDefault str
  | NotNullFailed str

definition lookup_table :: "database \<Rightarrow> str \<Rightarrow> sql_table option" where
  "lookup_table d t = find (\<lambda>tb. tname tb = t) (tabs d)"

definition column_names :: "sql_table \<Rightarrow> str list" where
  "column_names tb = map cname (tcols tb)"

definition is_not_null :: "sql_table \<Rightarrow> str \<Rightarrow> bool" where
  "is_not_null tb c = list_ex (\<lambda>k. cname k = c \<and> not_null k) (tcols tb)"

definition field :: "sql_row \<Rightarrow> str \<Rightarrow> sql_value" where
  "field r c = (case map_of r c of None \<Rightarrow> SNull | Some x \<Rightarrow> x)"

definition set_field :: "str \<Rightarrow> sql_value \<Rightarrow> sql_row \<Rightarrow> sql_row" where
  "set_field c x = map (\<lambda>(k, y). (k, if k = c then x else y))"

definition upd_table :: "str \<Rightarrow> (sql_table \<Rightarrow> sql_table) \<Rightarrow> database \<Rightarrow> database" where
  "upd_table t f d = d\<lparr>tabs := map (\<lambda>tb. if tname tb = t then f tb else tb) (tabs d)\<rparr>"

definition add_column :: "column \<Rightarrow> sql_table \<Rightarrow> sql_table" where
  "add_column k tb = tb\<lparr>tcols := tcols tb @ [k], trows := map (\<lambda>r. r @ [(cname k, dflt k)]) (trows tb)\<rparr>"

definition copy_column :: "str \<Rightarrow> str \<Rightarrow> sql_table \<Rightarrow> sql_table" where
  "copy_column dst src tb = tb\<lparr>trows := map (\<lambda>r. set_field dst (field r src) r) (trows tb)\<rparr>"

text \<open>One statement: \<open>CREATE TABLE IF NOT EXISTS\<close>, \<open>CREATE INDEX IF NOT EXISTS\<close>,
  \<open>ALTER TABLE .. ADD COLUMN\<close>, and \<open>UPDATE .. SET dst = src\<close> without a condition.\<close>

fun exec_stmt :: "stmt \<Rightarrow> database \<Rightarrow> sql_error + database" where
  "exec_stmt (CreateTable tb) d =
     (if lookup_table d (tname tb) \<noteq> None then Inr d else Inr (d\<lparr>tabs := tabs d @ [tb]\<rparr>))"
| "exec_stmt (CreateIndex i t cs) d =
     (if i \<in> set (map fst (indexes d)) then Inr d
      else case lookup_table d t of
          None \<Rightarrow> Inl (NoSuchTable t)
        | Some tb \<Rightarrow> (case find (\<lambda>c. c \<notin> set (column_names tb)) cs of
              Some c \<Rightarrow> Inl (NoSuchColumn c)
            | None \<Rightarrow> Inr (d\<lparr>indexes := indexes d @ [(i, t, cs)]\<rparr>)))"
| "exec_stmt (AddColumn t k) d = (case lookup_table d t of
      None \<Rightarrow> Inl (NoSuchTable t)
    | Some tb \<Rightarrow>
        if cname k \<in> set (column_names tb) then Inl (DuplicateColumn (cname k))
        else if not_null k \<and> dflt k = SNull \<and> trows tb \<noteq> [] then Inl (NotNullDefault (cname k))
        else Inr (upd_table t (add_column k) d))"
| "exec_stmt (CopyColumn t dst src) d = (case lookup_table d t of
      None \<Rightarrow> Inl (NoSuchTable t)
    | Some tb \<Rightarrow>
        if dst \<notin> set (column_names tb) then Inl (NoSuchColumn dst)
        else if src \<notin> set (column_names tb) then Inl (NoSuchColumn src)
        else if is_not_null tb dst \<and> list_ex (\<lambda>r. field r src = SNull) (trows tb) then Inl (NotNullFailed dst)
        else Inr (upd_table t (copy_column dst src) d))"

text \<open>A batch between \<open>BEGIN\<close> and \<open>COMMIT\<close>: the first statement that fails ends it, the connection
  is dropped with the transaction open, and nothing of the batch stays.\<close>

fun exec_batch :: "stmt list \<Rightarrow> database \<Rightarrow> sql_error + database" where
  "exec_batch [] d = Inr d"
| "exec_batch (s # ss) d = (case exec_stmt s d of Inl e \<Rightarrow> Inl e | Inr d' \<Rightarrow> exec_batch ss d')"

section \<open>The migrations\<close>

definition text_col :: "str \<Rightarrow> column" where
  "text_col c = \<lparr>cname = c, caff = TextCol, not_null = False, dflt = SNull\<rparr>"

definition int_col :: "str \<Rightarrow> column" where
  "int_col c = \<lparr>cname = c, caff = IntegerCol, not_null = False, dflt = SNull\<rparr>"

definition text_req :: "str \<Rightarrow> column" where
  "text_req c = (text_col c)\<lparr>not_null := True\<rparr>"

definition int_req :: "str \<Rightarrow> column" where
  "int_req c = (int_col c)\<lparr>not_null := True\<rparr>"

definition new_table :: "str \<Rightarrow> column list \<Rightarrow> str list \<Rightarrow> bool \<Rightarrow> (str \<times> str list) list \<Rightarrow> stmt" where
  "new_table t cols key auto checks = CreateTable
     \<lparr>tname = t, tcols = cols, tkey = key, tauto = auto, tchecks = checks, trows = []\<rparr>"

definition migration_1 :: "stmt list" where
  "migration_1 =
    [new_table ''sessions''
       [text_col ''session_id'', text_req ''project_root'', text_req ''cwd'', text_col ''transcript_path'',
        text_req ''status'', int_req ''last_activity'', int_col ''forks_ran_at'',
        (int_req ''transcript_offset'')\<lparr>dflt := SInt 0\<rparr>, int_col ''prompt_tokens'', text_col ''model'',
        int_req ''created_at'']
       [''session_id''] False [(''status'', [''open'', ''closed''])],
     new_table ''fork_roster''
       [text_req ''session_id'', text_req ''fork_name'', text_req ''fork_path'', int_req ''queued_at'',
        int_col ''ran_at'']
       [''session_id'', ''fork_name''] False [],
     new_table ''fork_fires''
       [text_req ''session_id'', text_req ''fork_name'', text_req ''trigger_label'', int_req ''fired_at'']
       [''session_id'', ''fork_name'', ''trigger_label''] False [],
     new_table ''fork_runs''
       [int_col ''id'', text_req ''session_id'', text_req ''fork_name'', text_req ''trigger_label'',
        text_req ''state'', int_req ''started_at'', int_col ''finished_at'', text_col ''fork_session_id'',
        (int_col ''cost_usd'')\<lparr>caff := RealCol\<rparr>, text_col ''error'']
       [''id''] True [],
     new_table ''reports''
       [int_col ''id'', int_col ''run_id'', text_req ''origin_session_id'', text_req ''project_root'',
        text_req ''fork_name'', text_req ''trigger_label'', text_req ''kind'', text_req ''body'',
        int_req ''created_at'', int_col ''delivered_at'', text_col ''delivered_to_session'']
       [''id''] True [(''kind'', [''started'', ''response''])],
     CreateIndex ''idx_reports_pending'' ''reports'' [''project_root'', ''delivered_at''],
     CreateIndex ''idx_runs_session'' ''fork_runs'' [''session_id'']]"

definition migration_2 :: "stmt list" where
  "migration_2 = [AddColumn ''sessions'' (text_col ''enable_tags''), AddColumn ''sessions'' (text_col ''disable_tags'')]"

definition migration_3 :: "stmt list" where
  "migration_3 = [AddColumn ''fork_runs'' (text_col ''tags'')]"

definition migration_4 :: "stmt list" where
  "migration_4 =
    [AddColumn ''sessions'' ((int_req ''pause_epoch'')\<lparr>dflt := SInt 0\<rparr>),
     AddColumn ''sessions'' (int_col ''pause_started_at'')]"

definition migration_5 :: "stmt list" where
  "migration_5 =
    [new_table ''fork_spawns''
       [text_req ''session_id'', text_req ''tool_use_id'', text_col ''task_id'', text_col ''fork_name'',
        (text_req ''status'')\<lparr>dflt := SText ''spawned''\<rparr>, int_req ''spawned_at'', int_col ''terminal_at'']
       [''session_id'', ''tool_use_id''] False [],
     new_table ''pending_deps''
       [text_req ''session_id'', text_req ''fork_name'', text_req ''fork_path'', text_req ''trigger_label'',
        int_req ''overlap'', text_req ''preds'', int_req ''created_at'']
       [''session_id'', ''fork_name''] False []]"

definition migration_6 :: "stmt list" where
  "migration_6 = [AddColumn ''sessions'' (int_col ''context_window'')]"

definition migration_7 :: "stmt list" where
  "migration_7 =
    [AddColumn ''pending_deps'' ((text_req ''report_preds'')\<lparr>dflt := SText ''''\<rparr>),
     CopyColumn ''pending_deps'' ''report_preds'' ''preds'']"

definition migration_8 :: "stmt list" where
  "migration_8 = [AddColumn ''sessions'' (text_col ''active_gate'')]"

definition migration_9 :: "stmt list" where
  "migration_9 = [AddColumn ''sessions'' (text_col ''client'')]"

definition migration_10 :: "stmt list" where
  "migration_10 =
    [new_table ''report_spool''
       [int_col ''id'', text_req ''session_id'', text_req ''fork_name'', text_req ''text'', int_req ''created_at'']
       [''id''] True [],
     CreateIndex ''report_spool_session'' ''report_spool'' [''session_id'']]"

definition migration_11 :: "stmt list" where
  "migration_11 =
    [new_table ''bg_tasks''
       [text_req ''session_id'', text_req ''tool_use_id'', text_col ''task_id'', int_req ''started_at'',
        int_col ''terminal_at'']
       [''session_id'', ''tool_use_id''] False []]"

definition migration_12 :: "stmt list" where
  "migration_12 =
    [AddColumn ''sessions'' (int_col ''harness_pid''), AddColumn ''sessions'' (int_col ''harness_start''),
     AddColumn ''sessions'' (text_col ''harness_bin''), AddColumn ''sessions'' (int_col ''closed_at''),
     AddColumn ''sessions'' (text_col ''close_reason'')]"

definition migration_13 :: "stmt list" where
  "migration_13 =
    [new_table ''pending_triggers''
       [text_req ''session_id'', text_req ''kind'', text_req ''key'',
        (text_req ''detail'')\<lparr>dflt := SText ''''\<rparr>, int_req ''created_at'']
       [''session_id'', ''kind'', ''key''] False [],
     new_table ''wake_spool''
       [int_col ''id'', text_req ''session_id'', text_req ''hook_name'', text_req ''text'', int_req ''created_at'']
       [''id''] True [],
     CreateIndex ''wake_spool_session'' ''wake_spool'' [''session_id''],
     new_table ''hook_state''
       [text_req ''session_id'', text_req ''hook_name'', int_col ''last_run_at'', text_col ''last_hash'']
       [''session_id'', ''hook_name''] False []]"

definition migration_14 :: "stmt list" where
  "migration_14 = [AddColumn ''sessions'' (int_col ''final_flush_at'')]"

definition migration_15 :: "stmt list" where
  "migration_15 = [AddColumn ''fork_spawns'' (int_col ''pause_epoch'')]"

definition migrations :: "(int \<times> stmt list) list" where
  "migrations =
    [(1, migration_1), (2, migration_2), (3, migration_3), (4, migration_4), (5, migration_5),
     (6, migration_6), (7, migration_7), (8, migration_8), (9, migration_9), (10, migration_10),
     (11, migration_11), (12, migration_12), (13, migration_13), (14, migration_14), (15, migration_15)]"

definition schema_version :: int where
  "schema_version = 15"

text \<open>The migrations newer than the stamp, one transaction each; what is left of the database, and
  the error that ended the attempt.\<close>

fun migrate :: "int \<Rightarrow> (int \<times> stmt list) list \<Rightarrow> database \<Rightarrow> database \<times> sql_error option" where
  "migrate v [] d = (d, None)"
| "migrate v ((n, b) # ms) d = (if v < n
     then (case exec_batch b d of Inl e \<Rightarrow> (d, Some e) | Inr d' \<Rightarrow> migrate v ms d')
     else migrate v ms d)"

definition init_store :: "database \<Rightarrow> database \<times> sql_error option" where
  "init_store d = (case migrate (user_version d) migrations d of
      (d', Some e) \<Rightarrow> (d', Some e)
    | (d', None) \<Rightarrow> (d'\<lparr>user_version := schema_version\<rparr>, None))"

text \<open>The file a process leaves that dies in \<open>init\<close> with the first \<open>k\<close> migrations behind it.\<close>

definition died_after :: "nat \<Rightarrow> database \<Rightarrow> database" where
  "died_after k d = fst (migrate (user_version d) (take k migrations) d)"

definition empty_db :: database where
  "empty_db = \<lparr>user_version = 0, tabs = [], indexes = []\<rparr>"

section \<open>A statement seen from one table\<close>

definition has_column :: "database \<Rightarrow> str \<Rightarrow> str \<Rightarrow> bool" where
  "has_column d t c = (\<exists>tb. lookup_table d t = Some tb \<and> c \<in> set (column_names tb))"

fun added :: "str \<Rightarrow> stmt \<Rightarrow> column list" where
  "added t (AddColumn u k) = (if u = t then [k] else [])"
| "added t _ = []"

fun row_step :: "str \<Rightarrow> stmt \<Rightarrow> sql_row \<Rightarrow> sql_row" where
  "row_step t (AddColumn u k) r = (if u = t then r @ [(cname k, dflt k)] else r)"
| "row_step t (CopyColumn u dst src) r = (if u = t then set_field dst (field r src) r else r)"
| "row_step t _ r = r"

lemma row_step_id [simp]: "row_step t (CreateTable x) = id" "row_step t (CreateIndex i u cs) = id"
  "u \<noteq> t \<Longrightarrow> row_step t (AddColumn u k) = id" "u \<noteq> t \<Longrightarrow> row_step t (CopyColumn u dst src) = id"
  "row_step t (AddColumn t k) = (\<lambda>r. r @ [(cname k, dflt k)])"
  "row_step t (CopyColumn t dst src) = (\<lambda>r. set_field dst (field r src) r)"
  by (simp_all add: fun_eq_iff)

lemma lookup_upd_table:
  assumes "\<And>tb. tname (f tb) = tname tb"
  shows "lookup_table (upd_table u f d) t = map_option (\<lambda>tb. if u = t then f tb else tb) (lookup_table d t)"
proof -
  have "find (\<lambda>tb. tname tb = t) (map (\<lambda>tb. if tname tb = u then f tb else tb) ts)
      = map_option (\<lambda>tb. if u = t then f tb else tb) (find (\<lambda>tb. tname tb = t) ts)" for ts
    by (induction ts) (auto simp: assms)
  then show ?thesis by (simp add: lookup_table_def upd_table_def)
qed

lemma find_snoc: "find P xs = Some x \<Longrightarrow> find P (xs @ ys) = Some x"
  by (induction xs) (auto split: if_splits)

lemma exec_stmt_table:
  assumes "exec_stmt s d = Inr d'" "lookup_table d t = Some tb"
  obtains tb' where "lookup_table d' t = Some tb'" "tcols tb' = tcols tb @ added t s"
    "trows tb' = map (row_step t s) (trows tb)" "set (map cname (added t s)) \<inter> set (column_names tb) = {}"
proof (cases s)
  case (CreateTable x)
  with assms have "lookup_table d' t = Some tb" by (auto simp: lookup_table_def find_snoc split: if_splits)
  with CreateTable that show ?thesis by simp
next
  case (CreateIndex i u cs)
  with assms have "lookup_table d' t = Some tb" by (auto simp: lookup_table_def split: if_splits option.splits)
  with CreateIndex that show ?thesis by simp
next
  case (AddColumn u k)
  with assms have "lookup_table d' t = Some (if u = t then add_column k tb else tb)"
    by (auto simp: lookup_upd_table add_column_def split: if_splits option.splits)
  with AddColumn that assms show ?thesis
    by (cases "u = t") (auto simp: add_column_def split: if_splits)
next
  case (CopyColumn u dst src)
  with assms have "lookup_table d' t = Some (if u = t then copy_column dst src tb else tb)"
    by (auto simp: lookup_upd_table copy_column_def split: if_splits option.splits)
  with CopyColumn that show ?thesis by (cases "u = t") (simp_all add: copy_column_def)
qed

lemma exec_batch_append:
  "exec_batch (xs @ ys) d = (case exec_batch xs d of Inl e \<Rightarrow> Inl e | Inr d' \<Rightarrow> exec_batch ys d')"
  by (induction xs arbitrary: d) (auto split: sum.splits)

lemma exec_batch_table:
  assumes "exec_batch ss d = Inr d'" "lookup_table d t = Some tb"
  obtains tb' where "lookup_table d' t = Some tb'" "tcols tb' = tcols tb @ concat (map (added t) ss)"
    "trows tb' = map (fold (row_step t) ss) (trows tb)"
    "set (map cname (concat (map (added t) ss))) \<inter> set (column_names tb) = {}"
  using assms
proof (induction ss arbitrary: d tb thesis)
  case Nil
  then show ?case by simp
next
  case (Cons s ss)
  from Cons.prems(2) obtain d1 where d1: "exec_stmt s d = Inr d1" "exec_batch ss d1 = Inr d'"
    by (auto split: sum.splits)
  obtain tb1 where t1: "lookup_table d1 t = Some tb1" "tcols tb1 = tcols tb @ added t s"
    "trows tb1 = map (row_step t s) (trows tb)" "set (map cname (added t s)) \<inter> set (column_names tb) = {}"
    using exec_stmt_table[OF d1(1) Cons.prems(3)] by blast
  obtain tb2 where "lookup_table d' t = Some tb2" "tcols tb2 = tcols tb1 @ concat (map (added t) ss)"
    "trows tb2 = map (fold (row_step t) ss) (trows tb1)"
    "set (map cname (concat (map (added t) ss))) \<inter> set (column_names tb1) = {}"
    using Cons.IH[OF _ d1(2) t1(1)] by blast
  moreover from this(4) t1(2) have "cname ` set (concat (map (added t) ss)) \<inter> cname ` set (tcols tb) = {}"
    by (simp add: column_names_def Int_Un_distrib)
  ultimately show ?case using t1 by (intro Cons.prems(1)) (simp_all add: column_names_def Int_Un_distrib2 comp_def)
qed

lemma exec_batch_keeps_column: "exec_batch ss d = Inr d' \<Longrightarrow> has_column d t c \<Longrightarrow> has_column d' t c"
  unfolding has_column_def by (metis Un_iff column_names_def exec_batch_table map_append set_append)

lemma exec_batch_adds:
  assumes "exec_batch ss d = Inr d'" "AddColumn t k \<in> set ss"
  shows "\<not> has_column d t (cname k)" "has_column d' t (cname k)"
proof -
  obtain xs ys where ss: "ss = xs @ AddColumn t k # ys" using assms(2) split_list by fastforce
  with assms(1) obtain d1 where d1: "exec_batch xs d = Inr d1" "exec_batch (AddColumn t k # ys) d1 = Inr d'"
    by (auto simp: exec_batch_append split: sum.splits)
  then obtain tb where tb: "lookup_table d1 t = Some tb" "cname k \<notin> set (column_names tb)"
    by (auto split: option.splits if_splits sum.splits)
  then show "\<not> has_column d t (cname k)" using exec_batch_keeps_column[OF d1(1)] by (fastforce simp: has_column_def)
  show "has_column d' t (cname k)" using exec_batch_table[OF d1(2) tb(1)]
    unfolding has_column_def column_names_def by (metis Un_iff added.simps(1) concat.simps(2) image_eqI list.set_intros(1) list.set_map list.simps(9) map_append set_append)
qed

section \<open>Interrupted upgrades\<close>

lemma user_version_exec_stmt: "exec_stmt s d = Inr d' \<Longrightarrow> user_version d' = user_version d"
  by (cases s) (auto simp: upd_table_def split: if_splits option.splits)

lemma user_version_exec_batch: "exec_batch ss d = Inr d' \<Longrightarrow> user_version d' = user_version d"
  by (induction ss arbitrary: d) (auto simp: user_version_exec_stmt split: sum.splits)

lemma user_version_migrate: "user_version (fst (migrate v ms d)) = user_version d"
  by (induction v ms d rule: migrate.induct) (auto simp: user_version_exec_batch split: sum.splits)

lemma migrate_keeps_column: "has_column d t c \<Longrightarrow> has_column (fst (migrate v ms d)) t c"
  by (induction v ms d rule: migrate.induct) (auto intro: exec_batch_keeps_column split: sum.splits)

lemma migrate_adds:
  "snd (migrate v ms d) = None \<Longrightarrow> (n, b) \<in> set ms \<Longrightarrow> v < n \<Longrightarrow> AddColumn t k \<in> set b
    \<Longrightarrow> \<not> has_column d t (cname k) \<and> has_column (fst (migrate v ms d)) t (cname k)"
proof (induction v ms d rule: migrate.induct)
  case (2 v m c ms d)
  show ?case
  proof (cases "v < m")
    case False
    with "2.IH"(2) "2.prems" show ?thesis by auto
  next
    case True
    with "2.prems"(1) obtain d' where d': "exec_batch c d = Inr d'" "snd (migrate v ms d') = None"
      by (auto split: sum.splits)
    then have eq: "migrate v ((m, c) # ms) d = migrate v ms d'" using True by simp
    show ?thesis
    proof (cases "(n, b) = (m, c)")
      case True
      with exec_batch_adds[OF d'(1)] "2.prems"(4) show ?thesis unfolding eq by (simp add: migrate_keeps_column)
    next
      case False
      with "2.prems"(2) have "(n, b) \<in> set ms" by auto
      with "2.IH"(1)[OF True d'(1,2)] "2.prems"(3,4) have "\<not> has_column d' t (cname k) \<and> has_column (fst (migrate v ms d')) t (cname k)"
        by simp
      with exec_batch_keeps_column[OF d'(1)] show ?thesis unfolding eq by blast
    qed
  qed
qed simp

text \<open>A store whose stamp is older than one of its columns never opens.\<close>

definition behind :: "database \<Rightarrow> bool" where
  "behind d = (\<exists>n b t k. (n, b) \<in> set migrations \<and> user_version d < n \<and> AddColumn t k \<in> set b \<and> has_column d t (cname k))"

lemma behind_fails: "behind d \<Longrightarrow> snd (init_store d) \<noteq> None"
  using migrate_adds[of "user_version d" migrations d]
  by (fastforce simp: behind_def init_store_def split: prod.splits option.splits)

lemma behind_stays:
  assumes "behind d"
  shows "behind (fst (init_store d))"
proof -
  have "fst (init_store d) = fst (migrate (user_version d) migrations d)"
    using behind_fails[OF assms] by (auto simp: init_store_def split: prod.splits option.splits)
  with assms show ?thesis unfolding behind_def by (metis migrate_keeps_column user_version_migrate)
qed

lemma behind_forever: "behind d \<Longrightarrow> behind (((\<lambda>x. fst (init_store x)) ^^ m) d)"
  by (induction m) (simp_all add: behind_stays)

text \<open>An upgrade that is cut short after a migration that adds a column leaves a store that is behind: the
  migration is committed, the stamp is not. No later attempt opens it, and the attempts leave it that
  way.\<close>

lemma upgrade_cut_behind:
  assumes "snd (migrate (user_version d) (take j migrations) d) = None"
    and "(n, b) \<in> set (take j migrations)" "user_version d < n" "AddColumn t k \<in> set b"
  shows "behind (died_after j d)"
proof -
  have "has_column (died_after j d) t (cname k)" "user_version (died_after j d) = user_version d"
    using migrate_adds[OF assms] by (simp_all add: died_after_def user_version_migrate)
  with assms(2-4) show ?thesis unfolding behind_def by (metis in_set_takeD)
qed

lemma interrupted_upgrade_sticks:
  assumes "behind d"
  shows "snd (init_store (((\<lambda>x. fst (init_store x)) ^^ m) d)) \<noteq> None"
  by (rule behind_fails[OF behind_forever[OF assms]])

section \<open>Complete upgrades\<close>

definition cleared :: "sql_table \<Rightarrow> sql_table" where
  "cleared tb = tb\<lparr>trows := []\<rparr>"

definition shape :: "database \<Rightarrow> database" where
  "shape d = d\<lparr>tabs := map cleared (tabs d)\<rparr>"

definition row_ok :: "column list \<Rightarrow> sql_row \<Rightarrow> bool" where
  "row_ok ks r = (map fst r = map cname ks \<and> list_all (\<lambda>k. not_null k \<longrightarrow> field r (cname k) \<noteq> SNull) ks)"

definition rows_ok :: "database \<Rightarrow> bool" where
  "rows_ok d = (distinct (map tname (tabs d)) \<and> list_all (\<lambda>tb. list_all (row_ok (tcols tb)) (trows tb)) (tabs d))"

text \<open>The schema the first \<open>v\<close> migrations make of an empty file, and a store some release at
  version \<open>v\<close> left behind.\<close>

definition schema_of :: "nat \<Rightarrow> database" where
  "schema_of v = (case exec_batch (concat (map snd (take v migrations))) empty_db of
      Inr d \<Rightarrow> d\<lparr>user_version := int v\<rparr> | Inl _ \<Rightarrow> empty_db)"

definition at_version :: "nat \<Rightarrow> database \<Rightarrow> bool" where
  "at_version v d = (shape d = schema_of v \<and> rows_ok d)"

text \<open>What an upgrade makes of a row: its values stay, a new column holds its default, and a held
  dependent of before version 7 reports on everything it waits for.\<close>

definition filled :: "str \<Rightarrow> column list \<Rightarrow> sql_row \<Rightarrow> sql_row" where
  "filled t ks r = r @ map (\<lambda>k. (cname k,
     if t = ''pending_deps'' \<and> cname k = ''report_preds'' then field r ''preds'' else dflt k)) ks"

text \<open>Statements whose success does not depend on the rows.\<close>

fun safe :: "stmt \<Rightarrow> database \<Rightarrow> bool" where
  "safe (CreateTable tb) d = (trows tb = [])"
| "safe (CreateIndex i t cs) d = True"
| "safe (AddColumn t k) d = (not_null k \<longrightarrow> dflt k \<noteq> SNull)"
| "safe (CopyColumn t dst src) d = (case lookup_table d t of None \<Rightarrow> False | Some tb \<Rightarrow> is_not_null tb src)"

fun safe_batch :: "stmt list \<Rightarrow> database \<Rightarrow> bool" where
  "safe_batch [] d = True"
| "safe_batch (s # ss) d = (safe s d \<and> (case exec_stmt s d of Inl _ \<Rightarrow> False | Inr d' \<Rightarrow> safe_batch ss d'))"

lemma cleared_simps [simp]:
  "tname (cleared tb) = tname tb" "tcols (cleared tb) = tcols tb" "trows (cleared tb) = []"
  "column_names (cleared tb) = column_names tb" "is_not_null (cleared tb) c = is_not_null tb c"
  by (simp_all add: cleared_def column_names_def is_not_null_def)

lemma lookup_shape: "lookup_table (shape d) t = map_option cleared (lookup_table d t)"
proof -
  have "find (\<lambda>tb. tname tb = t) (map cleared ts) = map_option cleared (find (\<lambda>tb. tname tb = t) ts)" for ts
    by (induction ts) auto
  then show ?thesis by (simp add: lookup_table_def shape_def)
qed

lemma shape_simps [simp]:
  "indexes (shape d) = indexes d" "user_version (shape d) = user_version d"
  "shape (d\<lparr>indexes := i\<rparr>) = (shape d)\<lparr>indexes := i\<rparr>"
  "shape (d\<lparr>user_version := v\<rparr>) = (shape d)\<lparr>user_version := v\<rparr>"
  "shape (d\<lparr>tabs := tabs d @ [tb]\<rparr>) = (shape d)\<lparr>tabs := tabs (shape d) @ [cleared tb]\<rparr>"
  by (simp_all add: shape_def)

lemma shape_upd_table:
  "(\<And>tb. cleared (f tb) = g (cleared tb)) \<Longrightarrow> shape (upd_table t f d) = upd_table t g (shape d)"
  by (simp add: shape_def upd_table_def comp_def)

lemma lookup_table_in: "lookup_table d t = Some tb \<Longrightarrow> tb \<in> set (tabs d) \<and> tname tb = t"
  unfolding lookup_table_def by (auto simp: find_Some_iff)

lemma rows_ok_upd_table:
  assumes "rows_ok d" "lookup_table d t = Some tb" "\<And>x. tname (f x) = tname x"
    "list_all (row_ok (tcols tb)) (trows tb) \<Longrightarrow> list_all (row_ok (tcols (f tb))) (trows (f tb))"
  shows "rows_ok (upd_table t f d)"
proof -
  have "x = tb" if "x \<in> set (tabs d)" "tname x = t" for x
    using assms(1) lookup_table_in[OF assms(2)] that by (auto simp: rows_ok_def distinct_map inj_on_def)
  with assms show ?thesis
    by (auto simp: rows_ok_def upd_table_def list_all_iff comp_def if_distrib cong: if_cong)
qed

lemma field_snoc: "field (r @ [(c, x)]) k = (if k \<in> fst ` set r then field r k else if k = c then x else SNull)"
  by (induction r) (auto simp: field_def)

lemma row_ok_add:
  assumes "row_ok ks r" "cname k \<notin> cname ` set ks" "not_null k \<longrightarrow> dflt k \<noteq> SNull"
  shows "row_ok (ks @ [k]) (r @ [(cname k, dflt k)])"
proof -
  have "fst ` set r = cname ` set ks" using assms(1) unfolding row_ok_def by (metis list.set_map)
  with assms show ?thesis by (auto simp: row_ok_def field_snoc list_all_iff)
qed

lemma map_fst_set_field [simp]: "map fst (set_field c x r) = map fst r"
  by (simp add: set_field_def comp_def case_prod_beta)

lemma field_set_field: "field (set_field c x r) k = (if k = c \<and> k \<in> fst ` set r then x else field r k)"
  by (induction r) (force simp: set_field_def field_def)+

lemma row_ok_copy:
  assumes "row_ok ks r" "list_ex (\<lambda>k. cname k = src \<and> not_null k) ks"
  shows "row_ok ks (set_field dst (field r src) r)" "field r src \<noteq> SNull"
  using assms by (auto simp: row_ok_def field_set_field list_all_iff list_ex_iff)

lemma exec_stmt_safe:
  assumes "rows_ok d" "safe s (shape d)" "exec_stmt s (shape d) = Inr e"
  obtains d' where "exec_stmt s d = Inr d'" "e = shape d'" "rows_ok d'"
proof (cases s)
  case (CreateTable tb)
  show ?thesis
  proof (cases "lookup_table d (tname tb)")
    case None
    with assms CreateTable have "rows_ok (d\<lparr>tabs := tabs d @ [tb]\<rparr>)"
      by (auto simp: rows_ok_def lookup_table_def find_None_iff)
    moreover have "cleared tb = tb" using assms(2) CreateTable by (simp add: cleared_def)
    ultimately show ?thesis using that assms(3) None CreateTable by (simp add: lookup_shape)
  next
    case (Some x)
    with that[of d] assms CreateTable show ?thesis by (simp add: lookup_shape)
  qed
next
  case (CreateIndex i t cs)
  have "rows_ok (d\<lparr>indexes := j\<rparr>)" for j using assms(1) by (simp add: rows_ok_def)
  with CreateIndex assms that show ?thesis
    by (auto simp: lookup_shape split: if_splits option.splits)
next
  case (AddColumn t k)
  with assms obtain tb where tb: "lookup_table d t = Some tb" "cname k \<notin> set (column_names tb)"
    "e = upd_table t (add_column k) (shape d)" "not_null k \<longrightarrow> dflt k \<noteq> SNull"
    by (auto simp: lookup_shape split: if_splits option.splits)
  have "rows_ok (upd_table t (add_column k) d)"
    using tb by (intro rows_ok_upd_table[OF assms(1) tb(1)])
      (auto simp: add_column_def list_all_iff column_names_def intro!: row_ok_add)
  moreover have "e = shape (upd_table t (add_column k) d)"
    unfolding tb(3) by (rule shape_upd_table[symmetric]) (simp add: add_column_def cleared_def)
  ultimately show ?thesis using that tb AddColumn by auto
next
  case (CopyColumn t dst src)
  with assms obtain tb where tb: "lookup_table d t = Some tb" "dst \<in> set (column_names tb)" "src \<in> set (column_names tb)"
    "e = upd_table t (copy_column dst src) (shape d)" "is_not_null tb src"
    by (auto simp: lookup_shape split: if_splits option.splits)
  have ok: "list_all (row_ok (tcols tb)) (trows tb)"
    using assms(1) lookup_table_in[OF tb(1)] by (auto simp: rows_ok_def list_all_iff)
  have "rows_ok (upd_table t (copy_column dst src) d)"
    using tb(5) by (intro rows_ok_upd_table[OF assms(1) tb(1)])
      (auto simp: copy_column_def list_all_iff is_not_null_def intro!: row_ok_copy)
  moreover have "e = shape (upd_table t (copy_column dst src) d)"
    unfolding tb(4) by (rule shape_upd_table[symmetric]) (simp add: copy_column_def cleared_def)
  moreover have "\<not> list_ex (\<lambda>r. field r src = SNull) (trows tb)"
    using ok row_ok_copy(2)[of "tcols tb" _ src] tb(5) by (auto simp: list_ex_iff list_all_iff is_not_null_def)
  ultimately show ?thesis using that tb CopyColumn by simp
qed

lemma exec_batch_safe:
  assumes "rows_ok d" "safe_batch ss (shape d)"
  obtains d' where "exec_batch ss d = Inr d'" "exec_batch ss (shape d) = Inr (shape d')" "rows_ok d'"
  using assms
proof (induction ss arbitrary: d thesis)
  case (Cons s ss)
  from Cons.prems(3) obtain e where e: "safe s (shape d)" "exec_stmt s (shape d) = Inr e" "safe_batch ss e"
    by (auto split: sum.splits)
  then obtain d1 where d1: "exec_stmt s d = Inr d1" "e = shape d1" "rows_ok d1"
    using exec_stmt_safe[OF Cons.prems(2)] by blast
  with Cons.IH[of d1] e obtain d' where "exec_batch ss d1 = Inr d'" "exec_batch ss (shape d1) = Inr (shape d')" "rows_ok d'"
    by blast
  with Cons.prems(1) d1 e show ?case by simp
qed simp

lemma safe_batch_append:
  "safe_batch (xs @ ys) d \<Longrightarrow> \<exists>e. exec_batch xs d = Inr e \<and> safe_batch ys e"
  by (induction xs arbitrary: d) (auto split: sum.splits)

lemma lookup_version [simp]: "lookup_table (d\<lparr>user_version := v\<rparr>) t = lookup_table d t"
  by (simp add: lookup_table_def)

lemma exec_stmt_version:
  "exec_stmt s (d\<lparr>user_version := v\<rparr>) = map_sum id (\<lambda>x. x\<lparr>user_version := v\<rparr>) (exec_stmt s d)"
  by (cases s) (auto simp: upd_table_def split: option.splits)

lemma safe_version: "safe s (d\<lparr>user_version := v\<rparr>) = safe s d"
  by (cases s) auto

lemma exec_batch_version:
  "exec_batch ss (d\<lparr>user_version := v\<rparr>) = map_sum id (\<lambda>x. x\<lparr>user_version := v\<rparr>) (exec_batch ss d)"
  by (induction ss arbitrary: d) (auto simp: exec_stmt_version split: sum.splits)

lemma safe_batch_version: "safe_batch ss (d\<lparr>user_version := v\<rparr>) = safe_batch ss d"
  by (induction ss arbitrary: d) (auto simp: exec_stmt_version safe_version split: sum.splits)

section \<open>From any released version to the current one\<close>

fun copied :: "str \<Rightarrow> stmt \<Rightarrow> str list" where
  "copied t (CopyColumn u dst src) = (if u = t then [dst] else [])"
| "copied t _ = []"

definition statements_from :: "nat \<Rightarrow> stmt list" where
  "statements_from v = concat (map snd (drop v migrations))"

lemmas migration_defs =
  migrations_def migration_1_def migration_2_def migration_3_def migration_4_def migration_5_def
  migration_6_def migration_7_def migration_8_def migration_9_def migration_10_def migration_11_def
  migration_12_def migration_13_def migration_14_def migration_15_def new_table_def

lemma migration_numbers: "map fst migrations = map (\<lambda>i. int i + 1) [0..<15]"
  by (simp add: migrations_def upt_rec)

lemma fold_no_copy:
  "\<forall>s\<in>set ss. copied t s = [] \<Longrightarrow>
     fold (row_step t) ss r = r @ map (\<lambda>k. (cname k, dflt k)) (concat (map (added t) ss))"
proof (induction ss arbitrary: r)
  case (Cons s ss)
  then show ?case by (cases s) auto
qed simp

lemma migrate_skips: "\<forall>(n, b)\<in>set ms. n \<le> v \<Longrightarrow> migrate v (ms @ ms') d = migrate v ms' d"
  by (induction ms) auto

lemma migrate_runs:
  "\<forall>(n, b)\<in>set ms. v < n \<Longrightarrow> exec_batch (concat (map snd ms)) d = Inr d' \<Longrightarrow> migrate v ms d = (d', None)"
proof (induction ms arbitrary: d)
  case (Cons m ms)
  obtain n b where m: "m = (n, b)" by fastforce
  with Cons.prems show ?case by (auto simp: exec_batch_append intro: Cons.IH split: sum.splits)
qed simp

lemma migrate_from:
  assumes "exec_batch (statements_from v) d = Inr d'"
  shows "migrate (int v) migrations d = (d', None)"
proof -
  have t: "map fst (take v migrations) = map (\<lambda>i. int i + 1) (take v [0..<15])"
    and d: "map fst (drop v migrations) = map (\<lambda>i. int i + 1) (drop v [0..<15])"
    using migration_numbers by (metis take_map, metis drop_map)
  have "n \<le> int v" if "(n, b) \<in> set (take v migrations)" for n b
  proof -
    have "n \<in> set (map fst (take v migrations))" using that by force
    moreover have "take v [0..<15] = [0..<min v 15]" by (simp add: min_def)
    ultimately show ?thesis unfolding t by auto
  qed
  moreover have "int v < n" if "(n, b) \<in> set (drop v migrations)" for n b
  proof -
    have "n \<in> set (map fst (drop v migrations))" using that by force
    then show ?thesis unfolding d by auto
  qed
  ultimately have "\<forall>(n, b)\<in>set (take v migrations). n \<le> int v" "\<forall>(n, b)\<in>set (drop v migrations). int v < n"
    by auto
  from migrate_skips[OF this(1), of "drop v migrations" d] migrate_runs[OF this(2)] assms
  show ?thesis by (simp add: statements_from_def)
qed

lemma all_safe: "safe_batch (statements_from 0) empty_db"
  by code_simp

lemma statements_split: "statements_from 0 = concat (map snd (take v migrations)) @ statements_from v"
  unfolding statements_from_def drop_0 by (metis append_take_drop_id concat_append map_append)

lemma schema_step:
  obtains e where "exec_batch (statements_from v) (schema_of v) = Inr e" "e\<lparr>user_version := 15\<rparr> = schema_of 15"
    "safe_batch (statements_from v) (schema_of v)" "user_version e = int v"
proof -
  obtain e0 where e0: "exec_batch (concat (map snd (take v migrations))) empty_db = Inr e0"
    "safe_batch (statements_from v) e0"
    using all_safe safe_batch_append unfolding statements_split[of v] by blast
  then have sv: "schema_of v = e0\<lparr>user_version := int v\<rparr>" by (simp add: schema_of_def)
  obtain e1 where e1: "exec_batch (statements_from v) e0 = Inr e1"
    using safe_batch_append[of "statements_from v" "[]" e0] e0(2) by auto
  with e0(1) have "exec_batch (statements_from 0) empty_db = Inr e1"
    by (simp add: statements_split[of v] exec_batch_append)
  then have "schema_of 15 = e1\<lparr>user_version := 15\<rparr>"
    by (simp add: schema_of_def statements_from_def migrations_def)
  with that[of "e1\<lparr>user_version := int v\<rparr>"] show ?thesis
    using e0(2) e1 by (simp add: sv exec_batch_version safe_batch_version)
qed

lemma init_from:
  assumes "at_version v d"
  obtains d' where "exec_batch (statements_from v) d = Inr d'" "init_store d = (d'\<lparr>user_version := 15\<rparr>, None)"
    "at_version 15 (d'\<lparr>user_version := 15\<rparr>)"
proof -
  obtain e where e: "exec_batch (statements_from v) (schema_of v) = Inr e" "e\<lparr>user_version := 15\<rparr> = schema_of 15"
    "safe_batch (statements_from v) (schema_of v)" "user_version e = int v"
    using schema_step by blast
  from assms have d: "shape d = schema_of v" "rows_ok d" by (simp_all add: at_version_def)
  have uv: "user_version d = int v"
    using user_version_exec_batch[OF e(1)] e(4) d(1) by (metis shape_simps(2))
  obtain d' where d': "exec_batch (statements_from v) d = Inr d'" "shape d' = e" "rows_ok d'"
    using exec_batch_safe[OF d(2), of "statements_from v"] e d(1) by (metis Inr_inject)
  have "at_version 15 (d'\<lparr>user_version := 15\<rparr>)"
    using d' e(2) by (simp add: at_version_def rows_ok_def)
  with that[OF d'(1)] migrate_from[OF d'(1)] uv show ?thesis
    by (simp add: init_store_def schema_version_def)
qed

lemma only_copy: "s \<in> set (statements_from v) \<Longrightarrow> copied t s \<noteq> [] \<Longrightarrow> t = ''pending_deps'' \<and> v < 7"
proof -
  assume s: "s \<in> set (statements_from v)" "copied t s \<noteq> []"
  have "s \<in> set (statements_from 0)" using s(1) unfolding statements_split[of v] by simp
  with s(2) have t: "t = ''pending_deps''"
    by (auto simp: statements_from_def migration_defs split: if_splits)
  have "v < 7"
  proof (rule ccontr)
    assume "\<not> v < 7"
    then have "set (drop v migrations) \<subseteq> set (drop 7 migrations)" by (simp add: set_drop_subset_set_drop)
    with s(1) have "s \<in> set (statements_from 7)" by (auto simp: statements_from_def)
    with s(2) show False by (auto simp: statements_from_def migration_defs split: if_splits)
  qed
  with t show ?thesis by simp
qed

lemma report_preds_not_later:
  "k \<in> set (concat (map (added ''pending_deps'') (statements_from v))) \<Longrightarrow> v < 7"
proof (rule ccontr)
  assume k: "k \<in> set (concat (map (added ''pending_deps'') (statements_from v)))" and "\<not> v < 7"
  then have "set (drop v migrations) \<subseteq> set (drop 7 migrations)" by (simp add: set_drop_subset_set_drop)
  with k have "k \<in> set (concat (map (added ''pending_deps'') (statements_from 7)))"
    by (auto simp: statements_from_def)
  then show False by (simp add: statements_from_def migration_defs)
qed

lemma set_field_absent: "c \<notin> fst ` set r \<Longrightarrow> set_field c x r = r"
  by (induction r) (auto simp: set_field_def)

lemma no_pending_deps: "v < 5 \<Longrightarrow> lookup_table (schema_of v) ''pending_deps'' = None"
proof -
  have "lookup_table (schema_of 0) ''pending_deps'' = None" "lookup_table (schema_of 1) ''pending_deps'' = None"
    "lookup_table (schema_of 2) ''pending_deps'' = None" "lookup_table (schema_of 3) ''pending_deps'' = None"
    "lookup_table (schema_of 4) ''pending_deps'' = None" by code_simp+
  then show "v < 5 \<Longrightarrow> ?thesis" by (auto simp: less_Suc_eq numeral_eq_Suc)
qed

fun touches :: "str \<Rightarrow> stmt \<Rightarrow> bool" where
  "touches t (AddColumn u k) = (u = t)"
| "touches t (CopyColumn u dst src) = (u = t)"
| "touches t _ = False"

lemma fold_touching: "fold (row_step t) ss r = fold (row_step t) (filter (touches t) ss) r"
proof (induction ss arbitrary: r)
  case (Cons s ss)
  then show ?case by (cases s) auto
qed simp

lemma pending_deps_statements:
  assumes "v = 5 \<or> v = 6"
  shows "filter (touches ''pending_deps'') (statements_from v) = migration_7"
    "concat (map (added ''pending_deps'') (statements_from v)) = [(text_req ''report_preds'')\<lparr>dflt := SText []\<rparr>]"
proof -
  have "filter (touches ''pending_deps'') (statements_from 5) = migration_7"
    "filter (touches ''pending_deps'') (statements_from 6) = migration_7"
    "concat (map (added ''pending_deps'') (statements_from 5)) = [(text_req ''report_preds'')\<lparr>dflt := SText []\<rparr>]"
    "concat (map (added ''pending_deps'') (statements_from 6)) = [(text_req ''report_preds'')\<lparr>dflt := SText []\<rparr>]"
    by code_simp+
  with assms show "filter (touches ''pending_deps'') (statements_from v) = migration_7"
    "concat (map (added ''pending_deps'') (statements_from v)) = [(text_req ''report_preds'')\<lparr>dflt := SText []\<rparr>]"
    by blast+
qed

lemma pending_deps_row:
  assumes "v = 5 \<or> v = 6" "''report_preds'' \<notin> fst ` set r"
  shows "fold (row_step ''pending_deps'') (statements_from v) r
    = filled ''pending_deps'' (concat (map (added ''pending_deps'') (statements_from v))) r"
proof -
  have "fold (row_step ''pending_deps'') (statements_from v) r
      = set_field ''report_preds'' (field (r @ [(''report_preds'', SText [])]) ''preds'') (r @ [(''report_preds'', SText [])])"
    unfolding fold_touching[of _ "statements_from v"] pending_deps_statements[OF assms(1)]
    by (simp add: migration_7_def text_req_def text_col_def)
  also have "\<dots> = r @ [(''report_preds'', field r ''preds'')]"
  proof -
    have "set_field c x (r @ [(c, y)]) = set_field c x r @ [(c, x)]" for c x y by (simp add: set_field_def)
    moreover have "field (r @ [(''report_preds'', y)]) ''preds'' = field r ''preds''" for y
      by (induction r) (auto simp: field_def)
    ultimately show ?thesis using assms(2) set_field_absent[OF assms(2)] by simp
  qed
  also have "\<dots> = filled ''pending_deps'' (concat (map (added ''pending_deps'') (statements_from v))) r"
    unfolding pending_deps_statements[OF assms(1)] by (simp add: filled_def text_req_def text_col_def)
  finally show ?thesis .
qed

lemma upgraded_row:
  assumes "lookup_table (schema_of v) t \<noteq> None" "fst ` set r \<inter> set (map cname (concat (map (added t) (statements_from v)))) = {}"
  shows "fold (row_step t) (statements_from v) r = filled t (concat (map (added t) (statements_from v))) r"
proof (cases "t = ''pending_deps'' \<and> v < 7")
  case True
  with assms(1) no_pending_deps[of v] have v: "v = 5 \<or> v = 6" by fastforce
  have "''report_preds'' \<in> set (map cname (concat (map (added ''pending_deps'') (statements_from v))))"
    unfolding pending_deps_statements[OF v] by (simp add: text_req_def text_col_def)
  with assms(2) pending_deps_row[OF v] True show ?thesis by blast
next
  case False
  then have "fold (row_step t) (statements_from v) r
      = r @ map (\<lambda>k. (cname k, dflt k)) (concat (map (added t) (statements_from v)))"
    using only_copy[of _ v t] by (intro fold_no_copy) blast
  also have "\<dots> = filled t (concat (map (added t) (statements_from v))) r"
    using False report_preds_not_later[of _ v] by (auto simp: filled_def)
  finally show ?thesis .
qed

text \<open>C24. A store left by any earlier release opens: it comes out with exactly the current tables,
  columns, keys and indexes, no row is lost, moved or changed in a column it had, a new column
  holds its default, and a held dependent from before version 7 reports on all it waits for.\<close>

theorem upgrade_keeps_rows:
  assumes "at_version v d"
  shows "snd (init_store d) = None \<and> at_version 15 (fst (init_store d))
    \<and> (\<forall>t tb. lookup_table d t = Some tb \<longrightarrow> (\<exists>tb' ks. lookup_table (fst (init_store d)) t = Some tb'
         \<and> tcols tb' = tcols tb @ ks \<and> trows tb' = map (filled t ks) (trows tb)))"
proof -
  obtain d' where d': "exec_batch (statements_from v) d = Inr d'" "init_store d = (d'\<lparr>user_version := 15\<rparr>, None)"
    "at_version 15 (d'\<lparr>user_version := 15\<rparr>)"
    using init_from[OF assms] by blast
  have "\<exists>tb'. lookup_table d' t = Some tb' \<and> tcols tb' = tcols tb @ concat (map (added t) (statements_from v))
      \<and> trows tb' = map (filled t (concat (map (added t) (statements_from v)))) (trows tb)"
    if tb: "lookup_table d t = Some tb" for t tb
  proof -
    obtain tb' where tb': "lookup_table d' t = Some tb'" "tcols tb' = tcols tb @ concat (map (added t) (statements_from v))"
      "trows tb' = map (fold (row_step t) (statements_from v)) (trows tb)"
      "set (map cname (concat (map (added t) (statements_from v)))) \<inter> set (column_names tb) = {}"
      using exec_batch_table[OF d'(1) tb] by blast
    have "lookup_table (schema_of v) t \<noteq> None"
      using assms tb lookup_shape[of d t] by (auto simp: at_version_def)
    moreover have "fst ` set r = set (column_names tb)" if "r \<in> set (trows tb)" for r
    proof -
      have "map fst r = column_names tb"
        using assms that lookup_table_in[OF tb]
        by (auto simp: at_version_def rows_ok_def list_all_iff row_ok_def column_names_def)
      then show ?thesis by (metis list.set_map)
    qed
    ultimately have "map (fold (row_step t) (statements_from v)) (trows tb)
        = map (filled t (concat (map (added t) (statements_from v)))) (trows tb)"
      using tb'(4) by (intro map_cong[OF refl] upgraded_row) blast+
    with tb' show ?thesis by simp
  qed
  with d'(2,3) show ?thesis by (simp del: map_map) blast
qed

definition sample_dep :: sql_row where
  "sample_dep = [(''session_id'', SText ''s''), (''fork_name'', SText ''sum''), (''fork_path'', SText ''/f''),
     (''trigger_label'', SText ''idle''), (''overlap'', SInt 0), (''preds'', SText ''lint,test''),
     (''created_at'', SInt 9)]"

definition sample_v6 :: database where
  "sample_v6 = upd_table ''pending_deps'' (\<lambda>tb. tb\<lparr>trows := [sample_dep]\<rparr>) (schema_of 6)"

theorem upgrade_keeps_rows_witness:
  "snd (init_store sample_v6) = None
   \<and> (\<exists>tb ks. lookup_table (fst (init_store sample_v6)) ''pending_deps'' = Some tb
        \<and> trows tb = [filled ''pending_deps'' ks sample_dep])"
proof -
  have v: "at_version 6 sample_v6" by code_simp
  have "map_option trows (lookup_table sample_v6 ''pending_deps'') = Some [sample_dep]" by code_simp
  then obtain tb where tb: "lookup_table sample_v6 ''pending_deps'' = Some tb" "trows tb = [sample_dep]" by auto
  from upgrade_keeps_rows[OF v] tb show ?thesis by fastforce
qed

text \<open>A store stamped by a newer release is left as it is but for the stamp, which is lowered.\<close>

lemma newer_stamp_lowered:
  assumes "user_version d > 15"
  shows "init_store d = (d\<lparr>user_version := 15\<rparr>, None)"
proof -
  have "\<forall>(n, b)\<in>set migrations. n \<le> user_version d" using assms by (simp add: migrations_def)
  from migrate_skips[OF this, of "[]" d] show ?thesis by (simp add: init_store_def schema_version_def)
qed

end
