(* ===== verification/Config.thy ===== *)
theory Config
  imports Frontmatter
begin

text \<open>
  \<open>autofork-core/src/config.rs\<close>: the configuration record with its defaults, the layering of the
  user and the project file, and the paths under the base directory. The \<open>toml\<close> crate (text to a
  sparse \<open>raw_config\<close>, or an error message) is a parameter, \<open>parse_toml\<close>; a \<open>BTreeMap\<close> is its
  sorted association list.
\<close>

section \<open>The configuration\<close>

datatype fork_runner = Headless | Subagent

datatype model_policy =
    Flat "str list"
  | ByParentModel "(str \<times> str list) list" "str list"

fun policy_resolve :: "model_policy \<Rightarrow> str option \<Rightarrow> str list" where
  "policy_resolve (Flat v) parent_model = v"
| "policy_resolve (ByParentModel by_model dflt) parent_model =
     (case Option.bind parent_model (map_of by_model) of Some v \<Rightarrow> v | None \<Rightarrow> dflt)"

record config =
  default_idle_deadline_secs :: u64
  session_timeout_secs :: u64
  quiet_period_secs :: u64
  wake_debounce_secs :: u64
  enable_tags :: "str list option"
  disable_tags :: "str list option"
  tag_throttles :: "(str \<times> u64) list"
  chain_limit :: u64
  runaway_limit :: u64
  fork_models :: "(str \<times> model_policy) list"
  fork_modes :: "(str \<times> model_policy) list"
  runner_mode :: fork_runner
  flush_on_close :: bool
  background_hold :: bool
  background_hold_timeout_secs :: u64
  watch_interval_secs :: u64
  watch_debounce_secs :: u64
  watch_max_files :: nat

definition config_default :: config where
  "config_default = \<lparr>default_idle_deadline_secs = 600, session_timeout_secs = 12 * 3600,
     quiet_period_secs = 20 * 60, wake_debounce_secs = 5, enable_tags = None, disable_tags = None,
     tag_throttles = [], chain_limit = 25, runaway_limit = 30, fork_models = [], fork_modes = [],
     runner_mode = Headless, flush_on_close = True, background_hold = True,
     background_hold_timeout_secs = 30 * 60, watch_interval_secs = 2, watch_debounce_secs = 2,
     watch_max_files = 20000\<rparr>"

section \<open>The sparse layer\<close>

datatype toml = TString str | TInteger int | TFloat str | TBoolean bool | TDatetime str
  | TArray "toml list" | TTable "(str \<times> toml) list"

record raw_config =
  rc_default_idle_deadline :: "toml option"
  rc_session_timeout :: "toml option"
  rc_quiet_period :: "toml option"
  rc_wake_debounce :: "toml option"
  rc_enable_tags :: "str list option"
  rc_disable_tags :: "str list option"
  rc_tag_throttles :: "(str \<times> toml) list"
  rc_chain_limit :: "toml option"
  rc_runaway_limit :: "toml option"
  rc_fork_models :: "(str \<times> toml) list"
  rc_fork_modes :: "(str \<times> toml) list"
  rc_fork_runner :: "toml option"
  rc_flush_on_close :: "toml option"
  rc_background_hold :: "toml option"
  rc_background_hold_timeout :: "toml option"
  rc_watch_interval :: "toml option"
  rc_watch_debounce :: "toml option"
  rc_watch_max_files :: "toml option"
  rc_concurrency :: "toml option"
  rc_fork_timeout :: "toml option"
  rc_run_timeout :: "toml option"
  rc_claude_bin :: "toml option"
  rc_context_window :: "toml option"
  rc_models :: "(str \<times> toml) list"
  rc_report_ttl :: "toml option"
  rc_poll_budget_chars :: "toml option"
  rc_permission_mode :: "toml option"
  rc_isolation :: "toml option"

definition GLOBAL_ONLY :: "str list" where
  "GLOBAL_ONLY = [''quiet_period'']"

fun toml_str :: "toml \<Rightarrow> str option" where
  "toml_str (TString s) = Some s"
| "toml_str _ = None"

definition toml_candidates :: "toml \<Rightarrow> str list option" where
  "toml_candidates v = (case v of
     TString s \<Rightarrow> if trim s \<noteq> [] then Some [trim s] else None
   | TArray a \<Rightarrow> (let out = filter (\<lambda>s. s \<noteq> []) (map trim (List.map_filter toml_str a))
                  in if out \<noteq> [] \<and> length out = length a then Some out else None)
   | _ \<Rightarrow> None)"

definition policy_entry :: "(str \<times> str list) list \<times> str list \<Rightarrow> str \<times> toml \<Rightarrow> (str \<times> str list) list \<times> str list" where
  "policy_entry acc e = (case toml_candidates (snd e) of
     None \<Rightarrow> acc
   | Some c \<Rightarrow> if fst e = ''default'' then (fst acc, c) else (btree_insert (fst e) c (fst acc), snd acc))"

definition parse_model_policy :: "toml \<Rightarrow> model_policy option" where
  "parse_model_policy v = (case v of
     TTable t \<Rightarrow> (let (by_model, dflt) = foldl policy_entry ([], []) t
                  in if by_model \<noteq> [] \<or> dflt \<noteq> [] then Some (ByParentModel by_model dflt) else None)
   | _ \<Rightarrow> map_option Flat (toml_candidates v))"

definition toml_duration :: "toml \<Rightarrow> u64 option" where
  "toml_duration v = (case v of
     TInteger n \<Rightarrow> if n \<ge> 0 then Some (nat n) else None
   | TString s \<Rightarrow> parse_duration_str s
   | _ \<Rightarrow> None)"

definition parse_toml_duration :: "toml \<Rightarrow> str \<Rightarrow> u64 option \<times> str list" where
  "parse_toml_duration v key = (case toml_duration v of
     Some s \<Rightarrow> (Some s, [])
   | None \<Rightarrow> (None, [''invalid duration for '' @ quote key @ '', ignoring'']))"

section \<open>Applying a layer\<close>

text \<open>A step of \<open>apply_layer\<close> changes the configuration and appends warnings.\<close>

type_synonym layer_step = "config \<times> str list \<Rightarrow> config \<times> str list"

text \<open>The closure \<open>dur\<close> and the assignment under \<open>if let Some(s)\<close>.\<close>

definition set_dur :: "bool \<Rightarrow> toml option \<Rightarrow> str \<Rightarrow> (u64 \<Rightarrow> config \<Rightarrow> config) \<Rightarrow> layer_step" where
  "set_dur project_level v key upd acc =
     (if project_level \<and> key \<in> set GLOBAL_ONLY \<and> v \<noteq> None
      then (fst acc, snd acc @ [quote key @ '' is global-only; ignoring project value''])
      else case v of None \<Rightarrow> acc
        | Some w \<Rightarrow> (case parse_toml_duration w key of
             (Some s, ws) \<Rightarrow> (upd s (fst acc), snd acc @ ws)
           | (None, ws) \<Rightarrow> (fst acc, snd acc @ ws)))"

text \<open>\<open>if let Some(v) = &raw.k { match v { ... => set, _ => warn } }\<close>.\<close>

definition set_checked :: "toml option \<Rightarrow> (toml \<Rightarrow> 'a option) \<Rightarrow> ('a \<Rightarrow> config \<Rightarrow> config) \<Rightarrow> str \<Rightarrow> layer_step" where
  "set_checked v rd upd warn acc = (case v of None \<Rightarrow> acc
     | Some w \<Rightarrow> (case rd w of Some x \<Rightarrow> (upd x (fst acc), snd acc) | None \<Rightarrow> (fst acc, snd acc @ [warn])))"

definition int_at_least :: "int \<Rightarrow> toml \<Rightarrow> nat option" where
  "int_at_least k v = (case v of TInteger n \<Rightarrow> if n \<ge> k then Some (nat n) else None | _ \<Rightarrow> None)"

definition toml_bool :: "toml \<Rightarrow> bool option" where
  "toml_bool v = (case v of TBoolean b \<Rightarrow> Some b | _ \<Rightarrow> None)"

definition toml_runner :: "toml \<Rightarrow> fork_runner option" where
  "toml_runner v = (case toml_str v of None \<Rightarrow> None
     | Some s \<Rightarrow> if trim s = ''subagent'' then Some Subagent
                 else if trim s = ''headless'' then Some Headless else None)"

definition set_tags :: "str list option \<Rightarrow> (str list option \<Rightarrow> config \<Rightarrow> config) \<Rightarrow> layer_step" where
  "set_tags v upd acc = (case v of None \<Rightarrow> acc | Some ts \<Rightarrow> (upd (Some ts) (fst acc), snd acc))"

definition throttle_entry :: "config \<times> str list \<Rightarrow> str \<times> toml \<Rightarrow> config \<times> str list" where
  "throttle_entry acc e = (case parse_toml_duration (snd e) (''tag_throttles.'' @ fst e) of
     (Some secs, ws) \<Rightarrow> ((fst acc)\<lparr>tag_throttles := btree_insert (fst e) secs (tag_throttles (fst acc))\<rparr>, snd acc @ ws)
   | (None, ws) \<Rightarrow> (fst acc, snd acc @ ws))"

definition models_entry :: "config \<times> str list \<Rightarrow> str \<times> toml \<Rightarrow> config \<times> str list" where
  "models_entry acc e = (case parse_model_policy (snd e) of
     Some p \<Rightarrow> ((fst acc)\<lparr>fork_models := btree_insert (fst e) p (fork_models (fst acc))\<rparr>, snd acc)
   | None \<Rightarrow> (fst acc, snd acc @ [quote (''fork_models.'' @ fst e)
        @ '' must be a model id, a list of them, or a table keyed by parent model id, ignoring'']))"

definition modes_entry :: "config \<times> str list \<Rightarrow> str \<times> toml \<Rightarrow> config \<times> str list" where
  "modes_entry acc e = (case parse_model_policy (snd e) of
     Some p \<Rightarrow> ((fst acc)\<lparr>fork_modes := btree_insert (fst e) p (fork_modes (fst acc))\<rparr>, snd acc)
   | None \<Rightarrow> (fst acc, snd acc @ [quote (''fork_modes.'' @ fst e)
        @ '' must be a mode, a list of them, or a table keyed by parent model id, ignoring'']))"

definition dquote :: "str \<Rightarrow> str" where
  "dquote s = [CHR 0x22] @ s @ [CHR 0x22]"

definition deprecated_key :: "bool \<Rightarrow> str \<Rightarrow> str list" where
  "deprecated_key present key = (if present
     then [quote key @ '' is no longer used since v0.5 (forks run as fork subagents), ignoring''] else [])"

definition layer_durations :: "raw_config \<Rightarrow> bool \<Rightarrow> layer_step" where
  "layer_durations raw pl =
     set_dur pl (rc_wake_debounce raw) ''wake_debounce'' (\<lambda>s c. c\<lparr>wake_debounce_secs := s\<rparr>)
     \<circ> set_dur pl (rc_quiet_period raw) ''quiet_period'' (\<lambda>s c. c\<lparr>quiet_period_secs := s\<rparr>)
     \<circ> set_dur pl (rc_session_timeout raw) ''session_timeout'' (\<lambda>s c. c\<lparr>session_timeout_secs := s\<rparr>)
     \<circ> set_dur pl (rc_default_idle_deadline raw) ''default_idle_deadline''
         (\<lambda>s c. c\<lparr>default_idle_deadline_secs := s\<rparr>)"

definition layer_limits :: "raw_config \<Rightarrow> layer_step" where
  "layer_limits raw =
     set_checked (rc_runaway_limit raw) (int_at_least 0) (\<lambda>n c. c\<lparr>runaway_limit := n\<rparr>)
       (quote ''runaway_limit'' @ '' must be a non-negative integer, ignoring'')
     \<circ> set_checked (rc_chain_limit raw) (int_at_least 1) (\<lambda>n c. c\<lparr>chain_limit := n\<rparr>)
       (quote ''chain_limit'' @ '' must be a positive integer, ignoring'')
     \<circ> set_tags (rc_disable_tags raw) (\<lambda>t c. c\<lparr>disable_tags := t\<rparr>)
     \<circ> set_tags (rc_enable_tags raw) (\<lambda>t c. c\<lparr>enable_tags := t\<rparr>)"

definition layer_tables :: "raw_config \<Rightarrow> layer_step" where
  "layer_tables raw acc = foldl modes_entry (foldl models_entry (foldl throttle_entry acc
     (rc_tag_throttles raw)) (rc_fork_models raw)) (rc_fork_modes raw)"

definition layer_switches :: "raw_config \<Rightarrow> layer_step" where
  "layer_switches raw =
     set_checked (rc_fork_runner raw) toml_runner (\<lambda>r c. c\<lparr>runner_mode := r\<rparr>)
       (quote ''fork_runner'' @ '' must be '' @ dquote ''subagent'' @ '' or '' @ dquote ''headless'' @ '', ignoring'')
     \<circ> set_checked (rc_watch_max_files raw) (int_at_least 1) (\<lambda>n c. c\<lparr>watch_max_files := n\<rparr>)
       ''watch_max_files must be a positive integer; ignored''
     \<circ> set_dur False (rc_watch_debounce raw) ''watch_debounce'' (\<lambda>s c. c\<lparr>watch_debounce_secs := s\<rparr>)
     \<circ> set_dur False (rc_watch_interval raw) ''watch_interval'' (\<lambda>s c. c\<lparr>watch_interval_secs := s\<rparr>)
     \<circ> set_dur False (rc_background_hold_timeout raw) ''background_hold_timeout''
         (\<lambda>s c. c\<lparr>background_hold_timeout_secs := s\<rparr>)
     \<circ> set_checked (rc_background_hold raw) toml_bool (\<lambda>b c. c\<lparr>background_hold := b\<rparr>)
       (quote ''background_hold'' @ '' must be true or false, ignoring'')
     \<circ> set_checked (rc_flush_on_close raw) toml_bool (\<lambda>b c. c\<lparr>flush_on_close := b\<rparr>)
       (quote ''flush_on_close'' @ '' must be true or false, ignoring'')"

definition layer_deprecated :: "raw_config \<Rightarrow> layer_step" where
  "layer_deprecated raw acc = (fst acc, snd acc
     @ deprecated_key (rc_concurrency raw \<noteq> None) ''concurrency''
     @ deprecated_key (rc_fork_timeout raw \<noteq> None) ''fork_timeout''
     @ deprecated_key (rc_run_timeout raw \<noteq> None) ''run_timeout''
     @ deprecated_key (rc_claude_bin raw \<noteq> None) ''claude_bin''
     @ deprecated_key (rc_context_window raw \<noteq> None) ''context_window''
     @ deprecated_key (rc_models raw \<noteq> []) ''models''
     @ deprecated_key (rc_report_ttl raw \<noteq> None) ''report_ttl''
     @ deprecated_key (rc_poll_budget_chars raw \<noteq> None) ''poll_budget_chars''
     @ deprecated_key (rc_permission_mode raw \<noteq> None) ''permission_mode''
     @ deprecated_key (rc_isolation raw \<noteq> None) ''isolation'')"

definition apply_layer :: "raw_config \<Rightarrow> bool \<Rightarrow> layer_step" where
  "apply_layer raw project_level = layer_deprecated raw \<circ> layer_switches raw \<circ> layer_tables raw
     \<circ> layer_limits raw \<circ> layer_durations raw project_level"

section \<open>Loading\<close>

definition load_layer :: "(str \<Rightarrow> str + raw_config) \<Rightarrow> fsys \<Rightarrow> path \<Rightarrow> raw_config option \<times> str list" where
  "load_layer parse_toml fs p = (case fs_read fs p of
     None \<Rightarrow> (None, [])
   | Some content \<Rightarrow> (case parse_toml content of
       Inr raw \<Rightarrow> (Some raw, [])
     | Inl e \<Rightarrow> (None, [''invalid config at '' @ p @ '': '' @ e])))"

definition load_and_apply :: "(str \<Rightarrow> str + raw_config) \<Rightarrow> fsys \<Rightarrow> path \<Rightarrow> bool \<Rightarrow> layer_step" where
  "load_and_apply parse_toml fs p project_level acc = (case load_layer parse_toml fs p of
     (Some raw, ws) \<Rightarrow> apply_layer raw project_level (fst acc, snd acc @ ws)
   | (None, ws) \<Rightarrow> (fst acc, snd acc @ ws))"

definition config_file :: "path \<Rightarrow> path" where
  "config_file root = path_join root ''.autofork/config.toml''"

definition load_config :: "(str \<Rightarrow> str + raw_config) \<Rightarrow> fsys \<Rightarrow> path option \<Rightarrow> path option \<Rightarrow> config \<times> str list" where
  "load_config parse_toml fs project_root home =
     (let acc = (config_default, []);
          acc1 = (case home of None \<Rightarrow> acc
                  | Some h \<Rightarrow> load_and_apply parse_toml fs (config_file h) False acc)
      in case project_root of None \<Rightarrow> acc1
         | Some root \<Rightarrow>
             if (case home of None \<Rightarrow> False | Some h \<Rightarrow> path_eq (config_file h) (config_file root)) then acc1
             else load_and_apply parse_toml fs (config_file root) True acc1)"

definition load_config_at :: "(str \<Rightarrow> str + raw_config) \<Rightarrow> fsys \<Rightarrow> path option \<Rightarrow> path \<Rightarrow> config \<times> str list" where
  "load_config_at parse_toml fs project_root user_config =
     (let acc1 = load_and_apply parse_toml fs user_config False (config_default, [])
      in case project_root of None \<Rightarrow> acc1
         | Some root \<Rightarrow> if path_eq (config_file root) user_config then acc1
                        else load_and_apply parse_toml fs (config_file root) True acc1)"

section \<open>The base directory\<close>

definition autofork_home_from_env :: "fsys \<Rightarrow> path option" where
  "autofork_home_from_env fs = (case fs_env fs ''AUTOFORK_HOME'' of
     Some d \<Rightarrow> if is_abs d then Some d else map_option (\<lambda>h. path_join h ''.autofork'') (home_dir fs)
   | None \<Rightarrow> map_option (\<lambda>h. path_join h ''.autofork'') (home_dir fs))"

definition autofork_home :: "path \<Rightarrow> path" where
  "autofork_home home = path_join home ''.autofork''"

definition paths_socket :: "fsys \<Rightarrow> path \<Rightarrow> path" where
  "paths_socket fs base =
     (let xdg = (case fs_env fs ''XDG_RUNTIME_DIR'' of
            Some d \<Rightarrow> if is_abs d then path_join d ''autofork.sock'' else path_join base ''run/daemon.sock''
          | None \<Rightarrow> path_join base ''run/daemon.sock'')
      in case fs_env fs ''AUTOFORK_SOCKET'' of Some p \<Rightarrow> if is_abs p then p else xdg | None \<Rightarrow> xdg)"

definition daemon_lock :: "path \<Rightarrow> path" where "daemon_lock base = path_join base ''run/daemon.lock''"
definition spawn_lock :: "path \<Rightarrow> path" where "spawn_lock base = path_join base ''run/spawn.lock''"
definition state_db :: "path \<Rightarrow> path" where "state_db base = path_join base ''state.db''"
definition daemon_log :: "path \<Rightarrow> path" where "daemon_log base = path_join base ''logs/daemon.log''"
definition user_config :: "path \<Rightarrow> path" where "user_config base = path_join base ''config.toml''"

section \<open>Lemmas\<close>

text \<open>What every step preserves, so that it is proved once per kind of step.\<close>

definition config_ok :: "config \<Rightarrow> bool" where
  "config_ok c \<longleftrightarrow> chain_limit c > 0 \<and> watch_max_files c > 0"

lemma config_ok_default: "config_ok config_default"
  by (simp add: config_ok_def config_default_def)

lemma set_dur_inv: "(\<And>s c. P c \<Longrightarrow> P (upd s c)) \<Longrightarrow> P (fst acc) \<Longrightarrow> P (fst (set_dur pl v key upd acc))"
  by (auto simp: set_dur_def split: option.splits prod.splits)

lemma set_checked_inv:
  "(\<And>w x c. rd w = Some x \<Longrightarrow> P c \<Longrightarrow> P (upd x c)) \<Longrightarrow> P (fst acc) \<Longrightarrow> P (fst (set_checked v rd upd warn acc))"
  by (auto simp: set_checked_def split: option.splits)

lemma set_tags_inv: "(\<And>t c. P c \<Longrightarrow> P (upd t c)) \<Longrightarrow> P (fst acc) \<Longrightarrow> P (fst (set_tags v upd acc))"
  by (auto simp: set_tags_def split: option.splits)

lemma layer_tables_inv:
  assumes "\<And>c t m n. P c \<Longrightarrow> P (c\<lparr>tag_throttles := t\<rparr>) \<and> P (c\<lparr>fork_models := m\<rparr>) \<and> P (c\<lparr>fork_modes := n\<rparr>)" "P (fst acc)"
  shows "P (fst (layer_tables raw acc))"
proof -
  have "P (fst (foldl throttle_entry acc es))" if "P (fst acc)" for acc es
    using that by (induction es arbitrary: acc) (auto simp: throttle_entry_def assms(1) split: option.splits prod.splits)
  moreover have "P (fst (foldl models_entry acc es))" if "P (fst acc)" for acc es
    using that by (induction es arbitrary: acc) (auto simp: models_entry_def assms(1) split: option.splits)
  moreover have "P (fst (foldl modes_entry acc es))" if "P (fst acc)" for acc es
    using that by (induction es arbitrary: acc) (auto simp: modes_entry_def assms(1) split: option.splits)
  ultimately show ?thesis using assms(2) by (simp add: layer_tables_def)
qed

lemma int_at_least_pos: "int_at_least 1 w = Some x \<Longrightarrow> 0 < x"
  by (auto simp: int_at_least_def split: toml.splits if_splits)

lemma apply_layer_ok: "config_ok (fst acc) \<Longrightarrow> config_ok (fst (apply_layer raw pl acc))"
  unfolding apply_layer_def layer_durations_def layer_limits_def layer_switches_def layer_deprecated_def o_def fst_conv
  by (intro set_dur_inv[where P = config_ok] set_checked_inv[where P = config_ok]
      set_tags_inv[where P = config_ok] layer_tables_inv[where P = config_ok])
    (auto simp: config_ok_def dest: int_at_least_pos)

lemma set_dur_global: "fst (set_dur True v ''quiet_period'' upd acc) = fst acc"
  by (auto simp: set_dur_def GLOBAL_ONLY_def split: option.splits)

lemma apply_layer_quiet: "quiet_period_secs (fst (apply_layer raw True acc)) = quiet_period_secs (fst acc)"
proof -
  let ?P = "\<lambda>c. quiet_period_secs c = quiet_period_secs (fst acc)"
  have d: "?P (fst (layer_durations raw True acc))"
    unfolding layer_durations_def o_def
    by (rule set_dur_inv, simp, subst set_dur_global) (intro set_dur_inv[where P = ?P]; simp)
  show ?thesis
    unfolding apply_layer_def layer_limits_def layer_switches_def layer_deprecated_def o_def fst_conv
    by (intro set_dur_inv[where P = ?P] set_checked_inv[where P = ?P] set_tags_inv[where P = ?P]
        layer_tables_inv[where P = ?P] d) simp_all
qed

lemma load_and_apply_cases:
  "(\<exists>raw a. load_and_apply pt fs p pl acc = apply_layer raw pl a \<and> fst a = fst acc) \<or> fst (load_and_apply pt fs p pl acc) = fst acc"
proof (cases "load_layer pt fs p")
  case (Pair r ws)
  then show ?thesis
  proof (cases r)
    case (Some raw)
    with Pair have "load_and_apply pt fs p pl acc = apply_layer raw pl (fst acc, snd acc @ ws)"
      by (simp add: load_and_apply_def)
    then show ?thesis by fastforce
  qed (simp add: load_and_apply_def)
qed

section \<open>Properties\<close>

text \<open>However the two files look, the effective configuration stays in bounds - a positive chain
  limit and a positive watch cap - and a project file never moves the global-only quiet period: it
  is what the user file alone gives.\<close>

theorem load_config_at_safe:
  "let c = fst (load_config_at parse_toml fs root user)
   in 0 < chain_limit c \<and> 0 < watch_max_files c
      \<and> quiet_period_secs c = quiet_period_secs (fst (load_config_at parse_toml fs None user))"
proof -
  have ok: "config_ok (fst (load_and_apply parse_toml fs p pl acc))" if "config_ok (fst acc)" for p pl acc
    using load_and_apply_cases[of parse_toml fs p pl acc] apply_layer_ok that by metis
  have q: "quiet_period_secs (fst (load_and_apply parse_toml fs p True acc)) = quiet_period_secs (fst acc)" for p acc
    using load_and_apply_cases[of parse_toml fs p True acc] apply_layer_quiet by metis
  show ?thesis
    using ok config_ok_default by (auto simp: load_config_at_def Let_def q config_ok_def split: option.splits)
qed

end
