(* ===== verification/Wake.thy ===== *)
theory Wake
  imports Frontmatter
begin

text \<open>
  \<open>autofork-core/src/wake.rs\<close> and \<open>notification.rs\<close>: the text a due wake hands to the session and
  the two readings of text that come back - is a submitted prompt autofork's own continuation,
  and does a report ask for another run. The wording is the code's, byte for byte.
\<close>

section \<open>Markers\<close>

definition WAKE_MARKER :: str where
  "WAKE_MARKER = ''source: autofork''"

definition SPAWN_CTX_PREFIX :: str where
  "SPAWN_CTX_PREFIX = (''Context for this run: fork '' @ [CHR 0x27])"

definition CONTINUE_SENTINEL :: str where
  "CONTINUE_SENTINEL = ''<<autofork:continue>>''"

definition TASK_NOTIFICATION_PREFIX :: str where
  "TASK_NOTIFICATION_PREFIX = ''<task-notification>''"

definition CHAIN_WAKE_CAP :: nat where
  "CHAIN_WAKE_CAP = 9800"

definition SENTINEL_DECORATION :: str where
  "SENTINEL_DECORATION = ([CHR 0x60] @ ''*_~>-:.!'' @ [CHR 0x27] @ [CHR 0x22] @ ''()[]'')"

section \<open>The chain sentinel\<close>

text \<open>The invisible format characters, by their UTF-8 bytes.\<close>

definition is_invisible :: "str \<Rightarrow> bool" where
  "is_invisible c \<longleftrightarrow> (case c of
     [a, b] \<Rightarrow> (a = CHR 0xC2 \<and> b = CHR 0xAD) \<or> (a = CHR 0xCD \<and> b = CHR 0x8F)
   | [a, b, d] \<Rightarrow> (a = CHR 0xE1 \<and> b = CHR 0xA0 \<and> d = CHR 0x8E)
       \<or> (a = CHR 0xE2 \<and> b = CHR 0x80 \<and> ((CHR 0x8B \<le> d \<and> d \<le> CHR 0x8F) \<or> (CHR 0xAA \<le> d \<and> d \<le> CHR 0xAE)))
       \<or> (a = CHR 0xE2 \<and> b = CHR 0x81 \<and> ((CHR 0xA0 \<le> d \<and> d \<le> CHR 0xA4) \<or> (CHR 0xA6 \<le> d \<and> d \<le> CHR 0xA9)))
       \<or> (a = CHR 0xEF \<and> b = CHR 0xBB \<and> d = CHR 0xBF)
   | _ \<Rightarrow> False)"

definition visible :: "str \<Rightarrow> str" where
  "visible s = concat (filter (\<lambda>c. \<not> is_invisible c) (utf8_chars s))"

definition is_decoration :: "str \<Rightarrow> bool" where
  "is_decoration s \<longleftrightarrow> list_all (\<lambda>c. is_ws c \<or> c \<in> set SENTINEL_DECORATION) s"

definition is_sentinel_line :: "str \<Rightarrow> bool" where
  "is_sentinel_line line =
     (let t = trim (visible line)
      in case find_sub CONTINUE_SENTINEL t of None \<Rightarrow> False
         | Some start \<Rightarrow> is_decoration (take start t)
             \<and> is_decoration (drop (start + length CONTINUE_SENTINEL) t))"

definition wants_continue :: "str \<Rightarrow> bool" where
  "wants_continue report = str_contains (visible report) CONTINUE_SENTINEL"

text \<open>\<open>str::replace(p, "")\<close>: the non-overlapping occurrences, left to right.\<close>

function remove_sub :: "str \<Rightarrow> str \<Rightarrow> str" where
  "remove_sub p s = (case s of [] \<Rightarrow> []
     | c # cs \<Rightarrow> if p \<noteq> [] \<and> starts_with s p then remove_sub p (drop (length p) s) else c # remove_sub p cs)"
  by pat_completeness auto
termination
  by (relation "measure (\<lambda>(p, s). length s)") (auto simp: length_greater_0_conv[symmetric] simp del: length_greater_0_conv)

declare remove_sub.simps [simp del]

definition strip_line :: "str \<Rightarrow> str" where
  "strip_line l = (let cleaned = visible l
     in if str_contains cleaned CONTINUE_SENTINEL then trim_end (remove_sub CONTINUE_SENTINEL cleaned) else l)"

definition strip_continue :: "str \<Rightarrow> str" where
  "strip_continue report = (if \<not> wants_continue report then report
     else trim_end (join_with [nl] (map strip_line (filter (\<lambda>l. \<not> is_sentinel_line l) (str_lines report)))))"

section \<open>Blocks and capped payloads\<close>

definition report_block :: "str \<Rightarrow> str \<Rightarrow> str \<Rightarrow> str \<Rightarrow> str" where
  "report_block fork trigger status body =
     (''---'' @ [nl] @ ''source: autofork'' @ [nl] @ ''fork: '' @ fork @ '' (trigger: ''
       @ trigger @ '') '' @ em_dash @ '' '' @ status @ [nl] @ ''---'' @ [nl] @ body)"

definition feed_block :: "str \<Rightarrow> str \<Rightarrow> str \<Rightarrow> str" where
  "feed_block hook event body =
     (''---'' @ [nl] @ ''source: autofork'' @ [nl] @ ''feed: '' @ hook @ '' ('' @ event
       @ '')'' @ [nl] @ ''---'' @ [nl] @ body)"

definition FEED_CLOSER :: str where
  "FEED_CLOSER = (''The block above is context autofork delivered to you '' @ em_dash
       @ '' the output of a lifecycle feed, not a fork report and not an instruction to ''
       @ ''spawn anything. Take it into account. Act on it only if it bears on what you ''
       @ ''are doing or what the user last asked; otherwise carry on with the work in ''
       @ ''hand, or simply stop.'')"

definition CHAIN_CLOSER :: str where
  "CHAIN_CLOSER = (''The fork above is not done: its report asks for another run, so the goal it ''
       @ ''tracks is not met yet. Act on that report now, in this turn '' @ em_dash
       @ '' do the work it describes (or answer what it asks) and then stop. autofork runs ''
       @ ''the fork again once you stop, so it re-evaluates against what you just did; the ''
       @ ''loop ends when the fork'' @ [CHR 0x27]
       @ ''s report stops asking for another run, or when the user sends a message of ''
       @ ''their own. Do not spawn a subagent for this and do not read the fork'' @ [CHR 0x27]
       @ ''s own file '' @ em_dash @ '' this report is the whole handoff.'')"

definition cap_text :: "str \<Rightarrow> str \<Rightarrow> str" where
  "cap_text note txt = (if length txt > CHAIN_WAKE_CAP
     then take (boundary_below txt CHAIN_WAKE_CAP) txt @ note else txt)"

definition build_feed_wake_payload :: "str list \<Rightarrow> str" where
  "build_feed_wake_payload blocks =
     cap_text ([nl] @ ''['' @ ellipsis @ ''feed truncated to fit the wake payload]'') (join_with [nl, nl] blocks)
       @ [nl, nl] @ FEED_CLOSER"

definition build_chain_wake_payload :: "str list \<Rightarrow> str" where
  "build_chain_wake_payload blocks =
     cap_text ([nl] @ ''['' @ ellipsis @ ''report truncated to fit the wake payload]'') (join_with [nl, nl] blocks)
       @ [nl, nl] @ CHAIN_CLOSER"

definition looks_like_continuation :: "str \<Rightarrow> bool" where
  "looks_like_continuation prompt \<longleftrightarrow>
     starts_with (trim_start prompt) TASK_NOTIFICATION_PREFIX \<or> str_contains prompt WAKE_MARKER"

section \<open>Due forks\<close>

record due_fork =
  du_name :: str
  du_path :: str
  du_trigger :: str
  du_overlap :: bool
  du_after :: "str list"
  du_skill :: "str option"
  du_chain :: bool
  du_model :: "str option"
  du_model_fallbacks :: "str list"
  du_mode :: "str option"
  du_guard :: "guard option"
  du_detail :: "str option"

record held_fork =
  h_name :: str
  h_after :: "str list"

text \<open>\<open>protocol.rs\<close>: the structured spec that rides along.\<close>

record wake_fork =
  wf_name :: str
  wf_path :: str
  wf_trigger :: str
  wf_overlap :: bool
  wf_after :: "str list"
  wf_chain :: bool
  wf_model :: "str option"
  wf_model_fallbacks :: "str list"
  wf_mode :: "str option"
  wf_guard :: "guard option"
  wf_prompt :: str

definition quoted_names :: "str list \<Rightarrow> str" where
  "quoted_names names = join_with '', '' (map quote names)"

definition trim_detail :: "str \<Rightarrow> str" where
  "trim_detail detail =
     (let lines = str_lines detail;
          out = (if length lines > 40
             then (join_with [nl] (take 40 lines) @ [nl] @ ''['' @ ellipsis @ ''and ''
       @ show_nat (length lines - 40) @ '' more]'')
             else detail)
      in if length out > 4000 then take (boundary_below out 4000) out @ ([nl] @ ''['' @ ellipsis @ ''truncated]'') else out)"

definition allows_family :: "guard \<Rightarrow> tool_family \<Rightarrow> bool" where
  "allows_family g f = (case g_tools g of None \<Rightarrow> f \<noteq> TMcp | Some t \<Rightarrow> f \<in> set t)"

definition backticked :: "str \<Rightarrow> str" where
  "backticked s = ([CHR 0x60] @ s @ [CHR 0x60])"

definition guard_paragraph :: "guard \<Rightarrow> str" where
  "guard_paragraph g =
     ''This run is guarded.''
     @ (if g_write g = [] then '' You may not change any file.''
        else ('' You may only change files under: '' @ join_with '', '' (map backticked (g_write g))
       @ ''.''))
     @ (case g_tools g of None \<Rightarrow> []
        | Some t \<Rightarrow> if t = []
            then ('' You have no tools at all: decide from the conversation you inherited and write ''
       @ ''your report.'')
            else ('' Your only tools are: '' @ join_with '', '' (map family_name t) @ ''.''))
     @ (if \<not> g_network g
        then ('' You have no network (git may still sync and push a repository inside your ''
       @ ''write list).'') else [])
     @ (if \<not> allows_family g TMcp
        then ('' MCP tools (Slack, mail, calendars, search servers) are off for you.'') else [])
     @ (if g_deny g = [] then []
        else ('' These commands are refused outright: ''
       @ join_with '', '' (map backticked (g_deny g)) @ ''.''))
     @ (case map_option trim (g_message g) of None \<Rightarrow> []
        | Some m \<Rightarrow> if m = [] then [] else '' '' @ m)
     @ ('' These limits are enforced at the tool boundary; a blocked call is not a bug to ''
       @ ''route around '' @ em_dash
       @ '' leave that action to the session you were forked from and report what you did ''
       @ ''not do.'')"

definition skill_line :: "due_fork \<Rightarrow> str" where
  "skill_line f = (case du_skill f of None \<Rightarrow> []
     | Some skill \<Rightarrow> ('' This fork belongs to the skill at '' @ skill @ '' '' @ em_dash @ '' if that skill''
       @ [CHR 0x27]
       @ ''s instructions are not already in your context, read that file too and apply it ''
       @ ''as the fork body directs.''))"

definition chain_line :: "due_fork \<Rightarrow> str" where
  "chain_line f = (if du_chain f then ('' This fork may chain: if its goal needs another run after this one, end your ''
       @ ''report with a final line that is exactly '' @ CONTINUE_SENTINEL @ '' '' @ em_dash
       @ '' autofork will run this fork again once the parent session has seen your ''
       @ ''report. When the goal is met (or nothing needs doing), your report must not ''
       @ ''contain that marker AT ALL '' @ em_dash
       @ '' any occurrence anywhere in the report (even mid-sentence) counts as a request ''
       @ ''to run again; the chain ends only when the report omits it.'') else [])"

definition detail_line :: "due_fork \<Rightarrow> str" where
  "detail_line f = (case map_option trim (du_detail f) of None \<Rightarrow> []
     | Some d \<Rightarrow> if d = [] then [] else ('' What the trigger carried:'' @ [nl] @ trim_detail d @ [nl]))"

definition guard_line :: "due_fork \<Rightarrow> str" where
  "guard_line f = (case du_guard f of None \<Rightarrow> [] | Some g \<Rightarrow> '' '' @ guard_paragraph g)"

definition spawn_prompt :: "due_fork \<Rightarrow> str \<Rightarrow> str \<Rightarrow> str \<Rightarrow> str" where
  "spawn_prompt f session_id conversation_id project_root =
     (''Read the file '' @ du_path f @ '' and follow the instructions in its body.''
       @ skill_line f @ detail_line f @ '' '' @ SPAWN_CTX_PREFIX @ du_name f @ [CHR 0x27]
       @ '', trigger '' @ [CHR 0x27] @ du_trigger f @ [CHR 0x27] @ '', parent session ''
       @ session_id @ '', conversation '' @ conversation_id @ '', project root ''
       @ project_root
       @ ''. The conversation id is stable when a session is resumed (a resumed session ''
       @ ''gets a fresh session id); key any per-conversation artifacts on it. You run as ''
       @ ''a separate process from the parent: its background tasks (a Monitor, a ''
       @ ''background command, a subagent) are not in your task table, so TaskOutput on ''
       @ ''one of its task ids fails with '' @ [CHR 0x22] @ ''No task found'' @ [CHR 0x22]
       @ '' '' @ em_dash
       @ '' that is a visibility limit, not evidence the task stopped; never report it as ''
       @ ''gone or ask the parent to re-arm it on that basis. Your final message is your ''
       @ ''report.'' @ chain_line f @ guard_line f)"

definition overlap_line :: "due_fork \<Rightarrow> str" where
  "overlap_line f = (if du_overlap f then [] else ('' If a previous run of this fork is still among your running background tasks, ''
       @ ''skip spawning it.''))"

section \<open>Payloads\<close>

definition root_block :: "due_fork \<Rightarrow> str \<Rightarrow> str \<Rightarrow> str \<Rightarrow> str" where
  "root_block f session_id conversation_id project_root =
     (''---'' @ [nl] @ ''source: autofork'' @ [nl] @ ''due: '' @ du_name f @ '' (trigger: ''
       @ du_trigger f @ '')'' @ [nl] @ ''---'' @ [nl]
       @ ''Spawn a background fork subagent now: use the Agent tool with subagent_type ''
       @ [CHR 0x22] @ ''fork'' @ [CHR 0x22] @ '' and this prompt: '' @ [CHR 0x22]
       @ spawn_prompt f session_id conversation_id project_root @ [CHR 0x22]
       @ '' Do not read that file yourself '' @ em_dash @ '' only the fork reads it.''
       @ overlap_line f)"

definition release_block :: "due_fork \<Rightarrow> str \<Rightarrow> str \<Rightarrow> str \<Rightarrow> str" where
  "release_block f session_id conversation_id project_root =
     (let prompt = spawn_prompt f session_id conversation_id project_root; preds = quoted_names (du_after f)
      in if du_after f = [] then
     (''---'' @ [nl] @ ''source: autofork'' @ [nl] @ ''due: '' @ du_name f @ '' (trigger: ''
       @ du_trigger f @ '') '' @ em_dash @ '' released, earlier forks finished'' @ [nl]
       @ ''---'' @ [nl]
       @ ''The forks ordered before this one have finished. Spawn a background fork ''
       @ ''subagent now: use the Agent tool with subagent_type '' @ [CHR 0x22] @ ''fork''
       @ [CHR 0x22] @ '' and this prompt: '' @ [CHR 0x22] @ prompt @ [CHR 0x22]
       @ '' Do not read that file yourself '' @ em_dash @ '' only the fork reads it.''
       @ overlap_line f)
      else
     (''---'' @ [nl] @ ''source: autofork'' @ [nl] @ ''due: '' @ du_name f @ '' (trigger: ''
       @ du_trigger f @ '') '' @ em_dash @ '' released, '' @ preds @ '' finished'' @ [nl]
       @ ''---'' @ [nl] @ ''Fork '' @ preds
       @ '' has finished; its completion notification (with its report) is earlier in this ''
       @ ''conversation. Spawn a background fork subagent now: use the Agent tool with ''
       @ ''subagent_type '' @ [CHR 0x22] @ ''fork'' @ [CHR 0x22] @ '' and this prompt: ''
       @ [CHR 0x22] @ prompt @ '' This fork runs after '' @ preds
       @ ''; append the report(s) '' @ preds
       @ '' returned in their completion notifications to this prompt, so the fork can ''
       @ ''build on them.'' @ [CHR 0x22] @ '' Do not read that file yourself '' @ em_dash
       @ '' only the fork reads it.'' @ overlap_line f))"

definition CONTINGENCY :: str where
  "CONTINGENCY = ('' If the Agent tool reports '' @ [CHR 0x22] @ ''Agent type '' @ [CHR 0x27] @ ''fork''
       @ [CHR 0x27] @ '' not found'' @ [CHR 0x22] @ '' (or that the '' @ [CHR 0x27] @ ''fork''
       @ [CHR 0x27]
       @ '' agent type is unavailable), first retry the exact same Agent call once. If it ''
       @ ''still fails, do NOT substitute another agent type (other agents don'' @ [CHR 0x27]
       @ ''t inherit this conversation and cannot do a fork'' @ [CHR 0x27]
       @ ''s job). Never create, install, or edit any agent definition (e.g. a file named ''
       @ ''fork.md under .claude/agents/) to work around a missing fork type '' @ em_dash
       @ '' a custom agent cannot inherit this conversation and cannot do a fork''
       @ [CHR 0x27] @ ''s job, and a custom agent named '' @ [CHR 0x27] @ ''fork''
       @ [CHR 0x27]
       @ '' shadows the real built-in type. Instead reply with one line telling the user ''
       @ ''the fork agent type isn'' @ [CHR 0x27]
       @ ''t loaded in this turn and that sending any next message will let the forks ''
       @ ''spawn. When the user next messages, spawn the due forks listed above before ''
       @ ''doing anything else.'')"

definition closer :: "nat \<Rightarrow> str" where
  "closer n_blocks = (let noun = (if n_blocks = 1 then ''the fork above'' else ''all forks above'')
     in (''After spawning '' @ noun
       @ '', reply with one short line acknowledging the background work and stop.''
       @ CONTINGENCY))"

definition held_note :: "held_fork list \<Rightarrow> str" where
  "held_note held = (if held = [] then []
     else (let listed = join_with '', '' (map (\<lambda>h. ([CHR 0x27] @ h_name h @ [CHR 0x27] @ '' (after '' @ quoted_names (h_after h) @ '')'')) held)
       in ([nl] @ [nl] @ ''Also due but held back by autofork until their predecessors finish: ''
       @ listed @ ''. Do not spawn these now '' @ em_dash
       @ '' you will receive their spawn instructions in a later wake once the predecessors''
       @ [CHR 0x27] @ '' completion notifications arrive.'')))"

definition build_wake_payload :: "str \<Rightarrow> str \<Rightarrow> str \<Rightarrow> due_fork list \<Rightarrow> held_fork list \<Rightarrow> str" where
  "build_wake_payload session_id conversation_id project_root forks held =
     (let blocks = map (\<lambda>f. root_block f session_id conversation_id project_root) forks
      in join_with [nl, nl] blocks @ held_note held @ [nl, nl] @ closer (length blocks))"

definition build_release_payload :: "str \<Rightarrow> str \<Rightarrow> str \<Rightarrow> due_fork list \<Rightarrow> str" where
  "build_release_payload session_id conversation_id project_root forks =
     (let blocks = map (\<lambda>f. release_block f session_id conversation_id project_root) forks
      in join_with [nl, nl] blocks @ [nl, nl] @ closer (length blocks))"

definition build_wake_forks :: "str \<Rightarrow> str \<Rightarrow> str \<Rightarrow> due_fork list \<Rightarrow> wake_fork list" where
  "build_wake_forks session_id conversation_id project_root forks = map (\<lambda>f.
     \<lparr>wf_name = du_name f, wf_path = du_path f, wf_trigger = du_trigger f, wf_overlap = du_overlap f,
      wf_after = du_after f, wf_chain = du_chain f, wf_model = du_model f,
      wf_model_fallbacks = du_model_fallbacks f, wf_mode = du_mode f, wf_guard = du_guard f,
      wf_prompt = spawn_prompt f session_id conversation_id project_root\<rparr>) forks"

section \<open>Task notifications\<close>

record task_notification =
  tn_tool_use_id :: "str option"
  tn_task_id :: "str option"
  tn_status :: "str option"
  tn_continue :: bool

text \<open>\<open>str::rfind\<close>.\<close>

definition rfind_sub :: "str \<Rightarrow> str \<Rightarrow> nat option" where
  "rfind_sub p s = map_option (\<lambda>i. length s - length p - i) (find_sub (rev p) (rev s))"

definition result_span :: "str \<Rightarrow> str option" where
  "result_span s = (case find_sub ''<result>'' s of None \<Rightarrow> None
     | Some i \<Rightarrow> (let start = i + length ''<result>''
         in case rfind_sub ''</result>'' s of None \<Rightarrow> None
            | Some e \<Rightarrow> if e \<ge> start then Some (take (e - start) (drop start s)) else None))"

definition is_terminal_status :: "str \<Rightarrow> bool" where
  "is_terminal_status s \<longleftrightarrow> s = ''completed'' \<or> s = ''failed'' \<or> s = ''stopped''"

definition tag_value :: "str \<Rightarrow> str \<Rightarrow> str option" where
  "tag_value s name =
     (let open_tag = ''<'' @ name @ ''>''; close_tag = ''</'' @ name @ ''>''
      in case find_sub open_tag s of None \<Rightarrow> None
         | Some i \<Rightarrow> (let start = i + length open_tag
             in case find_sub close_tag (drop start s) of None \<Rightarrow> None
                | Some e \<Rightarrow> (let v = trim (take e (drop start s)) in if v = [] then None else Some v)))"

definition parse_task_notification :: "str \<Rightarrow> task_notification option" where
  "parse_task_notification s =
     (let trimmed = trim_start s
      in if \<not> starts_with trimmed TASK_NOTIFICATION_PREFIX then None
         else Some \<lparr>tn_tool_use_id = tag_value trimmed ''tool-use-id'', tn_task_id = tag_value trimmed ''task-id'',
                tn_status = tag_value trimmed ''status'',
                tn_continue = (case result_span trimmed of None \<Rightarrow> False | Some r \<Rightarrow> wants_continue r)\<rparr>)"

section \<open>Lemmas\<close>

lemma str_contains_append_left: "str_contains (a @ p @ b) p"
  using str_contains_drop[of "length a" "a @ p @ b" p] by simp

lemma str_contains_right: "str_contains s p \<Longrightarrow> str_contains (a @ s) p"
  by (induction a) auto

lemma str_contains_iff: "str_contains s p \<longleftrightarrow> (\<exists>a b. s = a @ p @ b)"
proof
  show "str_contains s p \<Longrightarrow> \<exists>a b. s = a @ p @ b"
  proof (induction s)
    case Nil
    then show ?case by simp
  next
    case (Cons c s)
    show ?case
    proof (cases "starts_with (c # s) p")
      case True
      then obtain r where "c # s = [] @ p @ r" by (auto simp: starts_with_iff)
      then show ?thesis by blast
    next
      case False
      with Cons obtain a b where "s = a @ p @ b" by auto
      then have "c # s = (c # a) @ p @ b" by simp
      then show ?thesis by blast
    qed
  qed
qed (auto simp: str_contains_append_left)

lemma str_contains_left: "str_contains s p \<Longrightarrow> str_contains (s @ b) p"
  by (auto simp: str_contains_iff) (metis append.assoc)

text \<open>Every block opens with the envelope that carries the marker.\<close>

definition envelope :: str where
  "envelope = ''---'' @ [nl] @ WAKE_MARKER @ [nl]"

lemma length_envelope: "length envelope = 21"
  by (simp add: envelope_def WAKE_MARKER_def)

lemma take_envelope: "20 \<le> k \<Longrightarrow> str_contains (take k (envelope @ x) @ z) WAKE_MARKER"
proof -
  assume k: "20 \<le> k"
  have "take k (envelope @ x) = take 20 (envelope @ x) @ take (k - 20) (drop 20 (envelope @ x))"
    using k by (metis le_add_diff_inverse take_add)
  also have "take 20 (envelope @ x) = ''---'' @ [nl] @ WAKE_MARKER"
    by (simp add: envelope_def WAKE_MARKER_def)
  finally show ?thesis using str_contains_append_left[of "''---'' @ [nl]" WAKE_MARKER] by simp
qed

lemma marker_in_envelope: "str_contains (envelope @ r) WAKE_MARKER"
  using take_envelope[of "length (envelope @ r)" r "[]"] by (simp add: length_envelope)

lemma block_envelope:
  "\<exists>r. root_block f sid conv root = envelope @ r" "\<exists>r. release_block f sid conv root = envelope @ r"
  "\<exists>r. report_block name trigger status body = envelope @ r" "\<exists>r. feed_block hook event body = envelope @ r"
  by (simp_all add: root_block_def release_block_def report_block_def feed_block_def envelope_def WAKE_MARKER_def Let_def)

lemma join_envelope: "\<exists>r. b = envelope @ r \<Longrightarrow> \<exists>r. join_with sep (b # bs) = envelope @ r"
  by (cases bs) auto

lemma boundary_below_ge: "m \<le> n \<Longrightarrow> is_char_boundary s m \<Longrightarrow> m \<le> boundary_below s n"
  by (induction n) (auto simp: le_Suc_eq)

lemma cap_keeps_marker: "str_contains (cap_text note (envelope @ x) @ z) WAKE_MARKER"
proof -
  have "(envelope @ x) ! 20 = nl" by (simp add: envelope_def WAKE_MARKER_def nth_append)
  then have "is_char_boundary (envelope @ x) 20"
    by (simp add: is_char_boundary_def length_envelope is_cont_def nl_def less_eq_char_def)
  then have "20 \<le> boundary_below (envelope @ x) CHAIN_WAKE_CAP"
    by (intro boundary_below_ge) (simp_all add: CHAIN_WAKE_CAP_def)
  then show ?thesis
    using take_envelope[of "boundary_below (envelope @ x) CHAIN_WAKE_CAP" x "note @ z"]
      str_contains_left[OF marker_in_envelope, of x z]
    by (simp add: cap_text_def)
qed

text \<open>Excising the sentinel in place can leave a new one behind.\<close>

lemma strip_continue_nested:
  "strip_continue ''x <<autofork:<<autofork:continue>>continue>>'' = ''x <<autofork:continue>>''"
  by code_simp

section \<open>Properties\<close>

text \<open>autofork recognises its own words: every text it hands to a session - a wake or release
  with at least one fork, a report or feed block, and a chain or feed wake even when it is cut to
  the cap - is classified as a continuation, so delivering it never counts as user activity and
  never starts a new pause.\<close>

theorem own_text_is_continuation:
  "looks_like_continuation (build_wake_payload sid conv root (f # fs) held)
   \<and> looks_like_continuation (build_release_payload sid conv root (f # fs))
   \<and> looks_like_continuation (report_block name trigger status body)
   \<and> looks_like_continuation (feed_block hook event body)
   \<and> looks_like_continuation (build_chain_wake_payload (report_block name trigger status body # bs))
   \<and> looks_like_continuation (build_feed_wake_payload (feed_block hook event body # bs))"
proof -
  have j: "\<exists>r. join_with [nl, nl] (map (\<lambda>f. root_block f sid conv root) (f # fs)) = envelope @ r"
    "\<exists>r. join_with [nl, nl] (map (\<lambda>f. release_block f sid conv root) (f # fs)) = envelope @ r"
    "\<exists>r. join_with [nl, nl] (report_block name trigger status body # bs) = envelope @ r"
    "\<exists>r. join_with [nl, nl] (feed_block hook event body # bs) = envelope @ r"
    unfolding list.map by (intro join_envelope block_envelope)+
  have c: "looks_like_continuation (x @ y)" if "\<exists>r. x = envelope @ r" for x y
    using that str_contains_left[OF marker_in_envelope] by (auto simp: looks_like_continuation_def)
  have k: "looks_like_continuation (cap_text nt x @ y)" if "\<exists>r. x = envelope @ r" for x y nt
    using that cap_keeps_marker by (auto simp: looks_like_continuation_def)
  show ?thesis
    using c[OF j(1)] c[OF j(2)] c[OF block_envelope(3), of _ _ _ _ "[]"] c[OF block_envelope(4), of _ _ _ "[]"]
      k[OF j(3)] k[OF j(4)]
    by (simp add: build_wake_payload_def build_release_payload_def Let_def build_chain_wake_payload_def
        build_feed_wake_payload_def)
qed

end
