(* ===== verification/Planner.thy ===== *)
theory Planner
  imports Schedule Moments Store_Laws Config Wake
begin

text \<open>
  \<open>autofork-daemon/src/planner.rs\<close>: from the moments of a session to the forks that fire. One
  definition per function of the file; \<open>select_forks\<close> runs the roster through the guards in the
  code's order, \<open>build_wake\<close> stamps and splits the selection into roots and held dependents,
  \<open>release_due\<close> lets held dependents go, \<open>build_final_runs\<close> orders the batch of a closing session.

  \<open>planner_env\<close> is what an operation reads from outside the store: the file system and the
  environment, the YAML reader of \<open>Frontmatter\<close>, the forks discovery finds for the session's
  directory, the effective configuration, and the clock, read once per operation.
\<close>

record planner_env =
  pe_fs :: fsys
  pe_yaml :: "str \<Rightarrow> raw_fork option"
  pe_discovered :: "(str \<times> path) list"
  pe_cfg :: config
  pe_now :: int

section \<open>Selected forks\<close>

record selected_fork =
  sf_name :: str
  sf_path :: path
  sf_trigger :: str
  sf_overlap :: bool
  sf_after :: "str list"
  sf_priority :: int
  sf_tags :: "str list"
  sf_chain :: bool
  sf_gate :: bool
  sf_background_hold :: "bool option"
  sf_model :: client_scoped
  sf_mode :: client_scoped
  sf_guard :: "guard option"
  sf_latch_key :: "str option"
  sf_detail :: "str option"
  sf_consumes :: "(str \<times> str) option"

definition latch_key_for :: "fork_run_on \<Rightarrow> int \<Rightarrow> str option" where
  "latch_key_for t pause_epoch = (case t of
     Idle _ \<Rightarrow> Some (idle_pause_label pause_epoch)
   | ContextTokens _ \<Rightarrow> Some (label t)
   | ContextUsedPct _ \<Rightarrow> Some (label t)
   | ContextLeft _ \<Rightarrow> Some (label t)
   | _ \<Rightarrow> None)"

text \<open>\<open>impl Selected for SelectedFork\<close>.\<close>

definition to_selected :: "selected_fork \<Rightarrow> selected" where
  "to_selected s = \<lparr>sel_name = sf_name s, sel_after = sf_after s, sel_priority = sf_priority s\<rparr>"

definition refresh_roster :: "planner_env \<Rightarrow> store \<Rightarrow> str \<Rightarrow> store" where
  "refresh_roster env s sid =
     foldl (\<lambda>s e. fst (queue_fork s sid (fst e) (snd e) (pe_now env))) s (pe_discovered env)"

datatype gate_hold = HoldApply | HoldSkip

definition env_secs :: "fsys \<Rightarrow> str \<Rightarrow> int \<Rightarrow> int" where
  "env_secs fs var dflt = (case Option.bind (fs_env fs var) parse_i64 of Some n \<Rightarrow> n | None \<Rightarrow> dflt)"

definition gate_grace_secs :: "fsys \<Rightarrow> int" where
  "gate_grace_secs fs = env_secs fs ''AUTOFORK_GATE_GRACE_SECS'' 180"

definition overlap_spawn_max_age_secs :: "fsys \<Rightarrow> int" where
  "overlap_spawn_max_age_secs fs = env_secs fs ''AUTOFORK_OVERLAP_SPAWN_MAX_AGE_SECS'' (30 * 60)"

definition runaway_window_secs :: "fsys \<Rightarrow> int" where
  "runaway_window_secs fs = env_secs fs ''AUTOFORK_RUNAWAY_WINDOW_SECS'' 3600"

definition is_idle_trigger :: "str \<Rightarrow> bool" where
  "is_idle_trigger lab \<longleftrightarrow> lab = ''idle'' \<or> starts_with lab ''idle:''"

definition pending_detail :: "(str \<times> str \<times> str) list \<Rightarrow> str \<Rightarrow> str \<Rightarrow> str option" where
  "pending_detail pending kind key =
     (case find (\<lambda>(k, s, _). k = kind \<and> s = key) pending of
        None \<Rightarrow> None
      | Some (_, _, detail) \<Rightarrow> if detail = [] then None else Some detail)"

definition read_fork :: "planner_env \<Rightarrow> str \<Rightarrow> path \<Rightarrow> fork_def option" where
  "read_fork env name p = (case fs_read (pe_fs env) p of None \<Rightarrow> None
     | Some content \<Rightarrow> (case parse_fork_file (pe_yaml env) (home_dir (pe_fs env)) name content of
         ForkOk parsed \<Rightarrow> Some (pf_def parsed) | _ \<Rightarrow> None))"

section \<open>The guards of \<open>select_forks\<close>\<close>

definition within :: "int \<Rightarrow> int \<Rightarrow> nat \<Rightarrow> bool" where
  "within t since window \<longleftrightarrow> max (i64_sub t since) 0 < as_i64 window"

definition throttled :: "fork_def \<Rightarrow> int option \<Rightarrow> int \<Rightarrow> bool" where
  "throttled d ran_at t = (case (fd_throttle_secs d, ran_at) of
     (Some throttle, Some r0) \<Rightarrow> within t r0 throttle | _ \<Rightarrow> False)"

definition tag_throttled :: "config \<Rightarrow> store \<Rightarrow> path \<Rightarrow> fork_def \<Rightarrow> int \<Rightarrow> bool" where
  "tag_throttled cfg s root d t =
     (fd_tags d \<noteq> [] \<and> tag_throttles cfg \<noteq> []
      \<and> list_ex (\<lambda>tag. case map_of (tag_throttles cfg) tag of None \<Rightarrow> False
           | Some window \<Rightarrow> (case last_run_for_tags s root [tag] of None \<Rightarrow> False
               | Some lr \<Rightarrow> within t lr window)) (fd_tags d))"

definition latched :: "store \<Rightarrow> str \<Rightarrow> str \<Rightarrow> str option \<Rightarrow> bool" where
  "latched s sid name key = (case key of None \<Rightarrow> False | Some k \<Rightarrow> is_latched s sid name k)"

definition overlapping :: "planner_env \<Rightarrow> store \<Rightarrow> str \<Rightarrow> str \<Rightarrow> fork_def \<Rightarrow> bool" where
  "overlapping env s sid name d =
     (\<not> fd_overlap d \<and> live_spawn_newer_than s sid name
        (i64_sub (pe_now env) (overlap_spawn_max_age_secs (pe_fs env))))"

fun is_every :: "fork_run_on \<Rightarrow> bool" where
  "is_every (Every _) = True"
| "is_every _ = False"

definition runaway :: "planner_env \<Rightarrow> store \<Rightarrow> str \<Rightarrow> str \<Rightarrow> fork_run_on \<Rightarrow> bool" where
  "runaway env s sid name t =
     (runaway_limit (pe_cfg env) > 0 \<and> \<not> is_every t
      \<and> count_runs_since s sid name (i64_sub (pe_now env) (runaway_window_secs (pe_fs env)))
          \<ge> as_i64 (runaway_limit (pe_cfg env)))"

definition carried :: "(str \<times> str \<times> str) list \<Rightarrow> fork_run_on \<Rightarrow> str option \<times> (str \<times> str) option" where
  "carried pending t = (case t of
     Changed pattern \<Rightarrow> (pending_detail pending ''changed'' pattern, Some (''changed'', pattern))
   | EventNamed name \<Rightarrow> (pending_detail pending ''event'' name, Some (''event'', name))
   | _ \<Rightarrow> (None, None))"

definition select_one ::
    "planner_env \<Rightarrow> store \<Rightarrow> session_row \<Rightarrow> fork_moment list \<Rightarrow> roster_rec \<Rightarrow> selected_fork option" where
  "select_one env s se moments entry =
     (case read_fork env (ro_name entry) (ro_path entry) of
        None \<Rightarrow> None
      | Some d \<Rightarrow>
        if \<not> tags_allowed (fd_tags d) (coalesce (s_enable_tags se) (enable_tags (pe_cfg env)))
               (coalesce (s_disable_tags se) (disable_tags (pe_cfg env))) then None
        else (case match_moments d moments (default_idle_deadline_secs (pe_cfg env)) (ro_ran_at entry)
                     (s_created_at se) of
          None \<Rightarrow> None
        | Some t \<Rightarrow>
          (let key = latch_key_for t (s_pause_epoch se);
               (detail, consumes) = carried (pending_triggers s (s_session_id se)) t
           in if throttled d (ro_ran_at entry) (pe_now env) then None
              else if tag_throttled (pe_cfg env) s (s_project_root se) d (pe_now env) then None
              else if latched s (s_session_id se) (ro_name entry) key then None
              else if overlapping env s (s_session_id se) (ro_name entry) d then None
              else if runaway env s (s_session_id se) (ro_name entry) t then None
              else Some \<lparr>sf_name = ro_name entry, sf_path = ro_path entry, sf_trigger = label t,
                     sf_overlap = fd_overlap d, sf_after = fd_after d, sf_priority = fd_priority d,
                     sf_tags = fd_tags d, sf_chain = fd_chain d, sf_gate = fd_gate d,
                     sf_background_hold = fd_background_hold d, sf_model = fd_model d,
                     sf_mode = fd_mode d, sf_guard = fd_guard d, sf_latch_key = key,
                     sf_detail = detail, sf_consumes = consumes\<rparr>)))"

section \<open>Gate and background holds\<close>

text \<open>\<open>Daemon::pending_background\<close> of \<open>daemon.rs\<close>.\<close>

definition pending_background :: "store \<Rightarrow> str \<Rightarrow> config \<Rightarrow> int \<Rightarrow> bool" where
  "pending_background s sid cfg t =
     (let not_before = (if background_hold_timeout_secs cfg = 0 then 0
            else i64_sub t (as_i64 (background_hold_timeout_secs cfg)))
      in pending_bg_tasks s sid not_before > 0)"

definition bg_passes :: "config \<Rightarrow> selected_fork \<Rightarrow> bool" where
  "bg_passes cfg sel \<longleftrightarrow> \<not> is_idle_trigger (sf_trigger sel)
     \<or> \<not> (case sf_background_hold sel of None \<Rightarrow> background_hold cfg | Some b \<Rightarrow> b)"

definition apply_background_hold_filter ::
    "planner_env \<Rightarrow> store \<Rightarrow> str \<Rightarrow> selected_fork list \<Rightarrow> selected_fork list" where
  "apply_background_hold_filter env s sid selected =
     (if selected = [] \<or> \<not> pending_background s sid (pe_cfg env) (pe_now env) then selected
      else filter (bg_passes (pe_cfg env)) selected)"

definition gate_alive :: "planner_env \<Rightarrow> store \<Rightarrow> str \<Rightarrow> str \<Rightarrow> bool" where
  "gate_alive env s sid g \<longleftrightarrow> live_spawn_exists s sid g
     \<or> (case last_issued_at s sid g of None \<Rightarrow> False
        | Some at \<Rightarrow> i64_sub (pe_now env) at < gate_grace_secs (pe_fs env))"

definition gate_passes :: "selected_fork \<Rightarrow> bool" where
  "gate_passes sel \<longleftrightarrow> sf_gate sel \<or> \<not> is_idle_trigger (sf_trigger sel)"

definition active_gate_of :: "store \<Rightarrow> str \<Rightarrow> str option" where
  "active_gate_of s sid = Option.bind (get_session s sid) s_active_gate"

definition apply_gate_filter ::
    "planner_env \<Rightarrow> store \<Rightarrow> str \<Rightarrow> selected_fork list \<Rightarrow> store \<times> selected_fork list" where
  "apply_gate_filter env s sid selected =
     (if list_ex sf_gate selected then (s, filter gate_passes selected)
      else case active_gate_of s sid of
        None \<Rightarrow> (s, selected)
      | Some g \<Rightarrow> if gate_alive env s sid g then (s, filter gate_passes selected)
                  else (clear_active_gate s sid, selected))"

definition select_forks ::
    "planner_env \<Rightarrow> store \<Rightarrow> session_row \<Rightarrow> fork_moment list \<Rightarrow> gate_hold \<Rightarrow> store \<times> selected_fork list" where
  "select_forks env s0 se moments hold =
     (let sid = s_session_id se;
          s = refresh_roster env s0 sid;
          selected = List.map_filter (select_one env s se moments) (roster s sid)
      in if hold = HoldApply
         then (let (s', sel) = apply_gate_filter env s sid selected
               in (s', apply_background_hold_filter env s' sid sel))
         else (s, selected))"

definition reserve_fast_path :: "session_row \<Rightarrow> selected_fork list \<Rightarrow> selected_fork list" where
  "reserve_fast_path se selected =
     (if s_client se = Some ''codex''
      then filter (\<lambda>s. \<not> (sf_chain s \<and> sf_trigger s = ''idle:0'')) selected else selected)"

section \<open>Resolving model and mode\<close>

definition resolve_scoped ::
    "client_scoped \<Rightarrow> str option \<Rightarrow> str option \<Rightarrow> (str \<times> model_policy) list \<Rightarrow> str list" where
  "resolve_scoped scoped client parent_model cfg_table =
     (let c = (case client of None \<Rightarrow> ''claude-code'' | Some c \<Rightarrow> c);
          own = scoped_resolve scoped c
      in if own \<noteq> [] then own
         else (case map_of cfg_table c of None \<Rightarrow> [] | Some policy \<Rightarrow> policy_resolve policy parent_model))"

definition split_candidates :: "str list \<Rightarrow> str option \<times> str list" where
  "split_candidates c = (case c of [] \<Rightarrow> (None, []) | x # rest \<Rightarrow> (Some x, rest))"

definition first_of :: "'a list \<Rightarrow> 'a option" where
  "first_of xs = (case xs of [] \<Rightarrow> None | x # _ \<Rightarrow> Some x)"

definition conversation_id :: "session_row \<Rightarrow> str" where
  "conversation_id se = (case Option.bind (s_transcript_path se) path_file_stem of
     Some st \<Rightarrow> st | None \<Rightarrow> s_session_id se)"

text \<open>\<open>discovery::skill_sibling\<close>.\<close>

definition skill_sibling :: "fsys \<Rightarrow> path \<Rightarrow> path option" where
  "skill_sibling fs p =
     (if path_file_name p \<noteq> Some ''FORK.md'' then None
      else case path_parent p of None \<Rightarrow> None
        | Some d \<Rightarrow> (let skill = path_join d ''SKILL.md'' in if fs_is_file fs skill then Some skill else None))"

definition models_of :: "planner_env \<Rightarrow> session_row \<Rightarrow> client_scoped \<Rightarrow> str option \<times> str list" where
  "models_of env se scoped =
     split_candidates (resolve_scoped scoped (s_client se) (s_model se) (fork_models (pe_cfg env)))"

definition mode_of :: "planner_env \<Rightarrow> session_row \<Rightarrow> client_scoped \<Rightarrow> str option" where
  "mode_of env se scoped =
     first_of (resolve_scoped scoped (s_client se) (s_model se) (fork_modes (pe_cfg env)))"

definition due_of_selected :: "planner_env \<Rightarrow> session_row \<Rightarrow> selected_fork \<Rightarrow> due_fork" where
  "due_of_selected env se sel =
     \<lparr>du_name = sf_name sel, du_path = sf_path sel, du_trigger = sf_trigger sel, du_overlap = sf_overlap sel,
      du_after = [], du_skill = skill_sibling (pe_fs env) (sf_path sel), du_chain = sf_chain sel,
      du_model = fst (models_of env se (sf_model sel)),
      du_model_fallbacks = snd (models_of env se (sf_model sel)),
      du_mode = mode_of env se (sf_mode sel), du_guard = sf_guard sel, du_detail = sf_detail sel\<rparr>"

section \<open>Issuing a wake\<close>

definition stamp_selected :: "planner_env \<Rightarrow> str \<Rightarrow> store \<Rightarrow> selected_fork \<Rightarrow> store" where
  "stamp_selected env sid s sel =
     (let t = pe_now env;
          s1 = touch_fork_ran s sid (sf_name sel) t;
          s2 = fst (record_issued_run s1 sid (sf_name sel) (sf_trigger sel)
                 (if sf_tags sel \<noteq> [] then Some (join_with '','' (sf_tags sel)) else None) t)
      in case sf_latch_key sel of None \<Rightarrow> s2 | Some key \<Rightarrow> fst (try_latch_fire s2 sid (sf_name sel) key t))"

text \<open>The names a fork waits for: its resolved \<open>after\<close> dependencies, and every batch-mate of a
  strictly lower effective priority.\<close>

definition report_preds :: "selected_fork list \<Rightarrow> nat \<Rightarrow> str list" where
  "report_preds selected i = map (\<lambda>j. sf_name (selected ! j)) (resolve_deps (map to_selected selected) ! i)"

definition eff_of :: "selected_fork list \<Rightarrow> int list" where
  "eff_of selected = (let ss = map to_selected selected in effective_priorities ss (resolve_deps ss))"

definition gate_names :: "selected_fork list \<Rightarrow> nat \<Rightarrow> str list" where
  "gate_names selected i =
     (let eff = eff_of selected; rp = report_preds selected i
      in if eff ! i > foldl min (hd eff) (tl eff)
         then foldl (\<lambda>g j. if j \<noteq> i \<and> eff ! j < eff ! i then push_new g (sf_name (selected ! j)) else g)
                rp [0..<length selected]
         else rp)"

record wake_acc =
  wa_store :: store
  wa_roots :: "due_fork list"
  wa_held :: "held_fork list"

definition wake_step :: "planner_env \<Rightarrow> session_row \<Rightarrow> selected_fork list \<Rightarrow> wake_acc \<Rightarrow> nat \<Rightarrow> wake_acc" where
  "wake_step env se selected acc i =
     (let sid = s_session_id se; sel = selected ! i;
          s1 = stamp_selected env sid (wa_store acc) sel;
          s2 = (case sf_consumes sel of None \<Rightarrow> s1 | Some (kind, key) \<Rightarrow> fst (clear_pending_trigger s1 sid kind key));
          gate = gate_names selected i;
          s3 = (if sf_gate sel then set_active_gate s2 sid (sf_name sel) else s2)
      in if gate = []
         then acc\<lparr>wa_store := s3, wa_roots := wa_roots acc @ [due_of_selected env se sel]\<rparr>
         else acc\<lparr>wa_store := insert_pending_dep s3 sid
                    \<lparr>d_name = sf_name sel, d_path = sf_path sel, d_label = sf_trigger sel,
                     d_overlap = sf_overlap sel, d_preds = gate, d_report_preds = report_preds selected i,
                     d_created_at = pe_now env\<rparr>,
                  wa_held := wa_held acc @ [\<lparr>h_name = sf_name sel, h_after = gate\<rparr>]\<rparr>)"

text \<open>The daemon notes the instant of the wake (\<open>note_wake_issued\<close>) whenever a payload is returned.\<close>

definition build_wake ::
    "planner_env \<Rightarrow> store \<Rightarrow> session_row \<Rightarrow> selected_fork list \<Rightarrow> store \<times> (str \<times> wake_fork list) option" where
  "build_wake env s se selected =
     (if selected = [] then (s, None)
      else (let acc = foldl (wake_step env se selected) \<lparr>wa_store = s, wa_roots = [], wa_held = []\<rparr>
                        [0..<length selected];
                sid = s_session_id se; conv = conversation_id se; root = s_project_root se
            in (wa_store acc, Some (build_wake_payload sid conv root (wa_roots acc) (wa_held acc),
                  build_wake_forks sid conv root (wa_roots acc)))))"

section \<open>Releasing held dependents\<close>

definition releasable :: "store \<Rightarrow> str \<Rightarrow> pending_dep \<Rightarrow> bool" where
  "releasable s sid dep \<longleftrightarrow>
     (case active_gate_of s sid of None \<Rightarrow> True | Some g \<Rightarrow> g = d_name dep)
     \<and> list_all (\<lambda>pred. fork_completed_since s sid pred (d_created_at dep)) (d_preds dep)"

definition due_of_dep :: "planner_env \<Rightarrow> session_row \<Rightarrow> pending_dep \<Rightarrow> due_fork" where
  "due_of_dep env se dep =
     (let def = read_fork env (d_name dep) (d_path dep);
          models = (case def of None \<Rightarrow> split_candidates [] | Some d \<Rightarrow> models_of env se (fd_model d))
      in \<lparr>du_name = d_name dep, du_path = d_path dep, du_trigger = d_label dep, du_overlap = d_overlap dep,
          du_after = d_report_preds dep, du_skill = skill_sibling (pe_fs env) (d_path dep),
          du_chain = (case def of None \<Rightarrow> False | Some d \<Rightarrow> fd_chain d),
          du_model = fst models, du_model_fallbacks = snd models,
          du_mode = (case def of None \<Rightarrow> None | Some d \<Rightarrow> mode_of env se (fd_mode d)),
          du_guard = Option.bind def fd_guard, du_detail = None\<rparr>)"

definition release_step :: "planner_env \<Rightarrow> str \<Rightarrow> store \<Rightarrow> pending_dep \<Rightarrow> store" where
  "release_step env sid s dep =
     (let s1 = delete_pending_dep s sid (d_name dep)
      in if (case read_fork env (d_name dep) (d_path dep) of None \<Rightarrow> False | Some d \<Rightarrow> fd_gate d)
         then set_active_gate s1 sid (d_name dep) else s1)"

definition release_due ::
    "planner_env \<Rightarrow> store \<Rightarrow> session_row \<Rightarrow> store \<times> (str \<times> wake_fork list) option" where
  "release_due env s se =
     (let sid = s_session_id se;
          released = filter (releasable s sid) (list_pending_deps s sid)
      in if released = [] then (s, None)
         else (let due = map (due_of_dep env se) released;
                   s' = foldl (release_step env sid) s released;
                   conv = conversation_id se; root = s_project_root se
               in (s', Some (build_release_payload sid conv root due, build_wake_forks sid conv root due))))"

section \<open>The batch of a closing session\<close>

definition collect_roster_defs :: "planner_env \<Rightarrow> store \<Rightarrow> str \<Rightarrow> store \<times> fork_def list" where
  "collect_roster_defs env s sid =
     (let s' = refresh_roster env s sid
      in (s', List.map_filter (\<lambda>e. read_fork env (ro_name e) (ro_path e)) (roster s' sid)))"

definition final_eff :: "selected_fork list \<Rightarrow> int list" where
  "final_eff selected =
     (let eff = eff_of selected; m = foldl min (hd eff) (tl eff)
      in map (\<lambda>i. if sf_gate (selected ! i) then i64_sat_sub m 1 else eff ! i) [0..<length selected])"

text \<open>One round of the emission loop: the first of the lowest priority among the forks that are not
  done and whose predecessors are.\<close>

definition ready :: "nat list list \<Rightarrow> bool list \<Rightarrow> nat \<Rightarrow> bool" where
  "ready deps dn i \<longleftrightarrow> \<not> done_at dn i \<and> \<not> list_ex (\<lambda>j. \<not> done_at dn j) (deps ! i)"

definition pick_step :: "int list \<Rightarrow> nat list list \<Rightarrow> bool list \<Rightarrow> nat option \<Rightarrow> nat \<Rightarrow> nat option" where
  "pick_step eff deps dn pk i =
     (if \<not> ready deps dn i then pk
      else case pk of None \<Rightarrow> Some i | Some p \<Rightarrow> if eff ! i < eff ! p then Some i else Some p)"

definition pick :: "int list \<Rightarrow> nat list list \<Rightarrow> bool list \<Rightarrow> nat option" where
  "pick eff deps dn = foldl (pick_step eff deps dn) None [0..<length deps]"

fun emit_loop :: "nat \<Rightarrow> int list \<Rightarrow> nat list list \<Rightarrow> bool list \<Rightarrow> nat list" where
  "emit_loop 0 eff deps dn = []"
| "emit_loop (Suc k) eff deps dn = (case pick eff deps dn of
     None \<Rightarrow> [] | Some i \<Rightarrow> i # emit_loop k eff deps (dn[i := True]))"

definition emission :: "selected_fork list \<Rightarrow> nat list" where
  "emission selected = (let n = length selected
     in emit_loop n (final_eff selected) (resolve_deps (map to_selected selected)) (replicate n False))"

definition due_at_close :: "planner_env \<Rightarrow> session_row \<Rightarrow> selected_fork list \<Rightarrow> nat \<Rightarrow> due_fork" where
  "due_at_close env se selected i =
     (let sel = selected ! i
      in (due_of_selected env se sel)\<lparr>du_trigger := sf_trigger sel @ '' (at close)'',
            du_after := report_preds selected i, du_chain := False, du_detail := None\<rparr>)"

definition build_final_runs :: "planner_env \<Rightarrow> store \<Rightarrow> session_row \<Rightarrow> store \<times> wake_fork list" where
  "build_final_runs env s0 se =
     (let sid = s_session_id se
      in case try_claim_final_flush s0 sid (pe_now env) of
        (s1, False) \<Rightarrow> (s1, [])
      | (s1, True) \<Rightarrow>
         (let (s2, defs) = collect_roster_defs env s1 sid;
              moments = map MIdle (idle_deadlines defs (default_idle_deadline_secs (pe_cfg env)));
              (s3, sel) = select_forks env s2 se moments HoldSkip;
              selected = filter (\<lambda>x. is_idle_trigger (sf_trigger x)) sel
          in if selected = [] then (s3, [])
             else (let s4 = foldl (stamp_selected env sid) s3 selected;
                       conv = conversation_id se; root = s_project_root se
                   in (s4, map (\<lambda>i. hd (build_wake_forks sid conv root [due_at_close env se selected i]))
                              (emission selected)))))"

end
