(* ===== verification/Planner_Laws.thy ===== *)
theory Planner_Laws
  imports Planner
begin

text \<open>
  What the planner promises: selection respects its guards, a pause fires an idle fork once, a wake
  accounts for every fork and never deadlocks on its ordering, releases are exact, and a closing
  session gets one complete batch in order. Stamps and wakes are shown to be runs of store
  operations, so the contracts interpreted in \<open>Store_Laws\<close> apply.
\<close>

section \<open>What the planner does to the store\<close>

text \<open>Stamping, waking and releasing are runs of store operations, so the contracts of
  \<open>Store_Laws\<close> apply to them.\<close>

definition stamp_ops :: "planner_env \<Rightarrow> str \<Rightarrow> selected_fork \<Rightarrow> store_op list" where
  "stamp_ops env sid sel =
     [TouchForkRan sid (sf_name sel) (pe_now env),
      RecordIssuedRun sid (sf_name sel) (sf_trigger sel)
        (if sf_tags sel \<noteq> [] then Some (join_with '','' (sf_tags sel)) else None) (pe_now env)]
     @ (case sf_latch_key sel of None \<Rightarrow> [] | Some key \<Rightarrow> [TryLatchFire sid (sf_name sel) key (pe_now env)])"

lemma stamp_selected_run: "stamp_selected env sid s sel = store_run s (stamp_ops env sid sel)"
  by (simp add: stamp_selected_def stamp_ops_def Let_def split: option.splits)

definition wake_ops :: "planner_env \<Rightarrow> str \<Rightarrow> selected_fork list \<Rightarrow> nat \<Rightarrow> store_op list" where
  "wake_ops env sid selected i =
     (let sel = selected ! i; gate = gate_names selected i
      in stamp_ops env sid sel
         @ (case sf_consumes sel of None \<Rightarrow> [] | Some (kind, key) \<Rightarrow> [ClearPendingTrigger sid kind key])
         @ (if sf_gate sel then [SetActiveGate sid (sf_name sel)] else [])
         @ (if gate = [] then [] else [InsertPendingDep sid
              \<lparr>d_name = sf_name sel, d_path = sf_path sel, d_label = sf_trigger sel,
               d_overlap = sf_overlap sel, d_preds = gate, d_report_preds = report_preds selected i,
               d_created_at = pe_now env\<rparr>]))"

lemma wake_step_store:
  "wa_store (wake_step env se selected acc i) = store_run (wa_store acc) (wake_ops env (s_session_id se) selected i)"
  by (simp add: wake_step_def wake_ops_def Let_def stamp_selected_run split: option.splits prod.splits)

lemma wake_fold_store:
  "wa_store (foldl (wake_step env se selected) acc is)
     = store_run (wa_store acc) (concat (map (wake_ops env (s_session_id se) selected) is))"
  by (induction "is" arbitrary: acc) (simp_all add: wake_step_store)

lemma build_wake_store:
  "fst (build_wake env s se selected)
     = store_run s (concat (map (wake_ops env (s_session_id se) selected) [0..<length selected]))"
  by (simp add: build_wake_def Let_def wake_fold_store)

lemma wake_step_lists:
  "wa_roots (wake_step env se selected acc i)
     = wa_roots acc @ (if gate_names selected i = [] then [due_of_selected env se (selected ! i)] else [])"
  "wa_held (wake_step env se selected acc i)
     = wa_held acc @ (if gate_names selected i = [] then []
         else [\<lparr>h_name = sf_name (selected ! i), h_after = gate_names selected i\<rparr>])"
  by (simp_all add: wake_step_def Let_def)

lemma wake_fold_roots:
  "wa_roots (foldl (wake_step env se selected) acc is)
     = wa_roots acc @ map (\<lambda>i. due_of_selected env se (selected ! i)) (filter (\<lambda>i. gate_names selected i = []) is)"
  by (induction "is" arbitrary: acc) (simp_all add: wake_step_lists)

lemma tally_append: "tally step e s (xs @ ys) = tally step e s xs + tally step e (foldl step s xs) ys"
  by (induction xs arbitrary: s) auto

lemma tally_zero: "(\<And>s op. op \<in> set ops \<Longrightarrow> \<not> e s op) \<Longrightarrow> tally step e s ops = 0"
  by (induction ops arbitrary: s) auto

lemma no_release_in_wake: "op \<in> set (wake_ops env sid selected i) \<Longrightarrow> \<not> latch_released a b c s op"
  by (auto simp: wake_ops_def stamp_ops_def latch_released_def Let_def split: option.splits if_splits)

lemma latched_after_stamp:
  "sf_latch_key sel = Some key \<Longrightarrow> is_latched (store_run s (stamp_ops env sid sel)) sid (sf_name sel) key"
  by (simp add: stamp_ops_def try_latch_fire_holds)

lemma latched_after_wake:
  assumes "i < length selected" "sf_latch_key (selected ! i) = Some key"
  shows "is_latched (fst (build_wake env s se selected)) (s_session_id se) (sf_name (selected ! i)) key"
proof -
  let ?sid = "s_session_id se" and ?n = "length selected"
  let ?W = "\<lambda>is. concat (map (wake_ops env ?sid selected) is)"
  have "[0..<?n] = [0..<i] @ i # [Suc i..<?n]"
    using upt_conv_Cons[OF assms(1)] upt_add_eq_append[of 0 i "?n - i"] assms(1) by simp
  then have ops: "?W [0..<?n] = (?W [0..<i] @ stamp_ops env ?sid (selected ! i))
      @ (drop (length (stamp_ops env ?sid (selected ! i))) (wake_ops env ?sid selected i) @ ?W [Suc i..<?n])"
    by (simp add: wake_ops_def Let_def)
  let ?s1 = "store_run s (?W [0..<i] @ stamp_ops env ?sid (selected ! i))"
  have "is_latched ?s1 ?sid (sf_name (selected ! i)) key"
    using latched_after_stamp[OF assms(2)] by simp
  let ?rest = "drop (length (stamp_ops env ?sid (selected ! i))) (wake_ops env ?sid selected i) @ ?W [Suc i..<?n]"
  have "\<exists>k. op \<in> set (wake_ops env ?sid selected k)" if "op \<in> set ?rest" for op
    using that by (auto dest: in_set_dropD)
  then have "tally store_step (latch_released ?sid (sf_name (selected ! i)) key) ?s1 ?rest = 0"
    using no_release_in_wake by (intro tally_zero) blast
  with \<open>is_latched ?s1 _ _ _\<close> have "is_latched (store_run ?s1 ?rest) ?sid (sf_name (selected ! i)) key"
    by (rule latch.holds_on[OF TrueI])
  then show ?thesis unfolding build_wake_store ops by simp
qed

section \<open>What selection guarantees\<close>

lemma select_one_Some:
  assumes "select_one env s se moments entry = Some sf"
  shows "\<exists>d t. read_fork env (ro_name entry) (ro_path entry) = Some d
     \<and> tags_allowed (fd_tags d) (coalesce (s_enable_tags se) (enable_tags (pe_cfg env)))
         (coalesce (s_disable_tags se) (disable_tags (pe_cfg env)))
     \<and> match_moments d moments (default_idle_deadline_secs (pe_cfg env)) (ro_ran_at entry) (s_created_at se) = Some t
     \<and> \<not> throttled d (ro_ran_at entry) (pe_now env)
     \<and> \<not> tag_throttled (pe_cfg env) s (s_project_root se) d (pe_now env)
     \<and> \<not> latched s (s_session_id se) (ro_name entry) (latch_key_for t (s_pause_epoch se))
     \<and> \<not> overlapping env s (s_session_id se) (ro_name entry) d
     \<and> \<not> runaway env s (s_session_id se) (ro_name entry) t
     \<and> sf_name sf = ro_name entry \<and> sf_trigger sf = label t \<and> sf_gate sf = fd_gate d \<and> sf_overlap sf = fd_overlap d
     \<and> sf_latch_key sf = latch_key_for t (s_pause_epoch se)
     \<and> sf_background_hold sf = fd_background_hold d \<and> sf_after sf = fd_after d \<and> sf_priority sf = fd_priority d"
  using assms
  by (auto simp: select_one_def Let_def split: option.splits if_splits prod.splits)

lemma is_idle_label: "is_supported t \<Longrightarrow> is_idle_trigger (label t) \<longleftrightarrow> (\<exists>a. t = Idle a)"
  by (cases t rule: label.cases) (auto simp: is_idle_trigger_def starts_with_iff)

lemma refresh_roster_fires: "fork_fires (refresh_roster env s sid) = fork_fires s"
proof -
  have "fork_fires (foldl (\<lambda>s e. fst (queue_fork s sid (fst e) (snd e) t)) s es) = fork_fires s" for t es
    by (induction es arbitrary: s) (simp_all add: queue_fork_def split_beta)
  then show ?thesis by (simp add: refresh_roster_def)
qed

lemma clear_active_gate_fires: "fork_fires (clear_active_gate s sid) = fork_fires s"
  by (simp add: clear_active_gate_def upd_session_def)

lemma select_forks_subset:
  assumes "sf \<in> set (snd (select_forks env s se moments hold))"
  shows "\<exists>entry\<in>set (roster (refresh_roster env s (s_session_id se)) (s_session_id se)).
     select_one env (refresh_roster env s (s_session_id se)) se moments entry = Some sf"
  using assms
  by (auto simp: select_forks_def Let_def apply_gate_filter_def apply_background_hold_filter_def set_map_filter
      split: if_splits option.splits prod.splits)

section \<open>A sample session\<close>

definition sample_env :: "int \<Rightarrow> planner_env" where
  "sample_env now = \<lparr>pe_fs = \<lparr>fs_exists = (\<lambda>_. False), fs_canonicalize = (\<lambda>_. None), fs_is_file = (\<lambda>_. False),
       fs_is_dir = (\<lambda>_. False), fs_len = (\<lambda>_. 0),
       fs_read = (\<lambda>p. if p = ''/f.md'' then Some sample_file else None), fs_env = (\<lambda>_. None)\<rparr>,
     pe_yaml = sample_yaml, pe_discovered = [(''me'', ''/f.md'')], pe_cfg = config_default, pe_now = now\<rparr>"

definition sample_store :: store where
  "sample_store = store_run store_empty [UpsertSession (sample_args ''/p'') 10]"

definition sample_session :: session_row where
  "sample_session = row_to_session (new_session (sample_args ''/p'') 10)"

definition sample_sf :: selected_fork where
  "sample_sf = \<lparr>sf_name = ''me'', sf_path = ''/f.md'', sf_trigger = ''idle'', sf_overlap = False, sf_after = [],
     sf_priority = 0, sf_tags = [''ci'', ''review''], sf_chain = False, sf_gate = False,
     sf_background_hold = None, sf_model = Unset, sf_mode = Unset, sf_guard = None,
     sf_latch_key = Some (idle_pause_label 0), sf_detail = None, sf_consumes = None\<rparr>"

lemma sample_read: "read_fork (sample_env now) ''me'' ''/f.md'' = Some (fork_def_default\<lparr>fd_tags := [''ci'', ''review'']\<rparr>)"
proof -
  have "parse_fork_file sample_yaml None ''me'' sample_file = ForkOk sample_parsed" by code_simp
  then show ?thesis by (simp add: read_fork_def sample_env_def home_dir_def sample_parsed_def)
qed

lemma sample_selects:
  "snd (select_forks (sample_env now) sample_store sample_session [MIdle 600] HoldApply) = [sample_sf]"
proof -
  let ?env = "sample_env now" and ?e = "\<lparr>ro_session = ''s'', ro_name = ''me'', ro_path = ''/f.md'', ro_queued_at = now, ro_ran_at = None\<rparr>"
  let ?s1 = "refresh_roster ?env sample_store ''s''"
  have st: "sample_store = store_empty\<lparr>sessions := [new_session (sample_args ''/p'') 10]\<rparr>"
    by (simp add: sample_store_def upsert_session_def insert_or_update_def store_empty_def Let_def sample_args_def)
  have s1: "?s1 = store_empty\<lparr>sessions := [new_session (sample_args ''/p'') 10], fork_roster := [?e]\<rparr>"
    by (simp add: st refresh_roster_def sample_env_def queue_fork_def insert_or_ignore_def store_empty_def)
  have se: "s_session_id sample_session = ''s''" "s_pause_epoch sample_session = 0" "s_created_at sample_session = 10"
    "s_enable_tags sample_session = None" "s_disable_tags sample_session = None"
    by (simp_all add: sample_session_def row_to_session_def new_session_def sample_args_def)
  have cfg: "pe_cfg ?env = config_default" by (simp add: sample_env_def)
  have one: "select_one ?env ?s1 sample_session [MIdle 600] ?e = Some sample_sf"
    using sample_read[of now]
    by (simp add: select_one_def se cfg s1 fork_def_default_def default_run_on_def tags_allowed_def coalesce_def
        config_default_def latch_key_for_def carried_def throttled_def tag_throttled_def latched_def is_latched_def
        overlapping_def live_spawn_newer_than_def runaway_def count_runs_since_def count_where_def store_empty_def
        sample_sf_def int_width)
  have "roster ?s1 ''s'' = [?e]" by (simp add: s1 roster_def)
  moreover have "active_gate_of ?s1 ''s'' = None"
    by (simp add: active_gate_of_def get_session_def session_rec_of_def s1 new_session_def row_to_session_def sample_args_def)
  moreover have "\<not> pending_background ?s1 ''s'' config_default now"
    by (simp add: pending_background_def pending_bg_tasks_def count_where_def s1 store_empty_def)
  ultimately show ?thesis using one
    by (simp add: select_forks_def se Let_def List.map_filter_simps apply_gate_filter_def sample_sf_def
        apply_background_hold_filter_def cfg) (simp add: sample_env_def)
qed

section \<open>Properties\<close>

lemma effective_priorities_mono:
  assumes "i < length ss" "d \<in> set (resolve_deps ss ! i)"
  shows "effective_priorities ss (resolve_deps ss) ! d \<le> effective_priorities ss (resolve_deps ss) ! i"
proof -
  let ?eff = "effective_priorities ss (resolve_deps ss)"
  have "?eff ! i = foldl (\<lambda>m d. max m (?eff ! d)) (sel_priority (ss ! i)) (resolve_deps ss ! i)"
    using effective_priorities_eq[OF rd.acyclic_deps_axioms, of ss ss] assms(1) by simp
  then show ?thesis
    using foldl_max_ge[of "sel_priority (ss ! i)" "\<lambda>d. ?eff ! d" "resolve_deps ss ! i"] assms(2) by metis
qed

lemma refresh_roster_only: "\<exists>R. refresh_roster env s sid = s\<lparr>fork_roster := R\<rparr>"
proof -
  have "\<exists>R. foldl (\<lambda>s e. fst (queue_fork s sid (fst e) (snd e) t)) s es = s\<lparr>fork_roster := R\<rparr>" for t es
  proof (induction es arbitrary: s)
    case Nil
    show ?case by (rule exI[of _ "fork_roster s"]) simp
  next
    case (Cons e es)
    obtain R where "fst (queue_fork s sid (fst e) (snd e) t) = s\<lparr>fork_roster := R\<rparr>"
      by (auto simp: queue_fork_def split_beta)
    with Cons[of "s\<lparr>fork_roster := R\<rparr>"] show ?case by auto
  qed
  then show ?thesis by (simp add: refresh_roster_def)
qed

lemma roster_frame [simp]:
  "is_latched (s\<lparr>fork_roster := R\<rparr>) = is_latched s"
  "live_spawn_newer_than (s\<lparr>fork_roster := R\<rparr>) = live_spawn_newer_than s"
  "live_spawn_exists (s\<lparr>fork_roster := R\<rparr>) = live_spawn_exists s"
  "last_issued_at (s\<lparr>fork_roster := R\<rparr>) = last_issued_at s"
  "count_runs_since (s\<lparr>fork_roster := R\<rparr>) = count_runs_since s"
  "active_gate_of (s\<lparr>fork_roster := R\<rparr>) = active_gate_of s"
  "gate_alive env (s\<lparr>fork_roster := R\<rparr>) = gate_alive env s"
  "pending_background (s\<lparr>fork_roster := R\<rparr>) = pending_background s"
  by (simp_all add: fun_eq_iff is_latched_def live_spawn_newer_than_def live_spawn_exists_def last_issued_at_def
      count_runs_since_def active_gate_of_def get_session_def session_rec_of_def gate_alive_def
      pending_background_def pending_bg_tasks_def)

lemma is_every_label: "is_supported t \<Longrightarrow> starts_with (label t) ''every:'' \<longleftrightarrow> is_every t"
  by (cases t rule: label.cases) (auto simp: starts_with_iff)

lemma tags_frame [simp]: "last_run_for_tags (s\<lparr>fork_roster := R\<rparr>) = last_run_for_tags s"
  by (simp add: fun_eq_iff last_run_for_tags_def session_rec_of_def cong: option.case_cong)

lemma select_one_through:
  "select_one env s se moments entry = Some sf \<Longrightarrow> \<exists>d. read_fork env (sf_name sf) (ro_path entry) = Some d \<and> ro_name entry = sf_name sf
     \<and> tags_allowed (fd_tags d) (coalesce (s_enable_tags se) (enable_tags (pe_cfg env))) (coalesce (s_disable_tags se) (disable_tags (pe_cfg env)))
     \<and> \<not> throttled d (ro_ran_at entry) (pe_now env) \<and> \<not> tag_throttled (pe_cfg env) s (s_project_root se) d (pe_now env)"
  by (auto simp: select_one_def Let_def split: option.splits if_splits prod.splits)

lemma throttle_passed: "\<not> throttled d ran_at t \<Longrightarrow> fd_throttle_secs d = Some n \<Longrightarrow> ran_at = Some r0 \<Longrightarrow> as_i64 n \<le> max (i64_sub t r0) 0"
  by (auto simp: throttled_def within_def max_def)

lemma tag_throttle_passed:
  "\<not> tag_throttled cfg s root d t \<Longrightarrow> tag \<in> set (fd_tags d) \<Longrightarrow> map_of (tag_throttles cfg) tag = Some n
   \<Longrightarrow> last_run_for_tags s root [tag] = Some r0 \<Longrightarrow> as_i64 n \<le> max (i64_sub t r0) 0"
  by (cases "tag_throttles cfg = []") (force simp: tag_throttled_def list_ex_iff within_def)+

lemma let_through:
  assumes "entry \<in> E" "select_one env (s\<lparr>fork_roster := R\<rparr>) se moments entry = Some sf"
  shows "\<exists>entry d. entry \<in> E \<and> ro_name entry = sf_name sf \<and> read_fork env (sf_name sf) (ro_path entry) = Some d
      \<and> set (fd_tags d) \<inter> set (case s_disable_tags se of Some ts \<Rightarrow> ts | None \<Rightarrow> (case disable_tags (pe_cfg env) of Some ts \<Rightarrow> ts | None \<Rightarrow> [])) = {}
      \<and> ((case s_enable_tags se of Some ts \<Rightarrow> ts | None \<Rightarrow> (case enable_tags (pe_cfg env) of Some ts \<Rightarrow> ts | None \<Rightarrow> [])) \<noteq> []
          \<longrightarrow> set (fd_tags d) \<inter> set (case s_enable_tags se of Some ts \<Rightarrow> ts | None \<Rightarrow> (case enable_tags (pe_cfg env) of Some ts \<Rightarrow> ts | None \<Rightarrow> [])) \<noteq> {})
      \<and> (\<forall>n r0. fd_throttle_secs d = Some n \<and> ro_ran_at entry = Some r0 \<longrightarrow> as_i64 n \<le> max (i64_sub (pe_now env) r0) 0)
      \<and> (\<forall>tag n r0. tag \<in> set (fd_tags d) \<and> map_of (tag_throttles (pe_cfg env)) tag = Some n
            \<and> last_run_for_tags s (s_project_root se) [tag] = Some r0 \<longrightarrow> as_i64 n \<le> max (i64_sub (pe_now env) r0) 0)"
proof -
  from select_one_through[OF assms(2)] obtain d where d: "read_fork env (sf_name sf) (ro_path entry) = Some d" "ro_name entry = sf_name sf"
    "tags_allowed (fd_tags d) (coalesce (s_enable_tags se) (enable_tags (pe_cfg env))) (coalesce (s_disable_tags se) (disable_tags (pe_cfg env)))"
    "\<not> throttled d (ro_ran_at entry) (pe_now env)" "\<not> tag_throttled (pe_cfg env) (s\<lparr>fork_roster := R\<rparr>) (s_project_root se) d (pe_now env)"
    by blast
  show ?thesis
  proof (intro exI conjI allI impI; (elim conjE)?)
    show "entry \<in> E" "ro_name entry = sf_name sf" "read_fork env (sf_name sf) (ro_path entry) = Some d" by (fact assms(1) d(1,2))+
    show "set (fd_tags d) \<inter> set (case s_disable_tags se of Some ts \<Rightarrow> ts | None \<Rightarrow> (case disable_tags (pe_cfg env) of Some ts \<Rightarrow> ts | None \<Rightarrow> [])) = {}"
      using d(3) by (auto simp: tags_allowed_iff coalesce_def split: option.splits)
    show "set (fd_tags d) \<inter> set (case s_enable_tags se of Some ts \<Rightarrow> ts | None \<Rightarrow> (case enable_tags (pe_cfg env) of Some ts \<Rightarrow> ts | None \<Rightarrow> [])) \<noteq> {}"
      if "(case s_enable_tags se of Some ts \<Rightarrow> ts | None \<Rightarrow> (case enable_tags (pe_cfg env) of Some ts \<Rightarrow> ts | None \<Rightarrow> [])) \<noteq> []"
      using d(3) that by (auto simp: tags_allowed_iff coalesce_def split: option.splits if_splits)
    show "as_i64 n \<le> max (i64_sub (pe_now env) r0) 0" if "fd_throttle_secs d = Some n" "ro_ran_at entry = Some r0" for n r0
      by (rule throttle_passed[OF d(4) that])
    show "as_i64 n \<le> max (i64_sub (pe_now env) r0) 0" if "tag \<in> set (fd_tags d)" "map_of (tag_throttles (pe_cfg env)) tag = Some n"
        "last_run_for_tags s (s_project_root se) [tag] = Some r0" for tag n r0
      using that by (intro tag_throttle_passed[OF d(5)]) simp_all
  qed
qed

text \<open>C7. Nothing is selected that must not run: a selected fork is one the session or the configuration
  lets through by its tags, its own throttle and the throttles of its tags have passed, it is not latched for its
  trigger's scope, has no live run younger than the age floor if it forbids overlap, and is below the runaway
  limit unless it rides an \<open>every:\<close> trigger. On a live selection an idle fork is moreover either a
  gate itself or no gate is selected or alive, and it waits for no background work while some is
  pending.\<close>

theorem selection_respects_guards:
  assumes "sf \<in> set (snd (select_forks env s se moments hold))"
  defines "sid \<equiv> s_session_id se" and "cfg \<equiv> pe_cfg env"
  defines "enabled \<equiv> (case s_enable_tags se of Some ts \<Rightarrow> ts | None \<Rightarrow> (case enable_tags cfg of Some ts \<Rightarrow> ts | None \<Rightarrow> []))"
    and "disabled \<equiv> (case s_disable_tags se of Some ts \<Rightarrow> ts | None \<Rightarrow> (case disable_tags cfg of Some ts \<Rightarrow> ts | None \<Rightarrow> []))"
  shows "(\<exists>entry d. entry \<in> set (roster (refresh_roster env s sid) sid) \<and> ro_name entry = sf_name sf
      \<and> read_fork env (sf_name sf) (ro_path entry) = Some d
      \<and> set (fd_tags d) \<inter> set disabled = {} \<and> (enabled \<noteq> [] \<longrightarrow> set (fd_tags d) \<inter> set enabled \<noteq> {})
      \<and> (\<forall>n r0. fd_throttle_secs d = Some n \<and> ro_ran_at entry = Some r0 \<longrightarrow> as_i64 n \<le> max (i64_sub (pe_now env) r0) 0)
      \<and> (\<forall>tag n r0. tag \<in> set (fd_tags d) \<and> map_of (tag_throttles cfg) tag = Some n
            \<and> last_run_for_tags s (s_project_root se) [tag] = Some r0 \<longrightarrow> as_i64 n \<le> max (i64_sub (pe_now env) r0) 0))
    \<and> (\<forall>key. sf_latch_key sf = Some key \<longrightarrow> \<not> is_latched s sid (sf_name sf) key)
    \<and> (\<not> sf_overlap sf \<longrightarrow> \<not> live_spawn_newer_than s sid (sf_name sf)
          (i64_sub (pe_now env) (overlap_spawn_max_age_secs (pe_fs env))))
    \<and> (runaway_limit cfg > 0 \<and> \<not> starts_with (sf_trigger sf) ''every:'' \<longrightarrow>
          count_runs_since s sid (sf_name sf) (i64_sub (pe_now env) (runaway_window_secs (pe_fs env)))
            < as_i64 (runaway_limit cfg))
    \<and> (hold = HoldApply \<and> is_idle_trigger (sf_trigger sf) \<and> \<not> sf_gate sf \<longrightarrow>
          (\<forall>x\<in>set (snd (select_forks env s se moments hold)). \<not> sf_gate x)
          \<and> (\<forall>g. active_gate_of s sid = Some g \<longrightarrow> \<not> gate_alive env s sid g))
    \<and> (hold = HoldApply \<and> is_idle_trigger (sf_trigger sf) \<and> pending_background s sid cfg (pe_now env) \<longrightarrow>
          sf_background_hold sf = Some False \<or> (sf_background_hold sf = None \<and> \<not> background_hold cfg))"
proof -
  obtain R where R: "refresh_roster env s sid = s\<lparr>fork_roster := R\<rparr>" using refresh_roster_only by blast
  obtain entry where en: "entry \<in> set (roster (refresh_roster env s sid) sid)" "select_one env (s\<lparr>fork_roster := R\<rparr>) se moments entry = Some sf"
    using select_forks_subset[OF assms(1)] R by (auto simp: sid_def)
  from select_one_Some[OF en(2)] obtain d t where o:
    "match_moments d moments (default_idle_deadline_secs (pe_cfg env)) (ro_ran_at entry) (s_created_at se) = Some t"
    "\<not> latched s sid (sf_name sf) (sf_latch_key sf)" "\<not> overlapping env (s\<lparr>fork_roster := R\<rparr>) sid (sf_name sf) d"
    "\<not> runaway env (s\<lparr>fork_roster := R\<rparr>) sid (sf_name sf) t" "sf_trigger sf = label t" "sf_overlap sf = fd_overlap d"
    by (auto simp: latched_def sid_def split: option.splits)
  note z = let_through[OF en, folded cfg_def, folded enabled_def disabled_def]
  have sup: "is_supported t" using match_moments_SomeD[OF o(1)] trigger_hit_supported by blast
  have a: "\<forall>key. sf_latch_key sf = Some key \<longrightarrow> \<not> is_latched s sid (sf_name sf) key"
    using o(2) by (auto simp: latched_def)
  have b: "\<not> sf_overlap sf \<longrightarrow> \<not> live_spawn_newer_than s sid (sf_name sf)
          (i64_sub (pe_now env) (overlap_spawn_max_age_secs (pe_fs env)))"
    using o(3,6) by (auto simp: overlapping_def)
  have c: "runaway_limit cfg > 0 \<and> \<not> starts_with (sf_trigger sf) ''every:'' \<longrightarrow>
          count_runs_since s sid (sf_name sf) (i64_sub (pe_now env) (runaway_window_secs (pe_fs env)))
            < as_i64 (runaway_limit cfg)"
    using o(4,5) is_every_label[OF sup] by (auto simp: runaway_def cfg_def)
  let ?all = "List.map_filter (select_one env (s\<lparr>fork_roster := R\<rparr>) se moments) (roster (s\<lparr>fork_roster := R\<rparr>) sid)"
  obtain s' sel where f: "apply_gate_filter env (s\<lparr>fork_roster := R\<rparr>) sid ?all = (s', sel)" by fastforce
  have live: "snd (select_forks env s se moments HoldApply) = apply_background_hold_filter env s' sid sel"
    using R f by (simp add: select_forks_def Let_def sid_def)
  have bg: "pending_background s' = pending_background s"
    using f by (auto simp: apply_gate_filter_def clear_active_gate_def upd_session_def pending_background_def
        pending_bg_tasks_def fun_eq_iff split: if_splits option.splits)
  have sub: "set (apply_background_hold_filter env s' sid sel) \<subseteq> set sel" "set sel \<subseteq> set ?all"
    using f by (auto simp: apply_background_hold_filter_def apply_gate_filter_def split: if_splits option.splits)
  have d: "(\<forall>x\<in>set (snd (select_forks env s se moments hold)). \<not> sf_gate x) \<and> (\<forall>g. active_gate_of s sid = Some g \<longrightarrow> \<not> gate_alive env s sid g)"
    if h: "hold = HoldApply" "is_idle_trigger (sf_trigger sf)" "\<not> sf_gate sf"
  proof -
    have "sf \<in> set sel" using assms(1) live sub(1) h(1) by auto
    with f h(2,3) have "(\<forall>x\<in>set ?all. \<not> sf_gate x) \<and> (\<forall>g. active_gate_of s sid = Some g \<longrightarrow> \<not> gate_alive env s sid g)"
      by (auto simp: apply_gate_filter_def gate_passes_def list_ex_iff split: if_splits option.splits)
    with live sub h(1) show ?thesis by auto
  qed
  have e: "sf_background_hold sf = Some False \<or> (sf_background_hold sf = None \<and> \<not> background_hold cfg)"
    if h: "hold = HoldApply" "is_idle_trigger (sf_trigger sf)" "pending_background s sid cfg (pe_now env)"
  proof -
    have "sf \<in> set (apply_background_hold_filter env s' sid sel)" using assms(1) live h(1) by simp
    with h(2,3) show ?thesis
      by (auto simp: apply_background_hold_filter_def bg bg_passes_def cfg_def split: if_splits option.splits)
  qed
  show ?thesis by (intro conjI z) (use a b c d e in simp_all)
qed

theorem selection_respects_guards_witness:
  "\<not> is_latched sample_store ''s'' ''me'' (idle_pause_label 0)
   \<and> count_runs_since sample_store ''s'' ''me'' (i64_sub 650 3600) < 30"
proof -
  have "sample_sf \<in> set (snd (select_forks (sample_env 650) sample_store sample_session [MIdle 600] HoldApply))"
    by (simp add: sample_selects)
  from selection_respects_guards[OF this, THEN conjunct2] show ?thesis
    by (simp add: sample_sf_def sample_session_def row_to_session_def new_session_def sample_args_def sample_env_def
        config_default_def starts_with_def runaway_window_secs_def env_secs_def as_i64_id)
qed

text \<open>C8. A pause runs each idle fork at most once: once a wake carrying a fork on its idle latch has
  been issued, no later selection of that session in the same pause - whatever happened in
  between, short of a close or a re-arming of that very latch - selects the fork on an idle
  trigger again, whichever moments it is evaluated for.\<close>

theorem idle_fork_once_per_pause:
  assumes "i < length selected" "sf_latch_key (selected ! i) = Some (idle_pause_label e)"
    and "s_session_id se = sid" "s_session_id se' = sid" "s_pause_epoch se' = e"
    and "tally store_step (latch_released sid (sf_name (selected ! i)) (idle_pause_label e))
           (fst (build_wake env s se selected)) ops = 0"
  shows "filter (\<lambda>sf. sf_name sf = sf_name (selected ! i) \<and> is_idle_trigger (sf_trigger sf))
     (snd (select_forks env' (store_run (fst (build_wake env s se selected)) ops) se' moments hold)) = []"
proof -
  let ?s1 = "store_run (fst (build_wake env s se selected)) ops"
  have "is_latched (fst (build_wake env s se selected)) sid (sf_name (selected ! i)) (idle_pause_label e)"
    using latched_after_wake[OF assms(1,2), of env s se] assms(3) by simp
  from latch.holds_on[OF TrueI this assms(6)]
  have l: "is_latched ?s1 sid (sf_name (selected ! i)) (idle_pause_label e)" .
  have False if sf: "sf \<in> set (snd (select_forks env' ?s1 se' moments hold))"
    and n: "sf_name sf = sf_name (selected ! i)" and idle: "is_idle_trigger (sf_trigger sf)" for sf
  proof -
    obtain R where R: "refresh_roster env' ?s1 sid = ?s1\<lparr>fork_roster := R\<rparr>" using refresh_roster_only by blast
    obtain entry where "select_one env' (?s1\<lparr>fork_roster := R\<rparr>) se' moments entry = Some sf"
      using select_forks_subset[OF sf] R assms(4) by auto
    from select_one_Some[OF this] obtain d t where o:
      "match_moments d moments (default_idle_deadline_secs (pe_cfg env')) (ro_ran_at entry) (s_created_at se') = Some t"
      "\<not> latched (?s1\<lparr>fork_roster := R\<rparr>) sid (sf_name sf) (latch_key_for t e)" "sf_trigger sf = label t"
      using assms(4,5) by auto
    have "is_supported t" using match_moments_SomeD[OF o(1)] trigger_hit_supported by blast
    with idle o(3) have "latch_key_for t e = Some (idle_pause_label e)"
      by (auto simp: is_idle_label latch_key_for_def)
    with o(2) l n show False by (simp add: latched_def)
  qed
  then show ?thesis by (auto simp: filter_empty_conv)
qed

theorem idle_fork_once_per_pause_witness:
  "filter (\<lambda>sf. sf_name sf = ''me'' \<and> is_idle_trigger (sf_trigger sf))
     (snd (select_forks (sample_env 2000) (store_run (fst (build_wake (sample_env 650) sample_store sample_session [sample_sf]))
        [SetLastActivity ''s'' 1900]) sample_session [MIdle 600, MIdle 1200] HoldApply)) = []"
proof -
  have "s_session_id sample_session = ''s''" "s_pause_epoch sample_session = 0"
    by (simp_all add: sample_session_def row_to_session_def new_session_def sample_args_def)
  then show ?thesis
    using idle_fork_once_per_pause[of 0 "[sample_sf]" 0 sample_session "''s''" sample_session "sample_env 650"
        sample_store "[SetLastActivity ''s'' 1900]" "sample_env 2000" "[MIdle 600, MIdle 1200]" HoldApply]
    by (simp add: latch_released_def sample_sf_def)
qed

section \<open>Waves\<close>

lemma set_cond_push:
  "set (foldl (\<lambda>g j. if P j then push_new g (f j) else g) rp js) = set rp \<union> f ` {j \<in> set js. P j}"
  by (induction js arbitrary: rp) (auto simp: push_new_def)

lemma set_gate_names:
  "set (gate_names selected i) \<subseteq> set (report_preds selected i)
     \<union> {sf_name (selected ! j) | j. j < length selected \<and> eff_of selected ! j < eff_of selected ! i}"
proof (cases "eff_of selected ! i > foldl min (hd (eff_of selected)) (tl (eff_of selected))")
  case True
  have "set (gate_names selected i) = set (report_preds selected i)
      \<union> (\<lambda>j. sf_name (selected ! j)) ` {j \<in> set [0..<length selected]. j \<noteq> i \<and> eff_of selected ! j < eff_of selected ! i}"
    unfolding gate_names_def Let_def using True by (simp only: if_True set_cond_push)
  then show ?thesis by auto
qed (simp add: gate_names_def Let_def)

text \<open>C9. A wake never deadlocks on its own ordering: whatever set of its forks has finished, as long
  as one of them has not, some unfinished fork waits for finished ones only - so releasing by
  completion drains the whole batch, although \<open>after\<close> edges and priority waves are combined.\<close>

theorem wake_never_deadlocks:
  assumes "i < length selected" "sf_name (selected ! i) \<notin> D"
  shows "\<exists>j<length selected. sf_name (selected ! j) \<notin> D \<and> set (gate_names selected j) \<subseteq> D"
proof -
  let ?ss = "map to_selected selected"
  let ?deps = "resolve_deps ?ss" and ?eff = "eff_of selected"
  let ?E = "(\<lambda>k. ?eff ! k) ` {k. k < length selected \<and> sf_name (selected ! k) \<notin> D}"
  define m where "m = Min ?E"
  have fin: "finite ?E" and ne: "?E \<noteq> {}" using assms by auto
  have "m \<in> ?E" unfolding m_def by (rule Min_in[OF fin ne])
  then obtain k where k: "k < length selected" "sf_name (selected ! k) \<notin> D" "?eff ! k = m" by auto
  have low: "sf_name (selected ! j) \<in> D" if j: "j < length selected" "?eff ! j < m" for j
  proof (rule ccontr)
    assume "sf_name (selected ! j) \<notin> D"
    then have "?eff ! j \<in> ?E" using j(1) by simp
    with Min_le[OF fin] j(2) show False unfolding m_def by fastforce
  qed
  let ?P = "\<lambda>j. sf_name (selected ! j) \<in> D \<or> ?eff ! j \<noteq> m"
  have k': "k < length ?deps" "\<not> ?P k" using k by simp_all
  obtain j where j0: "j < length ?deps" "\<not> ?P j" "\<forall>d\<in>set (?deps ! j). ?P d"
    using rd.exists_ready[of k ?ss ?P, OF k'] by blast
  then have j: "j < length selected" "sf_name (selected ! j) \<notin> D" "?eff ! j = m"
    by simp_all
  have "sf_name (selected ! d) \<in> D" if d: "d \<in> set (?deps ! j)" for d
  proof (cases "?eff ! d = m")
    case True
    then show ?thesis using j0(3) d by blast
  next
    case False
    have "d < length selected" using rd.dep_lt[of j ?ss d] d j(1) by simp
    moreover have "?eff ! d \<le> m"
      using effective_priorities_mono[of j ?ss d] d j(1,3) by (simp add: eff_of_def Let_def)
    ultimately show ?thesis using False low by simp
  qed
  then have "set (report_preds selected j) \<subseteq> D" by (auto simp: report_preds_def)
  with set_gate_names[of selected j] j(3) low have "set (gate_names selected j) \<subseteq> D" by auto
  with j show ?thesis by blast
qed

theorem wake_never_deadlocks_witness:
  "\<exists>j<2. sf_name ([sample_sf\<lparr>sf_name := ''b'', sf_after := [''me'']\<rparr>, sample_sf] ! j) \<notin> {''x''}
     \<and> set (gate_names [sample_sf\<lparr>sf_name := ''b'', sf_after := [''me'']\<rparr>, sample_sf] j) \<subseteq> {''x''}"
  using wake_never_deadlocks[of 0 "[sample_sf\<lparr>sf_name := ''b'', sf_after := [''me'']\<rparr>, sample_sf]" "{''x''}"]
  by (simp add: numeral_2_eq_2)

lemma dep_kept:
  assumes "r \<in> set (pending_deps s)" "is_dep sid name r"
    and "\<And>op. op \<in> set ops \<Longrightarrow> (case op of CloseSession _ _ _ \<Rightarrow> False | DeletePendingDep _ _ \<Rightarrow> False
           | ClearPendingDeps _ \<Rightarrow> False | InsertPendingDep a d \<Rightarrow> d_name d \<noteq> name | _ \<Rightarrow> True)"
  shows "r \<in> set (pending_deps (store_run s ops))"
  using assms
proof (induction ops arbitrary: s)
  case Nil
  then show ?case by simp
next
  case (Cons op ops)
  have "r \<in> set (pending_deps (store_step s op))"
    using Cons.prems(1,2) Cons.prems(3)[of op] unfolding deps_step
    by (cases op) (auto simp: insert_pending_dep_def insert_or_replace_def set_del_where is_dep_def)
  with Cons show ?case by simp
qed

lemma wake_ops_dep_ops:
  "op \<in> set (wake_ops env sid selected k) \<Longrightarrow> sf_name (selected ! k) \<noteq> name \<Longrightarrow>
   (case op of CloseSession _ _ _ \<Rightarrow> False | DeletePendingDep _ _ \<Rightarrow> False
      | ClearPendingDeps _ \<Rightarrow> False | InsertPendingDep a d \<Rightarrow> d_name d \<noteq> name | _ \<Rightarrow> True)"
  by (auto simp: wake_ops_def stamp_ops_def Let_def split: option.splits if_splits)

lemma inserted_dep:
  "\<exists>r\<in>set (pending_deps (insert_pending_dep s sid d)). is_dep sid (d_name d) r
     \<and> pd_preds r = join_with '','' (d_preds d) \<and> pd_report_preds r = join_with '','' (d_report_preds d)
     \<and> pd_created_at r = d_created_at d"
  by (simp add: insert_pending_dep_def insert_or_replace_def is_dep_def)

lemma wake_holds_row:
  assumes i: "i < length selected" "gate_names selected i \<noteq> []" and d: "distinct (map sf_name selected)"
  shows "\<exists>r\<in>set (pending_deps (fst (build_wake env s se selected))).
     is_dep (s_session_id se) (sf_name (selected ! i)) r \<and> pd_preds r = join_with '','' (gate_names selected i)
     \<and> pd_report_preds r = join_with '','' (report_preds selected i) \<and> pd_created_at r = pe_now env"
proof -
  let ?sid = "s_session_id se" and ?n = "length selected"
  let ?W = "\<lambda>is. concat (map (wake_ops env ?sid selected) is)"
  have ops: "?W [0..<?n] = (?W [0..<i] @ wake_ops env ?sid selected i) @ ?W [Suc i..<?n]"
    using upt_conv_Cons[OF i(1)] upt_add_eq_append[of 0 i "?n - i"] i(1) by simp
  let ?s1 = "store_run s (?W [0..<i] @ wake_ops env ?sid selected i)"
  have "\<exists>s0. ?s1 = insert_pending_dep s0 ?sid
      \<lparr>d_name = sf_name (selected ! i), d_path = sf_path (selected ! i), d_label = sf_trigger (selected ! i),
       d_overlap = sf_overlap (selected ! i), d_preds = gate_names selected i,
       d_report_preds = report_preds selected i, d_created_at = pe_now env\<rparr>"
    using i(2) by (simp add: wake_ops_def Let_def) blast
  then obtain s0 where s0: "?s1 = insert_pending_dep s0 ?sid
      \<lparr>d_name = sf_name (selected ! i), d_path = sf_path (selected ! i), d_label = sf_trigger (selected ! i),
       d_overlap = sf_overlap (selected ! i), d_preds = gate_names selected i,
       d_report_preds = report_preds selected i, d_created_at = pe_now env\<rparr>" by blast
  obtain r where r: "r \<in> set (pending_deps ?s1)" "is_dep ?sid (sf_name (selected ! i)) r"
      "pd_preds r = join_with '','' (gate_names selected i)"
      "pd_report_preds r = join_with '','' (report_preds selected i)" "pd_created_at r = pe_now env"
    unfolding s0 using inserted_dep by fastforce
  have "sf_name (selected ! k) \<noteq> sf_name (selected ! i)" if "k \<in> set [Suc i..<?n]" for k
    using that d i(1) nth_eq_iff_index_eq[OF d, of k i] by auto
  then have "r \<in> set (pending_deps (store_run ?s1 (?W [Suc i..<?n])))"
    using wake_ops_dep_ops by (intro dep_kept[OF r(1,2)]) (auto simp del: upt_Suc)
  then show ?thesis using r(2-) unfolding build_wake_store ops by (auto simp del: upt_Suc)
qed

text \<open>A wake accounts for every selected fork: the forks it tells the session to run now are
  exactly those that wait for nothing, in selection order, and there is at least one; each of the
  others is held in the store with all the names it waits for.\<close>

theorem build_wake_partition:
  assumes "selected \<noteq> []" "distinct (map sf_name selected)"
  shows "\<exists>payload forks. snd (build_wake env s se selected) = Some (payload, forks)
    \<and> map wf_name forks = map (\<lambda>i. sf_name (selected ! i)) (filter (\<lambda>i. gate_names selected i = []) [0..<length selected])
    \<and> (\<forall>i<length selected. gate_names selected i \<noteq> [] \<longrightarrow>
        (\<exists>r\<in>set (pending_deps (fst (build_wake env s se selected))).
           is_dep (s_session_id se) (sf_name (selected ! i)) r \<and> pd_preds r = join_with '','' (gate_names selected i)
           \<and> pd_report_preds r = join_with '','' (report_preds selected i)))"
  using assms wake_holds_row[OF _ _ assms(2), of _ env s se]
  by (fastforce simp: build_wake_def Let_def wake_fold_roots build_wake_forks_def due_of_selected_def o_def)

section \<open>Releases\<close>

lemma release_fold_deps:
  "pending_deps (foldl (release_step env sid) s ds)
     = filter (\<lambda>r. \<not> (pd_session r = sid \<and> pd_name r \<in> d_name ` set ds)) (pending_deps s)"
proof (induction ds arbitrary: s)
  case Nil
  then show ?case by simp
next
  case (Cons d ds)
  have "pending_deps (release_step env sid s d) = filter (\<lambda>r. \<not> is_dep sid (d_name d) r) (pending_deps s)"
    by (simp add: release_step_def Let_def delete_pending_dep_def set_active_gate_def upd_session_def del_where_def
        split: option.splits)
  with Cons show ?case by (auto simp: is_dep_def intro: filter_cong)
qed

lemma list_pending_names:
  assumes "store_ok s"
  shows "inj_on d_name (set (list_pending_deps s sid))"
proof -
  have "inj_on (\<lambda>r. (pd_session r, pd_name r)) (set (pending_deps s))"
    using assms by (simp add: store_ok_def distinct_map)
  then have u: "x = y" if "x \<in> set (pending_deps s)" "y \<in> set (pending_deps s)" "pd_session x = pd_session y"
      "pd_name x = pd_name y" for x y
    using that by (auto dest: inj_onD)
  show ?thesis
  proof (rule inj_onI)
    fix x y
    assume "x \<in> set (list_pending_deps s sid)" "y \<in> set (list_pending_deps s sid)" "d_name x = d_name y"
    then obtain r r' where "r \<in> set (pending_deps s)" "r' \<in> set (pending_deps s)" "x = row_to_dep r"
      "y = row_to_dep r'" "pd_session r = sid" "pd_session r' = sid" "pd_name r = pd_name r'"
      by (auto simp: list_pending_deps_def row_to_dep_def)
    then show "x = y" using u[of r r'] by simp
  qed
qed

lemma release_filters:
  assumes "store_ok s"
  shows "list_pending_deps (fst (release_due env s se)) (s_session_id se)
      = filter (\<lambda>d. \<not> releasable s (s_session_id se) d) (list_pending_deps s (s_session_id se))
    \<and> map wf_name (case snd (release_due env s se) of None \<Rightarrow> [] | Some (_, forks) \<Rightarrow> forks)
      = map d_name (filter (releasable s (s_session_id se)) (list_pending_deps s (s_session_id se)))"
proof -
  let ?sid = "s_session_id se"
  let ?L = "list_pending_deps s ?sid"
  let ?rel = "filter (releasable s ?sid) ?L"
  have n: "d_name (row_to_dep r) = pd_name r" for r by (simp add: row_to_dep_def)
  have "list_pending_deps (foldl (release_step env ?sid) s ?rel) ?sid = filter (\<lambda>d. d_name d \<notin> d_name ` set ?rel) ?L"
    by (simp add: list_pending_deps_def[of "foldl _ _ _"] release_fold_deps)
      (simp add: list_pending_deps_def[of s] filter_map filter_sort o_def n conj_commute cong: conj_cong)
  also have "\<dots> = filter (\<lambda>d. \<not> releasable s ?sid d) ?L"
    using list_pending_names[OF assms, of ?sid] by (intro filter_cong) (auto dest: inj_onD)
  finally have 1: "list_pending_deps (foldl (release_step env ?sid) s ?rel) ?sid = filter (\<lambda>d. \<not> releasable s ?sid d) ?L" .
  show ?thesis
  proof (cases "?rel = []")
    case True
    then have "filter (\<lambda>d. \<not> releasable s ?sid d) ?L = ?L" by (auto simp: filter_empty_conv filter_id_conv)
    with True show ?thesis by (simp add: release_due_def Let_def)
  next
    case False
    with 1 show ?thesis by (simp add: release_due_def Let_def build_wake_forks_def due_of_dep_def o_def)
  qed
qed

theorem build_wake_partition_witness:
  "\<exists>payload forks. snd (build_wake (sample_env 650) sample_store sample_session
        [sample_sf, sample_sf\<lparr>sf_name := ''b'', sf_after := [''me'']\<rparr>]) = Some (payload, forks)
     \<and> map wf_name forks = [''me'']"
proof -
  let ?sel = "[sample_sf, sample_sf\<lparr>sf_name := ''b'', sf_after := [''me'']\<rparr>]"
  have "gate_names ?sel 0 = [] \<and> gate_names ?sel (Suc 0) = [''me'']" by code_simp
  then have "filter (\<lambda>i. gate_names ?sel i = []) [0..<length ?sel] = [0]" by (simp add: upt_rec)
  then show ?thesis
    using build_wake_partition[of ?sel "sample_env 650" sample_store sample_session]
    by (auto simp: sample_sf_def)
qed

text \<open>What a held fork waits for, read off the tables: no gate of the session but itself is active, and every
  predecessor has a spawn that ended, well or not, at or after the fork was held.\<close>

definition wait_is_over :: "store \<Rightarrow> str \<Rightarrow> pending_dep \<Rightarrow> bool" where
  "wait_is_over s sid d \<longleftrightarrow> (case session_rec_of s sid of None \<Rightarrow> True | Some r \<Rightarrow> se_active_gate r \<in> {None, Some (d_name d)})
     \<and> (\<forall>p\<in>set (d_preds d). \<exists>r\<in>set (fork_spawns s). sp_session r = sid \<and> sp_name r = Some p
          \<and> sp_status r \<in> {''completed'', ''failed'', ''stopped''}
          \<and> (case sp_terminal_at r of None \<Rightarrow> False | Some t \<Rightarrow> d_created_at d \<le> t))"

lemma releasable_iff: "releasable s sid = wait_is_over s sid"
  by (auto simp: fun_eq_iff releasable_def wait_is_over_def active_gate_of_def get_session_def row_to_session_def list_all_iff
      fork_completed_since_def count_where_pos split: option.splits)

text \<open>C10. Releases are exact: a release wakes precisely the held forks whose wait is over - every predecessor
  ended since they were held, and no other fork of the session is an active gate - and leaves precisely the others
  held.\<close>

theorem release_due_exact:
  assumes "store_ok s"
  shows "list_pending_deps (fst (release_due env s se)) (s_session_id se)
      = filter (\<lambda>d. \<not> wait_is_over s (s_session_id se) d) (list_pending_deps s (s_session_id se))
    \<and> map wf_name (case snd (release_due env s se) of None \<Rightarrow> [] | Some (_, forks) \<Rightarrow> forks)
      = map d_name (filter (wait_is_over s (s_session_id se)) (list_pending_deps s (s_session_id se)))"
  unfolding releasable_iff[symmetric] by (rule release_filters[OF assms])

text \<open>Of two held forks the one waits for a fork that has ended, the other for one that has not.\<close>

definition held_store :: store where
  "held_store = store_run store_empty [UpsertSession (sample_args ''/p'') 10, RecordSpawn ''s'' ''t1'' (Some ''a'') 11,
     RecordSpawn ''s'' ''t2'' (Some ''z'') 11,
     InsertPendingDep ''s'' \<lparr>d_name = ''b'', d_path = ''/b.md'', d_label = ''idle'', d_overlap = False, d_preds = [''a''], d_report_preds = [], d_created_at = 12\<rparr>,
     InsertPendingDep ''s'' \<lparr>d_name = ''c'', d_path = ''/c.md'', d_label = ''idle'', d_overlap = False, d_preds = [''a'', ''z''], d_report_preds = [], d_created_at = 12\<rparr>,
     MarkSpawnTerminal ''s'' (Some ''t1'') None ''failed'' 13]"

theorem release_due_exact_witness:
  "map d_name (list_pending_deps (fst (release_due (sample_env 650) held_store sample_session)) ''s'') = [''c'']
   \<and> map wf_name (case snd (release_due (sample_env 650) held_store sample_session) of None \<Rightarrow> [] | Some (_, forks) \<Rightarrow> forks) = [''b'']"
proof -
  have "store_ok held_store" unfolding held_store_def by (rule store_ok_run[OF store_ok_empty])
  moreover have "s_session_id sample_session = ''s''"
    by (simp add: sample_session_def row_to_session_def new_session_def sample_args_def)
  moreover have "map d_name (filter (\<lambda>d. \<not> wait_is_over held_store ''s'' d) (list_pending_deps held_store ''s'')) = [''c'']"
    "map d_name (filter (wait_is_over held_store ''s'') (list_pending_deps held_store ''s'')) = [''b'']" by code_simp+
  ultimately show ?thesis using release_due_exact[of held_store "sample_env 650" sample_session] by simp
qed

section \<open>The order of the final batch\<close>

lemma pick_fold:
  "(case foldl (pick_step eff deps dn) acc js of
      None \<Rightarrow> acc = None \<and> (\<forall>i\<in>set js. \<not> ready deps dn i)
    | Some p \<Rightarrow> (p \<in> set js \<and> ready deps dn p \<or> acc = Some p)
        \<and> (\<forall>i\<in>set js. ready deps dn i \<longrightarrow> eff ! p \<le> eff ! i) \<and> (\<forall>q. acc = Some q \<longrightarrow> eff ! p \<le> eff ! q))"
proof (induction js arbitrary: acc)
  case Nil
  then show ?case by (auto split: option.splits)
next
  case (Cons i js)
  show ?case using Cons[of "pick_step eff deps dn acc i"]
    by (cases acc; cases "ready deps dn i") (auto simp: pick_step_def split: option.splits if_splits)
qed

lemma pick_Some:
  assumes "pick eff deps dn = Some p"
  shows "p < length deps \<and> ready deps dn p \<and> (\<forall>i<length deps. ready deps dn i \<longrightarrow> eff ! p \<le> eff ! i)"
  using pick_fold[where acc = None and js = "[0..<length deps]" and eff = eff and deps = deps and dn = dn] assms by (auto simp: pick_def)

lemma pick_None: "pick eff deps dn = None \<Longrightarrow> i < length deps \<Longrightarrow> \<not> ready deps dn i"
  using pick_fold[where acc = None and js = "[0..<length deps]" and eff = eff and deps = deps and dn = dn] by (auto simp: pick_def)

lemma emit_loop_correct:
  assumes "acyclic_deps deps" "length dn = length deps" "k = card {i. i < length deps \<and> \<not> done_at dn i}"
  shows "distinct (emit_loop k eff deps dn) \<and> set (emit_loop k eff deps dn) = {i. i < length deps \<and> \<not> done_at dn i}
    \<and> (\<forall>p<length (emit_loop k eff deps dn). \<forall>d\<in>set (deps ! (emit_loop k eff deps dn ! p)).
          done_at dn d \<or> d \<in> set (take p (emit_loop k eff deps dn)))"
  using assms(2,3)
proof (induction k arbitrary: dn)
  case 0
  then show ?case by simp
next
  case (Suc k)
  let ?U = "{i. i < length deps \<and> \<not> done_at dn i}"
  have "?U \<noteq> {}" using Suc.prems(2) by (metis card.empty nat.distinct(1))
  then obtain u where u: "u < length deps" "\<not> done_at dn u" by blast
  obtain j where "j < length deps" "\<not> done_at dn j" "\<forall>d\<in>set (deps ! j). done_at dn d"
    using acyclic_deps.exists_ready[OF assms(1) u(1), of "done_at dn"] u(2) by blast
  then have "ready deps dn j" "j < length deps" by (auto simp: ready_def list_ex_iff)
  then obtain i where pk: "pick eff deps dn = Some i" using pick_None by (cases "pick eff deps dn") auto
  note i = pick_Some[OF pk]
  let ?dn = "dn[i := True]"
  have dn: "done_at ?dn x \<longleftrightarrow> done_at dn x \<or> x = i" for x
    using i Suc.prems(1) by (auto simp: done_at_def nth_list_update)
  have U: "{x. x < length deps \<and> \<not> done_at ?dn x} = ?U - {i}" using dn by auto
  have "i \<in> ?U" using i by (auto simp: ready_def)
  then have "k = card {x. x < length deps \<and> \<not> done_at ?dn x}"
    using Suc.prems(2) by (simp add: U card_Diff_singleton)
  with Suc.IH[of ?dn] Suc.prems(1)
  have IH: "distinct (emit_loop k eff deps ?dn)" "set (emit_loop k eff deps ?dn) = ?U - {i}"
    "\<forall>p<length (emit_loop k eff deps ?dn). \<forall>d\<in>set (deps ! (emit_loop k eff deps ?dn ! p)).
          done_at ?dn d \<or> d \<in> set (take p (emit_loop k eff deps ?dn))"
    unfolding U by simp_all
  have "\<forall>p<length (i # emit_loop k eff deps ?dn). \<forall>d\<in>set (deps ! ((i # emit_loop k eff deps ?dn) ! p)).
          done_at dn d \<or> d \<in> set (take p (i # emit_loop k eff deps ?dn))"
  proof (intro allI impI ballI)
    fix p d
    assume p: "p < length (i # emit_loop k eff deps ?dn)" "d \<in> set (deps ! ((i # emit_loop k eff deps ?dn) ! p))"
    show "done_at dn d \<or> d \<in> set (take p (i # emit_loop k eff deps ?dn))"
    proof (cases p)
      case 0
      then show ?thesis using i p(2) by (auto simp: ready_def list_ex_iff)
    next
      case (Suc q)
      with p IH(3) have "done_at ?dn d \<or> d \<in> set (take q (emit_loop k eff deps ?dn))" by simp
      then show ?thesis using dn Suc by auto
    qed
  qed
  with pk IH(1,2) \<open>i \<in> ?U\<close> show ?case by auto
qed

lemma emission_correct:
  "distinct (emission selected) \<and> set (emission selected) = {..<length selected}
   \<and> (\<forall>p<length selected. \<forall>d\<in>set (resolve_deps (map to_selected selected) ! (emission selected ! p)).
          d \<in> set (take p (emission selected)))"
proof -
  let ?deps = "resolve_deps (map to_selected selected)" and ?n = "length selected"
  have nd: "\<not> done_at (replicate ?n False) i" for i by (simp add: done_at_def)
  have "?n = card {i. i < length ?deps \<and> \<not> done_at (replicate ?n False) i}" by (simp add: nd)
  from emit_loop_correct[OF rd.acyclic_deps_axioms, of "replicate ?n False" "map to_selected selected", OF _ this]
  have e: "distinct (emission selected)" "set (emission selected) = {..<?n}"
    "\<forall>p<length (emission selected). \<forall>d\<in>set (?deps ! (emission selected ! p)). d \<in> set (take p (emission selected))"
    by (simp_all add: emission_def Let_def nd lessThan_def)
  have "length (emission selected) = ?n" using distinct_card[OF e(1)] e(2) by simp
  with e show ?thesis by simp
qed

lemma final_eff_gate:
  assumes "i < length selected" "sf_gate (selected ! i)" "j < length selected" "\<not> sf_gate (selected ! j)"
    and "list_all (\<lambda>e. i64_min < e) (eff_of selected)"
  shows "final_eff selected ! i < final_eff selected ! j"
proof -
  let ?eff = "eff_of selected"
  have l: "length ?eff = length selected"
    using effective_priorities_eq[OF rd.acyclic_deps_axioms, of "map to_selected selected" "map to_selected selected"]
    by (simp add: eff_of_def Let_def)
  have fm: "foldl min a xs \<le> a \<and> (\<forall>x\<in>set xs. foldl min a xs \<le> x) \<and> foldl min a xs \<in> insert a (set xs)" for a :: int and xs
  proof (induction xs arbitrary: a)
    case (Cons x xs)
    from Cons[of "min a x"] show ?case by (auto simp: min_def split: if_splits)
  qed simp
  let ?m = "foldl min (hd ?eff) (tl ?eff)"
  have ne: "?eff \<noteq> []" using l assms(1) by auto
  have "?m \<le> x" if "x \<in> set ?eff" for x using fm[of "hd ?eff" "tl ?eff"] that ne by (cases ?eff) auto
  then have 1: "?m \<le> ?eff ! j" using l assms(3) by simp
  have "?m \<in> set ?eff" using fm[of "hd ?eff" "tl ?eff"] ne by (cases ?eff) auto
  then have "i64_min < ?m" using assms(5) by (simp add: list_all_iff)
  then have "i64_sat_sub ?m 1 < ?m" by (auto simp: i64_sat_sub_def i64_min_def max_def)
  with 1 show ?thesis using assms(1-4) by (simp add: final_eff_def Let_def)
qed

text \<open>The flush-on-close batch is a complete topological order: every selected fork runs exactly
  once and after all its \<open>after\<close> dependencies; and a gate fork leads - if one waits for nothing, the
  batch starts with a gate fork (priorities at the very minimum of the type apart).\<close>

theorem final_batch_order:
  "distinct (emission selected) \<and> set (emission selected) = {..<length selected}
   \<and> list_all (\<lambda>p. list_all (\<lambda>d. d \<in> set (take p (emission selected)))
        (resolve_deps (map to_selected selected) ! (emission selected ! p))) [0..<length selected]
   \<and> (if list_ex (\<lambda>i. sf_gate (selected ! i) \<and> resolve_deps (map to_selected selected) ! i = []) [0..<length selected]
         \<and> list_all (\<lambda>e. i64_min < e) (eff_of selected)
      then sf_gate (selected ! hd (emission selected)) else True)"
proof -
  let ?deps = "resolve_deps (map to_selected selected)" and ?n = "length selected"
  have lead: "sf_gate (selected ! hd (emission selected))"
    if g: "i < ?n" "sf_gate (selected ! i)" "?deps ! i = []" and low: "list_all (\<lambda>e. i64_min < e) (eff_of selected)" for i
  proof -
    let ?dn = "replicate ?n False"
    obtain k where n: "?n = Suc k" using g(1) by (cases ?n) auto
    have r: "ready ?deps ?dn i" using g by (simp add: ready_def done_at_def)
    then obtain p where p: "pick (final_eff selected) ?deps ?dn = Some p"
      using pick_None[of "final_eff selected" ?deps ?dn i] g(1) by (cases "pick (final_eff selected) ?deps ?dn") auto
    have "hd (emission selected) = p" using p n by (simp add: emission_def Let_def del: replicate.simps)
    moreover have "sf_gate (selected ! p)"
    proof (rule ccontr)
      assume "\<not> sf_gate (selected ! p)"
      moreover have "p < ?n" "final_eff selected ! p \<le> final_eff selected ! i"
        using pick_Some[OF p] r g(1) by auto
      ultimately show False using final_eff_gate[OF g(1,2) _ _ low, of p] by simp
    qed
    ultimately show ?thesis by simp
  qed
  then show ?thesis using emission_correct[of selected] by (auto simp: list_all_iff list_ex_iff)
qed

section \<open>One final batch\<close>

lemma try_claim_iff:
  assumes "store_ok s"
  shows "snd (try_claim_final_flush s sid now) \<longleftrightarrow> \<not> flush_claimed s sid"
proof
  assume "snd (try_claim_final_flush s sid now)"
  then show "\<not> flush_claimed s sid" using edges_free(2)[OF assms, of sid "TryClaimFinalFlush sid now"] by (simp add: flush_won_def)
next
  assume "\<not> flush_claimed s sid"
  then obtain r where "session_rec_of s sid = Some r" "se_final_flush_at r = None"
    by (auto simp: flush_claimed_def split: option.splits)
  then show "snd (try_claim_final_flush s sid now)"
    using session_rec_of_id[of s sid r] by (auto simp: try_claim_final_flush_def Let_def count_where_pos)
qed

lemma claimed_after_try:
  assumes "store_ok s"
  shows "flush_claimed (fst (try_claim_final_flush s sid now)) sid"
  using flush_claimed_step[OF assms, of "TryClaimFinalFlush sid now" sid] try_claim_iff[OF assms, of sid now]
  by (auto simp: opens_def flush_won_def)

lemma flush_claimed_sessions: "sessions s' = sessions s \<Longrightarrow> flush_claimed s' = flush_claimed s"
  by (simp add: fun_eq_iff flush_claimed_def session_rec_of_def)

lemma refresh_roster_sessions [simp]: "sessions (refresh_roster env s sid) = sessions s"
  using refresh_roster_only[of env s sid] by auto

lemma refresh_roster_run: "refresh_roster env s sid
    = store_run s (map (\<lambda>e. QueueFork sid (fst e) (snd e) (pe_now env)) (pe_discovered env))"
  by (simp add: refresh_roster_def foldl_map)

lemma stamp_sessions [simp]: "sessions (stamp_selected env sid s sel) = sessions s"
  by (simp add: stamp_selected_def touch_fork_ran_def record_issued_run_def try_latch_fire_def Let_def split_beta
      split: option.splits)

lemma stamps_sessions [simp]: "sessions (foldl (stamp_selected env sid) s sels) = sessions s"
  by (induction sels arbitrary: s) simp_all

lemma skip_sessions: "select_forks env s se ms HoldSkip = (s', sel) \<Longrightarrow> sessions s' = sessions s"
  by (auto simp: select_forks_def Let_def)

lemma final_runs_sessions:
  "sessions (fst (build_final_runs env s se)) = sessions (fst (try_claim_final_flush s (s_session_id se) (pe_now env)))"
  by (auto simp: build_final_runs_def Let_def collect_roster_defs_def skip_sessions split: prod.splits bool.splits)

lemma store_ok_refresh: "store_ok s \<Longrightarrow> store_ok (refresh_roster env s sid)"
  unfolding refresh_roster_run by (rule store_ok_run)

lemma store_ok_stamps: "store_ok s \<Longrightarrow> store_ok (foldl (stamp_selected env sid) s sels)"
  by (induction sels arbitrary: s) (simp_all add: stamp_selected_run store_ok_run)

lemma store_ok_claim: "store_ok s \<Longrightarrow> store_ok (fst (try_claim_final_flush s sid now))"
  using store_ok_step[of s "TryClaimFinalFlush sid now"] by simp

lemma skip_store: "fst (select_forks env s se ms HoldSkip) = refresh_roster env s (s_session_id se)"
  by (simp add: select_forks_def Let_def)

lemma final_runs_ok: "store_ok s \<Longrightarrow> store_ok (fst (build_final_runs env s se))"
  using store_ok_claim[of s "s_session_id se" "pe_now env"]
  by (auto simp: build_final_runs_def Let_def collect_roster_defs_def split_beta skip_store store_ok_refresh
      store_ok_stamps split: bool.splits)

lemma final_runs_unclaimed:
  "\<not> snd (try_claim_final_flush s (s_session_id se) (pe_now env)) \<Longrightarrow> snd (build_final_runs env s se) = []"
  by (auto simp: build_final_runs_def Let_def split_beta split: bool.splits)

text \<open>A closing session gets one final batch: after \<open>build_final_runs\<close> has run for a session -
  whichever of the two close paths it was - every later call for it returns nothing until the
  session is opened again, whatever happens in between.\<close>

theorem final_runs_once:
  assumes "store_ok s" "s_session_id se' = s_session_id se"
    and "tally store_step (opens (s_session_id se)) (fst (build_final_runs env s se)) ops = 0"
  shows "snd (build_final_runs env' (store_run (fst (build_final_runs env s se)) ops) se') = []"
proof -
  let ?s1 = "fst (build_final_runs env s se)" and ?sid = "s_session_id se"
  have ok: "store_ok ?s1" by (rule final_runs_ok[OF assms(1)])
  have "flush_claimed ?s1 ?sid"
    using claimed_after_try[OF assms(1)] flush_claimed_sessions[OF final_runs_sessions] by metis
  then have "flush_claimed (store_run ?s1 ops) ?sid" using flush.holds_on[OF ok] assms(3) by blast
  then have "\<not> snd (try_claim_final_flush (store_run ?s1 ops) ?sid (pe_now env'))"
    using try_claim_iff[OF store_ok_run[OF ok]] by simp
  then show ?thesis using final_runs_unclaimed assms(2) by simp
qed

theorem final_runs_once_witness:
  "snd (build_final_runs (sample_env 900) (store_run (fst (build_final_runs (sample_env 800) sample_store sample_session))
      [CloseSession ''s'' ''client'' 850]) sample_session) = []"
proof -
  have "store_ok sample_store"
    using store_ok_run[OF store_ok_empty, of "[UpsertSession (sample_args ''/p'') 10]"] by (simp add: sample_store_def)
  then show ?thesis
    using final_runs_once[of sample_store sample_session sample_session "sample_env 800" "[CloseSession ''s'' ''client'' 850]"
        "sample_env 900"]
    by (simp add: opens_def)
qed

section \<open>A gate in its own way\<close>

text \<open>While a gate is active, a release lets only the gate fork itself through. So a gate fork
  that is itself held, and waits for a fork that has not completed, blocks every release of the
  session - also of the very fork it waits for, however complete that one's own predecessors
  are.\<close>

theorem held_gate_blocks_releases:
  assumes "active_gate_of s (s_session_id se) = Some g"
    and "\<forall>d\<in>set (list_pending_deps s (s_session_id se)). d_name d = g \<longrightarrow>
           (\<exists>p\<in>set (d_preds d). \<not> fork_completed_since s (s_session_id se) p (d_created_at d))"
  shows "release_due env s se = (s, None)"
proof -
  have "filter (releasable s (s_session_id se)) (list_pending_deps s (s_session_id se)) = []"
    using assms by (fastforce simp: filter_empty_conv releasable_def list_all_iff)
  then show ?thesis by (simp add: release_due_def Let_def)
qed

definition stuck_dep :: "str \<Rightarrow> str \<Rightarrow> pending_dep" where
  "stuck_dep name pred = \<lparr>d_name = name, d_path = ''/f.md'', d_label = ''idle'', d_overlap = False,
     d_preds = [pred], d_report_preds = [pred], d_created_at = 50\<rparr>"

definition stuck_store :: store where
  "stuck_store = store_run sample_store [SetActiveGate ''s'' ''g'', InsertPendingDep ''s'' (stuck_dep ''g'' ''p''),
     InsertPendingDep ''s'' (stuck_dep ''p'' ''q''), RecordSpawn ''s'' ''t'' (Some ''q'') 60,
     MarkSpawnTerminal ''s'' (Some ''t'') None ''completed'' 70]"

theorem held_gate_blocks_releases_witness:
  "release_due (sample_env 100) stuck_store sample_session = (stuck_store, None)
   \<and> list_pending_deps stuck_store ''s'' = [stuck_dep ''g'' ''p'', stuck_dep ''p'' ''q'']
   \<and> fork_completed_since stuck_store ''s'' ''q'' 50"
proof -
  have a: "active_gate_of stuck_store ''s'' = Some ''g''" by code_simp
  have l: "list_pending_deps stuck_store ''s'' = [stuck_dep ''g'' ''p'', stuck_dep ''p'' ''q'']" by code_simp
  have q: "fork_completed_since stuck_store ''s'' ''q'' 50" by code_simp
  have p: "\<not> fork_completed_since stuck_store ''s'' ''p'' 50" by code_simp
  have "s_session_id sample_session = ''s''"
    by (simp add: sample_session_def row_to_session_def new_session_def sample_args_def)
  then have "release_due (sample_env 100) stuck_store sample_session = (stuck_store, None)"
    using held_gate_blocks_releases[of stuck_store sample_session "''g''" "sample_env 100"] a l p
    by (simp add: stuck_dep_def)
  with l q show ?thesis by simp
qed

end
