(* ===== verification/Discovery.thy ===== *)
theory Discovery
  imports Frontmatter Tables
begin

text \<open>
  \<open>autofork-core/src/discovery.rs\<close>: where fork definitions are looked for, the walk over a forks
  tree and a skills tree, and which definition wins a name. A \<open>disk\<close> is the file system with its
  directory listings (the file names of a directory, \<open>None\<close> if it cannot be read) and the error
  text of a file that cannot be read. The walks recurse on the nesting levels the code allows.
\<close>

record disk =
  dk_fs :: fsys
  dk_list :: "path \<Rightarrow> str list option"
  dk_err :: "path \<Rightarrow> str"

definition MAX_FORK_NESTING_DEPTH :: nat where
  "MAX_FORK_NESTING_DEPTH = 8"

section \<open>Roots\<close>

text \<open>A path and its parents, as the loop over \<open>Path::parent\<close> visits them.\<close>

fun parents :: "comp list \<Rightarrow> path list" where
  "parents [] = []"
| "parents (c # cs) = (if c = RootDir then [] else path_of (rev cs) # parents cs)"

definition ancestors :: "path \<Rightarrow> path list" where
  "ancestors p = p # parents (rev (components p))"

definition add_root :: "path list \<Rightarrow> path \<Rightarrow> path list" where
  "add_root roots c = (if list_ex (path_eq c) roots then roots else roots @ [c])"

text \<open>A project root counts if the directory exists; a user root if what it resolves to does.\<close>

definition push_dir :: "fsys \<Rightarrow> path list \<Rightarrow> path \<Rightarrow> path list" where
  "push_dir fs roots p = (if fs_is_dir fs p then add_root roots (canonical fs p) else roots)"

definition push_user_dir :: "fsys \<Rightarrow> path list \<Rightarrow> path \<Rightarrow> path list" where
  "push_user_dir fs roots p =
     (if fs_is_dir fs (canonical fs p) then add_root roots (canonical fs p) else roots)"

definition fork_roots :: "disk \<Rightarrow> path \<Rightarrow> path option \<Rightarrow> path option \<Rightarrow> path list" where
  "fork_roots dk dir user claude =
     (let fs = dk_fs dk;
          r1 = foldl (\<lambda>roots d. push_dir fs (push_dir fs roots (path_join (path_join d ''.autofork'') ''forks''))
                 (path_join (path_join d ''.claude'') ''forks'')) [] (ancestors (canonical fs dir));
          r2 = (case user of None \<Rightarrow> r1 | Some u \<Rightarrow> push_user_dir fs r1 u)
      in case claude of None \<Rightarrow> r2 | Some c \<Rightarrow> push_user_dir fs r2 (path_join c ''forks''))"

definition skill_roots :: "disk \<Rightarrow> path \<Rightarrow> path option \<Rightarrow> path option \<Rightarrow> path list" where
  "skill_roots dk dir claude agents =
     (let fs = dk_fs dk;
          r1 = foldl (\<lambda>roots d. push_user_dir fs (push_user_dir fs roots (path_join (path_join d ''.claude'') ''skills''))
                 (path_join (path_join d ''.agents'') ''skills'')) [] (ancestors (canonical fs dir));
          r2 = (case claude of None \<Rightarrow> r1 | Some c \<Rightarrow> push_user_dir fs r1 (path_join c ''skills''))
      in case agents of None \<Rightarrow> r2 | Some a \<Rightarrow> push_user_dir fs r2 (path_join a ''skills''))"

section \<open>Entries\<close>

record fork_entry =
  fe_name :: str
  fe_path :: path
  fe_root :: path
  fe_parsed :: parsed_fork

definition same_file :: "fsys \<Rightarrow> path \<Rightarrow> path \<Rightarrow> bool" where
  "same_file fs p q = (case (fs_canonicalize fs p, fs_canonicalize fs q) of
     (Some a, Some b) \<Rightarrow> path_eq a b | _ \<Rightarrow> False)"

definition insert_entry ::
    "disk \<Rightarrow> (str \<Rightarrow> raw_fork option) \<Rightarrow> path \<Rightarrow> str \<Rightarrow> path \<Rightarrow> fork_entry list \<times> str list \<Rightarrow> fork_entry list \<times> str list" where
  "insert_entry dk from_yaml root name p acc = (case acc of (es, ws) \<Rightarrow>
     (case fs_read (dk_fs dk) p of
        None \<Rightarrow> (es, ws @ [(''failed to read '' @ p @ '': '' @ dk_err dk p)])
      | Some content \<Rightarrow> (case parse_fork_file from_yaml (home_dir (dk_fs dk)) name content of
          NotFork True \<Rightarrow> (es, ws @ [p @ ('' has fork-like frontmatter but no '' @ [CHR 0x60] @ ''fork: true'' @ [CHR 0x60]
       @ '' '' @ em_dash @ '' not treated as a fork'')])
        | NotFork False \<Rightarrow> (es, ws)
        | Invalid \<Rightarrow> (es, ws @ [(''fork '' @ [CHR 0x27] @ name @ [CHR 0x27] @ '' at '' @ p
       @ '' has invalid frontmatter YAML, skipped'')])
        | ForkOk parsed \<Rightarrow> (case find (\<lambda>e. fe_name e = name) es of
            Some e \<Rightarrow> (es, if same_file (dk_fs dk) (fe_path e) p \<or> path_eq (fe_path e) p then ws
                else ws @ [(''fork '' @ [CHR 0x27] @ name @ [CHR 0x27] @ '' at '' @ p @ '' shadowed by ''
       @ fe_path e)])
          | None \<Rightarrow> (es @ [\<lparr>fe_name = name, fe_path = p, fe_root = root, fe_parsed = parsed\<rparr>], ws)))))"

section \<open>The walks\<close>

text \<open>The walk over a tree of definitions in either layout, \<open><name>.md\<close> or \<open><name>/FORK.md\<close>
  (\<open>HOOK.md\<close> for hooks): what to do with a definition is a parameter.\<close>

primrec scan_tree :: "nat \<Rightarrow> disk \<Rightarrow> str \<Rightarrow> (str \<Rightarrow> path \<Rightarrow> 'a \<Rightarrow> 'a) \<Rightarrow> path \<Rightarrow> 'a \<Rightarrow> 'a" where
  "scan_tree 0 dk md ins dir acc = acc"
| "scan_tree (Suc levels) dk md ins dir acc = (case dk_list dk dir of
       None \<Rightarrow> acc
     | Some names \<Rightarrow> foldl (\<lambda>acc n.
         (let p = path_join dir n in
          if starts_with n ''.'' then acc
          else if fs_is_dir (dk_fs dk) p
            then (if fs_is_file (dk_fs dk) (path_join p md) then ins n (path_join p md) acc
                  else scan_tree levels dk md ins p acc)
          else (case strip_suffix ''.md'' n of None \<Rightarrow> acc
                | Some stem \<Rightarrow> if stem = [] then acc else ins stem p acc))) acc (sort names))"

definition scan_forks_dir ::
    "disk \<Rightarrow> (str \<Rightarrow> raw_fork option) \<Rightarrow> path \<Rightarrow> fork_entry list \<times> str list \<Rightarrow> fork_entry list \<times> str list" where
  "scan_forks_dir dk from_yaml root acc =
     scan_tree (Suc MAX_FORK_NESTING_DEPTH) dk ''FORK.md'' (insert_entry dk from_yaml root) root acc"

primrec scan_skills :: "nat \<Rightarrow> disk \<Rightarrow> (str \<Rightarrow> path \<Rightarrow> 'a \<Rightarrow> 'a) \<Rightarrow> path \<Rightarrow> 'a \<Rightarrow> 'a" where
  "scan_skills 0 dk ins dir acc = acc"
| "scan_skills (Suc levels) dk ins dir acc = (case dk_list dk dir of
       None \<Rightarrow> acc
     | Some names \<Rightarrow> foldl (\<lambda>acc n.
         (let p = path_join dir n in
          if starts_with n ''.'' \<or> \<not> fs_is_dir (dk_fs dk) p then acc
          else if fs_is_file (dk_fs dk) (path_join p ''SKILL.md'')
            then (if fs_is_file (dk_fs dk) (path_join p ''FORK.md'') then ins n (path_join p ''FORK.md'') acc else acc)
          else scan_skills levels dk ins p acc)) acc (sort names))"

definition scan_skills_dir ::
    "disk \<Rightarrow> (str \<Rightarrow> raw_fork option) \<Rightarrow> path \<Rightarrow> fork_entry list \<times> str list \<Rightarrow> fork_entry list \<times> str list" where
  "scan_skills_dir dk from_yaml root acc =
     scan_skills (Suc MAX_FORK_NESTING_DEPTH) dk (insert_entry dk from_yaml root) root acc"

definition discover_forks ::
    "disk \<Rightarrow> (str \<Rightarrow> raw_fork option) \<Rightarrow> path \<Rightarrow> path option \<Rightarrow> path option \<Rightarrow> path option
      \<Rightarrow> fork_entry list \<times> str list" where
  "discover_forks dk from_yaml dir user claude agents =
     foldl (\<lambda>acc root. scan_skills_dir dk from_yaml root acc)
       (foldl (\<lambda>acc root. scan_forks_dir dk from_yaml root acc) ([], []) (fork_roots dk dir user claude))
       (skill_roots dk dir claude agents)"

section \<open>What a walk keeps\<close>

text \<open>A walk can only insert: an invariant of the insertion is one of the walk, and a walk relates
  its start to its end by any preorder the insertion respects.\<close>

locale insertion =
  fixes ins :: "str \<Rightarrow> path \<Rightarrow> 'a \<Rightarrow> 'a" and inv :: "'a \<Rightarrow> bool" and le :: "'a \<Rightarrow> 'a \<Rightarrow> bool"
  assumes keeps: "inv a \<Longrightarrow> inv (ins n p a)"
    and grows: "le a (ins n p a)"
    and refl: "le a a"
    and trans: "le a b \<Longrightarrow> le b c \<Longrightarrow> le a c"
begin

lemma foldl_keeps: "(\<And>a x. inv a \<Longrightarrow> inv (f a x)) \<Longrightarrow> inv a \<Longrightarrow> inv (foldl f a xs)"
  by (induction xs arbitrary: a) auto

lemma foldl_grows: "(\<And>a x. le a (f a x)) \<Longrightarrow> le a (foldl f a xs)"
  by (induction xs arbitrary: a) (auto simp: refl intro: trans)

lemma scan_tree_keeps: "inv a \<Longrightarrow> inv (scan_tree k dk md ins dir a)"
  by (induction k arbitrary: dir a) (auto simp: Let_def keeps intro!: foldl_keeps split: option.split)

lemma scan_tree_grows: "le a (scan_tree k dk md ins dir a)"
  by (induction k arbitrary: dir a) (auto simp: Let_def refl grows intro!: foldl_grows split: option.split)

lemma scan_skills_keeps: "inv a \<Longrightarrow> inv (scan_skills k dk ins dir a)"
  by (induction k arbitrary: dir a) (auto simp: Let_def keeps intro!: foldl_keeps split: option.split)

lemma scan_skills_grows: "le a (scan_skills k dk ins dir a)"
  by (induction k arbitrary: dir a) (auto simp: Let_def refl grows intro!: foldl_grows split: option.split)

end

definition forks_ok :: "disk \<Rightarrow> (str \<Rightarrow> raw_fork option) \<Rightarrow> fork_entry list \<Rightarrow> bool" where
  "forks_ok dk from_yaml es \<longleftrightarrow> distinct (map fe_name es)
     \<and> (\<forall>e\<in>set es. \<exists>c. fs_read (dk_fs dk) (fe_path e) = Some c
           \<and> parse_fork_file from_yaml (home_dir (dk_fs dk)) (fe_name e) c = ForkOk (fe_parsed e))"

definition extends :: "'e list \<times> str list \<Rightarrow> 'e list \<times> str list \<Rightarrow> bool" where
  "extends a b \<longleftrightarrow> prefix (fst a) (fst b) \<and> prefix (snd a) (snd b)"

lemma insert_entry_ok:
  "forks_ok dk from_yaml (fst acc) \<Longrightarrow> forks_ok dk from_yaml (fst (insert_entry dk from_yaml root name p acc))"
  by (auto simp: insert_entry_def forks_ok_def find_None_iff
      split: prod.splits option.splits fork_parse.splits bool.splits if_splits)

lemma insert_entry_extends: "extends acc (insert_entry dk from_yaml root name p acc)"
  by (auto simp: insert_entry_def extends_def split: prod.splits option.splits fork_parse.splits bool.splits)

lemma extends_refl: "extends a a" and extends_trans: "extends a b \<Longrightarrow> extends b c \<Longrightarrow> extends a c"
  by (auto simp: extends_def prefix_order.trans)

interpretation fork_walk: insertion "insert_entry dk from_yaml root" "\<lambda>acc. forks_ok dk from_yaml (fst acc)" extends
  for dk from_yaml root
  by unfold_locales (auto simp: insert_entry_ok insert_entry_extends extends_refl intro: extends_trans)

lemma scan_forks_ok: "forks_ok dk from_yaml (fst acc) \<Longrightarrow> forks_ok dk from_yaml (fst (scan_forks_dir dk from_yaml root acc))"
  "forks_ok dk from_yaml (fst acc) \<Longrightarrow> forks_ok dk from_yaml (fst (scan_skills_dir dk from_yaml root acc))"
  unfolding scan_forks_dir_def scan_skills_dir_def
  by (rule fork_walk.scan_tree_keeps, assumption) (rule fork_walk.scan_skills_keeps, assumption)

lemma scan_forks_extends: "extends acc (scan_forks_dir dk from_yaml root acc)" "extends acc (scan_skills_dir dk from_yaml root acc)"
  unfolding scan_forks_dir_def scan_skills_dir_def
  by (rule fork_walk.scan_tree_grows) (rule fork_walk.scan_skills_grows)

text \<open>Discovery yields one definition per name, each the parse of its own file; and the first
  root that defines a name wins: whatever the roots scanned so far found stays, in front, when
  further roots are scanned - so a project's forks override the user's.\<close>

theorem first_definition_wins:
  "forks_ok dk from_yaml (fst (discover_forks dk from_yaml dir user claude agents))
   \<and> (case find (\<lambda>e. fe_name e = n)
          (fst (foldl (\<lambda>acc root. scan_forks_dir dk from_yaml root acc) ([], []) (take k (fork_roots dk dir user claude)))) of
        None \<Rightarrow> True
      | Some e \<Rightarrow> find (\<lambda>e. fe_name e = n) (fst (discover_forks dk from_yaml dir user claude agents)) = Some e)"
proof
  have empty: "forks_ok dk from_yaml []"
    by (simp add: forks_ok_def)
  show "forks_ok dk from_yaml (fst (discover_forks dk from_yaml dir user claude agents))"
    unfolding discover_forks_def
    by (intro fork_walk.foldl_keeps scan_forks_ok) (auto intro: empty)
next
  let ?scan = "\<lambda>acc root. scan_forks_dir dk from_yaml root acc"
  let ?a = "foldl ?scan ([], []) (take k (fork_roots dk dir user claude))"
  let ?b = "foldl ?scan ?a (drop k (fork_roots dk dir user claude))"
  have "extends ?a ?b" by (rule fork_walk.foldl_grows) (rule scan_forks_extends)
  moreover have "extends ?b (discover_forks dk from_yaml dir user claude agents)"
    unfolding discover_forks_def foldl_append[symmetric] append_take_drop_id
    by (rule fork_walk.foldl_grows) (rule scan_forks_extends)
  ultimately obtain rest where "fst (discover_forks dk from_yaml dir user claude agents) = fst ?a @ rest"
    using extends_trans[of ?a ?b] unfolding extends_def prefix_def by metis
  then show "case find (\<lambda>e. fe_name e = n) (fst ?a) of None \<Rightarrow> True
      | Some e \<Rightarrow> find (\<lambda>e. fe_name e = n) (fst (discover_forks dk from_yaml dir user claude agents)) = Some e"
    by (auto simp: find_append split: option.splits)
qed

end
