(* ===== verification/Hooks.thy ===== *)
theory Hooks
  imports Discovery
begin

text \<open>
  \<open>autofork-core/src/hooks.rs\<close>: lifecycle hook files, their parsing and discovery. The YAML
  reader is a parameter, as for fork files; a hook file's warnings are returned beside it. The
  directory walk is the one of \<open>Discovery\<close>.
\<close>

section \<open>Hook definitions\<close>

definition MAX_HOOK_NESTING_DEPTH :: nat where
  "MAX_HOOK_NESTING_DEPTH = 8"

definition DEFAULT_HOOK_TIMEOUT_SECS :: nat where
  "DEFAULT_HOOK_TIMEOUT_SECS = 60"

definition DEFAULT_HOOK_MAX_BYTES :: nat where
  "DEFAULT_HOOK_MAX_BYTES = 8000"

datatype hook_on =
    HSessionStart | HResume | HActivity
  | HIdle "nat option"
  | HSessionEnd
  | HChanged str
  | HEvent str

datatype hook_deliver = DNone | DContext | DWake

fun deliver_label :: "hook_deliver \<Rightarrow> str" where
  "deliver_label DNone = ''none''"
| "deliver_label DContext = ''context''"
| "deliver_label DWake = ''wake''"

definition delivers :: "hook_deliver \<Rightarrow> bool" where
  "delivers d \<longleftrightarrow> d \<noteq> DNone"

fun hook_label :: "hook_on \<Rightarrow> str" where
  "hook_label HSessionStart = ''session_start''"
| "hook_label HResume = ''resume''"
| "hook_label HActivity = ''activity''"
| "hook_label (HIdle None) = ''idle''"
| "hook_label (HIdle (Some s)) = ''idle:'' @ show_nat s"
| "hook_label HSessionEnd = ''session_end''"
| "hook_label (HChanged pattern) = ''changed:'' @ pattern"
| "hook_label (HEvent name) = ''event:'' @ name"

record hook_def =
  hd_description :: "str option"
  hd_on :: "hook_on list"
  hd_command :: str
  hd_timeout_secs :: nat
  hd_deliver :: hook_deliver
  hd_max_bytes :: nat
  hd_throttle_secs :: "nat option"

record raw_hook =
  rh_hook :: "yaml option"
  rh_description :: "str option"
  rh_on :: "yaml option"
  rh_command :: "yaml option"
  rh_timeout :: "yaml option"
  rh_deliver :: "yaml option"
  rh_max_bytes :: "yaml option"
  rh_throttle :: "yaml option"

record parsed_hook =
  ph_def :: hook_def
  ph_warnings :: "str list"

datatype hook_parse = HookOk parsed_hook | NotHook bool | BadHook

section \<open>Parsing\<close>

definition parse_changed_on :: "str \<Rightarrow> hook_on option \<times> str list" where
  "parse_changed_on pattern = (let p = trim pattern in
     if p = [] then (None, [(''empty '' @ [CHR 0x27] @ ''changed'' @ [CHR 0x27] @ '' pattern, skipping'')]) else (Some (HChanged p), []))"

definition parse_event_on :: "str \<Rightarrow> hook_on option \<times> str list" where
  "parse_event_on name = (let n = trim name in
     if n = [] then (None, [(''empty '' @ [CHR 0x27] @ ''event'' @ [CHR 0x27] @ '' name, skipping'')]) else (Some (HEvent n), []))"

definition on_word :: "str \<Rightarrow> hook_on option \<times> str list" where
  "on_word s =
     (case strip_prefix ''changed:'' s of Some rest \<Rightarrow> parse_changed_on rest
      | None \<Rightarrow> (case strip_prefix ''event:'' s of Some rest \<Rightarrow> parse_event_on rest
      | None \<Rightarrow> (case strip_prefix ''idle:'' s of
          Some rest \<Rightarrow> (case parse_duration_str (trim rest) of
              Some secs \<Rightarrow> (Some (HIdle (Some secs)), [])
            | None \<Rightarrow> (None, [(''invalid idle duration '' @ [CHR 0x27] @ trim s @ [CHR 0x27] @ '', skipping'')]))
        | None \<Rightarrow>
          if s = ''session_start'' then (Some HSessionStart, [])
          else if s = ''resume'' then (Some HResume, [])
          else if s = ''activity'' then (Some HActivity, [])
          else if s = ''idle'' then (Some (HIdle None), [])
          else if s = ''session_end'' then (Some HSessionEnd, [])
          else (None, [(''unknown hook event '' @ [CHR 0x27] @ s @ [CHR 0x27] @ '', skipping'')]))))"

definition on_keyed :: "str \<Rightarrow> yaml \<Rightarrow> hook_on option \<times> str list" where
  "on_keyed key val =
     (if key = ''idle'' then (case parse_duration_yaml val of
          Some s \<Rightarrow> (Some (HIdle (Some s)), [])
        | None \<Rightarrow> (None, [(''invalid idle duration in '' @ [CHR 0x27] @ ''on'' @ [CHR 0x27] @ '', skipping'')]))
      else if key = ''changed'' then (case y_as_str val of None \<Rightarrow> (None, []) | Some p \<Rightarrow> parse_changed_on p)
      else if key = ''event'' then (case y_as_str val of None \<Rightarrow> (None, []) | Some n \<Rightarrow> parse_event_on n)
      else (None, [(''unknown hook event '' @ [CHR 0x27] @ key @ [CHR 0x27] @ '', skipping'')]))"

definition parse_on_entry :: "yaml \<Rightarrow> hook_on option \<times> str list" where
  "parse_on_entry v = (case v of
     YString s \<Rightarrow> on_word s
   | YMap [(YString key, val)] \<Rightarrow> on_keyed key val
   | _ \<Rightarrow> (None, [(''malformed '' @ [CHR 0x27] @ ''on'' @ [CHR 0x27] @ '' entry, skipping'')]))"

definition hook_warn :: "str \<Rightarrow> str \<Rightarrow> str" where
  "hook_warn name msg = ''hook '' @ quote name @ '': '' @ msg"

definition hook_command :: "str \<Rightarrow> yaml option \<Rightarrow> str \<times> str list" where
  "hook_command name v =
     (let missing = ([], [hook_warn name (''missing or empty '' @ [CHR 0x27] @ ''command'' @ [CHR 0x27] @ ''; it can never run'')])
      in case v of Some (YString s) \<Rightarrow> if trim s \<noteq> [] then (trim s, []) else missing | _ \<Rightarrow> missing)"

definition hook_ons :: "str \<Rightarrow> yaml option \<Rightarrow> hook_on list \<times> str list" where
  "hook_ons name v = (case v of
     None \<Rightarrow> ([], [hook_warn name (''no '' @ [CHR 0x27] @ ''on'' @ [CHR 0x27] @ '' events; it will never fire'')])
   | Some y \<Rightarrow> (case collect_warn parse_on_entry (case y of YSeq sq \<Rightarrow> sq | _ \<Rightarrow> [y]) of
       (on, ws) \<Rightarrow> (on, ws @ (if on = []
          then [hook_warn name ([CHR 0x27] @ ''on'' @ [CHR 0x27] @ '' has no valid events; it will never fire'')] else []))))"

text \<open>An optional value with a default for the absent and a warning for the invalid one.\<close>

definition opt_setting :: "str \<Rightarrow> str \<Rightarrow> 'a \<Rightarrow> (yaml \<Rightarrow> 'a option) \<Rightarrow> yaml option \<Rightarrow> 'a \<times> str list" where
  "opt_setting name msg dflt rd v = (case v of None \<Rightarrow> (dflt, [])
     | Some y \<Rightarrow> (case rd y of Some x \<Rightarrow> (x, []) | None \<Rightarrow> (dflt, [hook_warn name msg])))"

definition positive :: "nat option \<Rightarrow> nat option" where
  "positive n = (case n of None \<Rightarrow> None | Some k \<Rightarrow> if k > 0 then Some k else None)"

definition hook_timeout :: "str \<Rightarrow> yaml option \<Rightarrow> nat \<times> str list" where
  "hook_timeout name v = opt_setting name ''invalid timeout, using the default'' DEFAULT_HOOK_TIMEOUT_SECS
     (\<lambda>y. positive (parse_duration_yaml y)) v"

definition hook_delivery :: "str \<Rightarrow> yaml option \<Rightarrow> hook_deliver \<times> str list" where
  "hook_delivery name v = (case v of None \<Rightarrow> (DNone, [])
     | Some (YString s) \<Rightarrow>
       if trim s = ''none'' then (DNone, []) else if trim s = ''context'' then (DContext, [])
       else if trim s = ''wake'' then (DWake, [])
       else (DNone, [hook_warn name (''unknown deliver '' @ [CHR 0x27] @ trim s @ [CHR 0x27] @ '', using '' @ [CHR 0x27]
       @ ''none'' @ [CHR 0x27])])
     | Some _ \<Rightarrow> (DNone, [hook_warn name (''invalid '' @ [CHR 0x27] @ ''deliver'' @ [CHR 0x27] @ '', using '' @ [CHR 0x27]
       @ ''none'' @ [CHR 0x27])]))"

text \<open>\<open>usize\<close> has 64 bits, so the cast of \<open>max_bytes\<close> keeps the number.\<close>

definition hook_max_bytes :: "str \<Rightarrow> yaml option \<Rightarrow> nat \<times> str list" where
  "hook_max_bytes name v = opt_setting name (''invalid '' @ [CHR 0x27] @ ''max_bytes'' @ [CHR 0x27] @ '', using the default'') DEFAULT_HOOK_MAX_BYTES
     (\<lambda>y. case y of YNumber n \<Rightarrow> positive (yn_as_u64 n) | _ \<Rightarrow> None) v"

definition hook_throttle :: "str \<Rightarrow> yaml option \<Rightarrow> nat option \<times> str list" where
  "hook_throttle name v = opt_setting name ''invalid throttle, ignoring'' None
     (\<lambda>y. map_option Some (parse_duration_yaml y)) v"

definition build_hook :: "str \<Rightarrow> raw_hook \<Rightarrow> parsed_hook" where
  "build_hook name raw =
     (let (cmd, w1) = hook_command name (rh_command raw);
          (on, w2) = hook_ons name (rh_on raw);
          (tmo, w3) = hook_timeout name (rh_timeout raw);
          (dlv, w4) = hook_delivery name (rh_deliver raw);
          (mx, w5) = hook_max_bytes name (rh_max_bytes raw);
          (thr, w6) = hook_throttle name (rh_throttle raw)
      in \<lparr>ph_def = \<lparr>hd_description = (case rh_description raw of None \<Rightarrow> None
              | Some d \<Rightarrow> if trim d = [] then None else Some d),
            hd_on = on, hd_command = cmd, hd_timeout_secs = tmo, hd_deliver = dlv, hd_max_bytes = mx,
            hd_throttle_secs = thr\<rparr>,
          ph_warnings = w1 @ w2 @ w3 @ w4 @ w5 @ w6\<rparr>)"

definition parse_hook_file :: "(str \<Rightarrow> raw_hook option) \<Rightarrow> str \<Rightarrow> str \<Rightarrow> hook_parse" where
  "parse_hook_file from_yaml name content =
     (case fst (split_frontmatter content) of None \<Rightarrow> NotHook False
      | Some y \<Rightarrow> (case from_yaml y of None \<Rightarrow> BadHook
        | Some raw \<Rightarrow>
          if rh_hook raw \<noteq> Some (YBool True)
          then NotHook (rh_hook raw \<noteq> Some (YBool False)
                 \<and> (rh_on raw \<noteq> None \<or> rh_command raw \<noteq> None \<or> rh_deliver raw \<noteq> None))
          else HookOk (build_hook name raw)))"

section \<open>Discovery\<close>

record hook_entry =
  he_name :: str
  he_path :: path
  he_parsed :: parsed_hook

definition hook_roots :: "disk \<Rightarrow> path \<Rightarrow> path option \<Rightarrow> path list" where
  "hook_roots dk dir user =
     (let fs = dk_fs dk;
          roots = foldl (\<lambda>roots d. push_dir fs roots (path_join (path_join d ''.autofork'') ''hooks'')) []
            (ancestors (canonical fs dir))
      in case user of None \<Rightarrow> roots | Some u \<Rightarrow> push_user_dir fs roots u)"

definition insert_hook ::
    "disk \<Rightarrow> (str \<Rightarrow> raw_hook option) \<Rightarrow> str \<Rightarrow> path \<Rightarrow> hook_entry list \<times> str list \<Rightarrow> hook_entry list \<times> str list" where
  "insert_hook dk from_yaml name p acc = (case acc of (es, ws) \<Rightarrow>
     (case fs_read (dk_fs dk) p of
        None \<Rightarrow> (es, ws @ [(''failed to read '' @ p @ '': '' @ dk_err dk p)])
      | Some content \<Rightarrow> (case parse_hook_file from_yaml name content of
          NotHook True \<Rightarrow> (es, ws @ [p @ ('' has hook-like frontmatter but no '' @ [CHR 0x60] @ ''hook: true'' @ [CHR 0x60]
       @ '' '' @ em_dash @ '' not treated as a hook'')])
        | NotHook False \<Rightarrow> (es, ws)
        | BadHook \<Rightarrow> (es, ws @ [(''hook '' @ [CHR 0x27] @ name @ [CHR 0x27] @ '' at '' @ p
       @ '' has invalid frontmatter YAML, skipped'')])
        | HookOk parsed \<Rightarrow> (case find (\<lambda>e. he_name e = name) es of
            Some e \<Rightarrow> (es, if path_eq (he_path e) p then ws
                else ws @ [(''hook '' @ [CHR 0x27] @ name @ [CHR 0x27] @ '' at '' @ p @ '' shadowed by ''
       @ he_path e)])
          | None \<Rightarrow> (es @ [\<lparr>he_name = name, he_path = p, he_parsed = parsed\<rparr>], ws)))))"

definition scan_hooks_dir ::
    "disk \<Rightarrow> (str \<Rightarrow> raw_hook option) \<Rightarrow> path \<Rightarrow> hook_entry list \<times> str list \<Rightarrow> hook_entry list \<times> str list" where
  "scan_hooks_dir dk from_yaml root acc =
     scan_tree (Suc MAX_HOOK_NESTING_DEPTH) dk ''HOOK.md'' (insert_hook dk from_yaml) root acc"

definition discover_hooks ::
    "disk \<Rightarrow> (str \<Rightarrow> raw_hook option) \<Rightarrow> path \<Rightarrow> path option \<Rightarrow> hook_entry list \<times> str list" where
  "discover_hooks dk from_yaml dir user =
     foldl (\<lambda>acc root. scan_hooks_dir dk from_yaml root acc) ([], []) (hook_roots dk dir user)"

section \<open>Well-formedness\<close>

fun wf_hook_on :: "hook_on \<Rightarrow> bool" where
  "wf_hook_on (HChanged p) \<longleftrightarrow> p \<noteq> [] \<and> trim p = p"
| "wf_hook_on (HEvent n) \<longleftrightarrow> n \<noteq> [] \<and> trim n = n"
| "wf_hook_on _ \<longleftrightarrow> True"

definition wf_hook :: "hook_def \<Rightarrow> bool" where
  "wf_hook d \<longleftrightarrow> list_all wf_hook_on (hd_on d) \<and> trim (hd_command d) = hd_command d
     \<and> hd_timeout_secs d > 0 \<and> hd_max_bytes d > 0 \<and> (case hd_description d of None \<Rightarrow> True | Some s \<Rightarrow> trim s \<noteq> [])"

lemma trim_Nil: "trim [] = []"
  by (simp add: trim_def trim_start_def trim_end_def)

text \<open>A file that is taken as a hook yields a well-formed definition.\<close>

lemma parse_on_entry_wf: "fst (parse_on_entry v) = Some on \<Longrightarrow> wf_hook_on on"
  by (auto simp: parse_on_entry_def on_word_def on_keyed_def parse_changed_on_def parse_event_on_def Let_def
      trim_trim split: yaml.splits option.splits if_splits list.splits)

lemma collect_warn_wf: "(\<And>x y. fst (f x) = Some y \<Longrightarrow> P y) \<Longrightarrow> list_all P (fst (collect_warn f xs))"
  unfolding list_all_iff by (meson collect_warn_set)

lemma hook_ons_wf: "list_all wf_hook_on (fst (hook_ons name v))"
proof (cases v)
  case (Some y)
  have "list_all wf_hook_on (fst (collect_warn parse_on_entry xs))" for xs
    by (rule collect_warn_wf) (rule parse_on_entry_wf)
  then show ?thesis using Some by (simp add: hook_ons_def split_beta)
qed (simp add: hook_ons_def)

lemma opt_setting_cases:
  "fst (opt_setting name msg dflt rd v) = dflt \<or> (\<exists>y. v = Some y \<and> rd y = Some (fst (opt_setting name msg dflt rd v)))"
  by (auto simp: opt_setting_def split: option.splits)

lemma positive_Some: "positive n = Some k \<Longrightarrow> k > 0"
  by (auto simp: positive_def split: option.splits if_splits)

lemma build_hook_wf: "wf_hook (ph_def (build_hook name raw))"
proof -
  have t: "fst (hook_timeout name v) > 0" for v
    using opt_setting_cases[of name _ DEFAULT_HOOK_TIMEOUT_SECS _ v] positive_Some
    unfolding hook_timeout_def DEFAULT_HOOK_TIMEOUT_SECS_def by (metis zero_less_numeral)
  have m: "fst (hook_max_bytes name v) > 0" for v
    by (auto simp: hook_max_bytes_def opt_setting_def DEFAULT_HOOK_MAX_BYTES_def positive_Some
        split: option.split yaml.split)
  have c: "trim (fst (hook_command name v)) = fst (hook_command name v)" for v
    by (auto simp: hook_command_def Let_def trim_trim trim_Nil split: option.split yaml.split)
  show ?thesis
    using t m c hook_ons_wf by (auto simp: wf_hook_def build_hook_def split_beta split: option.splits)
qed

lemma parse_hook_file_wf: "parse_hook_file from_yaml name c = HookOk p \<Longrightarrow> wf_hook (ph_def p)"
  by (auto simp: parse_hook_file_def build_hook_wf split: option.splits if_splits)

text \<open>Entries of a scan: names are distinct, every entry is the parse of its file, and what was
  there before stays in front.\<close>

definition hooks_ok :: "disk \<Rightarrow> (str \<Rightarrow> raw_hook option) \<Rightarrow> hook_entry list \<Rightarrow> bool" where
  "hooks_ok dk from_yaml es \<longleftrightarrow> distinct (map he_name es)
     \<and> (\<forall>e\<in>set es. wf_hook (ph_def (he_parsed e)) \<and> (\<exists>c. fs_read (dk_fs dk) (he_path e) = Some c
           \<and> parse_hook_file from_yaml (he_name e) c = HookOk (he_parsed e)))"

lemma insert_hook_ok:
  "hooks_ok dk from_yaml (fst acc) \<Longrightarrow> hooks_ok dk from_yaml (fst (insert_hook dk from_yaml name p acc))"
  by (auto simp: insert_hook_def hooks_ok_def find_None_iff intro: parse_hook_file_wf
      split: prod.splits option.splits hook_parse.splits bool.splits if_splits)

lemma insert_hook_extends: "extends acc (insert_hook dk from_yaml name p acc)"
  by (auto simp: insert_hook_def extends_def split: prod.splits option.splits hook_parse.splits bool.splits)

interpretation hook_walk: insertion "insert_hook dk from_yaml" "\<lambda>acc. hooks_ok dk from_yaml (fst acc)" extends
  for dk from_yaml
  by unfold_locales (auto simp: insert_hook_ok insert_hook_extends extends_refl intro: extends_trans)

text \<open>Hook discovery yields one definition per name, each the parse of its own file and
  well-formed: its triggers are trimmed and not empty, its command trimmed, its timeout and its
  block size positive.\<close>

theorem discovered_hooks_ok: "hooks_ok dk from_yaml (fst (discover_hooks dk from_yaml dir user))"
  unfolding discover_hooks_def scan_hooks_dir_def
  by (intro hook_walk.foldl_keeps hook_walk.scan_tree_keeps) (auto simp: hooks_ok_def)

end
