(* ===== verification/Transcript.thy ===== *)
theory Transcript
  imports Wake Tables
begin

text \<open>
  \<open>autofork-daemon/src/transcript.rs\<close>: the tail reader of a session transcript. JSON values are
  the datatype \<open>json\<close> (an object is its entries, the keys distinct); the parser of \<open>serde_json\<close> is
  a parameter. A file is its bytes; reading it fails (\<open>None\<close>) when a line is not UTF-8, as
  \<open>BufRead::read_line\<close> does.
\<close>

section \<open>JSON\<close>

datatype jnum = JInt int | JFloat str

datatype json = JNull | JBool bool | JNum jnum | JStr str | JArr "json list" | JObj "(str \<times> json) list"

fun j_get :: "json \<Rightarrow> str \<Rightarrow> json option" where
  "j_get (JObj m) k = map_of m k"
| "j_get _ k = None"

fun j_str :: "json \<Rightarrow> str option" where
  "j_str (JStr s) = Some s"
| "j_str _ = None"

fun j_arr :: "json \<Rightarrow> json list option" where
  "j_arr (JArr xs) = Some xs"
| "j_arr _ = None"

fun j_u64 :: "json \<Rightarrow> nat option" where
  "j_u64 (JNum (JInt i)) = (if 0 \<le> i \<and> i < 2 ^ 64 then Some (nat i) else None)"
| "j_u64 _ = None"

definition j_get_str :: "json \<Rightarrow> str \<Rightarrow> str option" where
  "j_get_str v k = Option.bind (j_get v k) j_str"

section \<open>UTF-8\<close>

definition byte_in :: "nat \<Rightarrow> nat \<Rightarrow> char \<Rightarrow> bool" where
  "byte_in lo hi c \<longleftrightarrow> lo \<le> (of_char c :: nat) \<and> (of_char c :: nat) \<le> hi"

text \<open>The well-formed byte sequences; \<open>None\<close> for an ill-formed head, else what follows the first
  character.\<close>

definition utf8_tail :: "str \<Rightarrow> str option" where
  "utf8_tail s = (case s of
     [] \<Rightarrow> None
   | a # r \<Rightarrow>
     if byte_in 0 0x7F a then Some r
     else (case r of
       [] \<Rightarrow> None
     | b # r2 \<Rightarrow>
       if byte_in 0xC2 0xDF a then (if byte_in 0x80 0xBF b then Some r2 else None)
       else (case r2 of
         [] \<Rightarrow> None
       | c # r3 \<Rightarrow>
         if byte_in 0xE0 0xEF a
         then (if (if byte_in 0xE0 0xE0 a then byte_in 0xA0 0xBF b
                   else if byte_in 0xED 0xED a then byte_in 0x80 0x9F b else byte_in 0x80 0xBF b)
                 \<and> byte_in 0x80 0xBF c then Some r3 else None)
         else (case r3 of
           [] \<Rightarrow> None
         | d # r4 \<Rightarrow>
           if byte_in 0xF0 0xF4 a
              \<and> (if byte_in 0xF0 0xF0 a then byte_in 0x90 0xBF b
                 else if byte_in 0xF4 0xF4 a then byte_in 0x80 0x8F b else byte_in 0x80 0xBF b)
              \<and> byte_in 0x80 0xBF c \<and> byte_in 0x80 0xBF d
           then Some r4 else None))))"

lemma utf8_tail_shorter: "utf8_tail s = Some r \<Longrightarrow> length r < length s"
  by (auto simp: utf8_tail_def split: list.splits if_splits)

function valid_utf8 :: "str \<Rightarrow> bool" where
  "valid_utf8 s = (if s = [] then True else case utf8_tail s of None \<Rightarrow> False | Some r \<Rightarrow> valid_utf8 r)"
  by pat_completeness auto
termination by (relation "measure length") (auto simp: utf8_tail_shorter)

declare valid_utf8.simps [simp del]

section \<open>The delta\<close>

record delta =
  dl_new_offset :: nat
  dl_prompt_tokens :: "nat option"
  dl_model :: "str option"
  dl_spawns :: "(str \<times> str option) list"
  dl_task_ids :: "(str \<times> str) list"
  dl_stopped_tasks :: "str list"
  dl_notifications :: "task_notification list"

definition delta_at :: "nat \<Rightarrow> delta" where
  "delta_at offset = \<lparr>dl_new_offset = offset, dl_prompt_tokens = None, dl_model = None, dl_spawns = [],
     dl_task_ids = [], dl_stopped_tasks = [], dl_notifications = []\<rparr>"

section \<open>Assistant entries\<close>

definition fork_name_from_prompt :: "str \<Rightarrow> str option" where
  "fork_name_from_prompt prompt = (case find_sub SPAWN_CTX_PREFIX prompt of
     None \<Rightarrow> None
   | Some i \<Rightarrow> (let rest = drop (i + length SPAWN_CTX_PREFIX) prompt; name = takeWhile (\<lambda>c. c \<noteq> CHR 0x27) rest
       in if CHR 0x27 \<notin> set rest \<or> name = [] then None else Some name))"

definition usage_total :: "json \<Rightarrow> nat" where
  "usage_total usage =
     (let field = (\<lambda>k. case Option.bind (j_get usage k) j_u64 of None \<Rightarrow> 0 | Some n \<Rightarrow> n)
      in wrap_u64 (field ''input_tokens'' + field ''cache_read_input_tokens'' + field ''cache_creation_input_tokens''))"

definition scan_block :: "json \<Rightarrow> delta \<Rightarrow> delta" where
  "scan_block block d =
     (if j_get_str block ''type'' \<noteq> Some ''tool_use'' then d
      else if j_get_str block ''name'' = Some ''TaskStop''
        then (case Option.bind (j_get block ''input'') (\<lambda>i. j_get_str i ''task_id'') of
            None \<Rightarrow> d
          | Some t \<Rightarrow> if t = [] then d else d\<lparr>dl_stopped_tasks := dl_stopped_tasks d @ [t]\<rparr>)
      else if j_get_str block ''name'' \<noteq> Some ''Agent'' then d
      else (case (j_get_str block ''id'', j_get block ''input'') of
          (Some i, Some input) \<Rightarrow>
            if j_get_str input ''subagent_type'' \<noteq> Some ''fork'' then d
            else d\<lparr>dl_spawns := dl_spawns d @ [(i, Option.bind (j_get_str input ''prompt'') fork_name_from_prompt)]\<rparr>
        | _ \<Rightarrow> d))"

definition scan_assistant :: "json \<Rightarrow> delta \<Rightarrow> delta" where
  "scan_assistant v d = (case j_get v ''message'' of
     None \<Rightarrow> d
   | Some message \<Rightarrow>
     (let d1 = (case j_get_str message ''model'' of None \<Rightarrow> d | Some m \<Rightarrow> d\<lparr>dl_model := Some m\<rparr>);
          d2 = (case j_get message ''usage'' of None \<Rightarrow> d1
            | Some u \<Rightarrow> if usage_total u > 0 then d1\<lparr>dl_prompt_tokens := Some (usage_total u)\<rparr> else d1)
      in case Option.bind (j_get message ''content'') j_arr of
           None \<Rightarrow> d2 | Some blocks \<Rightarrow> fold scan_block blocks d2))"

section \<open>User entries\<close>

definition result_texts :: "json \<Rightarrow> str list" where
  "result_texts block = (case j_get block ''content'' of
     Some (JStr s) \<Rightarrow> [s]
   | Some (JArr items) \<Rightarrow>
       List.map_filter (\<lambda>i. j_get_str i ''text'') (filter (\<lambda>i. j_get_str i ''type'' = Some ''text'') items)
   | _ \<Rightarrow> [])"

definition TASK_ID_PREFIXES :: "str list" where
  "TASK_ID_PREFIXES = [''agentId: '', ''running in background with ID: '', ''Monitor started (task '']"

text \<open>\<open>min_by_key\<close> keeps the first of equal keys.\<close>

definition earliest :: "(nat \<times> nat) option \<Rightarrow> nat \<times> nat \<Rightarrow> (nat \<times> nat) option" where
  "earliest best x = (case best of None \<Rightarrow> Some x | Some y \<Rightarrow> if snd x < snd y then Some x else Some y)"

definition background_task_id :: "str \<Rightarrow> str option" where
  "background_task_id txt =
     (case foldl earliest None (List.map_filter (\<lambda>p. map_option (\<lambda>i. (i + length p, i)) (find_sub p txt))
              TASK_ID_PREFIXES) of
        None \<Rightarrow> None
      | Some (start, _) \<Rightarrow> (let t = takeWhile (\<lambda>c. is_alnum c \<or> c = CHR ''-'' \<or> c = CHR ''_'') (drop start txt)
          in if t = [] then None else Some t))"

definition scan_note :: "str option \<Rightarrow> delta \<Rightarrow> delta" where
  "scan_note txt d = (case Option.bind txt parse_task_notification of
     None \<Rightarrow> d | Some n \<Rightarrow> d\<lparr>dl_notifications := dl_notifications d @ [n]\<rparr>)"

definition scan_user_block :: "json \<Rightarrow> delta \<Rightarrow> delta" where
  "scan_user_block block d =
     (if j_get_str block ''type'' = Some ''tool_result''
        then (case j_get_str block ''tool_use_id'' of
            None \<Rightarrow> d
          | Some tool \<Rightarrow> d\<lparr>dl_task_ids := dl_task_ids d
              @ map (\<lambda>t. (tool, t)) (List.map_filter background_task_id (result_texts block))\<rparr>)
      else if j_get_str block ''type'' = Some ''text'' then scan_note (j_get_str block ''text'') d
      else d)"

definition scan_user :: "json \<Rightarrow> delta \<Rightarrow> delta" where
  "scan_user v d = (case Option.bind (j_get v ''message'') (\<lambda>m. j_get m ''content'') of
     Some (JStr txt) \<Rightarrow> scan_note (Some txt) d
   | Some (JArr blocks) \<Rightarrow> fold scan_user_block blocks d
   | _ \<Rightarrow> d)"

section \<open>Reading\<close>

definition scan_value :: "json \<Rightarrow> delta \<Rightarrow> delta" where
  "scan_value v d = (if j_get_str v ''type'' = Some ''assistant'' then scan_assistant v d
     else if j_get_str v ''type'' = Some ''user'' then scan_user v d else d)"

definition scan_line :: "(str \<Rightarrow> json option) \<Rightarrow> str \<Rightarrow> delta \<Rightarrow> delta" where
  "scan_line from_json line d =
     (let d1 = d\<lparr>dl_new_offset := dl_new_offset d + length line\<rparr>
      in case from_json line of None \<Rightarrow> d1 | Some v \<Rightarrow> scan_value v d1)"

text \<open>The first line with its newline, and the rest; without a newline, everything.\<close>

definition next_line :: "str \<Rightarrow> str \<times> str" where
  "next_line s = (case dropWhile (\<lambda>c. c \<noteq> nl) s of
     [] \<Rightarrow> (s, []) | _ # rest \<Rightarrow> (takeWhile (\<lambda>c. c \<noteq> nl) s @ [nl], rest))"

lemma next_line_shorter: "s \<noteq> [] \<Longrightarrow> length (snd (next_line s)) < length s"
  using length_dropWhile_le[of "\<lambda>c. c \<noteq> nl" s]
  by (auto simp: next_line_def split: list.split)

function scan_lines :: "(str \<Rightarrow> json option) \<Rightarrow> str \<Rightarrow> delta \<Rightarrow> delta option" where
  "scan_lines from_json s d =
     (if s = [] then Some d
      else let (line, rest) = next_line s
        in if \<not> valid_utf8 line then None
           else if last line \<noteq> nl then Some d
           else scan_lines from_json rest (scan_line from_json line d))"
  by pat_completeness auto
termination by (relation "measure (\<lambda>(_, s, _). length s)") (auto, metis next_line_shorter snd_conv)

declare scan_lines.simps [simp del]

text \<open>\<open>None\<close> as the file: it cannot be opened.\<close>

definition read_delta :: "(str \<Rightarrow> json option) \<Rightarrow> str option \<Rightarrow> nat \<Rightarrow> delta option" where
  "read_delta from_json file offset = (case file of
     None \<Rightarrow> None
   | Some content \<Rightarrow> (let start = (if length content < offset then 0 else offset)
       in scan_lines from_json (drop start content) (delta_at start)))"

section \<open>Deltas add up\<close>

text \<open>What reading on adds to a delta.\<close>

definition delta_add :: "delta \<Rightarrow> delta \<Rightarrow> delta" where
  "delta_add a b = \<lparr>dl_new_offset = dl_new_offset b, dl_prompt_tokens = coalesce (dl_prompt_tokens b) (dl_prompt_tokens a),
     dl_model = coalesce (dl_model b) (dl_model a), dl_spawns = dl_spawns a @ dl_spawns b,
     dl_task_ids = dl_task_ids a @ dl_task_ids b, dl_stopped_tasks = dl_stopped_tasks a @ dl_stopped_tasks b,
     dl_notifications = dl_notifications a @ dl_notifications b\<rparr>"

lemma add_fields [simp]: "dl_new_offset (delta_add a b) = dl_new_offset b"
  "dl_prompt_tokens (delta_add a b) = coalesce (dl_prompt_tokens b) (dl_prompt_tokens a)"
  "dl_model (delta_add a b) = coalesce (dl_model b) (dl_model a)"
  "dl_spawns (delta_add a b) = dl_spawns a @ dl_spawns b" "dl_task_ids (delta_add a b) = dl_task_ids a @ dl_task_ids b"
  "dl_stopped_tasks (delta_add a b) = dl_stopped_tasks a @ dl_stopped_tasks b"
  "dl_notifications (delta_add a b) = dl_notifications a @ dl_notifications b"
  by (simp_all add: delta_add_def)

lemma coalesce_simps [simp]: "coalesce (Some x) y = Some x" "coalesce None y = y"
  by (simp_all add: coalesce_def)

lemma scan_block_add: "scan_block b (delta_add a d) = delta_add a (scan_block b d)"
  by (auto simp: scan_block_def split: option.split)

lemma scan_note_add: "scan_note t (delta_add a d) = delta_add a (scan_note t d)"
  by (auto simp: scan_note_def split: option.split)

lemma scan_user_block_add: "scan_user_block b (delta_add a d) = delta_add a (scan_user_block b d)"
  by (auto simp: scan_user_block_def scan_note_add split: option.split)

lemma fold_add: "(\<And>b d. f b (delta_add a d) = delta_add a (f b d)) \<Longrightarrow> fold f bs (delta_add a d) = delta_add a (fold f bs d)"
  by (induction bs arbitrary: d) simp_all

lemma scan_value_add: "scan_value v (delta_add a d) = delta_add a (scan_value v d)"
proof -
  have "scan_assistant v (delta_add a d) = delta_add a (scan_assistant v d)"
  proof -
    have f: "fold scan_block bs (delta_add a e) = delta_add a (fold scan_block bs e)" for bs e
      by (rule fold_add) (rule scan_block_add)
    have u: "delta_add a e\<lparr>dl_model := Some m\<rparr> = delta_add a (e\<lparr>dl_model := Some m\<rparr>)"
      "delta_add a e\<lparr>dl_prompt_tokens := Some t\<rparr> = delta_add a (e\<lparr>dl_prompt_tokens := Some t\<rparr>)" for e m t
      by (simp_all add: delta_add_def)
    show ?thesis by (simp add: scan_assistant_def Let_def u f split: option.split)
  qed
  moreover have "scan_user v (delta_add a d) = delta_add a (scan_user v d)"
    using fold_add[of scan_user_block a, OF scan_user_block_add]
    by (simp add: scan_user_def scan_note_add split: option.split json.split)
  ultimately show ?thesis by (simp add: scan_value_def)
qed

lemma scan_block_offset: "dl_new_offset (scan_block b d) = dl_new_offset d"
  by (simp add: scan_block_def split: option.split)

lemma scan_note_offset: "dl_new_offset (scan_note t d) = dl_new_offset d"
  by (simp add: scan_note_def split: option.split)

lemma scan_user_block_offset: "dl_new_offset (scan_user_block b d) = dl_new_offset d"
  by (simp add: scan_user_block_def scan_note_offset split: option.split)

lemma fold_offset: "(\<And>b d. dl_new_offset (f b d) = dl_new_offset d) \<Longrightarrow> dl_new_offset (fold f bs d) = dl_new_offset d"
  by (induction bs arbitrary: d) simp_all

lemma scan_value_offset: "dl_new_offset (scan_value v d) = dl_new_offset d"
  using fold_offset[of scan_block, OF scan_block_offset] fold_offset[of scan_user_block, OF scan_user_block_offset]
  by (simp add: scan_value_def scan_assistant_def scan_user_def Let_def scan_note_offset split: option.split json.split)

lemma scan_line_props:
  "dl_new_offset (scan_line fj l d) = dl_new_offset d + length l"
  "scan_line fj l (delta_add a d) = delta_add a (scan_line fj l d)"
proof -
  have u: "(delta_add a d)\<lparr>dl_new_offset := n\<rparr> = delta_add a (d\<lparr>dl_new_offset := n\<rparr>)" for n
    by (simp add: delta_add_def)
  show "scan_line fj l (delta_add a d) = delta_add a (scan_line fj l d)"
    unfolding scan_line_def Let_def add_fields(1) u by (simp add: scan_value_add split: option.split)
qed (simp add: scan_line_def Let_def scan_value_offset split: option.split)

lemma scan_lines_add: "scan_lines fj s (delta_add a d) = map_option (delta_add a) (scan_lines fj s d)"
proof (induction fj s d rule: scan_lines.induct)
  case (1 fj s d)
  then show ?case
    by (subst (1 2) scan_lines.simps) (auto simp: Let_def scan_line_props(2) split: prod.split)
qed

lemma scan_lines_continue: "scan_lines fj s a = map_option (delta_add a) (scan_lines fj s (delta_at (dl_new_offset a)))"
proof -
  have "delta_add a (delta_at (dl_new_offset a)) = a" by (simp add: delta_add_def delta_at_def)
  with scan_lines_add[of fj s a "delta_at (dl_new_offset a)"] show ?thesis by simp
qed

text \<open>Bytes that end with a newline, and the torn line behind them.\<close>

definition complete :: "str \<Rightarrow> bool" where
  "complete s \<longleftrightarrow> s = [] \<or> last s = nl"

lemma next_line_append:
  assumes "s \<noteq> []" "complete s"
  shows "next_line (s @ r) = (fst (next_line s), snd (next_line s) @ r)" "last (fst (next_line s)) = nl"
    "complete (snd (next_line s))" "length (fst (next_line s)) + length (snd (next_line s)) = length s"
proof -
  have "nl \<in> set s" using assms last_in_set by (fastforce simp: complete_def)
  then obtain l rest where s: "s = l @ nl # rest" "nl \<notin> set l" by (meson split_list_first)
  then have "\<And>y. y \<in> set l \<Longrightarrow> y \<noteq> nl" by auto
  then have t: "takeWhile (\<lambda>c. c \<noteq> nl) (l @ nl # x) = l" "dropWhile (\<lambda>c. c \<noteq> nl) (l @ nl # x) = nl # x" for x
    using takeWhile_append2[of l "\<lambda>c. c \<noteq> nl" "nl # x"] dropWhile_append2[of l "\<lambda>c. c \<noteq> nl" "nl # x"] by auto
  show "next_line (s @ r) = (fst (next_line s), snd (next_line s) @ r)" "last (fst (next_line s)) = nl"
    "complete (snd (next_line s))" "length (fst (next_line s)) + length (snd (next_line s)) = length s"
    using assms(2) by (auto simp: next_line_def s t complete_def split: if_splits)
qed

lemma scan_lines_append:
  "complete s \<Longrightarrow> scan_lines fj (s @ r) d = Option.bind (scan_lines fj s d) (scan_lines fj r)
     \<and> (\<forall>e. scan_lines fj s d = Some e \<longrightarrow> dl_new_offset e = dl_new_offset d + length s)"
proof (induction fj s d rule: scan_lines.induct)
  case (1 fj s d)
  show ?case
  proof (cases "s = []")
    case True
    then show ?thesis by (simp add: scan_lines.simps[of fj "[]"])
  next
    case False
    note n = next_line_append[OF False 1(2)]
    obtain l rest where l: "next_line s = (l, rest)" by force
    note IH = 1(1)[OF False l[symmetric] refl]
    have a: "scan_lines fj (s @ r) d = (if \<not> valid_utf8 l then None else scan_lines fj (rest @ r) (scan_line fj l d))"
      using False n l by (subst scan_lines.simps) auto
    have b: "scan_lines fj s d = (if \<not> valid_utf8 l then None else scan_lines fj rest (scan_line fj l d))"
      using False n l by (subst scan_lines.simps) auto
    show ?thesis
    proof (cases "valid_utf8 l")
      case True
      have c: "complete rest" "length s = length l + length rest" using n l by simp_all
      have "last l = nl" using n l by simp
      with IH True c have 1: "scan_lines fj (rest @ r) (scan_line fj l d)
          = Option.bind (scan_lines fj rest (scan_line fj l d)) (scan_lines fj r)"
        and 2: "\<forall>e. scan_lines fj rest (scan_line fj l d) = Some e \<longrightarrow>
          dl_new_offset e = dl_new_offset (scan_line fj l d) + length rest" by blast+
      show ?thesis
      proof (intro conjI allI impI)
        show "scan_lines fj (s @ r) d = Option.bind (scan_lines fj s d) (scan_lines fj r)"
          by (simp only: a b 1 True not_True_eq_False if_False)
      next
        fix e assume "scan_lines fj s d = Some e"
        then have "scan_lines fj rest (scan_line fj l d) = Some e" by (simp only: b True not_True_eq_False if_False)
        with 2 show "dl_new_offset e = dl_new_offset d + length s" by (simp only: scan_line_props(1) c(2))
      qed
    qed (simp add: a b)
  qed
qed

lemma scan_lines_torn: "nl \<notin> set t \<Longrightarrow> scan_lines fj t d = (if valid_utf8 t then Some d else None)"
proof -
  assume "nl \<notin> set t"
  then have "dropWhile (\<lambda>c. c \<noteq> nl) t = []" by (induction t) auto
  then have "next_line t = (t, [])" unfolding next_line_def by (simp del: dropWhile_eq_Nil_conv)
  moreover have "t \<noteq> [] \<Longrightarrow> last t \<noteq> nl" using \<open>nl \<notin> set t\<close> last_in_set by metis
  moreover have "valid_utf8 []" by (subst valid_utf8.simps) simp
  ultimately show ?thesis by (subst scan_lines.simps) (simp add: Let_def)
qed

lemma split_torn: obtains c t where "s = c @ t" "complete c" "nl \<notin> set t"
proof
  show "s = rev (dropWhile (\<lambda>c. c \<noteq> nl) (rev s)) @ rev (takeWhile (\<lambda>c. c \<noteq> nl) (rev s))"
    by (metis rev_append rev_rev_ident takeWhile_dropWhile_id)
  show "complete (rev (dropWhile (\<lambda>c. c \<noteq> nl) (rev s)))"
    using hd_dropWhile[of "\<lambda>c. c \<noteq> nl" "rev s"] by (auto simp: complete_def last_rev)
  show "nl \<notin> set (rev (takeWhile (\<lambda>c. c \<noteq> nl) (rev s)))"
    using set_takeWhileD by fastforce
qed

text \<open>C31. Tailing a transcript is lossless: however the file was cut when it was read the first time
  - in the middle of a line too - the read that goes on from the offset it returned completes it to
  what one read of the longer file gives: every spawn, task, stop and notification exactly once and
  in order, the gauge and the model those of the last entry that had them.\<close>

theorem read_delta_incremental:
  assumes "offset \<le> length old"
    and "read_delta fj (Some old) offset = Some d1"
    and "read_delta fj (Some (old @ new)) offset = Some d"
  shows "\<exists>d2. read_delta fj (Some (old @ new)) (dl_new_offset d1) = Some d2 \<and> d = delta_add d1 d2
     \<and> dl_new_offset d1 \<le> length old"
proof -
  obtain c t where ct: "drop offset old = c @ t" "complete c" "nl \<notin> set t" using split_torn .
  have old: "scan_lines fj (c @ t) (delta_at offset) = Some d1"
    using assms(1,2) ct(1) by (simp add: read_delta_def)
  have c: "scan_lines fj c (delta_at offset) = Some d1"
    using old scan_lines_append[OF ct(2)] scan_lines_torn[OF ct(3)]
    by (cases "scan_lines fj c (delta_at offset)") (auto split: if_splits)
  then have off: "dl_new_offset d1 = offset + length c"
    using scan_lines_append[OF ct(2), of fj "[]" "delta_at offset"] by (simp add: delta_at_def)
  have len: "length old = offset + length c + length t"
    using arg_cong[OF ct(1), of length] assms(1) by simp
  have rest: "drop (dl_new_offset d1) (old @ new) = t @ new"
  proof -
    have "drop (offset + length c) old = t" by (metis ct(1) add.commute append_eq_conv_conj drop_drop)
    then show ?thesis using off len by simp
  qed
  have "scan_lines fj (c @ t @ new) (delta_at offset) = Some d"
    using assms(1,3) ct(1) by (simp add: read_delta_def)
  then have "scan_lines fj (t @ new) d1 = Some d"
    using scan_lines_append[OF ct(2), of fj "t @ new" "delta_at offset"] c by simp
  then obtain d2 where "scan_lines fj (t @ new) (delta_at (dl_new_offset d1)) = Some d2" "d = delta_add d1 d2"
    using scan_lines_continue[of fj "t @ new" d1] by auto
  then show ?thesis using rest off len by (simp add: read_delta_def)
qed

theorem read_delta_incremental_witness:
  "\<exists>d2. read_delta (\<lambda>_. None) (Some (''{}'' @ [nl] @ ''{'' @ ''}'' @ [nl])) 3 = Some d2 \<and> dl_new_offset d2 = 6"
proof -
  have old: "read_delta (\<lambda>_. None) (Some (''{}'' @ [nl] @ ''{'')) 0 = Some (delta_at 3)" by code_simp
  have new: "read_delta (\<lambda>_. None) (Some ((''{}'' @ [nl] @ ''{'') @ ''}'' @ [nl])) 0 = Some (delta_at 6)" by code_simp
  from read_delta_incremental[OF _ old new] show ?thesis by (auto simp: delta_at_def delta_add_def)
qed

section \<open>The spawn fingerprint\<close>

lemma no_overlap:
  assumes "starts_with (t @ (c # p) @ r) (c # p)" "t \<noteq> []" "c \<notin> set p"
  shows "starts_with t (c # p)"
proof (cases "length t \<ge> length (c # p)")
  case True
  then show ?thesis using assms(1) by (auto simp: starts_with_def)
next
  case False
  have "c # p = take (length (c # p)) (t @ (c # p) @ r)" using assms(1) by (simp add: starts_with_def)
  then have "(c # p) ! length t = (t @ (c # p) @ r) ! length t" using False by (metis linorder_not_le nth_take)
  then have "(c # p) ! length t = c" by (simp add: nth_append)
  moreover have "(c # p) ! length t = p ! (length t - 1)" using assms(2) by (cases t) simp_all
  ultimately show ?thesis using False assms(2,3) nth_mem[of "length t - 1" p] by (cases t) auto
qed

lemma find_first:
  assumes "\<not> str_contains front (c # p)" "c \<notin> set p"
  shows "find_sub (c # p) (front @ (c # p) @ r) = Some (length front)"
proof (rule find_sub_none_before)
  fix i assume i: "i < length front"
  show "\<not> starts_with (drop i (front @ (c # p) @ r)) (c # p)"
    using i no_overlap[of "drop i front" c p r] assms by (auto dest: str_contains_drop)
qed simp

text \<open>The fingerprint survives the trip through the session's model: the fork name the daemon
  reads out of a spawn prompt it wrote is the name of the fork, unless the path, the skill or the
  detail in front of the fingerprint holds a fingerprint of its own.\<close>

theorem spawn_fingerprint_roundtrip:
  assumes "du_name f \<noteq> []" "CHR 0x27 \<notin> set (du_name f)"
    and "\<not> str_contains (''Read the file '' @ du_path f @ '' and follow the instructions in its body.''
       @ skill_line f @ detail_line f @ '' '') SPAWN_CTX_PREFIX"
  shows "fork_name_from_prompt (spawn_prompt f sid conv root) = Some (du_name f)"
proof -
  let ?front = "''Read the file '' @ du_path f @ '' and follow the instructions in its body.''
       @ skill_line f @ detail_line f @ '' ''"
  have p: "SPAWN_CTX_PREFIX = CHR ''C'' # tl SPAWN_CTX_PREFIX" "CHR ''C'' \<notin> set (tl SPAWN_CTX_PREFIX)"
    by (simp_all add: SPAWN_CTX_PREFIX_def)
  obtain r where r: "spawn_prompt f sid conv root = ?front @ SPAWN_CTX_PREFIX @ du_name f @ CHR 0x27 # r"
    by (simp add: spawn_prompt_def)
  have "find_sub SPAWN_CTX_PREFIX (?front @ SPAWN_CTX_PREFIX @ du_name f @ CHR 0x27 # r) = Some (length ?front)"
    using find_first[of ?front "CHR ''C''" "tl SPAWN_CTX_PREFIX"] p assms(3) by simp
  moreover have "takeWhile (\<lambda>c. c \<noteq> CHR 0x27) (du_name f @ CHR 0x27 # r) = du_name f"
    using assms(2) by (subst takeWhile_append2) auto
  ultimately show ?thesis using assms(1)
    by (simp add: fork_name_from_prompt_def r del: append_assoc)
qed

definition sample_due :: due_fork where
  "sample_due = \<lparr>du_name = ''review'', du_path = ''/p/review.md'', du_trigger = ''idle:60'', du_overlap = True,
     du_after = [], du_skill = None, du_chain = False, du_model = None, du_model_fallbacks = [], du_mode = None,
     du_guard = None, du_detail = Some ''fork''\<rparr>"

theorem spawn_fingerprint_roundtrip_witness:
  "fork_name_from_prompt (spawn_prompt sample_due ''s'' ''c'' ''/p'') = Some ''review''"
proof -
  have "\<not> str_contains (''Read the file '' @ du_path sample_due @ '' and follow the instructions in its body.''
       @ skill_line sample_due @ detail_line sample_due @ '' '') SPAWN_CTX_PREFIX"
    by code_simp
  with spawn_fingerprint_roundtrip[of sample_due "''s''" "''c''" "''/p''"] show ?thesis
    by (simp add: sample_due_def)
qed

end
