(* ===== verification/Runenv.thy ===== *)
theory Runenv
  imports Paths
begin

text \<open>
  \<open>autofork-core/src/runenv.rs\<close>: the credential environment a client's hook captures and the daemon
  applies to the children it spawns for that session. An environment is a list of assignments of
  which the last one counts, as \<open>Command::env\<close> overwrites; \<open>child_env\<close> is what a child sees.
\<close>

section \<open>Capturing\<close>

definition OAUTH_TOKEN_OVERRIDE :: str where
  "OAUTH_TOKEN_OVERRIDE = ''AUTOFORK_CLAUDE_CODE_OAUTH_TOKEN''"

definition OAUTH_TOKEN :: str where
  "OAUTH_TOKEN = ''CLAUDE_CODE_OAUTH_TOKEN''"

definition NAMES :: "str list" where
  "NAMES = [''ANTHROPIC_API_KEY'', ''ANTHROPIC_AUTH_TOKEN'', ''ANTHROPIC_BASE_URL'',
     ''ANTHROPIC_CUSTOM_HEADERS'', ''CLAUDE_CODE_OAUTH_TOKEN'', OAUTH_TOKEN_OVERRIDE, ''CLAUDE_CONFIG_DIR'',
     ''CLAUDE_CODE_USE_BEDROCK'', ''CLAUDE_CODE_USE_VERTEX'', ''AWS_ACCESS_KEY_ID'',
     ''AWS_BEARER_TOKEN_BEDROCK'', ''AWS_DEFAULT_REGION'', ''AWS_PROFILE'', ''AWS_REGION'',
     ''AWS_SECRET_ACCESS_KEY'', ''AWS_SESSION_TOKEN'', ''ANTHROPIC_VERTEX_PROJECT_ID'', ''CLOUD_ML_REGION'',
     ''GOOGLE_APPLICATION_CREDENTIALS'', ''CODEX_API_KEY'', ''CODEX_HOME'', ''OPENAI_API_KEY'',
     ''OPENAI_BASE_URL'', ''OPENCODE_API_KEY'', ''OPENCODE_CONFIG'', ''ALL_PROXY'', ''HTTPS_PROXY'',
     ''HTTP_PROXY'', ''NO_PROXY'', ''all_proxy'', ''https_proxy'', ''http_proxy'', ''no_proxy'',
     ''NODE_EXTRA_CA_CERTS'', ''SSL_CERT_DIR'', ''SSL_CERT_FILE'']"

type_synonym getenv = "str \<Rightarrow> str option"

text \<open>An empty value counts as unset.\<close>

definition set_value :: "getenv \<Rightarrow> str \<Rightarrow> str option" where
  "set_value get n = (case get n of Some v \<Rightarrow> if v = [] then None else Some v | None \<Rightarrow> None)"

definition oauth_token_override :: "getenv \<Rightarrow> str option" where
  "oauth_token_override get = set_value get OAUTH_TOKEN_OVERRIDE"

definition name_separator :: "char \<Rightarrow> char" where
  "name_separator c = (if c \<in> {CHR 0x20, CHR 0x09, CHR 0x3B} then CHR 0x2C else c)"

definition extra_names :: "getenv \<Rightarrow> str list" where
  "extra_names get = (case get ''AUTOFORK_CARRY_ENV'' of None \<Rightarrow> []
     | Some raw \<Rightarrow> filter (\<lambda>s. s \<noteq> []) (map trim (split_on (CHR 0x2C) (map name_separator raw))))"

record run_env =
  re_names :: "str list"
  re_vars :: "(str \<times> str) list"

definition build_env :: "str list \<Rightarrow> getenv \<Rightarrow> run_env" where
  "build_env names get =
     (let vars = List.map_filter (\<lambda>n. map_option (Pair n) (get n)) names
      in \<lparr>re_names = names, re_vars = (case oauth_token_override get of None \<Rightarrow> vars
           | Some token \<Rightarrow> filter (\<lambda>(k, _). k \<noteq> OAUTH_TOKEN) vars @ [(OAUTH_TOKEN, token)])\<rparr>)"

definition capture_env :: "getenv \<Rightarrow> run_env" where
  "capture_env get = build_env (foldl push_new NAMES (extra_names get)) get"

definition capture :: "getenv \<Rightarrow> run_env option" where
  "capture get = (if get ''AUTOFORK_NO_CARRY_ENV'' \<noteq> None then None else Some (capture_env get))"

section \<open>Applying\<close>

definition to_clear :: "run_env \<Rightarrow> str list" where
  "to_clear re = foldl (\<lambda>out (k, _). push_new out k) (re_names re) (re_vars re)"

definition plan_env :: "run_env \<Rightarrow> str list \<times> (str \<times> str) list" where
  "plan_env re = (to_clear re, re_vars re)"

definition child_env :: "getenv \<Rightarrow> str list \<Rightarrow> (str \<times> str) list \<Rightarrow> getenv" where
  "child_env inherited clear vars n = (case map_of (rev vars) n of
     Some v \<Rightarrow> Some v
   | None \<Rightarrow> if n \<in> set clear then None else inherited n)"

definition apply_env :: "run_env \<Rightarrow> getenv \<Rightarrow> getenv" where
  "apply_env re inherited = child_env inherited (to_clear re) (re_vars re)"

section \<open>Laws\<close>

lemma set_push_new [simp]: "set (push_new xs x) = insert x (set xs)"
  by (auto simp: push_new_def)

lemma set_to_clear: "set (to_clear re) = set (re_names re) \<union> fst ` set (re_vars re)"
proof -
  have "set (foldl (\<lambda>out (k, _). push_new out k) xs vs) = set xs \<union> fst ` set vs" for xs and vs :: "(str \<times> str) list"
    by (induction vs arbitrary: xs) auto
  then show ?thesis by (simp add: to_clear_def)
qed

lemma apply_env_name:
  "n \<in> set (re_names re) \<or> n \<in> fst ` set (re_vars re) \<Longrightarrow> apply_env re inherited n = map_of (rev (re_vars re)) n"
  by (auto simp: apply_env_def child_env_def set_to_clear split: option.split)

lemma map_of_append_rev: "map_of (rev (xs @ ys)) n = (case map_of (rev ys) n of Some v \<Rightarrow> Some v | None \<Rightarrow> map_of (rev xs) n)"
  by (simp add: map_add_def)

lemma map_of_filter_get:
  "map_of (rev (List.map_filter (\<lambda>n. map_option (Pair n) (get n)) names)) n = (if n \<in> set names then get n else None)"
proof (induction names)
  case (Cons m names)
  then show ?case
    by (cases "get m") (auto simp: map_filter_simps map_add_def split: option.splits)
qed (simp add: map_filter_simps)

lemma map_of_filter_key: "map_of (rev (filter (\<lambda>(k, _). k \<noteq> x) vs)) n = (if n = x then None else map_of (rev vs) n)"
proof (induction vs)
  case (Cons p vs)
  then show ?case by (cases p) (auto simp: map_add_def split: option.splits)
qed simp

lemma build_env_vars:
  "map_of (rev (re_vars (build_env names get))) n =
     (if n = OAUTH_TOKEN then (case oauth_token_override get of Some v \<Rightarrow> Some v
        | None \<Rightarrow> if n \<in> set names then get n else None)
      else if n \<in> set names then get n else None)"
proof (cases "oauth_token_override get")
  case None
  then show ?thesis by (simp add: build_env_def Let_def map_of_filter_get)
next
  case (Some v)
  then show ?thesis by (simp add: build_env_def Let_def map_of_filter_get map_of_filter_key)
qed

lemma names_of_capture:
  "re_names (capture_env get) = foldl push_new NAMES (extra_names get)"
  "set (re_names (capture_env get)) = set NAMES \<union> set (extra_names get)"
proof -
  show a: "re_names (capture_env get) = foldl push_new NAMES (extra_names get)"
    by (simp add: capture_env_def build_env_def Let_def)
  have "set (foldl push_new xs ys) = set xs \<union> set ys" for xs ys :: "str list"
    by (induction ys arbitrary: xs) auto
  then show "set (re_names (capture_env get)) = set NAMES \<union> set (extra_names get)" by (simp add: a)
qed

text \<open>The environment a fork child runs with is the session's own for every carried name: what
  the client had is what the child sees, what the client lacked is unset even if the daemon inherited
  it, the override token wins over the plain one, and names that are not carried pass through.\<close>

theorem carried_env_authoritative:
  "apply_env (capture_env get) inherited n =
     (if n = OAUTH_TOKEN then (case oauth_token_override get of Some v \<Rightarrow> Some v | None \<Rightarrow> get n)
      else if n \<in> set NAMES \<union> set (extra_names get) then get n else inherited n)"
proof -
  have tok: "OAUTH_TOKEN \<in> set NAMES" by (simp add: NAMES_def OAUTH_TOKEN_def)
  have vars: "map_of (rev (re_vars (capture_env get))) n =
      (if n = OAUTH_TOKEN then (case oauth_token_override get of Some v \<Rightarrow> Some v
        | None \<Rightarrow> if n \<in> set (re_names (capture_env get)) then get n else None)
      else if n \<in> set (re_names (capture_env get)) then get n else None)"
    by (simp add: capture_env_def build_env_vars) (simp add: build_env_def Let_def)
  show ?thesis
  proof (cases "n \<in> set (re_names (capture_env get))")
    case True
    then show ?thesis using vars tok by (simp add: apply_env_name flip: names_of_capture(2))
  next
    case False
    then have "n \<noteq> OAUTH_TOKEN" using tok names_of_capture(2) by auto
    with False vars have "map_of (rev (re_vars (capture_env get))) n = None" by simp
    then have "n \<notin> fst ` set (re_vars (capture_env get))" by (simp add: map_of_eq_None_iff)
    with False \<open>n \<noteq> OAUTH_TOKEN\<close> \<open>map_of _ n = None\<close> show ?thesis
      by (simp add: apply_env_def child_env_def set_to_clear flip: names_of_capture(2))
  qed
qed

end
