(* ===== verification/World.thy ===== *)
theory World
  imports Planner_Laws Hooks Transcript Runenv
begin

text \<open>
  What the daemon sees from outside and what it keeps: the \<open>world\<close> a handler reads (files, readers of
  YAML, TOML and JSON, the process table, the clock, read once per step), the frames of
  \<open>autofork-core/src/protocol.rs\<close>, and the \<open>daemon\<close> record of \<open>autofork-daemon/src/daemon.rs\<close>. The
  processes the daemon starts (hook commands, end-runners) are recorded as values in the order they
  start; the grace timers it spawns are recorded until they fire.
\<close>

section \<open>The world\<close>

record world =
  wd_disk :: disk
  wd_bytes :: "path \<Rightarrow> str option"
  wd_yaml :: "str \<Rightarrow> raw_fork option"
  wd_hook_yaml :: "str \<Rightarrow> raw_hook option"
  wd_toml :: "str \<Rightarrow> str + raw_config"
  wd_json :: "str \<Rightarrow> json option"
  wd_pid_exists :: "nat \<Rightarrow> bool"
  wd_start_token :: "nat \<Rightarrow> int option"
  wd_base :: path
  wd_version :: str
  wd_pid :: nat
  wd_now :: int

abbreviation wd_fs :: "world \<Rightarrow> fsys" where
  "wd_fs w \<equiv> dk_fs (wd_disk w)"

text \<open>\<open>Harness::alive\<close>.\<close>

definition harness_alive :: "world \<Rightarrow> harness \<Rightarrow> bool" where
  "harness_alive w h \<longleftrightarrow> wd_pid_exists w (hp_pid h)
     \<and> (case (hp_start h, wd_start_token w (hp_pid h)) of
          (Some recorded, Some current) \<Rightarrow> recorded = current | _ \<Rightarrow> True)"

definition user_forks_root :: "world \<Rightarrow> path" where
  "user_forks_root w = path_join (wd_base w) ''forks''"

definition user_hooks_root :: "world \<Rightarrow> path" where
  "user_hooks_root w = path_join (wd_base w) ''hooks''"

definition claude_dir :: "world \<Rightarrow> path option" where
  "claude_dir w = (case fs_env (wd_fs w) ''AUTOFORK_CLAUDE_DIR'' of Some d \<Rightarrow> Some d
     | None \<Rightarrow> map_option (\<lambda>h. path_join h ''.claude'') (home_dir (wd_fs w)))"

definition agents_dir :: "world \<Rightarrow> path option" where
  "agents_dir w = (case fs_env (wd_fs w) ''AUTOFORK_AGENTS_DIR'' of Some d \<Rightarrow> Some d
     | None \<Rightarrow> map_option (\<lambda>h. path_join h ''.agents'') (home_dir (wd_fs w)))"

definition cfg_for :: "world \<Rightarrow> path option \<Rightarrow> config" where
  "cfg_for w root = fst (load_config_at (wd_toml w) (wd_fs w) root (user_config (wd_base w)))"

definition forks_for :: "world \<Rightarrow> path \<Rightarrow> fork_entry list" where
  "forks_for w cwd = fst (discover_forks (wd_disk w) (wd_yaml w) cwd (Some (user_forks_root w))
     (claude_dir w) (agents_dir w))"

definition hooks_for :: "world \<Rightarrow> path \<Rightarrow> hook_entry list" where
  "hooks_for w cwd = fst (discover_hooks (wd_disk w) (wd_hook_yaml w) cwd (Some (user_hooks_root w)))"

text \<open>What the planner reads, for a session and a configuration.\<close>

definition env_with :: "world \<Rightarrow> session_row \<Rightarrow> config \<Rightarrow> planner_env" where
  "env_with w se cfg = \<lparr>pe_fs = wd_fs w, pe_yaml = wd_yaml w,
     pe_discovered = map (\<lambda>e. (fe_name e, fe_path e)) (forks_for w (s_cwd se)), pe_cfg = cfg, pe_now = wd_now w\<rparr>"

definition env_for :: "world \<Rightarrow> session_row \<Rightarrow> planner_env" where
  "env_for w se = env_with w se (cfg_for w (Some (s_project_root se)))"

section \<open>Frames\<close>

datatype event_kind = EvSessionStart | EvPromptSubmit | EvStop | EvSessionEnd

record event =
  ev_event :: event_kind
  ev_session_id :: str
  ev_transcript_path :: "path option"
  ev_cwd :: path
  ev_project_root :: path
  ev_source :: "str option"
  ev_reason :: "str option"
  ev_model :: "str option"
  ev_enable_tags :: "str list option"
  ev_disable_tags :: "str list option"
  ev_waking :: "bool option"
  ev_notif_tool_use_id :: "str option"
  ev_notif_task_id :: "str option"
  ev_notif_status :: "str option"
  ev_notif_continue :: "bool option"
  ev_context_tokens :: "nat option"
  ev_context_window :: "nat option"
  ev_client :: "str option"
  ev_busy :: "bool option"
  ev_harness :: "harness option"
  ev_env :: "run_env option"

datatype request =
    Hello str
  | Event event
  | StopWait event
  | Status
  | ListForks path path
  | Prune
  | ForkSpawned str str str
  | ForkCompleted str str str str "bool option"
  | PeekDue str
  | SpoolReportReq str str str
  | RunStateReq str str
  | TakeReportsReq str "nat option"
  | TakeFinalRuns str
  | Emit str "str option" "path option" "str option"
  | TakeWakeBlocksReq str
  | Shutdown bool

record session_info =
  si_session_id :: str
  si_project_root :: path
  si_status :: str
  si_last_activity :: int
  si_prompt_tokens :: "nat option"
  si_stale :: bool

record run_info =
  ri_fork :: str
  ri_trigger :: str
  ri_session_id :: str
  ri_state :: str
  ri_started_at :: int

record close_info =
  ci_session_id :: str
  ci_reason :: str
  ci_closed_at :: int

record fork_info =
  ki_name :: str
  ki_path :: path
  ki_description :: "str option"
  ki_triggers :: "str list"
  ki_throttle_secs :: "nat option"
  ki_after :: "str list"
  ki_priority :: int
  ki_overlap :: bool
  ki_tags :: "str list"
  ki_skill :: "path option"
  ki_chain :: bool
  ki_gate :: bool
  ki_model :: "str option"
  ki_mode :: "str option"
  ki_guard :: "str option"
  ki_warnings :: "str list"

record status_info =
  st_version :: str
  st_daemon_proto :: nat
  st_pid :: nat
  st_sessions :: "session_info list"
  st_recent_runs :: "run_info list"
  st_running :: "run_info list"
  st_recent_closes :: "close_info list"

text \<open>\<open>FeedWake\<close>: the framed blocks, and whether they start a turn.\<close>

record feed_wake =
  fw_blocks :: "str list"
  fw_wake :: bool

datatype error_code = ProtoMismatch | BadRequest | NotFound | Internal

datatype response =
    RAck
  | RHello str
  | RWake str "wake_fork list option" "feed_wake option"
  | RWaited
  | RStatus status_info
  | RForkList "fork_info list"
  | RPruned "session_info list"
  | RDue "wake_fork list"
  | RReports "str list"
  | REmitted nat
  | RRunState bool
  | RError error_code str

section \<open>The daemon\<close>

text \<open>\<open>HookCtx\<close> of \<open>autofork-daemon/src/hooks.rs\<close>, a hook command as it is started, and an end-runner.\<close>

record hook_ctx =
  hc_session_id :: str
  hc_cwd :: path
  hc_project_root :: path
  hc_client :: "str option"
  hc_transcript_path :: "path option"

record hook_job =
  hj_hook :: str
  hj_event :: str
  hj_ctx :: hook_ctx
  hj_command :: str
  hj_cwd :: path
  hj_timeout :: nat
  hj_deliver :: hook_deliver
  hj_max_bytes :: nat
  hj_clear :: "str list"
  hj_vars :: "(str \<times> str) list"

record end_run =
  er_session_id :: str
  er_client :: str
  er_resume_target :: str
  er_cwd :: path
  er_specs :: "wake_fork list"
  er_model :: "str option"
  er_bin :: "path option"
  er_env :: "run_env option"

text \<open>The maps of \<open>Daemon\<close>. A stop-wait is known by the number it got when it registered: \<open>waits\<close> maps
  a session to its registered poll, \<open>signalled\<close> lists the polls whose channel was sent to.\<close>

record daemon =
  dm_store :: store
  waits :: "str \<rightharpoonup> nat"
  signalled :: "nat list"
  next_poll :: nat
  nudges :: "str \<Rightarrow> nat"
  wake_issued_at :: "str \<rightharpoonup> int"
  chain_continued_at :: "str \<rightharpoonup> int"
  parked :: "str \<Rightarrow> nat"
  pending_close :: "str \<rightharpoonup> nat"
  feed_inflight :: "str \<Rightarrow> nat"
  session_env :: "str \<rightharpoonup> run_env"
  close_gen :: nat
  last_busy :: int
  started_at :: int
  retiring :: bool
  hook_jobs :: "hook_job list"
  hooks_started :: "hook_job list"
  end_runs :: "end_run list"
  grace_timers :: "(str \<times> nat) list"

definition daemon_new :: "store \<Rightarrow> int \<Rightarrow> daemon" where
  "daemon_new s now = \<lparr>dm_store = s, waits = Map.empty, signalled = [], next_poll = 0, nudges = (\<lambda>_. 0),
     wake_issued_at = Map.empty, chain_continued_at = Map.empty, parked = (\<lambda>_. 0), pending_close = Map.empty,
     feed_inflight = (\<lambda>_. 0), session_env = Map.empty, close_gen = 0, last_busy = now, started_at = now,
     retiring = False, hook_jobs = [], hooks_started = [], end_runs = [], grace_timers = []\<rparr>"

definition with_store :: "(store \<Rightarrow> store) \<Rightarrow> daemon \<Rightarrow> daemon" where
  "with_store f d = d\<lparr>dm_store := f (dm_store d)\<rparr>"

definition touch_busy :: "world \<Rightarrow> daemon \<Rightarrow> daemon" where
  "touch_busy w d = d\<lparr>last_busy := wd_now w\<rparr>"

definition note_session_env :: "str \<Rightarrow> run_env option \<Rightarrow> daemon \<Rightarrow> daemon" where
  "note_session_env sid env d = (case env of None \<Rightarrow> d | Some e \<Rightarrow> d\<lparr>session_env := (session_env d)(sid \<mapsto> e)\<rparr>)"

definition forget_session_env :: "str \<Rightarrow> daemon \<Rightarrow> daemon" where
  "forget_session_env sid d = d\<lparr>session_env := (session_env d)(sid := None)\<rparr>"

definition nudge :: "str \<Rightarrow> daemon \<Rightarrow> daemon" where
  "nudge sid d = d\<lparr>nudges := (nudges d)(sid := nudges d sid + 1)\<rparr>"

definition cancel_wait :: "str \<Rightarrow> daemon \<Rightarrow> daemon" where
  "cancel_wait sid d = (case waits d sid of None \<Rightarrow> d
     | Some p \<Rightarrow> d\<lparr>waits := (waits d)(sid := None), signalled := p # signalled d\<rparr>)"

definition note_wake_issued :: "world \<Rightarrow> str \<Rightarrow> daemon \<Rightarrow> daemon" where
  "note_wake_issued w sid d = d\<lparr>wake_issued_at := (wake_issued_at d)(sid \<mapsto> wd_now w)\<rparr>"

definition note_chain_continued :: "world \<Rightarrow> str \<Rightarrow> daemon \<Rightarrow> daemon" where
  "note_chain_continued w sid d = d\<lparr>chain_continued_at := (chain_continued_at d)(sid \<mapsto> wd_now w)\<rparr>"

definition is_parked :: "daemon \<Rightarrow> str \<Rightarrow> bool" where
  "is_parked d sid \<longleftrightarrow> parked d sid > 0"

definition clear_pending_close :: "str \<Rightarrow> daemon \<Rightarrow> daemon" where
  "clear_pending_close sid d = d\<lparr>pending_close := (pending_close d)(sid := None)\<rparr>"

text \<open>\<open>ParkGuard\<close>, and \<open>FeedInflight\<close> of \<open>hooks.rs\<close>: counters held while a poll or a feed lives.\<close>

definition park :: "str \<Rightarrow> daemon \<Rightarrow> daemon" where
  "park sid d = d\<lparr>parked := (parked d)(sid := parked d sid + 1)\<rparr>"

definition unpark :: "str \<Rightarrow> daemon \<Rightarrow> daemon" where
  "unpark sid d = d\<lparr>parked := (parked d)(sid := parked d sid - 1)\<rparr>"

definition feed_hook_started :: "str \<Rightarrow> daemon \<Rightarrow> daemon" where
  "feed_hook_started key d = d\<lparr>feed_inflight := (feed_inflight d)(key := feed_inflight d key + 1)\<rparr>"

definition feed_hook_finished :: "str \<Rightarrow> daemon \<Rightarrow> daemon" where
  "feed_hook_finished key d = d\<lparr>feed_inflight := (feed_inflight d)(key := feed_inflight d key - 1)\<rparr>"

definition is_fork_run_session :: "daemon \<Rightarrow> str \<Rightarrow> bool" where
  "is_fork_run_session d i = is_fork_run_ref (dm_store d) i"

definition session_of :: "daemon \<Rightarrow> str \<Rightarrow> session_row option" where
  "session_of d sid = get_session (dm_store d) sid"

definition harness_gone :: "world \<Rightarrow> daemon \<Rightarrow> str \<Rightarrow> bool" where
  "harness_gone w d sid \<longleftrightarrow> (case session_of d sid of None \<Rightarrow> False
     | Some s \<Rightarrow> (case s_harness s of None \<Rightarrow> False | Some h \<Rightarrow> \<not> harness_alive w h))"

section \<open>Grace windows\<close>

definition wake_grace_secs :: "world \<Rightarrow> int" where
  "wake_grace_secs w = env_secs (wd_fs w) ''AUTOFORK_WAKE_GRACE_SECS'' 20"

definition chain_grace_secs :: "world \<Rightarrow> int" where
  "chain_grace_secs w = env_secs (wd_fs w) ''AUTOFORK_CHAIN_GRACE_SECS'' 20"

definition is_native_exec_client :: "str option \<Rightarrow> bool" where
  "is_native_exec_client c \<longleftrightarrow> c = Some ''opencode'' \<or> c = Some ''codex''"

definition recently_woke :: "world \<Rightarrow> daemon \<Rightarrow> str \<Rightarrow> bool" where
  "recently_woke w d sid \<longleftrightarrow> (case wake_issued_at d sid of None \<Rightarrow> False
     | Some at \<Rightarrow> i64_sub (wd_now w) at < wake_grace_secs w)"

definition recently_chain_continued :: "world \<Rightarrow> daemon \<Rightarrow> str \<Rightarrow> bool" where
  "recently_chain_continued w d sid \<longleftrightarrow> (case chain_continued_at d sid of None \<Rightarrow> False
     | Some at \<Rightarrow> i64_sub (wd_now w) at < chain_grace_secs w)"

section \<open>Frame rules\<close>

text \<open>Which fields the small operations leave alone.\<close>

named_theorems dm \<open>effect of the daemon's small operations on its fields\<close>

lemma with_store_fields [dm]:
  "dm_store (with_store f d) = f (dm_store d)" "waits (with_store f d) = waits d"
  "signalled (with_store f d) = signalled d" "next_poll (with_store f d) = next_poll d"
  "parked (with_store f d) = parked d" "pending_close (with_store f d) = pending_close d"
  "feed_inflight (with_store f d) = feed_inflight d" "close_gen (with_store f d) = close_gen d"
  "hook_jobs (with_store f d) = hook_jobs d" "end_runs (with_store f d) = end_runs d"
  "grace_timers (with_store f d) = grace_timers d" "hooks_started (with_store f d) = hooks_started d"
  by (simp_all add: with_store_def)

lemma keeps_store [dm]:
  "dm_store (touch_busy w d) = dm_store d" "dm_store (note_session_env sid env d) = dm_store d"
  "dm_store (forget_session_env sid d) = dm_store d" "dm_store (nudge sid d) = dm_store d"
  "dm_store (cancel_wait sid d) = dm_store d" "dm_store (note_wake_issued w sid d) = dm_store d"
  "dm_store (note_chain_continued w sid d) = dm_store d" "dm_store (clear_pending_close sid d) = dm_store d"
  "dm_store (park sid d) = dm_store d" "dm_store (unpark sid d) = dm_store d"
  "dm_store (feed_hook_started key d) = dm_store d" "dm_store (feed_hook_finished key d) = dm_store d"
  by (simp_all add: touch_busy_def note_session_env_def forget_session_env_def nudge_def cancel_wait_def
    note_wake_issued_def note_chain_continued_def clear_pending_close_def park_def unpark_def
    feed_hook_started_def feed_hook_finished_def split: option.split)

end
