(* ===== verification/Shell_Values.thy ===== *)
theory Shell_Values
  imports Paths Glob Frontmatter
begin

text \<open>
  The vocabulary of the shell analyser of \<open>guard/shell.rs\<close>: the effects it reports, the partly
  known values of words, the state of the walker, and the helpers every command handler uses
  (option parsing, deny patterns, paths and writes).

  The strings are byte lists; the character-wise helpers (\<open>glob_token\<close>, the unescape functions)
  only look at ASCII characters, so they act on bytes as on characters. An out-of-range slice
  panics in Rust; here it sets the flag \<open>w_panicked\<close>, which is never reset, and the run counts
  as having returned nothing.
\<close>

section \<open>Effects, values, state\<close>

datatype effect =
    EWrite path str
  | EExec path str
  | EGitRemote path str bool
  | ENetwork str
  | EPublish str str
  | EDenied str str
  | EEscalate str
  | EDisrupt str
  | EUnknown str str

datatype shval = Lit str | Unk

fun lit :: "shval \<Rightarrow> str option" where
  "lit (Lit s) = Some s"
| "lit Unk = None"

text \<open>\<open>a.lit().is_some_and(p)\<close>.\<close>

definition lit_sat :: "(str \<Rightarrow> bool) \<Rightarrow> shval \<Rightarrow> bool" where
  "lit_sat p a = (case lit a of Some s \<Rightarrow> p s | None \<Rightarrow> False)"

definition val_is :: "shval \<Rightarrow> str \<Rightarrow> bool" where
  "val_is a s \<longleftrightarrow> lit a = Some s"

definition val_starts_with :: "shval \<Rightarrow> str \<Rightarrow> bool" where
  "val_starts_with a p \<longleftrightarrow> lit_sat (\<lambda>s. starts_with s p) a"

definition is_opt :: "shval \<Rightarrow> bool" where
  "is_opt a \<longleftrightarrow> lit_sat (\<lambda>s. starts_with s ''-'' \<and> s \<noteq> ''-'') a"

text \<open>\<open>args.iter().any(|a| a.is(w1) || a.is(w2) ...)\<close>.\<close>

definition has_any :: "str list \<Rightarrow> shval list \<Rightarrow> bool" where
  "has_any ws args \<longleftrightarrow> list_ex (lit_sat (\<lambda>s. s \<in> set ws)) args"

datatype place = Known path | Lost

record walker =
  w_cwd :: place
  w_prev :: place
  w_stack :: "place list"
  w_vars :: "str \<Rightarrow> str option"
  w_functions :: "str set"
  w_effects :: "effect list"
  w_parse_error :: bool
  w_panicked :: bool

record snapshot =
  sn_cwd :: place
  sn_prev :: place
  sn_stack :: "place list"
  sn_vars :: "str \<Rightarrow> str option"

definition take_snapshot :: "walker \<Rightarrow> snapshot" where
  "take_snapshot w = \<lparr>sn_cwd = w_cwd w, sn_prev = w_prev w, sn_stack = w_stack w, sn_vars = w_vars w\<rparr>"

definition restore :: "snapshot \<Rightarrow> walker \<Rightarrow> walker" where
  "restore s w = w\<lparr>w_cwd := sn_cwd s, w_prev := sn_prev s, w_stack := sn_stack s, w_vars := sn_vars s\<rparr>"

text \<open>The syntax tree of tree-sitter, with the field under which the parent holds a node; the
  parser itself is a parameter.\<close>

datatype node = Node (n_kind: str) (n_field: "str option") (n_named: bool) (n_start: nat) (n_text: str)
  (n_children: "node list")

datatype parse_result = NoGrammar | NoTree | Parsed bool node

record shell_env =
  se_fs :: fsys
  se_parse :: "str \<Rightarrow> parse_result"
  se_trusted :: "path list"
  se_deny :: "str list list"

definition se_home :: "shell_env \<Rightarrow> path option" where
  "se_home env = home_dir (se_fs env)"

definition push :: "effect \<Rightarrow> walker \<Rightarrow> walker" where
  "push e w = w\<lparr>w_effects := w_effects w @ [e]\<rparr>"

definition unknown :: "str \<Rightarrow> str \<Rightarrow> walker \<Rightarrow> walker" where
  "unknown who why w = push (EUnknown who why) w"

definition panic :: "walker \<Rightarrow> walker" where
  "panic w = w\<lparr>w_panicked := True\<rparr>"

section \<open>Text helpers\<close>

definition excerpt_to :: "nat \<Rightarrow> str \<Rightarrow> str" where
  "excerpt_to n s = (let one = join_with '' '' (split_whitespace s)
     in if length (utf8_chars one) > n then concat (take (n - 3) (utf8_chars one)) @ ''...'' else one)"

definition excerpt :: "str \<Rightarrow> str" where
  "excerpt s = excerpt_to 100 s"

fun glob_token :: "str \<Rightarrow> str \<Rightarrow> bool" where
  "glob_token [] w = (w = [])"
| "glob_token (c # rest) w =
     (if c = CHR ''*'' then list_ex (\<lambda>i. glob_token rest (drop i w)) [0..<Suc (length w)]
      else (case w of [] \<Rightarrow> False | d # w' \<Rightarrow> d = c \<and> glob_token rest w'))"

definition is_assignment :: "str \<Rightarrow> bool" where
  "is_assignment s \<longleftrightarrow> CHR ''='' \<in> set s
     \<and> (let name = takeWhile (\<lambda>c. c \<noteq> CHR ''='') s
        in name \<noteq> [] \<and> list_all (\<lambda>c. is_alnum c \<or> c = CHR ''_'') name \<and> \<not> is_digit (hd name))"

definition is_remote_spec :: "str \<Rightarrow> bool" where
  "is_remote_spec s \<longleftrightarrow> starts_with s ''rsync://'' \<or> starts_with s ''ssh://''
     \<or> (CHR '':'' \<in> set s
        \<and> (let before = takeWhile (\<lambda>c. c \<noteq> CHR '':'') s in slash \<notin> set before \<and> before \<noteq> []))"

definition is_device :: "path \<Rightarrow> bool" where
  "is_device s \<longleftrightarrow> s \<in> {''/dev/null'', ''/dev/stdout'', ''/dev/stderr'', ''/dev/stdin''}
     \<or> starts_with s ''/dev/tty'' \<or> starts_with s ''/dev/fd/'' \<or> starts_with s ''/dev/pts/''
     \<or> s \<in> {''/dev/zero'', ''/dev/random'', ''/dev/urandom''}"

definition backslash :: char where
  "backslash = CHR 0x5C"

fun unescape_word :: "str \<Rightarrow> str" where
  "unescape_word [] = []"
| "unescape_word (c # cs) =
     (if c = backslash then (case cs of [] \<Rightarrow> [] | n # cs' \<Rightarrow> n # unescape_word cs')
      else c # unescape_word cs)"

fun unescape_dq :: "str \<Rightarrow> str" where
  "unescape_dq [] = []"
| "unescape_dq (c # cs) =
     (if c = backslash
      then (case cs of [] \<Rightarrow> [backslash]
        | n # cs' \<Rightarrow> if n \<in> {CHR 0x22, backslash, CHR 0x24, CHR 0x60, nl} then n # unescape_dq cs'
                   else backslash # unescape_dq cs)
      else c # unescape_dq cs)"

fun unescape_ansi :: "str \<Rightarrow> str" where
  "unescape_ansi [] = []"
| "unescape_ansi (c # cs) =
     (if c = backslash
      then (case cs of [] \<Rightarrow> [backslash]
        | n # cs' \<Rightarrow> (if n = CHR ''n'' then [nl] else if n = CHR ''t'' then [CHR 0x09]
                    else if n = backslash then [backslash] else if n = CHR 0x27 then [CHR 0x27]
                    else [backslash, n]) @ unescape_ansi cs')
      else c # unescape_ansi cs)"

section \<open>Options\<close>

text \<open>The arguments that are not options; the listed options take a value.\<close>

fun skip_opts :: "str list \<Rightarrow> bool \<Rightarrow> shval list \<Rightarrow> shval list" where
  "skip_opts takes opts_done [] = []"
| "skip_opts takes opts_done (a # rest) =
     (if \<not> opts_done \<and> val_is a ''--'' then skip_opts takes True rest
      else if \<not> opts_done \<and> is_opt a
        then (if lit_sat (\<lambda>s. s \<in> set takes) a then skip_opts takes opts_done (drop 1 rest)
              else skip_opts takes opts_done rest)
      else a # skip_opts takes opts_done rest)"

definition skip_opts_with :: "shval list \<Rightarrow> str list \<Rightarrow> shval list" where
  "skip_opts_with args takes = skip_opts takes False args"

text \<open>\<open>None\<close> when a trailing option that takes a value has none: the index runs past the end and
  the slice \<open>args[i..]\<close> panics.\<close>

fun strip_leading_opts :: "str list \<Rightarrow> shval list \<Rightarrow> shval list option" where
  "strip_leading_opts takes [] = Some []"
| "strip_leading_opts takes (a # rest) = (case lit a of
       None \<Rightarrow> Some (a # rest)
     | Some s \<Rightarrow>
       if s = ''--'' then Some rest
       else if s \<in> set takes then (case rest of [] \<Rightarrow> None | _ # rest' \<Rightarrow> strip_leading_opts takes rest')
       else if starts_with s ''-'' \<and> s \<noteq> ''-'' then strip_leading_opts takes rest
       else Some (a # rest))"

fun opt_inline :: "str list \<Rightarrow> str \<Rightarrow> str option" where
  "opt_inline [] s = None"
| "opt_inline (n # ns) s =
     (if starts_with n ''--'' then (case strip_prefix (n @ ''='') s of Some v \<Rightarrow> Some v | None \<Rightarrow> opt_inline ns s)
      else if length n = 2 \<and> length s > 2 \<and> starts_with s n \<and> \<not> starts_with s ''--'' then Some (drop 2 s)
      else opt_inline ns s)"

fun opt_value :: "str list \<Rightarrow> shval list \<Rightarrow> shval option" where
  "opt_value names [] = None"
| "opt_value names (a # rest) = (case lit a of
       None \<Rightarrow> opt_value names rest
     | Some s \<Rightarrow>
       if s \<in> set names then (case rest of [] \<Rightarrow> None | v # _ \<Rightarrow> Some v)
       else (case opt_inline names s of Some v \<Rightarrow> Some (Lit v) | None \<Rightarrow> opt_value names rest))"

fun non_opts_from :: "bool \<Rightarrow> shval list \<Rightarrow> shval list" where
  "non_opts_from fin [] = []"
| "non_opts_from fin (a # rest) =
     (if \<not> fin \<and> val_is a ''--'' then non_opts_from True rest
      else if \<not> fin \<and> is_opt a then non_opts_from fin rest
      else a # non_opts_from fin rest)"

definition non_opts :: "shval list \<Rightarrow> shval list" where
  "non_opts args = non_opts_from False args"

text \<open>The first non-option argument, as the tools with subcommands are read.\<close>

definition sub_word :: "shval list \<Rightarrow> str" where
  "sub_word args = (case find (\<lambda>a. \<not> is_opt a) args of
     None \<Rightarrow> [] | Some a \<Rightarrow> (case lit a of None \<Rightarrow> [] | Some s \<Rightarrow> s))"

definition first_word :: "shval list \<Rightarrow> str" where
  "first_word args = (case args of [] \<Rightarrow> [] | a # _ \<Rightarrow> (case lit a of None \<Rightarrow> [] | Some s \<Rightarrow> s))"

section \<open>The deny list\<close>

fun toks_match :: "str list \<Rightarrow> shval list \<Rightarrow> bool" where
  "toks_match [] args = True"
| "toks_match (tok # rest) args =
     (if tok = ''*'' \<and> rest = [] then True
      else (case args of [] \<Rightarrow> False
        | a # args' \<Rightarrow> (case lit a of None \<Rightarrow> True | Some s \<Rightarrow> glob_token tok s) \<and> toks_match rest args'))"

definition denied_by :: "str list list \<Rightarrow> str \<Rightarrow> str \<Rightarrow> shval list \<Rightarrow> str option" where
  "denied_by deny base name args = map_option (join_with '' '')
     (find (\<lambda>pat. (glob_token (hd pat) base \<or> glob_token (hd pat) name) \<and> toks_match (tl pat) args) deny)"

section \<open>Paths and writes\<close>

definition tilde :: "shell_env \<Rightarrow> str \<Rightarrow> shval" where
  "tilde env t =
     (if t = ''~'' then (case se_home env of Some h \<Rightarrow> Lit h | None \<Rightarrow> Unk)
      else case strip_prefix ''~/'' t of
        Some rest \<Rightarrow> (case se_home env of Some h \<Rightarrow> Lit (h @ ''/'' @ rest) | None \<Rightarrow> Unk)
      | None \<Rightarrow> if starts_with t ''~'' then Unk else Lit t)"

definition val_of_place :: "place \<Rightarrow> shval" where
  "val_of_place p = (case p of Known q \<Rightarrow> Lit q | Lost \<Rightarrow> Unk)"

definition lookup_var :: "shell_env \<Rightarrow> walker \<Rightarrow> str \<Rightarrow> shval" where
  "lookup_var env w name = (case w_vars w name of
       Some v \<Rightarrow> Lit v
     | None \<Rightarrow>
       if name = ''HOME'' then (case se_home env of Some h \<Rightarrow> Lit h | None \<Rightarrow> Unk)
       else if name = ''PWD'' then val_of_place (w_cwd w)
       else if name = ''OLDPWD'' then val_of_place (w_prev w)
       else if name \<in> set [''TMPDIR'', ''USER'', ''LOGNAME'', ''SHELL'', ''LANG'', ''TERM'', ''PATH'']
         then (case fs_env (se_fs env) name of Some v \<Rightarrow> Lit v | None \<Rightarrow> Unk)
       else Unk)"

definition resolve :: "walker \<Rightarrow> shval \<Rightarrow> place" where
  "resolve w v = (case lit v of
       None \<Rightarrow> Lost
     | Some s \<Rightarrow>
       if s = [] then Lost
       else (case (if starts_with s [slash] then Known s
                   else case w_cwd w of Known c \<Rightarrow> Known (path_join c s) | Lost \<Rightarrow> Lost) of
               Lost \<Rightarrow> Lost
             | Known p \<Rightarrow>
               (let q = normalize p
                in if has_wildcard q \<or> CHR ''['' \<in> set q \<or> CHR 0x7B \<in> set q
                   then Known (literal_prefix q) else Known q)))"

definition write_to :: "str \<Rightarrow> shval \<Rightarrow> walker \<Rightarrow> walker" where
  "write_to who v w = (case resolve w v of
       Known p \<Rightarrow> if is_device p then w else push (EWrite p who) w
     | Lost \<Rightarrow> unknown who ''targets a path autofork cannot resolve'' w)"

definition writes_to :: "str \<Rightarrow> shval list \<Rightarrow> walker \<Rightarrow> walker" where
  "writes_to who vs w = foldl (\<lambda>w v. write_to who v w) w vs"

definition write_cwd :: "str \<Rightarrow> walker \<Rightarrow> walker" where
  "write_cwd who w = (case w_cwd w of
       Known c \<Rightarrow> push (EWrite c who) w
     | Lost \<Rightarrow> unknown who ''writes into a working directory autofork lost track of'' w)"

definition write_or_cwd :: "str \<Rightarrow> shval option \<Rightarrow> walker \<Rightarrow> walker" where
  "write_or_cwd who v w = (case v of Some d \<Rightarrow> write_to who d w | None \<Rightarrow> write_cwd who w)"

text \<open>The test both the analyser (\<open>is_trusted\<close>) and the guard (\<open>writable\<close>) make: the path, its
  symlinks resolved, is one of the roots or below one.\<close>

definition under_roots :: "fsys \<Rightarrow> path list \<Rightarrow> path \<Rightarrow> bool" where
  "under_roots fs roots p = (let real = canonical_prefix fs p
     in list_ex (\<lambda>t. let t' = canonical_prefix fs t in path_eq real t' \<or> path_starts_with real t') roots)"

definition is_trusted :: "shell_env \<Rightarrow> path \<Rightarrow> bool" where
  "is_trusted env p = under_roots (se_fs env) (se_trusted env) p"

end
