(* ===== verification/Shell_Commands.thy ===== *)
theory Shell_Commands
  imports Shell_Values
begin

text \<open>
  The command table of \<open>guard/shell.rs\<close>: \<open>Walker::run\<close> and the handlers it calls. A handler group
  returns \<open>None\<close> when the command name is not one of its arms, and \<open>run_command\<close> tries the groups
  in the order of the \<open>match\<close>. Nested source text is analysed through the parameter \<open>src\<close>, and a
  wrapped command through the parameter \<open>rec\<close>; \<open>run\<close> ties that knot by recursion on the
  number of literal words left, which every wrapper decreases (\<open>run_unfold\<close> in \<open>Shell_Laws\<close>).
\<close>

type_synonym runner = "shval list \<Rightarrow> str \<Rightarrow> walker \<Rightarrow> walker"
type_synonym text_runner = "str \<Rightarrow> walker \<Rightarrow> walker"

section \<open>Directories and wrappers\<close>

definition cmd_cd :: "shell_env \<Rightarrow> shval list \<Rightarrow> walker \<Rightarrow> walker" where
  "cmd_cd env args w =
     w\<lparr>w_prev := w_cwd w,
       w_cwd := (case skip_opts_with args [] of
           [] \<Rightarrow> (case se_home env of Some h \<Rightarrow> Known h | None \<Rightarrow> Lost)
         | v # _ \<Rightarrow> if val_is v ''-'' then w_prev w else resolve w v)\<rparr>"

definition cmd_pushd :: "shval list \<Rightarrow> walker \<Rightarrow> walker" where
  "cmd_pushd args w = (case skip_opts_with args [] of
       [] \<Rightarrow> (case w_stack w of
           [] \<Rightarrow> w
         | tp # st \<Rightarrow> w\<lparr>w_cwd := tp, w_stack := w_cwd w # st\<rparr>)
     | v # _ \<Rightarrow> w\<lparr>w_cwd := resolve w v, w_prev := w_cwd w, w_stack := w_cwd w # w_stack w\<rparr>)"

definition cmd_popd :: "walker \<Rightarrow> walker" where
  "cmd_popd w = (case w_stack w of
       [] \<Rightarrow> w | tp # st \<Rightarrow> w\<lparr>w_prev := w_cwd w, w_cwd := tp, w_stack := st\<rparr>)"

definition STATE_WORDS :: "str list" where
  "STATE_WORDS = [''export'', ''local'', ''declare'', ''typeset'', ''readonly'', ''unset'', ''set'',
     ''shift'', ''return'', ''exit'', ''break'', ''continue'', ''wait'', ''trap'',
     ''ulimit'', ''umask'', ''alias'', ''unalias'', ''hash'', ''type'', ''true'', ''false'',
     '':'', ''test'', ''['', ''[['', ''read'', ''getopts'', ''let'', ''printf'', ''echo'',
     ''pwd'', ''dirs'', ''jobs'', ''fg'', ''bg'', ''disown'', ''times'', ''help'',
     ''which'', ''whereis'', ''whatis'', ''compgen'', ''complete'', ''enable'', ''logout'',
     ''suspend'', ''history'', ''fc'', ''caller'', ''mapfile'', ''readarray'', ''sleep'']"

definition run_state :: "shell_env \<Rightarrow> str \<Rightarrow> shval list \<Rightarrow> walker \<Rightarrow> walker option" where
  "run_state env base args w =
     (if base = ''cd'' then Some (cmd_cd env args w)
      else if base = ''pushd'' then Some (cmd_pushd args w)
      else if base = ''popd'' then Some (cmd_popd w)
      else if base \<in> set STATE_WORDS then Some w
      else None)"

text \<open>The options of \<open>env\<close>: the directory of \<open>-C\<close>, and what follows them; \<open>None\<close> is the slice panic.\<close>

fun env_scan :: "shval option \<Rightarrow> shval list \<Rightarrow> (shval option \<times> shval list) option" where
  "env_scan c [] = Some (c, [])"
| "env_scan c (a # rest) = (case lit a of
       None \<Rightarrow> Some (c, a # rest)
     | Some s \<Rightarrow>
       if s \<in> set [''-i'', ''--ignore-environment'', ''-0'', ''--null'', ''-v'', ''--debug''] then env_scan c rest
       else if s \<in> set [''-u'', ''--unset'', ''-S'', ''--split-string'']
         then (case rest of [] \<Rightarrow> None | _ # rest' \<Rightarrow> env_scan c rest')
       else if s \<in> set [''-C'', ''--chdir'']
         then (case rest of [] \<Rightarrow> None | d # rest' \<Rightarrow> env_scan (Some d) rest')
       else if starts_with s ''--chdir='' then env_scan (Some (Lit (drop 8 s))) rest
       else if starts_with s ''-C'' \<and> length s > 2 then env_scan (Some (Lit (drop 2 s))) rest
       else if starts_with s ''-u'' \<and> length s > 2 then env_scan c rest
       else if s = ''--'' then Some (c, rest)
       else if is_assignment s then env_scan c rest
       else if starts_with s ''-'' then env_scan c rest
       else Some (c, a # rest))"

definition cmd_env :: "shell_env \<Rightarrow> runner \<Rightarrow> shval list \<Rightarrow> str \<Rightarrow> walker \<Rightarrow> walker" where
  "cmd_env env rec args who w = (case env_scan None args of
       None \<Rightarrow> panic w
     | Some (chdir, rest) \<Rightarrow>
       if rest = [] then w
       else (case chdir of
           Some d \<Rightarrow> restore (take_snapshot w) (rec rest who (cmd_cd env [d] w))
         | None \<Rightarrow> rec rest who w))"

definition run_rest :: "runner \<Rightarrow> shval list option \<Rightarrow> str \<Rightarrow> walker \<Rightarrow> walker" where
  "run_rest rec rest who w = (case rest of None \<Rightarrow> panic w | Some argv \<Rightarrow> rec argv who w)"

definition wrapper_takes :: "str \<Rightarrow> str list" where
  "wrapper_takes base =
     (if base = ''ionice'' then [''-c'', ''-n'', ''-p'']
      else if base = ''caffeinate'' then [''-t'', ''-w'']
      else if base = ''stdbuf'' then [''-i'', ''-o'', ''-e'']
      else [])"

definition run_wrapper :: "shell_env \<Rightarrow> runner \<Rightarrow> str \<Rightarrow> shval list \<Rightarrow> str \<Rightarrow> walker \<Rightarrow> walker option" where
  "run_wrapper env rec base args who w =
     (if base = ''env'' then Some (cmd_env env rec args who w)
      else if base = ''nice''
        then Some (run_rest rec (strip_leading_opts [''-n'', ''--adjustment''] args) who w)
      else if base \<in> set [''nohup'', ''exec'', ''builtin'', ''chronic'', ''unbuffer'', ''time'', ''ionice'',
     ''caffeinate'', ''stdbuf'']
        then Some (run_rest rec (strip_leading_opts (wrapper_takes base) args) who w)
      else if base = ''timeout''
        then Some (run_rest rec (map_option (drop 1)
               (strip_leading_opts [''-s'', ''--signal'', ''-k'', ''--kill-after''] args)) who w)
      else if base = ''command''
        then Some (if has_any [''-v'', ''-V''] args then w
               else run_rest rec (strip_leading_opts [] args) who w)
      else if base \<in> set [''sudo'', ''doas'', ''su'', ''chroot'', ''pfexec''] then Some (push (EEscalate who) w)
      else None)"

section \<open>Shells and evaluators\<close>

datatype shell_input = FromText "shval option" | FromRest "shval list"

fun shell_scan :: "shval list \<Rightarrow> shell_input" where
  "shell_scan [] = FromRest []"
| "shell_scan (a # rest) = (case lit a of
       None \<Rightarrow> FromRest (a # rest)
     | Some s \<Rightarrow>
       if s = ''--'' then FromRest rest
       else if s \<in> set [''-o'', ''+o'', ''--rcfile'', ''--init-file''] then shell_scan (drop 1 rest)
       else if starts_with s ''-'' \<and> \<not> starts_with s ''--'' \<and> length s > 1
         then (if CHR ''c'' \<in> set s then FromText (case rest of [] \<Rightarrow> None | t # _ \<Rightarrow> Some t)
               else shell_scan rest)
       else if starts_with s ''--'' then shell_scan rest
       else FromRest (a # rest))"

definition SCRIPT_SHELLS :: "str list" where
  "SCRIPT_SHELLS = [''sh'', ''bash'', ''zsh'', ''dash'', ''ksh'']"

text \<open>The interpreter a script names when it is not a shell.\<close>

definition foreign_interpreter :: "str \<Rightarrow> str option" where
  "foreign_interpreter content = (case str_lines content of
       [] \<Rightarrow> None
     | first # _ \<Rightarrow> (case strip_prefix ''#!'' first of
         None \<Rightarrow> None
       | Some i \<Rightarrow>
         (let interp = trim i; ws = split_whitespace interp;
              base = last (split_on slash (if ws = [] then [] else last ws))
          in if base \<in> set SCRIPT_SHELLS
                \<or> (str_contains interp ''env'' \<and> list_ex (\<lambda>x. x \<in> set SCRIPT_SHELLS) ws)
             then None else Some base)))"

definition MAX_SCRIPT_BYTES :: nat where
  "MAX_SCRIPT_BYTES = 512 * 1024"

definition analyse_script ::
    "shell_env \<Rightarrow> text_runner \<Rightarrow> shval \<Rightarrow> str \<Rightarrow> bool \<Rightarrow> walker \<Rightarrow> walker" where
  "analyse_script env src script who isolate w = (case resolve w script of
       Lost \<Rightarrow> unknown who ''runs a script at a path autofork cannot resolve'' w
     | Known p \<Rightarrow>
       if is_trusted env p then push (EExec p who) w
       else if \<not> fs_is_file (se_fs env) p then unknown who ''runs a script autofork cannot read'' w
       else if fs_len (se_fs env) p > MAX_SCRIPT_BYTES
         then unknown who ''runs a script too large for autofork to analyse'' w
       else (case fs_read (se_fs env) p of
           None \<Rightarrow> unknown who ''runs a script autofork cannot read'' w
         | Some content \<Rightarrow> (case foreign_interpreter content of
             Some base \<Rightarrow> unknown who (''runs a '' @ base @ '' script autofork cannot see inside'') w
           | None \<Rightarrow>
             (let w' = src content (w\<lparr>w_vars := (w_vars w)(''0'' \<mapsto> p)\<rparr>)
              in if isolate then restore (take_snapshot w) w' else w'))))"

definition cmd_shell :: "shell_env \<Rightarrow> text_runner \<Rightarrow> shval list \<Rightarrow> str \<Rightarrow> walker \<Rightarrow> walker" where
  "cmd_shell env src args who w = (case shell_scan args of
       FromText (Some (Lit s)) \<Rightarrow> restore (take_snapshot w) (src s w)
     | FromText _ \<Rightarrow> unknown who ''runs shell text autofork cannot see'' w
     | FromRest [] \<Rightarrow> unknown who ''starts a shell whose input autofork cannot see'' w
     | FromRest (f # _) \<Rightarrow> analyse_script env src f who True w)"

definition cmd_eval :: "text_runner \<Rightarrow> shval list \<Rightarrow> str \<Rightarrow> walker \<Rightarrow> walker" where
  "cmd_eval src args who w =
     (if Unk \<in> set args then unknown who ''evaluates text autofork cannot see'' w
      else src (join_with '' '' (map (\<lambda>a. the (lit a)) args)) w)"

text \<open>The options of \<open>xargs\<close>: the replacement string and the command; \<open>None\<close> is the slice panic.\<close>

fun xargs_scan :: "str option \<Rightarrow> shval list \<Rightarrow> (str option \<times> shval list) option" where
  "xargs_scan r [] = Some (r, [])"
| "xargs_scan r (a # rest) = (case lit a of
       None \<Rightarrow> Some (r, a # rest)
     | Some s \<Rightarrow>
       if s = ''--'' then Some (r, rest)
       else if s \<in> set [''-I'', ''--replace'', ''-i'']
         then (let r' = (case rest of [] \<Rightarrow> None | v # _ \<Rightarrow> lit v)
               in if s = ''-i'' \<and> (case r' of None \<Rightarrow> True | Some t \<Rightarrow> starts_with t ''-'')
                  then xargs_scan (Some ''{}'') rest
                  else (case rest of [] \<Rightarrow> None | _ # rest' \<Rightarrow> xargs_scan r' rest'))
       else if starts_with s ''-I'' \<and> length s > 2 then xargs_scan (Some (drop 2 s)) rest
       else if s \<in> set [''-n'', ''-P'', ''-L'', ''-s'', ''-d'', ''-a'', ''-E'', ''--max-args'',
     ''--max-procs'', ''--max-lines'', ''--max-chars'', ''--delimiter'', ''--arg-file'',
     ''--eof'', ''--process-slot-var'']
         then (case rest of [] \<Rightarrow> None | _ # rest' \<Rightarrow> xargs_scan r rest')
       else if starts_with s ''-'' then xargs_scan r rest
       else Some (r, a # rest))"

definition blank_if :: "(str \<Rightarrow> bool) \<Rightarrow> shval \<Rightarrow> shval" where
  "blank_if p v = (if lit_sat p v then Unk else v)"

definition cmd_xargs :: "runner \<Rightarrow> shval list \<Rightarrow> str \<Rightarrow> walker \<Rightarrow> walker" where
  "cmd_xargs rec args who w = (case xargs_scan None args of
       None \<Rightarrow> panic w
     | Some (replace, cmd) \<Rightarrow>
       if cmd = [] then w
       else rec (case replace of Some r \<Rightarrow> map (blank_if (\<lambda>s. str_contains s r)) cmd | None \<Rightarrow> cmd @ [Unk]) who w)"

text \<open>What \<open>find\<close> does, in order: deletions, commands, output files.\<close>

datatype find_action = FDelete | FRun "shval list" | FPrint shval

function find_actions :: "shval list \<Rightarrow> find_action list" where
  "find_actions args = (case args of
       [] \<Rightarrow> []
     | a # rest \<Rightarrow>
       if val_is a ''-delete'' then FDelete # find_actions rest
       else if lit_sat (\<lambda>s. s \<in> set [''-exec'', ''-execdir'', ''-ok'', ''-okdir'']) a
         then (let stop = (\<lambda>v. \<not> (val_is v '';'' \<or> val_is v ''+'')); cmd = takeWhile stop rest;
                   acts = find_actions (drop (Suc (length cmd)) rest)
               in if cmd = [] then acts else FRun (map (blank_if (\<lambda>s. str_contains s ''{}'')) cmd) # acts)
       else if lit_sat (\<lambda>s. s \<in> set [''-fprint'', ''-fprint0'', ''-fprintf'', ''-fls'']) a
         then (case rest of [] \<Rightarrow> [] | f # rest' \<Rightarrow> FPrint f # find_actions rest')
       else find_actions rest)"
  by pat_completeness auto
termination
  by (relation "measure length") auto

declare find_actions.simps [simp del]

definition find_flag :: "shval \<Rightarrow> bool" where
  "find_flag a \<longleftrightarrow> lit_sat (\<lambda>s. s \<in> set [''-H'', ''-L'', ''-P'', ''-E'', ''-X'', ''-d'', ''-s'', ''-x'']) a"

definition find_expr :: "shval \<Rightarrow> bool" where
  "find_expr a \<longleftrightarrow> lit_sat (\<lambda>s. starts_with s ''-'' \<or> s = ''('' \<or> s = ''!'' \<or> s = '','') a"

definition find_paths :: "shval list \<Rightarrow> shval list" where
  "find_paths args = (let ps = takeWhile (\<lambda>a. \<not> find_expr a) (dropWhile find_flag args)
     in if ps = [] then [Lit ''.''] else ps)"

definition find_rest :: "shval list \<Rightarrow> shval list" where
  "find_rest args = dropWhile (\<lambda>a. \<not> find_expr a) (dropWhile find_flag args)"

fun find_act :: "runner \<Rightarrow> shval list \<Rightarrow> str \<Rightarrow> walker \<Rightarrow> find_action \<Rightarrow> walker" where
  "find_act rec paths who w FDelete = writes_to who paths w"
| "find_act rec paths who w (FRun cmd) = rec cmd who w"
| "find_act rec paths who w (FPrint f) = write_to who f w"

definition cmd_find :: "runner \<Rightarrow> shval list \<Rightarrow> str \<Rightarrow> walker \<Rightarrow> walker" where
  "cmd_find rec args who w =
     foldl (find_act rec (find_paths args) who) w (find_actions (find_rest args))"

function fd_runs :: "shval list \<Rightarrow> shval list list" where
  "fd_runs args = (case args of
       [] \<Rightarrow> []
     | a # rest \<Rightarrow>
       if lit_sat (\<lambda>s. s \<in> set [''-x'', ''--exec'', ''-X'', ''--exec-batch'']) a
       then (let cmd = takeWhile (\<lambda>v. \<not> val_is v '';'') rest
             in (if cmd = [] then [Unk] else map (blank_if (\<lambda>s. CHR 0x7B \<in> set s)) cmd)
                # fd_runs (drop (Suc (length cmd)) rest))
       else fd_runs rest)"
  by pat_completeness auto
termination
  by (relation "measure length") auto

declare fd_runs.simps [simp del]

definition cmd_fd :: "runner \<Rightarrow> shval list \<Rightarrow> str \<Rightarrow> walker \<Rightarrow> walker" where
  "cmd_fd rec args who w = foldl (\<lambda>w cmd. rec cmd who w) w (fd_runs args)"

definition run_shells ::
    "shell_env \<Rightarrow> text_runner \<Rightarrow> runner \<Rightarrow> str \<Rightarrow> shval list \<Rightarrow> str \<Rightarrow> walker \<Rightarrow> walker option" where
  "run_shells env src rec base args who w =
     (if base \<in> set [''bash'', ''sh'', ''zsh'', ''dash'', ''ksh'', ''mksh'', ''ash'', ''fish''] then Some (cmd_shell env src args who w)
      else if base = ''eval'' then Some (cmd_eval src args who w)
      else if base \<in> set [''source'', ''.'']
        then Some (case args of [] \<Rightarrow> w | f # _ \<Rightarrow> analyse_script env src f who False w)
      else if base \<in> set [''xargs'', ''gxargs''] then Some (cmd_xargs rec args who w)
      else if base \<in> set [''find'', ''gfind''] then Some (cmd_find rec args who w)
      else if base \<in> set [''fd'', ''fdfind''] then Some (cmd_fd rec args who w)
      else if base = ''parallel'' then Some (unknown who ''runs commands autofork cannot see'' w)
      else None)"

section \<open>Git and forges\<close>

definition join_repo :: "place \<Rightarrow> shval \<Rightarrow> place" where
  "join_repo repo d = (case lit d of
       None \<Rightarrow> Lost
     | Some s \<Rightarrow> if starts_with s [slash] then Known (normalize s)
               else (case repo of Known r \<Rightarrow> Known (normalize (path_join r s)) | Lost \<Rightarrow> Lost))"

definition arg_or_unk :: "shval list \<Rightarrow> shval" where
  "arg_or_unk rest = (case rest of [] \<Rightarrow> Unk | d # _ \<Rightarrow> d)"

fun git_scan :: "place \<Rightarrow> shval list \<Rightarrow> place \<times> shval list" where
  "git_scan repo [] = (repo, [])"
| "git_scan repo (a # rest) = (case lit a of
       None \<Rightarrow> (repo, a # rest)
     | Some s \<Rightarrow>
       if s \<in> set [''-C'', ''--git-dir'', ''--work-tree'']
         then git_scan (join_repo repo (arg_or_unk rest)) (drop 1 rest)
       else if s \<in> set [''-c'', ''--namespace'', ''--exec-path'', ''--super-prefix'', ''--config-env'', ''--list-cmds'']
         then git_scan repo (drop 1 rest)
       else if starts_with s ''--work-tree='' \<or> starts_with s ''--git-dir=''
         then git_scan (join_repo repo (Lit (drop 1 (dropWhile (\<lambda>c. c \<noteq> CHR ''='') s)))) rest
       else if starts_with s ''-C'' \<and> length s > 2 then git_scan (join_repo repo (Lit (drop 2 s))) rest
       else if starts_with s ''-'' then git_scan repo rest
       else (repo, a # rest))"

definition repo_write :: "place \<Rightarrow> str \<Rightarrow> walker \<Rightarrow> walker" where
  "repo_write repo who w = (case repo of
       Known p \<Rightarrow> push (EWrite p who) w
     | Lost \<Rightarrow> unknown who ''changes a repository autofork cannot locate'' w)"

definition repo_remote :: "place \<Rightarrow> bool \<Rightarrow> str \<Rightarrow> walker \<Rightarrow> walker" where
  "repo_remote repo publish who w = (case repo of
       Known p \<Rightarrow> push (EGitRemote p who publish) w
     | Lost \<Rightarrow> unknown who ''talks to a remote of a repository autofork cannot locate'' w)"

function strip_git_ext :: "str \<Rightarrow> str" where
  "strip_git_ext s = (if ends_with s ''.git'' then strip_git_ext (take (length s - 4) s) else s)"
  by pat_completeness auto
termination
  by (relation "measure length") (auto simp: ends_with_def starts_with_def dest: arg_cong[where f = length])

declare strip_git_ext.simps [simp del]

definition clone_name :: "str \<Rightarrow> str" where
  "clone_name url = strip_git_ext (last (split_on slash (rev (dropWhile (\<lambda>c. c = slash) (rev url)))))"

definition git_clone :: "shval list \<Rightarrow> str \<Rightarrow> walker \<Rightarrow> walker" where
  "git_clone positional who w =
     (case (case positional of [] \<Rightarrow> None
              | [u] \<Rightarrow> map_option (\<lambda>url. Lit (clone_name url)) (lit u)
              | _ \<Rightarrow> Some (last positional)) of
        None \<Rightarrow> unknown who ''clones into a place autofork cannot resolve'' w
      | Some d \<Rightarrow> (case resolve w d of
          Known p \<Rightarrow> push (EGitRemote p who False) w
        | Lost \<Rightarrow> unknown who ''clones into a place autofork cannot resolve'' w))"

definition git_config :: "shell_env \<Rightarrow> place \<Rightarrow> shval list \<Rightarrow> shval list \<Rightarrow> str \<Rightarrow> walker \<Rightarrow> walker" where
  "git_config env repo rest positional who w =
     (if has_any [''--get'', ''--get-all'', ''--get-regexp'', ''-l'', ''--list'', ''--show-origin'',
     ''--get-urlmatch'', ''--get-color'', ''--get-colorbool'', ''--show-scope''] rest
         \<or> (length positional = 1 \<and> \<not> has_any [''--unset'', ''--unset-all'', ''--add'', ''--replace-all'', ''--remove-section'',
     ''--rename-section'', ''-e'', ''--edit''] rest)
      then w
      else if has_any [''--global''] rest
        then (case se_home env of
            Some h \<Rightarrow> push (EWrite (path_join h ''.gitconfig'') who) w
          | None \<Rightarrow> unknown who ''changes the global git config'' w)
      else if has_any [''--system''] rest then push (EWrite ''/etc/gitconfig'' who) w
      else repo_write repo who w)"

definition GIT_READERS :: "str list" where
  "GIT_READERS = [''status'', ''log'', ''diff'', ''show'', ''rev-parse'', ''ls-files'', ''ls-tree'',
     ''blame'', ''describe'', ''cat-file'', ''grep'', ''shortlog'', ''var'',
     ''count-objects'', ''name-rev'', ''merge-base'', ''cherry'', ''for-each-ref'',
     ''check-ignore'', ''check-attr'', ''diff-tree'', ''diff-index'', ''diff-files'',
     ''help'', ''version'', ''--version'', ''rev-list'', ''show-ref'', ''whatchanged'',
     ''range-diff'', ''show-branch'', ''verify-commit'', ''verify-tag'', ''fsck'',
     ''annotate'', ''difftool'', ''get-tar-commit-id'', ''mailinfo'', ''merge-tree'',
     ''patch-id'', ''stripspace'', ''verify-pack'', ''check-ref-format'', ''column'',
     ''interpret-trailers'', ''web--browse'']"

definition GIT_WRITERS :: "str list" where
  "GIT_WRITERS = [''add'', ''commit'', ''checkout'', ''switch'', ''restore'', ''reset'', ''merge'',
     ''rebase'', ''rm'', ''mv'', ''clean'', ''apply'', ''cherry-pick'', ''revert'', ''am'',
     ''update-index'', ''filter-branch'', ''gc'', ''prune'', ''update-ref'', ''mergetool'',
     ''read-tree'', ''write-tree'', ''commit-tree'', ''hash-object'', ''pack-refs'',
     ''repack'', ''fast-import'', ''unpack-objects'', ''index-pack'', ''prune-packed'',
     ''checkout-index'', ''mktag'', ''mktree'', ''multi-pack-index'', ''commit-graph'',
     ''stage'', ''citool'', ''gui'', ''instaweb'']"

definition git_refs :: "place \<Rightarrow> str \<Rightarrow> shval list \<Rightarrow> shval list \<Rightarrow> str \<Rightarrow> walker \<Rightarrow> walker option" where
  "git_refs repo sub rest positional who w =
     (if sub = ''remote''
        then Some (if first_word positional \<in> set [[], ''show'', ''get-url''] then w
               else if first_word positional \<in> set [''update'', ''prune''] then repo_remote repo False who w
               else repo_write repo who w)
      else if sub = ''submodule''
        then Some (if first_word positional \<in> set [''status'', ''summary'', []] then w
               else if first_word positional \<in> set [''update'', ''add'', ''sync'', ''foreach'', ''init'']
                 then repo_remote repo False who w
               else repo_write repo who w)
      else if sub = ''branch''
        then Some (if has_any [''-d'', ''-D'', ''-m'', ''-M'', ''-c'', ''-C'', ''--delete'', ''--move'', ''--copy'',
     ''--set-upstream-to'', ''-u'', ''--unset-upstream'', ''--edit-description'', ''-f'',
     ''--force''] rest
                 \<or> (positional \<noteq> [] \<and> \<not> has_any [''-a'', ''-r'', ''-v'', ''-vv'', ''--list'', ''--show-current'', ''--contains'',
     ''--merged'', ''--no-merged'', ''--points-at'', ''-l''] rest)
               then repo_write repo who w else w)
      else if sub = ''tag''
        then Some (if positional \<noteq> [] \<and> \<not> has_any [''-l'', ''--list'', ''-n'', ''--contains'', ''--points-at'', ''--merged'',
     ''--no-merged'', ''-v'', ''--verify''] rest
               then repo_write repo who w else w)
      else if sub = ''stash''
        then Some (if first_word positional \<in> set [''list'', ''show''] then w else repo_write repo who w)
      else None)"

definition git_local ::
    "shell_env \<Rightarrow> place \<Rightarrow> str \<Rightarrow> shval list \<Rightarrow> shval list \<Rightarrow> str \<Rightarrow> walker \<Rightarrow> walker option" where
  "git_local env repo sub rest positional who w =
     (if sub = ''config'' then Some (git_config env repo rest positional who w)
      else if sub = ''worktree''
        then Some (if first_word positional \<in> set [''list'', []] then w
               else if first_word positional = ''add''
                 then (case drop 1 positional of [] \<Rightarrow> repo_write repo who w
                       | p # _ \<Rightarrow> write_to who p (repo_write repo who w))
               else repo_write repo who w)
      else if sub = ''reflog''
        then Some (if first_word positional \<in> set [''expire'', ''delete''] then repo_write repo who w else w)
      else if sub \<in> set [''notes'', ''bisect'', ''rerere'', ''sparse-checkout'', ''maintenance'', ''lfs'',
     ''replace'', ''credential'']
        then Some (if first_word positional \<in> set [''list'', ''show'', ''log'', ''visualize'', ''view'', ''status'', ''diff'', ''fill'',
     '''', ''env'', ''version''] then w
               else repo_write repo who w)
      else if sub = ''symbolic-ref''
        then Some (if length positional \<ge> 2 \<or> has_any [''-d'', ''--delete''] rest then repo_write repo who w else w)
      else if sub \<in> set [''archive'', ''format-patch'', ''bundle'']
        then Some (case opt_value [''-o'', ''--output'', ''--output-directory''] rest of
            Some f \<Rightarrow> write_to who f w
          | None \<Rightarrow>
            if sub = ''bundle'' \<and> first_word positional = ''create''
              then (case drop 1 positional of [] \<Rightarrow> w | f # _ \<Rightarrow> write_to who f w)
            else if sub = ''format-patch'' \<and> \<not> has_any [''--stdout''] rest then write_cwd who w
            else w)
      else if sub = ''init''
        then Some (case positional of d # _ \<Rightarrow> write_to who d w | [] \<Rightarrow> repo_write repo who w)
      else if sub \<in> set GIT_WRITERS then Some (repo_write repo who w)
      else None)"

definition git_sub :: "shell_env \<Rightarrow> place \<Rightarrow> str \<Rightarrow> shval list \<Rightarrow> str \<Rightarrow> walker \<Rightarrow> walker" where
  "git_sub env repo sub rest who w =
     (let positional = filter (\<lambda>a. \<not> is_opt a) rest
      in if sub \<in> set GIT_READERS then w
         else if sub = ''ls-remote'' then repo_remote repo False who w
         else if sub \<in> set [''push'', ''send-email'', ''send-pack''] then repo_remote repo True who w
         else if sub \<in> set [''fetch'', ''pull'', ''remote-update''] then repo_remote repo False who w
         else if sub = ''clone'' then git_clone positional who w
         else (case git_refs repo sub rest positional who w of
             Some w' \<Rightarrow> w'
           | None \<Rightarrow> (case git_local env repo sub rest positional who w of
               Some w' \<Rightarrow> w'
             | None \<Rightarrow> unknown who (''runs '' @ [CHR 0x60] @ ''git '' @ sub @ [CHR 0x60]
       @ '', which autofork does not know (an alias?)'') w)))"

definition cmd_git :: "shell_env \<Rightarrow> shval list \<Rightarrow> str \<Rightarrow> walker \<Rightarrow> walker" where
  "cmd_git env args who w = (case git_scan (w_cwd w) args of
       (repo, []) \<Rightarrow> w
     | (repo, a # rest) \<Rightarrow> (case lit a of
         None \<Rightarrow> unknown who ''runs a git subcommand autofork cannot resolve'' w
       | Some sub \<Rightarrow> git_sub env repo sub rest who w))"

definition forge_reads :: "shval list \<Rightarrow> bool" where
  "forge_reads args =
     (let ws = map (\<lambda>a. the (lit a)) (filter (\<lambda>a. lit a \<noteq> None) (filter (\<lambda>a. \<not> is_opt a) args));
          fst_w = (case ws of [] \<Rightarrow> [] | x # _ \<Rightarrow> x); snd_w = (case drop 1 ws of [] \<Rightarrow> [] | x # _ \<Rightarrow> x)
      in fst_w \<in> set [''help'', ''version'', ''search'', ''browse'', ''completion'', ''status'']
         \<or> (fst_w = ''auth'' \<and> snd_w \<in> set [''status'', ''token''])
         \<or> snd_w \<in> set [''view'', ''list'', ''ls'', ''status'', ''diff'', ''checks'', ''download'', ''search'',
     ''browse'', ''config'', ''help'', ''version'', ''completion'', ''whoami'', ''logs'']
         \<or> (fst_w = ''api'' \<and> \<not> list_ex (lit_sat (\<lambda>s.
              s \<in> set [''-X'', ''--method'', ''-f'', ''-F'', ''--field'', ''--raw-field'', ''--input'']
              \<or> starts_with s ''--method='' \<or> starts_with s ''-X'' \<or> starts_with s ''-f''
              \<or> starts_with s ''-F'')) args)
         \<or> (fst_w = ''run'' \<and> snd_w \<in> set [''view'', ''list'', ''watch'', ''download''])
         \<or> (fst_w = ''repo'' \<and> snd_w \<in> set [''view'', ''list'', ''clone'']))"

definition cmd_forge :: "shval list \<Rightarrow> str \<Rightarrow> walker \<Rightarrow> walker" where
  "cmd_forge args who w = (if forge_reads args then push (ENetwork who) w
     else push (EPublish who (''acts on the forge (comment, PR, issue, review, release, '' @ ellipsis @ '')'')) w)"

definition run_vcs :: "shell_env \<Rightarrow> str \<Rightarrow> shval list \<Rightarrow> str \<Rightarrow> walker \<Rightarrow> walker option" where
  "run_vcs env base args who w =
     (if base = ''git'' then Some (cmd_git env args who w)
      else if base \<in> set [''gh'', ''glab'', ''hub'', ''tea''] then Some (cmd_forge args who w)
      else if base = ''git-lfs'' then Some (unknown who ''is a git extension autofork does not analyse'' w)
      else None)"

end
