(* ===== verification/Shell_Tools.thy ===== *)
theory Shell_Tools
  imports Shell_Commands
begin

text \<open>
  The rest of the command table of \<open>guard/shell.rs\<close> - readers, interpreters, build tools, package
  managers, cloud tools, writers, system tools, programs named by path - and \<open>Walker::run\<close> itself.
\<close>

section \<open>Readers\<close>

definition READERS :: "str list" where
  "READERS = [''cat'', ''ls'', ''ll'', ''dir'', ''head'', ''tail'', ''wc'', ''grep'', ''egrep'',
     ''fgrep'', ''rg'', ''ag'', ''ack'', ''diff'', ''cmp'', ''comm'', ''stat'', ''file'',
     ''id'', ''whoami'', ''date'', ''basename'', ''dirname'', ''realpath'', ''readlink'',
     ''printenv'', ''uname'', ''sort'', ''uniq'', ''cut'', ''tr'', ''jq'', ''yq'', ''tree'',
     ''du'', ''df'', ''md5'', ''md5sum'', ''shasum'', ''sha1sum'', ''sha256sum'',
     ''sha512sum'', ''cksum'', ''xxd'', ''od'', ''hexdump'', ''strings'', ''column'',
     ''paste'', ''join'', ''less'', ''more'', ''nl'', ''tac'', ''rev'', ''fold'',
     ''expand'', ''unexpand'', ''seq'', ''bc'', ''expr'', ''hostname'', ''arch'', ''nproc'',
     ''getconf'', ''locale'', ''ps'', ''top'', ''lsof'', ''pgrep'', ''netstat'',
     ''ifconfig'', ''ip'', ''sw_vers'', ''sysctl'', ''system_profiler'', ''uptime'', ''w'',
     ''who'', ''last'', ''env_parallel'', ''look'', ''tsort'', ''fmt'', ''pr'', ''yes'',
     ''cal'', ''man'', ''info'', ''tty'', ''stty'', ''base64'', ''base32'', ''iconv'',
     ''dos2unix_'', ''sum'', ''numfmt'', ''factor'', ''units'', ''ncal'', ''ldd'',
     ''otool'', ''nm'', ''objdump'', ''readelf'', ''lipo'', ''codesign'', ''spctl'',
     ''plutil'', ''sqlite3'', ''bat'', ''exa'', ''eza'', ''lsd'', ''fzf'', ''delta'',
     ''dig'', ''nslookup'', ''host'', ''ping'', ''traceroute'', ''mtr'', ''arp'', ''route'',
     ''ss'', ''vm_stat'', ''iostat'', ''vmstat'', ''free'', ''lscpu'', ''lsblk'', ''dmesg'',
     ''journalctl'', ''watch'', ''pbpaste'', ''getent'', ''groups'', ''finger'']"

definition cmd_sqlite :: "shval list \<Rightarrow> str \<Rightarrow> walker \<Rightarrow> walker" where
  "cmd_sqlite args who w =
     (if has_any [''-readonly''] args then w
      else (case skip_opts_with args [''-init'', ''-cmd'', ''-separator'', ''-newline'', ''-nullvalue'', ''-vfs'', ''-A'',
     ''-batch_''] of
          [] \<Rightarrow> w | db # _ \<Rightarrow> write_to who db w))"

definition write_last :: "shval list \<Rightarrow> str \<Rightarrow> walker \<Rightarrow> walker" where
  "write_last vs who w = (if vs = [] then w else write_to who (last vs) w)"

definition cmd_reader :: "str \<Rightarrow> shval list \<Rightarrow> str \<Rightarrow> walker \<Rightarrow> walker" where
  "cmd_reader base args who w =
     (if base = ''sqlite3'' then cmd_sqlite args who w
      else if base \<in> set [''dig'', ''nslookup'', ''host'', ''ping'', ''traceroute'', ''mtr'']
        then push (ENetwork who) w
      else if base = ''plutil'' \<and> has_any [''-convert'', ''-insert'', ''-replace'', ''-remove''] args
        then write_last (non_opts args) who w
      else w)"

definition sed_in_place :: "str \<Rightarrow> bool" where
  "sed_in_place s \<longleftrightarrow>
     s = ''-i'' \<or> (starts_with s ''-i'' \<and> \<not> starts_with s ''--'')
     \<or> s = ''--in-place'' \<or> starts_with s ''--in-place=''
     \<or> (starts_with s ''-'' \<and> \<not> starts_with s ''--''
        \<and> ((length s > 1 \<and> CHR ''i'' \<in> set (tl s) \<and> CHR ''n'' \<notin> set (tl s))
           \<or> (list_all (\<lambda>c. c \<in> set ''nrEisuz'') (tl s) \<and> CHR ''i'' \<in> set s)))"

definition sed_files :: "shval list \<Rightarrow> shval list" where
  "sed_files args =
     (let files = filter (\<lambda>f. \<not> val_is f []) (skip_opts_with args
            [''-e'', ''-f'', ''--expression'', ''--file'', ''-l'', ''--line-length''])
      in if has_any [''-e'', ''-f''] args
            \<or> list_ex (\<lambda>a. val_starts_with a ''--expression'' \<or> val_starts_with a ''--file''
                 \<or> lit_sat (\<lambda>s. starts_with s ''-e'' \<and> length s > 2) a) args
         then files else drop 1 files)"

definition cmd_sed :: "shval list \<Rightarrow> str \<Rightarrow> walker \<Rightarrow> walker" where
  "cmd_sed args who w =
     (if \<not> list_ex (lit_sat sed_in_place) args then w
      else if sed_files args = [] then unknown who ''edits in place a file autofork cannot see'' w
      else writes_to who (sed_files args) w)"

definition awk_dangerous :: "str \<Rightarrow> bool" where
  "awk_dangerous s \<longleftrightarrow> CHR 0x3E \<in> set s \<or> str_contains s ''system('' \<or> str_contains s ''| ''
     \<or> str_contains s [CHR 0x7C, CHR 0x22]"

definition run_readers :: "str \<Rightarrow> shval list \<Rightarrow> str \<Rightarrow> walker \<Rightarrow> walker option" where
  "run_readers base args who w =
     (if base \<in> set READERS then Some (cmd_reader base args who w)
      else if base \<in> set [''sed'', ''gsed''] then Some (cmd_sed args who w)
      else if base \<in> set [''awk'', ''gawk'', ''mawk'', ''nawk'']
        then Some (if list_ex (lit_sat awk_dangerous) args
               then unknown who ''runs an awk program that writes files or commands'' w else w)
      else None)"

section \<open>Interpreters, builds, packages, infrastructure\<close>

definition cmd_tool :: "shval list \<Rightarrow> str \<Rightarrow> str list \<Rightarrow> str \<Rightarrow> walker \<Rightarrow> walker" where
  "cmd_tool args who publish_subs what w =
     (let sub = sub_word args
      in if sub \<in> set publish_subs then push (EPublish who what) w
         else if sub \<in> set [''--version'', ''-V'', ''version'', ''help'', ''--help'', ''metadata'', ''tree'',
     ''search'', ''info'', ''view'', ''show'', ''ls'', ''list'', ''outdated'', ''audit'',
     ''why'', ''explain'', ''locate-project'', ''pkgid'', ''config'', ''env'']
           then (if sub \<in> set [''search'', ''info'', ''view'', ''show'', ''audit'', ''outdated''] then push (ENetwork who) w else w)
         else unknown who ''runs a build or package tool whose effects autofork cannot see'' w)"

definition cmd_container :: "shval list \<Rightarrow> str \<Rightarrow> walker \<Rightarrow> walker" where
  "cmd_container args who w =
     (let sub = sub_word args
      in if sub \<in> set [''push'', ''login'', ''logout'', ''manifest'', ''buildx''] then push (EPublish who ''pushes container images'') w
         else if sub \<in> set [''ps'', ''images'', ''logs'', ''inspect'', ''version'', ''info'', ''stats'', ''top'',
     ''port'', ''diff'', ''history'', ''events'', ''context'']
           then push (ENetwork who) w
         else unknown who ''drives a container engine, whose effects autofork cannot see'' w)"

definition cmd_infra :: "shval list \<Rightarrow> str \<Rightarrow> walker \<Rightarrow> walker" where
  "cmd_infra args who w =
     (let sub = sub_word args
      in if sub \<in> set [''get'', ''describe'', ''logs'', ''top'', ''explain'', ''version'', ''config'',
     ''list'', ''ls'', ''status'', ''show'', ''plan'', ''validate'', ''fmt'', ''output'',
     ''state'', ''history'', ''search'', ''info'', ''whoami'', ''auth'', ''cluster-info'',
     ''api-resources'', ''api-versions'', ''diff'', ''lint'', ''template'', ''env'',
     ''repo'', ''inspect'', ''preview'', ''console'', ''help'', ''completion'']
            \<or> starts_with sub ''describe''
         then push (ENetwork who) w else push (EPublish who ''changes remote infrastructure'') w)"

definition run_builds :: "str \<Rightarrow> shval list \<Rightarrow> str \<Rightarrow> walker \<Rightarrow> walker option" where
  "run_builds base args who w =
     (if base \<in> set [''perl'', ''ruby'', ''python'', ''python2'', ''python3'', ''pythonw'', ''node'',
     ''nodejs'', ''deno'', ''bun'', ''php'', ''swift'', ''java'', ''kotlin'', ''kotlinc'',
     ''scala'', ''lua'', ''luajit'', ''tclsh'', ''Rscript'', ''R'', ''julia'', ''ghc'',
     ''runghc'', ''runhaskell'', ''elixir'', ''erl'', ''escript'', ''groovy'', ''clojure'',
     ''clj'', ''ocaml'', ''racket'', ''guile'', ''osascript'', ''open'', ''automator'',
     ''expect'']
        then Some (unknown who ''runs a program autofork cannot see inside'' w)
      else if base \<in> set [''go'', ''rustc'', ''gcc'', ''cc'', ''clang'', ''clang++'', ''g++'', ''ld'', ''make'',
     ''gmake'', ''cmake'', ''ninja'', ''gradle'', ''gradlew'', ''mvn'', ''ant'', ''sbt'',
     ''bazel'', ''bazelisk'', ''buck'', ''meson'', ''xcodebuild'', ''swiftc'', ''tsc'',
     ''esbuild'', ''vite'', ''webpack'', ''dx'', ''trunk'', ''wasm-pack'', ''zig'', ''nim'',
     ''dune'', ''stack'', ''cabal'', ''mix'', ''rebar3'', ''lein'', ''pytest'', ''tox'',
     ''nox'', ''jest'', ''mocha'', ''vitest'']
        then Some (unknown who ''builds or tests, which writes wherever the build system decides'' w)
      else if base = ''cargo''
        then Some (cmd_tool args who [''publish'', ''login'', ''owner'', ''yank''] ''publishes to crates.io'' w)
      else if base \<in> set [''npm'', ''pnpm'', ''yarn'', ''npx'', ''bunx'']
        then Some (cmd_tool args who [''publish'', ''login'', ''adduser'', ''deprecate'', ''unpublish'', ''owner'',
     ''dist-tag'']
               ''publishes to the npm registry'' w)
      else if base \<in> set [''pip'', ''pip3'', ''pipx'', ''uv'', ''poetry'', ''conda'', ''twine'', ''gem'',
     ''bundle'', ''composer'', ''cpan'', ''cpanm'', ''luarocks'', ''nix'', ''nix-env'',
     ''nix-shell'', ''flatpak'', ''snap'']
        then Some (cmd_tool args who [''upload'', ''publish'', ''push''] ''publishes a package'' w)
      else if base \<in> set [''brew'', ''apt'', ''apt-get'', ''dnf'', ''yum'', ''pacman'', ''apk'', ''port'',
     ''zypper'', ''emerge'', ''mas'']
        then Some (if sub_word args \<in> set [''list'', ''info'', ''search'', ''deps'', ''outdated'', ''config'', ''doctor'',
     ''show'', ''--prefix'', ''prefix'', ''leaves'', ''which'', ''cat'', ''home'', ''desc'',
     ''policy'', ''ls'']
               then w else unknown who ''installs or removes software system-wide'' w)
      else if base \<in> set [''docker'', ''podman'', ''nerdctl'', ''docker-compose'']
        then Some (cmd_container args who w)
      else if base \<in> set [''kubectl'', ''oc'', ''helm'', ''terraform'', ''tofu'', ''pulumi'', ''ansible'',
     ''ansible-playbook'', ''gcloud'', ''aws'', ''az'', ''flyctl'', ''fly'', ''vercel'',
     ''netlify'', ''heroku'', ''railway'', ''wrangler'', ''serverless'', ''sls'', ''cdk'',
     ''sam'', ''eb'', ''doctl'', ''linode-cli'', ''hcloud'', ''scw'', ''argocd'', ''flux'',
     ''istioctl'', ''velero'', ''k9s'', ''stern'']
        then Some (cmd_infra args who w)
      else None)"

section \<open>Writers\<close>

definition CP_TAKES :: "str list" where
  "CP_TAKES = [''-t'', ''--target-directory'', ''-m'', ''-o'', ''-g'', ''-S'', ''--suffix'', ''--backup'']"

definition MV_TAKES :: "str list" where
  "MV_TAKES = [''-t'', ''--target-directory'', ''-S'', ''--suffix'', ''--backup'']"

definition target_opt :: "shval list \<Rightarrow> shval option" where
  "target_opt args = opt_value [''-t'', ''--target-directory''] args"

definition cmd_cp :: "str \<Rightarrow> shval list \<Rightarrow> str \<Rightarrow> walker \<Rightarrow> walker" where
  "cmd_cp base args who w = (let rest = skip_opts_with args CP_TAKES
     in case target_opt args of
          Some t \<Rightarrow> write_to who t w
        | None \<Rightarrow>
          if base = ''install'' \<and> has_any [''-d''] args then writes_to who rest w
          else if length rest \<ge> 2 then write_to who (last rest) w
          else if length rest = 1 then unknown who ''has no destination autofork can see'' w
          else w)"

definition cmd_mv :: "shval list \<Rightarrow> str \<Rightarrow> walker \<Rightarrow> walker" where
  "cmd_mv args who w = (let rest = skip_opts_with args MV_TAKES
     in case target_opt args of
          Some t \<Rightarrow> write_to who t (writes_to who rest w)
        | None \<Rightarrow>
          if length rest \<ge> 2 then write_to who (last rest) (writes_to who (butlast rest) w)
          else unknown who ''has no destination autofork can see'' (writes_to who rest w))"

definition cmd_ln :: "shval list \<Rightarrow> str \<Rightarrow> walker \<Rightarrow> walker" where
  "cmd_ln args who w = (let rest = skip_opts_with args MV_TAKES
     in case target_opt args of
          Some t \<Rightarrow> write_to who t w
        | None \<Rightarrow> if length rest \<ge> 2 then write_to who (last rest) w else write_cwd who w)"

definition RSYNC_TAKES :: "str list" where
  "RSYNC_TAKES = [''-e'', ''--rsh'', ''--exclude'', ''--include'', ''--exclude-from'',
     ''--include-from'', ''--files-from'', ''--filter'', ''--log-file'',
     ''--password-file'', ''--bwlimit'', ''--timeout'', ''--port'', ''--chmod'',
     ''--chown'', ''--backup-dir'', ''--suffix'', ''--temp-dir'', ''--partial-dir'',
     ''--compare-dest'', ''--copy-dest'', ''--link-dest'', ''--max-size'', ''--min-size'',
     ''--out-format'', ''--rsync-path'']"

definition cmd_rsync :: "shval list \<Rightarrow> str \<Rightarrow> walker \<Rightarrow> walker" where
  "cmd_rsync args who w =
     (let rest = skip_opts_with args RSYNC_TAKES;
          w1 = (if list_ex (lit_sat is_remote_spec) rest then push (ENetwork who) w else w)
      in if has_any [''-n'', ''--dry-run'', ''--list-only''] args then w1
         else if rest = [] then unknown who ''has no destination autofork can see'' w1
         else if lit_sat is_remote_spec (last rest) then w1
         else write_to who (last rest) w1)"

definition cmd_remote_shell :: "str \<Rightarrow> shval list \<Rightarrow> str \<Rightarrow> walker \<Rightarrow> walker" where
  "cmd_remote_shell base args who w =
     (let w1 = push (ENetwork who) w;
          rest = skip_opts_with args [''-i'', ''-P'', ''-o'', ''-F'', ''-S'', ''-c'', ''-l'', ''-J'']
      in if base = ''scp'' \<and> rest \<noteq> [] \<and> \<not> lit_sat is_remote_spec (last rest)
         then write_to who (last rest) w1 else w1)"

definition curl_remote_name :: "str \<Rightarrow> bool" where
  "curl_remote_name s \<longleftrightarrow> s \<in> set [''-O'', ''--remote-name'', ''--remote-name-all'', ''-J'']
     \<or> (starts_with s ''-'' \<and> \<not> starts_with s ''--'' \<and> length s > 1 \<and> CHR ''O'' \<in> set (tl s))"

definition http_save :: "str \<Rightarrow> shval list \<Rightarrow> str \<Rightarrow> walker \<Rightarrow> walker" where
  "http_save base args who w =
     (if base = ''curl''
        then (let w1 = (case opt_value [''-o'', ''--output'', ''-D'', ''--dump-header'', ''--trace'', ''--trace-ascii'',
     ''-c'', ''--cookie-jar'', ''--output-dir'', ''--etag-save''] args of
                    Some f \<Rightarrow> write_to who f w | None \<Rightarrow> w)
              in if list_ex (lit_sat curl_remote_name) args then write_cwd who w1 else w1)
      else if base \<in> set [''wget'', ''wget2'']
        then (case opt_value [''-O'', ''--output-document'', ''-P'', ''--directory-prefix'', ''-o'',
     ''--output-file'', ''-a'', ''--append-output''] args of
            Some f \<Rightarrow> if val_is f ''-'' then w else write_to who f w
          | None \<Rightarrow> if has_any [''--spider''] args then w else write_cwd who w)
      else if base \<in> set [''aria2c'', ''axel'']
        then write_or_cwd who (opt_value [''-d'', ''--dir'', ''-o'', ''--out''] args) w
      else if has_any [''-d'', ''--download''] args
        then write_or_cwd who (opt_value [''-o'', ''--output''] args) w
      else w)"

definition cmd_http :: "str \<Rightarrow> shval list \<Rightarrow> str \<Rightarrow> walker \<Rightarrow> walker" where
  "cmd_http base args who w = http_save base args who (push (ENetwork who) w)"

definition touch_takes :: "str \<Rightarrow> str list" where
  "touch_takes base =
     (if base = ''mkdir'' then [''-m'', ''--mode'']
      else if base = ''touch'' then [''-t'', ''-r'', ''-d'', ''--date'', ''--reference'']
      else if base = ''truncate'' then [''-s'', ''--size'', ''-r'', ''--reference'']
      else if base = ''fallocate'' then [''-l'', ''-o'', ''-n'']
      else [])"

fun dd_loop :: "shell_env \<Rightarrow> str \<Rightarrow> shval list \<Rightarrow> walker \<Rightarrow> walker" where
  "dd_loop env who [] w = w"
| "dd_loop env who (a # rest) w = (case lit a of
       None \<Rightarrow> unknown who ''has an argument autofork cannot resolve'' w
     | Some s \<Rightarrow> (case strip_prefix ''of='' s of
         Some f \<Rightarrow> dd_loop env who rest (write_to who (tilde env f) w)
       | None \<Rightarrow> dd_loop env who rest w))"

record tar_state =
  ts_mode :: char
  ts_file :: "shval option"
  ts_dir :: "shval option"

definition tar_flag :: "char \<Rightarrow> char \<Rightarrow> char" where
  "tar_flag m c = (if c = CHR ''x'' then CHR ''x'' else if c = CHR ''c'' then CHR ''c''
     else if c = CHR ''r'' \<or> c = CHR ''u'' then CHR ''r'' else if c = CHR ''t'' then CHR ''t'' else m)"

definition opt_hd :: "'a list \<Rightarrow> 'a option" where
  "opt_hd xs = (case xs of [] \<Rightarrow> None | x # _ \<Rightarrow> Some x)"

fun tar_scan :: "bool \<Rightarrow> shval list \<Rightarrow> tar_state \<Rightarrow> tar_state" where
  "tar_scan i0 [] st = st"
| "tar_scan i0 (a # rest) st = (case lit a of
       None \<Rightarrow> tar_scan False rest st
     | Some s \<Rightarrow>
       if s \<in> set [''-C'', ''--directory''] then tar_scan False (drop 1 rest) (st\<lparr>ts_dir := opt_hd rest\<rparr>)
       else if starts_with s ''--directory='' then tar_scan False rest (st\<lparr>ts_dir := Some (Lit (drop 12 s))\<rparr>)
       else if s \<in> set [''-f'', ''--file''] then tar_scan False (drop 1 rest) (st\<lparr>ts_file := opt_hd rest\<rparr>)
       else if starts_with s ''--file='' then tar_scan False rest (st\<lparr>ts_file := Some (Lit (drop 7 s))\<rparr>)
       else if s \<in> set [''-x'', ''--extract'', ''--get''] then tar_scan False rest (st\<lparr>ts_mode := CHR ''x''\<rparr>)
       else if s \<in> set [''-c'', ''--create''] then tar_scan False rest (st\<lparr>ts_mode := CHR ''c''\<rparr>)
       else if s \<in> set [''-r'', ''--append'', ''-u'', ''--update'', ''--delete'']
         then tar_scan False rest (st\<lparr>ts_mode := CHR ''r''\<rparr>)
       else if s \<in> set [''-t'', ''--list''] then tar_scan False rest (st\<lparr>ts_mode := CHR ''t''\<rparr>)
       else if i0 \<and> \<not> starts_with s ''--''
         then (let flags = dropWhile (\<lambda>c. c = CHR ''-'') s; st' = st\<lparr>ts_mode := foldl tar_flag (ts_mode st) flags\<rparr>
               in if CHR ''f'' \<in> set flags then tar_scan False (drop 1 rest) (st'\<lparr>ts_file := opt_hd rest\<rparr>)
                  else tar_scan False rest st')
       else if starts_with s ''-'' \<and> \<not> starts_with s ''--''
         then (let flags = tl s; st' = st\<lparr>ts_mode := foldl tar_flag (ts_mode st) flags\<rparr>
               in if ends_with flags ''f'' then tar_scan False (drop 1 rest) (st'\<lparr>ts_file := opt_hd rest\<rparr>)
                  else if ends_with flags ''C'' then tar_scan False (drop 1 rest) (st'\<lparr>ts_dir := opt_hd rest\<rparr>)
                  else tar_scan False rest st')
       else tar_scan False rest st)"

definition cmd_tar :: "shval list \<Rightarrow> str \<Rightarrow> walker \<Rightarrow> walker" where
  "cmd_tar args who w =
     (let st = tar_scan True args \<lparr>ts_mode = CHR '' '', ts_file = None, ts_dir = None\<rparr>
      in if ts_mode st = CHR ''x'' then write_or_cwd who (ts_dir st) w
         else if ts_mode st = CHR ''c'' \<or> ts_mode st = CHR ''r''
           then (case ts_file st of None \<Rightarrow> w | Some f \<Rightarrow> if val_is f ''-'' then w else write_to who f w)
         else if ts_mode st = CHR ''t'' then w
         else unknown who ''runs tar in a mode autofork cannot tell'' w)"

text \<open>A compressor writes next to its input.\<close>

definition write_beside :: "str \<Rightarrow> walker \<Rightarrow> shval \<Rightarrow> walker" where
  "write_beside who w v = (case resolve w v of
       Known p \<Rightarrow> push (EWrite (case path_parent p of Some q \<Rightarrow> q | None \<Rightarrow> p) who) w
     | Lost \<Rightarrow> unknown who ''targets a path autofork cannot resolve'' w)"

definition cmd_compress :: "str \<Rightarrow> shval list \<Rightarrow> str \<Rightarrow> walker \<Rightarrow> walker" where
  "cmd_compress base args who w =
     (if ends_with base ''cat''
         \<or> has_any [''-c'', ''--stdout'', ''-t'', ''--test'', ''-l'', ''--list''] args
      then w else foldl (write_beside who) w (non_opts args))"

definition cmd_zip :: "shval list \<Rightarrow> str \<Rightarrow> walker \<Rightarrow> walker" where
  "cmd_zip args who w = (case skip_opts_with args [''-b'', ''-t'', ''-tt'', ''-n'', ''-x'', ''-i''] of
       f # _ \<Rightarrow> write_to who f w
     | [] \<Rightarrow> unknown who ''names no archive autofork can see'' w)"

definition run_copies :: "str \<Rightarrow> shval list \<Rightarrow> str \<Rightarrow> walker \<Rightarrow> walker option" where
  "run_copies base args who w =
     (if base = ''tee'' then Some (writes_to who (non_opts args) w)
      else if base \<in> set [''cp'', ''install''] then Some (cmd_cp base args who w)
      else if base = ''mv'' then Some (cmd_mv args who w)
      else if base = ''ln'' then Some (cmd_ln args who w)
      else if base = ''rsync'' then Some (cmd_rsync args who w)
      else if base \<in> set [''scp'', ''sftp'', ''ssh'', ''ssh-copy-id'', ''telnet'', ''nc'', ''ncat'', ''netcat'',
     ''socat'', ''ftp'', ''lftp'', ''mosh'', ''rlogin'', ''rsh'', ''et'', ''autossh'']
        then Some (cmd_remote_shell base args who w)
      else if base \<in> set [''curl'', ''wget'', ''wget2'', ''http'', ''https'', ''httpie'', ''xh'', ''aria2c'',
     ''axel'']
        then Some (cmd_http base args who w)
      else None)"

definition run_writers :: "shell_env \<Rightarrow> str \<Rightarrow> shval list \<Rightarrow> str \<Rightarrow> walker \<Rightarrow> walker option" where
  "run_writers env base args who w =
     (if base \<in> set [''rm'', ''rmdir'', ''unlink'', ''shred'', ''srm'', ''trash'']
        then Some (writes_to who (non_opts args)
               (if non_opts args = [] then unknown who ''names nothing autofork can see'' w else w))
      else if base \<in> set [''mkdir'', ''touch'', ''mkfifo'', ''mknod'', ''truncate'', ''fallocate'']
        then Some (writes_to who (skip_opts_with args (touch_takes base)) w)
      else if base \<in> set [''chmod'', ''chown'', ''chgrp'', ''chflags'']
        then Some (writes_to who (drop 1 (skip_opts_with args [''--reference''])) w)
      else if base = ''xattr''
        then Some (if has_any [''-w'', ''-d'', ''-c''] args then write_last (non_opts args) who w else w)
      else if base = ''dd'' then Some (dd_loop env who args w)
      else if base \<in> set [''tar'', ''gtar'', ''bsdtar''] then Some (cmd_tar args who w)
      else if base = ''zip'' then Some (cmd_zip args who w)
      else if base = ''unzip''
        then Some (if has_any [''-l'', ''-t'', ''-z'', ''-p'', ''-c''] args then w
               else write_or_cwd who (opt_value [''-d''] args) w)
      else if base \<in> set [''gzip'', ''gunzip'', ''bzip2'', ''bunzip2'', ''xz'', ''unxz'', ''zstd'', ''unzstd'',
     ''lz4'', ''brotli'', ''compress'', ''uncompress'', ''zcat'', ''bzcat'', ''xzcat'',
     ''zstdcat'']
        then Some (cmd_compress base args who w)
      else if base = ''patch''
        then Some (write_or_cwd who (opt_value [''-d'', ''--directory''] args) w)
      else None)"

section \<open>The system\<close>

definition run_system :: "str \<Rightarrow> shval list \<Rightarrow> str \<Rightarrow> walker \<Rightarrow> walker option" where
  "run_system base args who w =
     (if base = ''defaults''
        then Some (if sub_word args \<in> set [''read'', ''read-type'', ''domains'', ''find'', ''export''] then w
               else unknown who ''changes macOS preferences'' w)
      else if base \<in> set [''pbcopy'', ''say'', ''afplay'', ''tput'', ''clear'', ''reset''] then Some w
      else if base \<in> set [''kill'', ''pkill'', ''killall'', ''launchctl'', ''systemctl'', ''service'',
     ''reboot'', ''shutdown'', ''halt'', ''poweroff'', ''diskutil'', ''mount'', ''umount'',
     ''nvram'', ''dscl'', ''pmset'', ''networksetup'', ''scutil'', ''tmutil'',
     ''softwareupdate'', ''csrutil'', ''fdesetup'', ''profiles'', ''sysadminctl'',
     ''dseditgroup'', ''iptables'', ''nft'', ''ufw'', ''pfctl'', ''swapoff'', ''swapon'',
     ''modprobe'', ''insmod'', ''rmmod'']
        then Some (if base = ''launchctl'' \<and> has_any [''list'', ''print''] args then w
               else if base = ''systemctl''
                  \<and> has_any [''status'', ''list-units'', ''show'', ''is-active'', ''cat''] args then w
               else if base = ''diskutil'' \<and> has_any [''list'', ''info''] args then w
               else push (EDisrupt who) w)
      else if base = ''crontab''
        then Some (if has_any [''-l''] args then w else push (EDisrupt who) w)
      else if base \<in> set [''mail'', ''mailx'', ''sendmail'', ''mutt'', ''neomutt'', ''msmtp'', ''swaks'']
        then Some (push (EPublish who ''sends mail'') w)
      else if base \<in> set [''slack'', ''discord'', ''tweet'', ''toot'', ''ntfy'', ''pushover'', ''telegram-send'',
     ''signal-cli'']
        then Some (push (EPublish who ''posts a message'') w)
      else None)"

section \<open>Programs by path, and the dispatch\<close>

definition run_path :: "shell_env \<Rightarrow> text_runner \<Rightarrow> str \<Rightarrow> str \<Rightarrow> walker \<Rightarrow> walker" where
  "run_path env src name who w =
     (if slash \<notin> set name then unknown who ''is not a command autofork knows'' w
      else (case resolve w (tilde env name) of
          Lost \<Rightarrow> unknown who ''runs a program at a path autofork cannot resolve'' w
        | Known p \<Rightarrow>
          (let w1 = push (EExec p who) w
           in if is_trusted env p then w1 else analyse_script env src (tilde env name) who True w1)))"

definition or_else :: "'a option \<Rightarrow> 'a option \<Rightarrow> 'a option" where
  "or_else a b = (case a of Some x \<Rightarrow> Some x | None \<Rightarrow> b)"

definition run_command ::
    "shell_env \<Rightarrow> text_runner \<Rightarrow> runner \<Rightarrow> str \<Rightarrow> str \<Rightarrow> shval list \<Rightarrow> str \<Rightarrow> walker \<Rightarrow> walker" where
  "run_command env src rec base name args who w =
     (case or_else (run_state env base args w) (or_else (run_wrapper env rec base args who w)
        (or_else (run_shells env src rec base args who w) (or_else (run_vcs env base args who w)
        (or_else (run_readers base args who w) (or_else (run_builds base args who w)
        (or_else (run_copies base args who w) (or_else (run_writers env base args who w)
           (run_system base args who w)))))))) of
        Some w' \<Rightarrow> w'
      | None \<Rightarrow> run_path env src name who w)"

text \<open>\<open>x --version\<close> and \<open>x --help\<close> do nothing.\<close>

definition asks_help :: "shval list \<Rightarrow> bool" where
  "asks_help args \<longleftrightarrow> length args = 1
     \<and> lit_sat (\<lambda>s. s \<in> set [''--version'', ''--help'', ''-h'', ''version'', ''help'']) (hd args)"

definition run_step :: "shell_env \<Rightarrow> text_runner \<Rightarrow> runner \<Rightarrow> runner" where
  "run_step env src rec argv who w = (case argv of
       [] \<Rightarrow> w
     | a # args \<Rightarrow> (case lit a of
         None \<Rightarrow> unknown who ''has a command name autofork cannot resolve'' w
       | Some name \<Rightarrow>
         if name = [] then w
         else if name \<in> w_functions w then w
         else (let base = last (split_on slash name)
           in case denied_by (se_deny env) base name args of
                Some pat \<Rightarrow> push (EDenied who pat) w
              | None \<Rightarrow>
                if asks_help args
                then w
                else run_command env src rec base name args who w)))"

definition lits :: "shval list \<Rightarrow> nat" where
  "lits vs = length (filter (\<lambda>v. v \<noteq> Unk) vs)"

primrec run_upto :: "nat \<Rightarrow> shell_env \<Rightarrow> text_runner \<Rightarrow> runner" where
  "run_upto 0 env src = (\<lambda>argv who w. run_step env src (\<lambda>_ _ w. w) argv who w)"
| "run_upto (Suc n) env src = (\<lambda>argv who w. run_step env src (run_upto n env src) argv who w)"

definition run :: "shell_env \<Rightarrow> text_runner \<Rightarrow> runner" where
  "run env src argv who w = run_upto (lits argv) env src argv who w"

end
