(* ===== verification/Shell.thy ===== *)
theory Shell
  imports Shell_Tools
begin

text \<open>
  The tree walk of \<open>guard/shell.rs\<close>: \<open>walk\<close>, \<open>eval\<close>, \<open>handle_command\<close>, \<open>handle_redirect\<close>,
  \<open>handle_assignment\<close>, \<open>analyse_source\<close> and \<open>analyse\<close>. The tree-sitter parser is the field
  \<open>se_parse\<close> of the environment; the walk is by recursion on the tree it returns. The depth
  counter is the number of levels of nested text still allowed.
\<close>

section \<open>Trees\<close>

definition child_by_field :: "str \<Rightarrow> node list \<Rightarrow> node option" where
  "child_by_field f cs = find (\<lambda>c. n_field c = Some f) cs"

definition named_children :: "node list \<Rightarrow> node list" where
  "named_children cs = filter n_named cs"

text \<open>The operator of a redirection: its text up to the destination, without the descriptor.\<close>

definition redirect_op :: "str \<Rightarrow> nat \<Rightarrow> str" where
  "redirect_op whole dest_start =
     dropWhile (\<lambda>c. is_digit c \<or> c = CHR 0x26) (trim (take dest_start whole))"

definition REDIRECT_WRITES :: "str list" where
  "REDIRECT_WRITES = [[CHR 0x3E], [CHR 0x3E, CHR 0x3E], [CHR 0x3E, CHR 0x7C], [CHR 0x26, CHR 0x3E],
     [CHR 0x26, CHR 0x3E, CHR 0x3E], [CHR 0x3C, CHR 0x3E], [CHR 0x3E, CHR 0x26], [CHR 0x3E, CHR 0x3E, CHR 0x26]]"

definition redirect_writes :: "str \<Rightarrow> str \<Rightarrow> bool" where
  "redirect_writes oper dest \<longleftrightarrow>
     \<not> (ends_with oper [CHR 0x26] \<and> (list_all is_digit dest \<or> dest = ''-''))
     \<and> oper \<in> set REDIRECT_WRITES"

definition is_redirect_child :: "node \<Rightarrow> bool" where
  "is_redirect_child c \<longleftrightarrow> n_kind c = ''file_redirect''
     \<and> n_field c \<noteq> Some ''name'' \<and> n_field c \<noteq> Some ''argument''"

definition strip_quotes :: "str \<Rightarrow> str" where
  "strip_quotes t = rev (dropWhile (\<lambda>c. c = CHR 0x27) (rev (dropWhile (\<lambda>c. c = CHR 0x27) t)))"

definition ansi_inner :: "str \<Rightarrow> str" where
  "ansi_inner t = (case strip_prefix [CHR 0x24, CHR 0x27] t of
       None \<Rightarrow> t | Some s \<Rightarrow> (case strip_suffix [CHR 0x27] s of None \<Rightarrow> t | Some i \<Rightarrow> i))"

definition forget_var :: "str \<Rightarrow> walker \<Rightarrow> walker" where
  "forget_var name w = w\<lparr>w_vars := (w_vars w)(name := None)\<rparr>"

definition assign :: "node \<Rightarrow> str \<Rightarrow> shval \<Rightarrow> walker \<Rightarrow> walker" where
  "assign name_node whole v w =
     (let name = n_text name_node
      in if n_kind name_node \<noteq> ''variable_name'' \<or> str_contains whole ''+='' then forget_var name w
         else (case lit v of Some s \<Rightarrow> w\<lparr>w_vars := (w_vars w)(name \<mapsto> s)\<rparr> | None \<Rightarrow> forget_var name w))"

lemma find_size: "find P cs = Some d \<Longrightarrow> size d \<le> size_list size cs"
  by (induction cs) (auto split: if_splits)

lemma named_child_size: "named_children (n_children c) = x # xs \<Longrightarrow> size x < size c"
proof -
  assume "named_children (n_children c) = x # xs"
  then have "x \<in> set (n_children c)" by (metis filter_is_subset list.set_intros(1) named_children_def subsetD)
  then have "size x \<le> size_list size (n_children c)" by (rule size_list_estimation') simp
  then show ?thesis by (cases c) simp
qed

section \<open>The walk\<close>

function walk :: "shell_env \<Rightarrow> text_runner \<Rightarrow> node \<Rightarrow> walker \<Rightarrow> walker"
and walks :: "shell_env \<Rightarrow> text_runner \<Rightarrow> node list \<Rightarrow> walker \<Rightarrow> walker"
and eval :: "shell_env \<Rightarrow> text_runner \<Rightarrow> node \<Rightarrow> walker \<Rightarrow> shval \<times> walker"
and eval_parts :: "shell_env \<Rightarrow> text_runner \<Rightarrow> bool \<Rightarrow> node list \<Rightarrow> shval \<Rightarrow> walker \<Rightarrow> shval \<times> walker"
and eval_argv :: "shell_env \<Rightarrow> text_runner \<Rightarrow> node list \<Rightarrow> walker \<Rightarrow> shval list \<times> walker"
and redirect :: "shell_env \<Rightarrow> text_runner \<Rightarrow> node \<Rightarrow> walker \<Rightarrow> walker"
and redirects :: "shell_env \<Rightarrow> text_runner \<Rightarrow> node list \<Rightarrow> walker \<Rightarrow> walker"
where
  "walk env src (Node kind fld nm st txt cs) w =
     (if kind = ''command''
        then (case eval_argv env src cs w of
            (argv, w1) \<Rightarrow> redirects env src cs (if argv = [] then w1 else run env src argv (excerpt txt) w1))
      else if kind = ''file_redirect'' then redirect env src (Node kind fld nm st txt cs) w
      else if kind = ''variable_assignment''
        then (case child_by_field ''name'' cs of
            None \<Rightarrow> w
          | Some name_node \<Rightarrow> (case child_by_field ''value'' cs of
              None \<Rightarrow> assign name_node txt (Lit []) w
            | Some v \<Rightarrow> (case eval env src v w of (x, w1) \<Rightarrow> assign name_node txt x w1)))
      else if kind = ''subshell'' then restore (take_snapshot w) (walks env src cs w)
      else if kind = ''for_statement'' \<or> kind = ''c_style_for_statement''
        then walks env src cs (case child_by_field ''variable'' cs of
            None \<Rightarrow> w | Some v \<Rightarrow> forget_var (n_text v) w)
      else if kind = ''function_definition''
        then walks env src cs (case child_by_field ''name'' cs of
            None \<Rightarrow> w | Some n \<Rightarrow> w\<lparr>w_functions := insert (n_text n) (w_functions w)\<rparr>)
      else if kind \<in> set [''heredoc_body'', ''heredoc_content'', ''comment''] then w
      else walks env src cs w)"
| "walks env src [] w = w"
| "walks env src (c # cs) w = walks env src cs (walk env src c w)"
| "eval env src (Node kind fld nm st txt cs) w =
     (if kind = ''word'' then (tilde env (unescape_word txt), w)
      else if kind = ''raw_string'' then (Lit (strip_quotes txt), w)
      else if kind = ''ansi_c_string'' then (Lit (unescape_ansi (ansi_inner txt)), w)
      else if kind \<in> set [''number'', ''regex'', ''extglob_pattern''] then (Lit txt, w)
      else if kind = ''string'' then eval_parts env src True cs (Lit []) w
      else if kind = ''concatenation'' then eval_parts env src False cs (Lit []) w
      else if kind = ''simple_expansion''
        then (lookup_var env w (case named_children cs of [] \<Rightarrow> [] | x # _ \<Rightarrow> n_text x), w)
      else if kind = ''expansion''
        then (if child_by_field ''operator'' cs \<noteq> None then (Unk, w)
              else (case named_children cs of
                  [x] \<Rightarrow> if n_kind x = ''variable_name'' then (lookup_var env w (n_text x), w) else (Unk, w)
                | _ \<Rightarrow> (Unk, w)))
      else if kind = ''command_substitution''
        then (case (case named_children cs of
                 [x] \<Rightarrow> if n_kind x = ''command'' \<and> trim (n_text x) = ''pwd'' then w_cwd w else Lost
               | _ \<Rightarrow> Lost) of
            Known p \<Rightarrow> (Lit p, w)
          | Lost \<Rightarrow> (Unk, walks env src cs w))
      else if kind = ''arithmetic_expansion'' \<or> kind = ''process_substitution'' then (Unk, walks env src cs w)
      else (Unk, w))"
| "eval_parts env src dq [] acc w = (acc, w)"
| "eval_parts env src dq (c # cs) acc w =
     (case (if dq \<and> n_kind c = ''string_content'' then (Lit (unescape_dq (n_text c)), w)
            else if dq \<and> n_kind c = [CHR 0x22] then (Lit [], w)
            else eval env src c w) of
        (v, w1) \<Rightarrow> eval_parts env src dq cs
          (case lit acc of None \<Rightarrow> Unk | Some s \<Rightarrow> (case lit v of None \<Rightarrow> Unk | Some t \<Rightarrow> Lit (s @ t))) w1)"
| "eval_argv env src [] w = ([], w)"
| "eval_argv env src (c # cs) w =
     (if n_field c = Some ''name''
        then (case (case named_children (n_children c) of [] \<Rightarrow> (Unk, w) | x # _ \<Rightarrow> eval env src x w) of
            (v, w1) \<Rightarrow> (case eval_argv env src cs w1 of (vs, w2) \<Rightarrow> (v # vs, w2)))
      else if n_field c = Some ''argument''
        then (case eval env src c w of
            (v, w1) \<Rightarrow> (case eval_argv env src cs w1 of (vs, w2) \<Rightarrow> (v # vs, w2)))
      else eval_argv env src cs w)"
| "redirect env src (Node kind fld nm st txt cs) w = (case child_by_field ''destination'' cs of
       None \<Rightarrow> w
     | Some dest \<Rightarrow>
       if redirect_writes (redirect_op txt (n_start dest - st)) (n_text dest)
       then (case eval env src dest w of (v, w1) \<Rightarrow> write_to (excerpt txt) v w1)
       else w)"
| "redirects env src [] w = w"
| "redirects env src (c # cs) w =
     redirects env src cs (if is_redirect_child c then redirect env src c w else w)"

  by pat_completeness auto

termination
  by (relation "measure (case_sum
        (case_sum (\<lambda>(env, src, n, w). 2 * size n + 1)
          (case_sum (\<lambda>(env, src, cs, w). 2 * size_list size cs) (\<lambda>(env, src, n, w). 2 * size n)))
        (case_sum
          (case_sum (\<lambda>(env, src, dq, cs, acc, w). 2 * size_list size cs) (\<lambda>(env, src, cs, w). 2 * size_list size cs))
          (case_sum (\<lambda>(env, src, n, w). 2 * size n) (\<lambda>(env, src, cs, w). 2 * size_list size cs))))")
    (simp_all add: child_by_field_def, (drule find_size named_child_size, linarith)+)

declare walk.simps [simp del] eval.simps [simp del] redirect.simps [simp del]

section \<open>Source text\<close>

definition MAX_DEPTH :: nat where
  "MAX_DEPTH = 8"

primrec analyse_source :: "nat \<Rightarrow> shell_env \<Rightarrow> text_runner" where
  "analyse_source 0 env = (\<lambda>text w. unknown (excerpt text) ''nests shells deeper than autofork follows'' w)"
| "analyse_source (Suc levels) env = (\<lambda>text w. case se_parse env text of
       NoGrammar \<Rightarrow> unknown (excerpt text) ''could not be parsed (grammar unavailable)'' w
     | NoTree \<Rightarrow> unknown (excerpt text) ''could not be parsed as shell'' w
     | Parsed err root \<Rightarrow>
       walk env (analyse_source levels env) root
         (if err then unknown (excerpt text) ''could not be fully parsed as shell'' (w\<lparr>w_parse_error := True\<rparr>)
          else w))"

record analysis =
  an_effects :: "effect list"
  an_parse_error :: bool

definition deny_patterns :: "str list \<Rightarrow> str list list" where
  "deny_patterns deny = filter (\<lambda>p. p \<noteq> []) (map split_whitespace deny)"

definition shell_env_of :: "fsys \<Rightarrow> (str \<Rightarrow> parse_result) \<Rightarrow> path list \<Rightarrow> str list \<Rightarrow> shell_env" where
  "shell_env_of fs parse trusted deny =
     \<lparr>se_fs = fs, se_parse = parse, se_trusted = trusted, se_deny = deny_patterns deny\<rparr>"

definition new_walker :: "path \<Rightarrow> walker" where
  "new_walker cwd = \<lparr>w_cwd = Known (normalize cwd), w_prev = Known (normalize cwd), w_stack = [],
     w_vars = (\<lambda>_. None), w_functions = {}, w_effects = [], w_parse_error = False, w_panicked = False\<rparr>"

text \<open>\<open>None\<close>: the analysis panicked and returns nothing.\<close>

definition analyse ::
    "fsys \<Rightarrow> (str \<Rightarrow> parse_result) \<Rightarrow> str \<Rightarrow> path \<Rightarrow> path list \<Rightarrow> str list \<Rightarrow> analysis option" where
  "analyse fs parse command cwd trusted deny =
     (let w = analyse_source (Suc MAX_DEPTH) (shell_env_of fs parse trusted deny) command (new_walker cwd)
      in if w_panicked w then None
         else Some \<lparr>an_effects = w_effects w, an_parse_error = w_parse_error w\<rparr>)"

end
