(* ===== verification/Guard.thy ===== *)
theory Guard
  imports Shell Wake "HOL-Library.Word"
begin

text \<open>
  \<open>guard/mod.rs\<close> and \<open>guard/sandbox.rs\<close>: the decision on one tool call, the messages, the sandbox
  command lines, the paths a patch names and the hosts of git remotes. The host system is the record
  \<open>host\<close>: the file system and environment, the shell parser, the platform the binary was built
  for, and whether a sandbox profile can be written (the error text if not). \<open>None\<close> as a
  verdict is a panic of the analysis.
\<close>

section \<open>Calls and verdicts\<close>

datatype tool_call =
    CShell str path
  | CEdit path path
  | CPatch "path list" path
  | CRead
  | CWeb "str option"
  | CTask
  | CMcp str
  | COther str

fun call_family :: "tool_call \<Rightarrow> tool_family option" where
  "call_family (CShell _ _) = Some TShell"
| "call_family (CEdit _ _) = Some TEdit"
| "call_family (CPatch _ _) = Some TEdit"
| "call_family CRead = Some TRead"
| "call_family (CWeb _) = Some TWeb"
| "call_family CTask = Some TTask"
| "call_family (CMcp _) = Some TMcp"
| "call_family (COther _) = None"

datatype verdict = Allow | Deny str | Sandbox str str

datatype platform = MacOs | Linux | OtherOs

record host =
  h_fs :: fsys
  h_parse :: "str \<Rightarrow> parse_result"
  h_platform :: platform
  h_write_profile :: "path \<Rightarrow> str \<Rightarrow> str option"

section \<open>Messages\<close>

definition guard_excerpt :: "str \<Rightarrow> str" where
  "guard_excerpt s = excerpt_to 120 (trim s)"

definition tools_phrase :: "guard \<Rightarrow> str" where
  "tools_phrase g = (case g_tools g of
       None \<Rightarrow> ''every built-in tool''
     | Some t \<Rightarrow> if t = []
         then (''no tool at all: it decides from the conversation it inherited and writes its ''
       @ ''report'')
         else ''only: '' @ join_with '', '' (map family_name t))"

definition scope_phrase :: "guard \<Rightarrow> str" where
  "scope_phrase g = (if g_write g = [] then ''This fork may not change any file.''
     else ''This fork may only change files under: '' @ join_with '', '' (map backticked (g_write g)) @ ''.'')"

definition compose :: "guard \<Rightarrow> str \<Rightarrow> str list \<Rightarrow> str" where
  "compose g fork_name reasons =
     (''autofork guard '' @ em_dash @ '' fork '' @ [CHR 0x60] @ fork_name @ [CHR 0x60]
       @ ''. '' @ scope_phrase g)
     @ (if reasons = [] then [] else [nl] @ ''Blocked: '' @ join_with ''; '' (take 3 reasons) @ ''.'')
     @ (case g_message g of None \<Rightarrow> []
        | Some m \<Rightarrow> if trim m = [] then [] else [nl] @ trim m)
     @ ([nl]
       @ ''This rule is enforced at the tool boundary. Do not retry through another tool, ''
       @ ''another shell, an interpreter, xargs, eval, a script, or a different path: ''
       @ ''every route is checked the same way and will fail the same way. If this action ''
       @ ''belonged to the session you were forked from, it is not yours to take '' @ em_dash
       @ '' leave it, finish your own job, and say in your report what you did not do.'')"

definition guard_display :: "guard \<Rightarrow> str" where
  "guard_display g = join_with '' | ''
     ((if g_write g = [] then [''write: none''] else [''write: ['' @ join_with '', '' (g_write g) @ '']''])
      @ (case g_tools g of None \<Rightarrow> []
         | Some t \<Rightarrow> if t = [] then [''tools: none'']
             else [''tools: ['' @ join_with '', '' (map family_name t) @ '']''])
      @ (if g_network g then [''network: yes''] else [])
      @ (if g_deny g = [] then [] else [''deny: ['' @ join_with '', '' (g_deny g) @ '']'']))"

definition refuse :: "guard \<Rightarrow> str \<Rightarrow> str \<Rightarrow> verdict" where
  "refuse g fork_name reason = Deny (compose g fork_name [reason])"

section \<open>The sandbox\<close>

definition is_shell_safe :: "char \<Rightarrow> bool" where
  "is_shell_safe c \<longleftrightarrow> is_alnum c \<or> c \<in> set ''-_./=:@%+,''"

definition shell_quote :: "str \<Rightarrow> str" where
  "shell_quote s = (if s \<noteq> [] \<and> list_all is_shell_safe s then s
     else [CHR 0x27] @ concat (map (\<lambda>c. if c = CHR 0x27 then [CHR 0x27, backslash, CHR 0x27, CHR 0x27] else [c]) s)
        @ [CHR 0x27])"

definition sb_quote :: "str \<Rightarrow> str" where
  "sb_quote s = [CHR 0x22] @ concat (map (\<lambda>c. if c = CHR 0x22 then [backslash, CHR 0x22]
     else if c = backslash then [backslash, backslash] else [c]) s) @ [CHR 0x22]"

definition write_roots :: "fsys \<Rightarrow> guard \<Rightarrow> path list" where
  "write_roots fs g = foldl (\<lambda>out w. let p = canonical_prefix fs w
       in if fs_exists fs p \<and> \<not> list_ex (path_eq p) out then out @ [p] else out) [] (g_write g)"

definition SCRATCH :: "path list" where
  "SCRATCH = [''/tmp'', ''/private/tmp'', ''/var/tmp'', ''/private/var/tmp'', ''/var/folders'',
     ''/private/var/folders'', ''/dev/shm'']"

definition scratch_roots :: "fsys \<Rightarrow> path list" where
  "scratch_roots fs = (case fs_env fs ''TMPDIR'' of
       None \<Rightarrow> SCRATCH
     | Some t \<Rightarrow> if list_ex (path_eq t) SCRATCH then SCRATCH else SCRATCH @ [t])"

definition sb_line :: "str \<Rightarrow> str" where
  "sb_line s = s @ [nl]"

definition seatbelt_profile :: "fsys \<Rightarrow> path list \<Rightarrow> str" where
  "seatbelt_profile fs roots = concat (map sb_line
     ([''(version 1)'', ''(allow default)'', ''(deny network*)'', ''(deny file-write*)'', ''(allow file-write*'']
      @ map (\<lambda>w. ''  (subpath '' @ sb_quote w @ '')'') (roots @ scratch_roots fs)
      @ map (\<lambda>p. ''  (literal '' @ sb_quote p @ '')'') [''/dev/null'', ''/dev/zero'', ''/dev/stdout'', ''/dev/stderr'']
      @ map (\<lambda>p. ''  (regex #'' @ sb_quote p @ '')'') [''^/dev/tty'', ''^/dev/fd/'', ''^/dev/pts/'']
      @ [''  (literal '' @ sb_quote ''/dev/ptmx'' @ '')'', '')'']))"

definition bwrap_args :: "fsys \<Rightarrow> path list \<Rightarrow> path \<Rightarrow> str list" where
  "bwrap_args fs roots cwd =
     [''bwrap'', ''--ro-bind'', ''/'', ''/'', ''--dev'', ''/dev'', ''--proc'', ''/proc'', ''--tmpfs'', ''/tmp'',
      ''--unshare-net'', ''--die-with-parent'']
     @ concat (map (\<lambda>w. [''--bind'', w, w])
         (filter (\<lambda>w. \<not> path_eq w ''/tmp'' \<and> fs_exists fs w) (roots @ scratch_roots fs)))
     @ [''--chdir'', cwd, ''--'']"

definition fnv1a64 :: "str \<Rightarrow> 64 word" where
  "fnv1a64 s = foldl (\<lambda>h b. xor h (of_char b) * 0x100000001b3) 0xcbf29ce484222325 s"

definition hex_digit :: "nat \<Rightarrow> char" where
  "hex_digit d = (if d < 10 then digit_char d else char_of (of_char (CHR ''a'') + (d - 10) :: nat))"

fun hex_pad :: "nat \<Rightarrow> nat \<Rightarrow> str" where
  "hex_pad 0 n = []"
| "hex_pad (Suc k) n = hex_pad k (n div 16) @ [hex_digit (n mod 16)]"

definition profile_path :: "path \<Rightarrow> str \<Rightarrow> path" where
  "profile_path tmp_dir profile =
     path_join tmp_dir (''guard-'' @ hex_pad 16 (unat (fnv1a64 profile)) @ ''.sb'')"

text \<open>\<open>std::env::split_paths\<close> on Unix.\<close>

definition which_bwrap :: "fsys \<Rightarrow> path option" where
  "which_bwrap fs = (case fs_env fs ''PATH'' of None \<Rightarrow> None
     | Some p \<Rightarrow> find (fs_is_file fs) (map (\<lambda>d. path_join d ''bwrap'') (split_on (CHR '':'') p)))"

definition availability :: "host \<Rightarrow> str option" where
  "availability h = (case h_platform h of
       MacOs \<Rightarrow> if fs_exists (h_fs h) ''/usr/bin/sandbox-exec'' then None
                else Some ''/usr/bin/sandbox-exec is missing''
     | Linux \<Rightarrow> if which_bwrap (h_fs h) \<noteq> None then None else Some (''bubblewrap ('' @ [CHR 0x60] @ ''bwrap'' @ [CHR 0x60] @ '') is not installed'')
     | OtherOs \<Rightarrow> Some ''no sandbox on this platform'')"

definition sandbox_wrap :: "host \<Rightarrow> str \<Rightarrow> path \<Rightarrow> guard \<Rightarrow> path \<Rightarrow> str + str" where
  "sandbox_wrap h command cwd g tmp_dir = (case availability h of
       Some e \<Rightarrow> Inl e
     | None \<Rightarrow>
       (let fs = h_fs h; roots = write_roots fs g
        in case h_platform h of
             MacOs \<Rightarrow>
               (let profile = seatbelt_profile fs roots; p = profile_path tmp_dir profile
                in case (if fs_exists fs p then None else h_write_profile h p profile) of
                     Some e \<Rightarrow> Inl (''cannot write sandbox profile: '' @ e)
                   | None \<Rightarrow> Inr (''/usr/bin/sandbox-exec -f '' @ shell_quote p @ '' /bin/bash -c '' @ shell_quote command))
           | Linux \<Rightarrow>
               Inr (join_with '' '' (map shell_quote (bwrap_args fs roots cwd @ [''/bin/bash'', ''-c'', command])))
           | OtherOs \<Rightarrow> Inl ''no sandbox on this platform''))"

definition looks_like_violation :: "str \<Rightarrow> bool" where
  "looks_like_violation output = (let s = map to_lower output
     in list_ex (str_contains s)
       [''operation not permitted'', ''eperm'', ''permission denied'', ''read-only file system'', ''erofs'',
        ''network is unreachable'', ''could not resolve host'', ''temporary failure in name resolution'',
        ''nodename nor servname provided'', ''connection refused'', ''socket: operation not permitted'', ''sandbox''])"

section \<open>Evaluation\<close>

definition writable :: "fsys \<Rightarrow> guard \<Rightarrow> path \<Rightarrow> bool" where
  "writable fs g p \<longleftrightarrow> g_write g \<noteq> [] \<and> under_roots fs (g_write g) p"

text \<open>What one effect of the analysis contributes to the decision.\<close>

datatype judgement = Fine | Refused str | Unsure str

fun judge :: "fsys \<Rightarrow> guard \<Rightarrow> effect \<Rightarrow> judgement" where
  "judge fs g (EWrite p who) = (if writable fs g p then Fine
     else Refused ([CHR 0x60] @ who @ [CHR 0x60] @ '' writes '' @ [CHR 0x60] @ p @ [CHR 0x60]
       @ '', outside the list''))"
| "judge fs g (EExec p who) = (if writable fs g p then Fine
     else Unsure ([CHR 0x60] @ who @ [CHR 0x60] @ '' runs a script autofork cannot analyse''))"
| "judge fs g (EGitRemote repo who publish) = (if writable fs g repo then Fine
     else Refused ([CHR 0x60] @ who @ [CHR 0x60] @ '' '' @ (if publish then ''publishes'' else ''syncs'')
       @ '' the repository at '' @ [CHR 0x60] @ repo @ [CHR 0x60] @ '', outside the list''))"
| "judge fs g (ENetwork who) = (if g_network g then Fine
     else Refused ([CHR 0x60] @ who @ [CHR 0x60] @ '' uses the network, which this fork does not have''))"
| "judge fs g (EPublish who what) = (if g_network g then Fine
     else Refused ([CHR 0x60] @ who @ [CHR 0x60] @ '' '' @ what @ '', which this fork may not do''))"
| "judge fs g (EDenied who pat) = Refused ([CHR 0x60] @ who @ [CHR 0x60] @ '' matches this fork'' @ [CHR 0x27] @ ''s deny list (''
       @ [CHR 0x60] @ pat @ [CHR 0x60] @ '')'')"
| "judge fs g (EEscalate who) = Refused ([CHR 0x60] @ who @ [CHR 0x60] @ '' escalates privileges, which no fork may do'')"
| "judge fs g (EDisrupt who) =
     Refused ([CHR 0x60] @ who @ [CHR 0x60]
       @ '' stops or reconfigures processes or the system, which no fork may do'')"
| "judge fs g (EUnknown who why) = Unsure ([CHR 0x60] @ who @ [CHR 0x60] @ '' '' @ why)"

definition denies_of :: "judgement list \<Rightarrow> str list" where
  "denies_of js = concat (map (\<lambda>j. case j of Refused r \<Rightarrow> [r] | _ \<Rightarrow> []) js)"

definition unknowns_of :: "judgement list \<Rightarrow> str list" where
  "unknowns_of js = concat (map (\<lambda>j. case j of Unsure r \<Rightarrow> [r] | _ \<Rightarrow> []) js)"

definition decide_shell :: "host \<Rightarrow> guard \<Rightarrow> str \<Rightarrow> str \<Rightarrow> path \<Rightarrow> path \<Rightarrow> effect list \<Rightarrow> verdict" where
  "decide_shell h g fork_name command cwd tmp_dir effects =
     (let js = map (judge (h_fs h) g) effects; denies = denies_of js; unknowns = unknowns_of js
      in if denies \<noteq> [] then Deny (compose g fork_name denies)
         else if unknowns = [] then Allow
         else (case sandbox_wrap h command cwd g tmp_dir of
             Inr wrapped \<Rightarrow> Sandbox wrapped (compose g fork_name
               [(''the command ran inside a sandbox because '' @ join_with ''; '' unknowns
       @ ''; it may only write under the list and has no network, and it broke that rule'')])
           | Inl why \<Rightarrow> Deny (compose g fork_name (unknowns @
               [(''autofork cannot confine it either ('' @ why
       @ ''), so it is refused; express the work as plain shell commands on explicit paths'')]))))"

definition evaluate_shell :: "host \<Rightarrow> guard \<Rightarrow> str \<Rightarrow> str \<Rightarrow> path \<Rightarrow> path \<Rightarrow> verdict option" where
  "evaluate_shell h g fork_name command cwd tmp_dir =
     map_option (\<lambda>a. decide_shell h g fork_name command cwd tmp_dir (an_effects a))
       (analyse (h_fs h) (h_parse h) command cwd (g_write g) (g_deny g))"

definition absolute_from :: "path \<Rightarrow> path \<Rightarrow> path" where
  "absolute_from cwd p = normalize (if is_abs p then p else path_join cwd p)"

definition evaluate_edit :: "fsys \<Rightarrow> guard \<Rightarrow> str \<Rightarrow> path \<Rightarrow> path \<Rightarrow> verdict" where
  "evaluate_edit fs g fork_name p cwd = (let q = absolute_from cwd p
     in if writable fs g q then Allow else refuse g fork_name (''editing '' @ [CHR 0x60] @ q @ [CHR 0x60] @ '' is outside the list''))"

fun evaluate_patch :: "fsys \<Rightarrow> guard \<Rightarrow> str \<Rightarrow> path list \<Rightarrow> path \<Rightarrow> verdict" where
  "evaluate_patch fs g fork_name [] cwd = Allow"
| "evaluate_patch fs g fork_name (p # ps) cwd = (case evaluate_edit fs g fork_name p cwd of
       Deny m \<Rightarrow> Deny m | _ \<Rightarrow> evaluate_patch fs g fork_name ps cwd)"

fun call_what :: "tool_call \<Rightarrow> str" where
  "call_what (CShell command _) = (''the shell ('' @ [CHR 0x60] @ guard_excerpt command @ [CHR 0x60] @ '')'')"
| "call_what (CEdit p _) = (''editing '' @ [CHR 0x60] @ p @ [CHR 0x60])"
| "call_what (CPatch _ _) = ''patching files''"
| "call_what CRead = ''reading files''"
| "call_what (CWeb _) = ''the web''"
| "call_what CTask = ''subagents''"
| "call_what (CMcp name) = (''the '' @ [CHR 0x60] @ name @ [CHR 0x60] @ '' tool'')"
| "call_what (COther name) = (''the '' @ [CHR 0x60] @ name @ [CHR 0x60] @ '' tool'')"

definition refuse_family :: "guard \<Rightarrow> str \<Rightarrow> tool_call \<Rightarrow> verdict" where
  "refuse_family g fork_name call = (case call of
       CMcp name \<Rightarrow> refuse g fork_name
         ([CHR 0x60] @ name @ [CHR 0x60] @ '' is an MCP tool, and this fork may use ''
       @ tools_phrase g @ ''; MCP tools act on the outside world and are off unless the fork''
       @ [CHR 0x27] @ ''s guard names '' @ [CHR 0x60] @ ''mcp'' @ [CHR 0x60]
       @ '' in its tools'')
     | _ \<Rightarrow> refuse g fork_name
         (call_what call @ '' is not available to this fork: it may use '' @ tools_phrase g))"

definition evaluate_call :: "host \<Rightarrow> guard \<Rightarrow> str \<Rightarrow> tool_call \<Rightarrow> path \<Rightarrow> verdict option" where
  "evaluate_call h g fork_name call tmp_dir = (case call of
       CRead \<Rightarrow> Some Allow
     | CTask \<Rightarrow> Some Allow
     | CMcp _ \<Rightarrow> Some Allow
     | COther name \<Rightarrow> Some (if g_tools g = Some []
         then refuse g fork_name (''the '' @ [CHR 0x60] @ name @ [CHR 0x60] @ '' tool is not available to this fork'') else Allow)
     | CWeb target \<Rightarrow> Some (if g_network g then Allow
         else refuse g fork_name
           (''fetching from the web''
       @ (case target of None \<Rightarrow> [] | Some t \<Rightarrow> '' ('' @ backticked (guard_excerpt t) @ '')'')
       @ '' is not allowed: this fork has no network''))
     | CEdit p cwd \<Rightarrow> Some (if p = []
         then refuse g fork_name
           (''this call names no file to edit, so the guard cannot check it against the list; ''
       @ ''use a tool that takes a file path'')
         else evaluate_edit (h_fs h) g fork_name p cwd)
     | CPatch ps cwd \<Rightarrow> Some (if ps = []
         then refuse g fork_name
           (''this patch names no file the guard can check (no '' @ [CHR 0x60] @ ''*** Add File:''
       @ [CHR 0x60] @ '', '' @ [CHR 0x60] @ ''*** Update File:'' @ [CHR 0x60] @ '', ''
       @ [CHR 0x60] @ ''*** Delete File:'' @ [CHR 0x60] @ '' or '' @ [CHR 0x60]
       @ ''*** Move to:'' @ [CHR 0x60] @ '' header, and no '' @ [CHR 0x60] @ ''+++''
       @ [CHR 0x60] @ ''/'' @ [CHR 0x60] @ ''---'' @ [CHR 0x60]
       @ '' unified-diff header); write the file with a tool that takes a path instead'')
         else evaluate_patch (h_fs h) g fork_name ps cwd)
     | CShell command cwd \<Rightarrow> evaluate_shell h g fork_name command cwd tmp_dir)"

definition evaluate :: "host \<Rightarrow> guard \<Rightarrow> str \<Rightarrow> tool_call \<Rightarrow> path \<Rightarrow> verdict option" where
  "evaluate h g fork_name call tmp_dir = (case call_family call of
       Some f \<Rightarrow> if allows_family g f then evaluate_call h g fork_name call tmp_dir
                 else Some (refuse_family g fork_name call)
     | None \<Rightarrow> evaluate_call h g fork_name call tmp_dir)"

section \<open>Patches and remotes\<close>

definition push_path :: "path list \<Rightarrow> str \<Rightarrow> path list" where
  "push_path out s = (let p = trim s
     in if p \<noteq> [] \<and> p \<noteq> ''/dev/null'' \<and> \<not> list_ex (path_eq p) out then out @ [p] else out)"

definition PATCH_TAGS :: "str list" where
  "PATCH_TAGS = [''*** Add File:'', ''*** Update File:'', ''*** Delete File:'', ''*** Move to:'']"

definition header_paths :: "str \<Rightarrow> str list" where
  "header_paths text = concat (map (\<lambda>l. concat (map (\<lambda>tag. case strip_prefix tag (trim_end l) of
       None \<Rightarrow> [] | Some rest \<Rightarrow> [rest]) PATCH_TAGS)) (str_lines text))"

definition strip_git :: "str \<Rightarrow> str" where
  "strip_git p0 = (let p = trim (hd (split_on (CHR 0x09) p0))
     in case strip_prefix ''a/'' p of Some q \<Rightarrow> q
        | None \<Rightarrow> (case strip_prefix ''b/'' p of Some q \<Rightarrow> q | None \<Rightarrow> p))"

definition diff_path :: "str \<Rightarrow> str list" where
  "diff_path l0 = (let l = trim_end l0
     in case (case strip_prefix ''+++ '' l of Some r \<Rightarrow> Some r | None \<Rightarrow> strip_prefix ''--- '' l) of
          Some rest \<Rightarrow> [strip_git rest]
        | None \<Rightarrow> (case (case strip_prefix ''rename to '' l of Some r \<Rightarrow> Some r
                       | None \<Rightarrow> strip_prefix ''rename from '' l) of
            Some rest \<Rightarrow> [rest] | None \<Rightarrow> []))"

definition patch_paths :: "str \<Rightarrow> path list" where
  "patch_paths text = (if header_paths text \<noteq> [] then foldl push_path [] (header_paths text)
     else foldl push_path [] (concat (map diff_path (str_lines text))))"

definition remote_url_host :: "str \<Rightarrow> str option" where
  "remote_url_host url =
     (let non_empty = (\<lambda>s. if s = [] then None else Some s)
      in case find_sub url ''://'' of
           Some i \<Rightarrow> non_empty (hd (split_on (CHR '':'') (last (split_on (CHR 0x40)
                       (hd (split_on slash (drop (i + 3) url)))))))
         | None \<Rightarrow>
           if CHR '':'' \<notin> set url then None
           else (let auth = takeWhile (\<lambda>c. c \<noteq> CHR '':'') url
             in if slash \<in> set auth then None else non_empty (last (split_on (CHR 0x40) auth))))"

definition config_url :: "str \<Rightarrow> str option" where
  "config_url line = (case strip_prefix ''url'' (trim line) of None \<Rightarrow> None
     | Some rest \<Rightarrow> (case strip_prefix ''='' (trim_start rest) of None \<Rightarrow> None
       | Some u \<Rightarrow> remote_url_host (trim u)))"

definition git_remote_hosts :: "fsys \<Rightarrow> path \<Rightarrow> str list" where
  "git_remote_hosts fs repo = (case fs_read fs (path_join repo ''.git/config'') of
       None \<Rightarrow> []
     | Some cfg \<Rightarrow> foldl (\<lambda>out l. case config_url l of None \<Rightarrow> out | Some u \<Rightarrow> push_new out u) [] (str_lines cfg))"

text \<open>The repository at or above the root; the recursion is on the components of the path.\<close>

fun repo_above :: "fsys \<Rightarrow> comp list \<Rightarrow> path list" where
  "repo_above fs [] = (if fs_exists fs (path_join [] ''.git'') then [[]] else [])"
| "repo_above fs (c # cs) = (let p = path_of (rev (c # cs))
     in if fs_exists fs (path_join p ''.git'') then [p]
        else if c = RootDir then [] else repo_above fs cs)"

definition git_repos_under :: "fsys \<Rightarrow> (path \<Rightarrow> path list) \<Rightarrow> path \<Rightarrow> path list" where
  "git_repos_under fs read_dir root =
     foldl (\<lambda>out p. if fs_exists fs (path_join p ''.git'') \<and> \<not> list_ex (path_eq p) out then out @ [p] else out)
       (if fs_exists fs (path_join root ''.git'') then [root]
        else case rev (components root) of [] \<Rightarrow> [] | c # cs \<Rightarrow> if c = RootDir then [] else repo_above fs cs)
       (read_dir root)"

definition remote_hosts :: "fsys \<Rightarrow> (path \<Rightarrow> path list) \<Rightarrow> guard \<Rightarrow> str list" where
  "remote_hosts fs read_dir g = foldl push_new []
     (concat (map (\<lambda>w. concat (map (git_remote_hosts fs) (git_repos_under fs read_dir w))) (g_write g)))"

end
