(* ===== verification/Client.thy ===== *)
theory Client
  imports World Guard
begin

text \<open>
  What every hook of a harness shares: the conversation with the daemon (\<open>autofork/src/client.rs\<close>), the
  identity of the client process (\<open>autofork-core/src/harness.rs\<close>), the project root
  (\<open>autofork-core/src/project.rs\<close>). A \<open>talk\<close> is a hook process: what it does, in order, and how it goes on
  after each answer. \<open>Open\<close> stands for \<open>connect\<close> or \<open>connect_or_spawn\<close>: it works or it does not.
\<close>

section \<open>Processes that talk\<close>

record launch =
  ln_program :: str
  ln_args :: "str list"
  ln_dir :: "path option"
  ln_env :: "(str \<times> str) list"
  ln_timeout :: "nat option"

datatype open_mode = OpenOnly | OpenOrSpawn

text \<open>What a hook does beside asking: frames sent by the runs it makes, a process started, the waiter's
  tombstone written or removed, JSON on standard output, text on standard error, a daemon started.\<close>

datatype deed = Frames "request list" | Starts launch | Tombstone bool | Prints json | Says str | SpawnsDaemon

text \<open>An exit code, or \<open>None\<close> for a process that is still waiting when it is looked at no longer.\<close>

datatype talk =
    Exit "nat option"
  | Do deed talk
  | Open open_mode "bool \<Rightarrow> talk"
  | Ask request "response option \<Rightarrow> talk"

text \<open>A talk with a server: the server's state, what was done, and the exit.\<close>

primrec talk_with :: "(open_mode \<Rightarrow> 's \<Rightarrow> 's \<times> bool) \<Rightarrow> (request \<Rightarrow> 's \<Rightarrow> 's \<times> response option) \<Rightarrow> talk \<Rightarrow> 's \<Rightarrow> 's \<times> deed list \<times> nat option" where
  "talk_with opn ask (Exit code) s = (s, [], code)"
| "talk_with opn ask (Do d t) s =
     (let s1 = (case d of Frames rs \<Rightarrow> fold (\<lambda>r s. fst (ask r s)) rs s | _ \<Rightarrow> s);
          (s2, ds, code) = talk_with opn ask t s1 in (s2, d # ds, code))"
| "talk_with opn ask (Open m k) s = (let (s1, ok) = opn m s in talk_with opn ask (k ok) s1)"
| "talk_with opn ask (Ask r k) s = (let (s1, a) = ask r s in talk_with opn ask (k a) s1)"

section \<open>Reaching the daemon\<close>

text \<open>What a client that spawns a daemon meets: whether it gets the spawn lock in time, whether the daemon
  answers by then, whether the lock a daemon holds for life is free, and why the log cannot be opened or
  the process not started.\<close>

record spawn_world =
  sw_lock :: bool
  sw_probe :: bool
  sw_daemon_dead :: bool
  sw_error :: "str option"

datatype spawn_end = LeftAlone | SpawnError str | SpawnedDaemon path

definition daemon_binary :: "fsys \<Rightarrow> path option \<Rightarrow> path option" where
  "daemon_binary fs exe = (case map_option (\<lambda>d. path_join d ''autofork-daemon'') (Option.bind exe path_parent) of
     Some b \<Rightarrow> if fs_is_file fs b then Some b else None | None \<Rightarrow> None)"

definition spawn_daemon_locked :: "fsys \<Rightarrow> path option \<Rightarrow> spawn_world \<Rightarrow> spawn_end" where
  "spawn_daemon_locked fs exe sw = (if \<not> sw_lock sw then LeftAlone else if sw_probe sw then LeftAlone
     else if \<not> sw_daemon_dead sw then LeftAlone
     else case daemon_binary fs exe of None \<Rightarrow> SpawnError ''autofork-daemon binary not found next to the CLI''
       | Some b \<Rightarrow> (case sw_error sw of Some e \<Rightarrow> SpawnError e | None \<Rightarrow> SpawnedDaemon b))"

text \<open>The connection is tried once, and after a spawn until it works or the deadline is over; a try is
  whether it works and whether there is time left.\<close>

fun connect_tries :: "(bool \<times> bool) list \<Rightarrow> bool" where
  "connect_tries [] = False"
| "connect_tries ((connected, in_time) # tries) = (connected \<or> in_time \<and> connect_tries tries)"

definition connect_or_spawn :: "fsys \<Rightarrow> path option \<Rightarrow> spawn_world \<Rightarrow> bool \<Rightarrow> (bool \<times> bool) list \<Rightarrow> bool \<times> spawn_end option" where
  "connect_or_spawn fs exe sw connected tries = (if connected then (True, None)
     else case spawn_daemon_locked fs exe sw of SpawnError e \<Rightarrow> (False, Some (SpawnError e))
       | done \<Rightarrow> (connect_tries tries, Some done))"

text \<open>Only a client that holds the spawn lock while no daemon lives starts one.\<close>

lemma spawns_only_when_dead:
  "connect_or_spawn fs exe sw connected tries = (ok, Some (SpawnedDaemon b)) \<Longrightarrow>
     \<not> connected \<and> sw_lock sw \<and> \<not> sw_probe sw \<and> sw_daemon_dead sw \<and> daemon_binary fs exe = Some b"
  by (auto simp: connect_or_spawn_def spawn_daemon_locked_def split: if_splits option.splits spawn_end.splits)

section \<open>The version handshake\<close>

definition version_part :: "str \<Rightarrow> nat" where
  "version_part p = (case parse_u64 (takeWhile is_digit p) of Some n \<Rightarrow> n | None \<Rightarrow> 0)"

datatype version = Version nat nat nat

text \<open>Versions in order of their parts, the first one first, as Rust compares arrays.\<close>

fun version_le :: "version \<Rightarrow> version \<Rightarrow> bool" where
  "version_le (Version a b c) (Version x y z) \<longleftrightarrow> a < x \<or> a = x \<and> (b < y \<or> b = y \<and> c \<le> z)"

instantiation version :: linorder
begin

definition less_eq_version :: "version \<Rightarrow> version \<Rightarrow> bool" where
  "less_eq_version v w \<longleftrightarrow> version_le v w"

definition less_version :: "version \<Rightarrow> version \<Rightarrow> bool" where
  "less_version v w \<longleftrightarrow> version_le v w \<and> \<not> version_le w v"

instance
proof
  fix u v w :: version
  show "v < w \<longleftrightarrow> v \<le> w \<and> \<not> w \<le> v" by (simp add: less_version_def less_eq_version_def)
  show "v \<le> v" by (cases v) (simp add: less_eq_version_def)
  show "u \<le> v \<Longrightarrow> v \<le> w \<Longrightarrow> u \<le> w" by (cases u; cases v; cases w) (auto simp: less_eq_version_def)
  show "v \<le> w \<Longrightarrow> w \<le> v \<Longrightarrow> v = w" by (cases v; cases w) (auto simp: less_eq_version_def)
  show "v \<le> w \<or> w \<le> v" by (cases v; cases w) (auto simp: less_eq_version_def)
qed

end

definition version_of :: "str \<Rightarrow> version" where
  "version_of s = (case map version_part (take 3 (split_on (CHR ''.'') (trim s))) of
     [a] \<Rightarrow> Version a 0 0 | [a, b] \<Rightarrow> Version a b 0 | [a, b, c] \<Rightarrow> Version a b c | _ \<Rightarrow> Version 0 0 0)"

definition semver_lt :: "str \<Rightarrow> str \<Rightarrow> bool" where
  "semver_lt a b \<longleftrightarrow> version_of a < version_of b"

definition outdated :: "str \<Rightarrow> response option \<Rightarrow> bool" where
  "outdated mine answer = (case answer of
     Some (RHello v) \<Rightarrow> semver_lt v mine
   | Some (RError _ _) \<Rightarrow> True
   | None \<Rightarrow> True
   | Some _ \<Rightarrow> False)"

text \<open>Two binaries never retire each other, and none retires a daemon of its own version.\<close>

lemma outdated_one_way:
  "outdated a (Some (RHello b)) \<Longrightarrow> \<not> outdated b (Some (RHello a))" "\<not> outdated a (Some (RHello a))"
  by (auto simp: outdated_def semver_lt_def)

text \<open>\<open>ensure_current_version\<close>, on a connection that is open: an outdated daemon is retired and the talk goes
  on with a new one.\<close>

definition ensure_current_version :: "str \<Rightarrow> talk \<Rightarrow> talk \<Rightarrow> talk" where
  "ensure_current_version mine failed k = Ask (Hello mine) (\<lambda>answer.
     if outdated mine answer then Ask (Shutdown True) (\<lambda>_. Open OpenOrSpawn (\<lambda>ok. if ok then k else failed)) else k)"

definition open_current :: "str \<Rightarrow> talk \<Rightarrow> talk \<Rightarrow> talk" where
  "open_current mine failed k = Open OpenOrSpawn (\<lambda>ok. if ok then ensure_current_version mine failed k else failed)"

section \<open>The client process\<close>

record processes =
  pr_self_parent :: nat
  pr_parent :: "nat \<Rightarrow> nat option"
  pr_exe :: "nat \<Rightarrow> path option"

record hook_host =
  hh_world :: world
  hh_procs :: processes
  hh_current_dir :: "path option"
  hh_exe :: "path option"

definition SHELL_NAMES :: "str list" where
  "SHELL_NAMES = [''sh'', ''bash'', ''zsh'', ''dash'', ''ksh'', ''fish'', ''env'', ''login'', ''script'', ''cmd'', ''powershell'',
     ''pwsh'', ''conhost'']"

definition is_shell_name :: "str \<Rightarrow> bool" where
  "is_shell_name name = (let lower = map to_lower name
     in (case strip_suffix ''.exe'' lower of Some stem \<Rightarrow> stem | None \<Rightarrow> lower) \<in> set SHELL_NAMES)"

definition is_shell :: "path option \<Rightarrow> bool" where
  "is_shell bin = (case bin of None \<Rightarrow> False
     | Some p \<Rightarrow> valid_utf8 p \<and> is_shell_name (last (split_on slash (map (\<lambda>c. if c = backslash then slash else c) p))))"

definition of_pid :: "hook_host \<Rightarrow> nat \<Rightarrow> harness option" where
  "of_pid hh pid = (if pid \<le> 1 \<or> \<not> wd_pid_exists (hh_world hh) pid then None
     else Some \<lparr>hp_pid = pid, hp_start = wd_start_token (hh_world hh) pid, hp_bin = pr_exe (hh_procs hh) pid\<rparr>)"

definition MAX_ANCESTOR_HOPS :: nat where
  "MAX_ANCESTOR_HOPS = 4"

primrec walk_ancestors :: "hook_host \<Rightarrow> nat \<Rightarrow> nat \<Rightarrow> harness option" where
  "walk_ancestors hh 0 pid = of_pid hh pid"
| "walk_ancestors hh (Suc hops) pid = (if pid \<le> 1 then None
     else case of_pid hh pid of None \<Rightarrow> None
     | Some h \<Rightarrow> if \<not> is_shell (hp_bin h) then Some h
         else (case pr_parent (hh_procs hh) pid of None \<Rightarrow> None | Some up \<Rightarrow> walk_ancestors hh hops up))"

definition parse_u32 :: "str \<Rightarrow> nat option" where
  "parse_u32 s = (case parse_u64 s of Some n \<Rightarrow> if n < 2 ^ 32 then Some n else None | None \<Rightarrow> None)"

definition utf8_var :: "fsys \<Rightarrow> str \<Rightarrow> str option" where
  "utf8_var fs name = (case fs_env fs name of Some v \<Rightarrow> if valid_utf8 v then Some v else None | None \<Rightarrow> None)"

definition client_process :: "hook_host \<Rightarrow> harness option" where
  "client_process hh = (case Option.bind (Option.bind (utf8_var (wd_fs (hh_world hh)) ''CLAUDE_PID'') parse_u32) (of_pid hh) of
     Some h \<Rightarrow> Some h
   | None \<Rightarrow> walk_ancestors hh MAX_ANCESTOR_HOPS (pr_self_parent (hh_procs hh)))"

definition parent_exe :: "hook_host \<Rightarrow> path option" where
  "parent_exe hh = pr_exe (hh_procs hh) (pr_self_parent (hh_procs hh))"

section \<open>The project root\<close>

text \<open>The nearest directory at or above; the recursion is on the components, the last first.\<close>

fun nearest_above :: "(path \<Rightarrow> bool) \<Rightarrow> comp list \<Rightarrow> path option" where
  "nearest_above holds [] = (if holds (path_of []) then Some (path_of []) else None)"
| "nearest_above holds (c # cs) = (let p = path_of (rev (c # cs))
     in if holds p then Some p else if c = RootDir then None else nearest_above holds cs)"

definition project_root :: "fsys \<Rightarrow> path \<Rightarrow> path" where
  "project_root fs cwd =
     (let start = canonical fs cwd; up = rev (components start)
      in case nearest_above (\<lambda>d. fs_is_dir fs (path_join d ''.autofork'')) up of Some d \<Rightarrow> d
         | None \<Rightarrow> (case nearest_above (\<lambda>d. fs_exists fs (path_join d ''.git'')) up of Some d \<Rightarrow> d | None \<Rightarrow> start))"

section \<open>What the events have in common\<close>

definition tags_from_env :: "fsys \<Rightarrow> str \<Rightarrow> str list option" where
  "tags_from_env fs var = (case utf8_var fs var of None \<Rightarrow> None
     | Some raw \<Rightarrow> (let out = foldl push_new [] (filter (\<lambda>t. t \<noteq> []) (map trim (split_on (CHR 0x2C) raw)))
         in if out = [] then None else Some out))"

definition client_event :: "fsys \<Rightarrow> str \<Rightarrow> path \<Rightarrow> path \<Rightarrow> event_kind \<Rightarrow> event" where
  "client_event fs session cwd root kind = \<lparr>ev_event = kind, ev_session_id = session, ev_transcript_path = None,
     ev_cwd = cwd, ev_project_root = root, ev_source = None, ev_reason = None, ev_model = None,
     ev_enable_tags = tags_from_env fs ''AUTOFORK_ENABLE_TAGS'', ev_disable_tags = tags_from_env fs ''AUTOFORK_DISABLE_TAGS'',
     ev_waking = None, ev_notif_tool_use_id = None, ev_notif_task_id = None, ev_notif_status = None,
     ev_notif_continue = None, ev_context_tokens = None, ev_context_window = None, ev_client = None, ev_busy = None,
     ev_harness = None, ev_env = capture (fs_env fs)\<rparr>"

text \<open>The guard against hooks of our own runs.\<close>

definition inside_fork :: "fsys \<Rightarrow> bool" where
  "inside_fork fs \<longleftrightarrow> fs_env fs ''AUTOFORK_FORK'' \<noteq> None \<or> fs_env fs ''AUTOFORK_SESSION_ID'' \<noteq> None"

text \<open>Reports as additional context of a prompt.\<close>

definition CONTEXT_CAP :: nat where
  "CONTEXT_CAP = 9800"

definition context_text :: "str list \<Rightarrow> str" where
  "context_text blocks = (let t = join_with [nl, nl] blocks
     in if length t > CONTEXT_CAP then take (boundary_below t CONTEXT_CAP) t
            @ [nl] @ ''['' @ ellipsis @ ''report truncated to fit the context budget]'' else t)"

definition additional_context :: "str list \<Rightarrow> json" where
  "additional_context blocks = JObj [(''hookSpecificOutput'', JObj [(''hookEventName'', JStr ''UserPromptSubmit''),
     (''additionalContext'', JStr (context_text blocks))])]"

definition print_additional_context :: "response option \<Rightarrow> talk \<Rightarrow> talk" where
  "print_additional_context answer k = (case answer of
     Some (RReports blocks) \<Rightarrow> if blocks = [] then k else Do (Prints (additional_context blocks)) k
   | _ \<Rightarrow> k)"

section \<open>The end-runner\<close>

record final_args =
  fa_client :: str
  fa_session_id :: str
  fa_resume_target :: str
  fa_cwd :: path
  fa_model :: "str option"
  fa_permission_mode :: "str option"
  fa_bin :: "path option"

text \<open>\<open>spawn_final_runner\<close>; the specs are written to the file it names.\<close>

definition final_launch :: "path \<Rightarrow> path \<Rightarrow> final_args \<Rightarrow> launch" where
  "final_launch exe specs_path fa = \<lparr>ln_program = exe,
     ln_args = [''final-run'', ''--client'', fa_client fa, ''--session'', fa_session_id fa, ''--resume-target'', fa_resume_target fa,
         ''--cwd'', fa_cwd fa, ''--specs'', specs_path]
       @ (case fa_model fa of Some m \<Rightarrow> [''--model'', m] | None \<Rightarrow> [])
       @ (case fa_permission_mode fa of Some m \<Rightarrow> [''--permission-mode'', m] | None \<Rightarrow> [])
       @ (case fa_bin fa of Some b \<Rightarrow> [''--bin'', b] | None \<Rightarrow> []),
     ln_dir = None, ln_env = [], ln_timeout = None\<rparr>"

definition spawn_final_runner :: "hook_host \<Rightarrow> path \<Rightarrow> final_args \<Rightarrow> wake_fork list \<Rightarrow> talk \<Rightarrow> talk" where
  "spawn_final_runner hh specs_path fa specs k = (if specs = [] then k
     else case hh_exe hh of None \<Rightarrow> k | Some exe \<Rightarrow> Do (Starts (final_launch exe specs_path fa)) k)"

text \<open>The close with its flush: the final runs are taken before the event closes the session.\<close>

definition take_final_runs :: "hook_host \<Rightarrow> path \<Rightarrow> path \<Rightarrow> final_args \<Rightarrow> talk \<Rightarrow> talk" where
  "take_final_runs hh root specs_path fa k = (if flush_on_close (cfg_for (hh_world hh) (Some root))
     then Ask (TakeFinalRuns (fa_session_id fa)) (\<lambda>answer. case answer of
         Some (RDue forks) \<Rightarrow> spawn_final_runner hh specs_path fa forks k | _ \<Rightarrow> k)
     else k)"

end
