(* ===== verification/Startup.thy ===== *)
theory Startup
  imports Migration Client
begin

text \<open>
  Who runs the daemon: the processes that start, retire and are daemons, as one step relation over their
  phases (\<open>spawn_daemon_locked\<close> and \<open>ensure_current_version\<close> of client.rs, \<open>main\<close> of the daemon, \<open>bind\<close> and
  \<open>cleanup\<close> of ipc.rs, on Unix). They share two lock files, the socket and the database file. A lock is
  taken if no process holds it, and the kernel releases it when its holder ends; a socket file outlives
  the process that bound it. A process may die at any time, also within the upgrade of the database.
\<close>

section \<open>Processes\<close>

text \<open>A client that found no daemon: it waits for the spawn lock, probes the socket, tries the daemon's lock,
  removes a stale socket, gives the lock back and starts the daemon. A client that retires a daemon: it
  takes and drops the daemon's lock to see that it is free. The daemon: it takes its lock, opens the
  store, replaces the socket, serves, removes the socket.\<close>

datatype phase =
    Gone
  | Knocking | Probing | Unanswered | Sweeping | Swept | Ready
  | Retiring | Peeking
  | Started | Locked | Opened | Unlinked | Serving | Leaving | Cleaned

record machine =
  mc_phase :: "nat \<Rightarrow> phase"
  mc_daemon_lock :: "nat option"
  mc_spawn_lock :: "nat option"
  mc_socket :: "nat option"
  mc_db :: database

definition has_daemon_lock :: "phase \<Rightarrow> bool" where
  "has_daemon_lock ph \<longleftrightarrow> ph \<in> {Sweeping, Swept, Peeking, Locked, Opened, Unlinked, Serving, Leaving, Cleaned}"

definition has_spawn_lock :: "phase \<Rightarrow> bool" where
  "has_spawn_lock ph \<longleftrightarrow> ph \<in> {Probing, Unanswered, Sweeping, Swept, Ready}"

definition goes :: "nat \<Rightarrow> phase \<Rightarrow> machine \<Rightarrow> machine" where
  "goes p ph m = m\<lparr>mc_phase := (mc_phase m)(p := ph)\<rparr>"

text \<open>A process ends; its locks are free.\<close>

definition ends :: "nat \<Rightarrow> machine \<Rightarrow> machine" where
  "ends p m = (goes p Gone m)
     \<lparr>mc_daemon_lock := (if mc_daemon_lock m = Some p then None else mc_daemon_lock m),
      mc_spawn_lock := (if mc_spawn_lock m = Some p then None else mc_spawn_lock m)\<rparr>"

text \<open>A connection succeeds where a live daemon listens on the socket file.\<close>

definition answers :: "machine \<Rightarrow> bool" where
  "answers m \<longleftrightarrow> (case mc_socket m of None \<Rightarrow> False | Some p \<Rightarrow> mc_phase m p = Serving)"

text \<open>The listener: the socket file is removed, or a socket is bound where no file is.\<close>

definition remove_socket :: "machine \<Rightarrow> machine" where
  "remove_socket m = m\<lparr>mc_socket := None\<rparr>"

definition bind_socket :: "nat \<Rightarrow> machine \<Rightarrow> machine option" where
  "bind_socket p m = (if mc_socket m = None then Some (m\<lparr>mc_socket := Some p\<rparr>) else None)"

section \<open>Steps\<close>

inductive client_step :: "nat \<Rightarrow> machine \<Rightarrow> machine \<Rightarrow> bool" for p where
  arrives: "mc_phase m p = Gone \<Longrightarrow> ph \<in> {Knocking, Retiring} \<Longrightarrow> client_step p m (goes p ph m)"
| spawn_locked: "mc_phase m p = Knocking \<Longrightarrow> mc_spawn_lock m = None
    \<Longrightarrow> client_step p m ((goes p Probing m)\<lparr>mc_spawn_lock := Some p\<rparr>)"
| answered: "mc_phase m p = Probing \<Longrightarrow> answers m \<Longrightarrow> client_step p m (ends p m)"
| unanswered: "mc_phase m p = Probing \<Longrightarrow> \<not> answers m \<Longrightarrow> client_step p m (goes p Unanswered m)"
| alive: "mc_phase m p = Unanswered \<Longrightarrow> mc_daemon_lock m \<noteq> None \<Longrightarrow> client_step p m (ends p m)"
| dead: "mc_phase m p = Unanswered \<Longrightarrow> mc_daemon_lock m = None
    \<Longrightarrow> client_step p m ((goes p Sweeping m)\<lparr>mc_daemon_lock := Some p\<rparr>)"
| sweeps: "mc_phase m p = Sweeping \<Longrightarrow> client_step p m (remove_socket (goes p Swept m))"
| gives_back: "mc_phase m p = Swept \<Longrightarrow> client_step p m ((goes p Ready m)\<lparr>mc_daemon_lock := None\<rparr>)"
| spawns: "mc_phase m p = Ready \<Longrightarrow> mc_phase m q = Gone \<Longrightarrow> client_step p m (goes q Started (ends p m))"
| peeks: "mc_phase m p = Retiring \<Longrightarrow> mc_daemon_lock m = None
    \<Longrightarrow> client_step p m ((goes p Peeking m)\<lparr>mc_daemon_lock := Some p\<rparr>)"
| peeked: "mc_phase m p = Peeking \<Longrightarrow> client_step p m ((goes p Knocking m)\<lparr>mc_daemon_lock := None\<rparr>)"
| waited_out: "mc_phase m p = Retiring \<Longrightarrow> client_step p m (goes p Knocking m)"

inductive daemon_step :: "nat \<Rightarrow> machine \<Rightarrow> machine \<Rightarrow> bool" for p where
  locks: "mc_phase m p = Started \<Longrightarrow> mc_daemon_lock m = None
    \<Longrightarrow> daemon_step p m ((goes p Locked m)\<lparr>mc_daemon_lock := Some p\<rparr>)"
| turned_away: "mc_phase m p = Started \<Longrightarrow> mc_daemon_lock m \<noteq> None \<Longrightarrow> daemon_step p m (ends p m)"
| opens: "mc_phase m p = Locked \<Longrightarrow> init_store (mc_db m) = (db, None)
    \<Longrightarrow> daemon_step p m ((goes p Opened m)\<lparr>mc_db := db\<rparr>)"
| fails_to_open: "mc_phase m p = Locked \<Longrightarrow> init_store (mc_db m) = (db, Some e)
    \<Longrightarrow> daemon_step p m ((ends p m)\<lparr>mc_db := db\<rparr>)"
| unlinks: "mc_phase m p = Opened \<Longrightarrow> daemon_step p m (remove_socket (goes p Unlinked m))"
| binds: "mc_phase m p = Unlinked \<Longrightarrow> bind_socket p (goes p Serving m) = Some m' \<Longrightarrow> daemon_step p m m'"
| fails_to_bind: "mc_phase m p = Unlinked \<Longrightarrow> bind_socket p m = None \<Longrightarrow> daemon_step p m (ends p m)"
| stops: "mc_phase m p = Serving \<Longrightarrow> daemon_step p m (goes p Leaving m)"
| cleans_up: "mc_phase m p = Leaving \<Longrightarrow> daemon_step p m (remove_socket (goes p Cleaned m))"
| exits: "mc_phase m p = Cleaned \<Longrightarrow> daemon_step p m (ends p m)"

text \<open>A death leaves the database as it is, but in \<open>init\<close> after some migrations.\<close>

inductive machine_step :: "machine \<Rightarrow> machine \<Rightarrow> bool" where
  client: "client_step p m m' \<Longrightarrow> machine_step m m'"
| daemon: "daemon_step p m m' \<Longrightarrow> machine_step m m'"
| dies: "mc_phase m p \<noteq> Gone \<Longrightarrow> machine_step m (ends p m)"
| dies_upgrading: "mc_phase m p = Locked \<Longrightarrow> machine_step m ((ends p m)\<lparr>mc_db := died_after j (mc_db m)\<rparr>)"

definition machine_new :: "nat option \<Rightarrow> database \<Rightarrow> machine" where
  "machine_new socket db = \<lparr>mc_phase = (\<lambda>_. Gone), mc_daemon_lock = None, mc_spawn_lock = None, mc_socket = socket, mc_db = db\<rparr>"

section \<open>One daemon\<close>

definition machine_ok :: "machine \<Rightarrow> bool" where
  "machine_ok m \<longleftrightarrow> (\<forall>p. has_daemon_lock (mc_phase m p) \<longleftrightarrow> mc_daemon_lock m = Some p)
     \<and> (\<forall>p. has_spawn_lock (mc_phase m p) \<longleftrightarrow> mc_spawn_lock m = Some p)
     \<and> (\<forall>p. mc_phase m p = Serving \<longrightarrow> mc_socket m = Some p)
     \<and> (\<forall>p. mc_phase m p = Unlinked \<longrightarrow> mc_socket m = None)"

lemmas phases = has_daemon_lock_def has_spawn_lock_def

lemma goes_simps [simp]:
  "mc_phase (goes p ph m) = (mc_phase m)(p := ph)" "mc_daemon_lock (goes p ph m) = mc_daemon_lock m"
  "mc_spawn_lock (goes p ph m) = mc_spawn_lock m" "mc_socket (goes p ph m) = mc_socket m" "mc_db (goes p ph m) = mc_db m"
  by (simp_all add: goes_def)

lemma ends_simps [simp]:
  "mc_phase (ends p m) = (mc_phase m)(p := Gone)" "mc_socket (ends p m) = mc_socket m" "mc_db (ends p m) = mc_db m"
  "mc_daemon_lock (ends p m) = (if mc_daemon_lock m = Some p then None else mc_daemon_lock m)"
  "mc_spawn_lock (ends p m) = (if mc_spawn_lock m = Some p then None else mc_spawn_lock m)"
  by (simp_all add: ends_def)

lemma remove_socket_simps [simp]:
  "mc_phase (remove_socket m) = mc_phase m" "mc_daemon_lock (remove_socket m) = mc_daemon_lock m"
  "mc_spawn_lock (remove_socket m) = mc_spawn_lock m" "mc_socket (remove_socket m) = None" "mc_db (remove_socket m) = mc_db m"
  by (simp_all add: remove_socket_def)

lemma bind_socket_iff [simp]: "bind_socket p m = Some m' \<longleftrightarrow> mc_socket m = None \<and> m' = m\<lparr>mc_socket := Some p\<rparr>"
  by (auto simp: bind_socket_def)

lemma machine_ok_change:
  assumes ok: "machine_ok m" and ph: "mc_phase m' = (mc_phase m)(p := ph)"
    and dl: "has_daemon_lock ph \<longleftrightarrow> mc_daemon_lock m' = Some p"
      "mc_daemon_lock m' = mc_daemon_lock m \<or> mc_daemon_lock m \<in> {None, Some p} \<and> mc_daemon_lock m' \<in> {None, Some p}"
    and sl: "has_spawn_lock ph \<longleftrightarrow> mc_spawn_lock m' = Some p"
      "mc_spawn_lock m' = mc_spawn_lock m \<or> mc_spawn_lock m \<in> {None, Some p} \<and> mc_spawn_lock m' \<in> {None, Some p}"
    and so: "mc_socket m' = mc_socket m \<or> mc_daemon_lock m = Some p"
      "ph = Serving \<Longrightarrow> mc_socket m' = Some p" "ph = Unlinked \<Longrightarrow> mc_socket m' = None"
  shows "machine_ok m'"
proof -
  have other: "mc_socket m' = mc_socket m" if "q \<noteq> p" "has_daemon_lock (mc_phase m q)" for q
    using so(1) ok that unfolding machine_ok_def by (metis option.inject)
  have "has_daemon_lock (mc_phase m' q) \<longleftrightarrow> mc_daemon_lock m' = Some q" for q
    using ok dl unfolding ph machine_ok_def by (cases "q = p") auto
  moreover have "has_spawn_lock (mc_phase m' q) \<longleftrightarrow> mc_spawn_lock m' = Some q" for q
    using ok sl unfolding ph machine_ok_def by (cases "q = p") auto
  moreover have "mc_socket m' = Some q" if "mc_phase m' q = Serving" for q
    using that ok so(2) other[of q] unfolding ph machine_ok_def
    by (cases "q = p") (auto simp: has_daemon_lock_def)
  moreover have "mc_socket m' = None" if "mc_phase m' q = Unlinked" for q
    using that ok so(3) other[of q] unfolding ph machine_ok_def
    by (cases "q = p") (auto simp: has_daemon_lock_def)
  ultimately show ?thesis unfolding machine_ok_def by blast
qed

lemma locks_of:
  "machine_ok m \<Longrightarrow> mc_phase m p = ph \<Longrightarrow> mc_daemon_lock m = Some p \<longleftrightarrow> has_daemon_lock ph"
  "machine_ok m \<Longrightarrow> mc_phase m p = ph \<Longrightarrow> mc_spawn_lock m = Some p \<longleftrightarrow> has_spawn_lock ph"
  unfolding machine_ok_def by metis+

lemma ends_ok: "machine_ok m \<Longrightarrow> machine_ok (ends p m)"
  by (rule machine_ok_change[of m _ p Gone]) (auto simp: phases)

lemma db_ok [simp]: "machine_ok (m\<lparr>mc_db := db\<rparr>) = machine_ok m"
  by (simp add: machine_ok_def)

lemma client_step_ok: "client_step p m m' \<Longrightarrow> machine_ok m \<Longrightarrow> machine_ok m'"
proof (induction rule: client_step.induct)
  case (spawns m q)
  have ok: "machine_ok (ends p m)" using spawns.prems by (rule ends_ok)
  have "mc_phase (ends p m) q = Gone" using spawns.hyps by simp
  from locks_of[OF ok this] show ?case
    by (intro machine_ok_change[OF ok, of _ q Started]) (auto simp: phases)
next
  case (arrives m ph)
  then show ?case using locks_of[OF arrives.prems arrives.hyps(1)]
    by (intro machine_ok_change[OF arrives.prems, of _ p ph]) (auto simp: phases)
next
  case (spawn_locked m)
  then show ?case using locks_of[OF spawn_locked.prems spawn_locked.hyps(1)]
    by (intro machine_ok_change[OF spawn_locked.prems, of _ p Probing]) (auto simp: phases)
next
  case (unanswered m)
  then show ?case using locks_of[OF unanswered.prems unanswered.hyps(1)]
    by (intro machine_ok_change[OF unanswered.prems, of _ p Unanswered]) (auto simp: phases)
next
  case (dead m)
  then show ?case using locks_of[OF dead.prems dead.hyps(1)]
    by (intro machine_ok_change[OF dead.prems, of _ p Sweeping]) (auto simp: phases)
next
  case (sweeps m)
  then show ?case using locks_of[OF sweeps.prems sweeps.hyps(1)]
    by (intro machine_ok_change[OF sweeps.prems, of _ p Swept]) (auto simp: phases)
next
  case (gives_back m)
  then show ?case using locks_of[OF gives_back.prems gives_back.hyps(1)]
    by (intro machine_ok_change[OF gives_back.prems, of _ p Ready]) (auto simp: phases)
next
  case (peeks m)
  then show ?case using locks_of[OF peeks.prems peeks.hyps(1)]
    by (intro machine_ok_change[OF peeks.prems, of _ p Peeking]) (auto simp: phases)
next
  case (peeked m)
  then show ?case using locks_of[OF peeked.prems peeked.hyps(1)]
    by (intro machine_ok_change[OF peeked.prems, of _ p Knocking]) (auto simp: phases)
next
  case (waited_out m)
  then show ?case using locks_of[OF waited_out.prems waited_out.hyps(1)]
    by (intro machine_ok_change[OF waited_out.prems, of _ p Knocking]) (auto simp: phases)
qed (simp_all add: ends_ok)

lemma daemon_step_ok: "daemon_step p m m' \<Longrightarrow> machine_ok m \<Longrightarrow> machine_ok m'"
proof (induction rule: daemon_step.induct)
  case (locks m)
  then show ?case using locks_of[OF locks.prems locks.hyps(1)]
    by (intro machine_ok_change[OF locks.prems, of _ p Locked]) (auto simp: phases)
next
  case (opens m db)
  then show ?case using locks_of[OF opens.prems opens.hyps(1)]
    by (intro machine_ok_change[OF opens.prems, of _ p Opened]) (auto simp: phases)
next
  case (unlinks m)
  then show ?case using locks_of[OF unlinks.prems unlinks.hyps(1)]
    by (intro machine_ok_change[OF unlinks.prems, of _ p Unlinked]) (auto simp: phases)
next
  case (binds m m')
  then show ?case using locks_of[OF binds.prems binds.hyps(1)]
    by (intro machine_ok_change[OF binds.prems, of _ p Serving]) (auto simp: phases)
next
  case (stops m)
  then show ?case using locks_of[OF stops.prems stops.hyps(1)]
    by (intro machine_ok_change[OF stops.prems, of _ p Leaving]) (auto simp: phases)
next
  case (cleans_up m)
  then show ?case using locks_of[OF cleans_up.prems cleans_up.hyps(1)]
    by (intro machine_ok_change[OF cleans_up.prems, of _ p Cleaned]) (auto simp: phases)
qed (simp_all add: ends_ok)

lemma machine_step_ok: "machine_step m m' \<Longrightarrow> machine_ok m \<Longrightarrow> machine_ok m'"
  by (induction rule: machine_step.induct) (auto intro: client_step_ok daemon_step_ok ends_ok)

lemma machine_run_ok: "machine_step\<^sup>*\<^sup>* m m' \<Longrightarrow> machine_ok m \<Longrightarrow> machine_ok m'"
  by (induction rule: rtranclp_induct) (simp_all add: machine_step_ok)

lemma machine_new_ok: "machine_ok (machine_new socket db)"
  by (simp add: machine_ok_def machine_new_def phases)

definition is_up :: "phase \<Rightarrow> bool" where
  "is_up ph \<longleftrightarrow> ph \<in> {Locked, Opened, Unlinked, Serving, Leaving, Cleaned}"

lemma up_locked: "is_up ph \<Longrightarrow> has_daemon_lock ph"
  by (auto simp: is_up_def has_daemon_lock_def)

text \<open>A first client on a machine where nothing runs starts a daemon.\<close>

definition with_daemon :: "phase \<Rightarrow> database \<Rightarrow> machine" where
  "with_daemon ph db = \<lparr>mc_phase = (\<lambda>_. Gone)(1 := ph), mc_daemon_lock = (if has_daemon_lock ph then Some 1 else None),
     mc_spawn_lock = None, mc_socket = (if ph = Serving then Some 1 else None), mc_db = db\<rparr>"

lemma client_then: "client_step p m m1 \<Longrightarrow> machine_step\<^sup>*\<^sup>* m1 m2 \<Longrightarrow> machine_step\<^sup>*\<^sup>* m m2"
  by (meson converse_rtranclp_into_rtranclp machine_step.client)

lemma boots: "machine_step\<^sup>*\<^sup>* (machine_new None db) (with_daemon Started db)"
proof -
  let ?m = "\<lambda>ph dl sl. \<lparr>mc_phase = (\<lambda>_. Gone)(0 := ph), mc_daemon_lock = dl, mc_spawn_lock = sl, mc_socket = None, mc_db = db\<rparr>"
  have "with_daemon Started db = goes 1 Started (ends 0 (?m Ready None (Some 0)))"
    by (simp add: with_daemon_def goes_def ends_def has_daemon_lock_def fun_eq_iff)
  then have "client_step 0 (?m Ready None (Some 0)) (with_daemon Started db)"
    using client_step.spawns[of "?m Ready None (Some 0)" 0 1] by simp
  then have "machine_step\<^sup>*\<^sup>* (?m Ready None (Some 0)) (with_daemon Started db)" by (rule client_then) simp
  then have "machine_step\<^sup>*\<^sup>* (?m Swept (Some 0) (Some 0)) (with_daemon Started db)"
    using client_step.gives_back[of "?m Swept (Some 0) (Some 0)" 0] by (auto simp: goes_def intro: client_then)
  then have "machine_step\<^sup>*\<^sup>* (?m Sweeping (Some 0) (Some 0)) (with_daemon Started db)"
    using client_step.sweeps[of "?m Sweeping (Some 0) (Some 0)" 0] by (auto simp: goes_def remove_socket_def intro: client_then)
  then have "machine_step\<^sup>*\<^sup>* (?m Unanswered None (Some 0)) (with_daemon Started db)"
    using client_step.dead[of "?m Unanswered None (Some 0)" 0] by (auto simp: goes_def intro: client_then)
  then have "machine_step\<^sup>*\<^sup>* (?m Probing None (Some 0)) (with_daemon Started db)"
    using client_step.unanswered[of "?m Probing None (Some 0)" 0] by (auto simp: goes_def answers_def intro: client_then)
  then have "machine_step\<^sup>*\<^sup>* (?m Knocking None None) (with_daemon Started db)"
    using client_step.spawn_locked[of "?m Knocking None None" 0] by (auto simp: goes_def intro: client_then)
  then show ?thesis
    using client_step.arrives[of "machine_new None db" 0 Knocking] by (auto simp: goes_def machine_new_def intro: client_then)
qed

lemma boots_locked: "machine_step\<^sup>*\<^sup>* (machine_new None db) (with_daemon Locked db)"
proof -
  have "daemon_step 1 (with_daemon Started db) (with_daemon Locked db)"
    using daemon_step.locks[of "with_daemon Started db" 1] by (simp add: with_daemon_def goes_def has_daemon_lock_def)
  with boots show ?thesis by (meson machine_step.daemon rtranclp.rtrancl_into_rtrancl)
qed

lemma boots_serving:
  assumes "init_store db = (db', None)"
  shows "machine_step\<^sup>*\<^sup>* (machine_new None db) (with_daemon Serving db')"
proof -
  have "daemon_step 1 (with_daemon Locked db) (with_daemon Opened db')"
    using daemon_step.opens[of "with_daemon Locked db" 1 db'] assms by (simp add: with_daemon_def goes_def has_daemon_lock_def)
  moreover have "daemon_step 1 (with_daemon Opened db') (with_daemon Unlinked db')"
    using daemon_step.unlinks[of "with_daemon Opened db'" 1] by (simp add: with_daemon_def goes_def remove_socket_def has_daemon_lock_def)
  moreover have "daemon_step 1 (with_daemon Unlinked db') (with_daemon Serving db')"
    using daemon_step.binds[of "with_daemon Unlinked db'" 1] by (simp add: with_daemon_def goes_def has_daemon_lock_def)
  ultimately show ?thesis using boots_locked[of db] by (meson machine_step.daemon rtranclp.rtrancl_into_rtrancl)
qed

text \<open>A client that looks whether the daemon it retired is gone holds the lock for that moment: a daemon that
  another client has just started is turned away, and no daemon is up.\<close>

lemma peek_turns_daemon_away:
  "\<exists>m m'. machine_step\<^sup>*\<^sup>* (machine_new None db) m \<and> (\<forall>p. \<not> is_up (mc_phase m p)) \<and> mc_phase m 1 = Started
     \<and> daemon_step 1 m m' \<and> mc_phase m' 1 = Gone"
proof -
  let ?m0 = "with_daemon Started db"
  let ?m1 = "goes 2 Retiring ?m0"
  let ?m2 = "(goes 2 Peeking ?m1)\<lparr>mc_daemon_lock := Some 2\<rparr>"
  have "client_step 2 ?m0 ?m1" by (rule client_step.arrives) (simp_all add: with_daemon_def)
  moreover have "client_step 2 ?m1 ?m2" by (rule client_step.peeks) (simp_all add: with_daemon_def has_daemon_lock_def)
  ultimately have "machine_step\<^sup>*\<^sup>* (machine_new None db) ?m2"
    using boots by (meson machine_step.client rtranclp.rtrancl_into_rtrancl)
  moreover have "daemon_step 1 ?m2 (ends 1 ?m2)" by (rule daemon_step.turned_away) (simp_all add: with_daemon_def)
  moreover have "\<not> is_up (mc_phase ?m2 p)" for p by (simp add: with_daemon_def is_up_def)
  moreover have "mc_phase ?m2 1 = Started" "mc_phase (ends 1 ?m2) 1 = Gone" by (simp_all add: with_daemon_def)
  ultimately show ?thesis by blast
qed

text \<open>C3. However many clients find no daemon, retire one or start one, and whoever dies when: at most one
  daemon is up. While it serves, the socket is its own and a client that connects reaches it; a client
  that removes a stale socket does so while no daemon is up; and a daemon that binds finds no socket in
  its way.\<close>

theorem single_daemon:
  assumes "machine_step\<^sup>*\<^sup>* (machine_new socket db) m"
  shows "(\<forall>p q. is_up (mc_phase m p) \<and> is_up (mc_phase m q) \<longrightarrow> p = q)
    \<and> (\<forall>p. mc_phase m p = Serving \<longrightarrow> mc_socket m = Some p \<and> answers m)
    \<and> (\<forall>p q. mc_phase m p \<in> {Sweeping, Swept} \<longrightarrow> \<not> is_up (mc_phase m q))
    \<and> (\<forall>p. mc_phase m p = Unlinked \<longrightarrow> mc_socket m = None)"
proof -
  have ok: "machine_ok m" using machine_run_ok[OF assms machine_new_ok] .
  then have one: "has_daemon_lock (mc_phase m p) \<Longrightarrow> has_daemon_lock (mc_phase m q) \<Longrightarrow> p = q" for p q
    unfolding machine_ok_def by (metis option.inject)
  have "\<not> is_up (mc_phase m q)" if "mc_phase m p \<in> {Sweeping, Swept}" for p q
    using one[of p q] up_locked[of "mc_phase m q"] that by (auto simp: has_daemon_lock_def is_up_def)
  moreover have "mc_phase m p = Serving \<Longrightarrow> mc_socket m = Some p \<and> answers m" for p
    using ok by (auto simp: machine_ok_def answers_def)
  ultimately show ?thesis using one up_locked ok unfolding machine_ok_def by blast
qed

lemma empty_opens:
  obtains db where "init_store empty_db = (db, None)"
proof -
  have "at_version 0 empty_db" by code_simp
  from init_from[OF this] that show ?thesis by metis
qed

theorem single_daemon_witness:
  "\<exists>m. machine_step\<^sup>*\<^sup>* (machine_new None empty_db) m \<and> mc_phase m 1 = Serving \<and> mc_socket m = Some 1 \<and> answers m"
proof -
  obtain db where "init_store empty_db = (db, None)" by (rule empty_opens)
  from boots_serving[OF this] have r: "machine_step\<^sup>*\<^sup>* (machine_new None empty_db) (with_daemon Serving db)" .
  moreover have "mc_phase (with_daemon Serving db) 1 = Serving" by (simp add: with_daemon_def)
  ultimately show ?thesis using single_daemon[OF r] by blast
qed

section \<open>A store that does not open\<close>

definition shut_out :: "machine \<Rightarrow> bool" where
  "shut_out m \<longleftrightarrow> behind (mc_db m) \<and> (\<forall>p. mc_phase m p \<notin> {Opened, Unlinked, Serving, Leaving, Cleaned})"

lemma behind_died: "behind d \<Longrightarrow> behind (died_after j d)"
  unfolding behind_def died_after_def by (metis migrate_keeps_column user_version_migrate)

lemma shut_out_step: "machine_step m m' \<Longrightarrow> shut_out m \<Longrightarrow> shut_out m'"
proof (induction rule: machine_step.induct)
  case (client p m m')
  then show ?case by (induction rule: client_step.induct) (auto simp: shut_out_def)
next
  case (daemon p m m')
  then show ?case
  proof (induction rule: daemon_step.induct)
    case (opens m db)
    with behind_fails[of "mc_db m"] show ?case by (simp add: shut_out_def)
  next
    case (fails_to_open m db e)
    with behind_stays[of "mc_db m"] show ?case by (auto simp: shut_out_def)
  qed (auto simp: shut_out_def)
qed (auto simp: shut_out_def behind_died)

lemma shut_out_run: "machine_step\<^sup>*\<^sup>* m m' \<Longrightarrow> shut_out m \<Longrightarrow> shut_out m'"
  by (induction rule: rtranclp_induct) (simp_all add: shut_out_step)

text \<open>C25. When a daemon dies while it upgrades the database, after a migration that adds a column and
  before the version is written, then no daemon ever serves again and no client ever connects, whatever
  is started, retried or killed.\<close>

theorem no_daemon_after_interruption:
  assumes "machine_step\<^sup>*\<^sup>* (machine_new socket db) m" "mc_phase m p = Locked"
    and "snd (migrate (user_version (mc_db m)) (take j migrations) (mc_db m)) = None"
    and "(n, b) \<in> set (take j migrations)" "user_version (mc_db m) < n" "AddColumn t k \<in> set b"
    and "machine_step\<^sup>*\<^sup>* ((ends p m)\<lparr>mc_db := died_after j (mc_db m)\<rparr>) m'"
  shows "\<not> answers m' \<and> (\<forall>q. mc_phase m' q \<noteq> Serving)"
proof -
  have ok: "machine_ok m" using machine_run_ok[OF assms(1) machine_new_ok] .
  have "mc_phase m q \<notin> {Opened, Unlinked, Serving, Leaving, Cleaned}" for q
    using ok assms(2) unfolding machine_ok_def
    by (metis empty_iff has_daemon_lock_def insert_iff option.inject phase.distinct)
  moreover have "behind (died_after j (mc_db m))" by (rule upgrade_cut_behind[OF assms(3-6)])
  ultimately have "shut_out ((ends p m)\<lparr>mc_db := died_after j (mc_db m)\<rparr>)" by (simp add: shut_out_def)
  from shut_out_run[OF assms(7) this] show ?thesis by (auto simp: shut_out_def answers_def split: option.splits)
qed

theorem no_daemon_after_interruption_witness:
  "\<not> answers ((ends 1 (with_daemon Locked empty_db))\<lparr>mc_db := died_after 2 empty_db\<rparr>)"
proof -
  let ?m = "with_daemon Locked empty_db"
  have m: "mc_phase ?m 1 = Locked" "mc_db ?m = empty_db" by (simp_all add: with_daemon_def)
  have "snd (migrate (user_version empty_db) (take 2 migrations) empty_db) = None" by code_simp
  moreover have "(2, migration_2) \<in> set (take 2 migrations)" by (simp add: migrations_def)
  moreover have "user_version empty_db < 2" by (simp add: empty_db_def)
  moreover have "AddColumn ''sessions'' (text_col ''enable_tags'') \<in> set migration_2" by (simp add: migration_2_def)
  ultimately show ?thesis
    using no_daemon_after_interruption[OF boots_locked[of empty_db] m(1), unfolded m(2), OF _ _ _ _ rtranclp.rtrancl_refl] by blast
qed

end
