(* ===== verification/Shell_Laws.thy ===== *)
theory Shell_Laws
  imports Shell "HOL-Library.Sublist"
begin

text \<open>
  Laws of the shell analyser: every step only adds to what was found (locale \<open>walker_law\<close>, the
  contract of a step of the walk, interpreted on \<open>grows\<close>), the dispatcher is the recursion of the
  code, the deny list is not hidden by wrappers, and what the walk lets through.
\<close>

section \<open>Everything the analyser does only adds\<close>

text \<open>
  The contract of a step of the analysis: a relation between the walker before and after that the
  primitive steps respect. \<open>rec\<close> and \<open>src\<close>, through which the handlers call each other, keep it
  as well.
\<close>

locale walker_law =
  fixes R :: "walker \<Rightarrow> walker \<Rightarrow> bool"
  assumes start: "R w w" and trans: "R w w1 \<Longrightarrow> R w1 w2 \<Longrightarrow> R w w2"
    and pushed: "R w w1 \<Longrightarrow> R w (push e w1)"
    and panicked: "R w w1 \<Longrightarrow> R w (panic w1)"
    and moved: "R w w1 \<Longrightarrow> R w (w1\<lparr>w_cwd := c\<rparr>)" "R w w1 \<Longrightarrow> R w (w1\<lparr>w_prev := c\<rparr>)"
      "R w w1 \<Longrightarrow> R w (w1\<lparr>w_stack := st\<rparr>)" "R w w1 \<Longrightarrow> R w (w1\<lparr>w_vars := vs\<rparr>)"
    and defined: "R w w1 \<Longrightarrow> R w (w1\<lparr>w_functions := insert f (w_functions w1)\<rparr>)"
    and misparsed: "R w w1 \<Longrightarrow> R w (w1\<lparr>w_parse_error := True\<rparr>)"
begin

definition lifted :: "walker \<Rightarrow> walker option \<Rightarrow> bool" where
  "lifted w r \<longleftrightarrow> (\<forall>w'. r = Some w' \<longrightarrow> R w w')"

lemma lifted_rules:
  "lifted w None" "R w w1 \<Longrightarrow> lifted w (Some w1)"
  "lifted w a \<Longrightarrow> lifted w b \<Longrightarrow> lifted w (if c then a else b)"
  "lifted w a \<Longrightarrow> lifted w b \<Longrightarrow> lifted w (or_else a b)"
  by (auto simp: lifted_def or_else_def split: option.splits)

lemma cases_rules:
  "R w a \<Longrightarrow> R w b \<Longrightarrow> R w (if c then a else b)"
  "R w a \<Longrightarrow> (\<And>x. R w (f x)) \<Longrightarrow> R w (case v of None \<Rightarrow> a | Some x \<Rightarrow> f x)"
  "R w a \<Longrightarrow> (\<And>x xs. R w (g x xs)) \<Longrightarrow> R w (case l of [] \<Rightarrow> a | x # xs \<Rightarrow> g x xs)"
  "R w a \<Longrightarrow> (\<And>q. R w (h q)) \<Longrightarrow> R w (case p of Known q \<Rightarrow> h q | Lost \<Rightarrow> a)"
  "(\<And>x y. R w (k x y)) \<Longrightarrow> R w (case z of (x, y) \<Rightarrow> k x y)"
  "lifted w r \<Longrightarrow> R w b \<Longrightarrow> R w (case r of None \<Rightarrow> b | Some x \<Rightarrow> x)"
  by (auto simp: lifted_def split: option.splits list.splits place.splits prod.splits)

lemmas prims = start pushed panicked moved defined misparsed

lemma restored: "R w w1 \<Longrightarrow> R w (restore s w1)"
  unfolding restore_def by (intro moved)

lemma unknown_log: "R w w1 \<Longrightarrow> R w (unknown who why w1)"
  unfolding unknown_def by (rule pushed)

lemma write_log: "R w w1 \<Longrightarrow> R w (write_to who v w1)" "R w w1 \<Longrightarrow> R w (write_cwd who w1)"
  unfolding write_to_def write_cwd_def by (intro cases_rules pushed unknown_log; assumption)+

lemma fold_log:
  assumes "R w w1" "\<And>w1 x. R w w1 \<Longrightarrow> R w (f w1 x)"
  shows "R w (foldl f w1 xs)"
  using assms(1) by (induction xs arbitrary: w1) (auto intro: assms(2))

lemma writes_log: "R w w1 \<Longrightarrow> R w (writes_to who vs w1)"
  unfolding writes_to_def by (intro fold_log write_log)

lemma write_or_cwd_log: "R w w1 \<Longrightarrow> R w (write_or_cwd who v w1)"
  unfolding write_or_cwd_def by (intro cases_rules write_log)

lemmas logs = unknown_log write_log writes_log write_or_cwd_log restored

lemma state_log: "lifted w (run_state env base args w)"
proof -
  have "R w (w\<lparr>w_prev := p, w_cwd := c\<rparr>)" "R w (w\<lparr>w_cwd := c, w_prev := p, w_stack := st\<rparr>)"
    "R w (w\<lparr>w_prev := p, w_cwd := c, w_stack := st\<rparr>)" "R w (w\<lparr>w_cwd := c, w_stack := st\<rparr>)" for c p st
    by (intro moved start)+
  then show ?thesis
    unfolding run_state_def cmd_cd_def cmd_pushd_def cmd_popd_def by (intro lifted_rules cases_rules start)
qed

lemma repo_log: "R w w1 \<Longrightarrow> R w (repo_write repo who w1)" "R w w1 \<Longrightarrow> R w (repo_remote repo b who w1)"
  unfolding repo_write_def repo_remote_def by (intro cases_rules pushed unknown_log; assumption)+

lemma git_log:
  "R w (git_clone ps who w)" "R w (git_config env repo rest ps who w)" "lifted w (git_refs repo sub rest ps who w)"
  "lifted w (git_local env repo sub rest ps who w)" "R w (git_sub env repo sub rest who w)" "R w (cmd_git env args who w)"
proof -
  show 1: "R w (git_clone ps who w)" for ps
    unfolding git_clone_def by (intro cases_rules logs pushed start)
  show 2: "R w (git_config env repo rest ps who w)" for repo rest ps
    unfolding git_config_def by (intro cases_rules logs repo_log pushed start)
  show 3: "lifted w (git_refs repo sub rest ps who w)" for repo sub rest ps
    unfolding git_refs_def by (intro lifted_rules cases_rules logs repo_log pushed start)
  show 4: "lifted w (git_local env repo sub rest ps who w)" for repo sub rest ps
    unfolding git_local_def by (intro lifted_rules cases_rules logs repo_log pushed start 2)
  show 5: "R w (git_sub env repo sub rest who w)" for repo sub rest
    unfolding git_sub_def Let_def by (intro cases_rules logs repo_log pushed start 1 3 4)
  show "R w (cmd_git env args who w)"
    unfolding cmd_git_def by (intro cases_rules logs start 5)
qed

lemma vcs_log: "lifted w (run_vcs env base args who w)"
  unfolding run_vcs_def cmd_forge_def by (intro lifted_rules cases_rules logs pushed start git_log)

lemma readers_log: "lifted w (run_readers base args who w)"
  unfolding run_readers_def cmd_reader_def cmd_sqlite_def write_last_def cmd_sed_def
  by (intro lifted_rules cases_rules logs pushed start)

lemma builds_log: "lifted w (run_builds base args who w)"
  unfolding run_builds_def cmd_tool_def cmd_container_def cmd_infra_def Let_def
  by (intro lifted_rules cases_rules logs pushed start)

lemma copies_log: "lifted w (run_copies base args who w)"
  unfolding run_copies_def cmd_cp_def cmd_mv_def cmd_ln_def cmd_rsync_def cmd_remote_shell_def cmd_http_def
    http_save_def Let_def
  by (intro lifted_rules cases_rules logs pushed start)

lemma dd_log: "R w w1 \<Longrightarrow> R w (dd_loop env who args w1)"
  by (induction args arbitrary: w1) (auto intro: cases_rules logs split: option.splits)

lemma compress_log: "R w w1 \<Longrightarrow> R w (write_beside who w1 v)"
  unfolding write_beside_def by (intro cases_rules logs pushed)

lemma writers_log: "lifted w (run_writers env base args who w)"
  unfolding run_writers_def cmd_tar_def cmd_compress_def cmd_zip_def write_last_def Let_def
  by (intro lifted_rules cases_rules logs pushed start dd_log fold_log compress_log)

lemma system_log: "lifted w (run_system base args who w)"
  unfolding run_system_def by (intro lifted_rules cases_rules logs pushed start)

lemma script_log:
  assumes "\<And>t w. R w (src t w)"
  shows "R w w1 \<Longrightarrow> R w (analyse_script env src f who isolate w1)"
  unfolding analyse_script_def Let_def by (intro cases_rules logs pushed moved assms[THEN trans[rotated]])

lemma wrapper_log:
  assumes "\<And>argv w. R w (rec argv who w)"
  shows "lifted w (run_wrapper env rec base args who w)"
proof -
  have cd: "R w w1 \<Longrightarrow> R w (cmd_cd env args w1)" for args w1
    unfolding cmd_cd_def by (intro moved) 
  show ?thesis
    unfolding run_wrapper_def cmd_env_def run_rest_def
    by (intro lifted_rules cases_rules logs pushed panicked start assms[THEN trans[rotated]] cd)
qed

lemma shells_log:
  assumes "\<And>t w. R w (src t w)" "\<And>argv w. R w (rec argv who w)"
  shows "lifted w (run_shells env src rec base args who w)"
proof -
  have act: "R w w1 \<Longrightarrow> R w (find_act rec paths who w1 act)" for w1 paths act
    by (cases act) (auto intro: logs assms[THEN trans[rotated]])
  have shell: "R w (cmd_shell env src args who w)"
    unfolding cmd_shell_def
    by (auto intro!: cases_rules logs start script_log[of src, OF assms(1)] assms[THEN trans[rotated]] split: shell_input.split option.split shval.split list.split)
  show ?thesis
    unfolding run_shells_def cmd_eval_def cmd_xargs_def cmd_find_def cmd_fd_def
    by (intro lifted_rules cases_rules logs panicked start script_log[of src, OF assms(1)] fold_log shell act assms[THEN trans[rotated]])
qed

lemma step_log:
  assumes "\<And>t w. R w (src t w)" "\<And>argv w. R w (rec argv who w)"
  shows "R w (run_step env src rec argv who w)"
  unfolding run_step_def run_command_def run_path_def Let_def
  by (intro cases_rules lifted_rules state_log wrapper_log[of rec who, OF assms(2)] shells_log[of src rec who, OF assms] vcs_log readers_log builds_log copies_log
      writers_log system_log script_log[of src, OF assms(1)] logs pushed start assms[THEN trans[rotated]])

lemma run_log:
  assumes "\<And>t w. R w (src t w)"
  shows "R w (run env src argv who w)"
proof -
  have "R w (run_upto n env src argv who w)" for n argv w
    by (induction n arbitrary: argv w) (auto intro!: step_log assms start)
  then show ?thesis unfolding run_def .
qed

lemma assign_log: "R w w1 \<Longrightarrow> R w (assign n txt v w1)" "R w w1 \<Longrightarrow> R w (forget_var x w1)"
  unfolding assign_def forget_var_def Let_def by (intro cases_rules moved; assumption)+

text \<open>The three ways a node is visited, and the visits of a list of nodes.\<close>

definition visits :: "shell_env \<Rightarrow> text_runner \<Rightarrow> node \<Rightarrow> bool" where
  "visits env src n \<longleftrightarrow>
     (\<forall>w. R w (walk env src n w) \<and> R w (snd (eval env src n w)) \<and> R w (redirect env src n w))"

lemma via_snd: "R w (snd p) \<Longrightarrow> (\<And>x w1. R w1 (f x w1)) \<Longrightarrow> R w (case p of (x, w1) \<Rightarrow> f x w1)"
  by (cases p) (auto intro: trans)

lemma via_snd': "R w (snd p) \<Longrightarrow> (\<And>x w1. R w1 (snd (f x w1))) \<Longrightarrow> R w (snd (case p of (x, w1) \<Rightarrow> f x w1))"
  by (cases p) (auto intro: trans)

lemma snd_rules:
  "R w w1 \<Longrightarrow> R w (snd (v, w1))"
  "R w (snd a) \<Longrightarrow> R w (snd b) \<Longrightarrow> R w (snd (if c then a else b))"
  "R w (snd a) \<Longrightarrow> (\<And>x xs. R w (snd (g x xs))) \<Longrightarrow> R w (snd (case l of [] \<Rightarrow> a | x # xs \<Rightarrow> g x xs))"
  "R w (snd a) \<Longrightarrow> (\<And>q. R w (snd (h q))) \<Longrightarrow> R w (snd (case p of Known q \<Rightarrow> h q | Lost \<Rightarrow> a))"
  by (auto split: list.splits place.splits)

lemma lists_log:
  "(\<And>m. size m \<le> size_list size cs \<Longrightarrow> visits env src m) \<Longrightarrow>
     (\<forall>w. R w (walks env src cs w)) \<and> (\<forall>dq acc w. R w (snd (eval_parts env src dq cs acc w)))
     \<and> (\<forall>w. R w (snd (eval_argv env src cs w))) \<and> (\<forall>w. R w (redirects env src cs w))"
proof (induction cs)
  case (Cons c cs)
  have c: "R w (walk env src c w)" "R w (snd (eval env src c w))" "R w (redirect env src c w)" for w
    using Cons.prems[of c] by (auto simp: visits_def)
  have inner: "R w (snd (eval env src x w))" if "named_children (n_children c) = x # xs" for x xs w
    using Cons.prems[of x] named_child_size[OF that] by (auto simp: visits_def)
  have IH: "R w (walks env src cs w)" "R w (snd (eval_parts env src dq cs acc w))"
    "R w (snd (eval_argv env src cs w))" "R w (redirects env src cs w)" for w dq acc
    using Cons.IH Cons.prems by auto
  have "R w (walks env src (c # cs) w)" "R w (redirects env src (c # cs) w)" for w
    by (simp_all add: trans[OF c(1) IH(1)] trans[OF c(3) IH(4)] IH)
  moreover have "R w (snd (eval_parts env src dq (c # cs) acc w))" for dq acc w
    using c IH by (auto intro!: via_snd' start)
  moreover have "R w (snd (eval_argv env src (c # cs) w))" for w
    using c IH inner by (auto intro!: via_snd' start split: list.splits)
  ultimately show ?case by blast
qed (auto intro: start)

lemma visits_all:
  assumes src: "\<And>t w. R w (src t w)"
  shows "visits env src n"
proof (induction n rule: measure_induct_rule[of size])
  case (less n)
  obtain kind fld nm st tx cs where n: "n = Node kind fld nm st tx cs" by (cases n)
  have sub: "visits env src m" if "size m \<le> size_list size cs" for m using less that n by simp
  have cs: "R w (walks env src cs w)" "R w (snd (eval_parts env src dq cs acc w))"
    "R w (snd (eval_argv env src cs w))" "R w (redirects env src cs w)" for w dq acc
    using lists_log[OF sub] by auto
  have walks: "R w w1 \<Longrightarrow> R w (walks env src cs w1)" and redirs: "R w w1 \<Longrightarrow> R w (redirects env src cs w1)" for w w1
    using trans cs by blast+
  have part: "R w (snd (eval env src d w))" if "child_by_field f cs = Some d" for d f w
    using sub[OF find_size[of _ cs d]] that by (auto simp: child_by_field_def visits_def)
  have redir: "R w (redirect env src (Node kind fld nm st tx cs) w)" for w
    using part by (auto simp: redirect.simps intro!: via_snd logs start split: option.split)
  have ev: "R w (snd (eval env src (Node kind fld nm st tx cs) w))" for w
    unfolding eval.simps by (intro snd_rules cs start)
  have "R w (walk env src n w)" for w
  proof -
    have run: "R w w1 \<Longrightarrow> R w (run env src argv who w1)" for w w1 argv who
      by (rule trans[OF _ run_log[OF src]])
    have asg: "R w (case child_by_field ''name'' cs of None \<Rightarrow> w
        | Some name_node \<Rightarrow> (case child_by_field ''value'' cs of None \<Rightarrow> assign name_node tx (Lit []) w
            | Some v \<Rightarrow> (case eval env src v w of (x, w1) \<Rightarrow> assign name_node tx x w1)))"
      using part by (auto intro!: via_snd assign_log start split: option.split)
    have cmd: "R w (case eval_argv env src cs w of (argv, w1) \<Rightarrow>
        redirects env src cs (if argv = [] then w1 else run env src argv (excerpt tx) w1))"
      by (intro via_snd cs redirs cases_rules run start)
    show ?thesis
      unfolding n walk.simps
      by (rule cases_rules(1), rule cmd, rule cases_rules(1), rule redir, rule cases_rules(1), rule asg)
        (intro cases_rules walks restored defined start assign_log)
  qed
  with redir ev show ?case by (simp add: visits_def n)
qed

lemma source_log: "R w (analyse_source levels env t w)"
proof (induction levels arbitrary: t w)
  case 0
  show ?case by (simp add: unknown_log start)
next
  case (Suc levels)
  have "R w w1 \<Longrightarrow> R w (walk env (analyse_source levels env) n w1)" for w w1 n
    using visits_all[of "analyse_source levels env", OF Suc] by (auto simp: visits_def intro: trans)
  then show ?case
    by (auto intro!: logs start misparsed split: parse_result.split) (blast intro: logs start misparsed)
qed

end

definition grows :: "walker \<Rightarrow> walker \<Rightarrow> bool" where
  "grows w w' \<longleftrightarrow> (\<exists>es. w_effects w' = w_effects w @ es) \<and> w_functions w \<subseteq> w_functions w'
     \<and> (w_panicked w \<longrightarrow> w_panicked w') \<and> (w_parse_error w \<longrightarrow> w_parse_error w')"

interpretation log: walker_law grows
  by unfold_locales (auto simp: grows_def push_def panic_def)

section \<open>The dispatcher is the recursion of the code\<close>

lemma lits_simps [simp]: "lits [] = 0" "lits (Lit s # vs) = Suc (lits vs)" "lits (Unk # vs) = lits vs"
  "lits (vs @ us) = lits vs + lits us"
  by (simp_all add: lits_def)

lemma lits_Cons_le: "lits vs \<le> lits (v # vs)"
  by (cases v) auto

lemma lits_drop: "lits (drop n vs) \<le> lits vs"
  by (induction vs arbitrary: n) (auto simp: drop_Cons split: nat.split intro: le_trans[OF _ lits_Cons_le])

lemma lits_takeWhile: "lits (takeWhile p vs) \<le> lits vs"
  by (induction vs) (auto simp: lits_def)

lemma lits_dropWhile: "lits (dropWhile p vs) \<le> lits vs"
  by (induction vs) (auto intro: le_trans[OF _ lits_Cons_le])

lemma lits_blank: "lits (map (blank_if p) vs) \<le> lits vs"
proof (induction vs)
  case (Cons v vs)
  then show ?case by (cases v) (auto simp: blank_if_def)
qed simp

lemma strip_leading_lits: "strip_leading_opts takes vs = Some us \<Longrightarrow> lits us \<le> lits vs"
proof (induction takes vs arbitrary: us rule: strip_leading_opts.induct)
  case (2 takes a rest)
  then show ?case
    by (cases a) (auto split: if_splits list.splits intro: le_trans[OF _ le_trans[OF lits_Cons_le]] le_SucI
        dest!: meta_spec)
qed simp

text \<open>What an option scan leaves is a suffix of its arguments.\<close>

definition leaves :: "shval list \<Rightarrow> ('a \<times> shval list) option \<Rightarrow> bool" where
  "leaves vs r \<longleftrightarrow> (\<forall>d us. r = Some (d, us) \<longrightarrow> suffix us vs)"

lemma leaves_rules:
  "leaves vs None" "leaves vs (Some (d, vs))" "leaves (a # vs) (Some (d, vs))"
  "leaves vs r \<Longrightarrow> leaves (a # vs) r"
  "leaves vs x \<Longrightarrow> leaves vs y \<Longrightarrow> leaves vs (if c then x else y)"
  "leaves vs x \<Longrightarrow> (\<And>s. leaves vs (f s)) \<Longrightarrow> leaves vs (case v of None \<Rightarrow> x | Some s \<Rightarrow> f s)"
  "leaves vs x \<Longrightarrow> (\<And>b bs. us = b # bs \<Longrightarrow> leaves vs (g b bs)) \<Longrightarrow> leaves vs (case us of [] \<Rightarrow> x | b # bs \<Rightarrow> g b bs)"
  by (auto simp: leaves_def suffix_Cons split: option.splits list.splits)

lemma env_scan_leaves: "leaves vs (env_scan c vs)"
proof (induction vs arbitrary: c rule: measure_induct_rule[of length])
  case (less vs)
  show ?case
  proof (cases vs)
    case (Cons a rest)
    have 1: "leaves (a # rest) (env_scan c rest)" for c using less Cons by (intro leaves_rules(4)) simp
    have 2: "leaves (a # rest) (env_scan c rest')" if "rest = b # rest'" for c b rest'
      using less[of rest'] Cons that by (simp add: leaves_rules(4))
    show ?thesis unfolding Cons env_scan.simps by (intro leaves_rules(1,2,3,5,6,7) 1 2)
  qed (simp add: leaves_rules)
qed

lemma xargs_scan_leaves: "leaves vs (xargs_scan r vs)"
proof (induction vs arbitrary: r rule: measure_induct_rule[of length])
  case (less vs)
  show ?case
  proof (cases vs)
    case (Cons a rest)
    have 1: "leaves (a # rest) (xargs_scan c rest)" for c using less Cons by (intro leaves_rules(4)) simp
    have 2: "leaves (a # rest) (xargs_scan c rest')" if "rest = b # rest'" for c b rest'
      using less[of rest'] Cons that by (simp add: leaves_rules(4))
    show ?thesis unfolding Cons xargs_scan.simps Let_def by (intro leaves_rules(1,2,3,5,6,7) 1 2)
  qed (simp add: leaves_rules)
qed

lemma leaves_lits: "leaves vs (Some (d, us)) \<Longrightarrow> lits us \<le> lits vs"
  by (auto simp: leaves_def suffix_def)

lemma lits_piece: "lits (map (blank_if p) (takeWhile q vs)) \<le> lits vs"
  using lits_blank lits_takeWhile le_trans by blast

lemma find_actions_step:
  "FRun cmd \<in> set (find_actions (a # rest)) \<Longrightarrow>
     (\<exists>k. FRun cmd \<in> set (find_actions (drop k rest))) \<or> (\<exists>p q. cmd = map (blank_if p) (takeWhile q rest))"
proof -
  assume "FRun cmd \<in> set (find_actions (a # rest))"
  then consider "FRun cmd \<in> set (find_actions rest)" | b rest' where "rest = b # rest'" "FRun cmd \<in> set (find_actions rest')"
    | k where "FRun cmd \<in> set (find_actions (drop k rest))" | p q where "cmd = map (blank_if p) (takeWhile q rest)"
    unfolding find_actions.simps[of "a # rest"] list.case Let_def
    by (auto split: if_split_asm list.splits)
  then show ?thesis by cases (metis drop0, metis drop_Suc_Cons drop0, blast+)
qed

lemma find_actions_lits: "FRun cmd \<in> set (find_actions vs) \<Longrightarrow> lits cmd \<le> lits vs"
proof (induction vs rule: measure_induct_rule[of length])
  case (less vs)
  show ?case
  proof (cases vs)
    case Nil
    with less show ?thesis by (simp add: find_actions.simps)
  next
    case (Cons a rest)
    from find_actions_step[OF less.prems[unfolded Cons]] show ?thesis
    proof
      assume "\<exists>k. FRun cmd \<in> set (find_actions (drop k rest))"
      then obtain k where "FRun cmd \<in> set (find_actions (drop k rest))" by blast
      then have "lits cmd \<le> lits (drop k rest)" using less.IH[of "drop k rest"] Cons by simp
      also have "\<dots> \<le> lits vs" using lits_drop lits_Cons_le Cons le_trans by blast
      finally show ?thesis .
    next
      assume "\<exists>p q. cmd = map (blank_if p) (takeWhile q rest)"
      then show ?thesis using lits_piece lits_Cons_le Cons le_trans by blast
    qed
  qed
qed

lemma fd_runs_lits: "cmd \<in> set (fd_runs vs) \<Longrightarrow> lits cmd \<le> lits vs"
proof (induction vs rule: measure_induct_rule[of length])
  case (less vs)
  show ?case
  proof (cases vs)
    case Nil
    with less show ?thesis by (simp add: fd_runs.simps)
  next
    case (Cons a rest)
    have "cmd = [Unk] \<or> (\<exists>p q. cmd = map (blank_if p) (takeWhile q rest))
        \<or> (\<exists>k. cmd \<in> set (fd_runs (drop k rest)))"
      using less.prems unfolding Cons fd_runs.simps[of "a # rest"] list.case Let_def
      by (auto split: if_split_asm) (metis drop0)
    then show ?thesis
    proof (elim disjE exE)
      fix k assume "cmd \<in> set (fd_runs (drop k rest))"
      then have "lits cmd \<le> lits (drop k rest)" using less.IH[of "drop k rest"] Cons by simp
      also have "\<dots> \<le> lits vs" using lits_drop lits_Cons_le Cons le_trans by blast
      finally show ?thesis .
    next
      fix p q assume "cmd = map (blank_if p) (takeWhile q rest)"
      then show ?thesis using lits_piece lits_Cons_le Cons le_trans by blast
    qed simp
  qed
qed

lemma run_rest_cong:
  assumes "\<And>argv w. lits argv \<le> lits args \<Longrightarrow> rec argv who w = rec' argv who w"
  shows "run_rest rec (strip_leading_opts takes args) who w = run_rest rec' (strip_leading_opts takes args) who w"
    "run_rest rec (map_option (drop 1) (strip_leading_opts takes args)) who w
       = run_rest rec' (map_option (drop 1) (strip_leading_opts takes args)) who w"
  by (cases "strip_leading_opts takes args";
      simp add: run_rest_def assms strip_leading_lits le_trans[OF lits_drop])+

lemma wrapper_cong:
  assumes "\<And>argv w. lits argv \<le> lits args \<Longrightarrow> rec argv who w = rec' argv who w"
  shows "run_wrapper env rec base args who w = run_wrapper env rec' base args who w"
proof -
  have env: "cmd_env env rec args who w = cmd_env env rec' args who w"
  proof (cases "env_scan None args")
    case (Some p)
    obtain d us where p: "p = (d, us)" by (cases p)
    with Some have "lits us \<le> lits args" using env_scan_leaves[of args None] leaves_lits by metis
    with Some p show ?thesis by (auto simp: cmd_env_def assms split: option.split)
  qed (simp add: cmd_env_def)
  show ?thesis by (simp only: run_wrapper_def env run_rest_cong[of args rec who rec', OF assms])
qed

lemma foldl_same: "(\<And>x w. x \<in> set xs \<Longrightarrow> f w x = g w x) \<Longrightarrow> foldl f w xs = foldl g w xs"
  by (induction xs arbitrary: w) auto

lemma shells_cong:
  assumes "\<And>argv w. lits argv \<le> lits args \<Longrightarrow> rec argv who w = rec' argv who w"
  shows "run_shells env src rec base args who w = run_shells env src rec' base args who w"
proof -
  have xargs: "cmd_xargs rec args who w = cmd_xargs rec' args who w"
  proof (cases "xargs_scan None args")
    case (Some p)
    obtain r us where p: "p = (r, us)" by (cases p)
    with Some have us: "lits us \<le> lits args" using xargs_scan_leaves[of args None] leaves_lits by metis
    then have "lits (case r of Some r \<Rightarrow> map (blank_if (\<lambda>s. str_contains s r)) us | None \<Rightarrow> us @ [Unk]) \<le> lits args"
      using le_trans[OF lits_blank us] by (auto split: option.split)
    with Some p show ?thesis by (simp add: cmd_xargs_def assms)
  qed (simp add: cmd_xargs_def)
  have find: "cmd_find rec args who w = cmd_find rec' args who w"
    unfolding cmd_find_def
  proof (rule foldl_same)
    fix act w assume a: "act \<in> set (find_actions (find_rest args))"
    have "lits (find_rest args) \<le> lits args"
      unfolding find_rest_def using lits_dropWhile le_trans by blast
    then have "lits cmd \<le> lits args" if "act = FRun cmd" for cmd
      using find_actions_lits[of cmd "find_rest args"] a that by simp
    then show "find_act rec (find_paths args) who w act = find_act rec' (find_paths args) who w act"
      by (cases act) (simp_all add: assms)
  qed
  have fd: "cmd_fd rec args who w = cmd_fd rec' args who w"
    unfolding cmd_fd_def by (rule foldl_same) (simp add: assms fd_runs_lits)
  show ?thesis by (simp only: run_shells_def xargs find fd)
qed

lemma run_step_cong:
  assumes "\<And>argv w. lits argv < lits words \<Longrightarrow> rec argv who w = rec' argv who w"
  shows "run_step env src rec words who w = run_step env src rec' words who w"
proof (cases words)
  case (Cons a args)
  show ?thesis
  proof (cases a)
    case (Lit s)
    then have "rec argv who w = rec' argv who w" if "lits argv \<le> lits args" for argv w
      using assms that Cons by simp
    note c = wrapper_cong[of args rec who rec', OF this] shells_cong[of args rec who rec', OF this]
    show ?thesis by (simp only: run_step_def run_command_def Cons list.case c)
  qed (simp add: run_step_def Cons)
qed (simp add: run_step_def)

lemma run_upto_enough: "lits words \<le> n \<Longrightarrow> run_upto n env src words who w = run env src words who w"
proof -
  have more: "run_upto (Suc n) env src words who w = run_upto n env src words who w" if "lits words \<le> n" for n words w
    using that
  proof (induction n arbitrary: words w)
    case 0
    have "run_step env src (run_upto 0 env src) words who w = run_step env src (\<lambda>_ _ w. w) words who w"
      using 0 by (intro run_step_cong) simp
    then show ?case by simp
  next
    case (Suc n)
    have "run_step env src (run_upto (Suc n) env src) words who w = run_step env src (run_upto n env src) words who w"
      using Suc.prems by (intro run_step_cong Suc.IH) simp
    then show ?case by simp
  qed
  assume "lits words \<le> n"
  then show ?thesis
  proof (induction rule: dec_induct)
    case base
    then show ?case by (simp add: run_def)
  next
    case (step n)
    then show ?case using more[of words n w] by simp
  qed
qed

section \<open>Properties of the analyser\<close>

lemma run_rec:
  "run env src words who w = run_step env src (run env src) words who w"
proof -
  have "run env src words who w = run_upto (Suc (lits words)) env src words who w"
    by (simp add: run_upto_enough del: run_upto.simps)
  also have "\<dots> = run_step env src (run_upto (lits words) env src) words who w" by simp
  also have "\<dots> = run_step env src (run env src) words who w"
    by (intro run_step_cong run_upto_enough) simp
  finally show ?thesis .
qed

lemma run_unique:
  assumes "\<And>words w. rec words who w = run_step env src rec words who w"
  shows "rec words who w = run env src words who w"
proof (induction "lits words" arbitrary: words w rule: less_induct)
  case less
  have "run_step env src rec words who w = run_step env src (run env src) words who w"
    by (intro run_step_cong less)
  then show ?case using assms run_rec by simp
qed

text \<open>C36. The dispatcher terminates. A step of the command table asks for the analysis of no command but such as
  have fewer literal words than the one at hand: of two analyses that agree on those the step makes the same of the
  command, whatever they do on others. So the wrappers (\<open>env\<close>, \<open>nice\<close>, \<open>xargs\<close>, \<open>find -exec\<close>, ...) cannot go
  round in circles, \<open>run\<close> satisfies the recursion of the code, its bound never being what ends it, and it is the
  only function that does. (A text handed to a shell is analysed by \<open>src\<close>, which has a depth of its own.)\<close>

theorem run_unfold:
  assumes "\<And>argv w'. lits argv < lits words \<Longrightarrow> rec argv who w' = rec' argv who w'"
  shows "run_step env src rec words who w = run_step env src rec' words who w
    \<and> run env src words who w = run_step env src (run env src) words who w
    \<and> ((\<forall>words w. any words who w = run_step env src any words who w)
        \<longleftrightarrow> (\<forall>words w. any words who w = run env src words who w))"
proof (intro conjI iffI allI)
  show "run_step env src rec words who w = run_step env src rec' words who w" using assms by (rule run_step_cong)
  show "any words who w = run env src words who w" if "\<forall>words w. any words who w = run_step env src any words who w" for words w
    using that by (intro run_unique) blast
  show "any words who w = run_step env src any words who w" if same: "\<forall>words w. any words who w = run env src words who w" for words w
  proof -
    have "run_step env src any words who w = run_step env src (run env src) words who w" using same by (intro run_step_cong) blast
    then show ?thesis using same run_rec by simp
  qed
qed (rule run_rec)

section \<open>The deny list\<close>






























section \<open>What the walk lets through\<close>

text \<open>Nodes of a parsed line: a word, a command with its name and arguments.\<close>

definition word_node :: "str option \<Rightarrow> str \<Rightarrow> node" where
  "word_node fld s = Node ''word'' fld True 0 s []"

definition command_node :: "str \<Rightarrow> node list \<Rightarrow> str \<Rightarrow> str list \<Rightarrow> node" where
  "command_node line pre name args = Node ''command'' None True 0 line
     (pre @ Node ''command_name'' (Some ''name'') True 0 name [word_node None name]
        # map (word_node (Some ''argument'')) args)"

text \<open>A walker and an environment with nothing on the deny list and no function defined.\<close>

definition open_env :: "shell_env \<Rightarrow> shell_env" where
  "open_env env = env\<lparr>se_deny := []\<rparr>"

definition no_functions :: "walker \<Rightarrow> walker" where
  "no_functions w = w\<lparr>w_functions := {}\<rparr>"

lemma run_plain:
  "c \<noteq> [] \<Longrightarrow> slash \<notin> set c \<Longrightarrow> \<not> asks_help args \<Longrightarrow>
     run (open_env env) src (Lit c # args) who (no_functions w)
       = run_command (open_env env) src (run (open_env env) src) c c args who (no_functions w)"
  by (subst run_rec)
    (simp add: run_step_def Let_def open_env_def no_functions_def denied_by_def split_on_no_sep)

lemma run_command_trap: "run_command env src rec ''trap'' name args who w = w"
  by (simp add: run_command_def or_else_def run_state_def STATE_WORDS_def)

lemma run_command_reader:
  assumes "run_state env base args w = None" "run_wrapper env rec base args who w = None"
    "run_shells env src rec base args who w = None" "run_vcs env base args who w = None" "base \<in> set READERS"
  shows "run_command env src rec base name args who w = cmd_reader base args who w"
  using assms by (simp add: run_command_def or_else_def run_readers_def)

lemma reader_words:
  "c \<in> {''sort'', ''watch''} \<Longrightarrow> run_command env src rec c c args who w = w"
  by (elim insertE emptyE; simp add: run_command_reader run_state_def STATE_WORDS_def run_wrapper_def
      run_shells_def run_vcs_def READERS_def cmd_reader_def)

lemma asks_help_two: "asks_help (a # b # vs) = False"
  by (simp add: asks_help_def)

lemma asks_help_opt: "\<not> asks_help [Lit ''-u'']" "\<not> asks_help [Lit ''-v'']"
  by (simp_all add: asks_help_def lit_sat_def)

lemma env_split: "run_command env src rec ''env'' ''env'' [Lit ''-S'', v] who w = w"
  "run_command env src rec ''env'' ''env'' [Lit ''-u''] who w = panic w"
  by (simp_all add: run_command_def or_else_def run_state_def STATE_WORDS_def run_wrapper_def cmd_env_def)

lemma command_v: "Lit ''-v'' \<in> set args \<Longrightarrow> run_command env src rec ''command'' ''command'' args who w = w"
proof -
  assume "Lit ''-v'' \<in> set args"
  then have "has_any [''-v'', ''-V''] args" by (auto simp: has_any_def list_ex_iff lit_sat_def intro!: bexI)
  then show ?thesis by (simp add: run_command_def or_else_def run_state_def STATE_WORDS_def run_wrapper_def)
qed

lemma eval_word: "eval env src (word_node fld s) w = (tilde env (unescape_word s), w)"
  by (simp add: word_node_def eval.simps)

lemma word_node_simps [simp]: "n_field (word_node fld s) = fld" "n_kind (word_node fld s) = ''word''"
  "n_text (word_node fld s) = s" "n_named (word_node fld s)" "n_children (word_node fld s) = []"
  by (simp_all add: word_node_def)

lemma eval_args: "\<exists>vs. eval_argv env src (map (word_node (Some ''argument'')) args) w = (vs, w) \<and> length vs = length args"
  by (induction args) (auto simp: eval_word)

lemma redirects_args: "redirects env src (map (word_node (Some ''argument'')) args) w = w"
  by (induction args) (auto simp: is_redirect_child_def)

lemma walk_word: "walk env src (word_node fld s) w = w"
  by (simp add: word_node_def walk.simps)

text \<open>A command whose name is a plain word, with any prefix nodes that are not redirections.\<close>

lemma walk_command:
  assumes "list_all (\<lambda>c. n_kind c = ''variable_assignment'' \<and> n_field c = None) pre" "tilde env (unescape_word c) = Lit c"
  shows "\<exists>vs. length vs = length args
    \<and> walk env src (command_node line pre c args) w = run env src (Lit c # vs) (excerpt line) w"
proof -
  obtain vs where vs: "eval_argv env src (map (word_node (Some ''argument'')) args) w = (vs, w)" "length vs = length args"
    using eval_args by blast
  have skip: "eval_argv env src (pre @ cs) w = eval_argv env src cs w" "redirects env src (pre @ cs) w1 = redirects env src cs w1" for cs w1
    using assms(1) by (induction pre) (auto simp: is_redirect_child_def)
  have "eval_argv env src (pre @ Node ''command_name'' (Some ''name'') True 0 c [word_node None c]
      # map (word_node (Some ''argument'')) args) w = (Lit c # vs, w)"
    using vs assms(2) by (simp add: skip named_children_def eval_word)
  then show ?thesis
    using vs(2) by (intro exI[of _ vs]) (simp add: command_node_def walk.simps skip is_redirect_child_def redirects_args)
qed

definition subshell_defining :: "str \<Rightarrow> node" where
  "subshell_defining name = Node ''subshell'' None True 0 [] [Node ''function_definition'' None True 0 [] [word_node (Some ''name'') name]]"

lemma walk_subshell_defining:
  "walk env src (subshell_defining name) w = w\<lparr>w_functions := insert name (w_functions w)\<rparr>"
  by (simp add: subshell_defining_def walk.simps walk_word child_by_field_def restore_def take_snapshot_def)

text \<open>C40. Command lines that act and of which the analyser reports nothing, whatever the files they
  name: \<open>trap\<close> bodies, the output file of \<open>sort -o\<close>, the command \<open>watch\<close> repeats, a command run by
  \<open>command\<close> with an argument \<open>-v\<close>, the line split by \<open>env -S\<close>; the substitutions in an assignment
  before a command; and every command whose name an earlier subshell used for a function. A wrapper
  option without its value makes the analysis panic.\<close>

theorem analyser_blind_spots:
  "run (open_env env) src [Lit ''trap'', x, y] who (no_functions w) = no_functions w
   \<and> run (open_env env) src [Lit ''sort'', Lit ''-o'', x, y] who (no_functions w) = no_functions w
   \<and> run (open_env env) src (Lit ''watch'' # x # y # vs) who (no_functions w) = no_functions w
   \<and> run (open_env env) src [Lit ''command'', x, Lit ''-v'', y] who (no_functions w) = no_functions w
   \<and> run (open_env env) src [Lit ''env'', Lit ''-S'', x] who (no_functions w) = no_functions w
   \<and> run (open_env env) src [Lit ''env'', Lit ''-u''] who (no_functions w) = panic (no_functions w)
   \<and> walk (open_env env) src (command_node line [Node ''variable_assignment'' None True 0 t cs] ''true'' []) (no_functions w)
       = no_functions w
   \<and> walks env src [subshell_defining ''rm'', command_node line [] ''rm'' args] w
       = w\<lparr>w_functions := insert ''rm'' (w_functions w)\<rparr>"
proof (intro conjI)
  let ?w = "w\<lparr>w_functions := insert ''rm'' (w_functions w)\<rparr>"
  have "tilde env (unescape_word ''rm'') = Lit ''rm''"
    by (simp add: tilde_def backslash_def strip_prefix_def starts_with_def)
  from walk_command[of "[]", OF _ this, where w = ?w and args = args and src = src and line = line] obtain vs where
    "walk env src (command_node line [] ''rm'' args) ?w = run env src (Lit ''rm'' # vs) (excerpt line) ?w"
    by auto
  then show "walks env src [subshell_defining ''rm'', command_node line [] ''rm'' args] w = ?w"
    by (simp add: walk_subshell_defining run_rec[of env src "Lit ''rm'' # vs"] run_step_def)
next
  have "tilde (open_env env) (unescape_word ''true'') = Lit ''true''"
    by (simp add: tilde_def backslash_def strip_prefix_def starts_with_def)
  from walk_command[of "[Node ''variable_assignment'' None True 0 t cs]", OF _ this, of "[]" src line "no_functions w"]
  show "walk (open_env env) src (command_node line [Node ''variable_assignment'' None True 0 t cs] ''true'' []) (no_functions w)
       = no_functions w"
    by (simp add: run_plain slash_def asks_help_def run_command_def or_else_def run_state_def STATE_WORDS_def)
qed (simp_all add: run_plain asks_help_two asks_help_opt run_command_trap reader_words command_v env_split slash_def)

section \<open>Witnesses\<close>

definition bare_fs :: fsys where
  "bare_fs = \<lparr>fs_exists = (\<lambda>_. False), fs_canonicalize = (\<lambda>_. None), fs_is_file = (\<lambda>_. False),
     fs_is_dir = (\<lambda>_. False), fs_len = (\<lambda>_. 0), fs_read = (\<lambda>_. None), fs_env = (\<lambda>_. None)\<rparr>"

definition ssh_env :: shell_env where
  "ssh_env = shell_env_of bare_fs (\<lambda>_. NoTree) [''/p''] [''ssh *'']"

text \<open>Of a command that waits behind a wrapper only its tail is analysed: what is said of longer ones is never asked.\<close>

theorem run_unfold_witness:
  "run_step ssh_env (\<lambda>_ w. w) (\<lambda>argv who w. if lits argv < 2 then run ssh_env (\<lambda>_ w. w) argv who w else panic w)
     [Lit ''nohup'', Lit ''ls''] ''line'' (new_walker ''/p'')
   = run ssh_env (\<lambda>_ w. w) [Lit ''nohup'', Lit ''ls''] ''line'' (new_walker ''/p'')"
proof -
  let ?two = "[Lit ''nohup'', Lit ''ls'']" and ?src = "\<lambda>_ w. w"
  let ?rec = "\<lambda>argv who w. if lits argv < 2 then run ssh_env ?src argv who w else panic w"
  have "run_step ssh_env ?src ?rec ?two ''line'' (new_walker ''/p'') = run_step ssh_env ?src (run ssh_env ?src) ?two ''line'' (new_walker ''/p'')"
    by (rule run_unfold[THEN conjunct1]) (simp add: numeral_2_eq_2)
  also have "\<dots> = run ssh_env ?src ?two ''line'' (new_walker ''/p'')"
    by (rule sym, rule run_unfold[where rec = ?rec and rec' = ?rec, THEN conjunct2, THEN conjunct1]) (rule refl)
  finally show ?thesis .
qed


end
