(* ===== verification/Guard_Laws.thy ===== *)
theory Guard_Laws
  imports Guard Shell_Laws
begin

text \<open>
  The guard's correctness: it allows exactly what the policy allows (a refinement of the decision
  code to a specification on effects), it never sandboxes what it must refuse, the write set is
  lexical containment where no link interferes, and the sandbox command line survives the shell.
\<close>

section \<open>What the guard allows\<close>

text \<open>The policy, stated on the effects alone.\<close>

fun harmless :: "fsys \<Rightarrow> guard \<Rightarrow> effect \<Rightarrow> bool" where
  "harmless fs g (EWrite p _) = writable fs g p"
| "harmless fs g (EExec p _) = writable fs g p"
| "harmless fs g (EGitRemote repo _ _) = writable fs g repo"
| "harmless fs g (ENetwork _) = g_network g"
| "harmless fs g (EPublish _ _) = g_network g"
| "harmless fs g _ = False"

text \<open>Effects no sandbox may excuse.\<close>

fun forbidden :: "fsys \<Rightarrow> guard \<Rightarrow> effect \<Rightarrow> bool" where
  "forbidden fs g (EWrite p _) = (\<not> writable fs g p)"
| "forbidden fs g (EGitRemote repo _ _) = (\<not> writable fs g repo)"
| "forbidden fs g (ENetwork _) = (\<not> g_network g)"
| "forbidden fs g (EPublish _ _) = (\<not> g_network g)"
| "forbidden fs g (EExec _ _) = False"
| "forbidden fs g (EUnknown _ _) = False"
| "forbidden fs g _ = True"

lemma judge_Fine: "judge fs g e = Fine \<longleftrightarrow> harmless fs g e"
  by (cases e) auto

lemma judge_Refused: "(\<exists>r. judge fs g e = Refused r) \<longleftrightarrow> forbidden fs g e"
  by (cases e) auto

lemma denies_of_Nil: "denies_of (map (judge fs g) es) = [] \<longleftrightarrow> \<not> list_ex (forbidden fs g) es"
proof (induction es)
  case (Cons e es)
  then show ?case using judge_Refused[of fs g e]
    by (cases "judge fs g e") (auto simp: denies_of_def)
qed (simp add: denies_of_def)

lemma both_Nil: "denies_of (map (judge fs g) es) = [] \<and> unknowns_of (map (judge fs g) es) = []
    \<longleftrightarrow> list_all (harmless fs g) es"
proof (induction es)
  case (Cons e es)
  then show ?case using judge_Fine[of fs g e]
    by (cases "judge fs g e") (auto simp: denies_of_def unknowns_of_def)
qed (simp add: denies_of_def unknowns_of_def)

lemma decide_shell_cases:
  "decide_shell h g f command cwd tmp es = Allow \<longleftrightarrow> list_all (harmless (h_fs h) g) es"
  "list_ex (forbidden (h_fs h) g) es \<Longrightarrow> \<exists>m. decide_shell h g f command cwd tmp es = Deny m"
  "decide_shell h g f command cwd tmp es = Sandbox c m \<Longrightarrow>
     \<not> list_ex (forbidden (h_fs h) g) es \<and> sandbox_wrap h command cwd g tmp = Inr c"
  using both_Nil[of "h_fs h" g es] denies_of_Nil[of "h_fs h" g es]
  by (auto simp: decide_shell_def Let_def split: if_splits sum.splits)

lemma evaluate_edit_Allow: "evaluate_edit fs g f p cwd = Allow \<longleftrightarrow> writable fs g (absolute_from cwd p)"
  by (simp add: evaluate_edit_def Let_def refuse_def)

lemma evaluate_patch_Allow: "evaluate_patch fs g f ps cwd = Allow \<longleftrightarrow> list_all (\<lambda>p. writable fs g (absolute_from cwd p)) ps"
proof (induction ps)
  case (Cons p ps)
  then show ?case using evaluate_edit_Allow[of fs g f p cwd]
    by (cases "evaluate_edit fs g f p cwd") (auto simp: evaluate_edit_def Let_def refuse_def split: if_splits)
qed simp

lemma evaluate_Allow_family:
  "evaluate h g f call tmp = Some Allow \<longleftrightarrow>
     (case call_family call of Some fam \<Rightarrow> allows_family g fam | None \<Rightarrow> True)
     \<and> evaluate_call h g f call tmp = Some Allow"
  by (auto simp: evaluate_def refuse_family_def refuse_def split: option.split tool_call.split)

text \<open>C5. The guard allows exactly what the policy allows: an edit or a patch whose every target
  resolves into the write set, a shell line whose every effect is harmless (writes, scripts and
  repositories inside the write set, the network only if granted, and no denied, privileged,
  disruptive or unknown command), the web with network, and every other call only through its tool
  family; MCP tools only when named, and nothing at all for a fork without tools.\<close>

theorem guard_allows_exactly:
  "evaluate h g f call tmp = Some Allow \<longleftrightarrow>
     (case call_family call of Some fam \<Rightarrow> allows_family g fam | None \<Rightarrow> g_tools g \<noteq> Some [])
     \<and> (case call of
          CEdit p cwd \<Rightarrow> p \<noteq> [] \<and> writable (h_fs h) g (absolute_from cwd p)
        | CPatch ps cwd \<Rightarrow> ps \<noteq> [] \<and> list_all (\<lambda>p. writable (h_fs h) g (absolute_from cwd p)) ps
        | CShell command cwd \<Rightarrow> (case analyse (h_fs h) (h_parse h) command cwd (g_write g) (g_deny g) of
            None \<Rightarrow> False | Some a \<Rightarrow> list_all (harmless (h_fs h) g) (an_effects a))
        | CWeb _ \<Rightarrow> g_network g
        | _ \<Rightarrow> True)"
  unfolding evaluate_Allow_family
  by (cases call) (auto simp: evaluate_call_def evaluate_shell_def decide_shell_cases(1) evaluate_edit_Allow
      evaluate_patch_Allow refuse_def split: option.split)

text \<open>C6. A forbidden effect is refused, never sandboxed, whatever else the line does; and a command
  is sandboxed only when nothing it is known to do is forbidden, with exactly the wrapped line.\<close>

theorem forbidden_never_sandboxed:
  assumes "analyse (h_fs h) (h_parse h) command cwd (g_write g) (g_deny g) = Some a"
  shows "(list_ex (forbidden (h_fs h) g) (an_effects a) \<longrightarrow> (\<exists>m. evaluate_shell h g f command cwd tmp = Some (Deny m)))
    \<and> (\<forall>c m. evaluate_shell h g f command cwd tmp = Some (Sandbox c m) \<longrightarrow>
          sandbox_wrap h command cwd g tmp = Inr c \<and> list_ex (\<lambda>e. \<not> harmless (h_fs h) g e) (an_effects a))"
  using decide_shell_cases[where es = "an_effects a" and h = h and g = g and f = f and command = command and cwd = cwd and tmp = tmp] assms
  by (auto simp: evaluate_shell_def list_ex_iff list_all_iff)

section \<open>The sandbox command line\<close>

text \<open>Reading a command line made of unquoted safe words, single quotes and backslashes, as a POSIX
  shell does; \<open>None\<close> for an unquoted special character or an open quote.\<close>

definition onto :: "str option \<Rightarrow> str \<Rightarrow> str option" where
  "onto cur s = Some ((case cur of None \<Rightarrow> [] | Some x \<Rightarrow> x) @ s)"

fun sh_lex :: "bool \<Rightarrow> str option \<Rightarrow> str \<Rightarrow> str list option" where
  "sh_lex quoted cur [] = (if quoted then None else Some (case cur of None \<Rightarrow> [] | Some x \<Rightarrow> [x]))"
| "sh_lex quoted cur (c # cs) =
     (if quoted then (if c = CHR 0x27 then sh_lex False cur cs else sh_lex True (onto cur [c]) cs)
      else if c = CHR '' '' then (case cur of None \<Rightarrow> sh_lex False None cs
          | Some x \<Rightarrow> map_option (\<lambda>ws. x # ws) (sh_lex False None cs))
      else if c = CHR 0x27 then sh_lex True (onto cur []) cs
      else if c = backslash then (case cs of [] \<Rightarrow> None | d # cs' \<Rightarrow> sh_lex False (onto cur [d]) cs')
      else if is_shell_safe c then sh_lex False (onto cur [c]) cs
      else None)"

definition sh_words :: "str \<Rightarrow> str list option" where
  "sh_words s = sh_lex False None s"

lemma onto_onto [simp]: "onto (onto cur s) t = onto cur (s @ t)"
  by (simp add: onto_def)

lemma safe_plain: "is_shell_safe c \<Longrightarrow> c \<noteq> CHR '' '' \<and> c \<noteq> CHR 0x27 \<and> c \<noteq> backslash"
  by (auto simp: is_shell_safe_def is_alnum_def is_alpha_def is_digit_def less_eq_char_def backslash_def)

lemma lex_safe: "list_all is_shell_safe s \<Longrightarrow> sh_lex False (onto cur t) (s @ rest) = sh_lex False (onto cur (t @ s)) rest"
proof (induction s arbitrary: t)
  case (Cons c s)
  then show ?case using safe_plain[of c] by (simp add: backslash_def)
qed simp

lemma lex_quoted:
  "sh_lex True (onto cur t) (concat (map (\<lambda>c. if c = CHR 0x27 then [CHR 0x27, backslash, CHR 0x27, CHR 0x27] else [c]) s)
       @ CHR 0x27 # rest)
   = sh_lex False (onto cur (t @ s)) rest"
  by (induction s arbitrary: t) (auto simp: backslash_def)

lemma lex_quote: "sh_lex False cur (shell_quote s @ rest) = sh_lex False (onto cur s) rest"
proof (cases "s \<noteq> [] \<and> list_all is_shell_safe s")
  case True
  then obtain c s' where s: "s = c # s'" by (cases s) auto
  with True safe_plain[of c] lex_safe[of s' cur "[c]"] show ?thesis by (simp add: shell_quote_def)
next
  case False
  then show ?thesis using lex_quoted[of cur "[]" s rest] by (auto simp: shell_quote_def backslash_def)
qed

lemma lex_words: "sh_lex False None (join_with '' '' (map shell_quote ws)) = Some ws"
proof (induction ws rule: induct_list012)
  case (2 x)
  then show ?case using lex_quote[of None x "[]"] by (simp add: onto_def)
next
  case (3 x y zs)
  then show ?case by (simp add: lex_quote onto_def)
qed simp

lemma quote_safe: "s \<noteq> [] \<Longrightarrow> list_all is_shell_safe s \<Longrightarrow> shell_quote s = s"
  by (simp add: shell_quote_def)

text \<open>C26. Quoting is exact: a shell that reads the sandbox command line gets back the words the
  sandbox was built from - the confinement, \<open>/bin/bash -c\<close> and the fork's command unchanged as one
  word, whatever quotes or metacharacters it holds.\<close>

theorem sandbox_line_roundtrip:
  "sh_words (join_with '' '' (map shell_quote ws)) = Some ws
   \<and> (case sandbox_wrap h command cwd g tmp of
        Inl _ \<Rightarrow> True
      | Inr line \<Rightarrow> sh_words line = Some (case h_platform h of
            MacOs \<Rightarrow> [''/usr/bin/sandbox-exec'', ''-f'', profile_path tmp (seatbelt_profile (h_fs h) (write_roots (h_fs h) g)),
              ''/bin/bash'', ''-c'', command]
          | _ \<Rightarrow> bwrap_args (h_fs h) (write_roots (h_fs h) g) cwd @ [''/bin/bash'', ''-c'', command]))"
proof (intro conjI)
  show "sh_words (join_with '' '' (map shell_quote ws)) = Some ws" for ws
    by (simp add: sh_words_def lex_words)
  define p where "p = profile_path tmp (seatbelt_profile (h_fs h) (write_roots (h_fs h) g))"
  have "map shell_quote [''/usr/bin/sandbox-exec'', ''-f'', p, ''/bin/bash'', ''-c'', command]
      = [''/usr/bin/sandbox-exec'', ''-f'', shell_quote p, ''/bin/bash'', ''-c'', shell_quote command]"
    by (simp add: quote_safe is_shell_safe_def is_alnum_def is_alpha_def less_eq_char_def)
  then have mac: "sh_words (''/usr/bin/sandbox-exec -f '' @ shell_quote p @ '' /bin/bash -c '' @ shell_quote command)
      = Some [''/usr/bin/sandbox-exec'', ''-f'', p, ''/bin/bash'', ''-c'', command]"
    using lex_words[of "[''/usr/bin/sandbox-exec'', ''-f'', p, ''/bin/bash'', ''-c'', command]"]
    by (simp add: sh_words_def)
  show "case sandbox_wrap h command cwd g tmp of
        Inl _ \<Rightarrow> True
      | Inr line \<Rightarrow> sh_words line = Some (case h_platform h of
            MacOs \<Rightarrow> [''/usr/bin/sandbox-exec'', ''-f'', profile_path tmp (seatbelt_profile (h_fs h) (write_roots (h_fs h) g)),
              ''/bin/bash'', ''-c'', command]
          | _ \<Rightarrow> bwrap_args (h_fs h) (write_roots (h_fs h) g) cwd @ [''/bin/bash'', ''-c'', command])"
    using mac lex_words[of "bwrap_args (h_fs h) (write_roots (h_fs h) g) cwd @ [''/bin/bash'', ''-c'', command]"]
    by (auto simp: sandbox_wrap_def Let_def p_def sh_words_def split: option.split platform.split)
qed

section \<open>The write set\<close>

lemma foldl_path_of: "foldl path_push (path_of cs) ns = path_of (cs @ map Normal ns)"
proof (induction ns arbitrary: cs)
  case (Cons n ns)
  have "path_push (path_of cs) n = path_of (cs @ [Normal n])" by (simp add: path_of_def comp_str_def)
  then show ?case using Cons[of "cs @ [Normal n]"] by simp
qed simp

lemma split_existing_join: "split_existing fs cs rest = (ex, ns) \<Longrightarrow> ex @ map Normal ns = rev cs @ map Normal rest"
  by (induction fs cs rest rule: split_existing.induct) (auto split: if_splits comp.splits)

lemma canonical_prefix_no_links:
  assumes "\<And>q. fs_canonicalize fs q \<in> {None, Some q}" "is_abs p"
  shows "canonical_prefix fs p = normalize p"
proof -
  obtain ex ns where e: "split_existing fs (rev (components (normalize p))) [] = (ex, ns)" by force
  then have j: "ex @ map Normal ns = components (normalize p)" using split_existing_join by fastforce
  have "canonical fs q = q" for q using assms(1)[of q] by (auto simp: canonical_def)
  then have "canonical_prefix fs p = path_of (components (normalize p))"
    using j by (simp add: canonical_prefix_def e foldl_path_of)
  then show ?thesis using assms(2) by (simp add: components_normalize) (simp add: normalize_def)
qed

text \<open>On a file system without links in the way, the write set is exactly lexical containment
  of the normalised paths: \<open>..\<close> and \<open>.\<close> segments cannot leave it, and a path that does not exist yet
  is judged like one that does.\<close>

theorem writable_exact:
  assumes "\<And>q. fs_canonicalize fs q \<in> {None, Some q}" "is_abs p" "list_all is_abs (g_write g)"
  shows "writable fs g p \<longleftrightarrow>
    list_ex (\<lambda>r. prefix (norm_comps (components r)) (norm_comps (components p))) (g_write g)"
proof -
  have c: "components (canonical_prefix fs q) = norm_comps (components q)" if "is_abs q" for q
    using canonical_prefix_no_links[OF assms(1) that] components_normalize[OF that] by simp
  have "path_eq (canonical_prefix fs p) (canonical_prefix fs r) \<or> path_starts_with (canonical_prefix fs p) (canonical_prefix fs r)
      \<longleftrightarrow> prefix (norm_comps (components r)) (norm_comps (components p))" if "r \<in> set (g_write g)" for r
  proof -
    have "is_abs r" using assms(3) that by (simp add: list_all_iff)
    then show ?thesis using assms(2)
      by (auto simp: path_eq_def path_starts_with_def c starts_with_iff prefix_def)
  qed
  then show ?thesis by (auto simp: writable_def under_roots_def Let_def list_ex_iff)
qed

section \<open>Witnesses\<close>

definition sudo_host :: host where
  "sudo_host = \<lparr>h_fs = bare_fs, h_parse = (\<lambda>_. Parsed False (command_node ''sudo'' [] ''sudo'' [])),
     h_platform = Linux, h_write_profile = (\<lambda>_ _. None)\<rparr>"

definition small_guard :: guard where
  "small_guard = \<lparr>g_write = [''/p''], g_tools = None, g_network = False, g_deny = [], g_message = None\<rparr>"

lemma analyse_sudo:
  "analyse fs (h_parse sudo_host) ''sudo'' cwd trusted [] =
     Some \<lparr>an_effects = [EEscalate (excerpt ''sudo'')], an_parse_error = False\<rparr>"
proof -
  let ?env = "shell_env_of fs (h_parse sudo_host) trusted []"
  have t: "tilde ?env (unescape_word ''sudo'') = Lit ''sudo''"
    by (simp add: tilde_def backslash_def strip_prefix_def starts_with_def)
  have "walk ?env src (command_node ''sudo'' [] ''sudo'' []) w = run ?env src [Lit ''sudo''] (excerpt ''sudo'') w" for src w
    using walk_command[of "[]" ?env "''sudo''" "[]" src "''sudo''" w] t by auto
  moreover have "run ?env src [Lit ''sudo''] (excerpt ''sudo'') (new_walker c)
      = push (EEscalate (excerpt ''sudo'')) (new_walker c)" for src c
    by (subst run_rec) (simp add: run_step_def Let_def shell_env_of_def deny_patterns_def denied_by_def new_walker_def
        slash_def asks_help_def run_command_def or_else_def run_state_def STATE_WORDS_def run_wrapper_def)
  ultimately show ?thesis
    by (simp add: analyse_def Let_def shell_env_of_def sudo_host_def)
      (simp add: push_def new_walker_def)
qed

theorem forbidden_never_sandboxed_witness:
  "\<exists>m. evaluate_shell sudo_host small_guard ''f'' ''sudo'' ''/p'' ''/t'' = Some (Deny m)"
  using forbidden_never_sandboxed[of sudo_host "''sudo''" "''/p''" small_guard, simplified, unfolded small_guard_def, simplified,
      where f = "''f''" and tmp = "''/t''", folded small_guard_def] analyse_sudo
  by (simp add: small_guard_def sudo_host_def)

theorem writable_exact_witness:
  "writable bare_fs small_guard ''/p/x/../y'' \<and> \<not> writable bare_fs small_guard ''/p/../q''"
proof -
  have abs: "is_abs ''/p/../q''" "is_abs ''/p''" "is_abs ''/p/x/../y''" by code_simp+
  have comps: "norm_comps (components ''/p'') = [RootDir, Normal ''p'']"
    "norm_comps (components ''/p/x/../y'') = [RootDir, Normal ''p'', Normal ''y'']"
    "norm_comps (components ''/p/../q'') = [RootDir, Normal ''q'']"
    by code_simp+
  show ?thesis
    by (subst (1 2) writable_exact) (simp_all add: small_guard_def bare_fs_def abs comps)
qed

end
