(* ===== verification/Guard_Cmd.thy ===== *)
theory Guard_Cmd
  imports Guard_Laws Transcript
begin

text \<open>
  \<open>autofork/src/guard_cmd.rs\<close>: the guard at the tool boundary. How a harness's tool call becomes a call
  of the guard's vocabulary, how the fork file is loaded, and what \<open>guard eval\<close>, the \<open>PreToolUse\<close> hook,
  \<open>guard check\<close> and \<open>guard analyse\<close> answer. Reading JSON and the text of file errors are parameters; the
  outer \<open>option\<close> is a process that panics and prints nothing.
\<close>

section \<open>Loading\<close>

definition text_or :: "str \<Rightarrow> str option \<Rightarrow> str" where
  "text_or d s = (case s of Some x \<Rightarrow> if valid_utf8 x then x else d | None \<Rightarrow> d)"

definition fork_name_from_path :: "path \<Rightarrow> str" where
  "fork_name_from_path p = (let stem = text_or ''fork'' (path_file_stem p)
     in if map to_lower stem = ''fork'' then text_or stem (Option.bind (path_parent p) path_file_name) else stem)"

definition load_guard :: "fsys \<Rightarrow> (path \<Rightarrow> str) \<Rightarrow> (str \<Rightarrow> raw_fork option) \<Rightarrow> path \<Rightarrow> str + guard option" where
  "load_guard fs read_err from_yaml p = (case fs_read fs p of
     None \<Rightarrow> Inl ((''cannot read '' @ p @ '': '' @ read_err p))
   | Some content \<Rightarrow> (case parse_fork_file from_yaml (home_dir fs) (fork_name_from_path p) content of
        ForkOk pf \<Rightarrow> Inr (fd_guard (pf_def pf))
      | NotFork _ \<Rightarrow> Inr None
      | Invalid \<Rightarrow> Inl ((p @ '' has invalid frontmatter''))))"

section \<open>Mapping a call\<close>

record eval_input =
  ei_fork_path :: path
  ei_fork :: "str option"
  ei_client :: "str option"
  ei_tool :: str
  ei_args :: json
  ei_cwd :: path

definition OPENCODE_BUILTINS :: "str list" where
  "OPENCODE_BUILTINS = [''todowrite'', ''todoread'', ''skill'', ''lsp'', ''question'', ''invalid'', ''batch'',
     ''toolsearch'', ''plan'', ''notebook'']"

definition arg :: "json \<Rightarrow> str \<Rightarrow> str option" where
  "arg args k = Option.bind (j_get args k) j_str"

fun first_arg :: "json \<Rightarrow> str list \<Rightarrow> str option" where
  "first_arg args [] = None"
| "first_arg args (k # ks) = (case arg args k of Some v \<Rightarrow> Some v | None \<Rightarrow> first_arg args ks)"

definition or_empty :: "str option \<Rightarrow> str" where
  "or_empty s = (case s of Some x \<Rightarrow> x | None \<Rightarrow> [])"

definition or_path :: "path \<Rightarrow> str option \<Rightarrow> path" where
  "or_path d s = (case s of Some x \<Rightarrow> x | None \<Rightarrow> d)"

definition map_opencode :: "str \<Rightarrow> json \<Rightarrow> path \<Rightarrow> tool_call" where
  "map_opencode tool args cwd =
     (if tool = ''bash'' then CShell (or_empty (arg args ''command'')) (or_path cwd (arg args ''workdir''))
      else if tool \<in> {''edit'', ''write'', ''multiedit''}
      then CEdit (or_empty (first_arg args [''filePath'', ''file_path'', ''path''])) cwd
      else if tool \<in> {''patch'', ''apply_patch''}
      then (case first_arg args [''filePath'', ''file_path'', ''path''] of
              Some p \<Rightarrow> CEdit p cwd
            | None \<Rightarrow> CPatch (patch_paths (or_empty (first_arg args [''patchText'', ''patch_text'', ''patch'']))) cwd)
      else if tool \<in> {''read'', ''glob'', ''grep'', ''list'', ''ls'', ''lsp'', ''codesearch''} then CRead
      else if tool \<in> {''webfetch'', ''websearch''} then CWeb (first_arg args [''url'', ''query''])
      else if tool = ''task'' then CTask
      else if tool \<in> set OPENCODE_BUILTINS then COther tool else CMcp tool)"

definition map_claude :: "str \<Rightarrow> json \<Rightarrow> path \<Rightarrow> tool_call" where
  "map_claude tool args cwd =
     (if tool = ''Bash'' then CShell (or_empty (arg args ''command'')) cwd
      else if tool \<in> {''Edit'', ''Write'', ''MultiEdit'', ''NotebookEdit''}
      then CEdit (or_empty (first_arg args [''file_path'', ''notebook_path''])) cwd
      else if tool \<in> {''Read'', ''Glob'', ''Grep'', ''LS''} then CRead
      else if tool \<in> {''WebFetch'', ''WebSearch''} then CWeb (first_arg args [''url'', ''query''])
      else if tool \<in> {''Agent'', ''Task''} then CTask
      else if starts_with tool ''mcp__'' then CMcp tool else COther tool)"

definition map_generic :: "str \<Rightarrow> json \<Rightarrow> path \<Rightarrow> tool_call" where
  "map_generic tool args cwd =
     (if tool \<in> {''shell'', ''bash''} then CShell (or_empty (arg args ''command'')) (or_path cwd (arg args ''cwd''))
      else if tool \<in> {''edit'', ''write''} then CEdit (or_empty (arg args ''path'')) cwd
      else if tool = ''patch'' then CPatch (patch_paths (or_empty (arg args ''patch''))) cwd
      else if tool = ''read'' then CRead
      else if tool = ''web'' then CWeb (arg args ''url'')
      else if tool = ''task'' then CTask
      else if tool = ''mcp'' then CMcp (case arg args ''name'' of Some n \<Rightarrow> n | None \<Rightarrow> ''mcp'')
      else COther tool)"

definition map_call :: "str \<Rightarrow> str \<Rightarrow> json \<Rightarrow> path \<Rightarrow> tool_call" where
  "map_call client tool args cwd =
     (if client = ''opencode'' then map_opencode tool args cwd
      else if client \<in> {''claude-code'', ''claude''} then map_claude tool args cwd
      else map_generic tool args cwd)"

section \<open>Answers\<close>

definition guard_tmp :: "path \<Rightarrow> path" where
  "guard_tmp base = path_join base ''tmp''"

definition evaluate_input :: "host \<Rightarrow> (path \<Rightarrow> str) \<Rightarrow> (str \<Rightarrow> raw_fork option) \<Rightarrow> path \<Rightarrow> eval_input \<Rightarrow> (str + verdict) option" where
  "evaluate_input h read_err from_yaml base ei = (case load_guard (h_fs h) read_err from_yaml (ei_fork_path ei) of
     Inl e \<Rightarrow> Some (Inl e)
   | Inr None \<Rightarrow> Some (Inr Allow)
   | Inr (Some g) \<Rightarrow> map_option Inr (evaluate h g
        (case ei_fork ei of Some n \<Rightarrow> n | None \<Rightarrow> fork_name_from_path (ei_fork_path ei))
        (map_call (case ei_client ei of Some c \<Rightarrow> c | None \<Rightarrow> ''generic'') (ei_tool ei) (ei_args ei) (ei_cwd ei))
        (guard_tmp base)))"

text \<open>The line \<open>log_verdict\<close> appends to \<open>guard.log\<close>.\<close>

definition logged_call :: "tool_call \<Rightarrow> str" where
  "logged_call call = (case call of
     CShell command _ \<Rightarrow> map (\<lambda>c. if c = nl then CHR '' '' else c) (concat (take 160 (utf8_chars command)))
   | CEdit p _ \<Rightarrow> p
   | CPatch ps _ \<Rightarrow> join_with '' '' ps
   | CWeb target \<Rightarrow> or_empty target
   | _ \<Rightarrow> [])"

definition log_line :: "int \<Rightarrow> str \<Rightarrow> str \<Rightarrow> tool_call \<Rightarrow> verdict \<Rightarrow> str" where
  "log_line now fork tool call v =
     show_int now @ '' '' @ (case v of Allow \<Rightarrow> ''allow'' | Deny _ \<Rightarrow> ''deny'' | Sandbox _ _ \<Rightarrow> ''sandbox'')
       @ '' fork='' @ fork @ '' tool='' @ tool @ '' '' @ logged_call call @ [nl]"

text \<open>\<open>guard eval\<close>: the verdict it prints. Standard input is its text or the error of reading it.\<close>

definition eval_stdin :: "host \<Rightarrow> (path \<Rightarrow> str) \<Rightarrow> (str \<Rightarrow> raw_fork option) \<Rightarrow> (str \<Rightarrow> str + eval_input) \<Rightarrow> path
    \<Rightarrow> str + str \<Rightarrow> verdict option" where
  "eval_stdin h read_err from_yaml from_json base stdin = (case stdin of
     Inl e \<Rightarrow> Some (Deny ((''autofork guard could not read its input: '' @ e)))
   | Inr raw \<Rightarrow> (case from_json raw of
        Inl e \<Rightarrow> Some (Deny ((''autofork guard could not parse its input: '' @ e)))
      | Inr ei \<Rightarrow> map_option (\<lambda>r. case r of Inr v \<Rightarrow> v
            | Inl e \<Rightarrow> Deny ((''autofork guard could not load the fork: '' @ e)))
          (evaluate_input h read_err from_yaml base ei)))"

record claude_input =
  ch_tool_name :: str
  ch_tool_input :: json
  ch_cwd :: "path option"

definition hook_denial :: "verdict \<Rightarrow> str option" where
  "hook_denial v = (case v of Deny m \<Rightarrow> Some m | _ \<Rightarrow> None)"

datatype hook_reply = HookPass | HookDeny str

definition claude_hook_output :: "str option \<Rightarrow> hook_reply" where
  "claude_hook_output reason = (case reason of Some r \<Rightarrow> HookDeny r | None \<Rightarrow> HookPass)"

definition claude_eval :: "path option \<Rightarrow> path \<Rightarrow> claude_input \<Rightarrow> eval_input" where
  "claude_eval here fork_path ci = \<lparr>ei_fork_path = fork_path, ei_fork = None, ei_client = Some ''claude-code'',
     ei_tool = ch_tool_name ci, ei_args = ch_tool_input ci,
     ei_cwd = (case ch_cwd ci of Some c \<Rightarrow> c | None \<Rightarrow> (case here of Some c \<Rightarrow> c | None \<Rightarrow> [slash]))\<rparr>"

definition claude_hook :: "host \<Rightarrow> (path \<Rightarrow> str) \<Rightarrow> (str \<Rightarrow> raw_fork option) \<Rightarrow> (str \<Rightarrow> str + claude_input) \<Rightarrow> path
    \<Rightarrow> path option \<Rightarrow> path \<Rightarrow> str + str \<Rightarrow> hook_reply option" where
  "claude_hook h read_err from_yaml from_json base here fork_path stdin =
     map_option claude_hook_output (case stdin of
        Inl e \<Rightarrow> Some (Some ((''autofork guard could not read its input: '' @ e)))
      | Inr raw \<Rightarrow> (case from_json raw of
           Inl e \<Rightarrow> Some (Some ((''autofork guard could not parse its input: '' @ e)))
         | Inr ci \<Rightarrow> map_option (\<lambda>r. case r of Inr v \<Rightarrow> hook_denial v
              | Inl e \<Rightarrow> Some ((''autofork guard could not load the fork: '' @ e)))
             (evaluate_input h read_err from_yaml base (claude_eval here fork_path ci))))"

section \<open>For humans\<close>

text \<open>\<open>guard check\<close>: what it prints, or the error it returns.\<close>

definition check_text :: "verdict \<Rightarrow> str" where
  "check_text v = (case v of Allow \<Rightarrow> ''allow''
     | Deny m \<Rightarrow> ''deny'' @ [nl, nl] @ m
     | Sandbox c m \<Rightarrow> ''sandbox'' @ [nl, nl] @ c @ [nl, nl] @ ''on failure:'' @ [nl] @ m)"

definition check_guard :: "host \<Rightarrow> (path \<Rightarrow> str) \<Rightarrow> (str \<Rightarrow> raw_fork option) \<Rightarrow> path \<Rightarrow> path \<Rightarrow> path \<Rightarrow> path option
    \<Rightarrow> str list \<Rightarrow> (str + str) option" where
  "check_guard h read_err from_yaml base cwd fork p command = (case load_guard (h_fs h) read_err from_yaml fork of
     Inl e \<Rightarrow> Some (Inl e)
   | Inr None \<Rightarrow> Some (Inr ((fork @ '' declares no guard: everything is allowed'')))
   | Inr (Some g) \<Rightarrow> (let name = fork_name_from_path fork; say = map_option (Inr \<circ> check_text)
       in case p of
         Some p \<Rightarrow> say (evaluate h g name (CEdit p cwd) (guard_tmp base))
       | None \<Rightarrow> if command \<noteq> [] then say (evaluate h g name (CShell (join_with '' '' command) cwd) (guard_tmp base))
           else Some (Inl ''give a command (after --) or --path'')))"

text \<open>\<open>guard analyse\<close>: one line per effect.\<close>

definition by_arrow :: "str \<Rightarrow> str" where
  "by_arrow who = '' '' @ replicate 3 (CHR '' '') @ [CHR 0xE2, CHR 0x86, CHR 0x90] @ '' '' @ who"

fun effect_line :: "effect \<Rightarrow> str" where
  "effect_line (EWrite p who) = ''write    '' @ p @ by_arrow who"
| "effect_line (EExec p who) = ''exec     '' @ p @ by_arrow who"
| "effect_line (EGitRemote repo who publish) = (if publish then ''publish '' else ''sync    '') @ '' '' @ repo @ by_arrow who"
| "effect_line (ENetwork who) = ''network '' @ drop 3 (by_arrow who)"
| "effect_line (EPublish who what) = ''publish  '' @ what @ by_arrow who"
| "effect_line (EDenied who pat) = ''denied   '' @ pat @ by_arrow who"
| "effect_line (EEscalate who) = ''escalate'' @ drop 3 (by_arrow who)"
| "effect_line (EDisrupt who) = ''disrupt '' @ drop 3 (by_arrow who)"
| "effect_line (EUnknown who why) = ''unknown  '' @ why @ by_arrow who"

definition analyse_lines :: "fsys \<Rightarrow> (str \<Rightarrow> parse_result) \<Rightarrow> path \<Rightarrow> str list \<Rightarrow> (str + str list) option" where
  "analyse_lines fs parse cwd command = (if command = [] then Some (Inl ''give a command after --'')
     else map_option (\<lambda>a. Inr ((if an_effects a = [] then [''clean: reads only''] else []) @ map effect_line (an_effects a)
            @ (if an_parse_error a then [''(the line did not fully parse as shell)''] else [])))
          (analyse fs parse (join_with '' '' command) cwd [] []))"

section \<open>Laws\<close>

text \<open>The hook of Claude Code lets a call pass only when its input was read and understood, the fork
  file was loaded, and the file declares no guard or its guard allows or confines the call; every other
  answer it prints is a denial.\<close>

theorem hook_passes_exactly:
  "claude_hook h read_err from_yaml from_json base here fork_path stdin = Some HookPass \<longleftrightarrow>
     (\<exists>raw ci. stdin = Inr raw \<and> from_json raw = Inr ci
      \<and> (load_guard (h_fs h) read_err from_yaml fork_path = Inr None
         \<or> (\<exists>g v. load_guard (h_fs h) read_err from_yaml fork_path = Inr (Some g)
              \<and> evaluate h g (fork_name_from_path fork_path)
                  (map_claude (ch_tool_name ci) (ch_tool_input ci) (ei_cwd (claude_eval here fork_path ci))) (guard_tmp base) = Some v
              \<and> (v = Allow \<or> (\<exists>c m. v = Sandbox c m)))))"
proof -
  have out: "claude_hook_output r = HookPass \<longleftrightarrow> r = None" for r by (simp add: claude_hook_output_def split: option.split)
  have den: "hook_denial v = None \<longleftrightarrow> v = Allow \<or> (\<exists>c m. v = Sandbox c m)" for v by (cases v) (simp_all add: hook_denial_def)
  have dec: "claude_hook h read_err from_yaml from_json base here fork_path (Inr raw) =
      map_option (\<lambda>v. claude_hook_output (hook_denial v)) (evaluate h g (fork_name_from_path fork_path)
        (map_claude (ch_tool_name ci) (ch_tool_input ci) (ei_cwd (claude_eval here fork_path ci))) (guard_tmp base))"
    if "from_json raw = Inr ci" "load_guard (h_fs h) read_err from_yaml fork_path = Inr (Some g)" for raw ci g
    using that by (simp add: claude_hook_def evaluate_input_def claude_eval_def map_call_def option.map_comp comp_def)
  have undec: "claude_hook h read_err from_yaml from_json base here fork_path (Inr raw) = Some HookPass"
    if "from_json raw = Inr ci" "load_guard (h_fs h) read_err from_yaml fork_path = Inr None" for raw ci
    using that by (simp add: claude_hook_def evaluate_input_def claude_eval_def out hook_denial_def)
  have fail: "claude_hook h read_err from_yaml from_json base here fork_path stdin \<noteq> Some HookPass"
    if "\<forall>raw ci. stdin = Inr raw \<longrightarrow> from_json raw = Inr ci \<longrightarrow> (\<exists>e. load_guard (h_fs h) read_err from_yaml fork_path = Inl e)"
    using that by (auto simp: claude_hook_def evaluate_input_def claude_eval_def claude_hook_output_def split: sum.split)
  show ?thesis
  proof (cases "\<exists>raw ci. stdin = Inr raw \<and> from_json raw = Inr ci")
    case False
    then show ?thesis using fail by blast
  next
    case True
    then obtain raw ci where i: "stdin = Inr raw" "from_json raw = Inr ci" by blast
    show ?thesis
    proof (cases "load_guard (h_fs h) read_err from_yaml fork_path")
      case (Inl e)
      then show ?thesis using fail by auto
    next
      case (Inr og)
      then show ?thesis using undec[OF i(2)] dec[OF i(2)] i by (cases og) (auto simp: out den)
    qed
  qed
qed

text \<open>C28. For a Bash call of a fork whose guard grants the shell: the call is denied if the line has a
  forbidden effect, it passes if every effect is harmless, it never passes with a forbidden effect, and
  the hook prints nothing at all - which the harness does not take for a denial - exactly if the analysis
  of the line panics.\<close>

theorem hook_bash_exact:
  fixes here :: "path option" and base :: path
  assumes "from_json raw = Inr ci" "ch_tool_name ci = ''Bash''"
    and "load_guard (h_fs h) read_err from_yaml fork_path = Inr (Some g)" "allows_family g TShell"
  defines "an \<equiv> analyse (h_fs h) (h_parse h) (or_empty (arg (ch_tool_input ci) ''command''))
      (ei_cwd (claude_eval here fork_path ci)) (g_write g) (g_deny g)"
    and "reply \<equiv> claude_hook h read_err from_yaml from_json base here fork_path (Inr raw)"
  shows "(reply = None \<longleftrightarrow> an = None)
    \<and> (\<forall>a. an = Some a \<longrightarrow> (list_ex (forbidden (h_fs h) g) (an_effects a) \<longrightarrow> (\<exists>m. reply = Some (HookDeny m)))
         \<and> (list_all (harmless (h_fs h) g) (an_effects a) \<longrightarrow> reply = Some HookPass)
         \<and> (reply = Some HookPass \<longrightarrow> \<not> list_ex (forbidden (h_fs h) g) (an_effects a)))"
proof -
  let ?cmd = "or_empty (arg (ch_tool_input ci) ''command'')" and ?cwd = "ei_cwd (claude_eval here fork_path ci)"
  let ?f = "fork_name_from_path fork_path"
  have ev: "evaluate h g ?f (map_call ''claude-code'' ''Bash'' (ch_tool_input ci) ?cwd) (guard_tmp base)
      = map_option (\<lambda>a. decide_shell h g ?f ?cmd ?cwd (guard_tmp base) (an_effects a)) an"
    using assms(4) by (simp add: evaluate_def map_call_def map_claude_def evaluate_call_def evaluate_shell_def an_def)
  have reply: "reply = map_option (\<lambda>a. claude_hook_output (hook_denial (decide_shell h g ?f ?cmd ?cwd (guard_tmp base) (an_effects a)))) an"
    using assms(1-3) ev by (simp add: reply_def claude_hook_def evaluate_input_def claude_eval_def option.map_comp comp_def)
  note cases = decide_shell_cases[where h = h and g = g and f = ?f and command = ?cmd and cwd = ?cwd and tmp = "guard_tmp base"]
  have pass: "claude_hook_output (hook_denial v) = HookPass \<longleftrightarrow> v = Allow \<or> (\<exists>c m. v = Sandbox c m)" for v
    by (cases v) (simp_all add: hook_denial_def claude_hook_output_def)
  have "\<exists>m. reply = Some (HookDeny m)" if "an = Some a" "list_ex (forbidden (h_fs h) g) (an_effects a)" for a
    using cases(2)[OF that(2)] that(1) by (auto simp: reply hook_denial_def claude_hook_output_def)
  moreover have "reply = Some HookPass" if "an = Some a" "list_all (harmless (h_fs h) g) (an_effects a)" for a
    using cases(1) that pass by (simp add: reply)
  ultimately show ?thesis by (auto simp: reply)
qed

definition guarded_yaml :: "str \<Rightarrow> raw_fork option" where
  "guarded_yaml y = Some (raw_empty\<lparr>rf_fork := Some (YBool True), rf_guard := Some (YMap [])\<rparr>)"

definition guarded_host :: host where
  "guarded_host = sudo_host\<lparr>h_fs := bare_fs\<lparr>fs_read := (\<lambda>p. if p = ''/g.md'' then Some sample_file else None)\<rparr>\<rparr>"

definition bash_input :: claude_input where
  "bash_input = \<lparr>ch_tool_name = ''Bash'', ch_tool_input = JObj [(''command'', JStr ''sudo'')], ch_cwd = Some ''/p''\<rparr>"

theorem hook_bash_exact_witness:
  "\<exists>m. claude_hook guarded_host (\<lambda>_. []) guarded_yaml (\<lambda>_. Inr bash_input) ''/b'' None ''/g.md'' (Inr ''x'') = Some (HookDeny m)"
proof -
  have load: "load_guard (h_fs guarded_host) (\<lambda>_. []) guarded_yaml ''/g.md'' = Inr (Some guard_default)" by code_simp
  have shell: "allows_family guard_default TShell" by code_simp
  have cmd: "or_empty (arg (ch_tool_input bash_input) ''command'') = ''sudo''" by code_simp
  have deny: "g_deny guard_default = []" by code_simp
  have "h_parse guarded_host = h_parse sudo_host" by (simp add: guarded_host_def)
  then show ?thesis
    using hook_bash_exact[OF refl[of "Inr bash_input"] _ load shell, where raw = "''x''" and here = None and base = "''/b''"] analyse_sudo
    by (simp add: cmd deny bash_input_def[THEN arg_cong[of _ _ ch_tool_name], simplified])
qed

end
