(* ===== verification/Hook_Runs.thy ===== *)
theory Hook_Runs
  imports World Guard
begin

text \<open>
  \<open>autofork-daemon/src/hooks.rs\<close>: which lifecycle hooks an event fires, how a hook command is started
  (\<open>execute\<close>: throttle, stamp, environment), and what happens when it ends (\<open>job_finished\<close>: the
  feed delivery of \<open>deliver_block\<close>). The command runs outside; its outcome is an argument.
\<close>

section \<open>Contexts and events\<close>

definition ctx_from_event :: "event \<Rightarrow> hook_ctx" where
  "ctx_from_event ev = \<lparr>hc_session_id = ev_session_id ev, hc_cwd = ev_cwd ev,
     hc_project_root = ev_project_root ev, hc_client = ev_client ev,
     hc_transcript_path = ev_transcript_path ev\<rparr>"

definition ctx_from_row :: "session_row \<Rightarrow> hook_ctx" where
  "ctx_from_row row = \<lparr>hc_session_id = s_session_id row, hc_cwd = s_cwd row,
     hc_project_root = s_project_root row, hc_client = s_client row,
     hc_transcript_path = s_transcript_path row\<rparr>"

definition spool_key :: "hook_ctx \<Rightarrow> str" where
  "spool_key ctx = (if is_native_exec_client (hc_client ctx) then hc_session_id ctx
     else case Option.bind (hc_transcript_path ctx) path_file_stem of
       Some st \<Rightarrow> st | None \<Rightarrow> hc_session_id ctx)"

datatype hook_event =
    FireStart "str option"
  | FireActivity
  | FireEnd str

text \<open>The name and the extra variables an event fires a hook with, if it fires it.\<close>

definition fires_as :: "hook_event \<Rightarrow> hook_def \<Rightarrow> (str \<times> (str \<times> str) list) option" where
  "fires_as e d = (case e of
     FireStart source \<Rightarrow>
       (let start = (HSessionStart \<in> set (hd_on d)); resume = (source = Some ''resume'' \<and> HResume \<in> set (hd_on d))
        in if start \<or> resume
           then Some (if start then ''session_start'' else ''resume'',
                      case source of None \<Rightarrow> [] | Some s \<Rightarrow> [(''AUTOFORK_SOURCE'', s)])
           else None)
   | FireActivity \<Rightarrow> if HActivity \<in> set (hd_on d) then Some (''activity'', []) else None
   | FireEnd reason \<Rightarrow>
       if HSessionEnd \<in> set (hd_on d) then Some (''session_end'', [(''AUTOFORK_END_REASON'', reason)]) else None)"

section \<open>Starting a command\<close>

definition hook_throttled :: "world \<Rightarrow> store \<Rightarrow> str \<Rightarrow> hook_entry \<Rightarrow> bool" where
  "hook_throttled w s sid entry =
     (case (hd_throttle_secs (ph_def (he_parsed entry)), hook_last_run s sid (he_name entry)) of
        (Some throttle, Some lst) \<Rightarrow> within (wd_now w) lst throttle | _ \<Rightarrow> False)"

text \<open>\<open>sys::root_fallback_dir\<close> is \<open>/\<close> on Unix.\<close>

definition job_cwd :: "world \<Rightarrow> hook_ctx \<Rightarrow> path" where
  "job_cwd w ctx = (if fs_is_dir (wd_fs w) (hc_cwd ctx) then hc_cwd ctx
     else if fs_is_dir (wd_fs w) (hc_project_root ctx) then hc_project_root ctx else [slash])"

definition job_vars :: "hook_ctx \<Rightarrow> hook_entry \<Rightarrow> str \<Rightarrow> (str \<times> str) list \<Rightarrow> (str \<times> str) list" where
  "job_vars ctx entry event_name extra =
     [(''AUTOFORK_HOOK_NAME'', he_name entry), (''AUTOFORK_EVENT'', event_name),
      (''AUTOFORK_SESSION_ID'', hc_session_id ctx), (''AUTOFORK_PROJECT_ROOT'', hc_project_root ctx),
      (''AUTOFORK_CWD'', hc_cwd ctx),
      (''AUTOFORK_CLIENT'', case hc_client ctx of Some c \<Rightarrow> c | None \<Rightarrow> ''claude-code''),
      (''AUTOFORK_DELIVER'', deliver_label (hd_deliver (ph_def (he_parsed entry))))] @ extra"

definition job_of :: "world \<Rightarrow> daemon \<Rightarrow> hook_ctx \<Rightarrow> hook_entry \<Rightarrow> str \<Rightarrow> (str \<times> str) list \<Rightarrow> hook_job" where
  "job_of w d ctx entry event_name extra =
     (let def = ph_def (he_parsed entry);
          (clear, carried) = (case session_env d (hc_session_id ctx) of None \<Rightarrow> ([], []) | Some re \<Rightarrow> plan_env re)
      in \<lparr>hj_hook = he_name entry, hj_event = event_name, hj_ctx = ctx, hj_command = hd_command def,
          hj_cwd = job_cwd w ctx, hj_timeout = hd_timeout_secs def, hj_deliver = hd_deliver def,
          hj_max_bytes = hd_max_bytes def, hj_clear = clear,
          hj_vars = carried @ job_vars ctx entry event_name extra\<rparr>)"

text \<open>The environment of the command: \<open>env_remove\<close> of the cleared names, then the session's own
  values, then the context variables.\<close>

definition job_env :: "getenv \<Rightarrow> hook_job \<Rightarrow> getenv" where
  "job_env inherited j = child_env inherited (hj_clear j) (hj_vars j)"

definition execute :: "world \<Rightarrow> hook_ctx \<Rightarrow> hook_entry \<Rightarrow> str \<Rightarrow> (str \<times> str) list \<Rightarrow> daemon \<Rightarrow> daemon" where
  "execute w ctx entry event_name extra d =
     (let def = ph_def (he_parsed entry); sid = hc_session_id ctx
      in if hd_command def = [] then d
         else if hook_throttled w (dm_store d) sid entry then d
         else (let d1 = touch_busy w (with_store (\<lambda>s. stamp_hook_run s sid (he_name entry) (wd_now w)) d);
                   j = job_of w d1 ctx entry event_name extra;
                   d2 = (if hd_deliver def = DContext then feed_hook_started (spool_key ctx) d1 else d1)
               in d2\<lparr>hook_jobs := hook_jobs d2 @ [j], hooks_started := hooks_started d2 @ [j]\<rparr>))"

definition fire_matching :: "world \<Rightarrow> hook_ctx \<Rightarrow> hook_event \<Rightarrow> daemon \<Rightarrow> daemon" where
  "fire_matching w ctx e d =
     foldl (\<lambda>d entry. case fires_as e (ph_def (he_parsed entry)) of None \<Rightarrow> d
        | Some (event_name, extra) \<Rightarrow> execute w ctx entry event_name extra d) d (hooks_for w (hc_cwd ctx))"

definition idle_secs :: "nat \<Rightarrow> hook_on \<Rightarrow> nat option" where
  "idle_secs default_secs on = (case on of
     HIdle after_secs \<Rightarrow> (if after_secs \<noteq> None \<or> default_secs > 0
        then Some (case after_secs of Some d \<Rightarrow> d | None \<Rightarrow> default_secs) else None)
   | _ \<Rightarrow> None)"

definition idle_hook_deadlines :: "hook_entry list \<Rightarrow> nat \<Rightarrow> (hook_entry \<times> nat) list" where
  "idle_hook_deadlines entries default_secs =
     concat (map (\<lambda>entry. if hd_command (ph_def (he_parsed entry)) = [] then []
        else map (Pair entry) (remdups (sort (List.map_filter (idle_secs default_secs) (hd_on (ph_def (he_parsed entry)))))))
       entries)"

text \<open>External triggers.\<close>

definition listens :: "external_kind \<Rightarrow> str \<Rightarrow> hook_on \<Rightarrow> bool" where
  "listens kind key on = (case (kind, on) of
     (KChanged, HChanged pattern) \<Rightarrow> pattern = key | (KEvent, HEvent name) \<Rightarrow> name = key | _ \<Rightarrow> False)"

definition trigger_vars :: "external_kind \<Rightarrow> str \<Rightarrow> str \<Rightarrow> (str \<times> str) list" where
  "trigger_vars kind key detail = (''AUTOFORK_TRIGGER'', kind_label kind @ '':'' @ key) #
     (case kind of
        KChanged \<Rightarrow> [(''AUTOFORK_WATCH'', key), (''AUTOFORK_CHANGED_PATHS'', detail)]
      | KEvent \<Rightarrow> [(''AUTOFORK_EMIT_NAME'', key), (''AUTOFORK_EMIT_PAYLOAD'', detail)])"

definition fire_external :: "world \<Rightarrow> hook_ctx \<Rightarrow> external_kind \<Rightarrow> str \<Rightarrow> str \<Rightarrow> daemon \<Rightarrow> daemon" where
  "fire_external w ctx kind key detail d =
     foldl (\<lambda>d entry. if list_ex (listens kind key) (hd_on (ph_def (he_parsed entry)))
        then execute w ctx entry (kind_label kind) (trigger_vars kind key detail) d else d)
       d (hooks_for w (hc_cwd ctx))"

section \<open>The end of a command\<close>

text \<open>The dedupe key. The multiplier is the source's \<open>0x1000_0000_01b3\<close>, which is not the FNV prime
  \<open>0x100_0000_01b3\<close> of \<open>sys::fnv1a64\<close>.\<close>

definition content_hash :: "str \<Rightarrow> str" where
  "content_hash txt =
     hex_pad 16 (unat (foldl (\<lambda>h b. xor h (of_char b) * 0x1000000001b3) (0xcbf29ce484222325 :: 64 word) txt))"

definition truncate_feed :: "nat \<Rightarrow> str \<Rightarrow> str" where
  "truncate_feed max_bytes txt = (if length txt > max_bytes
     then take (boundary_below txt max_bytes) txt @ ([nl] @ ''['' @ ellipsis @ ''feed truncated at max_bytes]'') else txt)"

definition deliver_block :: "world \<Rightarrow> hook_job \<Rightarrow> str \<Rightarrow> daemon \<Rightarrow> daemon" where
  "deliver_block w j txt d =
     (let ctx = hj_ctx j; sid = hc_session_id ctx; t = truncate_feed (hj_max_bytes j) txt
      in if txt = [] then d
         else case hj_deliver j of
           DNone \<Rightarrow> d
         | DContext \<Rightarrow> (case feed_hash_changed (dm_store d) sid (hj_hook j) (content_hash t) of
               (s, False) \<Rightarrow> d
             | (s, True) \<Rightarrow>
                 (let block = feed_block (hj_hook j) (hj_event j) t;
                      d1 = with_store (\<lambda>_. spool_report s (spool_key ctx) (hj_hook j) block (wd_now w)) d
                  in if hc_client ctx = Some ''opencode'' then nudge sid d1 else d1))
         | DWake \<Rightarrow> nudge sid (with_store (\<lambda>s. spool_wake_block s sid (hj_hook j)
               (feed_block (hj_hook j) (hj_event j) t) (wd_now w)) d))"

text \<open>How a command ended: with status zero and this text on standard output (decoded and trimmed),
  or in any other way (a failure, a command that could not run, a timeout).\<close>

datatype job_end = JobOk str | JobFailed

definition job_finished :: "world \<Rightarrow> hook_job \<Rightarrow> job_end \<Rightarrow> daemon \<Rightarrow> daemon" where
  "job_finished w j e d =
     (let d1 = d\<lparr>hook_jobs := remove1 j (hook_jobs d)\<rparr>;
          d2 = (case e of JobOk out \<Rightarrow> if delivers (hj_deliver j) then deliver_block w j (trim out) d1 else d1
                | JobFailed \<Rightarrow> d1)
      in if hj_deliver j = DContext then feed_hook_finished (spool_key (hj_ctx j)) d2 else d2)"

end
