(* ===== verification/Daemon.thy ===== *)
theory Daemon
  imports Hook_Runs
begin

text \<open>
  \<open>autofork-daemon/src/daemon.rs\<close> without the stop-wait, with \<open>flush.rs\<close>, \<open>sweep.rs\<close>, \<open>liveness.rs\<close>
  and the request dispatch of \<open>server.rs\<close>: one definition per handler, from a world and a daemon to a
  daemon and, where there is one, the response. A handler is one step of the daemon.
\<close>

section \<open>Closing a session\<close>

text \<open>\<open>flush.rs\<close>.\<close>

definition flushable :: "str \<Rightarrow> bool" where
  "flushable reason \<longleftrightarrow> reason \<noteq> ''timeout'' \<and> reason \<noteq> ''pruned''"

definition take_final_runs_for_close :: "world \<Rightarrow> session_row \<Rightarrow> str \<Rightarrow> daemon \<Rightarrow> daemon \<times> wake_fork list" where
  "take_final_runs_for_close w row reason d =
     (if \<not> flushable reason then (d, [])
      else if \<not> flush_on_close (cfg_for w (Some (s_project_root row))) then (d, [])
      else if is_fork_run_session d (s_session_id row) then (d, [])
      else (let (s, specs) = build_final_runs (env_for w row) (dm_store d) row
            in (d\<lparr>dm_store := s\<rparr>, specs)))"

text \<open>The end-runner's arguments; writing the specs, the log and finding the binary are left out.\<close>

definition end_run_of :: "daemon \<Rightarrow> session_row \<Rightarrow> wake_fork list \<Rightarrow> end_run" where
  "end_run_of d row specs = \<lparr>er_session_id = s_session_id row,
     er_client = (case s_client row of Some c \<Rightarrow> c | None \<Rightarrow> ''claude-code''),
     er_resume_target = conversation_id row, er_cwd = s_cwd row, er_specs = specs, er_model = s_model row,
     er_bin = Option.bind (s_harness row) hp_bin, er_env = session_env d (s_session_id row)\<rparr>"

definition spawn_end_runner :: "session_row \<Rightarrow> wake_fork list \<Rightarrow> daemon \<Rightarrow> daemon" where
  "spawn_end_runner row specs d =
     (if specs = [] then d else d\<lparr>end_runs := end_runs d @ [end_run_of d row specs]\<rparr>)"

definition close_session_with_flush :: "world \<Rightarrow> str \<Rightarrow> str \<Rightarrow> bool \<Rightarrow> daemon \<Rightarrow> daemon \<times> bool" where
  "close_session_with_flush w sid reason flush d0 =
     (let row_before = session_of d0 sid;
          (d1, final_runs) = (case row_before of
              Some r \<Rightarrow> if flush \<and> s_status r = Open then take_final_runs_for_close w r reason d0 else (d0, [])
            | None \<Rightarrow> (d0, []));
          row = session_of d1 sid;
          (s, transitioned) = close_session (dm_store d1) sid reason (wd_now w);
          d2 = d1\<lparr>dm_store := s\<rparr>;
          d3 = (case row_before of Some r \<Rightarrow> spawn_end_runner r final_runs d2 | None \<Rightarrow> d2)
      in if \<not> transitioned then (d3, False)
         else case row of
           None \<Rightarrow> (forget_session_env sid d3, True)
         | Some r \<Rightarrow>
             if is_fork_run_session d3 sid then (forget_session_env sid d3, True)
             else (forget_session_env sid (fire_matching w (ctx_from_row r) (FireEnd reason) d3), True))"

definition close_session_firing_hooks :: "world \<Rightarrow> str \<Rightarrow> str \<Rightarrow> daemon \<Rightarrow> daemon \<times> bool" where
  "close_session_firing_hooks w sid reason d = close_session_with_flush w sid reason True d"

section \<open>A fork run of the daemon's own reaches its end\<close>

text \<open>A stale completion changes nothing (\<open>on_stale_fork_terminal\<close> only logs).\<close>

definition on_stale_fork_terminal :: "daemon \<Rightarrow> daemon" where
  "on_stale_fork_terminal d = d"

definition roster_def :: "world \<Rightarrow> daemon \<Rightarrow> session_row \<Rightarrow> str \<Rightarrow> fork_def option" where
  "roster_def w d se name =
     (case find (\<lambda>e. ro_name e = name) (roster (dm_store d) (s_session_id se)) of
        None \<Rightarrow> None | Some e \<Rightarrow> read_fork (env_for w se) name (ro_path e))"

definition chain_spent :: "world \<Rightarrow> daemon \<Rightarrow> session_row \<Rightarrow> str \<Rightarrow> fork_def \<Rightarrow> bool" where
  "chain_spent w d se name def =
     (let cfg = cfg_for w (Some (s_project_root se)); s = dm_store d; sid = s_session_id se;
          limit = as_i64 (case fd_chain_limit def of Some n \<Rightarrow> n | None \<Rightarrow> chain_limit cfg);
          since = (case s_pause_started_at se of Some t \<Rightarrow> t | None \<Rightarrow> s_created_at se);
          runs = count_runs_since s sid name since;
          hourly = count_runs_since s sid name (i64_sub (wd_now w) (runaway_window_secs (wd_fs w)))
      in (runaway_limit cfg > 0 \<and> hourly \<ge> as_i64 (runaway_limit cfg)) \<or> runs \<ge> limit)"

definition try_rearm :: "world \<Rightarrow> session_row \<Rightarrow> str \<Rightarrow> fork_def option \<Rightarrow> daemon \<Rightarrow> daemon \<times> bool" where
  "try_rearm w se name def d = (case def of
     None \<Rightarrow> (d, False)
   | Some f \<Rightarrow>
       if \<not> fd_chain f then (d, False)
       else if chain_spent w d se name f then (d, False)
       else (let (s, armed) = rearm_idle_latch (dm_store d) (s_session_id se) name (s_pause_epoch se)
             in (d\<lparr>dm_store := s\<rparr>, armed)))"

definition on_own_fork_terminal :: "world \<Rightarrow> str \<Rightarrow> str \<Rightarrow> str \<Rightarrow> bool \<Rightarrow> daemon \<Rightarrow> daemon" where
  "on_own_fork_terminal w sid name status cont d = (case session_of d sid of
     None \<Rightarrow> d
   | Some se \<Rightarrow>
      (let def = roster_def w d se name;
           (d2, rearmed) = (if cont \<and> status = ''completed''
              then try_rearm w se name def
                     (if is_native_exec_client (s_client se) then note_chain_continued w sid d else d)
              else (d, False))
       in if \<not> rearmed \<and> s_active_gate se = Some name
          then with_store (\<lambda>s. clear_pause_baseline (clear_active_gate s sid) sid) d2 else d2))"

definition on_fork_terminal :: "world \<Rightarrow> str \<Rightarrow> str \<Rightarrow> str \<Rightarrow> bool \<Rightarrow> bool \<Rightarrow> daemon \<Rightarrow> daemon" where
  "on_fork_terminal w sid name status cont stale d =
     (if stale then on_stale_fork_terminal d else on_own_fork_terminal w sid name status cont d)"

section \<open>Reading the transcript\<close>

record settled_run =
  sr_fork :: str
  sr_status :: str
  sr_cont :: bool
  sr_stale :: bool

definition ingest_note :: "world \<Rightarrow> str \<Rightarrow> task_notification \<Rightarrow> store \<times> settled_run list \<Rightarrow> store \<times> settled_run list" where
  "ingest_note w sid n acc = (case acc of (s, ended) \<Rightarrow>
     (case tn_status n of
        None \<Rightarrow> acc
      | Some status \<Rightarrow>
        if \<not> is_terminal_status status then acc
        else (let s1 = fst (mark_bg_task_terminal s sid (tn_tool_use_id n) (tn_task_id n) (wd_now w));
                  (s2, matched, transitioned) =
                    mark_spawn_terminal s1 sid (tn_tool_use_id n) (tn_task_id n) status (wd_now w)
              in if matched \<and> transitioned
                 then (case spawn_fork_name s2 sid (tn_tool_use_id n) (tn_task_id n) of
                     None \<Rightarrow> (s2, ended)
                   | Some fork \<Rightarrow> (s2, ended @ [\<lparr>sr_fork = fork, sr_status = status, sr_cont = tn_continue n,
                       sr_stale = spawn_is_stale s2 sid (tn_tool_use_id n) (tn_task_id n)\<rparr>]))
                 else (s2, ended))))"

definition ingest_delta :: "world \<Rightarrow> str \<Rightarrow> delta \<Rightarrow> store \<Rightarrow> store \<times> settled_run list" where
  "ingest_delta w sid dl s =
     (let t = wd_now w;
          s1 = foldl (\<lambda>s (tool, name). record_spawn s sid tool name t) s (dl_spawns dl);
          s2 = foldl (\<lambda>s (tool, task). record_bg_task (set_spawn_task_id s sid tool task) sid tool task t)
                 s1 (dl_task_ids dl);
          s3 = foldl (\<lambda>s task. fst (mark_bg_task_terminal s sid None (Some task) t)) s2 (dl_stopped_tasks dl);
          (s4, ended) = fold (ingest_note w sid) (dl_notifications dl) (s3, [])
      in (set_transcript_gauge s4 sid (dl_new_offset dl) (dl_prompt_tokens dl), ended))"

definition ingest_transcript :: "world \<Rightarrow> event \<Rightarrow> daemon \<Rightarrow> daemon \<times> nat option" where
  "ingest_transcript w ev d =
     (let sid = ev_session_id ev
      in case (ev_transcript_path ev, session_of d sid) of
        (Some transcript, Some se) \<Rightarrow>
          (case read_delta (wd_json w) (wd_bytes w transcript) (s_transcript_offset se) of
             None \<Rightarrow> (d, s_prompt_tokens se)
           | Some dl \<Rightarrow>
               (let (s, ended) = ingest_delta w sid dl (dm_store d);
                    d1 = foldl (\<lambda>d r. on_fork_terminal w sid (sr_fork r) (sr_status r) (sr_cont r) (sr_stale r) d)
                           (d\<lparr>dm_store := s\<rparr>) ended
                in (d1, coalesce (dl_prompt_tokens dl) (s_prompt_tokens se))))
      | _ \<Rightarrow> (d, None))"

section \<open>Lifecycle events\<close>

definition join_tags :: "str list option \<Rightarrow> str option" where
  "join_tags ts = map_option (join_with '','') ts"

definition args_of_event :: "event \<Rightarrow> session_args" where
  "args_of_event ev = \<lparr>a_id = ev_session_id ev, a_project_root = ev_project_root ev, a_cwd = ev_cwd ev,
     a_transcript_path = ev_transcript_path ev, a_model = ev_model ev,
     a_enable_tags = join_tags (ev_enable_tags ev), a_disable_tags = join_tags (ev_disable_tags ev),
     a_client = ev_client ev\<rparr>"

definition set_harness_opt :: "str \<Rightarrow> harness option \<Rightarrow> store \<Rightarrow> store" where
  "set_harness_opt sid h s = (case h of None \<Rightarrow> s | Some h \<Rightarrow> set_harness s sid h)"

definition set_window_opt :: "str \<Rightarrow> nat option \<Rightarrow> store \<Rightarrow> store" where
  "set_window_opt sid n s = (case n of None \<Rightarrow> s | Some n \<Rightarrow> set_context_window s sid n)"

definition on_session_start :: "world \<Rightarrow> event \<Rightarrow> daemon \<Rightarrow> daemon" where
  "on_session_start w ev d =
     (let sid = ev_session_id ev;
          (s, newly) = upsert_session (dm_store d) (args_of_event ev) (wd_now w);
          d1 = d\<lparr>dm_store := set_harness_opt sid (ev_harness ev) (set_window_opt sid (ev_context_window ev) s)\<rparr>
      in if newly then fire_matching w (ctx_from_event ev) (FireStart (ev_source ev)) d1 else d1)"

text \<open>The completion a prompt reports: the registry is brought up to date, and a run that settles
  here is handled. The flag says whether the registry knows the task as one of its spawns.\<close>

definition settle_prompt :: "world \<Rightarrow> event \<Rightarrow> daemon \<Rightarrow> daemon \<times> bool" where
  "settle_prompt w ev d0 =
     (let sid = ev_session_id ev; tool = ev_notif_tool_use_id ev; task = ev_notif_task_id ev;
          d1 = fst (ingest_transcript w ev d0);
          status = (case ev_notif_status ev of Some s \<Rightarrow> s | None \<Rightarrow> [])
      in if is_terminal_status status
         then (let (s, matched, transitioned) = mark_spawn_terminal (dm_store d1) sid tool task status (wd_now w);
                   d2 = d1\<lparr>dm_store := s\<rparr>
               in (if transitioned
                   then (case spawn_fork_name s sid tool task of None \<Rightarrow> d2
                         | Some fork \<Rightarrow> on_fork_terminal w sid fork status (ev_notif_continue ev = Some True)
                             (spawn_is_stale s sid tool task) d2)
                   else d2, matched))
         else (d1, is_fork_spawn (dm_store d1) sid tool task))"

definition reports_task :: "event \<Rightarrow> bool" where
  "reports_task ev \<longleftrightarrow> ev_notif_tool_use_id ev \<noteq> None \<or> ev_notif_task_id ev \<noteq> None"

text \<open>Whether a prompt is genuine activity.\<close>

definition classify_prompt :: "world \<Rightarrow> event \<Rightarrow> daemon \<Rightarrow> daemon \<times> bool" where
  "classify_prompt w ev d =
     (let sid = ev_session_id ev;
          (d1, waking) = (if reports_task ev
             then (let (d1, matched) = settle_prompt w ev d in (d1, \<not> matched \<and> \<not> recently_woke w d1 sid))
             else (d, case ev_waking ev of Some b \<Rightarrow> b | None \<Rightarrow> \<not> recently_woke w d sid))
      in (d1, waking \<and> \<not> (is_native_exec_client (ev_client ev) \<and> recently_chain_continued w d1 sid)))"

definition on_prompt_submit :: "world \<Rightarrow> event \<Rightarrow> daemon \<Rightarrow> daemon" where
  "on_prompt_submit w ev d =
     (let sid = ev_session_id ev;
          (d1, waking) = classify_prompt w ev d;
          (s, newly) = upsert_session (dm_store d1) (args_of_event ev) (wd_now w);
          s1 = set_harness_opt sid (ev_harness ev) (set_last_activity s sid (wd_now w));
          s2 = (if waking then fst (clear_pending_deps (bump_pause_epoch s1 sid) sid) else s1);
          d2 = d1\<lparr>dm_store := s2\<rparr>;
          ctx = ctx_from_event ev;
          d3 = (if newly then fire_matching w ctx (FireStart None) d2 else d2);
          d4 = (if waking then fire_matching w ctx FireActivity d3 else d3)
      in cancel_wait sid d4)"

definition on_session_end :: "world \<Rightarrow> event \<Rightarrow> daemon \<Rightarrow> daemon" where
  "on_session_end w ev d =
     fst (close_session_firing_hooks w (ev_session_id ev)
       (case ev_reason ev of Some r \<Rightarrow> r | None \<Rightarrow> ''ended'') (cancel_wait (ev_session_id ev) d))"

definition handle_event :: "world \<Rightarrow> event \<Rightarrow> daemon \<Rightarrow> daemon" where
  "handle_event w ev d0 =
     (let d = touch_busy w d0; sid = ev_session_id ev
      in if ev_event ev \<noteq> EvSessionEnd \<and> is_fork_run_session d sid then d
         else (let d1 = note_session_env sid (ev_env ev) (clear_pending_close sid d)
               in case ev_event ev of
                    EvSessionStart \<Rightarrow> on_session_start w ev d1
                  | EvPromptSubmit \<Rightarrow> on_prompt_submit w ev d1
                  | EvSessionEnd \<Rightarrow> on_session_end w ev d1
                  | EvStop \<Rightarrow> d1))"

end
