(* ===== verification/Requests.thy ===== *)
theory Requests
  imports Daemon
begin

text \<open>
  The rest of \<open>daemon.rs\<close> but the stop-wait: the requests of clients that run forks themselves, the
  spools, external events, lost polls; the reapers of \<open>sweep.rs\<close> and \<open>liveness.rs\<close>; status, listing
  and pruning of \<open>server.rs\<close>.
\<close>

section \<open>Fork runs\<close>

definition handle_fork_spawned :: "world \<Rightarrow> str \<Rightarrow> str \<Rightarrow> str \<Rightarrow> daemon \<Rightarrow> daemon" where
  "handle_fork_spawned w sid fork run_ref d =
     with_store (\<lambda>s. record_spawn s sid run_ref (Some fork) (wd_now w)) (touch_busy w d)"

definition handle_fork_completed :: "world \<Rightarrow> str \<Rightarrow> str \<Rightarrow> str \<Rightarrow> str \<Rightarrow> bool \<Rightarrow> daemon \<Rightarrow> daemon" where
  "handle_fork_completed w sid fork run_ref status cont d0 =
     (let d = touch_busy w d0;
          stale = spawn_is_stale (dm_store d) sid (Some run_ref) None;
          (s, matched, transitioned) = mark_spawn_terminal (dm_store d) sid (Some run_ref) None status (wd_now w);
          d1 = d\<lparr>dm_store := s\<rparr>;
          d2 = (if transitioned then on_fork_terminal w sid fork status cont stale d1 else d1)
      in if stale then nudge sid d2 else cancel_wait sid d2)"

definition handle_run_state :: "world \<Rightarrow> str \<Rightarrow> str \<Rightarrow> daemon \<Rightarrow> daemon \<times> response" where
  "handle_run_state w sid run_ref d =
     (touch_busy w d, RRunState (spawn_is_stale (dm_store d) sid (Some run_ref) None))"

text \<open>\<open>planner::build_wake\<close> and \<open>release_due\<close> note the wake whenever they return a payload.\<close>

definition issue_wake :: "world \<Rightarrow> session_row \<Rightarrow> selected_fork list \<Rightarrow> daemon \<Rightarrow> daemon \<times> (str \<times> wake_fork list) option" where
  "issue_wake w se selected d =
     (case build_wake (env_for w se) (dm_store d) se selected of
        (s, None) \<Rightarrow> (d\<lparr>dm_store := s\<rparr>, None)
      | (s, Some r) \<Rightarrow> (note_wake_issued w (s_session_id se) (d\<lparr>dm_store := s\<rparr>), Some r))"

definition issue_release :: "world \<Rightarrow> session_row \<Rightarrow> daemon \<Rightarrow> daemon \<times> (str \<times> wake_fork list) option" where
  "issue_release w se d =
     (case release_due (env_for w se) (dm_store d) se of
        (s, None) \<Rightarrow> (d\<lparr>dm_store := s\<rparr>, None)
      | (s, Some r) \<Rightarrow> (note_wake_issued w (s_session_id se) (d\<lparr>dm_store := s\<rparr>), Some r))"

definition handle_peek_due :: "world \<Rightarrow> str \<Rightarrow> daemon \<Rightarrow> daemon \<times> response" where
  "handle_peek_due w sid d0 =
     (let d = touch_busy w d0
      in if is_fork_run_session d sid then (d, RDue [])
         else case session_of d sid of
           None \<Rightarrow> (d, RDue [])
         | Some se \<Rightarrow>
            (let (s, sel) = select_forks (env_for w se) (dm_store d) se [MIdle 0] HoldApply
             in case issue_wake w se (filter sf_chain sel) (d\<lparr>dm_store := s\<rparr>) of
                  (d2, Some (payload, forks)) \<Rightarrow> (d2, RDue forks)
                | (d2, None) \<Rightarrow> (d2, RDue [])))"

definition handle_take_final_runs :: "world \<Rightarrow> str \<Rightarrow> daemon \<Rightarrow> daemon \<times> response" where
  "handle_take_final_runs w sid d0 =
     (let d = touch_busy w d0
      in if is_fork_run_session d sid then (d, RDue [])
         else case session_of d sid of
           None \<Rightarrow> (d, RDue [])
         | Some se \<Rightarrow> (let (s, forks) = build_final_runs (env_for w se) (dm_store d) se
                       in (d\<lparr>dm_store := s\<rparr>, RDue forks)))"

section \<open>Spools\<close>

definition handle_spool_report :: "world \<Rightarrow> str \<Rightarrow> str \<Rightarrow> str \<Rightarrow> daemon \<Rightarrow> daemon" where
  "handle_spool_report w sid fork txt d = with_store (\<lambda>s. spool_report s sid fork txt (wd_now w)) (touch_busy w d)"

definition handle_take_wake_blocks :: "str \<Rightarrow> daemon \<Rightarrow> daemon \<times> response" where
  "handle_take_wake_blocks sid d = (let (s, blocks) = take_wake_blocks (dm_store d) sid in (d\<lparr>dm_store := s\<rparr>, RReports blocks))"

definition MAX_FEED_WAIT_MS :: nat where
  "MAX_FEED_WAIT_MS = 10000"

text \<open>The drain may wait for running feeds: \<open>feed_wait_over\<close> says when, after so many milliseconds, it
  stops waiting; \<open>handle_take_reports\<close> is the drain itself.\<close>

definition feed_wait_over :: "daemon \<Rightarrow> str \<Rightarrow> nat option \<Rightarrow> nat \<Rightarrow> bool" where
  "feed_wait_over d key wait_ms waited = (case wait_ms of None \<Rightarrow> True
     | Some ms \<Rightarrow> feed_inflight d key = 0 \<or> waited \<ge> min ms MAX_FEED_WAIT_MS)"

definition handle_take_reports :: "world \<Rightarrow> str \<Rightarrow> daemon \<Rightarrow> daemon \<times> response" where
  "handle_take_reports w sid d0 =
     (let d = touch_busy w d0; (s, blocks) = take_reports (dm_store d) sid
      in (d\<lparr>dm_store := s\<rparr>, RReports blocks))"

section \<open>External events\<close>

definition EXTERNAL_DETAIL_CAP :: nat where
  "EXTERNAL_DETAIL_CAP = 16000"

definition external_moments :: "daemon \<Rightarrow> str \<Rightarrow> fork_moment list" where
  "external_moments d sid = List.map_filter
     (\<lambda>(kind, key, _). map_option (\<lambda>k. MExternal k key) (kind_from_label kind)) (pending_triggers (dm_store d) sid)"

definition emit_reaches :: "path option \<Rightarrow> str option \<Rightarrow> session_row \<Rightarrow> bool" where
  "emit_reaches root sid row \<longleftrightarrow> (case sid of None \<Rightarrow> True | Some i \<Rightarrow> s_session_id row = i)
     \<and> (case root of None \<Rightarrow> True | Some r \<Rightarrow> path_starts_with (s_project_root row) r)"

definition emit_one :: "world \<Rightarrow> str \<Rightarrow> str \<Rightarrow> session_row \<Rightarrow> daemon \<Rightarrow> daemon" where
  "emit_one w name detail row d =
     (let sid = s_session_id row;
          d1 = with_store (\<lambda>s. record_pending_trigger s sid ''event'' name detail EXTERNAL_DETAIL_CAP (wd_now w)) d
      in nudge sid (fire_external w (ctx_from_row row) KEvent name detail d1))"

definition handle_emit :: "world \<Rightarrow> str \<Rightarrow> str option \<Rightarrow> path option \<Rightarrow> str option \<Rightarrow> daemon \<Rightarrow> daemon \<times> response" where
  "handle_emit w name payload root sid d0 =
     (let d = touch_busy w d0;
          detail = (case payload of Some p \<Rightarrow> p | None \<Rightarrow> []);
          hit = filter (emit_reaches root sid) (list_open_sessions (dm_store d))
      in (fold (emit_one w name detail) hit d, REmitted (length hit)))"

section \<open>Lost polls\<close>

text \<open>The connection of a parked poll dropped: the session closes at once if its process is known to be
  gone, else after a grace period unless something cleared the pending close.\<close>

definition on_poll_lost :: "world \<Rightarrow> str \<Rightarrow> daemon \<Rightarrow> daemon" where
  "on_poll_lost w sid d =
     (if harness_gone w d sid then fst (close_session_firing_hooks w sid ''gone'' d)
      else (let gen = close_gen d + 1
            in d\<lparr>close_gen := gen, pending_close := (pending_close d)(sid \<mapsto> gen),
                 grace_timers := grace_timers d @ [(sid, gen)]\<rparr>))"

definition poll_loss_grace_ms :: "world \<Rightarrow> nat" where
  "poll_loss_grace_ms w = (case Option.bind (fs_env (wd_fs w) ''AUTOFORK_POLL_LOSS_GRACE_MS'') parse_u64 of
     Some ms \<Rightarrow> ms | None \<Rightarrow> 90000)"

definition grace_elapsed :: "world \<Rightarrow> str \<times> nat \<Rightarrow> daemon \<Rightarrow> daemon" where
  "grace_elapsed w timer d0 =
     (let (sid, gen) = timer; d = d0\<lparr>grace_timers := remove1 timer (grace_timers d0)\<rparr>
      in if pending_close d sid \<noteq> Some gen then d
         else (let d1 = clear_pending_close sid d
               in if is_open (dm_store d1) sid then fst (close_session_firing_hooks w sid ''lost'' d1) else d1))"

section \<open>Reapers\<close>

definition dead_harness_sessions :: "world \<Rightarrow> daemon \<Rightarrow> (str \<times> int) list" where
  "dead_harness_sessions w d =
     map (\<lambda>s. (s_session_id s, s_last_activity s))
       (filter (\<lambda>s. case s_harness s of None \<Rightarrow> False | Some h \<Rightarrow> \<not> harness_alive w h)
         (list_open_sessions (dm_store d)))"

definition harness_sweep :: "world \<Rightarrow> daemon \<Rightarrow> daemon" where
  "harness_sweep w d =
     fold (\<lambda>(sid, last_activity) d.
         fst (close_session_with_flush w sid ''gone'' (\<not> last_activity < started_at d) d))
       (dead_harness_sessions w d) d"

definition timed_out :: "world \<Rightarrow> session_row \<Rightarrow> bool" where
  "timed_out w s \<longleftrightarrow> \<not> (case s_harness s of None \<Rightarrow> False | Some h \<Rightarrow> harness_alive w h)
     \<and> (let timeout = session_timeout_secs (cfg_for w (Some (s_project_root s)));
            idle = as_u64 (max (i64_sub (wd_now w) (s_last_activity s)) 0)
        in timeout > 0 \<and> idle \<ge> timeout)"

definition session_sweep :: "world \<Rightarrow> daemon \<Rightarrow> daemon" where
  "session_sweep w d =
     fold (\<lambda>s d. fst (close_session_firing_hooks w (s_session_id s) ''timeout'' d))
       (filter (timed_out w) (list_open_sessions (dm_store d))) d"

text \<open>\<open>quiet_reaper\<close>, one look.\<close>

definition quiet_for_good :: "world \<Rightarrow> nat \<Rightarrow> daemon \<Rightarrow> bool" where
  "quiet_for_good w connections d \<longleftrightarrow> connections = 0
     \<and> i64_sub (wd_now w) (last_busy d) \<ge> as_i64 (quiet_period_secs (cfg_for w None))"

definition quiet_sweep :: "world \<Rightarrow> nat \<Rightarrow> daemon \<Rightarrow> daemon" where
  "quiet_sweep w connections d = (if quiet_for_good w connections d then d\<lparr>retiring := True\<rparr> else d)"

definition request_shutdown :: "daemon \<Rightarrow> daemon" where
  "request_shutdown d = d\<lparr>retiring := True\<rparr>"

section \<open>Status, listing, pruning\<close>

definition is_stale :: "world \<Rightarrow> daemon \<Rightarrow> session_row \<Rightarrow> bool" where
  "is_stale w d s = (case s_harness s of
     Some h \<Rightarrow> \<not> harness_alive w h
   | None \<Rightarrow> (let deadline = default_idle_deadline_secs (cfg_for w (Some (s_project_root s)))
             in \<not> is_parked d (s_session_id s) \<and> deadline > 0
                \<and> i64_sub (wd_now w) (s_last_activity s) > wrap_i64 (2 * as_i64 deadline)))"

definition status_name :: "session_status \<Rightarrow> str" where
  "status_name st = (case st of Open \<Rightarrow> ''open'' | Closed \<Rightarrow> ''closed'')"

definition session_info_of :: "session_row \<Rightarrow> str \<Rightarrow> bool \<Rightarrow> session_info" where
  "session_info_of s st stale = \<lparr>si_session_id = s_session_id s, si_project_root = s_project_root s,
     si_status = st, si_last_activity = s_last_activity s, si_prompt_tokens = s_prompt_tokens s, si_stale = stale\<rparr>"

definition status_of :: "world \<Rightarrow> daemon \<Rightarrow> status_info" where
  "status_of w d = (let s = dm_store d in
     \<lparr>st_version = wd_version w, st_daemon_proto = 1, st_pid = wd_pid w,
      st_sessions = map (\<lambda>r. session_info_of r (status_name (s_status r)) (is_stale w d r)) (list_open_sessions s),
      st_recent_runs = map (\<lambda>r. \<lparr>ri_fork = rn_name r, ri_trigger = rn_label r, ri_session_id = rn_session r,
          ri_state = rn_state r, ri_started_at = rn_started_at r\<rparr>) (list_runs s [''issued''] 20),
      st_running = map (\<lambda>(sid, fork, at). \<lparr>ri_fork = fork, ri_trigger = [], ri_session_id = sid,
          ri_state = ''running'', ri_started_at = at\<rparr>)
          (list_live_spawns s (i64_sub (wd_now w) (overlap_spawn_max_age_secs (wd_fs w)))),
      st_recent_closes = map (\<lambda>(sid, reason, at). \<lparr>ci_session_id = sid, ci_reason = reason, ci_closed_at = at\<rparr>)
          (list_recent_closes s 8)\<rparr>)"

definition fork_info_of :: "world \<Rightarrow> str list \<Rightarrow> fork_entry \<Rightarrow> fork_info" where
  "fork_info_of w warnings e = (let d = pf_def (fe_parsed e) in
     \<lparr>ki_name = fe_name e, ki_path = fe_path e, ki_description = fd_description d,
      ki_triggers = map label (fd_run_on d), ki_throttle_secs = fd_throttle_secs d, ki_after = fd_after d,
      ki_priority = fd_priority d, ki_overlap = fd_overlap d, ki_tags = fd_tags d,
      ki_skill = skill_sibling (wd_fs w) (fe_path e), ki_chain = fd_chain d, ki_gate = fd_gate d,
      ki_model = scoped_display (fd_model d), ki_mode = scoped_display (fd_mode d),
      ki_guard = map_option guard_display (fd_guard d), ki_warnings = pf_warnings (fe_parsed e) @ warnings\<rparr>)"

definition list_forks :: "world \<Rightarrow> path \<Rightarrow> fork_info list" where
  "list_forks w cwd =
     (let (entries, warnings) = discover_forks (wd_disk w) (wd_yaml w) cwd (Some (user_forks_root w))
            (claude_dir w) (agents_dir w)
      in map (fork_info_of w warnings) entries)"

definition prune :: "world \<Rightarrow> daemon \<Rightarrow> daemon \<times> response" where
  "prune w d =
     (let stale = filter (is_stale w d) (list_open_sessions (dm_store d))
      in (fold (\<lambda>s d. fst (close_session_firing_hooks w (s_session_id s) ''pruned'' d)) stale d,
          RPruned (map (\<lambda>s. session_info_of s ''closed'' True) stale)))"

end
