(* ===== verification/Stop_Wait.thy ===== *)
theory Stop_Wait
  imports Requests
begin

text \<open>
  \<open>Daemon::handle_stop_wait\<close>, the long poll of a session's Stop hook, cut at its suspension points: the
  entry up to the first evaluation, the subscription to the session's nudges, the timers, the nudges,
  the debounce, the issue of the wake, and the cancellations. A \<open>poll\<close> holds what the function keeps
  across them. A step that resolves the poll returns the response.
\<close>

definition elapsed_moments ::
    "nat option \<Rightarrow> nat \<Rightarrow> int \<Rightarrow> nat list \<Rightarrow> int \<Rightarrow> int option \<Rightarrow> fork_moment list" where
  "elapsed_moments prompt_tokens max_tokens base deadlines up_to pause_started_at =
     (case prompt_tokens of None \<Rightarrow> [] | Some pt \<Rightarrow> [MContext pt (Some max_tokens)])
     @ map MIdle (filter (\<lambda>d. i64_add base (as_i64 d) \<le> up_to) deadlines)
     @ [MTick up_to pause_started_at]"

datatype poll_phase = Entered bool | Waiting nat | Debouncing | Spent

record poll =
  pl_id :: nat
  pl_session :: session_row
  pl_cfg :: config
  pl_prompt_tokens :: "nat option"
  pl_max_tokens :: nat
  pl_baseline :: int
  pl_deadlines :: "nat list"
  pl_idle_hooks :: "(hook_entry \<times> nat) list"
  pl_pause_gate :: "int option"
  pl_instants :: "int list"
  pl_next :: nat
  pl_phase :: poll_phase

abbreviation pl_sid :: "poll \<Rightarrow> str" where
  "pl_sid pl \<equiv> s_session_id (pl_session pl)"

section \<open>Evaluation\<close>

definition all_moments :: "world \<Rightarrow> poll \<Rightarrow> daemon \<Rightarrow> fork_moment list" where
  "all_moments w pl d =
     elapsed_moments (pl_prompt_tokens pl) (pl_max_tokens pl) (pl_baseline pl) (pl_deadlines pl) (wd_now w)
       (pl_pause_gate pl) @ external_moments d (pl_sid pl)"

definition evaluate_poll :: "world \<Rightarrow> poll \<Rightarrow> daemon \<Rightarrow> daemon \<times> selected_fork list" where
  "evaluate_poll w pl d =
     (let (s, sel) = select_forks (env_with w (pl_session pl) (pl_cfg pl)) (dm_store d) (pl_session pl)
                       (all_moments w pl d) HoldApply
      in (d\<lparr>dm_store := s\<rparr>, reserve_fast_path (pl_session pl) sel))"

definition idle_hook_latch :: "int \<Rightarrow> nat \<Rightarrow> str" where
  "idle_hook_latch epoch d = ''hook-idle-pause:'' @ show_int epoch @ '':'' @ show_nat d"

definition fire_idle_hook :: "world \<Rightarrow> poll \<Rightarrow> hook_entry \<times> nat \<Rightarrow> daemon \<Rightarrow> daemon" where
  "fire_idle_hook w pl ed d = (case ed of (entry, secs) \<Rightarrow>
     if i64_add (pl_baseline pl) (as_i64 secs) > wd_now w then d
     else (let (s, fresh) = try_latch_fire (dm_store d) (pl_sid pl) (''hook:'' @ he_name entry)
                 (idle_hook_latch (s_pause_epoch (pl_session pl)) secs) (wd_now w);
               d1 = d\<lparr>dm_store := s\<rparr>
           in if fresh then execute w (ctx_from_row (pl_session pl)) entry ''idle''
                    [(''AUTOFORK_IDLE_SECS'', show_nat secs)] d1
              else d1))"

definition fire_idle_hooks :: "world \<Rightarrow> poll \<Rightarrow> daemon \<Rightarrow> daemon" where
  "fire_idle_hooks w pl d = fold (fire_idle_hook w pl) (pl_idle_hooks pl) d"

definition take_feed_delivery :: "session_row \<Rightarrow> daemon \<Rightarrow> daemon \<times> response option" where
  "take_feed_delivery se d =
     (let sid = s_session_id se;
          (s1, wakes) = (if s_client se \<noteq> Some ''codex'' then take_wake_blocks (dm_store d) sid else (dm_store d, []))
      in if wakes \<noteq> [] then (d\<lparr>dm_store := s1\<rparr>,
             Some (RWake (build_feed_wake_payload wakes) None (Some \<lparr>fw_blocks = wakes, fw_wake = True\<rparr>)))
         else (let (s2, quiet) = (if s_client se = Some ''opencode'' then take_reports s1 sid else (s1, []))
               in (d\<lparr>dm_store := s2\<rparr>, if quiet = [] then None
                   else Some (RWake [] None (Some \<lparr>fw_blocks = quiet, fw_wake = False\<rparr>)))))"

section \<open>Entering\<close>

text \<open>The instants at which the poll looks again: idle deadlines, \<open>every:\<close> intervals, idle hooks, the
  end of a gate's grace, the end of a background hold.\<close>

definition every_instants :: "fork_entry list \<Rightarrow> session_row \<Rightarrow> daemon \<Rightarrow> int list" where
  "every_instants entries se d =
     every_fire_times (map (\<lambda>e. (fe_name e, pf_def (fe_parsed e))) entries)
       (\<lambda>name. Option.bind (find (\<lambda>r. ro_name r = name) (rev (roster (dm_store d) (s_session_id se)))) ro_ran_at)
       (s_created_at se)"

definition gate_instants :: "world \<Rightarrow> session_row \<Rightarrow> daemon \<Rightarrow> int list" where
  "gate_instants w se d = (case s_active_gate se of None \<Rightarrow> []
     | Some g \<Rightarrow> (case last_issued_at (dm_store d) (s_session_id se) g of None \<Rightarrow> []
         | Some at \<Rightarrow> [i64_add (i64_add at (gate_grace_secs (wd_fs w))) 1]))"

definition hold_instants :: "world \<Rightarrow> config \<Rightarrow> bool \<Rightarrow> session_row \<Rightarrow> daemon \<Rightarrow> int list" where
  "hold_instants w cfg waiting se d =
     (if waiting \<and> background_hold_timeout_secs cfg > 0
      then (let timeout = as_i64 (background_hold_timeout_secs cfg)
            in map (\<lambda>at. i64_add (i64_add at timeout) 1)
                 (pending_bg_task_starts (dm_store d) (s_session_id se) (i64_sub (wd_now w) timeout)))
      else [])"

definition fire_instants :: "world \<Rightarrow> poll \<Rightarrow> fork_entry list \<Rightarrow> bool \<Rightarrow> daemon \<Rightarrow> int list" where
  "fire_instants w pl entries waiting d =
     remdups (sort (map (\<lambda>x. i64_add (pl_baseline pl) (as_i64 x)) (pl_deadlines pl)
       @ every_instants entries (pl_session pl) d
       @ map (\<lambda>(_, x). i64_add (pl_baseline pl) (as_i64 x)) (pl_idle_hooks pl)
       @ gate_instants w (pl_session pl) d
       @ hold_instants w (pl_cfg pl) waiting (pl_session pl) d))"

text \<open>The registration of the session, as on any event, and of its gauge.\<close>

definition register_stop :: "world \<Rightarrow> event \<Rightarrow> daemon \<Rightarrow> daemon" where
  "register_stop w ev d =
     (let sid = ev_session_id ev;
          (s, newly) = upsert_session (dm_store d) (args_of_event ev) (wd_now w);
          s1 = set_harness_opt sid (ev_harness ev)
                 (set_window_opt sid (ev_context_window ev) (set_last_activity s sid (wd_now w)));
          d1 = d\<lparr>dm_store := s1\<rparr>
      in if newly then fire_matching w (ctx_from_event ev) (FireStart None) d1 else d1)"

definition stop_gauge :: "world \<Rightarrow> event \<Rightarrow> daemon \<Rightarrow> daemon \<times> nat option" where
  "stop_gauge w ev d = (case ev_context_tokens ev of
     Some gauge \<Rightarrow> (with_store (\<lambda>s. set_prompt_tokens s (ev_session_id ev) gauge) d, Some gauge)
   | None \<Rightarrow> ingest_transcript w ev d)"

text \<open>A new poll takes the session's registration; the poll it replaces is signalled.\<close>

definition register_wait :: "str \<Rightarrow> daemon \<Rightarrow> daemon \<times> nat" where
  "register_wait sid d0 =
     (let d = cancel_wait sid d0; p = next_poll d
      in (park sid (d\<lparr>waits := (waits d)(sid \<mapsto> p), next_poll := p + 1\<rparr>), p))"

definition make_poll :: "world \<Rightarrow> event \<Rightarrow> nat \<Rightarrow> nat option \<Rightarrow> config \<Rightarrow> bool \<Rightarrow> session_row \<Rightarrow> daemon \<Rightarrow> poll" where
  "make_poll w ev p prompt_tokens cfg waiting se d =
     (let client_busy = (ev_busy ev = Some True);
          busy = (client_busy \<or> (waiting \<and> background_hold cfg));
          baseline = (case s_pause_started_at se of Some t \<Rightarrow> t | None \<Rightarrow> wd_now w);
          entries = forks_for w (s_cwd se);
          deadlines = (if client_busy then []
             else idle_deadlines (map (\<lambda>e. pf_def (fe_parsed e)) entries) (default_idle_deadline_secs cfg));
          idle_hooks = (if busy then [] else idle_hook_deadlines (hooks_for w (s_cwd se)) (default_idle_deadline_secs cfg));
          pl = \<lparr>pl_id = p, pl_session = se, pl_cfg = cfg, pl_prompt_tokens = prompt_tokens,
             pl_max_tokens = resolve_context_window (s_model se) prompt_tokens (s_context_window se),
             pl_baseline = baseline, pl_deadlines = deadlines, pl_idle_hooks = idle_hooks,
             pl_pause_gate = (if busy then None else Some baseline), pl_instants = [], pl_next = 0,
             pl_phase = Entered False\<rparr>
      in pl\<lparr>pl_instants := fire_instants w pl entries waiting d\<rparr>)"

datatype entry = Answered response | Parked poll

definition unpark_answer :: "str \<Rightarrow> response \<Rightarrow> daemon \<Rightarrow> daemon \<times> entry" where
  "unpark_answer sid r d = (unpark sid d, Answered r)"

definition enter_registered :: "world \<Rightarrow> event \<Rightarrow> daemon \<Rightarrow> daemon \<times> entry" where
  "enter_registered w ev d0 =
     (let sid = ev_session_id ev; client_busy = (ev_busy ev = Some True);
          (d1, prompt_tokens) = stop_gauge w ev (register_stop w ev d0);
          cfg = cfg_for w (Some (ev_project_root ev));
          waiting = (\<not> client_busy \<and> pending_background (dm_store d1) sid cfg (wd_now w));
          d2 = (if client_busy then d1 else with_store (\<lambda>s. set_pause_started_at_if_unset s sid (wd_now w)) d1);
          (d3, p) = register_wait sid d2
      in case session_of d3 sid of
           None \<Rightarrow> unpark_answer sid RWaited d3
         | Some se \<Rightarrow> (case take_feed_delivery se d3 of
             (d4, Some r) \<Rightarrow> unpark_answer sid r d4
           | (d4, None) \<Rightarrow> (case issue_release w se d4 of
               (d5, Some (payload, forks)) \<Rightarrow> unpark_answer sid (RWake payload (Some forks) None) d5
             | (d5, None) \<Rightarrow>
                 (let pl = make_poll w ev p prompt_tokens cfg waiting se d5;
                      (d6, sel) = evaluate_poll w pl (fire_idle_hooks w pl d5)
                  in (d6, Parked (pl\<lparr>pl_phase := Entered (sel \<noteq> [])\<rparr>))))))"

definition enter_stop_wait :: "world \<Rightarrow> event \<Rightarrow> daemon \<Rightarrow> daemon \<times> entry" where
  "enter_stop_wait w ev d0 =
     (let d = touch_busy w d0; sid = ev_session_id ev
      in if is_fork_run_session d sid then (d, Answered RWaited)
         else if (case ev_harness ev of None \<Rightarrow> False | Some h \<Rightarrow> \<not> harness_alive w h)
         then (fst (close_session_firing_hooks w sid ''gone'' d), Answered RWaited)
         else enter_registered w ev (note_session_env sid (ev_env ev) (clear_pending_close sid d)))"

section \<open>Parked\<close>

datatype poll_result = Resolved response | Still poll

text \<open>Once something is due: debounce, or issue at once if there is no debounce.\<close>

definition issue_poll :: "world \<Rightarrow> poll \<Rightarrow> daemon \<Rightarrow> daemon \<times> poll_result" where
  "issue_poll w pl d =
     (let (d1, sel) = evaluate_poll w pl d
      in case issue_wake w (pl_session pl) sel d1 of
           (d2, Some (payload, forks)) \<Rightarrow> (unpark (pl_sid pl) d2, Resolved (RWake payload (Some forks) None))
         | (d2, None) \<Rightarrow> (d2, Still (pl\<lparr>pl_phase := Spent\<rparr>)))"

definition due_poll :: "world \<Rightarrow> poll \<Rightarrow> daemon \<Rightarrow> daemon \<times> poll_result" where
  "due_poll w pl d = (if wake_debounce_secs (pl_cfg pl) > 0 then (d, Still (pl\<lparr>pl_phase := Debouncing\<rparr>))
     else issue_poll w pl d)"

definition subscribe_poll :: "world \<Rightarrow> poll \<Rightarrow> daemon \<Rightarrow> daemon \<times> poll_result" where
  "subscribe_poll w pl d = (if pl_phase pl = Entered True then due_poll w pl d
     else (d, Still (pl\<lparr>pl_phase := Waiting (nudges d (pl_sid pl))\<rparr>)))"

text \<open>The timer of the next instant; \<open>timer_ready\<close> says when it rings.\<close>

definition timer_ready :: "world \<Rightarrow> poll \<Rightarrow> bool" where
  "timer_ready w pl \<longleftrightarrow> pl_next pl < length (pl_instants pl) \<and> pl_instants pl ! pl_next pl \<le> wd_now w"

definition timer_poll :: "world \<Rightarrow> poll \<Rightarrow> daemon \<Rightarrow> daemon \<times> poll_result" where
  "timer_poll w pl0 d0 =
     (let pl = pl0\<lparr>pl_next := pl_next pl0 + 1\<rparr>; (d, sel) = evaluate_poll w pl (fire_idle_hooks w pl d0)
      in if sel \<noteq> [] then due_poll w pl d else (d, Still pl))"

definition nudge_poll :: "world \<Rightarrow> poll \<Rightarrow> daemon \<Rightarrow> daemon \<times> poll_result" where
  "nudge_poll w pl0 d0 =
     (let pl = pl0\<lparr>pl_phase := Waiting (nudges d0 (pl_sid pl0))\<rparr>
      in case take_feed_delivery (pl_session pl) d0 of
           (d1, Some r) \<Rightarrow> (unpark (pl_sid pl) d1, Resolved r)
         | (d1, None) \<Rightarrow> (let (d2, sel) = evaluate_poll w pl d1
                         in if sel \<noteq> [] then due_poll w pl d2 else (d2, Still pl)))"

text \<open>A signal on the poll's channel, or the daemon retiring.\<close>

definition cancel_ready :: "poll \<Rightarrow> daemon \<Rightarrow> bool" where
  "cancel_ready pl d \<longleftrightarrow> pl_id pl \<in> set (signalled d) \<or> retiring d"

definition cancel_poll :: "poll \<Rightarrow> daemon \<Rightarrow> daemon \<times> poll_result" where
  "cancel_poll pl d = (unpark (pl_sid pl) d, Resolved RWaited)"

text \<open>The connection drops before the answer: the guard is released and the loss handled.\<close>

definition lose_poll :: "world \<Rightarrow> poll \<Rightarrow> daemon \<Rightarrow> daemon" where
  "lose_poll w pl d = on_poll_lost w (pl_sid pl) (unpark (pl_sid pl) d)"

end
