(* ===== verification/Watch.thy ===== *)
theory Watch
  imports Requests "HOL-Library.AList"
begin

text \<open>
  \<open>autofork-daemon/src/watch.rs\<close>: the poller behind \<open>changed:\<close> triggers. A \<open>watch_env\<close> holds what a
  sweep asks the operating system beside the \<open>world\<close>: whether a directory entry is itself a directory
  (\<open>DirEntry::file_type\<close>, links not followed), the modification time and size of a file, and the order
  in which a \<open>HashMap\<close> yields its keys, which Rust leaves open. A registry is the list of its
  subscribers, each beside its absolute pattern, in the order they are pushed.
\<close>

record watch_env =
  we_is_dir :: "path \<Rightarrow> bool"
  we_stat :: "path \<Rightarrow> (nat option \<times> nat) option"
  we_keys :: "str list \<Rightarrow> str list"

definition MAX_WALK_DEPTH :: nat where
  "MAX_WALK_DEPTH = 24"

definition SKIP_DIRS :: "str list" where
  "SKIP_DIRS = [''.git'', ''node_modules'', ''target'', ''.venv'', ''__pycache__'']"

record subscriber =
  sb_session :: session_row
  sb_raw :: str
  sb_forks :: bool
  sb_hooks :: bool

type_synonym file_id = "nat \<times> nat"
type_synonym stat_map = "(str \<times> file_id) list"

record watcher =
  wt_snapshots :: "str \<rightharpoonup> stat_map"
  wt_pending :: "str \<rightharpoonup> str list \<times> int"
  wt_warned :: "str set"

definition watcher_default :: watcher where
  "watcher_default = \<lparr>wt_snapshots = Map.empty, wt_pending = Map.empty, wt_warned = {}\<rparr>"

section \<open>Scanning\<close>

definition file_id_of :: "watch_env \<Rightarrow> path \<Rightarrow> file_id option" where
  "file_id_of we p = map_option (\<lambda>(mtime, len). (case mtime of None \<Rightarrow> 0 | Some nanos \<Rightarrow> nanos, len)) (we_stat we p)"

text \<open>\<open>walk\<close>, on the levels that are left below \<open>MAX_WALK_DEPTH\<close>. Once the cap is reached every further
  entry only raises the flag, so the early returns are skipped entries.\<close>

definition walk_entry :: "(path \<Rightarrow> stat_map \<times> bool \<Rightarrow> stat_map \<times> bool) \<Rightarrow> watch_env \<Rightarrow> str \<Rightarrow> nat \<Rightarrow> path
    \<Rightarrow> stat_map \<times> bool \<Rightarrow> str \<Rightarrow> stat_map \<times> bool" where
  "walk_entry below we pattern cap dir acc name =
     (let p = path_join dir name
      in if length (fst acc) \<ge> cap then (fst acc, True)
         else if \<not> valid_utf8 name then acc
         else if we_is_dir we p then (if name \<in> set SKIP_DIRS then acc else below p acc)
         else if glob_matches pattern (slashes False p)
         then (case file_id_of we p of None \<Rightarrow> acc | Some i \<Rightarrow> (AList.update (slashes False p) i (fst acc), snd acc))
         else acc)"

primrec walk_dir :: "nat \<Rightarrow> watch_env \<Rightarrow> disk \<Rightarrow> str \<Rightarrow> nat \<Rightarrow> path \<Rightarrow> stat_map \<times> bool \<Rightarrow> stat_map \<times> bool" where
  "walk_dir 0 we dk pattern cap dir acc = (fst acc, snd acc \<or> length (fst acc) \<ge> cap)"
| "walk_dir (Suc levels) we dk pattern cap dir acc =
     (if length (fst acc) \<ge> cap then (fst acc, True)
      else case dk_list dk dir of None \<Rightarrow> acc
      | Some names \<Rightarrow> foldl (walk_entry (walk_dir levels we dk pattern cap) we pattern cap dir) acc names)"

definition scan_pattern :: "watch_env \<Rightarrow> disk \<Rightarrow> str \<Rightarrow> nat \<Rightarrow> stat_map \<times> bool" where
  "scan_pattern we dk pattern0 cap =
     (let pattern = slashes False pattern0; root = literal_prefix pattern
      in if \<not> has_wildcard pattern
         then (case file_id_of we root of None \<Rightarrow> ([], False) | Some i \<Rightarrow> ([(slashes False root, i)], False))
         else walk_dir (Suc MAX_WALK_DEPTH) we dk pattern cap root ([], False))"

definition diff_stat :: "stat_map \<Rightarrow> stat_map \<Rightarrow> str list" where
  "diff_stat prev nxt =
     sort (map fst (filter (\<lambda>(p, i). map_of prev p \<noteq> Some i) nxt)
       @ filter (\<lambda>p. map_of nxt p = None) (map fst prev))"

section \<open>The registry\<close>

definition fork_patterns :: "world \<Rightarrow> session_row \<Rightarrow> str list" where
  "fork_patterns w row = List.map_filter (\<lambda>r. case r of Changed pattern \<Rightarrow> Some pattern | _ \<Rightarrow> None)
     (concat (map (\<lambda>e. fd_run_on (pf_def (fe_parsed e))) (forks_for w (s_cwd row))))"

definition hook_patterns :: "world \<Rightarrow> session_row \<Rightarrow> str list" where
  "hook_patterns w row = List.map_filter (\<lambda>on. case on of HChanged pattern \<Rightarrow> Some pattern | _ \<Rightarrow> None)
     (concat (map (\<lambda>e. hd_on (ph_def (he_parsed e)))
       (filter (\<lambda>e. hd_command (ph_def (he_parsed e)) \<noteq> []) (hooks_for w (s_cwd row)))))"

definition subscribers_of :: "world \<Rightarrow> watch_env \<Rightarrow> session_row \<Rightarrow> (str \<times> subscriber) list" where
  "subscribers_of w we row =
     (let forks = fork_patterns w row; hooks = hook_patterns w row
      in map (\<lambda>raw. (absolutize raw (s_project_root row) (home_dir (wd_fs w)),
           \<lparr>sb_session = row, sb_raw = raw, sb_forks = raw \<in> set forks, sb_hooks = raw \<in> set hooks\<rparr>))
         (we_keys we (remdups (forks @ hooks))))"

definition build_registry :: "world \<Rightarrow> watch_env \<Rightarrow> daemon \<Rightarrow> (str \<times> subscriber) list" where
  "build_registry w we d = concat (map (subscribers_of w we) (list_open_sessions (dm_store d)))"

definition registry_keys :: "watch_env \<Rightarrow> (str \<times> subscriber) list \<Rightarrow> str list" where
  "registry_keys we reg = we_keys we (remdups (map fst reg))"

definition registry_get :: "(str \<times> subscriber) list \<Rightarrow> str \<Rightarrow> subscriber list" where
  "registry_get reg pattern = map snd (filter (\<lambda>(k, _). k = pattern) reg)"

section \<open>One sweep\<close>

text \<open>\<open>dispatch\<close>, for one subscriber.\<close>

definition deliver_change :: "world \<Rightarrow> str list \<Rightarrow> subscriber \<Rightarrow> daemon \<Rightarrow> daemon" where
  "deliver_change w paths sub d =
     (let sid = s_session_id (sb_session sub); detail = join_with [nl] paths;
          d1 = (if sb_forks sub then with_store (\<lambda>s. record_pending_trigger s sid (kind_label KChanged) (sb_raw sub)
                  detail EXTERNAL_DETAIL_CAP (wd_now w)) d else d);
          d2 = (if sb_hooks sub then fire_external w (ctx_from_row (sb_session sub)) KChanged (sb_raw sub) detail d1 else d1)
      in nudge sid d2)"

definition drop_unwatched :: "(str \<times> subscriber) list \<Rightarrow> watcher \<Rightarrow> watcher" where
  "drop_unwatched reg wt =
     wt\<lparr>wt_snapshots := (\<lambda>k. if k \<in> fst ` set reg then wt_snapshots wt k else None),
           wt_pending := (\<lambda>k. if k \<in> fst ` set reg then wt_pending wt k else None)\<rparr>"

text \<open>What a scan adds to the burst of its pattern.\<close>

definition grow_burst :: "int \<Rightarrow> int \<Rightarrow> str list \<Rightarrow> (str list \<times> int) option \<Rightarrow> str list \<times> int" where
  "grow_burst t debounce changed burst =
     (let (paths, started) = (case burst of None \<Rightarrow> ([], t) | Some b \<Rightarrow> b)
      in (foldl push_new paths changed,
          if i64_sub t started > wrap_i64 (2 * debounce) then i64_sub t debounce else started))"

definition note_scan :: "int \<Rightarrow> int \<Rightarrow> str \<Rightarrow> stat_map \<Rightarrow> watcher \<Rightarrow> watcher" where
  "note_scan t debounce pattern snap wt = (case wt_snapshots wt pattern of
     None \<Rightarrow> wt\<lparr>wt_snapshots := (wt_snapshots wt)(pattern \<mapsto> snap)\<rparr>
   | Some prev \<Rightarrow>
       (let changed = diff_stat prev snap; wt1 = wt\<lparr>wt_snapshots := (wt_snapshots wt)(pattern \<mapsto> snap)\<rparr>
        in if changed = [] then wt1
           else wt1\<lparr>wt_pending := (wt_pending wt)(pattern \<mapsto> grow_burst t debounce changed (wt_pending wt pattern))\<rparr>))"

definition scan_one :: "world \<Rightarrow> watch_env \<Rightarrow> config \<Rightarrow> str \<Rightarrow> watcher \<Rightarrow> watcher" where
  "scan_one w we cfg pattern wt =
     (let (snap, truncated) = scan_pattern we (wd_disk w) pattern (watch_max_files cfg);
          wt1 = (if truncated then wt\<lparr>wt_warned := insert pattern (wt_warned wt)\<rparr> else wt)
      in note_scan (wd_now w) (as_i64 (watch_debounce_secs cfg)) pattern snap wt1)"

definition burst_settled :: "int \<Rightarrow> int \<Rightarrow> (str list \<times> int) option \<Rightarrow> bool" where
  "burst_settled t debounce burst = (case burst of None \<Rightarrow> False | Some (_, started) \<Rightarrow> i64_sub t started \<ge> debounce)"

definition settled_patterns :: "world \<Rightarrow> watch_env \<Rightarrow> config \<Rightarrow> (str \<times> subscriber) list \<Rightarrow> watcher \<Rightarrow> str list" where
  "settled_patterns w we cfg reg wt =
     filter (\<lambda>k. burst_settled (wd_now w) (as_i64 (watch_debounce_secs cfg)) (wt_pending wt k)) (registry_keys we reg)"

definition fire_burst :: "world \<Rightarrow> (str \<times> subscriber) list \<Rightarrow> str \<Rightarrow> daemon \<times> watcher \<Rightarrow> daemon \<times> watcher" where
  "fire_burst w reg pattern acc = (case acc of (d, wt) \<Rightarrow>
     (case wt_pending wt pattern of None \<Rightarrow> (d, wt)
      | Some (paths, _) \<Rightarrow> (fold (deliver_change w paths) (registry_get reg pattern) d,
          wt\<lparr>wt_pending := (wt_pending wt)(pattern := None)\<rparr>)))"

definition watch_sweep :: "world \<Rightarrow> watch_env \<Rightarrow> config \<Rightarrow> daemon \<times> watcher \<Rightarrow> daemon \<times> watcher" where
  "watch_sweep w we cfg acc = (case acc of (d, wt) \<Rightarrow>
     (let reg = build_registry w we d;
          wt1 = fold (scan_one w we cfg) (registry_keys we reg) (drop_unwatched reg wt)
      in fold (fire_burst w reg) (settled_patterns w we cfg reg wt1) (d, wt1)))"

text \<open>One turn of \<open>watch_loop\<close>.\<close>

definition watch_turn :: "world \<Rightarrow> watch_env \<Rightarrow> daemon \<times> watcher \<Rightarrow> daemon \<times> watcher" where
  "watch_turn w we acc = (let cfg = cfg_for w None in if watch_interval_secs cfg = 0 then acc else watch_sweep w we cfg acc)"

end
