(* ===== verification/System.thy ===== *)
theory System
  imports Stop_Wait Watch
begin

text \<open>
  The running daemon: its state, the polls that are parked, and one step relation for everything that
  can happen next. A request, the entry of a stop-wait, a suspended poll that goes on or loses its
  connection, a hook command that ends, a grace timer, a sweep of a reaper, a settled change handed to
  a subscriber of the watcher. Each step may see any world,
  so files, clock and processes change freely between steps.
\<close>

section \<open>Requests\<close>

text \<open>\<open>server::dispatch\<close>. \<open>handle_conn\<close> takes a stop-wait before it gets here.\<close>

definition acked :: "daemon \<Rightarrow> daemon \<times> response" where
  "acked d = (d, RAck)"

primrec dispatch :: "world \<Rightarrow> request \<Rightarrow> daemon \<Rightarrow> daemon \<times> response" where
  "dispatch w (Hello v) d = (touch_busy w d, RHello (wd_version w))"
| "dispatch w (Event ev) d = acked (handle_event w ev (touch_busy w d))"
| "dispatch w (StopWait ev) d = (touch_busy w d, RWaited)"
| "dispatch w Status d = (touch_busy w d, RStatus (status_of w (touch_busy w d)))"
| "dispatch w (ListForks root cwd) d = (touch_busy w d, RForkList (list_forks w cwd))"
| "dispatch w Prune d = prune w (touch_busy w d)"
| "dispatch w (ForkSpawned sid fork run_ref) d = acked (handle_fork_spawned w sid fork run_ref (touch_busy w d))"
| "dispatch w (ForkCompleted sid fork run_ref status cont) d =
     acked (handle_fork_completed w sid fork run_ref status (cont = Some True) (touch_busy w d))"
| "dispatch w (PeekDue sid) d = handle_peek_due w sid (touch_busy w d)"
| "dispatch w (SpoolReportReq sid fork txt) d = acked (handle_spool_report w sid fork txt (touch_busy w d))"
| "dispatch w (RunStateReq sid run_ref) d = handle_run_state w sid run_ref (touch_busy w d)"
| "dispatch w (TakeReportsReq sid wait_ms) d = handle_take_reports w sid (touch_busy w d)"
| "dispatch w (TakeFinalRuns sid) d = handle_take_final_runs w sid (touch_busy w d)"
| "dispatch w (Emit name payload root sid) d = handle_emit w name payload root sid (touch_busy w d)"
| "dispatch w (TakeWakeBlocksReq sid) d = handle_take_wake_blocks sid (touch_busy w d)"
| "dispatch w (Shutdown drain) d = acked (request_shutdown (touch_busy w d))"

definition is_stop_wait :: "request \<Rightarrow> bool" where
  "is_stop_wait r = (case r of StopWait _ \<Rightarrow> True | _ \<Rightarrow> False)"

text \<open>\<open>handle_conn\<close>: every frame but the shutdown needs the daemon's protocol version.\<close>

definition PROTO_VERSION :: nat where
  "PROTO_VERSION = 1"

definition answer_frame :: "world \<Rightarrow> nat \<Rightarrow> request \<Rightarrow> daemon \<Rightarrow> daemon \<times> response" where
  "answer_frame w proto r d =
     (if proto \<noteq> PROTO_VERSION \<and> \<not> (case r of Shutdown _ \<Rightarrow> True | _ \<Rightarrow> False)
      then (d, RError ProtoMismatch (''daemon speaks proto '' @ show_nat PROTO_VERSION @ '', client sent '' @ show_nat proto))
      else dispatch w r d)"

section \<open>Steps\<close>

record system =
  sy_daemon :: daemon
  sy_polls :: "poll list"

definition system_new :: "store \<Rightarrow> int \<Rightarrow> system" where
  "system_new s now = \<lparr>sy_daemon = daemon_new s now, sy_polls = []\<rparr>"

datatype poll_act = Subscribe | Timer | Nudged | Debounced | Cancel

definition poll_enabled :: "world \<Rightarrow> poll_act \<Rightarrow> poll \<Rightarrow> daemon \<Rightarrow> bool" where
  "poll_enabled w a pl d = (case a of
     Subscribe \<Rightarrow> (case pl_phase pl of Entered _ \<Rightarrow> True | _ \<Rightarrow> False)
   | Timer \<Rightarrow> (case pl_phase pl of Waiting _ \<Rightarrow> timer_ready w pl | _ \<Rightarrow> False)
   | Nudged \<Rightarrow> (case pl_phase pl of Waiting seen \<Rightarrow> nudges d (pl_sid pl) \<noteq> seen | _ \<Rightarrow> False)
   | Debounced \<Rightarrow> pl_phase pl = Debouncing
   | Cancel \<Rightarrow> (case pl_phase pl of Entered _ \<Rightarrow> False | _ \<Rightarrow> cancel_ready pl d))"

definition poll_act_of :: "world \<Rightarrow> poll_act \<Rightarrow> poll \<Rightarrow> daemon \<Rightarrow> daemon \<times> poll_result" where
  "poll_act_of w a pl d = (case a of
     Subscribe \<Rightarrow> subscribe_poll w pl d
   | Timer \<Rightarrow> timer_poll w pl d
   | Nudged \<Rightarrow> nudge_poll w pl d
   | Debounced \<Rightarrow> issue_poll w pl d
   | Cancel \<Rightarrow> cancel_poll pl d)"

definition put_poll :: "poll \<Rightarrow> poll_result \<Rightarrow> poll list \<Rightarrow> poll list" where
  "put_poll pl r ps = (case r of
     Resolved _ \<Rightarrow> filter (\<lambda>q. pl_id q \<noteq> pl_id pl) ps
   | Still pl' \<Rightarrow> map (\<lambda>q. if pl_id q = pl_id pl then pl' else q) ps)"

inductive sys_step :: "system \<Rightarrow> system \<Rightarrow> bool" where
  request: "\<not> is_stop_wait r \<Longrightarrow> sys_step \<lparr>sy_daemon = d, sy_polls = ps\<rparr>
     \<lparr>sy_daemon = fst (answer_frame w proto r d), sy_polls = ps\<rparr>"
| enter: "enter_stop_wait w ev d = (d', Parked pl) \<Longrightarrow>
     sys_step \<lparr>sy_daemon = d, sy_polls = ps\<rparr> \<lparr>sy_daemon = d', sy_polls = ps @ [pl]\<rparr>"
| enter_answered: "enter_stop_wait w ev d = (d', Answered r) \<Longrightarrow>
     sys_step \<lparr>sy_daemon = d, sy_polls = ps\<rparr> \<lparr>sy_daemon = d', sy_polls = ps\<rparr>"
| poll: "pl \<in> set ps \<Longrightarrow> poll_enabled w a pl d \<Longrightarrow> poll_act_of w a pl d = (d', r) \<Longrightarrow>
     sys_step \<lparr>sy_daemon = d, sy_polls = ps\<rparr> \<lparr>sy_daemon = d', sy_polls = put_poll pl r ps\<rparr>"
| lost: "pl \<in> set ps \<Longrightarrow> sys_step \<lparr>sy_daemon = d, sy_polls = ps\<rparr>
     \<lparr>sy_daemon = lose_poll w pl d, sy_polls = filter (\<lambda>q. pl_id q \<noteq> pl_id pl) ps\<rparr>"
| job: "j \<in> set (hook_jobs d) \<Longrightarrow> sys_step \<lparr>sy_daemon = d, sy_polls = ps\<rparr>
     \<lparr>sy_daemon = job_finished w j e d, sy_polls = ps\<rparr>"
| grace: "t \<in> set (grace_timers d) \<Longrightarrow> sys_step \<lparr>sy_daemon = d, sy_polls = ps\<rparr>
     \<lparr>sy_daemon = grace_elapsed w t d, sy_polls = ps\<rparr>"
| harness_sweep: "sys_step \<lparr>sy_daemon = d, sy_polls = ps\<rparr> \<lparr>sy_daemon = harness_sweep w d, sy_polls = ps\<rparr>"
| session_sweep: "sys_step \<lparr>sy_daemon = d, sy_polls = ps\<rparr> \<lparr>sy_daemon = session_sweep w d, sy_polls = ps\<rparr>"
| quiet_sweep: "sys_step \<lparr>sy_daemon = d, sy_polls = ps\<rparr> \<lparr>sy_daemon = quiet_sweep w n d, sy_polls = ps\<rparr>"
| watched: "sys_step \<lparr>sy_daemon = d, sy_polls = ps\<rparr> \<lparr>sy_daemon = deliver_change w paths sub d, sy_polls = ps\<rparr>"

end
