(* ===== verification/Daemon_Frames.thy ===== *)
theory Daemon_Frames
  imports System
begin

text \<open>
  What the handlers can change. \<open>runs P s s'\<close>: the store went from \<open>s\<close> to \<open>s'\<close> by operations that
  satisfy \<open>P\<close>, so every law of \<open>Store_Laws\<close> about runs applies; \<open>quiet P d d'\<close>: besides, the
  bookkeeping of polls and pending closes is untouched and the feed counters stay right. Both are
  preorders, and the folds the handlers are made of preserve any preorder.
\<close>

locale preorder_frame =
  fixes le :: "'a \<Rightarrow> 'a \<Rightarrow> bool"
  assumes refl: "le a a" and trans: "le a b \<Longrightarrow> le b c \<Longrightarrow> le a c"
begin

lemma foldl_le: "(\<And>a x. x \<in> set xs \<Longrightarrow> le a (f a x)) \<Longrightarrow> le a (foldl f a xs)"
proof (induction xs arbitrary: a)
  case (Cons x xs)
  have "le a (f a x)" using Cons.prems by simp
  moreover have "le (f a x) (foldl f (f a x) xs)" using Cons by simp
  ultimately show ?case using trans[of a "f a x"] by simp
qed (simp add: refl)

lemma fold_le: "(\<And>a x. x \<in> set xs \<Longrightarrow> le a (f x a)) \<Longrightarrow> le a (fold f xs a)"
  using foldl_le[of xs "\<lambda>a x. f x a" a] by (simp add: foldl_conv_fold)

end

section \<open>Runs of store operations\<close>

definition runs :: "(store_op \<Rightarrow> bool) \<Rightarrow> store \<Rightarrow> store \<Rightarrow> bool" where
  "runs P s s' \<longleftrightarrow> (\<exists>ops. list_all P ops \<and> s' = store_run s ops)"

lemma runs_ops: "list_all P ops \<Longrightarrow> runs P s (store_run s ops)"
  by (auto simp: runs_def)

lemma runs_refl [simp]: "runs P s s"
  using runs_ops[of P "[]" s] by simp

lemma runs_trans: "runs P s s' \<Longrightarrow> runs P s' s'' \<Longrightarrow> runs P s s''"
  unfolding runs_def by (metis foldl_append list_all_append)

lemma runs_mono: "runs P s s' \<Longrightarrow> (\<And>op. P op \<Longrightarrow> Q op) \<Longrightarrow> runs Q s s'"
  unfolding runs_def list_all_iff by blast

lemma runs_op: "P op \<Longrightarrow> runs P s (store_step s op)"
  using runs_ops[of P "[op]" s] by simp

lemma runs_then: "runs P s s' \<Longrightarrow> P op \<Longrightarrow> runs P s (store_step s' op)"
  using runs_trans runs_op by blast

interpretation rn: preorder_frame "runs P" for P
  by unfold_locales (simp, rule runs_trans)

interpretation rnp: preorder_frame "\<lambda>a b. runs P (fst a) (fst b)" for P
  by unfold_locales (simp, rule runs_trans)

text \<open>Operations that neither open nor close a session nor start a pause.\<close>

definition plain :: "store_op \<Rightarrow> bool" where
  "plain op = (case op of UpsertSession _ _ \<Rightarrow> False | CloseSession _ _ _ \<Rightarrow> False | BumpPauseEpoch _ \<Rightarrow> False | _ \<Rightarrow> True)"

lemma plain_simps [simp]:
  "plain (ClearPauseBaseline a)" "plain (SetActiveGate a b)" "plain (ClearActiveGate a)" "plain (SetPauseStarted a t)"
  "plain (SetHarness a h)" "plain (SetLastActivity a t)" "plain (SetPromptTokens a n)" "plain (SetContextWindow a n)"
  "plain (SetTranscriptGauge a n m)" "plain (TryClaimFinalFlush a t)" "plain (RecordPendingTrigger a b c e n t)"
  "plain (ClearPendingTrigger a b c)" "plain (SpoolWakeBlock a b c t)" "plain (TakeWakeBlocks a)"
  "plain (SpoolReport a b c t)" "plain (TakeReports a)" "plain (StampHookRun a b t)" "plain (FeedHashChanged a b c)"
  "plain (QueueFork a b c t)" "plain (TouchForkRan a b t)" "plain (TryLatchFire a b c t)" "plain (RearmIdleLatch a b t)"
  "plain (RecordIssuedRun a b c f t)" "plain (RecordSpawn a b f t)" "plain (SetSpawnTaskId a b c)"
  "plain (MarkSpawnTerminal a f g b t)" "plain (RecordBgTask a b c t)" "plain (MarkBgTaskTerminal a f g t)"
  "plain (InsertPendingDep a p)" "plain (DeletePendingDep a b)" "plain (ClearPendingDeps a)"
  "\<not> plain (UpsertSession x t)" "\<not> plain (CloseSession a b t)" "\<not> plain (BumpPauseEpoch a)"
  by (simp_all add: plain_def)

lemma plain_edges: "plain op \<Longrightarrow> \<not> bumps sid s op \<and> \<not> opens sid s op \<and> \<not> ends sid s op"
  by (cases op) (simp_all add: bumps_def opens_def ends_def)

text \<open>The part of a session that plain operations leave alone.\<close>

definition life :: "store \<Rightarrow> str \<Rightarrow> (bool \<times> int) option" where
  "life s sid = map_option (\<lambda>r. (se_status r = Open, se_pause_epoch r)) (session_rec_of s sid)"

lemma life_step: "store_ok s \<Longrightarrow> plain op \<Longrightarrow> life (store_step s op) sid = life s sid"
proof -
  assume ok: "store_ok s" and p: "plain op"
  show ?thesis
  proof (cases "session_rec_of s sid")
    case None
    then show ?thesis using session_step_None[OF None, of op] plain_edges[OF p, of sid s]
      by (auto simp: life_def split: option.splits)
  next
    case (Some r)
    then show ?thesis using session_step_Some[OF ok Some, of op] plain_edges[OF p, of sid s]
      by (auto simp: life_def)
  qed
qed

lemma runs_ok: "runs P s s' \<Longrightarrow> store_ok s \<Longrightarrow> store_ok s'"
  by (auto simp: runs_def intro: store_ok_run)

lemma runs_life: "runs plain s s' \<Longrightarrow> store_ok s \<Longrightarrow> life s' sid = life s sid"
proof -
  have "list_all plain ops \<Longrightarrow> store_ok s \<Longrightarrow> life (store_run s ops) sid = life s sid" for ops
    by (induction ops arbitrary: s) (simp_all add: store_ok_step life_step)
  then show "runs plain s s' \<Longrightarrow> store_ok s \<Longrightarrow> life s' sid = life s sid" by (auto simp: runs_def)
qed

lemma life_open: "is_open s sid \<longleftrightarrow> (\<exists>e. life s sid = Some (True, e))"
  by (auto simp: is_open_def life_def split: option.splits)

text \<open>What the planner does to the store.\<close>

lemma refresh_runs: "runs plain s (refresh_roster env s sid)"
  unfolding refresh_roster_run by (rule runs_ops) (simp add: list_all_iff)

lemma select_runs: "runs plain s (fst (select_forks env s se ms hold))"
proof -
  have gate: "runs plain s (fst (apply_gate_filter env s sid sel))" for s sid sel
    using runs_op[of plain "ClearActiveGate sid" s] by (simp add: apply_gate_filter_def split: option.split)
  show ?thesis
    using runs_trans[OF refresh_runs[of s env "s_session_id se"] gate] refresh_runs[of s env "s_session_id se"]
    by (auto simp: select_forks_def Let_def split_beta)
qed

lemma stamp_runs: "runs plain s (stamp_selected env sid s sel)"
  unfolding stamp_selected_run by (rule runs_ops) (simp add: stamp_ops_def split: option.split)

lemma build_wake_runs: "runs plain s (fst (build_wake env s se selected))"
  unfolding build_wake_store
  by (rule runs_ops) (auto simp: list_all_iff wake_ops_def stamp_ops_def Let_def split: option.splits if_splits)

lemma release_step_runs: "runs plain s (release_step env sid s dep)"
  using runs_ops[of plain "[DeletePendingDep sid (d_name dep)]" s]
    runs_ops[of plain "[DeletePendingDep sid (d_name dep), SetActiveGate sid (d_name dep)]" s]
  by (simp add: release_step_def Let_def split: option.split)

lemma release_due_runs: "runs plain s (fst (release_due env s se))"
  by (simp add: release_due_def Let_def rn.foldl_le release_step_runs)

lemma final_runs_runs: "runs plain s (fst (build_final_runs env s se))"
proof -
  let ?sid = "s_session_id se"
  let ?s1 = "fst (try_claim_final_flush s ?sid (pe_now env))"
  have claim: "runs plain s ?s1" using runs_op[of plain "TryClaimFinalFlush ?sid (pe_now env)" s] by simp
  have rest: "runs plain ?s1 (foldl (stamp_selected env ?sid) (refresh_roster env (refresh_roster env ?s1 ?sid) ?sid) sels)" for sels
    by (rule runs_trans[OF runs_trans[OF refresh_runs refresh_runs]]) (rule rn.foldl_le, rule stamp_runs)
  show ?thesis
    using claim runs_trans[OF claim rest] runs_trans[OF claim rest[of "[]"]]
    by (auto simp: build_final_runs_def Let_def collect_roster_defs_def split_beta skip_store split: bool.splits)
qed

lemma session_rec_of_upd:
  assumes "\<And>r. se_id (f r) = se_id r"
  shows "session_rec_of (upd_session sid f s) i = (if i = sid then map_option f (session_rec_of s i) else session_rec_of s i)"
proof -
  have "find (has_id i) (upd_where (has_id sid) f rows) = (if i = sid then map_option f (find (has_id i) rows) else find (has_id i) rows)" for rows
    by (induction rows) (auto simp: upd_where_def assms)
  then show ?thesis by (simp add: session_rec_of_def upd_session_def)
qed

section \<open>Quiet handlers\<close>

definition feeds_running :: "daemon \<Rightarrow> str \<Rightarrow> nat" where
  "feeds_running d key = length (filter (\<lambda>j. hj_deliver j = DContext \<and> spool_key (hj_ctx j) = key) (hook_jobs d))"

text \<open>The counter a drain waits on is the number of quiet feeds running for the key.\<close>

definition feed_ok :: "daemon \<Rightarrow> bool" where
  "feed_ok d \<longleftrightarrow> (\<forall>key. feed_inflight d key = feeds_running d key)"

definition quiet :: "(store_op \<Rightarrow> bool) \<Rightarrow> daemon \<Rightarrow> daemon \<Rightarrow> bool" where
  "quiet P d d' \<longleftrightarrow> runs P (dm_store d) (dm_store d') \<and> waits d' = waits d \<and> signalled d' = signalled d
     \<and> next_poll d' = next_poll d \<and> parked d' = parked d \<and> pending_close d' = pending_close d
     \<and> close_gen d' = close_gen d \<and> grace_timers d' = grace_timers d \<and> retiring d' = retiring d
     \<and> (feed_ok d \<longrightarrow> feed_ok d')"

lemma quiet_refl [simp]: "quiet P d d"
  by (simp add: quiet_def)

lemma quiet_trans: "quiet P d d' \<Longrightarrow> quiet P d' d'' \<Longrightarrow> quiet P d d''"
  by (auto simp: quiet_def intro: runs_trans)

lemma quiet_mono: "quiet P d d' \<Longrightarrow> (\<And>op. P op \<Longrightarrow> Q op) \<Longrightarrow> quiet Q d d'"
  by (auto simp: quiet_def intro: runs_mono)

lemma quiet_runs: "quiet P d d' \<Longrightarrow> runs P (dm_store d) (dm_store d')"
  by (simp add: quiet_def)

interpretation qt: preorder_frame "quiet P" for P
  by unfold_locales (simp, rule quiet_trans)

lemma feeds_same: "hook_jobs d' = hook_jobs d \<Longrightarrow> feed_inflight d' = feed_inflight d \<Longrightarrow> feed_ok d' = feed_ok d"
  by (simp add: feed_ok_def feeds_running_def)

lemma quiet_store: "runs P (dm_store d) s \<Longrightarrow> quiet P d (d\<lparr>dm_store := s\<rparr>)"
  using feeds_same[of "d\<lparr>dm_store := s\<rparr>" d] by (simp add: quiet_def)

lemma quiet_with_store: "runs P (dm_store d) (f (dm_store d)) \<Longrightarrow> quiet P d (with_store f d)"
  unfolding with_store_def by (rule quiet_store)

lemma quiet_op: "P op \<Longrightarrow> f (dm_store d) = store_step (dm_store d) op \<Longrightarrow> quiet P d (with_store f d)"
  by (rule quiet_with_store) (simp add: runs_op)

lemma quiet_small [simp]:
  "quiet P d (touch_busy w d)" "quiet P d (note_session_env sid env d)" "quiet P d (forget_session_env sid d)"
  "quiet P d (nudge sid d)" "quiet P d (note_wake_issued w sid d)" "quiet P d (note_chain_continued w sid d)"
  "quiet P d (spawn_end_runner row specs d)"
  by (simp_all add: quiet_def feed_ok_def feeds_running_def touch_busy_def note_session_env_def forget_session_env_def
    nudge_def note_wake_issued_def note_chain_continued_def spawn_end_runner_def split: option.split)

lemma quiet_execute: "quiet plain d (execute w ctx entry ev extra d)"
proof -
  let ?def = "ph_def (he_parsed entry)" and ?sid = "hc_session_id ctx"
  let ?d1 = "touch_busy w (with_store (\<lambda>s. stamp_hook_run s ?sid (he_name entry) (wd_now w)) d)"
  have "quiet plain d (with_store (\<lambda>s. stamp_hook_run s ?sid (he_name entry) (wd_now w)) d)"
    by (rule quiet_op[of _ "StampHookRun ?sid (he_name entry) (wd_now w)"]) simp_all
  then have 1: "quiet plain d ?d1" using quiet_trans quiet_small(1) by blast
  let ?j = "job_of w ?d1 ctx entry ev extra"
  have j: "hj_deliver ?j = hd_deliver ?def" "hj_ctx ?j = ctx"
    by (simp_all add: job_of_def Let_def split_beta)
  let ?d2 = "if hd_deliver ?def = DContext then feed_hook_started (spool_key ctx) ?d1 else ?d1"
  have "quiet plain ?d1 (?d2\<lparr>hook_jobs := hook_jobs ?d2 @ [?j], hooks_started := hooks_started ?d2 @ [?j]\<rparr>)"
    by (auto simp: quiet_def feed_ok_def feeds_running_def feed_hook_started_def j)
  then show ?thesis using quiet_trans[OF 1] by (simp add: execute_def Let_def)
qed

lemma quiet_fire_matching: "quiet plain d (fire_matching w ctx e d)"
  unfolding fire_matching_def by (rule qt.foldl_le) (simp add: quiet_execute split: option.split)

lemma quiet_fire_external: "quiet plain d (fire_external w ctx kind key detail d)"
  unfolding fire_external_def by (rule qt.foldl_le) (simp add: quiet_execute)

lemma quiet_change: "quiet plain d (deliver_change w paths sub d)"
proof -
  let ?sid = "s_session_id (sb_session sub)" and ?detail = "join_with [nl] paths"
  let ?op = "RecordPendingTrigger ?sid (kind_label KChanged) (sb_raw sub) ?detail EXTERNAL_DETAIL_CAP (wd_now w)"
  have 1: "quiet plain d (with_store (\<lambda>s. store_step s ?op) d)" for d by (rule quiet_op[of _ ?op]) simp_all
  show ?thesis
    using quiet_trans[OF 1 quiet_small(4)] quiet_trans[OF quiet_trans[OF 1 quiet_fire_external] quiet_small(4)]
      quiet_trans[OF quiet_fire_external quiet_small(4)]
    by (simp add: deliver_change_def Let_def)
qed

lemma quiet_deliver: "quiet plain d (deliver_block w j txt d)"
proof -
  let ?sid = "hc_session_id (hj_ctx j)" and ?t = "truncate_feed (hj_max_bytes j) txt"
  let ?block = "feed_block (hj_hook j) (hj_event j) ?t"
  let ?hash = "FeedHashChanged ?sid (hj_hook j) (content_hash ?t)"
  have ctx: "quiet plain d (with_store (\<lambda>_. spool_report (fst (feed_hash_changed (dm_store d) ?sid (hj_hook j) (content_hash ?t)))
      (spool_key (hj_ctx j)) (hj_hook j) ?block (wd_now w)) d)"
    using runs_ops[of plain "[?hash, SpoolReport (spool_key (hj_ctx j)) (hj_hook j) ?block (wd_now w)]" "dm_store d"]
    by (intro quiet_with_store) simp
  have wake: "quiet plain d (with_store (\<lambda>s. spool_wake_block s ?sid (hj_hook j) ?block (wd_now w)) d)"
    by (rule quiet_op[of _ "SpoolWakeBlock ?sid (hj_hook j) ?block (wd_now w)"]) simp_all
  show ?thesis
    using ctx wake quiet_trans[OF ctx quiet_small(4)] quiet_trans[OF wake quiet_small(4)]
    by (auto simp: deliver_block_def Let_def split: hook_deliver.split prod.split bool.split)
qed

lemma feeds_remove: "j \<in> set (hook_jobs d) \<Longrightarrow> hj_deliver j = DContext \<and> spool_key (hj_ctx j) = key \<Longrightarrow>
    feeds_running d key = Suc (feeds_running (d\<lparr>hook_jobs := remove1 j (hook_jobs d)\<rparr>) key)"
proof -
  assume j: "j \<in> set (hook_jobs d)" "hj_deliver j = DContext \<and> spool_key (hj_ctx j) = key"
  then have F: "j \<in> set (filter (\<lambda>j. hj_deliver j = DContext \<and> spool_key (hj_ctx j) = key) (hook_jobs d))" by simp
  with j length_pos_if_in_set[OF F] show ?thesis
    unfolding feeds_running_def by (simp add: filter_remove1 length_remove1)
qed

lemma feeds_remove_other: "\<not> (hj_deliver j = DContext \<and> spool_key (hj_ctx j) = key) \<Longrightarrow>
    feeds_running (d\<lparr>hook_jobs := remove1 j (hook_jobs d)\<rparr>) key = feeds_running d key"
  by (auto simp: feeds_running_def filter_remove1 remove1_idem)

lemma deliver_feeds:
  "feed_inflight (deliver_block w j txt d) = feed_inflight d" "hook_jobs (deliver_block w j txt d) = hook_jobs d"
  by (simp_all add: deliver_block_def Let_def nudge_def with_store_def split: hook_deliver.split prod.split bool.split)

lemma quiet_job_finished:
  assumes "j \<in> set (hook_jobs d)"
  shows "quiet plain d (job_finished w j e d)"
proof -
  let ?d1 = "d\<lparr>hook_jobs := remove1 j (hook_jobs d)\<rparr>"
  let ?d2 = "case e of JobOk out \<Rightarrow> if delivers (hj_deliver j) then deliver_block w j (trim out) ?d1 else ?d1 | JobFailed \<Rightarrow> ?d1"
  let ?d3 = "if hj_deliver j = DContext then feed_hook_finished (spool_key (hj_ctx j)) ?d2 else ?d2"
  have d3: "job_finished w j e d = ?d3" by (simp add: job_finished_def Let_def)
  have q: "quiet plain ?d1 ?d2" by (auto simp: quiet_deliver split: job_end.split)
  have 2: "feed_inflight ?d2 = feed_inflight d" "hook_jobs ?d2 = remove1 j (hook_jobs d)"
    by (auto simp: deliver_feeds split: job_end.split)
  have running: "feeds_running ?d3 key = feeds_running ?d1 key" for key
    by (simp add: feeds_running_def 2 feed_hook_finished_def)
  have "feed_ok ?d3" if "feed_ok d"
    unfolding feed_ok_def
  proof
    fix key
    have "feed_inflight d key = feeds_running d key" using that by (simp add: feed_ok_def)
    then show "feed_inflight ?d3 key = feeds_running ?d3 key"
      unfolding running using feeds_remove[OF assms, of key] feeds_remove_other[of j key d] 2
      by (auto simp: feed_hook_finished_def)
  qed
  with q show ?thesis unfolding d3 by (simp add: quiet_def feed_hook_finished_def)
qed

lemma quiet_own_terminal: "quiet plain d (on_own_fork_terminal w sid name status cont d)"
proof -
  have rearm: "quiet plain d (fst (try_rearm w se name def d))" for se def and d :: daemon
    using runs_op[of plain "RearmIdleLatch (s_session_id se) name (s_pause_epoch se)" "dm_store d"]
    by (auto simp: try_rearm_def Let_def quiet_store split_beta split: option.split)
  have release: "quiet plain d (with_store (\<lambda>s. clear_pause_baseline (clear_active_gate s sid) sid) d)" for d
    using runs_ops[of plain "[ClearActiveGate sid, ClearPauseBaseline sid]" "dm_store d"]
    by (intro quiet_with_store) simp
  let ?d1 = "\<lambda>se. if is_native_exec_client (s_client se) then note_chain_continued w sid d else d"
  have first: "quiet plain d (fst (if cont \<and> status = ''completed'' then try_rearm w se name def (?d1 se) else (d, False)))" for se def
    using quiet_trans[OF quiet_small(6) rearm] rearm by simp
  show ?thesis
    using first quiet_trans[OF first release]
    by (auto simp: on_own_fork_terminal_def Let_def split_beta split: option.split)
qed

lemma quiet_terminal: "quiet plain d (on_fork_terminal w sid name status cont stale d)"
  by (simp add: on_fork_terminal_def on_stale_fork_terminal_def quiet_own_terminal)

lemma ingest_note_runs: "runs plain (fst acc) (fst (ingest_note w sid n acc))"
proof -
  obtain s e where acc: "acc = (s, e)" by fastforce
  have "runs plain s (fst (mark_spawn_terminal (fst (mark_bg_task_terminal s sid a b t)) sid a b st t))" for a b st t
    using runs_ops[of plain "[MarkBgTaskTerminal sid a b t, MarkSpawnTerminal sid a b st t]" s] by simp
  then show ?thesis by (auto simp: acc ingest_note_def Let_def split_beta split: option.split)
qed

lemma ingest_delta_runs: "runs plain s (fst (ingest_delta w sid dl s))"
proof -
  let ?t = "wd_now w"
  let ?s1 = "foldl (\<lambda>s (tool, name). record_spawn s sid tool name ?t) s (dl_spawns dl)"
  let ?s2 = "foldl (\<lambda>s (tool, task). record_bg_task (set_spawn_task_id s sid tool task) sid tool task ?t) ?s1 (dl_task_ids dl)"
  let ?s3 = "foldl (\<lambda>s task. fst (mark_bg_task_terminal s sid None (Some task) ?t)) ?s2 (dl_stopped_tasks dl)"
  let ?r4 = "fold (ingest_note w sid) (dl_notifications dl) (?s3, [])"
  have 1: "runs plain s ?s1"
  proof (rule rn.foldl_le)
    fix s :: store and x :: "str \<times> str option"
    show "runs plain s (case x of (tool, name) \<Rightarrow> record_spawn s sid tool name ?t)"
      using runs_op[of plain "RecordSpawn sid (fst x) (snd x) ?t" s] by (simp add: split_beta)
  qed
  have 2: "runs plain ?s1 ?s2"
  proof (rule rn.foldl_le)
    fix s :: store and x :: "str \<times> str"
    show "runs plain s (case x of (tool, task) \<Rightarrow> record_bg_task (set_spawn_task_id s sid tool task) sid tool task ?t)"
      using runs_ops[of plain "[SetSpawnTaskId sid (fst x) (snd x), RecordBgTask sid (fst x) (snd x) ?t]" s]
      by (simp add: split_beta)
  qed
  have 3: "runs plain ?s2 ?s3"
  proof (rule rn.foldl_le)
    fix s :: store and x :: str
    show "runs plain s (fst (mark_bg_task_terminal s sid None (Some x) ?t))"
      using runs_op[of plain "MarkBgTaskTerminal sid None (Some x) ?t" s] by simp
  qed
  have 4: "runs plain ?s3 (fst ?r4)"
    using rnp.fold_le[where xs = "dl_notifications dl" and P = plain and a = "(?s3, [])" and f = "ingest_note w sid"]
      ingest_note_runs by simp
  have "runs plain s (store_step (fst ?r4) (SetTranscriptGauge sid (dl_new_offset dl) (dl_prompt_tokens dl)))"
    using runs_trans[OF 1 runs_trans[OF 2 runs_trans[OF 3 4]]] by (rule runs_then) simp
  then show ?thesis by (simp add: ingest_delta_def Let_def split_beta)
qed

lemma quiet_ingest: "quiet plain d (fst (ingest_transcript w ev d))"
proof -
  let ?sid = "ev_session_id ev"
  have "quiet plain d (foldl (\<lambda>d r. on_fork_terminal w ?sid (sr_fork r) (sr_status r) (sr_cont r) (sr_stale r) d)
      (d\<lparr>dm_store := fst (ingest_delta w ?sid dl (dm_store d))\<rparr>) (snd (ingest_delta w ?sid dl (dm_store d))))" for dl
    by (rule quiet_trans[OF quiet_store[OF ingest_delta_runs]]) (rule qt.foldl_le, rule quiet_terminal)
  then show ?thesis by (auto simp: ingest_transcript_def Let_def split_beta split: option.split)
qed

lemma quiet_settle: "quiet plain d (fst (settle_prompt w ev d))"
proof -
  let ?sid = "ev_session_id ev" and ?tool = "ev_notif_tool_use_id ev" and ?task = "ev_notif_task_id ev"
  let ?d1 = "fst (ingest_transcript w ev d)"
  have mark: "quiet plain ?d1 (?d1\<lparr>dm_store := fst (mark_spawn_terminal (dm_store ?d1) ?sid ?tool ?task st (wd_now w))\<rparr>)" for st
    using runs_op[of plain "MarkSpawnTerminal ?sid ?tool ?task st (wd_now w)" "dm_store ?d1"] by (intro quiet_store) simp
  show ?thesis
    using quiet_ingest[of d w ev] quiet_trans[OF quiet_ingest mark] quiet_trans[OF quiet_trans[OF quiet_ingest mark] quiet_terminal]
    by (auto simp: settle_prompt_def Let_def split_beta split: option.split)
qed

lemma quiet_classify: "quiet plain d (fst (classify_prompt w ev d))"
  using quiet_settle[of d w ev] by (simp add: classify_prompt_def Let_def split_beta)

text \<open>Closing a session.\<close>

definition shutting :: "str \<Rightarrow> store_op \<Rightarrow> bool" where
  "shutting sid op \<longleftrightarrow> plain op \<or> (\<exists>reason t. op = CloseSession sid reason t)"

lemma quiet_final_runs: "quiet plain d (fst (take_final_runs_for_close w row reason d))"
  by (simp add: take_final_runs_for_close_def split_beta final_runs_runs quiet_store)

lemma quiet_close: "quiet (shutting sid) d (fst (close_session_with_flush w sid reason flush d))"
proof -
  let ?r = "case session_of d sid of Some r \<Rightarrow> if flush \<and> s_status r = Open
      then take_final_runs_for_close w r reason d else (d, []) | None \<Rightarrow> (d, [])"
  let ?d1 = "fst ?r"
  have "quiet plain d ?d1" by (simp add: quiet_final_runs split: option.split)
  then have 1: "quiet (shutting sid) d ?d1" by (rule quiet_mono) (simp add: shutting_def)
  let ?d2 = "?d1\<lparr>dm_store := fst (close_session (dm_store ?d1) sid reason (wd_now w))\<rparr>"
  have "quiet (shutting sid) ?d1 ?d2"
    using runs_op[of "shutting sid" "CloseSession sid reason (wd_now w)" "dm_store ?d1"]
    by (intro quiet_store) (simp add: shutting_def)
  with 1 have 2: "quiet (shutting sid) d ?d2" by (rule quiet_trans)
  have 3: "quiet (shutting sid) d (case row of Some r \<Rightarrow> spawn_end_runner r specs ?d2 | None \<Rightarrow> ?d2)" for row specs
    using 2 quiet_trans[OF 2 quiet_small(7)] by (cases row) simp_all
  have fire: "quiet (shutting sid) x (fire_matching w ctx e x)" for x ctx e
    by (rule quiet_mono[OF quiet_fire_matching]) (simp add: shutting_def)
  show ?thesis
    using 3[where row = "session_of d sid" and specs = "snd ?r"] quiet_trans[OF 3 quiet_small(3)] quiet_trans[OF quiet_trans[OF 3 fire] quiet_small(3)]
    unfolding close_session_with_flush_def Let_def split_beta
    by (cases "session_of ?d1 sid") simp_all
qed

text \<open>Registering a session.\<close>

definition registers :: "event \<Rightarrow> store_op \<Rightarrow> bool" where
  "registers ev op \<longleftrightarrow> plain op \<or> (\<exists>t. op = UpsertSession (args_of_event ev) t)"

lemma opt_runs: "runs plain s (set_harness_opt sid h s)" "runs plain s (set_window_opt sid n s)"
proof -
  show "runs plain s (set_harness_opt sid h s)"
    using runs_op[of plain "SetHarness sid (the h)" s] by (cases h) (simp_all add: set_harness_opt_def)
  show "runs plain s (set_window_opt sid n s)"
    using runs_op[of plain "SetContextWindow sid (the n)" s] by (cases n) (simp_all add: set_window_opt_def)
qed

lemma upsert_runs: "runs (registers ev) s (fst (upsert_session s (args_of_event ev) t))"
  using runs_op[of "registers ev" "UpsertSession (args_of_event ev) t" s] by (simp add: registers_def)

lemma runs_registers: "runs plain s s' \<Longrightarrow> runs (registers ev) s s'"
  by (erule runs_mono) (simp add: registers_def)

lemma quiet_registers: "quiet plain d d' \<Longrightarrow> quiet (registers ev) d d'"
  by (erule quiet_mono) (simp add: registers_def)

lemma quiet_session_start: "quiet (registers ev) d (on_session_start w ev d)"
proof -
  let ?s = "fst (upsert_session (dm_store d) (args_of_event ev) (wd_now w))" and ?sid = "ev_session_id ev"
  have "runs (registers ev) (dm_store d) (set_harness_opt ?sid h (set_window_opt ?sid n ?s))" for h n
    by (rule runs_trans[OF upsert_runs runs_registers[OF runs_trans[OF opt_runs(2) opt_runs(1)]]])
  then have 1: "quiet (registers ev) d (d\<lparr>dm_store := set_harness_opt ?sid h (set_window_opt ?sid n ?s)\<rparr>)" for h n
    by (rule quiet_store)
  show ?thesis
    using 1 quiet_trans[OF 1 quiet_registers[OF quiet_fire_matching]]
    by (simp add: on_session_start_def Let_def split_beta)
qed

lemma quiet_register: "quiet (registers ev) d (register_stop w ev d)"
proof -
  let ?s = "fst (upsert_session (dm_store d) (args_of_event ev) (wd_now w))" and ?sid = "ev_session_id ev"
  have la: "runs plain s (set_last_activity s ?sid t)" for s t using runs_op[of plain "SetLastActivity ?sid t" s] by simp
  have "runs (registers ev) (dm_store d) (set_harness_opt ?sid h (set_window_opt ?sid n (set_last_activity ?s ?sid t)))" for h n t
    by (rule runs_trans[OF upsert_runs runs_registers[OF runs_trans[OF la runs_trans[OF opt_runs(2) opt_runs(1)]]]])
  then have 1: "quiet (registers ev) d (d\<lparr>dm_store := set_harness_opt ?sid h (set_window_opt ?sid n (set_last_activity ?s ?sid t))\<rparr>)" for h n t
    by (rule quiet_store)
  show ?thesis
    using 1 quiet_trans[OF 1 quiet_registers[OF quiet_fire_matching]]
    by (simp add: register_stop_def Let_def split_beta)
qed

end
