(* ===== verification/System_Laws.thy ===== *)
theory System_Laws
  imports Daemon_Frames
begin

text \<open>
  The invariant of the running daemon, kept by every step whatever the world does: the store's, the
  bookkeeping of parked polls (\<open>polls_ok\<close>), of pending closes (\<open>timers_ok\<close>) and of running feeds.
\<close>

section \<open>Bookkeeping\<close>

text \<open>A session's counter is the number of its polls, and of these at most the registered one is still
  unsignalled.\<close>

definition polls_ok :: "daemon \<Rightarrow> poll list \<Rightarrow> bool" where
  "polls_ok d ps \<longleftrightarrow> (\<forall>sid. parked d sid = length (filter (\<lambda>p. pl_sid p = sid) ps))
     \<and> distinct (map pl_id ps) \<and> (\<forall>p\<in>set ps. pl_id p < next_poll d)
     \<and> (\<forall>p\<in>set ps. waits d (pl_sid p) = Some (pl_id p) \<or> pl_id p \<in> set (signalled d))"

text \<open>A pending close has its timer running.\<close>

definition timers_ok :: "daemon \<Rightarrow> bool" where
  "timers_ok d \<longleftrightarrow> distinct (grace_timers d) \<and> (\<forall>(sid, g)\<in>set (grace_timers d). g \<le> close_gen d)
     \<and> (\<forall>sid g. pending_close d sid = Some g \<longrightarrow> (sid, g) \<in> set (grace_timers d))"

definition sys_ok :: "system \<Rightarrow> bool" where
  "sys_ok y \<longleftrightarrow> store_ok (dm_store (sy_daemon y)) \<and> feed_ok (sy_daemon y)
     \<and> polls_ok (sy_daemon y) (sy_polls y) \<and> timers_ok (sy_daemon y)"

definition daemon_ok :: "daemon \<Rightarrow> poll list \<Rightarrow> bool" where
  "daemon_ok d ps \<longleftrightarrow> sys_ok \<lparr>sy_daemon = d, sy_polls = ps\<rparr>"

lemma daemon_ok_iff: "daemon_ok d ps \<longleftrightarrow> store_ok (dm_store d) \<and> feed_ok d \<and> polls_ok d ps \<and> timers_ok d"
  by (simp add: daemon_ok_def sys_ok_def)

lemma quiet_ok: "quiet P d d' \<Longrightarrow> daemon_ok d ps \<Longrightarrow> daemon_ok d' ps"
  by (auto simp: daemon_ok_iff quiet_def polls_ok_def timers_ok_def intro: runs_ok)

lemma cancel_wait_ok: "daemon_ok d ps \<Longrightarrow> daemon_ok (cancel_wait sid d) ps"
  by (auto simp: daemon_ok_iff cancel_wait_def polls_ok_def timers_ok_def feed_ok_def feeds_running_def split: option.splits)

lemma clear_pending_close_ok: "daemon_ok d ps \<Longrightarrow> daemon_ok (clear_pending_close sid d) ps"
  by (auto simp: daemon_ok_iff clear_pending_close_def polls_ok_def timers_ok_def feed_ok_def feeds_running_def)

section \<open>Polls\<close>

lemma unpark_ok:
  assumes "daemon_ok d ps" "pl \<in> set ps"
  shows "daemon_ok (unpark (pl_sid pl) d) (filter (\<lambda>q. pl_id q \<noteq> pl_id pl) ps)"
proof -
  have d: "distinct (map pl_id ps)" using assms(1) by (simp add: daemon_ok_iff polls_ok_def)
  have one: "filter (\<lambda>q. pl_id q \<noteq> pl_id pl) ps = remove1 pl ps"
  proof -
    have "pl_id q \<noteq> pl_id pl \<longleftrightarrow> pl \<noteq> q" if "q \<in> set ps" for q
      using d that assms(2) by (auto simp: distinct_map dest: inj_onD)
    then show ?thesis
      using d by (simp add: distinct_remove1_removeAll removeAll_filter_not_eq distinct_map cong: filter_cong)
  qed
  have "pl \<in> set (filter (\<lambda>p. pl_sid p = pl_sid pl) ps)" using assms(2) by simp
  then have "length (filter (\<lambda>p. pl_sid p = sid) (remove1 pl ps)) = (if sid = pl_sid pl then length (filter (\<lambda>p. pl_sid p = sid) ps) - 1
      else length (filter (\<lambda>p. pl_sid p = sid) ps))" for sid
    by (auto simp: filter_remove1 length_remove1 remove1_idem)
  then have count: "length (filter (\<lambda>p. pl_sid p = sid) (remove1 pl ps)) = parked (unpark (pl_sid pl) d) sid" for sid
    using assms(1) by (simp add: daemon_ok_iff polls_ok_def unpark_def)
  have "distinct (map pl_id (remove1 pl ps))" using d by (simp add: distinct_map_filter flip: one)
  with count assms(1) have "polls_ok (unpark (pl_sid pl) d) (remove1 pl ps)"
    using set_remove1_subset[of pl ps] by (auto simp: polls_ok_def daemon_ok_iff unpark_def)
  then show ?thesis
    using assms(1) by (simp add: one daemon_ok_iff unpark_def timers_ok_def feed_ok_def feeds_running_def)
qed

lemma keep_poll_ok:
  assumes "daemon_ok d ps" "pl \<in> set ps" "pl_id pl' = pl_id pl" "pl_sid pl' = pl_sid pl"
  shows "daemon_ok d (map (\<lambda>q. if pl_id q = pl_id pl then pl' else q) ps)"
proof -
  have d: "distinct (map pl_id ps)" using assms(1) by (simp add: daemon_ok_iff polls_ok_def)
  have same: "q = pl" if "q \<in> set ps" "pl_id q = pl_id pl" for q
    using d that assms(2) by (auto simp: distinct_map dest: inj_onD)
  let ?f = "\<lambda>q. if pl_id q = pl_id pl then pl' else q"
  have ids: "map pl_id (map ?f ps) = map pl_id ps" using assms(3) by simp
  have sids: "map pl_sid (map ?f ps) = map pl_sid ps" using assms(4) same by auto
  have "length (filter (\<lambda>p. pl_sid p = sid) (map ?f ps)) = length (filter (\<lambda>p. pl_sid p = sid) ps)" for sid
    using arg_cong[OF sids, of "\<lambda>xs. length (filter (\<lambda>x. x = sid) xs)"] by (simp add: filter_map o_def)
  moreover have "pl_id (?f q) = pl_id q \<and> pl_sid (?f q) = pl_sid q" if "q \<in> set ps" for q
    using assms(3,4) same[OF that] by auto
  moreover have "distinct (map pl_id (map ?f ps))" unfolding ids by (rule d)
  ultimately have "polls_ok d (map ?f ps)"
    using assms(1) unfolding daemon_ok_iff polls_ok_def set_map ball_simps by auto
  then show ?thesis using assms(1) by (simp add: daemon_ok_iff)
qed

lemma register_wait_ok:
  assumes "daemon_ok d ps" "register_wait sid d = (d', p)" "quiet P d' d''"
  shows "pl_id pl = p \<Longrightarrow> pl_sid pl = sid \<Longrightarrow> daemon_ok d'' (ps @ [pl])" and "daemon_ok (unpark sid d'') ps"
proof -
  have ok: "daemon_ok (cancel_wait sid d) ps" by (rule cancel_wait_ok[OF assms(1)])
  have p: "p = next_poll d" using assms(2) by (auto simp: register_wait_def Let_def cancel_wait_def split: option.splits)
  have w: "\<forall>q\<in>set ps. pl_sid q = sid \<longrightarrow> pl_id q \<in> set (signalled (cancel_wait sid d))"
    using ok by (auto simp: daemon_ok_iff polls_ok_def cancel_wait_def split: option.splits)
  have d': "d' = park sid ((cancel_wait sid d)\<lparr>waits := (waits (cancel_wait sid d))(sid \<mapsto> p), next_poll := p + 1\<rparr>)"
    using assms(2) p by (auto simp: register_wait_def Let_def cancel_wait_def split: option.splits)
  have np: "next_poll (cancel_wait sid d) = p" by (simp add: p cancel_wait_def split: option.split)
  have "daemon_ok d' (ps @ [pl])" if "pl_id pl = p" "pl_sid pl = sid" for pl
    using ok w that np
    by (auto simp: d' daemon_ok_iff park_def polls_ok_def timers_ok_def feed_ok_def feeds_running_def)
  then show "pl_id pl = p \<Longrightarrow> pl_sid pl = sid \<Longrightarrow> daemon_ok d'' (ps @ [pl])" using quiet_ok[OF assms(3)] by blast
  have un: "daemon_ok (unpark sid d') ps"
    using ok w np
    by (auto simp: d' daemon_ok_iff park_def unpark_def polls_ok_def timers_ok_def feed_ok_def feeds_running_def)
  have "quiet P (unpark sid d') (unpark sid d'')" using assms(3)
    by (auto simp: quiet_def unpark_def feed_ok_def feeds_running_def)
  then show "daemon_ok (unpark sid d'') ps" using quiet_ok un by blast
qed

section \<open>The stop-wait\<close>

lemma quiet_feed_delivery: "quiet plain d (fst (take_feed_delivery se d))"
proof -
  let ?sid = "s_session_id se"
  let ?s1 = "if s_client se \<noteq> Some ''codex'' then fst (take_wake_blocks (dm_store d) ?sid) else dm_store d"
  have 1: "runs plain (dm_store d) ?s1" using runs_op[of plain "TakeWakeBlocks ?sid" "dm_store d"] by simp
  have 2: "runs plain (dm_store d) (if s_client se = Some ''opencode'' then fst (take_reports ?s1 ?sid) else ?s1)"
    using 1 runs_then[OF 1, of "TakeReports ?sid"] by (cases "s_client se = Some ''opencode''") simp_all
  show ?thesis using quiet_store[OF 1] quiet_store[OF 2]
    by (auto simp: take_feed_delivery_def Let_def split_beta)
qed

lemma quiet_issue: "quiet plain d (fst (issue_wake w se sel d))" "quiet plain d (fst (issue_release w se d))"
proof -
  have "quiet plain d (d\<lparr>dm_store := fst (build_wake (env_for w se) (dm_store d) se sel)\<rparr>)"
    by (rule quiet_store[OF build_wake_runs])
  then show "quiet plain d (fst (issue_wake w se sel d))"
    using quiet_trans[OF _ quiet_small(5)] by (auto simp: issue_wake_def split: prod.splits option.splits)
  have "quiet plain d (d\<lparr>dm_store := fst (release_due (env_for w se) (dm_store d) se)\<rparr>)"
    by (rule quiet_store[OF release_due_runs])
  then show "quiet plain d (fst (issue_release w se d))"
    using quiet_trans[OF _ quiet_small(5)] by (auto simp: issue_release_def split: prod.splits option.splits)
qed

lemma quiet_evaluate: "quiet plain d (fst (evaluate_poll w pl d))"
  by (simp add: evaluate_poll_def split_beta quiet_store select_runs)

lemma quiet_idle_hooks: "quiet plain d (fire_idle_hooks w pl d)"
  unfolding fire_idle_hooks_def
proof (rule qt.fold_le)
  fix d :: daemon and x :: "hook_entry \<times> nat"
  let ?lab = "idle_hook_latch (s_pause_epoch (pl_session pl)) (snd x)"
  have "quiet plain d (d\<lparr>dm_store := fst (try_latch_fire (dm_store d) (pl_sid pl) (''hook:'' @ he_name (fst x)) ?lab (wd_now w))\<rparr>)"
    using runs_op[of plain "TryLatchFire (pl_sid pl) (''hook:'' @ he_name (fst x)) ?lab (wd_now w)" "dm_store d"]
    by (intro quiet_store) simp
  then show "quiet plain d (fire_idle_hook w pl x d)"
    using quiet_trans[OF _ quiet_execute] by (simp add: fire_idle_hook_def split_beta Let_def)
qed

lemma quiet_gauge: "quiet plain d (fst (stop_gauge w ev d))"
  using quiet_op[of plain "SetPromptTokens (ev_session_id ev) n" "\<lambda>s. set_prompt_tokens s (ev_session_id ev) n" d for n]
  by (simp add: stop_gauge_def quiet_ingest split: option.split)

lemma session_of_id: "session_of d sid = Some se \<Longrightarrow> s_session_id se = sid"
  by (auto simp: session_of_def get_session_def row_to_session_def dest: session_rec_of_id)

lemma make_poll_id: "pl_id (make_poll w ev p pt cfg waiting se d) = p" "pl_session (make_poll w ev p pt cfg waiting se d) = se"
  by (simp_all add: make_poll_def Let_def)

text \<open>What the entry does around the registration of the wait.\<close>

lemma enter_registered_shape:
  obtains d2 d3 p d4 where "quiet (registers ev) d d2" "register_wait (ev_session_id ev) d2 = (d3, p)" "quiet plain d3 d4"
    and "case snd (enter_registered w ev d) of
       Answered r \<Rightarrow> fst (enter_registered w ev d) = unpark (ev_session_id ev) d4
     | Parked pl \<Rightarrow> fst (enter_registered w ev d) = d4 \<and> pl_id pl = p \<and> pl_sid pl = ev_session_id ev"
proof -
  let ?sid = "ev_session_id ev" and ?busy = "ev_busy ev = Some True" and ?cfg = "cfg_for w (Some (ev_project_root ev))"
  obtain d1 pt where g: "stop_gauge w ev (register_stop w ev d) = (d1, pt)" by fastforce
  let ?d2 = "if ?busy then d1 else with_store (\<lambda>s. set_pause_started_at_if_unset s ?sid (wd_now w)) d1"
  let ?waiting = "\<not> ?busy \<and> pending_background (dm_store d1) ?sid ?cfg (wd_now w)"
  obtain d3 p where r: "register_wait ?sid ?d2 = (d3, p)" by fastforce
  have pause: "quiet plain d1 ?d2"
    using quiet_op[of plain "SetPauseStarted ?sid (wd_now w)" "\<lambda>s. set_pause_started_at_if_unset s ?sid (wd_now w)" d1] by simp
  have "quiet (registers ev) d d1"
    using quiet_trans[OF quiet_register[of ev d w] quiet_registers[OF quiet_gauge, of ev "register_stop w ev d" w ev]]
    by (simp add: g)
  then have 2: "quiet (registers ev) d ?d2" by (rule quiet_trans) (rule quiet_registers[OF pause])
  note unf = enter_registered_def Let_def g prod.case r unpark_answer_def
  show ?thesis
  proof (cases "session_of d3 ?sid")
    case None
    show ?thesis by (rule that[OF 2 r quiet_refl]) (simp add: unf None)
  next
    case (Some se)
    obtain d4 fd where f: "take_feed_delivery se d3 = (d4, fd)" by fastforce
    have 4: "quiet plain d3 d4" using quiet_feed_delivery[of d3 se] by (simp add: f)
    obtain d5 rl where i: "issue_release w se d4 = (d5, rl)" by fastforce
    have 5: "quiet plain d3 d5" using quiet_trans[OF 4] quiet_issue(2)[of d4 w se] by (simp add: i)
    let ?pl = "make_poll w ev p pt ?cfg ?waiting se d5"
    obtain d6 sel where e: "evaluate_poll w ?pl (fire_idle_hooks w ?pl d5) = (d6, sel)" by fastforce
    have 6: "quiet plain d3 d6"
      using quiet_trans[OF quiet_trans[OF 5 quiet_idle_hooks[of d5 w ?pl]] quiet_evaluate[of _ w ?pl]] e by (metis fst_conv)
    show ?thesis
    proof (cases fd)
      case r: (Some resp)
      show ?thesis by (rule that[OF 2 \<open>register_wait _ _ = _\<close> 4]) (simp add: unf Some f r)
    next
      case fn: None
      show ?thesis
      proof (cases rl)
        case None
        show ?thesis
          by (rule that[OF 2 r 6]) (simp add: unf Some f fn i None e[unfolded unf] make_poll_id session_of_id[OF Some])
      next
        case s2: (Some pf)
        show ?thesis by (rule that[OF 2 r 5]) (simp add: unf Some f fn i s2 split: prod.split)
      qed
    qed
  qed
qed

lemma enter_ok:
  assumes "daemon_ok d ps"
  shows "case snd (enter_stop_wait w ev d) of
       Answered r \<Rightarrow> daemon_ok (fst (enter_stop_wait w ev d)) ps
     | Parked pl \<Rightarrow> daemon_ok (fst (enter_stop_wait w ev d)) (ps @ [pl]) \<and> pl_sid pl = ev_session_id ev"
proof -
  let ?sid = "ev_session_id ev" and ?d = "touch_busy w d"
  let ?d1 = "note_session_env ?sid (ev_env ev) (clear_pending_close ?sid ?d)"
  have t: "daemon_ok ?d ps" by (rule quiet_ok[OF quiet_small(1) assms])
  then have c: "daemon_ok (fst (close_session_firing_hooks w ?sid ''gone'' ?d)) ps"
    unfolding close_session_firing_hooks_def by (rule quiet_ok[OF quiet_close])
  have 1: "daemon_ok ?d1 ps" by (rule quiet_ok[OF quiet_small(2) clear_pending_close_ok[OF t]])
  obtain d2 d3 p d4 where sh: "quiet (registers ev) ?d1 d2" "register_wait ?sid d2 = (d3, p)" "quiet plain d3 d4"
    and res: "case snd (enter_registered w ev ?d1) of
       Answered r \<Rightarrow> fst (enter_registered w ev ?d1) = unpark ?sid d4
     | Parked pl \<Rightarrow> fst (enter_registered w ev ?d1) = d4 \<and> pl_id pl = p \<and> pl_sid pl = ?sid"
    using enter_registered_shape[of ev ?d1 w] by blast
  have 2: "daemon_ok d2 ps" by (rule quiet_ok[OF sh(1) 1])
  have "case snd (enter_registered w ev ?d1) of
       Answered r \<Rightarrow> daemon_ok (fst (enter_registered w ev ?d1)) ps
     | Parked pl \<Rightarrow> daemon_ok (fst (enter_registered w ev ?d1)) (ps @ [pl]) \<and> pl_sid pl = ?sid"
    using res register_wait_ok[OF 2 sh(2,3)] by (auto split: entry.splits)
  note reg = this
  let ?dead = "case ev_harness ev of None \<Rightarrow> False | Some h \<Rightarrow> \<not> harness_alive w h"
  show ?thesis
  proof (cases "is_fork_run_session ?d ?sid \<or> ?dead")
    case True
    then have "enter_stop_wait w ev d = (if is_fork_run_session ?d ?sid then ?d
        else fst (close_session_firing_hooks w ?sid ''gone'' ?d), Answered RWaited)"
      by (auto simp: enter_stop_wait_def Let_def)
    then show ?thesis using t c by simp
  next
    case False
    then have "enter_stop_wait w ev d = enter_registered w ev ?d1" by (simp add: enter_stop_wait_def Let_def)
    with reg show ?thesis by (simp only:)
  qed
qed

section \<open>A suspended poll goes on\<close>

lemma issue_poll_shape:
  "case snd (issue_poll w pl d) of
     Resolved r \<Rightarrow> \<exists>d1. quiet plain d d1 \<and> fst (issue_poll w pl d) = unpark (pl_sid pl) d1
   | Still pl' \<Rightarrow> quiet plain d (fst (issue_poll w pl d)) \<and> pl_id pl' = pl_id pl \<and> pl_sid pl' = pl_sid pl"
proof -
  obtain d1 sel where e: "evaluate_poll w pl d = (d1, sel)" by fastforce
  obtain d2 r where i: "issue_wake w (pl_session pl) sel d1 = (d2, r)" by fastforce
  have q: "quiet plain d d2"
    using quiet_trans[OF quiet_evaluate[of d w pl]] quiet_issue(1)[of d1 w "pl_session pl" sel] by (simp add: e i)
  then show ?thesis by (auto simp: issue_poll_def e i split: option.splits)
qed

lemma due_poll_shape:
  assumes "quiet plain d d0" "pl_id pl = pl_id pl0" "pl_sid pl = pl_sid pl0"
  shows "case snd (due_poll w pl d0) of
     Resolved r \<Rightarrow> \<exists>d1. quiet plain d d1 \<and> fst (due_poll w pl d0) = unpark (pl_sid pl0) d1
   | Still pl' \<Rightarrow> quiet plain d (fst (due_poll w pl d0)) \<and> pl_id pl' = pl_id pl0 \<and> pl_sid pl' = pl_sid pl0"
  using issue_poll_shape[where w = w and pl = pl and d = d0] assms
  by (auto simp: due_poll_def split: poll_result.splits intro: quiet_trans)

lemma poll_act_shape:
  "case snd (poll_act_of w a pl d) of
     Resolved r \<Rightarrow> \<exists>d1. quiet plain d d1 \<and> fst (poll_act_of w a pl d) = unpark (pl_sid pl) d1
   | Still pl' \<Rightarrow> quiet plain d (fst (poll_act_of w a pl d)) \<and> pl_id pl' = pl_id pl \<and> pl_sid pl' = pl_sid pl"
proof (cases a)
  case Subscribe
  then have act: "poll_act_of w a pl d = (if pl_phase pl = Entered True then due_poll w pl d
      else (d, Still (pl\<lparr>pl_phase := Waiting (nudges d (pl_sid pl))\<rparr>)))"
    by (simp add: poll_act_of_def subscribe_poll_def)
  show ?thesis unfolding act
    using due_poll_shape[OF quiet_refl, where d = d and pl = pl and ?pl0.0 = pl and w = w] by simp
next
  case Timer
  let ?pl = "pl\<lparr>pl_next := Suc (pl_next pl)\<rparr>"
  let ?e = "evaluate_poll w ?pl (fire_idle_hooks w ?pl d)"
  have q: "quiet plain d (fst ?e)" by (rule quiet_trans[OF quiet_idle_hooks quiet_evaluate])
  have act: "poll_act_of w a pl d = (if snd ?e \<noteq> [] then due_poll w ?pl (fst ?e) else (fst ?e, Still ?pl))"
    by (simp add: Timer poll_act_of_def timer_poll_def Let_def split_beta)
  show ?thesis unfolding act using due_poll_shape[OF q, where pl = ?pl and ?pl0.0 = pl and w = w] q by simp
next
  case Nudged
  let ?pl = "pl\<lparr>pl_phase := Waiting (nudges d (pl_sid pl))\<rparr>"
  let ?f = "take_feed_delivery (pl_session pl) d"
  let ?e = "evaluate_poll w ?pl (fst ?f)"
  have f: "quiet plain d (fst ?f)" by (rule quiet_feed_delivery)
  have e: "quiet plain d (fst ?e)" by (rule quiet_trans[OF f quiet_evaluate])
  show ?thesis
  proof (cases "snd ?f")
    case None
    have act: "poll_act_of w a pl d = (if snd ?e \<noteq> [] then due_poll w ?pl (fst ?e) else (fst ?e, Still ?pl))"
      using None by (simp add: Nudged poll_act_of_def nudge_poll_def Let_def split_beta)
    show ?thesis unfolding act using due_poll_shape[OF e, where pl = ?pl and ?pl0.0 = pl and w = w] e by simp
  next
    case (Some r)
    have act: "poll_act_of w a pl d = (unpark (pl_sid pl) (fst ?f), Resolved r)"
      using Some by (simp add: Nudged poll_act_of_def nudge_poll_def Let_def split_beta)
    show ?thesis unfolding act using f by auto
  qed
next
  case Debounced
  have act: "poll_act_of w a pl d = issue_poll w pl d" by (simp add: Debounced poll_act_of_def)
  show ?thesis unfolding act by (rule issue_poll_shape)
next
  case Cancel
  then show ?thesis by (auto simp: poll_act_of_def cancel_poll_def intro: quiet_refl)
qed

lemma poll_ok:
  assumes "daemon_ok d ps" "pl \<in> set ps"
  shows "daemon_ok (fst (poll_act_of w a pl d)) (put_poll pl (snd (poll_act_of w a pl d)) ps)"
proof (cases "snd (poll_act_of w a pl d)")
  case (Resolved r)
  then obtain d1 where "quiet plain d d1" "fst (poll_act_of w a pl d) = unpark (pl_sid pl) d1"
    using poll_act_shape[where w = w and a = a and pl = pl and d = d] by auto
  then show ?thesis using unpark_ok[OF quiet_ok[OF _ assms(1)] assms(2), of plain d1] Resolved by (simp add: put_poll_def)
next
  case (Still pl')
  then have "quiet plain d (fst (poll_act_of w a pl d))" "pl_id pl' = pl_id pl" "pl_sid pl' = pl_sid pl"
    using poll_act_shape[where w = w and a = a and pl = pl and d = d] by auto
  then show ?thesis using keep_poll_ok[OF quiet_ok[OF _ assms(1)] assms(2)] Still by (simp add: put_poll_def)
qed

section \<open>Requests, timers and sweeps\<close>

lemma close_ok: "daemon_ok d ps \<Longrightarrow> daemon_ok (fst (close_session_with_flush w sid reason flush d)) ps"
  "daemon_ok d ps \<Longrightarrow> daemon_ok (fst (close_session_firing_hooks w sid reason d)) ps"
  unfolding close_session_firing_hooks_def by (rule quiet_ok[OF quiet_close], assumption)+

lemma fold_ok: "daemon_ok d ps \<Longrightarrow> (\<And>x d. daemon_ok d ps \<Longrightarrow> daemon_ok (f x d) ps) \<Longrightarrow> daemon_ok (fold f xs d) ps"
  by (induction xs arbitrary: d) auto

lemma prompt_shape:
  obtains d' where "on_prompt_submit w ev d = cancel_wait (ev_session_id ev) d'"
    and "quiet (\<lambda>op. registers ev op \<or> op = BumpPauseEpoch (ev_session_id ev)) d d'"
proof -
  let ?P = "\<lambda>op. registers ev op \<or> op = BumpPauseEpoch (ev_session_id ev)" and ?sid = "ev_session_id ev"
  obtain d1 wk where c: "classify_prompt w ev d = (d1, wk)" by fastforce
  obtain s newly where u: "upsert_session (dm_store d1) (args_of_event ev) (wd_now w) = (s, newly)" by fastforce
  let ?s1 = "set_harness_opt ?sid (ev_harness ev) (set_last_activity s ?sid (wd_now w))"
  let ?s2 = "if wk then fst (clear_pending_deps (bump_pause_epoch ?s1 ?sid) ?sid) else ?s1"
  let ?d3 = "if newly then fire_matching w (ctx_from_event ev) (FireStart None) (d1\<lparr>dm_store := ?s2\<rparr>) else d1\<lparr>dm_store := ?s2\<rparr>"
  let ?d4 = "if wk then fire_matching w (ctx_from_event ev) FireActivity ?d3 else ?d3"
  have P: "registers ev op \<Longrightarrow> ?P op" "plain op \<Longrightarrow> ?P op" for op by (simp_all add: registers_def)
  have 1: "quiet ?P d d1" using quiet_classify[of d w ev] quiet_mono[OF _ P(2)] by (simp add: c)
  have "runs ?P (dm_store d1) s" using upsert_runs[of ev "dm_store d1" "wd_now w"] runs_mono[OF _ P(1)] by (simp add: u)
  then have "runs ?P (dm_store d1) (set_last_activity s ?sid (wd_now w))"
    using runs_then[of ?P "dm_store d1" s "SetLastActivity ?sid (wd_now w)"] by (simp add: registers_def)
  then have s1: "runs ?P (dm_store d1) ?s1" by (rule runs_trans) (rule runs_mono[OF opt_runs(1) P(2)])
  have "runs ?P (dm_store d1) ?s2"
    using runs_trans[OF s1 runs_ops[of ?P "[BumpPauseEpoch ?sid, ClearPendingDeps ?sid]" ?s1]] s1
    by (simp add: registers_def)
  then have 2: "quiet ?P d (d1\<lparr>dm_store := ?s2\<rparr>)" by (rule quiet_trans[OF 1 quiet_store])
  have f: "quiet ?P x (fire_matching w ctx e x)" for x ctx e by (rule quiet_mono[OF quiet_fire_matching P(2)])
  have 3: "quiet ?P d ?d3" using 2 quiet_trans[OF 2 f] by simp
  have 4: "quiet ?P d ?d4" using 3 quiet_trans[OF 3 f] by simp
  show ?thesis by (rule that[OF _ 4]) (simp add: on_prompt_submit_def Let_def c u)
qed

lemma event_ok: "daemon_ok d ps \<Longrightarrow> daemon_ok (handle_event w ev d) ps"
proof -
  let ?sid = "ev_session_id ev" and ?d = "touch_busy w d"
  let ?d1 = "note_session_env ?sid (ev_env ev) (clear_pending_close ?sid ?d)"
  assume "daemon_ok d ps"
  then have 0: "daemon_ok ?d ps" by (rule quiet_ok[OF quiet_small(1)])
  then have 1: "daemon_ok ?d1 ps" using clear_pending_close_ok quiet_ok[OF quiet_small(2)] by blast
  have start: "daemon_ok (on_session_start w ev ?d1) ps" by (rule quiet_ok[OF quiet_session_start 1])
  obtain d' where p: "on_prompt_submit w ev ?d1 = cancel_wait ?sid d'"
    and q: "quiet (\<lambda>op. registers ev op \<or> op = BumpPauseEpoch ?sid) ?d1 d'" by (rule prompt_shape)
  have prompt: "daemon_ok (on_prompt_submit w ev ?d1) ps" unfolding p by (rule cancel_wait_ok[OF quiet_ok[OF q 1]])
  have fin: "daemon_ok (on_session_end w ev ?d1) ps"
    unfolding on_session_end_def by (rule close_ok(2)[OF cancel_wait_ok[OF 1]])
  show ?thesis
    using 0 1 start prompt fin by (cases "ev_event ev") (simp_all add: handle_event_def Let_def)
qed

lemma completed_ok: "daemon_ok d ps \<Longrightarrow> daemon_ok (handle_fork_completed w sid fork run_ref status cont d) ps"
proof -
  assume ok: "daemon_ok d ps"
  let ?d = "touch_busy w d"
  let ?s = "fst (mark_spawn_terminal (dm_store ?d) sid (Some run_ref) None status (wd_now w))"
  have m: "quiet plain d (?d\<lparr>dm_store := ?s\<rparr>)"
    using runs_op[of plain "MarkSpawnTerminal sid (Some run_ref) None status (wd_now w)" "dm_store ?d"]
    by (intro quiet_trans[OF quiet_small(1) quiet_store]) simp
  have "daemon_ok (?d\<lparr>dm_store := ?s\<rparr>) ps" "daemon_ok (on_fork_terminal w sid fork status cont stale (?d\<lparr>dm_store := ?s\<rparr>)) ps" for stale
    using quiet_ok[OF m ok] quiet_ok[OF quiet_trans[OF m quiet_terminal] ok] by blast+
  then show ?thesis
    using quiet_ok[OF quiet_small(4)] cancel_wait_ok by (auto simp: handle_fork_completed_def Let_def split_beta)
qed

lemma quiet_peek: "quiet plain d (fst (handle_peek_due w sid d))"
proof -
  let ?d = "touch_busy w d"
  have sel: "quiet plain ?d (?d\<lparr>dm_store := fst (select_forks env (dm_store ?d) se ms h)\<rparr>)" for env se ms h
    by (rule quiet_store[OF select_runs])
  show ?thesis
    using quiet_small(1)[of plain d w] quiet_trans[OF quiet_small(1)[of plain d w] quiet_trans[OF sel quiet_issue(1)]]
    by (simp add: handle_peek_due_def Let_def split_beta split: option.split)
qed

lemma emit_runs: "quiet plain d (emit_one w name detail row d)"
proof -
  let ?op = "RecordPendingTrigger (s_session_id row) ''event'' name detail EXTERNAL_DETAIL_CAP (wd_now w)"
  have "quiet plain d (with_store (\<lambda>s. record_pending_trigger s (s_session_id row) ''event'' name detail EXTERNAL_DETAIL_CAP (wd_now w)) d)"
    by (rule quiet_op[of _ ?op]) simp_all
  then show ?thesis
    unfolding emit_one_def Let_def by (rule quiet_trans[OF quiet_trans[OF _ quiet_fire_external] quiet_small(4)])
qed

lemma lost_ok: "daemon_ok d ps \<Longrightarrow> daemon_ok (on_poll_lost w sid d) ps"
proof -
  assume ok: "daemon_ok d ps"
  have "daemon_ok (d\<lparr>close_gen := close_gen d + 1, pending_close := (pending_close d)(sid \<mapsto> close_gen d + 1),
      grace_timers := grace_timers d @ [(sid, close_gen d + 1)]\<rparr>) ps"
    using ok by (auto simp: daemon_ok_iff polls_ok_def timers_ok_def feed_ok_def feeds_running_def)
  then show ?thesis using close_ok(2)[OF ok] by (simp add: on_poll_lost_def Let_def)
qed

lemma grace_ok: "daemon_ok d ps \<Longrightarrow> daemon_ok (grace_elapsed w t d) ps"
proof -
  assume ok: "daemon_ok d ps"
  obtain sid g where t: "t = (sid, g)" by fastforce
  let ?d = "d\<lparr>grace_timers := remove1 t (grace_timers d)\<rparr>"
  have "timers_ok (clear_pending_close sid ?d)" "pending_close d sid \<noteq> Some g \<longrightarrow> timers_ok ?d"
    using ok by (auto simp: t daemon_ok_iff timers_ok_def clear_pending_close_def in_set_remove1)
  then have "daemon_ok (clear_pending_close sid ?d) ps" "pending_close d sid \<noteq> Some g \<longrightarrow> daemon_ok ?d ps"
    using ok by (auto simp: daemon_ok_iff polls_ok_def feed_ok_def feeds_running_def clear_pending_close_def)
  then show ?thesis using close_ok(2) by (simp add: grace_elapsed_def t Let_def)
qed

lemma retiring_ok: "daemon_ok d ps \<Longrightarrow> daemon_ok (d\<lparr>retiring := b\<rparr>) ps"
  by (simp add: daemon_ok_iff polls_ok_def timers_ok_def feed_ok_def feeds_running_def)

lemma sweeps_ok:
  assumes "daemon_ok d ps"
  shows "daemon_ok (harness_sweep w d) ps" "daemon_ok (session_sweep w d) ps" "daemon_ok (quiet_sweep w n d) ps"
    "daemon_ok (fst (prune w d)) ps"
  using assms unfolding harness_sweep_def session_sweep_def prune_def Let_def quiet_sweep_def
  by (auto intro!: fold_ok close_ok retiring_ok)

lemma quiet_requests:
  "quiet plain d (handle_fork_spawned w sid fork run_ref d)" "quiet plain d (handle_spool_report w sid fork txt d)"
  "quiet plain d (fst (handle_take_wake_blocks sid d))" "quiet plain d (fst (handle_take_reports w sid d))"
  "quiet plain d (fst (handle_take_final_runs w sid d))" "quiet plain d (fst (handle_emit w name payload root osid d))"
proof -
  note via = quiet_trans[OF quiet_small(1)[of plain d w]]
  show "quiet plain d (handle_fork_spawned w sid fork run_ref d)"
    unfolding handle_fork_spawned_def by (rule via, rule quiet_op[of _ "RecordSpawn sid run_ref (Some fork) (wd_now w)"]) simp_all
  show "quiet plain d (handle_spool_report w sid fork txt d)"
    unfolding handle_spool_report_def by (rule via, rule quiet_op[of _ "SpoolReport sid fork txt (wd_now w)"]) simp_all
  show "quiet plain d (fst (handle_take_wake_blocks sid d))"
    using runs_op[of plain "TakeWakeBlocks sid" "dm_store d"] by (simp add: handle_take_wake_blocks_def split_beta Let_def quiet_store)
  show "quiet plain d (fst (handle_take_reports w sid d))"
    using runs_op[of plain "TakeReports sid" "dm_store (touch_busy w d)"]
    by (intro via) (simp add: handle_take_reports_def split_beta Let_def quiet_store)
  show "quiet plain d (fst (handle_take_final_runs w sid d))"
    by (rule via) (simp add: handle_take_final_runs_def Let_def split_beta quiet_store final_runs_runs split: option.split)
  show "quiet plain d (fst (handle_emit w name payload root osid d))"
    unfolding handle_emit_def Let_def fst_conv by (rule via, rule qt.fold_le, rule emit_runs)
qed

lemma dispatch_ok: "daemon_ok d ps \<Longrightarrow> daemon_ok (fst (dispatch w r d)) ps"
proof -
  assume "daemon_ok d ps"
  then have "daemon_ok (touch_busy w d) ps" by (rule quiet_ok[OF quiet_small(1)])
  then show ?thesis
    using event_ok completed_ok quiet_ok[OF quiet_peek] quiet_ok[OF quiet_requests(1)] quiet_ok[OF quiet_requests(2)]
      quiet_ok[OF quiet_requests(3)] quiet_ok[OF quiet_requests(4)] quiet_ok[OF quiet_requests(5)]
      quiet_ok[OF quiet_requests(6)] sweeps_ok(4) retiring_ok quiet_ok[OF quiet_small(1)]
    by (cases r) (simp_all add: acked_def handle_run_state_def request_shutdown_def)
qed

lemma sys_step_ok: "sys_step y y' \<Longrightarrow> sys_ok y \<Longrightarrow> sys_ok y'"
proof (induction rule: sys_step.induct)
  case (request r d ps w proto)
  then show ?case using dispatch_ok by (simp add: answer_frame_def flip: daemon_ok_def)
next
  case (enter w ev d d' pl ps)
  then show ?case using enter_ok[of d ps w ev] by (simp flip: daemon_ok_def)
next
  case (enter_answered w ev d d' r ps)
  then show ?case using enter_ok[of d ps w ev] by (simp flip: daemon_ok_def)
next
  case (poll pl ps w a d d' r)
  then show ?case using poll_ok[of d ps pl w a] by (simp flip: daemon_ok_def)
next
  case (lost pl ps d w)
  then show ?case using lost_ok[OF unpark_ok] by (simp add: lose_poll_def flip: daemon_ok_def)
next
  case (job j d ps w e)
  then show ?case using quiet_ok[OF quiet_job_finished] by (simp flip: daemon_ok_def)
next
  case (grace t d ps w)
  then show ?case using grace_ok by (simp flip: daemon_ok_def)
qed (simp_all add: sweeps_ok quiet_ok[OF quiet_change] flip: daemon_ok_def)

lemma sys_run_ok: "sys_step\<^sup>*\<^sup>* y y' \<Longrightarrow> sys_ok y \<Longrightarrow> sys_ok y'"
  by (induction rule: rtranclp_induct) (simp_all add: sys_step_ok)

text \<open>C1. Whatever happens and in whatever order - requests, polls that enter, time out, are nudged,
  cancelled or lost, hook commands that end, grace timers, sweeps, each with its own view of the files,
  the clock and the processes - the daemon's bookkeeping stays right. The store keeps its keys. A
  session's parked count is the number of its polls. Of two polls of one session at least one has been
  cancelled. A drain that waits for quiet feeds waits for exactly the ones that run. Every pending close
  has a timer that will decide it.\<close>

theorem system_invariant:
  assumes "sys_step\<^sup>*\<^sup>* y y'" "sys_ok y"
  shows "sys_ok y'"
  using assms by (rule sys_run_ok)

text \<open>A world without files or processes, at a given second.\<close>

definition bare_world :: "int \<Rightarrow> world" where
  "bare_world now = \<lparr>wd_disk = \<lparr>dk_fs = \<lparr>fs_exists = (\<lambda>_. False), fs_canonicalize = (\<lambda>_. None), fs_is_file = (\<lambda>_. False),
       fs_is_dir = (\<lambda>_. False), fs_len = (\<lambda>_. 0), fs_read = (\<lambda>_. None), fs_env = (\<lambda>_. None)\<rparr>,
       dk_list = (\<lambda>_. None), dk_err = (\<lambda>_. [])\<rparr>,
     wd_bytes = (\<lambda>_. None), wd_yaml = (\<lambda>_. None), wd_hook_yaml = (\<lambda>_. None), wd_toml = (\<lambda>_. Inl []),
     wd_json = (\<lambda>_. None), wd_pid_exists = (\<lambda>_. False), wd_start_token = (\<lambda>_. None), wd_base = ''/b'',
     wd_version = ''1'', wd_pid = 7, wd_now = now\<rparr>"

definition bare_event :: "event_kind \<Rightarrow> str \<Rightarrow> event" where
  "bare_event k sid = \<lparr>ev_event = k, ev_session_id = sid, ev_transcript_path = None, ev_cwd = ''/p'',
     ev_project_root = ''/p'', ev_source = None, ev_reason = None, ev_model = None, ev_enable_tags = None,
     ev_disable_tags = None, ev_waking = Some True, ev_notif_tool_use_id = None, ev_notif_task_id = None,
     ev_notif_status = None, ev_notif_continue = None, ev_context_tokens = None, ev_context_window = None,
     ev_client = Some ''codex'', ev_busy = None, ev_harness = None, ev_env = None\<rparr>"

lemma new_system_ok: "sys_ok (system_new store_empty now)"
  by (simp add: sys_ok_def system_new_def daemon_new_def store_ok_empty feed_ok_def feeds_running_def polls_ok_def timers_ok_def)

theorem system_invariant_witness:
  defines "y0 \<equiv> system_new store_empty 5"
    and "y2 \<equiv> \<lparr>sy_daemon = session_sweep (bare_world 9)
       (fst (answer_frame (bare_world 7) 1 (Event (bare_event EvSessionStart ''s'')) (daemon_new store_empty 5))), sy_polls = []\<rparr>"
  shows "sys_step\<^sup>*\<^sup>* y0 y2 \<and> sys_ok y0 \<and> sys_ok y2"
proof -
  let ?d1 = "fst (answer_frame (bare_world 7) 1 (Event (bare_event EvSessionStart ''s'')) (daemon_new store_empty 5))"
  have 1: "sys_step y0 \<lparr>sy_daemon = ?d1, sy_polls = []\<rparr>"
    unfolding y0_def system_new_def by (rule sys_step.request) (simp add: is_stop_wait_def)
  have 2: "sys_step \<lparr>sy_daemon = ?d1, sy_polls = []\<rparr> y2" unfolding y2_def by (rule sys_step.session_sweep)
  have r: "sys_step\<^sup>*\<^sup>* y0 y2" using 1 2 by (meson r_into_rtranclp rtranclp_trans)
  moreover have ok: "sys_ok y0" unfolding y0_def by (rule new_system_ok)
  ultimately show ?thesis using system_invariant[OF r ok] by simp
qed

end
