(* ===== verification/Daemon_Laws.thy ===== *)
theory Daemon_Laws
  imports System_Laws
begin

text \<open>
  What the handlers do: when a prompt starts a new pause, what the end of a fork run changes, that a
  session closes once, that fork runs are never scheduled themselves, that nothing is stamped without
  being handed out, and where a nudge can be lost.
\<close>

section \<open>Prompts\<close>

lemma life_bump: "life (bump_pause_epoch s sid) i =
    (if i = sid then map_option (\<lambda>(o', e). (o', e + 1)) (life s i) else life s i)"
  by (auto simp: life_def bump_pause_epoch_def upd_session_def session_rec_of_def find_upd_where option.map_comp o_def
      dest: find_in_set split: option.split intro!: map_option_cong)

lemma life_upsert:
  assumes "store_ok s"
  shows "life (fst (upsert_session s a t)) i =
    (if i = a_id a then Some (True, case life s i of Some (_, e) \<Rightarrow> e | None \<Rightarrow> 0) else life s i)"
proof (cases "session_rec_of s i")
  case None
  then show ?thesis using session_step_None[OF None, of "UpsertSession a t"]
    by (auto simp: life_def opens_iff is_open_def split: option.splits)
next
  case (Some r)
  moreover have "\<not> ends i s (UpsertSession a t)" by (simp add: ends_def)
  ultimately show ?thesis using session_step_Some[OF assms Some, of "UpsertSession a t"]
    by (auto simp: life_def opens_iff bumps_def is_open_def split: option.splits if_splits)
qed

lemma prompt_life:
  assumes ok: "store_ok (dm_store d)" and c: "classify_prompt w ev d = (d1, wk)"
  defines "sid \<equiv> ev_session_id ev"
  shows "life (dm_store (on_prompt_submit w ev d)) i =
    (if i = sid then Some (True, (case life (dm_store d) i of Some (_, e) \<Rightarrow> e | None \<Rightarrow> 0) + (if wk then 1 else 0))
     else life (dm_store d) i)"
proof -
  have 1: "store_ok (dm_store d1)" "life (dm_store d1) j = life (dm_store d) j" for j
    using quiet_classify[of d w ev] ok by (auto simp: c dest: quiet_runs runs_ok runs_life)
  have a: "a_id (args_of_event ev) = sid" by (simp add: args_of_event_def sid_def)
  obtain s newly where u: "upsert_session (dm_store d1) (args_of_event ev) (wd_now w) = (s, newly)" by fastforce
  have s: "store_ok s" "life s j = (if j = sid then Some (True, case life (dm_store d) j of Some (_, e) \<Rightarrow> e | None \<Rightarrow> 0)
      else life (dm_store d) j)" for j
    using life_upsert[OF 1(1), of "args_of_event ev" "wd_now w" j] store_ok_step[OF 1(1), of "UpsertSession (args_of_event ev) (wd_now w)"]
    by (simp_all add: u 1 a)
  let ?s1 = "set_harness_opt sid (ev_harness ev) (set_last_activity s sid (wd_now w))"
  have r: "runs plain s ?s1"
    using runs_trans[OF runs_op[of plain "SetLastActivity sid (wd_now w)" s] opt_runs(1)] by simp
  have s1: "store_ok ?s1" "life ?s1 j = life s j" for j using runs_ok[OF r s(1)] runs_life[OF r s(1)] by auto
  let ?s2 = "if wk then fst (clear_pending_deps (bump_pause_epoch ?s1 sid) sid) else ?s1"
  have b: "store_ok (bump_pause_epoch ?s1 sid)" using store_ok_step[OF s1(1), of "BumpPauseEpoch sid"] by simp
  have s2: "store_ok ?s2" "life ?s2 j = (if wk \<and> j = sid then map_option (\<lambda>(o', e). (o', e + 1)) (life s j) else life s j)" for j
    using s1 store_ok_step[OF b, of "ClearPendingDeps sid"] life_step[OF b, of "ClearPendingDeps sid" j]
    by (auto simp: life_bump)
  have f: "runs plain (dm_store x) (dm_store (fire_matching w ctx e x))" for x ctx e by (rule quiet_runs[OF quiet_fire_matching])
  let ?d2 = "d1\<lparr>dm_store := ?s2\<rparr>"
  let ?d3 = "if newly then fire_matching w (ctx_from_event ev) (FireStart None) ?d2 else ?d2"
  let ?d4 = "if wk then fire_matching w (ctx_from_event ev) FireActivity ?d3 else ?d3"
  have "runs plain ?s2 (dm_store ?d3)" using f[of ?d2] by (cases newly; cases wk) simp_all
  then have "runs plain ?s2 (dm_store ?d4)" using runs_trans[OF _ f[of ?d3]] by (cases wk) simp_all
  then have "life (dm_store ?d4) i = life ?s2 i" by (rule runs_life[OF _ s2(1)])
  moreover have "dm_store (on_prompt_submit w ev d) = dm_store ?d4"
    by (simp add: on_prompt_submit_def Let_def c u sid_def dm)
  ultimately show ?thesis by (simp add: s2 s)
qed

text \<open>C14. A prompt opens the session and starts a new pause exactly when it counts as genuine activity;
  no other session's life changes. The completion of one of the daemon's own forks never counts, once
  the transcript or an earlier report has put the spawn on record; a prompt the client marks as waking
  does, unless it falls into the chain window of a client that runs forks itself.\<close>

theorem prompt_starts_pause:
  fixes w :: world and d :: daemon and ev :: event
  assumes "store_ok (dm_store d)" "ev_event ev = EvPromptSubmit" "\<not> is_fork_run_session d (ev_session_id ev)"
  defines "sid \<equiv> ev_session_id ev"
    and "d0 \<equiv> note_session_env (ev_session_id ev) (ev_env ev) (clear_pending_close (ev_session_id ev) (touch_busy w d))"
  defines "waking \<equiv> snd (classify_prompt w ev d0)" and "d1 \<equiv> fst (classify_prompt w ev d0)"
  shows "(\<forall>i. life (dm_store (handle_event w ev d)) i =
      (if i = sid then Some (True, (case life (dm_store d) i of Some (_, e) \<Rightarrow> e | None \<Rightarrow> 0) + (if waking then 1 else 0))
       else life (dm_store d) i))
    \<and> (reports_task ev \<and> is_fork_spawn (dm_store (fst (ingest_transcript w ev d0))) sid (ev_notif_tool_use_id ev) (ev_notif_task_id ev)
        \<longrightarrow> \<not> waking)
    \<and> (\<not> reports_task ev \<and> ev_waking ev = Some True
        \<and> \<not> (is_native_exec_client (ev_client ev) \<and> recently_chain_continued w d0 sid) \<longrightarrow> waking)"
proof -
  have h: "handle_event w ev d = on_prompt_submit w ev d0"
    using assms(2,3) by (simp add: handle_event_def Let_def d0_def is_fork_run_session_def dm)
  have ok: "store_ok (dm_store d0)" and st: "dm_store d0 = dm_store d" using assms(1) by (simp_all add: d0_def dm)
  have c: "classify_prompt w ev d0 = (d1, waking)" by (simp add: d1_def waking_def)
  have own: "\<not> waking" if "reports_task ev"
    "is_fork_spawn (dm_store (fst (ingest_transcript w ev d0))) sid (ev_notif_tool_use_id ev) (ev_notif_task_id ev)"
    using that by (simp add: waking_def classify_prompt_def settle_prompt_def Let_def split_beta mark_spawn_terminal_def sid_def)
  show ?thesis
    using prompt_life[OF ok c] own by (auto simp: h st sid_def waking_def classify_prompt_def)
qed

definition bare_daemon :: daemon where
  "bare_daemon = daemon_new (fst (upsert_session store_empty (args_of_event (bare_event EvSessionStart ''s'')) 3)) 1"

lemma bare_daemon_ok: "store_ok (dm_store bare_daemon)"
  using store_ok_run[OF store_ok_empty, of "[UpsertSession (args_of_event (bare_event EvSessionStart ''s'')) 3]"]
  by (simp add: bare_daemon_def daemon_new_def)

lemmas bare = bare_daemon_def bare_event_def daemon_new_def args_of_event_def upsert_session_def insert_or_update_def
  new_session_def store_empty_def is_open_def session_rec_of_def

theorem prompt_starts_pause_witness:
  "ev_event (bare_event EvPromptSubmit ''s'') = EvPromptSubmit \<and> \<not> is_fork_run_session bare_daemon ''s''
   \<and> life (dm_store (handle_event (bare_world 9) (bare_event EvPromptSubmit ''s'') bare_daemon)) ''s'' = Some (True, 1)"
proof -
  let ?ev = "bare_event EvPromptSubmit ''s''" and ?w = "bare_world 9"
  let ?d0 = "note_session_env ''s'' None (clear_pending_close ''s'' (touch_busy ?w bare_daemon))"
  have k: "ev_event ?ev = EvPromptSubmit" "ev_session_id ?ev = ''s''" "ev_env ?ev = None" "ev_waking ?ev = Some True"
    "\<not> reports_task ?ev"
    by (simp_all add: bare_event_def reports_task_def)
  have f: "\<not> is_fork_run_session bare_daemon (ev_session_id ?ev)"
    by (simp add: is_fork_run_session_def is_fork_run_ref_def bare count_where_def)
  have l: "life (dm_store bare_daemon) ''s'' = Some (True, 0)" by (simp add: life_def bare)
  have n: "\<not> recently_chain_continued ?w ?d0 ''s''"
    by (simp add: recently_chain_continued_def note_session_env_def clear_pending_close_def touch_busy_def bare_daemon_def daemon_new_def)
  show ?thesis using prompt_starts_pause[OF bare_daemon_ok k(1) f, of ?w] k l n f by simp
qed

section \<open>The end of a fork run\<close>

text \<open>C13. When a fork run of a session ends in the pause it was started in, its idle latch is re-armed
  exactly if it completed, asked to continue, its definition on the roster still chains, neither the
  chain limit of the pause nor the hourly cap is reached, and the latch was set; and the session's gate
  is released, with the pause starting over, exactly if this fork holds it and was not re-armed. Every
  other latch, gate and pause is untouched, and the pause does not advance.\<close>

theorem own_completion_exact:
  fixes w :: world and d :: daemon and sid name status :: str and cont :: bool
  assumes "store_ok (dm_store d)" "session_of d sid = Some se"
  defines "d' \<equiv> on_own_fork_terminal w sid name status cont d"
    and "lab0 \<equiv> idle_pause_label (s_pause_epoch se)"
  defines "rearmed \<equiv> cont \<and> status = ''completed'' \<and> is_latched (dm_store d) sid name lab0
      \<and> (case roster_def w d se name of None \<Rightarrow> False | Some f \<Rightarrow> fd_chain f \<and> \<not> chain_spent w d se name f)"
  shows "(\<forall>i n lab. is_latched (dm_store d') i n lab \<longleftrightarrow>
           is_latched (dm_store d) i n lab \<and> \<not> (rearmed \<and> i = sid \<and> n = name \<and> lab = lab0))
    \<and> (\<exists>se'. session_of d' sid = Some se' \<and> s_pause_epoch se' = s_pause_epoch se
         \<and> (if \<not> rearmed \<and> s_active_gate se = Some name
            then s_active_gate se' = None \<and> s_pause_started_at se' = None
            else s_active_gate se' = s_active_gate se \<and> s_pause_started_at se' = s_pause_started_at se))
    \<and> (\<forall>i. i \<noteq> sid \<longrightarrow> session_of d' i = session_of d i)"
proof -
  have id: "s_session_id se = sid" by (rule session_of_id[OF assms(2)])
  let ?d1 = "if is_native_exec_client (s_client se) then note_chain_continued w sid d else d"
  have s1: "dm_store ?d1 = dm_store d" by (simp add: dm)
  have spent: "chain_spent w (note_chain_continued w sid d) se name f = chain_spent w d se name f" for f
    by (simp add: chain_spent_def dm)
  let ?r = "rearm_idle_latch (dm_store d) sid name (s_pause_epoch se)"
  let ?S = "if rearmed then fst ?r else dm_store d"
  have hit: "snd ?r \<longleftrightarrow> is_latched (dm_store d) sid name lab0"
    by (simp add: rearm_idle_latch_def is_latched_def lab0_def Let_def)
  have noop: "fst ?r = dm_store d" if "\<not> snd ?r"
    using that by (auto simp: rearm_idle_latch_def Let_def count_where_pos del_where_def filter_id_conv intro!: store.equality)
  define core where "core = (if cont \<and> status = ''completed'' then try_rearm w se name (roster_def w d se name) ?d1 else (d, False))"
  have core: "dm_store (fst core) = ?S" "snd core = rearmed"
    using noop s1 by (auto simp: core_def try_rearm_def Let_def split_beta id spent rearmed_def hit split: option.split)
  have d': "dm_store d' = (if \<not> rearmed \<and> s_active_gate se = Some name
      then clear_pause_baseline (clear_active_gate ?S sid) sid else ?S)"
    using core by (simp add: d'_def on_own_fork_terminal_def assms(2) Let_def split_beta dm flip: core_def)
  have latches: "is_latched (dm_store d') i n lab \<longleftrightarrow>
      is_latched (dm_store d) i n lab \<and> \<not> (rearmed \<and> i = sid \<and> n = name \<and> lab = lab0)" for i n lab
    by (auto simp: d' is_latched_iff clear_pause_baseline_def clear_active_gate_def upd_session_def rearm_idle_latch_def
        Let_def set_del_where is_fire_def lab0_def)
  have sess: "sessions ?S = sessions (dm_store d)" by (simp add: rearm_idle_latch_def Let_def)
  have recS: "session_rec_of ?S i = session_rec_of (dm_store d) i" for i by (simp only: session_rec_of_def sess)
  obtain r where r: "session_rec_of (dm_store d) sid = Some r" "se = row_to_session r"
    using assms(2) by (auto simp: session_of_def get_session_def)
  have rec: "session_rec_of (dm_store d') i = (if i = sid \<and> \<not> rearmed \<and> s_active_gate se = Some name
      then Some (r\<lparr>se_active_gate := None, se_pause_started_at := None\<rparr>) else session_rec_of (dm_store d) i)" for i
    using r(1) recS[of i] by (simp add: d' clear_pause_baseline_def clear_active_gate_def session_rec_of_upd)
  show ?thesis
    using latches r by (auto simp: session_of_def get_session_def rec row_to_session_def)
qed

definition gated_daemon :: daemon where
  "gated_daemon = bare_daemon\<lparr>dm_store := set_pause_started_at_if_unset (set_active_gate (dm_store bare_daemon) ''s'' ''g'') ''s'' 6\<rparr>"

theorem own_completion_exact_witness:
  "\<exists>se'. session_of (on_own_fork_terminal (bare_world 9) ''s'' ''g'' ''failed'' True gated_daemon) ''s'' = Some se'
     \<and> s_active_gate se' = None \<and> s_pause_started_at se' = None"
proof -
  have ok: "store_ok (dm_store gated_daemon)"
    using store_ok_run[OF bare_daemon_ok, of "[SetActiveGate ''s'' ''g'', SetPauseStarted ''s'' 6]"]
    by (simp add: gated_daemon_def)
  obtain se where se: "session_of gated_daemon ''s'' = Some se" "s_active_gate se = Some ''g''"
    by (auto simp: session_of_def get_session_def row_to_session_def gated_daemon_def bare set_active_gate_def
        set_pause_started_at_if_unset_def upd_session_def upd_where_def)
  show ?thesis
    using own_completion_exact[OF ok se(1), of "bare_world 9" "''g''" "''failed''" True] se(2) by auto
qed

section \<open>Closing\<close>

lemma life_final_runs: "store_ok (dm_store d) \<Longrightarrow> life (dm_store (fst (take_final_runs_for_close w r reason d))) i = life (dm_store d) i"
  using quiet_final_runs by (rule runs_life[OF quiet_runs])

lemma close_session_snd: "store_ok s \<Longrightarrow> snd (close_session s sid reason t) = is_open s sid"
proof -
  assume ok: "store_ok s"
  have e: "snd (close_session s sid reason t) \<longleftrightarrow> (\<exists>r\<in>set (sessions s). se_id r = sid \<and> se_status r = Open)"
    by (simp add: close_session_def Let_def count_where_pos)
  show ?thesis
  proof (cases "session_rec_of s sid")
    case None
    then have "sid \<notin> se_id ` set (sessions s)" by (simp add: session_rec_of_None)
    with None show ?thesis unfolding e by (auto simp: is_open_def)
  next
    case (Some r)
    have "x = r" if "x \<in> set (sessions s)" "se_id x = sid" for x
      using session_rec_ofI[of s x sid] ok that Some by (simp add: store_ok_def)
    then show ?thesis unfolding e using Some session_rec_of_id[OF Some] by (auto simp: is_open_def)
  qed
qed

lemma close_session_fst: "store_ok s \<Longrightarrow> is_open (fst (close_session s sid reason t)) i \<longleftrightarrow> i \<noteq> sid \<and> is_open s i"
  using is_open_step[of s "CloseSession sid reason t" i] by (auto simp: opens_def ends_def close_session_snd)

text \<open>The parts of a close, named.\<close>

lemma close_shape:
  assumes "store_ok (dm_store d)"
  obtains d1 specs d3 where
    "quiet plain d d1" "hooks_started d1 = hooks_started d" "end_runs d1 = end_runs d" "session_env d1 = session_env d"
    "(d1, specs) = (case session_of d sid of
        Some r \<Rightarrow> if flush \<and> s_status r = Open then take_final_runs_for_close w r reason d else (d, []) | None \<Rightarrow> (d, []))"
    "dm_store d3 = fst (close_session (dm_store d1) sid reason (wd_now w))" "hooks_started d3 = hooks_started d"
    "end_runs d3 = end_runs d @ (case session_of d sid of None \<Rightarrow> [] | Some r \<Rightarrow> if specs = [] then [] else [end_run_of d r specs])"
    "session_env d3 = session_env d"
    "close_session_with_flush w sid reason flush d =
       (if \<not> is_open (dm_store d) sid then (d3, False)
        else (forget_session_env sid (case session_of d1 sid of None \<Rightarrow> d3 | Some r \<Rightarrow>
            if is_fork_run_session d3 sid then d3 else fire_matching w (ctx_from_row r) (FireEnd reason) d3), True))"
proof -
  let ?row = "session_of d sid"
  let ?r = "case ?row of Some r \<Rightarrow> if flush \<and> s_status r = Open then take_final_runs_for_close w r reason d else (d, [])
      | None \<Rightarrow> (d, [])"
  let ?d1 = "fst ?r"
  let ?d2 = "?d1\<lparr>dm_store := fst (close_session (dm_store ?d1) sid reason (wd_now w))\<rparr>"
  let ?d3 = "case ?row of Some r \<Rightarrow> spawn_end_runner r (snd ?r) ?d2 | None \<Rightarrow> ?d2"
  have q: "quiet plain d ?d1" by (simp add: quiet_final_runs split: option.split)
  have fr: "hooks_started (fst (take_final_runs_for_close w r reason d)) = hooks_started d"
    "end_runs (fst (take_final_runs_for_close w r reason d)) = end_runs d"
    "session_env (fst (take_final_runs_for_close w r reason d)) = session_env d" for r
    by (simp_all add: take_final_runs_for_close_def split_beta)
  have f: "hooks_started ?d1 = hooks_started d" "end_runs ?d1 = end_runs d" "session_env ?d1 = session_env d"
    by (simp_all add: fr split: option.split)
  have "store_ok (dm_store ?d1)" "life (dm_store ?d1) sid = life (dm_store d) sid"
    using runs_ok[OF quiet_runs[OF q] assms] runs_life[OF quiet_runs[OF q] assms] by auto
  then have tr: "snd (close_session (dm_store ?d1) sid reason (wd_now w)) = is_open (dm_store d) sid"
    by (simp add: close_session_snd life_open)
  have shape: "close_session_with_flush w sid reason flush d =
       (if \<not> is_open (dm_store d) sid then (?d3, False)
        else (forget_session_env sid (case session_of ?d1 sid of None \<Rightarrow> ?d3 | Some r \<Rightarrow>
            if is_fork_run_session ?d3 sid then ?d3 else fire_matching w (ctx_from_row r) (FireEnd reason) ?d3), True))"
    unfolding close_session_with_flush_def Let_def split_beta tr by (cases "session_of ?d1 sid") simp_all
  show ?thesis
    by (rule that[OF q f, of "snd ?r" ?d3])
      (auto simp: spawn_end_runner_def end_run_of_def fr shape split: option.split)
qed

lemma is_open_plain: "quiet plain d d' \<Longrightarrow> store_ok (dm_store d) \<Longrightarrow> is_open (dm_store d') i = is_open (dm_store d) i"
  using runs_life[OF quiet_runs, of d d' i] by (simp add: life_open)

lemma forget_open [simp]: "is_open (dm_store (forget_session_env sid d)) i = is_open (dm_store d) i"
  by (simp add: dm)

lemma fire_end_runs: "end_runs (fire_matching w ctx e d) = end_runs d"
proof -
  have x: "end_runs (execute w ctx entry ev extra d) = end_runs d" for entry ev extra d
    by (simp add: execute_def Let_def touch_busy_def feed_hook_started_def dm)
  have "end_runs (foldl (\<lambda>d entry. case fires_as e (ph_def (he_parsed entry)) of None \<Rightarrow> d
        | Some (event_name, extra) \<Rightarrow> execute w ctx entry event_name extra d) d xs) = end_runs d" for xs
    by (induction xs arbitrary: d) (auto simp: x split: option.split)
  then show ?thesis by (simp add: fire_matching_def)
qed

lemma close_effect:
  fixes w :: world and d :: daemon and sid reason :: str and flush :: bool
  assumes "store_ok (dm_store d)"
  defines "r \<equiv> close_session_with_flush w sid reason flush d"
  shows "snd r = is_open (dm_store d) sid" "is_open (dm_store (fst r)) i \<longleftrightarrow> i \<noteq> sid \<and> is_open (dm_store d) i"
    "\<not> is_open (dm_store d) sid \<Longrightarrow> hooks_started (fst r) = hooks_started d \<and> end_runs (fst r) = end_runs d"
    "is_open (dm_store d) sid \<Longrightarrow> session_env (fst r) sid = None"
    "end_runs (fst r) = end_runs d \<or> (\<exists>e. end_runs (fst r) = end_runs d @ [e] \<and> er_session_id e = sid \<and> er_env e = session_env d sid
       \<and> flush \<and> flushable reason \<and> is_open (dm_store d) sid \<and> \<not> is_fork_run_session d sid)"
proof -
  obtain d1 specs d3 where q: "quiet plain d d1"
    and sp: "(d1, specs) = (case session_of d sid of
        Some r \<Rightarrow> if flush \<and> s_status r = Open then take_final_runs_for_close w r reason d else (d, []) | None \<Rightarrow> (d, []))"
    and d3: "dm_store d3 = fst (close_session (dm_store d1) sid reason (wd_now w))" "hooks_started d3 = hooks_started d"
      "end_runs d3 = end_runs d @ (case session_of d sid of None \<Rightarrow> [] | Some r \<Rightarrow> if specs = [] then [] else [end_run_of d r specs])"
      "session_env d3 = session_env d"
    and shape: "close_session_with_flush w sid reason flush d =
       (if \<not> is_open (dm_store d) sid then (d3, False)
        else (forget_session_env sid (case session_of d1 sid of None \<Rightarrow> d3 | Some r \<Rightarrow>
            if is_fork_run_session d3 sid then d3 else fire_matching w (ctx_from_row r) (FireEnd reason) d3), True))"
    by (rule close_shape[OF assms(1), where sid = sid and flush = flush and w = w and reason = reason])
  have ok1: "store_ok (dm_store d1)" by (rule runs_ok[OF quiet_runs[OF q] assms(1)])
  have ok3: "store_ok (dm_store d3)" using store_ok_step[OF ok1, of "CloseSession sid reason (wd_now w)"] by (simp add: d3)
  have o3: "is_open (dm_store d3) i \<longleftrightarrow> i \<noteq> sid \<and> is_open (dm_store d) i" for i
    by (simp add: d3(1) close_session_fst[OF ok1] is_open_plain[OF q assms(1)])
  have o4: "is_open (dm_store (fire_matching w ctx e d3)) i = is_open (dm_store d3) i" for ctx e i
    by (rule is_open_plain[OF quiet_fire_matching ok3])
  have e4: "end_runs (fire_matching w ctx e d3) = end_runs d3" for ctx e
    by (rule fire_end_runs)
  have closed: "specs = []" if "\<not> is_open (dm_store d) sid"
  proof -
    have "s_status r \<noteq> Open" if "session_of d sid = Some r" for r
      using that \<open>\<not> is_open _ _\<close> by (auto simp: session_of_def get_session_def row_to_session_def is_open_def split: option.splits)
    then show ?thesis using sp by (auto split: option.splits)
  qed
  show "snd r = is_open (dm_store d) sid" by (simp add: r_def shape)
  show "is_open (dm_store (fst r)) i \<longleftrightarrow> i \<noteq> sid \<and> is_open (dm_store d) i"
    by (simp add: r_def shape o3 o4 split: option.split)
  show "hooks_started (fst r) = hooks_started d \<and> end_runs (fst r) = end_runs d" if "\<not> is_open (dm_store d) sid"
    using that closed by (simp add: r_def shape d3 split: option.split)
  show "session_env (fst r) sid = None" if "is_open (dm_store d) sid"
    using that by (simp add: r_def shape forget_session_env_def)
  have "end_runs (fst r) = end_runs d3"
    by (simp add: r_def shape forget_session_env_def e4 split: option.split)
  moreover have "specs \<noteq> [] \<Longrightarrow> session_of d sid = Some x \<Longrightarrow> flush \<and> flushable reason \<and> is_open (dm_store d) sid
      \<and> \<not> is_fork_run_session d sid" for x
    using sp closed session_of_id[of d sid x] by (auto simp: take_final_runs_for_close_def split: if_splits)
  ultimately show "end_runs (fst r) = end_runs d \<or> (\<exists>e. end_runs (fst r) = end_runs d @ [e] \<and> er_session_id e = sid \<and> er_env e = session_env d sid
       \<and> flush \<and> flushable reason \<and> is_open (dm_store d) sid \<and> \<not> is_fork_run_session d sid)"
    using session_of_id[of d sid] by (auto simp: d3 end_run_of_def split: option.split)
qed

text \<open>A session closes once. Whatever reports the end - the client, a lost poll, a dead process, a
  sweep, a prune - the first close answers true exactly if the session was open, leaves every other
  session as it is, starts at most one end-runner, and that one only if this kind of close flushes, with
  the session's own credentials, which are then forgotten. Every later close, in any world and for any
  reason, answers false and starts nothing.\<close>

theorem close_exactly_once:
  fixes w :: world and d :: daemon and sid reason :: str and flush :: bool
  assumes "store_ok (dm_store d)"
  defines "r \<equiv> close_session_with_flush w sid reason flush d"
  shows "snd r = is_open (dm_store d) sid
    \<and> (\<forall>i. is_open (dm_store (fst r)) i \<longleftrightarrow> i \<noteq> sid \<and> is_open (dm_store d) i)
    \<and> (snd r \<longrightarrow> session_env (fst r) sid = None)
    \<and> (end_runs (fst r) = end_runs d \<or> (\<exists>e. end_runs (fst r) = end_runs d @ [e] \<and> er_session_id e = sid
         \<and> er_env e = session_env d sid \<and> flush \<and> flushable reason \<and> snd r))
    \<and> (\<forall>w' reason' flush'. let r' = close_session_with_flush w' sid reason' flush' (fst r)
         in \<not> snd r' \<and> hooks_started (fst r') = hooks_started (fst r) \<and> end_runs (fst r') = end_runs (fst r))"
proof -
  note e = close_effect[OF assms(1), where w = w and sid = sid and reason = reason and flush = flush, folded r_def]
  have ok: "store_ok (dm_store (fst r))"
    unfolding r_def by (rule runs_ok[OF quiet_runs[OF quiet_close] assms(1)])
  have c: "\<not> is_open (dm_store (fst r)) sid" by (simp add: e(2))
  show ?thesis using e c close_effect(1,3)[OF ok, where sid = sid] by (auto simp: Let_def)
qed

theorem close_exactly_once_witness:
  "snd (close_session_with_flush (bare_world 9) ''s'' ''gone'' True bare_daemon)
   \<and> \<not> snd (close_session_with_flush (bare_world 10) ''s'' ''timeout'' True
         (fst (close_session_with_flush (bare_world 9) ''s'' ''gone'' True bare_daemon)))"
proof -
  have "is_open (dm_store bare_daemon) ''s''" by (simp add: bare)
  then show ?thesis
    using close_exactly_once[OF bare_daemon_ok, of "bare_world 9" "''s''" "''gone''" True] by (auto simp: Let_def)
qed

section \<open>Fork runs are never sessions\<close>

definition shielded :: "str \<Rightarrow> store_op \<Rightarrow> bool" where
  "shielded i op \<longleftrightarrow> (\<forall>a t. op = UpsertSession a t \<longrightarrow> a_id a \<noteq> i)"

abbreviation shields :: "str \<Rightarrow> daemon \<Rightarrow> daemon \<Rightarrow> bool" where
  "shields i d d' \<equiv> runs (shielded i) (dm_store d) (dm_store d')"

lemma shielded_plain: "plain op \<Longrightarrow> shielded i op"
  by (auto simp: shielded_def)

lemma shield_plain: "quiet plain d d' \<Longrightarrow> shields i d d'"
  by (erule runs_mono[OF quiet_runs]) (rule shielded_plain)

lemma shield_close: "shields i d (fst (close_session_with_flush w sid reason flush d))"
  "shields i d (fst (close_session_firing_hooks w sid reason d))"
  unfolding close_session_firing_hooks_def
  by (rule runs_mono[OF quiet_runs[OF quiet_close]], auto simp: shutting_def shielded_def)+

lemma registers_shielded: "registers ev op \<Longrightarrow> ev_session_id ev \<noteq> i \<Longrightarrow> shielded i op"
  by (auto simp: registers_def shielded_def args_of_event_def)

lemma shield_registers: "quiet (registers ev) d d' \<Longrightarrow> ev_session_id ev \<noteq> i \<Longrightarrow> shields i d d'"
  by (erule runs_mono[OF quiet_runs]) (erule registers_shielded)

interpretation sh: preorder_frame "shields i" for i
  by unfold_locales (simp, rule runs_trans)

lemma shield_event:
  assumes "is_fork_run_session d i"
  shows "shields i d (handle_event w ev d)"
proof -
  let ?sid = "ev_session_id ev" and ?d = "touch_busy w d"
  let ?d1 = "note_session_env ?sid (ev_env ev) (clear_pending_close ?sid ?d)"
  have st: "dm_store ?d1 = dm_store d" "dm_store ?d = dm_store d" by (simp_all add: dm)
  have e: "shields i d (on_session_end w ev ?d1)"
    using shield_close(2)[of i "cancel_wait ?sid ?d1"] by (simp add: on_session_end_def dm)
  show ?thesis
  proof (cases "ev_event ev \<noteq> EvSessionEnd \<and> is_fork_run_session d ?sid")
    case True
    then show ?thesis by (simp add: handle_event_def Let_def is_fork_run_session_def st)
  next
    case False
    then have go: "?sid \<noteq> i \<or> ev_event ev = EvSessionEnd" using assms by auto
    obtain d' where p: "on_prompt_submit w ev ?d1 = cancel_wait ?sid d'"
      and q: "quiet (\<lambda>op. registers ev op \<or> op = BumpPauseEpoch ?sid) ?d1 d'" by (rule prompt_shape)
    have pr: "shields i d (on_prompt_submit w ev ?d1)" if "?sid \<noteq> i"
      unfolding p using runs_mono[OF quiet_runs[OF q], of "shielded i"] registers_shielded[OF _ that] st
      by (auto simp: dm shielded_def)
    have "shields i d (on_session_start w ev ?d1)" if "?sid \<noteq> i"
      using shield_registers[OF quiet_session_start that, of ?d1 w] st by simp
    then show ?thesis
      using False go e pr st by (cases "ev_event ev") (auto simp: handle_event_def Let_def is_fork_run_session_def)
  qed
qed

lemma shield_completed: "shields i d (handle_fork_completed w sid fork run_ref status cont d)"
proof -
  let ?d = "touch_busy w d"
  let ?m = "?d\<lparr>dm_store := fst (mark_spawn_terminal (dm_store ?d) sid (Some run_ref) None status (wd_now w))\<rparr>"
  have m: "quiet plain d ?m"
    using runs_op[of plain "MarkSpawnTerminal sid (Some run_ref) None status (wd_now w)" "dm_store ?d"]
    by (intro quiet_trans[OF quiet_small(1) quiet_store]) simp
  show ?thesis
    using shield_plain[OF m] shield_plain[OF quiet_trans[OF m quiet_terminal]]
    by (simp add: handle_fork_completed_def Let_def split_beta dm)
qed

lemma shield_sweeps: "shields i d (harness_sweep w d)" "shields i d (session_sweep w d)" "shields i d (fst (prune w d))"
  unfolding harness_sweep_def session_sweep_def prune_def Let_def fst_conv
  by (rule sh.fold_le; simp add: shield_close split_beta)+

lemma shield_dispatch: "is_fork_run_session d i \<Longrightarrow> shields i d (fst (dispatch w r d))"
proof -
  assume "is_fork_run_session d i"
  then have f: "is_fork_run_session (touch_busy w d) i" by (simp add: is_fork_run_session_def dm)
  have t: "shields i (touch_busy w d) d' \<Longrightarrow> shields i d d'" for d' by (simp add: dm)
  have q: "quiet plain (touch_busy w d) d' \<Longrightarrow> shields i d d'" for d' by (rule t[OF shield_plain])
  show ?thesis
    using t[OF shield_event[OF f]] t[OF shield_completed] t[OF shield_sweeps(3)] q[OF quiet_peek] q[OF quiet_requests(1)]
      q[OF quiet_requests(2)] q[OF quiet_requests(3)] q[OF quiet_requests(4)] q[OF quiet_requests(5)] q[OF quiet_requests(6)]
    by (cases r) (simp_all add: acked_def handle_run_state_def request_shutdown_def dm)
qed

lemma shield_enter:
  assumes "is_fork_run_session d i"
  shows "shields i d (fst (enter_stop_wait w ev d))"
    and "snd (enter_stop_wait w ev d) = Parked pl \<Longrightarrow> pl_sid pl \<noteq> i"
proof -
  let ?sid = "ev_session_id ev" and ?d = "touch_busy w d"
  let ?d1 = "note_session_env ?sid (ev_env ev) (clear_pending_close ?sid ?d)"
  let ?dead = "case ev_harness ev of None \<Rightarrow> False | Some h \<Rightarrow> \<not> harness_alive w h"
  have st: "dm_store ?d1 = dm_store d" "dm_store ?d = dm_store d" by (simp_all add: dm)
  obtain d2 d3 p d4 where sh: "quiet (registers ev) ?d1 d2" "register_wait ?sid d2 = (d3, p)" "quiet plain d3 d4"
    and res: "case snd (enter_registered w ev ?d1) of
       Answered r \<Rightarrow> fst (enter_registered w ev ?d1) = unpark ?sid d4
     | Parked pl \<Rightarrow> fst (enter_registered w ev ?d1) = d4 \<and> pl_id pl = p \<and> pl_sid pl = ?sid"
    using enter_registered_shape[of ev ?d1 w] by blast
  have "dm_store d3 = dm_store d2" using sh(2) by (auto simp: register_wait_def Let_def park_def dm)
  then have reg: "shields i d d4" if "?sid \<noteq> i"
    using runs_trans[OF shield_registers[OF sh(1) that] shield_plain[OF sh(3), of i, unfolded \<open>dm_store d3 = _\<close>]] st by simp
  have reg': "shields i d (fst (enter_registered w ev ?d1))" if "?sid \<noteq> i"
    using res reg[OF that] by (auto simp: dm split: entry.splits)
  have sid: "?sid \<noteq> i" if "\<not> is_fork_run_session ?d ?sid"
    using that assms by (auto simp: is_fork_run_session_def dm)
  have close: "shields i d (fst (close_session_firing_hooks w ?sid ''gone'' ?d))" using shield_close(2)[of i ?d] st by simp
  show "shields i d (fst (enter_stop_wait w ev d))"
    using reg' sid close st by (auto simp: enter_stop_wait_def Let_def)
  show "pl_sid pl \<noteq> i" if "snd (enter_stop_wait w ev d) = Parked pl"
    using that res sid by (auto simp: enter_stop_wait_def Let_def split: if_splits)
qed

lemma shield_step:
  assumes "sys_step y y'" "is_fork_run_session (sy_daemon y) i"
  shows "shields i (sy_daemon y) (sy_daemon y')"
    and "\<forall>pl\<in>set (sy_polls y). pl_sid pl \<noteq> i \<Longrightarrow> \<forall>pl\<in>set (sy_polls y'). pl_sid pl \<noteq> i"
proof -
  have pstep: "shields i d (fst (poll_act_of w a pl d))" for w a pl d
    using poll_act_shape[where w = w and a = a and pl = pl and d = d] shield_plain[of d _ i]
    by (auto simp: dm split: poll_result.splits)
  have lost: "shields i d (lose_poll w pl d)" for w pl d
    using shield_close(2)[of i "unpark (pl_sid pl) d"] by (simp add: lose_poll_def on_poll_lost_def Let_def dm)
  have grace: "shields i d (grace_elapsed w t d)" for w t d
    using shield_close(2)[of i "clear_pending_close (fst t) (d\<lparr>grace_timers := remove1 t (grace_timers d)\<rparr>)"]
    by (simp add: grace_elapsed_def Let_def split_beta dm)
  show "shields i (sy_daemon y) (sy_daemon y')"
    using assms
  proof (induction rule: sys_step.induct)
    case (request r d ps w proto)
    then show ?case using shield_dispatch by (simp add: answer_frame_def)
  next
    case (enter w ev d d' pl ps)
    then show ?case using shield_enter(1)[where d = d and i = i and w = w and ev = ev] by simp
  next
    case (enter_answered w ev d d' r ps)
    then show ?case using shield_enter(1)[where d = d and i = i and w = w and ev = ev] by simp
  next
    case (poll pl ps w a d d' r)
    then show ?case using pstep[where d = d and w = w and a = a and pl = pl] by simp
  next
    case (job j d ps w e)
    then show ?case using shield_plain[OF quiet_job_finished] by simp
  qed (simp_all add: lost grace shield_sweeps quiet_sweep_def shield_plain[OF quiet_change])
  show "\<forall>pl\<in>set (sy_polls y). pl_sid pl \<noteq> i \<Longrightarrow> \<forall>pl\<in>set (sy_polls y'). pl_sid pl \<noteq> i"
    using assms
  proof (induction rule: sys_step.induct)
    case (enter w ev d d' pl ps)
    then show ?case using shield_enter(2)[where d = d and i = i and w = w and ev = ev and pl = pl] by simp
  next
    case (poll pl ps w a d d' r)
    then show ?case using poll_act_shape[where w = w and a = a and pl = pl and d = d]
      by (auto simp: put_poll_def split: poll_result.splits)
  qed auto
qed

lemma shielded_absent:
  assumes "runs (shielded i) s s'" "session_rec_of s i = None"
  shows "session_rec_of s' i = None"
proof -
  have "list_all (shielded i) ops \<Longrightarrow> session_rec_of s i = None \<Longrightarrow> session_rec_of (store_run s ops) i = None" for ops
  proof (induction ops arbitrary: s)
    case (Cons op ops)
    have "\<not> opens i s op" using Cons.prems(1) by (auto simp: opens_iff shielded_def)
    then have "session_rec_of (store_step s op) i = None"
      using session_step_None[OF Cons.prems(2), of op] by (auto split: option.splits)
    with Cons show ?case by simp
  qed simp
  then show ?thesis using assms by (auto simp: runs_def)
qed

text \<open>C12. As long as the spawn registry knows an id as a fork run, no step of the daemon registers it as
  a session or parks a poll for it, so no fork is ever selected, latched or run for a fork run of the
  daemon's own.\<close>

theorem fork_runs_never_scheduled:
  assumes "(\<lambda>y y'. sys_step y y' \<and> is_fork_run_session (sy_daemon y') i)\<^sup>*\<^sup>* y y'"
    and "is_fork_run_session (sy_daemon y) i" "session_of (sy_daemon y) i = None" "\<forall>pl\<in>set (sy_polls y). pl_sid pl \<noteq> i"
  shows "session_of (sy_daemon y') i = None \<and> (\<forall>pl\<in>set (sy_polls y'). pl_sid pl \<noteq> i)"
proof -
  have "is_fork_run_session (sy_daemon y') i \<and> session_rec_of (dm_store (sy_daemon y')) i = None
      \<and> (\<forall>pl\<in>set (sy_polls y'). pl_sid pl \<noteq> i)"
    using assms(1)
  proof (induction rule: rtranclp_induct)
    case base
    show ?case using assms(2-4) by (simp add: session_of_def get_session_def)
  next
    case (step y1 y2)
    then show ?case using shield_step[of y1 y2 i] shielded_absent by blast
  qed
  then show ?thesis by (simp add: session_of_def get_session_def)
qed

theorem fork_runs_never_scheduled_witness:
  defines "d \<equiv> handle_fork_spawned (bare_world 4) ''s'' ''f'' ''r'' bare_daemon"
  shows "is_fork_run_session d ''r''
   \<and> session_of (fst (answer_frame (bare_world 5) 1 (Event (bare_event EvPromptSubmit ''r'')) d)) ''r'' = None"
proof -
  let ?y = "\<lparr>sy_daemon = d, sy_polls = []\<rparr>"
  let ?y' = "\<lparr>sy_daemon = fst (answer_frame (bare_world 5) 1 (Event (bare_event EvPromptSubmit ''r'')) d), sy_polls = []\<rparr>"
  have f: "is_fork_run_session d ''r''"
    by (simp add: d_def handle_fork_spawned_def is_fork_run_session_def is_fork_run_ref_def bare dm record_spawn_def
        insert_or_ignore_def count_where_def)
  have s: "session_of d ''r'' = None"
    by (simp add: d_def handle_fork_spawned_def session_of_def get_session_def bare dm record_spawn_def)
  have f': "is_fork_run_session (sy_daemon ?y') ''r''"
    using f by (simp add: answer_frame_def acked_def handle_event_def is_fork_run_session_def bare_event_def Let_def dm PROTO_VERSION_def)
  have "sys_step ?y ?y'" by (rule sys_step.request) (simp add: is_stop_wait_def)
  with f' have r: "(\<lambda>y y'. sys_step y y' \<and> is_fork_run_session (sy_daemon y') ''r'')\<^sup>*\<^sup>* ?y ?y'" by (intro r_into_rtranclp) simp
  show ?thesis using fork_runs_never_scheduled[OF r] f s by simp
qed

end
