(* ===== verification/Poll_Laws.thy ===== *)
theory Poll_Laws
  imports Daemon_Laws
begin

text \<open>
  What a parked poll consumes and delivers: a step that does not answer with a wake leaves every run
  record, held fork, pending trigger and fork latch alone; a wake feed that ends while the poll listens
  is delivered by its next nudge; and the window between the entry's last look and the subscription, in
  which a nudge is lost.
\<close>

section \<open>Nothing is spent without a wake\<close>

text \<open>Latches of idle hooks are set as hooks fire, so they are left out.\<close>

definition unspent :: "store \<Rightarrow> store \<Rightarrow> bool" where
  "unspent s s' \<longleftrightarrow> fork_runs s' = fork_runs s \<and> pending_deps s' = pending_deps s \<and> pending_trigs s' = pending_trigs s
     \<and> (\<forall>i n lab. \<not> prefix ''hook:'' n \<longrightarrow> is_latched s' i n lab = is_latched s i n lab)"

lemma unspent_refl [simp]: "unspent s s"
  by (simp add: unspent_def)

lemma unspent_trans: "unspent s s' \<Longrightarrow> unspent s' s'' \<Longrightarrow> unspent s s''"
  by (simp add: unspent_def)

interpretation us: preorder_frame unspent
  by unfold_locales (simp, rule unspent_trans)

interpretation usd: preorder_frame "\<lambda>d d'. unspent (dm_store d) (dm_store d')"
  by unfold_locales (simp, rule unspent_trans)

lemma unspent_fields:
  "fork_runs s' = fork_runs s \<Longrightarrow> pending_deps s' = pending_deps s \<Longrightarrow> pending_trigs s' = pending_trigs s
     \<Longrightarrow> fork_fires s' = fork_fires s \<Longrightarrow> unspent s s'"
  by (simp add: unspent_def is_latched_def)

lemma unspent_ops [simp]:
  "unspent s (fst (queue_fork s i n p t))" "unspent s (clear_active_gate s i)" "unspent s (stamp_hook_run s i n t)"
  "unspent s (fst (take_wake_blocks s i))" "unspent s (fst (take_reports s i))"
  by (rule unspent_fields; simp add: queue_fork_def clear_active_gate_def upd_session_def stamp_hook_run_def
      take_wake_blocks_def take_reports_def Let_def split_beta)+

lemma unspent_hook_latch: "unspent s (fst (try_latch_fire s i (''hook:'' @ h) lab t))"
proof -
  have "fork_runs (fst (try_latch_fire s i n lab t)) = fork_runs s"
    "pending_deps (fst (try_latch_fire s i n lab t)) = pending_deps s"
    "pending_trigs (fst (try_latch_fire s i n lab t)) = pending_trigs s" for n
    by (simp_all add: try_latch_fire_def Let_def split_beta)
  then show ?thesis by (auto simp: unspent_def try_latch_fire_holds)
qed

lemma unspent_select: "unspent s (fst (select_forks env s se ms hold))"
proof -
  have r: "unspent s (refresh_roster env s sid)" for sid unfolding refresh_roster_def by (rule us.foldl_le) simp
  have g: "unspent s (fst (apply_gate_filter env s sid sel))" for s sid sel
    by (simp add: apply_gate_filter_def split: option.split)
  show ?thesis using r unspent_trans[OF r g] by (auto simp: select_forks_def Let_def split_beta)
qed

lemma unspent_evaluate: "unspent (dm_store d) (dm_store (fst (evaluate_poll w pl d)))"
  using unspent_select[of "dm_store d" "env_with w (pl_session pl) (pl_cfg pl)" "pl_session pl" "all_moments w pl d" HoldApply]
  by (simp add: evaluate_poll_def Let_def split_beta)

lemma unspent_execute: "unspent (dm_store d) (dm_store (execute w ctx entry ev extra d))"
  by (simp add: execute_def Let_def dm)

lemma unspent_idle_hooks: "unspent (dm_store d) (dm_store (fire_idle_hooks w pl d))"
  unfolding fire_idle_hooks_def
proof (rule usd.fold_le)
  fix d :: daemon and x :: "hook_entry \<times> nat"
  let ?l = "\<lambda>e secs. fst (try_latch_fire (dm_store d) (pl_sid pl) (''hook:'' @ he_name e) (idle_hook_latch (s_pause_epoch (pl_session pl)) secs) (wd_now w))"
  have "unspent (dm_store d) (dm_store (execute w (ctx_from_row (pl_session pl)) e ''idle'' extra (d\<lparr>dm_store := ?l e secs\<rparr>)))" for e secs extra
    by (rule unspent_trans[OF unspent_hook_latch[where h = "he_name e"]])
      (use unspent_execute[of "d\<lparr>dm_store := ?l e secs\<rparr>"] in simp)
  then show "unspent (dm_store d) (dm_store (fire_idle_hook w pl x d))"
    using unspent_hook_latch[of "dm_store d" "pl_sid pl" "he_name (fst x)"]
    by (simp add: fire_idle_hook_def Let_def split_beta)
qed

lemma unspent_feed: "unspent (dm_store d) (dm_store (fst (take_feed_delivery se d)))"
proof -
  have "unspent s (fst (take_reports (fst (take_wake_blocks s i)) i))" for s i
    by (rule unspent_trans[of _ "fst (take_wake_blocks s i)"]) simp_all
  then show ?thesis by (simp add: take_feed_delivery_def Let_def split_beta)
qed

lemma unspent_issue:
  "snd (issue_poll w pl d) = Still pl' \<Longrightarrow> unspent (dm_store d) (dm_store (fst (issue_poll w pl d)))"
  using unspent_evaluate[of d w pl]
  by (auto simp: issue_poll_def issue_wake_def build_wake_def Let_def split_beta split: option.splits if_splits)

lemma issue_answer: "snd (issue_poll w pl d) = Resolved r \<Longrightarrow> \<exists>payload forks. r = RWake payload (Some forks) None"
  by (auto simp: issue_poll_def Let_def split_beta split: option.splits prod.splits)

lemma unspent_due:
  assumes "\<forall>payload forks. snd (due_poll w pl d) \<noteq> Resolved (RWake payload (Some forks) None)"
  shows "unspent (dm_store d) (dm_store (fst (due_poll w pl d)))"
proof (cases "snd (issue_poll w pl d)")
  case (Resolved r)
  then show ?thesis using issue_answer[OF Resolved] assms by (auto simp: due_poll_def split: if_splits)
next
  case (Still pl')
  then show ?thesis using unspent_issue[OF Still] by (simp add: due_poll_def)
qed

section \<open>A small poll\<close>

definition bare_poll :: "poll_phase \<Rightarrow> poll" where
  "bare_poll ph = \<lparr>pl_id = 0, pl_session = (the (session_of bare_daemon ''s''))\<lparr>s_client := Some ''claude-code''\<rparr>,
     pl_cfg = config_default, pl_prompt_tokens = None, pl_max_tokens = 0, pl_baseline = 3, pl_deadlines = [],
     pl_idle_hooks = [], pl_pause_gate = None, pl_instants = [8], pl_next = 0, pl_phase = ph\<rparr>"

definition bare_job :: hook_job where
  "bare_job = \<lparr>hj_hook = ''h'', hj_event = ''event'', hj_ctx = \<lparr>hc_session_id = ''s'', hc_cwd = ''/p'', hc_project_root = ''/p'',
     hc_client = None, hc_transcript_path = None\<rparr>, hj_command = ''echo hi'', hj_cwd = ''/p'', hj_timeout = 60,
     hj_deliver = DWake, hj_max_bytes = 100, hj_clear = [], hj_vars = []\<rparr>"

lemma bare_sid: "pl_sid (bare_poll ph) = ''s''" "s_client (pl_session (bare_poll ph)) = Some ''claude-code''"
  by (simp_all add: bare_poll_def session_of_def get_session_def row_to_session_def bare)

lemma bare_job_facts: "hj_deliver bare_job = DWake" "hc_session_id (hj_ctx bare_job) = pl_sid (bare_poll ph)"
  by (simp_all add: bare_job_def bare_sid)

lemma hi_trim: "trim ''hi'' \<noteq> []" by code_simp

lemma resolved_feed: "snd (take_feed_delivery se d) = Some r \<Longrightarrow> \<exists>payload feed. r = RWake payload None (Some feed)"
  by (auto simp: take_feed_delivery_def Let_def split_beta split: if_splits)

text \<open>A step of a parked poll that does not answer it with a wake that carries forks records no
  run, holds or releases no fork, consumes no external trigger and sets no latch of a fork.\<close>

theorem nothing_spent_without_wake:
  assumes "poll_act_of w a pl d = (d', r)"
    and "\<forall>payload forks. r \<noteq> Resolved (RWake payload (Some forks) None)"
  shows "unspent (dm_store d) (dm_store d')"
proof -
  let ?hooks = "\<lambda>pl. fire_idle_hooks w pl d"
  have due: "unspent (dm_store d) (dm_store (fst (due_poll w q e)))"
    if "unspent (dm_store d) (dm_store e)" "due_poll w q e = (d', r)" for q e
    using unspent_trans[OF that(1) unspent_due[of w q e]] that(2) assms(2) by simp
  have timer: "unspent (dm_store d) (dm_store (fst (evaluate_poll w q (?hooks q))))" for q
    by (rule unspent_trans[OF unspent_idle_hooks unspent_evaluate])
  have nudged: "unspent (dm_store d) (dm_store (fst (evaluate_poll w q (fst (take_feed_delivery se d)))))" for q se
    by (rule unspent_trans[OF unspent_feed unspent_evaluate])
  show ?thesis
  proof (cases a)
    case Subscribe
    then show ?thesis using assms due[of d pl]
      by (auto simp: poll_act_of_def subscribe_poll_def split: if_splits)
  next
    case Timer
    let ?q = "pl\<lparr>pl_next := pl_next pl + 1\<rparr>"
    show ?thesis using assms(1) Timer due[OF timer[of ?q], of ?q] timer[of ?q]
      by (auto simp: poll_act_of_def timer_poll_def Let_def split_beta split: if_splits)
  next
    case Nudged
    let ?q = "pl\<lparr>pl_phase := Waiting (nudges d (pl_sid pl))\<rparr>"
    show ?thesis using assms(1) Nudged due[OF nudged[of ?q "pl_session pl"], of ?q] nudged[of ?q "pl_session pl"]
        unspent_feed[of d "pl_session pl"]
      by (auto simp: poll_act_of_def nudge_poll_def Let_def split_beta dm split: if_splits option.splits prod.splits)
  next
    case Debounced
    then show ?thesis using assms due[of d pl] unspent_due[of w pl d] unspent_issue[of w pl d] issue_answer[of w pl d]
      by (cases r) (auto simp: poll_act_of_def)
  next
    case Cancel
    then show ?thesis using assms(1) by (auto simp: poll_act_of_def cancel_poll_def dm)
  qed
qed

theorem nothing_spent_without_wake_witness:
  "timer_ready (bare_world 9) (bare_poll (Waiting 0))
   \<and> unspent (dm_store bare_daemon) (dm_store (fst (poll_act_of (bare_world 9) Timer (bare_poll (Waiting 0)) bare_daemon)))"
proof -
  let ?r = "poll_act_of (bare_world 9) Timer (bare_poll (Waiting 0)) bare_daemon"
  have r: "?r = (fst ?r, snd ?r)" by simp
  have "\<forall>payload forks. snd ?r \<noteq> Resolved (RWake payload (Some forks) None)"
    by (simp add: poll_act_of_def timer_poll_def due_poll_def Let_def split_beta bare_poll_def config_default_def)
  from nothing_spent_without_wake[OF r this] show ?thesis by (simp add: timer_ready_def bare_poll_def bare_world_def)
qed

section \<open>Feeds and nudges\<close>

lemma wake_job_store:
  assumes "hj_deliver j = DWake" "trim out \<noteq> []"
  defines "sid \<equiv> hc_session_id (hj_ctx j)"
    and "block \<equiv> feed_block (hj_hook j) (hj_event j) (truncate_feed (hj_max_bytes j) (trim out))"
  shows "dm_store (job_finished w j (JobOk out) d) = spool_wake_block (dm_store d) sid (hj_hook j) block (wd_now w)"
    and "nudges (job_finished w j (JobOk out) d) = (nudges d)(sid := nudges d sid + 1)"
  using assms by (simp_all add: job_finished_def deliver_block_def delivers_def Let_def nudge_def with_store_def)

lemma spooled_last: "store_ok s \<Longrightarrow>
    spool_texts sid (wake_spool (spool_wake_block s sid h b t)) = spool_texts sid (wake_spool s) @ [b]"
  using wakes.conserve[of s sid "SpoolWakeBlock sid h b t"] by (simp add: wake_put_def wake_gone_def)

text \<open>What a poll does about forks leaves the wake blocks where they are.\<close>

interpretation wk: preorder_frame "\<lambda>s s'. wake_spool s' = wake_spool s"
  by unfold_locales simp_all

lemma wakes_evaluate: "wake_spool (dm_store (fst (evaluate_poll w pl d))) = wake_spool (dm_store d)"
proof -
  have r: "wake_spool (refresh_roster env s sid) = wake_spool s" for env s sid
    using refresh_roster_only[of env s sid] by auto
  have g: "wake_spool (fst (apply_gate_filter env s sid sel)) = wake_spool s" for env s sid sel
    by (simp add: apply_gate_filter_def clear_active_gate_def upd_session_def split: option.split)
  show ?thesis by (simp add: evaluate_poll_def select_forks_def Let_def split_beta r g)
qed

lemma wakes_build: "wake_spool (fst (build_wake env s se sel)) = wake_spool s"
proof -
  have "wake_spool (wa_store (wake_step env se sel acc i)) = wake_spool (wa_store acc)" for acc i
    by (simp add: wake_step_def stamp_selected_def record_issued_run_def touch_fork_ran_def try_latch_fire_def clear_pending_trigger_def
        set_active_gate_def upd_session_def insert_pending_dep_def Let_def split_beta split: option.split)
  then have "wake_spool (wa_store (foldl (wake_step env se sel) acc is)) = wake_spool (wa_store acc)" for acc "is"
    by (induction "is" arbitrary: acc) simp_all
  then show ?thesis by (simp add: build_wake_def Let_def)
qed

lemma wakes_due: "wake_spool (dm_store (fst (due_poll w pl d))) = wake_spool (dm_store d)"
proof -
  have "wake_spool (dm_store (fst (issue_wake w se sel d))) = wake_spool (dm_store d)" for se sel d
    using wakes_build[of "env_for w se" "dm_store d" se sel]
    by (simp add: issue_wake_def note_wake_issued_def split_beta split: option.split prod.split)
  then show ?thesis using wakes_evaluate[of w pl d]
    by (simp add: due_poll_def issue_poll_def Let_def split_beta unpark_def split: option.split prod.split)
qed

lemma due_no_feed: "snd (due_poll w q e) \<noteq> Resolved (RWake payload None (Some feed))"
  using issue_answer[of w q e] by (auto simp: due_poll_def)

text \<open>C37. When a wake feed of a session ends with output while a poll of the session listens, the nudge is due at
  the poll. On Claude Code and opencode its next step answers with exactly the blocks the session's spool holds, the
  new one last, and leaves none behind. On codex, whose Stop hook takes the blocks itself, the step answers with no
  feed and leaves the blocks, the new one last, for that hook.\<close>

theorem feed_reaches_listening_poll:
  fixes w :: world
  assumes "store_ok (dm_store d)" "pl_phase pl = Waiting seen" "seen \<le> nudges d (pl_sid pl)"
    and "hj_deliver j = DWake" "hc_session_id (hj_ctx j) = pl_sid pl" "trim out \<noteq> []"
  defines "d1 \<equiv> job_finished w j (JobOk out) d"
    and "block \<equiv> feed_block (hj_hook j) (hj_event j) (truncate_feed (hj_max_bytes j) (trim out))"
  shows "poll_enabled w' Nudged pl d1
    \<and> (s_client (pl_session pl) \<noteq> Some ''codex'' \<longrightarrow> (\<exists>d2 payload. poll_act_of w' Nudged pl d1 = (d2, Resolved (RWake payload None
        (Some \<lparr>fw_blocks = spool_texts (pl_sid pl) (wake_spool (dm_store d)) @ [block], fw_wake = True\<rparr>)))
      \<and> spool_texts (pl_sid pl) (wake_spool (dm_store d2)) = []))
    \<and> (s_client (pl_session pl) = Some ''codex'' \<longrightarrow> (\<forall>payload feed. snd (poll_act_of w' Nudged pl d1) \<noteq> Resolved (RWake payload None (Some feed)))
      \<and> spool_texts (pl_sid pl) (wake_spool (dm_store (fst (poll_act_of w' Nudged pl d1))))
          = spool_texts (pl_sid pl) (wake_spool (dm_store d)) @ [block])"
proof -
  let ?sid = "pl_sid pl" and ?blocks = "spool_texts (pl_sid pl) (wake_spool (dm_store d)) @ [block]"
  note job = wake_job_store[OF assms(4,6), of w d, folded d1_def block_def]
  have st: "dm_store d1 = spool_wake_block (dm_store d) ?sid (hj_hook j) block (wd_now w)"
    and n: "nudges d1 ?sid = nudges d ?sid + 1"
    using job assms(5) by simp_all
  have texts: "spool_texts ?sid (wake_spool (dm_store d1)) = ?blocks"
    unfolding st by (rule spooled_last[OF assms(1)])
  have enabled: "poll_enabled w' Nudged pl d1" using assms(2,3) n by (auto simp: poll_enabled_def)
  have taken: "take_feed_delivery (pl_session pl) d1 = (d1\<lparr>dm_store := fst (take_wake_blocks (dm_store d1) ?sid)\<rparr>,
      Some (RWake (build_feed_wake_payload ?blocks) None (Some \<lparr>fw_blocks = ?blocks, fw_wake = True\<rparr>)))"
    if "s_client (pl_session pl) \<noteq> Some ''codex''"
    using that texts by (simp add: take_feed_delivery_def take_wake_blocks_def Let_def)
  have act: "poll_act_of w' Nudged pl d1 = (unpark ?sid (d1\<lparr>dm_store := fst (take_wake_blocks (dm_store d1) ?sid)\<rparr>),
      Resolved (RWake (build_feed_wake_payload ?blocks) None (Some \<lparr>fw_blocks = ?blocks, fw_wake = True\<rparr>)))"
    if "s_client (pl_session pl) \<noteq> Some ''codex''"
    using taken[OF that] by (simp add: poll_act_of_def nudge_poll_def)
  have none: "spool_texts ?sid (del_where (spooled_for ?sid) rows) = []" for rows
    by (simp add: spool_texts_def spool_del)
  have left: "take_feed_delivery (pl_session pl) d1 = (d1, None)" if "s_client (pl_session pl) = Some ''codex''"
    using that by (simp add: take_feed_delivery_def Let_def)
  let ?q = "pl\<lparr>pl_phase := Waiting (nudges d1 ?sid)\<rparr>"
  have step: "poll_act_of w' Nudged pl d1 = (let (d2, sel) = evaluate_poll w' ?q d1 in if sel \<noteq> [] then due_poll w' ?q d2 else (d2, Still ?q))"
    if "s_client (pl_session pl) = Some ''codex''"
    using left[OF that] by (simp add: poll_act_of_def nudge_poll_def Let_def)
  have quiet: "snd (poll_act_of w' Nudged pl d1) \<noteq> Resolved (RWake payload None (Some feed))"
    "wake_spool (dm_store (fst (poll_act_of w' Nudged pl d1))) = wake_spool (dm_store d1)"
    if "s_client (pl_session pl) = Some ''codex''" for payload feed
    using wakes_evaluate[of w' ?q d1] wakes_due[of w' ?q] due_no_feed[of w' ?q] by (simp_all add: step[OF that] Let_def split_beta)
  show ?thesis using enabled act quiet texts none by (auto simp: take_wake_blocks_def dm)
qed

theorem feed_reaches_listening_poll_witness:
  "\<exists>d2 payload. poll_act_of (bare_world 9) Nudged (bare_poll (Waiting 0)) (job_finished (bare_world 8) bare_job (JobOk ''hi'') bare_daemon)
     = (d2, Resolved (RWake payload None (Some \<lparr>fw_blocks = spool_texts ''s'' (wake_spool (dm_store bare_daemon))
          @ [feed_block ''h'' ''event'' (truncate_feed 100 (trim ''hi''))], fw_wake = True\<rparr>)))"
proof -
  have "(0::nat) \<le> nudges bare_daemon (pl_sid (bare_poll (Waiting 0)))" by simp
  moreover have "pl_phase (bare_poll (Waiting 0)) = Waiting 0" by (simp add: bare_poll_def)
  moreover have "s_client (pl_session (bare_poll (Waiting 0))) \<noteq> Some ''codex''" by (simp add: bare_sid)
  moreover have "hj_hook bare_job = ''h''" "hj_event bare_job = ''event''" "hj_max_bytes bare_job = 100" by (simp_all add: bare_job_def)
  ultimately show ?thesis
    using feed_reaches_listening_poll[OF bare_daemon_ok _ _ bare_job_facts hi_trim, of "Waiting 0" 0 "bare_world 9" "bare_world 8"] unfolding bare_sid by auto
qed

text \<open>A wake feed that ends after the entry of a poll looked at the spool and before the poll
  subscribes to the nudges is not noticed: the poll then waits, no nudge is pending for it, and no ring of
  its timer answers with a feed. The block stays in the spool.\<close>

theorem nudge_before_subscription_is_lost:
  fixes w :: world
  assumes "store_ok (dm_store d)" "pl_phase pl = Entered False"
    and "hj_deliver j = DWake" "hc_session_id (hj_ctx j) = pl_sid pl" "trim out \<noteq> []"
  defines "d1 \<equiv> job_finished w j (JobOk out) d"
  shows "\<exists>pl1. subscribe_poll wa pl d1 = (d1, Still pl1) \<and> \<not> poll_enabled wb Nudged pl1 d1
    \<and> (\<forall>payload feed. snd (timer_poll wc pl1 d1) \<noteq> Resolved (RWake payload None (Some feed)))
    \<and> spool_texts (pl_sid pl) (wake_spool (dm_store d1)) \<noteq> []"
proof -
  let ?pl1 = "pl\<lparr>pl_phase := Waiting (nudges d1 (pl_sid pl))\<rparr>"
  have "snd (timer_poll wc ?pl1 d1) \<noteq> Resolved (RWake payload None (Some feed))" for payload feed
    using due_no_feed by (simp add: timer_poll_def Let_def split_beta)
  moreover have "spool_texts (pl_sid pl) (wake_spool (dm_store d1)) \<noteq> []"
    using wake_job_store(1)[OF assms(3,5), of w d] assms(4) spooled_last[OF assms(1)] by (simp add: d1_def)
  ultimately show ?thesis
    using assms(2) by (intro exI[of _ ?pl1]) (simp add: subscribe_poll_def poll_enabled_def)
qed

theorem nudge_before_subscription_is_lost_witness:
  "spool_texts ''s'' (wake_spool (dm_store (job_finished (bare_world 8) bare_job (JobOk ''hi'') bare_daemon))) \<noteq> []
   \<and> (\<exists>pl1 d1. subscribe_poll (bare_world 9) (bare_poll (Entered False))
        (job_finished (bare_world 8) bare_job (JobOk ''hi'') bare_daemon) = (d1, Still pl1)
      \<and> \<not> poll_enabled (bare_world 9) Nudged pl1 d1)"
proof -
  have "pl_phase (bare_poll (Entered False)) = Entered False" by (simp add: bare_poll_def)
  from nudge_before_subscription_is_lost[OF bare_daemon_ok this bare_job_facts hi_trim, where w = "bare_world 8" and wa = "bare_world 9" and wb = "bare_world 9"]
  show ?thesis unfolding bare_sid by blast
qed

end
