(* ===== verification/Watch_Laws.thy ===== *)
theory Watch_Laws
  imports Poll_Laws
begin

text \<open>
  What a sweep of the watcher sees and what it tells: the difference of two scans, the files a scan
  holds, and the burst of a pattern, which is handed over once, with every path that changed, by the
  first sweep that finds it \<open>watch_debounce\<close> old.
\<close>

section \<open>Differences\<close>

text \<open>The difference of two scans is the sorted list, without repetition, of exactly the paths that
  appeared, disappeared or have another identity.\<close>

theorem diff_stat_exact:
  assumes "distinct (map fst prev)" "distinct (map fst nxt)"
  shows "set (diff_stat prev nxt) = {p. map_of prev p \<noteq> map_of nxt p}
    \<and> distinct (diff_stat prev nxt) \<and> sorted (diff_stat prev nxt)"
proof -
  let ?new = "map fst (filter (\<lambda>(p, i). map_of prev p \<noteq> Some i) nxt)" and ?old = "filter (\<lambda>p. map_of nxt p = None) (map fst prev)"
  have new: "set ?new = {p. \<exists>i. map_of nxt p = Some i \<and> map_of prev p \<noteq> Some i}"
    by (force simp: map_of_eq_Some_iff[OF assms(2)])
  have old: "set ?old = {p. map_of nxt p = None \<and> map_of prev p \<noteq> None}"
    by (auto simp: map_of_eq_None_iff)
  have "p \<in> set ?new \<union> set ?old \<longleftrightarrow> map_of prev p \<noteq> map_of nxt p" for p
    unfolding new old by (cases "map_of nxt p") (auto simp del: map_of_eq_Some_iff map_of_eq_None_iff)
  then have "set ?new \<union> set ?old = {p. map_of prev p \<noteq> map_of nxt p}" by blast
  moreover have "distinct (?new @ ?old)"
    unfolding distinct_append new old using assms by (auto simp: distinct_map_filter simp del: map_of_eq_Some_iff)
  ultimately show ?thesis by (simp add: diff_stat_def)
qed

theorem diff_stat_exact_witness:
  "set (diff_stat [(''/a'', 1, 2), (''/b'', 1, 2)] [(''/b'', 3, 2), (''/c'', 1, 2)]) = {''/a'', ''/b'', ''/c''}"
proof -
  let ?prev = "[(''/a'', 1, 2), (''/b'', 1, 2)] :: stat_map" and ?nxt = "[(''/b'', 3, 2), (''/c'', 1, 2)] :: stat_map"
  have "{p. map_of ?prev p \<noteq> map_of ?nxt p} = {''/a'', ''/b'', ''/c''}" by auto
  then show ?thesis using diff_stat_exact[of ?prev ?nxt] by simp
qed

section \<open>Scans\<close>

text \<open>The files a walk may meet: through directories that are neither links nor on the skip list, at
  most so many levels down, by names that are text.\<close>

inductive found :: "watch_env \<Rightarrow> disk \<Rightarrow> nat \<Rightarrow> path \<Rightarrow> path \<Rightarrow> bool" for we dk where
  here: "dk_list dk dir = Some names \<Longrightarrow> name \<in> set names \<Longrightarrow> valid_utf8 name \<Longrightarrow> \<not> we_is_dir we (path_join dir name)
     \<Longrightarrow> found we dk (Suc n) dir (path_join dir name)"
| below: "dk_list dk dir = Some names \<Longrightarrow> name \<in> set names \<Longrightarrow> valid_utf8 name \<Longrightarrow> we_is_dir we (path_join dir name)
     \<Longrightarrow> name \<notin> set SKIP_DIRS \<Longrightarrow> found we dk n (path_join dir name) p \<Longrightarrow> found we dk (Suc n) dir p"

lemma slashes_unix: "slashes False p = p"
  by (simp add: slashes_def)

inductive_simps found_0: "found we dk 0 dir p"
inductive_simps found_Suc: "found we dk (Suc n) dir p"

definition watched_as :: "watch_env \<Rightarrow> str \<Rightarrow> path \<Rightarrow> file_id \<Rightarrow> bool" where
  "watched_as we pattern p i \<longleftrightarrow> glob_matches pattern p \<and> file_id_of we p = Some i"

definition scan_ok :: "watch_env \<Rightarrow> str \<Rightarrow> nat \<Rightarrow> stat_map \<Rightarrow> bool" where
  "scan_ok we pattern cap snap \<longleftrightarrow> distinct (map fst snap) \<and> length snap \<le> cap
     \<and> (\<forall>p i. map_of snap p = Some i \<longrightarrow> watched_as we pattern p i)"

text \<open>From one accumulator to the next, the paths in \<open>S\<close> having been visited.\<close>

definition visits :: "watch_env \<Rightarrow> str \<Rightarrow> nat \<Rightarrow> path set \<Rightarrow> stat_map \<times> bool \<Rightarrow> stat_map \<times> bool \<Rightarrow> bool" where
  "visits we pattern cap S acc acc' \<longleftrightarrow> (scan_ok we pattern cap (fst acc) \<longrightarrow>
     scan_ok we pattern cap (fst acc') \<and> dom (map_of (fst acc)) \<subseteq> dom (map_of (fst acc'))
     \<and> dom (map_of (fst acc')) \<subseteq> dom (map_of (fst acc)) \<union> S
     \<and> (\<not> snd acc' \<longrightarrow> \<not> snd acc \<and> (\<forall>p\<in>S. \<forall>i. watched_as we pattern p i \<longrightarrow> p \<in> dom (map_of (fst acc')))))"

lemma visits_none: "visits we pattern cap {} acc acc"
  by (simp add: visits_def)

lemma visits_capped: "visits we pattern cap S acc (fst acc, True)"
  by (auto simp: visits_def)

lemma visits_trans: "visits we pattern cap S a b \<Longrightarrow> visits we pattern cap T b c \<Longrightarrow> visits we pattern cap (S \<union> T) a c"
  unfolding visits_def by blast

lemma length_update: "length (AList.update k v al) = (if k \<in> fst ` set al then length al else Suc (length al))"
  by (induction al) auto

lemma visits_file:
  assumes "length (fst acc) < cap"
  shows "visits we pattern cap {p} acc (if glob_matches pattern p
     then (case file_id_of we p of None \<Rightarrow> acc | Some i \<Rightarrow> (AList.update p i (fst acc), snd acc)) else acc)"
  using assms
  by (auto simp: visits_def scan_ok_def watched_as_def update_conv' length_update distinct_update
      simp del: map_of_eq_Some_iff split: option.splits if_splits)

lemma visits_fold: "(\<And>acc x. x \<in> set xs \<Longrightarrow> visits we pattern cap (S x) acc (f acc x)) \<Longrightarrow>
    visits we pattern cap (\<Union>x\<in>set xs. S x) acc (foldl f acc xs)"
proof (induction xs arbitrary: acc)
  case (Cons x xs)
  have "visits we pattern cap (S x) acc (f acc x)" using Cons.prems by simp
  moreover have "visits we pattern cap (\<Union>x\<in>set xs. S x) (f acc x) (foldl f (f acc x) xs)" using Cons by simp
  ultimately show ?case using visits_trans by fastforce
qed (simp add: visits_none)

lemma visits_walk: "visits we pattern cap {p. found we dk n dir p} acc (walk_dir n we dk pattern cap dir acc)"
proof (induction n arbitrary: dir acc)
  case 0
  show ?case by (auto simp: visits_def found_0)
next
  case (Suc n)
  let ?S = "\<lambda>name. let p = path_join dir name in if \<not> valid_utf8 name then {} else if we_is_dir we p
     then (if name \<in> set SKIP_DIRS then {} else {q. found we dk n p q}) else {p}"
  have entry: "visits we pattern cap (?S name) acc (walk_entry (walk_dir n we dk pattern cap) we pattern cap dir acc name)" for acc name
    using Suc.IH visits_file[of acc cap we pattern "path_join dir name"]
    unfolding walk_entry_def Let_def slashes_unix by (simp add: visits_capped visits_none not_le)
  show ?case
  proof (cases "dk_list dk dir")
    case None
    then have "{p. found we dk (Suc n) dir p} = {}" by (simp add: found_Suc)
    with None show ?thesis by (simp add: visits_none visits_capped)
  next
    case (Some names)
    then have "{p. found we dk (Suc n) dir p} = (\<Union>name\<in>set names. ?S name)"
      by (auto simp: found_Suc Let_def split: if_splits)
    with Some visits_fold[of names we pattern cap ?S, OF entry] show ?thesis by (simp add: visits_capped)
  qed
qed

text \<open>C21. A scan of a pattern with a wildcard holds only files below its literal prefix that match it,
  each once and with its identity, and never more than the cap; unless it was cut at the cap it holds all
  that are at most 24 directories down.\<close>

theorem scan_exact:
  assumes "has_wildcard pattern" "scan_pattern we dk pattern cap = (snap, truncated)"
  defines "files \<equiv> \<lambda>p i. found we dk 25 (literal_prefix pattern) p \<and> glob_matches pattern p \<and> file_id_of we p = Some i"
  shows "distinct (map fst snap) \<and> length snap \<le> cap \<and> (\<forall>p i. map_of snap p = Some i \<longrightarrow> files p i)
    \<and> (\<not> truncated \<longrightarrow> (\<forall>p i. files p i \<longrightarrow> map_of snap p = Some i))"
proof -
  have r: "walk_dir 25 we dk pattern cap (literal_prefix pattern) ([], False) = (snap, truncated)"
    using assms(1,2) by (simp add: scan_pattern_def slashes_def MAX_WALK_DEPTH_def del: walk_dir.simps)
  have "visits we pattern cap {p. found we dk 25 (literal_prefix pattern) p} ([], False) (snap, truncated)"
    using visits_walk[of we pattern cap dk 25 "literal_prefix pattern" "([], False)"] unfolding r .
  then have v: "scan_ok we pattern cap snap" "dom (map_of snap) \<subseteq> {p. found we dk 25 (literal_prefix pattern) p}"
    "\<not> truncated \<longrightarrow> (\<forall>p i. found we dk 25 (literal_prefix pattern) p \<longrightarrow> watched_as we pattern p i \<longrightarrow> p \<in> dom (map_of snap))"
    by (auto simp: visits_def scan_ok_def)
  show ?thesis
    using v unfolding files_def scan_ok_def watched_as_def
    by (auto simp: dom_def subset_iff simp del: map_of_eq_Some_iff)
qed

definition two_files :: disk where
  "two_files = \<lparr>dk_fs = wd_fs (bare_world 9), dk_list = (\<lambda>p. if p = ''/p'' then Some [''a.rs'', ''b.txt''] else None), dk_err = (\<lambda>_. [])\<rparr>"

definition plain_env :: watch_env where
  "plain_env = \<lparr>we_is_dir = (\<lambda>_. False), we_stat = (\<lambda>_. Some (Some 5, 3)), we_keys = (\<lambda>ks. ks)\<rparr>"

theorem scan_exact_witness: "found plain_env two_files 25 (literal_prefix ''/p/*.rs'') ''/p/a.rs''"
proof -
  have "scan_pattern plain_env two_files ''/p/*.rs'' 10 = ([(''/p/a.rs'', 5, 3)], False)" by code_simp
  moreover have "has_wildcard ''/p/*.rs''" by (simp add: has_wildcard_def)
  ultimately show ?thesis using scan_exact by fastforce
qed

section \<open>Bursts\<close>

text \<open>The burst of a pattern after a scan, told without the branch that moves its start: it began with
  the first scan that saw a change and holds every path that changed since.\<close>

definition burst_after :: "int \<Rightarrow> stat_map option \<Rightarrow> stat_map \<Rightarrow> (str list \<times> int) option \<Rightarrow> (str list \<times> int) option" where
  "burst_after t prev snap burst = (case prev of None \<Rightarrow> burst
     | Some pr \<Rightarrow> if diff_stat pr snap = [] then burst
         else Some (foldl push_new (case burst of None \<Rightarrow> [] | Some b \<Rightarrow> fst b) (diff_stat pr snap),
                    case burst of None \<Rightarrow> t | Some b \<Rightarrow> snd b))"

definition burst_due :: "int \<Rightarrow> int \<Rightarrow> (str list \<times> int) option \<Rightarrow> bool" where
  "burst_due t debounce burst = (case burst of None \<Rightarrow> False | Some (_, started) \<Rightarrow> t - started \<ge> debounce)"

definition burst_timely :: "int \<Rightarrow> (str list \<times> int) option \<Rightarrow> bool" where
  "burst_timely t burst = (case burst of None \<Rightarrow> True | Some (_, started) \<Rightarrow> 0 \<le> started \<and> started \<le> t)"

lemma grow_burst_due:
  assumes "0 \<le> t" "t < 2 ^ 62" "0 \<le> deb" "deb < 2 ^ 62" "burst_timely t b"
  shows "burst_settled t deb (Some (grow_burst t deb changed b))
      \<longleftrightarrow> burst_due t deb (Some (foldl push_new (case b of None \<Rightarrow> [] | Some b \<Rightarrow> fst b) changed, case b of None \<Rightarrow> t | Some b \<Rightarrow> snd b))"
    and "fst (grow_burst t deb changed b) = foldl push_new (case b of None \<Rightarrow> [] | Some b \<Rightarrow> fst b) changed"
    and "\<not> burst_settled t deb (Some (grow_burst t deb changed b)) \<Longrightarrow>
      snd (grow_burst t deb changed b) = (case b of None \<Rightarrow> t | Some b \<Rightarrow> snd b)"
proof -
  have sub: "i64_sub t x = t - x" if "0 \<le> x" "x \<le> t" for x using assms that by (simp add: i64_sub_def wrap_i64_id in_i64_def)
  have dd: "wrap_i64 (2 * deb) = 2 * deb" using assms by (simp add: wrap_i64_id in_i64_def)
  have td: "i64_sub t deb = t - deb" "i64_sub t (t - deb) = deb" using assms by (simp_all add: i64_sub_def wrap_i64_id in_i64_def)
  show "burst_settled t deb (Some (grow_burst t deb changed b))
      \<longleftrightarrow> burst_due t deb (Some (foldl push_new (case b of None \<Rightarrow> [] | Some b \<Rightarrow> fst b) changed, case b of None \<Rightarrow> t | Some b \<Rightarrow> snd b))"
    using assms sub dd td by (cases b) (auto simp: burst_settled_def burst_due_def grow_burst_def burst_timely_def split: if_splits)
  show "fst (grow_burst t deb changed b) = foldl push_new (case b of None \<Rightarrow> [] | Some b \<Rightarrow> fst b) changed"
    by (cases b) (simp_all add: grow_burst_def split_beta)
  show "\<not> burst_settled t deb (Some (grow_burst t deb changed b)) \<Longrightarrow>
      snd (grow_burst t deb changed b) = (case b of None \<Rightarrow> t | Some b \<Rightarrow> snd b)"
    using assms sub dd td by (cases b) (auto simp: burst_settled_def grow_burst_def burst_timely_def split: if_splits)
qed

lemma scan_one_at:
  "wt_snapshots (scan_one w we cfg p wt) k = (if k = p then Some (fst (scan_pattern we (wd_disk w) p (watch_max_files cfg))) else wt_snapshots wt k)"
  "wt_pending (scan_one w we cfg p wt) k = (if k = p \<and> wt_snapshots wt k \<noteq> None
       \<and> diff_stat (the (wt_snapshots wt k)) (fst (scan_pattern we (wd_disk w) p (watch_max_files cfg))) \<noteq> []
     then Some (grow_burst (wd_now w) (as_i64 (watch_debounce_secs cfg))
       (diff_stat (the (wt_snapshots wt k)) (fst (scan_pattern we (wd_disk w) p (watch_max_files cfg)))) (wt_pending wt k))
     else wt_pending wt k)"
  by (auto simp: scan_one_def note_scan_def Let_def split_beta split: option.splits)

lemma scan_fold_at:
  assumes "distinct ks"
  shows "wt_snapshots (fold (scan_one w we cfg) ks wt) k = (if k \<in> set ks then wt_snapshots (scan_one w we cfg k wt) k else wt_snapshots wt k)
    \<and> wt_pending (fold (scan_one w we cfg) ks wt) k = (if k \<in> set ks then wt_pending (scan_one w we cfg k wt) k else wt_pending wt k)"
  using assms
proof (induction ks arbitrary: wt)
  case (Cons p ks)
  then show ?case by (auto simp: scan_one_at)
qed simp

lemma fire_fold:
  assumes "distinct ks" "\<And>k. k \<in> set ks \<Longrightarrow> wt_pending wt k \<noteq> None"
  shows "fold (fire_burst w reg) ks (d, wt) = (fold (\<lambda>k. fold (deliver_change w (fst (the (wt_pending wt k)))) (registry_get reg k)) ks d,
     wt\<lparr>wt_pending := (\<lambda>k. if k \<in> set ks then None else wt_pending wt k)\<rparr>)"
  using assms
proof (induction ks arbitrary: d wt)
  case (Cons p ks)
  let ?wt = "wt\<lparr>wt_pending := (wt_pending wt)(p := None)\<rparr>" and ?d = "fold (deliver_change w (fst (the (wt_pending wt p)))) (registry_get reg p) d"
  have "fire_burst w reg p (d, wt) = (?d, ?wt)"
    using Cons.prems(2)[of p] by (auto simp: fire_burst_def split: option.split)
  moreover have "fold (\<lambda>k. fold (deliver_change w (fst (the (wt_pending ?wt k)))) (registry_get reg k)) ks ?d
      = fold (\<lambda>k. fold (deliver_change w (fst (the (wt_pending wt k)))) (registry_get reg k)) ks ?d"
    using Cons.prems(1) by (intro fold_cong) auto
  moreover have "fold (fire_burst w reg) ks (?d, ?wt) =
      (fold (\<lambda>k. fold (deliver_change w (fst (the (wt_pending ?wt k)))) (registry_get reg k)) ks ?d,
       ?wt\<lparr>wt_pending := (\<lambda>k. if k \<in> set ks then None else wt_pending ?wt k)\<rparr>)"
    by (rule Cons.IH) (use Cons.prems in auto)
  moreover have "(\<lambda>k. if k \<in> set ks then None else wt_pending ?wt k) = (\<lambda>k. if k \<in> set (p # ks) then None else wt_pending wt k)"
    by (auto simp: fun_eq_iff)
  ultimately show ?case by simp
qed simp

lemma scanned_burst:
  fixes we :: watch_env
  assumes "0 \<le> wd_now w" "wd_now w < 2 ^ 62" "watch_debounce_secs cfg < 2 ^ 62" "burst_timely (wd_now w) (wt_pending wt k)"
  defines "deb \<equiv> int (watch_debounce_secs cfg)"
    and "b \<equiv> burst_after (wd_now w) (wt_snapshots wt k) (fst (scan_pattern we (wd_disk w) k (watch_max_files cfg))) (wt_pending wt k)"
    and "p \<equiv> wt_pending (scan_one w we cfg k wt) k"
  shows "burst_settled (wd_now w) deb p = burst_due (wd_now w) deb b" "b \<noteq> None \<Longrightarrow> fst (the p) = fst (the b)"
    "\<not> burst_due (wd_now w) deb b \<Longrightarrow> p = b"
proof -
  have d: "as_i64 (watch_debounce_secs cfg) = deb" "0 \<le> deb" "deb < 2 ^ 62"
    using assms(3) by (simp_all add: deb_def as_i64_id)
  have same: "burst_settled (wd_now w) deb x = burst_due (wd_now w) deb x" if "burst_timely (wd_now w) x" for x
    using that assms(1,2) by (auto simp: burst_settled_def burst_due_def burst_timely_def i64_sub_def wrap_i64_id in_i64_def split: option.splits)
  note grow = grow_burst_due[OF assms(1,2) d(2,3) assms(4)]
  show "burst_settled (wd_now w) deb p = burst_due (wd_now w) deb b"
    using same[OF assms(4)] grow(1) by (auto simp: p_def b_def scan_one_at burst_after_def d(1) split: option.split)
  show "b \<noteq> None \<Longrightarrow> fst (the p) = fst (the b)"
    using grow(2) by (auto simp: p_def b_def scan_one_at burst_after_def d(1) split: option.split)
  show "\<not> burst_due (wd_now w) deb b \<Longrightarrow> p = b"
    using grow by (auto simp: p_def b_def scan_one_at burst_after_def d(1) prod_eq_iff split: option.splits if_splits)
qed

text \<open>C20. A sweep hands over exactly the bursts that began at least \<open>watch_debounce\<close> ago, each once, with every
  path that changed since it began, to every subscriber of its pattern; the others wait. The first
  scan of a pattern begins no burst. Later changes do not move the start of a burst, so the debounce is
  never held open, whatever keeps changing.\<close>

theorem sweep_exact:
  fixes w :: world and we :: watch_env and cfg :: config and d :: daemon and wt :: watcher
  defines "reg \<equiv> build_registry w we d"
    and "snap \<equiv> \<lambda>k. fst (scan_pattern we (wd_disk w) k (watch_max_files cfg))"
  defines "burst \<equiv> \<lambda>k. burst_after (wd_now w) (wt_snapshots wt k) (snap k) (wt_pending wt k)"
    and "keys \<equiv> registry_keys we reg" and "deb \<equiv> int (watch_debounce_secs cfg)"
  assumes order: "\<And>ks. distinct ks \<Longrightarrow> distinct (we_keys we ks) \<and> set (we_keys we ks) = set ks"
    and now: "0 \<le> wd_now w" "wd_now w < 2 ^ 62" "watch_debounce_secs cfg < 2 ^ 62"
    and timely: "\<And>k. burst_timely (wd_now w) (wt_pending wt k)"
  shows "fst (watch_sweep w we cfg (d, wt)) = fold (\<lambda>k. fold (deliver_change w (fst (the (burst k)))) (registry_get reg k))
      (filter (\<lambda>k. burst_due (wd_now w) deb (burst k)) keys) d
    \<and> wt_pending (snd (watch_sweep w we cfg (d, wt))) = (\<lambda>k. if k \<in> set keys \<and> \<not> burst_due (wd_now w) deb (burst k) then burst k else None)
    \<and> wt_snapshots (snd (watch_sweep w we cfg (d, wt))) = (\<lambda>k. if k \<in> set keys then Some (snap k) else None)"
proof -
  have ks: "distinct keys" "set keys = fst ` set reg" using order[of "remdups (map fst reg)"] by (simp_all add: keys_def registry_keys_def)
  let ?wt0 = "drop_unwatched reg wt"
  let ?wt1 = "fold (scan_one w we cfg) keys ?wt0"
  have wt0: "wt_snapshots ?wt0 k = wt_snapshots wt k" "wt_pending ?wt0 k = wt_pending wt k" if "k \<in> set keys" for k
    using that ks(2) by (simp_all add: drop_unwatched_def)
  have out: "wt_pending ?wt1 k = None \<and> wt_snapshots ?wt1 k = None" if "k \<notin> set keys" for k
    using that ks(2) scan_fold_at[OF ks(1), of w we cfg ?wt0 k] by (simp add: drop_unwatched_def)
  have snaps: "wt_snapshots ?wt1 k = Some (snap k)" if "k \<in> set keys" for k
    using that scan_fold_at[OF ks(1), of w we cfg ?wt0 k] by (simp add: scan_one_at snap_def)
  have b: "burst_settled (wd_now w) deb (wt_pending ?wt1 k) = burst_due (wd_now w) deb (burst k)"
    "burst k \<noteq> None \<Longrightarrow> fst (the (wt_pending ?wt1 k)) = fst (the (burst k))"
    "\<not> burst_due (wd_now w) deb (burst k) \<Longrightarrow> wt_pending ?wt1 k = burst k" if "k \<in> set keys" for k
    using that scanned_burst[OF now, of ?wt0 k we] timely[of k] scan_fold_at[OF ks(1), of w we cfg ?wt0 k] wt0[OF that]
    by (simp_all add: burst_def snap_def deb_def)
  have settled: "settled_patterns w we cfg reg ?wt1 = filter (\<lambda>k. burst_due (wd_now w) deb (burst k)) keys"
    using b(1) now(3) by (auto simp: settled_patterns_def keys_def deb_def as_i64_id intro!: filter_cong)
  have some: "burst k \<noteq> None \<and> wt_pending ?wt1 k \<noteq> None" if "k \<in> set keys" "burst_due (wd_now w) deb (burst k)" for k
    using that b(1)[OF that(1)] by (auto simp: burst_due_def burst_settled_def split: option.splits)
  have fire: "fold (fire_burst w reg) (filter (\<lambda>k. burst_due (wd_now w) deb (burst k)) keys) (d, ?wt1)
     = (fold (\<lambda>k. fold (deliver_change w (fst (the (wt_pending ?wt1 k)))) (registry_get reg k)) (filter (\<lambda>k. burst_due (wd_now w) deb (burst k)) keys) d,
        ?wt1\<lparr>wt_pending := (\<lambda>k. if k \<in> set (filter (\<lambda>k. burst_due (wd_now w) deb (burst k)) keys) then None else wt_pending ?wt1 k)\<rparr>)"
    by (rule fire_fold) (use ks some in auto)
  have "fold (\<lambda>k. fold (deliver_change w (fst (the (wt_pending ?wt1 k)))) (registry_get reg k)) (filter (\<lambda>k. burst_due (wd_now w) deb (burst k)) keys) d
      = fold (\<lambda>k. fold (deliver_change w (fst (the (burst k)))) (registry_get reg k)) (filter (\<lambda>k. burst_due (wd_now w) deb (burst k)) keys) d"
    using some b(2) by (intro fold_cong) auto
  with fire show ?thesis
    unfolding watch_sweep_def Let_def prod.case reg_def[symmetric] keys_def[symmetric] settled
    using out snaps b(3) by (auto simp: fun_eq_iff)
qed

text \<open>The first sweep of a fresh watcher tells nobody anything.\<close>

theorem sweep_exact_witness:
  "fst (watch_sweep (bare_world 9) plain_env config_default (bare_daemon, watcher_default)) = bare_daemon"
proof -
  have none: "burst_due t deb (burst_after t None snap None) = False" for t deb snap
    by (simp add: burst_due_def burst_after_def)
  have order: "distinct ks \<Longrightarrow> distinct (we_keys plain_env ks) \<and> set (we_keys plain_env ks) = set ks" for ks
    by (simp add: plain_env_def)
  have wt: "wt_pending watcher_default k = None" "wt_snapshots watcher_default k = None" for k
    by (simp_all add: watcher_default_def)
  have now: "0 \<le> wd_now (bare_world 9)" "wd_now (bare_world 9) < 2 ^ 62" by (simp_all add: bare_world_def)
  have deb: "watch_debounce_secs config_default < 2 ^ 62" by (simp add: config_default_def)
  have timely: "burst_timely (wd_now (bare_world 9)) (wt_pending watcher_default k)" for k by (simp add: wt burst_timely_def)
  from sweep_exact[of plain_env, OF order now deb timely] show ?thesis by (simp add: wt none)
qed

section \<open>The sweep as steps\<close>

interpretation sy: preorder_frame "\<lambda>d d'. sys_step\<^sup>*\<^sup>* \<lparr>sy_daemon = d, sy_polls = ps\<rparr> \<lparr>sy_daemon = d', sy_polls = ps\<rparr>" for ps
  by unfold_locales (simp, rule rtranclp_trans)

interpretation syp: preorder_frame "\<lambda>a b. sys_step\<^sup>*\<^sup>* \<lparr>sy_daemon = fst a, sy_polls = ps\<rparr> \<lparr>sy_daemon = fst b, sy_polls = ps\<rparr>" for ps
  by unfold_locales (simp, rule rtranclp_trans)

text \<open>Whatever a turn of the watcher does to the daemon is a sequence of steps of the system, so the
  invariants of the system hold across it.\<close>

theorem watch_turn_steps:
  "sys_step\<^sup>*\<^sup>* \<lparr>sy_daemon = d, sy_polls = ps\<rparr> \<lparr>sy_daemon = fst (watch_turn w we (d, wt)), sy_polls = ps\<rparr>"
proof -
  have one: "sys_step\<^sup>*\<^sup>* \<lparr>sy_daemon = d, sy_polls = ps\<rparr> \<lparr>sy_daemon = deliver_change w paths sub d, sy_polls = ps\<rparr>" for d paths sub
    by (rule r_into_rtranclp, rule sys_step.watched)
  have "sys_step\<^sup>*\<^sup>* \<lparr>sy_daemon = fst a, sy_polls = ps\<rparr> \<lparr>sy_daemon = fst (fire_burst w reg k a), sy_polls = ps\<rparr>" for a reg k
    using sy.fold_le[OF one] by (auto simp: fire_burst_def split_beta split: option.split)
  then show ?thesis
    using syp.fold_le[where f = "fire_burst w _"] by (auto simp: watch_turn_def watch_sweep_def Let_def)
qed

end
