(* ===== verification/Runner.thy ===== *)
theory Runner
  imports Client
begin

text \<open>
  \<open>autofork/src/runner.rs\<close>: one fork run of Claude Code, and the batch of one wake. A run is modelled by
  what it does to the outside: the frames it sends to the daemon, in order, and the commands it
  starts. What the outside answers is a \<open>run_world\<close>: how each started command ends, and what the daemon
  says of the state of the run. Log lines on standard error, the detaching of the child from the
  terminal and the watchdog thread are left out; a frame counts as sent also where the connection fails.
\<close>

section \<open>The outside\<close>

text \<open>How a command ends: it does not start, or it exits with a status or is killed (\<open>None\<close>), having
  written to standard output.\<close>

datatype child_end = NoSpawn | Ended "bool option" str

text \<open>The process the runner is: the files and variables it sees, the harness binary it was told, its own
  executable, and the JSON library.\<close>

record run_host =
  rh_fs :: fsys
  rh_harness_bin :: "path option"
  rh_exe :: "path option"
  rh_read_dir :: "path \<Rightarrow> path list"
  rh_render :: "json \<Rightarrow> str"
  rh_parse :: "str \<Rightarrow> json option"

record run_world =
  rw_uuid :: str
  rw_clear :: "launch \<Rightarrow> child_end"
  rw_child :: "nat \<Rightarrow> launch \<Rightarrow> child_end"
  rw_state :: "response option"

definition FORK_TIMEOUT_SECS :: nat where
  "FORK_TIMEOUT_SECS = 1800"

definition claude_bin :: "run_host \<Rightarrow> str" where
  "claude_bin rh = (case utf8_var (rh_fs rh) ''AUTOFORK_CLAUDE_BIN'' of Some b \<Rightarrow> b
     | None \<Rightarrow> (case rh_harness_bin rh of Some b \<Rightarrow> b | None \<Rightarrow> ''claude''))"

definition fork_timeout :: "run_host \<Rightarrow> nat" where
  "fork_timeout rh = (case Option.bind (utf8_var (rh_fs rh) ''AUTOFORK_CLAUDE_FORK_TIMEOUT_SECS'') parse_u64 of
     Some n \<Rightarrow> n | None \<Rightarrow> FORK_TIMEOUT_SECS)"

section \<open>The settings of a guarded run\<close>

fun family_tools :: "tool_family \<Rightarrow> str list" where
  "family_tools TRead = [''Read'', ''Glob'', ''Grep'']"
| "family_tools TShell = [''Bash'']"
| "family_tools TEdit = [''Edit'', ''Write'', ''MultiEdit'', ''NotebookEdit'']"
| "family_tools TWeb = [''WebFetch'', ''WebSearch'']"
| "family_tools TTask = [''Agent'', ''Task'']"
| "family_tools TMcp = []"

definition UNFAMILIED_TOOLS :: "str list" where
  "UNFAMILIED_TOOLS = [''TodoWrite'', ''Skill'', ''LSP'', ''ToolSearch'']"

definition guard_allow_rules :: "guard \<Rightarrow> str list" where
  "guard_allow_rules g = map (\<lambda>p. let s = trim_end_char slash p in case strip_prefix [slash] s of
       Some rest \<Rightarrow> ''Edit(//'' @ rest @ ''/**)'' | None \<Rightarrow> ''Edit('' @ s @ ''/**)'') (g_write g)"

definition guard_read_rules :: "guard \<Rightarrow> str list" where
  "guard_read_rules g = (if allows_family g TRead then family_tools TRead else [])"

definition single_quoted :: "str \<Rightarrow> str" where
  "single_quoted s = [CHR 0x27] @ concat (map (\<lambda>c. if c = CHR 0x27 then [CHR 0x27, backslash, CHR 0x27, CHR 0x27] else [c]) s) @ [CHR 0x27]"

definition guard_hook_command :: "path \<Rightarrow> path \<Rightarrow> str" where
  "guard_hook_command autofork_bin fork_path =
     single_quoted autofork_bin @ '' guard hook --fork '' @ single_quoted fork_path"

definition split_star :: "str list \<Rightarrow> str list \<times> bool" where
  "split_star tokens = (if tokens = [] then (tokens, False)
     else if last tokens = ''*'' then (butlast tokens, True)
     else (case strip_suffix ''*'' (last tokens) of
         Some stem \<Rightarrow> (butlast tokens @ (if stem = [] then [] else [stem]), True)
       | None \<Rightarrow> (tokens, False)))"

definition guard_bash_deny_rules :: "str \<Rightarrow> str list" where
  "guard_bash_deny_rules pattern =
     (let (tokens, trailing_star) = split_star (split_whitespace pattern); prefix = join_with '' '' tokens
      in if prefix = [] then [''Bash'']
         else if trailing_star then [''Bash('' @ prefix @ '':*)'']
         else [''Bash('' @ prefix @ '')'', ''Bash('' @ prefix @ '':*)''])"

definition family_denies :: "tool_family list \<Rightarrow> str list" where
  "family_denies allowed = concat (map (\<lambda>f. if f \<in> set allowed then [] else family_tools f) all_families)
     @ (if allowed = [] then UNFAMILIED_TOOLS else [])"

definition guard_deny_rules :: "guard \<Rightarrow> str list" where
  "guard_deny_rules g = foldl push_new []
     ((if g_network g then [] else [''WebFetch'', ''WebSearch''])
       @ (case g_tools g of None \<Rightarrow> [] | Some allowed \<Rightarrow> family_denies allowed)
       @ concat (map guard_bash_deny_rules (g_deny g)))"

definition guard_denies_cwd :: "guard \<Rightarrow> path \<Rightarrow> bool" where
  "guard_denies_cwd g cwd \<longleftrightarrow> \<not> list_ex (\<lambda>w. path_starts_with w cwd \<or> path_starts_with cwd w) (g_write g)"

definition jstrs :: "str list \<Rightarrow> json" where
  "jstrs xs = JArr (map JStr xs)"

definition guard_filesystem :: "guard \<Rightarrow> path \<Rightarrow> json" where
  "guard_filesystem g cwd = JObj ((''allowWrite'', jstrs (map (trim_end_char slash) (g_write g)))
     # (if guard_denies_cwd g cwd then [(''denyWrite'', jstrs [cwd])] else []))"

definition guard_sandbox_settings :: "run_host \<Rightarrow> guard \<Rightarrow> path \<Rightarrow> json" where
  "guard_sandbox_settings rh g cwd = JObj [(''enabled'', JBool True), (''autoAllowBashIfSandboxed'', JBool True),
     (''allowUnsandboxedCommands'', JBool False), (''excludedCommands'', JArr []), (''failIfUnavailable'', JBool True),
     (''filesystem'', guard_filesystem g cwd),
     (''network'', JObj [(''allowedDomains'', jstrs (remote_hosts (rh_fs rh) (rh_read_dir rh) g)), (''strictAllowlist'', JBool True)])]"

definition permissions_allow :: "guard \<Rightarrow> str list" where
  "permissions_allow g = guard_allow_rules g @ guard_read_rules g @ (if g_network g then [''WebFetch(domain:*)''] else [])"

definition guard_settings :: "run_host \<Rightarrow> guard \<Rightarrow> path \<Rightarrow> str \<Rightarrow> json" where
  "guard_settings rh g cwd hook_cmd = JObj
     [(''hooks'', JObj [(''PreToolUse'', JArr [JObj [(''hooks'', JArr [JObj [(''type'', JStr ''command''),
         (''command'', JStr hook_cmd), (''timeout'', JNum (JInt 30))]])]])]),
      (''sandbox'', guard_sandbox_settings rh g cwd),
      (''permissions'', JObj [(''allow'', jstrs (permissions_allow g)), (''deny'', jstrs (guard_deny_rules g))])]"

section \<open>One attempt\<close>

definition fork_env :: "str \<Rightarrow> wake_fork \<Rightarrow> (str \<times> str) list" where
  "fork_env session_id spec = [(''AUTOFORK_FORK'', ''1''), (''AUTOFORK_SESSION_ID'', session_id),
     (''AUTOFORK_FORK_NAME'', wf_name spec), (''AUTOFORK_FORK_PATH'', wf_path spec), (''AUTOFORK_TRIGGER'', wf_trigger spec)]"

definition oauth_env :: "fsys \<Rightarrow> (str \<times> str) list" where
  "oauth_env fs = (case oauth_token_override (fs_env fs) of Some token \<Rightarrow> [(OAUTH_TOKEN, token)] | None \<Rightarrow> [])"

definition resume_args :: "str \<Rightarrow> str list" where
  "resume_args target = [''-p'', ''--resume'', target, ''--fork-session'', ''--output-format'', ''json'']"

definition clear_launch :: "run_host \<Rightarrow> str \<Rightarrow> str \<Rightarrow> path \<Rightarrow> wake_fork \<Rightarrow> launch" where
  "clear_launch rh session_id resume_target cwd spec = \<lparr>ln_program = claude_bin rh,
     ln_args = resume_args resume_target @ [''/goal clear''], ln_dir = Some cwd,
     ln_env = fork_env session_id spec @ oauth_env (rh_fs rh), ln_timeout = None\<rparr>"

definition goal_cleared_fork :: "run_host \<Rightarrow> run_world \<Rightarrow> str \<Rightarrow> str \<Rightarrow> path \<Rightarrow> wake_fork \<Rightarrow> str option" where
  "goal_cleared_fork rh rw session_id resume_target cwd spec =
     (case rw_clear rw (clear_launch rh session_id resume_target cwd spec) of
        Ended (Some True) out \<Rightarrow> (case Option.bind (rh_parse rh out) (\<lambda>v. j_get_str v ''session_id'') of
            Some i \<Rightarrow> if i = [] then None else Some i
          | None \<Rightarrow> None)
      | _ \<Rightarrow> None)"

definition guarded_args :: "run_host \<Rightarrow> guard \<Rightarrow> path \<Rightarrow> wake_fork \<Rightarrow> str list" where
  "guarded_args rh g cwd spec =
     (let bin = (case rh_exe rh of Some b \<Rightarrow> b | None \<Rightarrow> ''autofork'')
      in [''--settings'', rh_render rh (guard_settings rh g cwd (guard_hook_command bin (wf_path spec))),
          ''--append-system-prompt'', guard_paragraph g, ''--system-prompt-snapshot'', ''off'']
         @ (if allows_family g TMcp then [] else [''--strict-mcp-config'']))"

definition unguarded_args :: "run_host \<Rightarrow> str list" where
  "unguarded_args rh = (if fs_env (rh_fs rh) ''AUTOFORK_FORK_HOOKS'' = None
     then [''--settings'', ''{\"disableAllHooks\":true}''] else [])"

definition attempt_launch :: "run_host \<Rightarrow> str \<Rightarrow> str \<Rightarrow> path \<Rightarrow> wake_fork \<Rightarrow> str \<Rightarrow> str option \<Rightarrow> launch" where
  "attempt_launch rh session_id resume_target cwd spec prompt model = \<lparr>ln_program = claude_bin rh,
     ln_args = resume_args resume_target @ (case model of Some m \<Rightarrow> [''--model'', m] | None \<Rightarrow> [])
       @ [''--permission-mode'', case wf_mode spec of Some m \<Rightarrow> m | None \<Rightarrow> ''acceptEdits'']
       @ (case wf_guard spec of Some g \<Rightarrow> guarded_args rh g cwd spec | None \<Rightarrow> unguarded_args rh) @ [prompt],
     ln_dir = Some cwd, ln_env = fork_env session_id spec @ oauth_env (rh_fs rh), ln_timeout = Some (fork_timeout rh)\<rparr>"

definition attempt_result :: "run_host \<Rightarrow> child_end \<Rightarrow> str \<times> str" where
  "attempt_result rh e = (case e of NoSpawn \<Rightarrow> (''failed'', [])
     | Ended status out \<Rightarrow>
        (let parsed = rh_parse rh (trim (if valid_utf8 out then out else []));
             ok = (status = Some True \<and> (case parsed of Some v \<Rightarrow> j_get v ''is_error'' \<noteq> Some (JBool True) | None \<Rightarrow> False))
         in (if ok then ''completed'' else ''failed'',
             case Option.bind parsed (\<lambda>v. j_get_str v ''result'') of Some t \<Rightarrow> t | None \<Rightarrow> [])))"

section \<open>One run\<close>

definition model_candidates :: "wake_fork \<Rightarrow> str option list" where
  "model_candidates spec = (case wf_model spec of Some m \<Rightarrow> Some m # map Some (wf_model_fallbacks spec) | None \<Rightarrow> [None])"

text \<open>The loop over the candidates: the launches made, and the status and report of the last.\<close>

fun try_models :: "(nat \<Rightarrow> str option \<Rightarrow> launch \<times> str \<times> str) \<Rightarrow> nat \<Rightarrow> str option list \<Rightarrow> launch list \<times> str \<times> str" where
  "try_models attempt i [] = ([], ''failed'', [])"
| "try_models attempt i (m # ms) = (case attempt i m of (ln, status, report) \<Rightarrow>
     if status = ''completed'' \<or> ms = [] then ([ln], status, report)
     else (case try_models attempt (Suc i) ms of (lns, r) \<Rightarrow> (ln # lns, r)))"

record run_result =
  rr_report :: "str option"
  rr_wake_block :: "str option"
  rr_stale :: bool

definition failed_body :: "str \<Rightarrow> str" where
  "failed_body report = ''(the fork run failed'' @ (if report = [] then [] else ''; its last message:'' @ [nl] @ report) @ '')''"

definition report_body :: "str \<Rightarrow> str \<Rightarrow> str" where
  "report_body status report = (if status = ''completed''
     then if report = [] then ''(the fork finished without a report)'' else report
     else failed_body report)"

definition run_is_stale :: "run_world \<Rightarrow> bool" where
  "run_is_stale rw \<longleftrightarrow> rw_state rw = Some (RRunState True)"

definition finish_run :: "run_world \<Rightarrow> str \<Rightarrow> str \<Rightarrow> wake_fork \<Rightarrow> str \<Rightarrow> str \<Rightarrow> str \<Rightarrow> bool \<Rightarrow> request list \<times> run_result" where
  "finish_run rw session_id spool_key spec run_ref status raw can_wake =
     (let chain_next = (status = ''completed'' \<and> wf_chain spec \<and> wants_continue (trim raw));
          report = (if chain_next then strip_continue (trim raw) else trim raw);
          block = report_block (wf_name spec) (wf_trigger spec) status (report_body status report);
          stale = (can_wake \<and> run_is_stale rw);
          discard = (stale \<and> wf_chain spec);
          wake_block = (if chain_next \<and> can_wake \<and> \<not> discard then Some block else None)
      in ((if can_wake then [RunStateReq session_id run_ref] else [])
            @ (if wake_block = None \<and> \<not> discard then [SpoolReportReq spool_key (wf_name spec) block] else [])
            @ [ForkCompleted session_id (wf_name spec) run_ref status (if chain_next then Some True else None)],
          \<lparr>rr_report = (if status = ''completed'' \<and> report \<noteq> [] \<and> \<not> discard then Some report else None),
           rr_wake_block = wake_block, rr_stale = stale\<rparr>))"

definition attempt_target :: "run_host \<Rightarrow> run_world \<Rightarrow> str \<Rightarrow> str \<Rightarrow> path \<Rightarrow> wake_fork \<Rightarrow> str" where
  "attempt_target rh rw session_id resume_target cwd spec = (if wf_guard spec \<noteq> None
     then (case goal_cleared_fork rh rw session_id resume_target cwd spec of Some t \<Rightarrow> t | None \<Rightarrow> resume_target)
     else resume_target)"

definition claude_attempts :: "run_host \<Rightarrow> run_world \<Rightarrow> str \<Rightarrow> str \<Rightarrow> path \<Rightarrow> wake_fork \<Rightarrow> str \<Rightarrow> launch list \<times> str \<times> str" where
  "claude_attempts rh rw session_id resume_target cwd spec piped =
     try_models (\<lambda>i model. let ln = attempt_launch rh session_id (attempt_target rh rw session_id resume_target cwd spec) cwd
           spec (wf_prompt spec @ piped) model
         in (ln, attempt_result rh (rw_child rw i ln))) 0 (model_candidates spec)"

definition run_one :: "run_host \<Rightarrow> run_world \<Rightarrow> str \<Rightarrow> str \<Rightarrow> path \<Rightarrow> wake_fork \<Rightarrow> str \<Rightarrow> bool \<Rightarrow> request list \<times> run_result" where
  "run_one rh rw session_id resume_target cwd spec piped can_wake =
     (let run_ref = ''hl:'' @ rw_uuid rw;
          (_, status, report) = claude_attempts rh rw session_id resume_target cwd spec piped;
          (frames, result) = finish_run rw session_id resume_target spec run_ref status report can_wake
      in (ForkSpawned session_id (wf_name spec) run_ref # frames, result))"

section \<open>One wake\<close>

definition runs_after :: "str \<Rightarrow> str \<Rightarrow> str" where
  "runs_after pred r = [nl, nl] @ ''This fork runs after '' @ [CHR 0x27] @ pred @ [CHR 0x27]
     @ ''; its report follows so you can build on it:'' @ [nl] @ r"

definition carried_after :: "(str \<rightharpoonup> str) \<Rightarrow> wake_fork \<Rightarrow> str" where
  "carried_after reports spec =
     concat (map (\<lambda>pred. case reports pred of Some r \<Rightarrow> runs_after pred r | None \<Rightarrow> []) (wf_after spec))"

definition carried_chain :: "(str \<rightharpoonup> str) \<Rightarrow> wake_fork \<Rightarrow> str" where
  "carried_chain reports spec = (if wf_chain spec
     then (case reports (wf_name spec) of None \<Rightarrow> []
       | Some prev \<Rightarrow> [nl, nl] @ ''Your previous run'' @ [CHR 0x27]
           @ ''s report (not yet seen by the parent session):'' @ [nl] @ prev)
     else [])"

record wake_outcome =
  wo_wake_blocks :: "str list"
  wo_stale :: bool

definition join_run :: "str \<times> run_result \<Rightarrow> wake_outcome \<times> (str \<rightharpoonup> str) \<Rightarrow> wake_outcome \<times> (str \<rightharpoonup> str)" where
  "join_run joined acc = (case joined of (name, r) \<Rightarrow> case acc of (outcome, reports) \<Rightarrow>
     (outcome\<lparr>wo_wake_blocks := wo_wake_blocks outcome @ (case rr_wake_block r of Some b \<Rightarrow> [b] | None \<Rightarrow> []),
              wo_stale := wo_stale outcome \<or> rr_stale r\<rparr>,
      case rr_report r of Some report \<Rightarrow> reports(name \<mapsto> report) | None \<Rightarrow> reports))"

text \<open>The runs of a wake are parallel: each has the frames of its own thread, and a world of its own.\<close>

definition wake_runs :: "run_host \<Rightarrow> (nat \<Rightarrow> run_world) \<Rightarrow> str \<Rightarrow> str \<Rightarrow> path \<Rightarrow> (str \<rightharpoonup> str) \<Rightarrow> wake_fork list
    \<Rightarrow> (str \<times> request list \<times> run_result) list" where
  "wake_runs rh rws session_id resume_target cwd reports forks =
     map (\<lambda>(i, spec). (wf_name spec, run_one rh (rws i) session_id resume_target cwd spec
         (carried_after reports spec @ carried_chain reports spec) True)) (enumerate 0 forks)"

definition execute_wake :: "run_host \<Rightarrow> (nat \<Rightarrow> run_world) \<Rightarrow> str \<Rightarrow> str \<Rightarrow> path \<Rightarrow> wake_fork list \<Rightarrow> (str \<rightharpoonup> str)
    \<Rightarrow> request list list \<times> wake_outcome \<times> (str \<rightharpoonup> str)" where
  "execute_wake rh rws session_id resume_target cwd forks reports =
     (let runs = wake_runs rh rws session_id resume_target cwd reports forks
      in (map (fst \<circ> snd) runs,
          fold join_run (map (\<lambda>(name, _, r). (name, r)) runs) (\<lparr>wo_wake_blocks = [], wo_stale = False\<rparr>, reports)))"

end
