(* ===== verification/Codex_Run.thy ===== *)
theory Codex_Run
  imports Runner
begin

text \<open>
  \<open>autofork/src/codex.rs\<close>, the runs of a fork: sandbox and working directory of a guarded run, the cache
  copy, one attempt with the stream it reads, the candidates, the waiter's runs with their gate on
  overlap. As in \<open>Runner\<close> a run is the frames it sends and what it starts; a \<open>codex_world\<close> answers for the
  outside of one attempt. The debug log and the throwaway files are left out, except for whether making
  them works.
\<close>

section \<open>The outside of one attempt\<close>

text \<open>What the reader of the child's output meets: a line, a line that comes after the deadline, a line
  that cannot be read.\<close>

datatype stream_item = Line str | LateLine | BadLine

text \<open>The child: it does not start, or it writes a stream and ends with success or not.\<close>

datatype codex_child = CxNoSpawn | CxStream "stream_item list" bool

record codex_world =
  cw_dir_uuid :: str
  cw_copy_uuid :: str
  cw_home_uuid :: str
  cw_mkdir :: "path \<Rightarrow> bool"
  cw_copy_file :: "path \<Rightarrow> path \<Rightarrow> bool"
  cw_link :: "path \<Rightarrow> path \<Rightarrow> bool"
  cw_temp_dir :: path
  cw_child :: "launch \<Rightarrow> codex_child"

definition codex_bin :: "run_host \<Rightarrow> str" where
  "codex_bin rh = (case utf8_var (rh_fs rh) ''AUTOFORK_CODEX_BIN'' of Some b \<Rightarrow> b
     | None \<Rightarrow> (case rh_harness_bin rh of Some b \<Rightarrow> b | None \<Rightarrow> ''codex''))"

definition codex_timeout :: "run_host \<Rightarrow> nat" where
  "codex_timeout rh = (case Option.bind (utf8_var (rh_fs rh) ''AUTOFORK_CODEX_FORK_TIMEOUT_SECS'') parse_u64 of
     Some n \<Rightarrow> n | None \<Rightarrow> FORK_TIMEOUT_SECS)"

definition codex_home :: "fsys \<Rightarrow> path option" where
  "codex_home fs = (case fs_env fs ''CODEX_HOME'' of
     Some h \<Rightarrow> if h \<noteq> [] then Some h else map_option (\<lambda>p. path_join p ''.codex'') (home_dir fs)
   | None \<Rightarrow> map_option (\<lambda>p. path_join p ''.codex'') (home_dir fs))"

section \<open>Sandbox and working directory\<close>

definition BYPASS :: str where
  "BYPASS = ''--dangerously-bypass-approvals-and-sandbox''"

definition sandbox_args :: "str option \<Rightarrow> str list" where
  "sandbox_args permission_mode = (if permission_mode = Some ''bypassPermissions'' then [BYPASS]
     else if permission_mode = Some ''plan'' then [''--sandbox'', ''read-only''] else [''--sandbox'', ''workspace-write''])"

definition resolve_sandbox :: "str option \<Rightarrow> str option \<Rightarrow> str list" where
  "resolve_sandbox mode parent_permission_mode = (case mode of
     Some m \<Rightarrow> if m = ''danger-full-access'' then [BYPASS]
       else if m \<in> {''read-only'', ''workspace-write''} then [''--sandbox'', m] else sandbox_args parent_permission_mode
   | None \<Rightarrow> sandbox_args parent_permission_mode)"

definition hex_upper :: "nat \<Rightarrow> char" where
  "hex_upper d = (if d < 10 then char_of (48 + d) else char_of (55 + d))"

definition toml_char :: "char \<Rightarrow> str" where
  "toml_char c = (if c = backslash then [backslash, backslash]
     else if c = CHR 0x22 then [backslash, CHR 0x22]
     else if c = nl then [backslash, CHR ''n'']
     else if c = CHR 0x0D then [backslash, CHR ''r'']
     else if c = CHR 0x09 then [backslash, CHR ''t'']
     else (let n = of_char c :: nat
       in if n < 0x20 \<or> n = 0x7F
          then [backslash, CHR ''u'', CHR ''0'', CHR ''0'', hex_upper (n div 16), hex_upper (n mod 16)] else [c]))"

definition toml_string :: "str \<Rightarrow> str" where
  "toml_string s = [CHR 0x22] @ concat (map toml_char s) @ [CHR 0x22]"

definition guard_mcp_args :: "guard \<Rightarrow> str list" where
  "guard_mcp_args g = (if allows_family g TMcp then [] else [''-c'', ''mcp_servers={}''])"

definition guard_sandbox :: "guard \<Rightarrow> str list" where
  "guard_sandbox g = (if g_write g = [] \<or> g_tools g = Some [] then [''--sandbox'', ''read-only''] @ guard_mcp_args g
     else [''--sandbox'', ''workspace-write'',
       ''-c'', ''sandbox_workspace_write.writable_roots=['' @ join_with '','' (map toml_string (g_write g)) @ '']'',
       ''-c'', ''sandbox_workspace_write.network_access='' @ (if g_network g then ''true'' else ''false'')] @ guard_mcp_args g)"

text \<open>The directory a guarded run starts in, and whether it was made for the run.\<close>

definition scratch_dir :: "path \<Rightarrow> codex_world \<Rightarrow> path" where
  "scratch_dir base cw = path_join (path_join base ''tmp'') (''guard-cwd-'' @ cw_dir_uuid cw)"

definition guard_cwd :: "run_host \<Rightarrow> codex_world \<Rightarrow> path \<Rightarrow> guard \<Rightarrow> path \<times> bool" where
  "guard_cwd rh cw base g = (case find (fs_is_dir (rh_fs rh)) (g_write g) of
     Some w \<Rightarrow> (w, False)
   | None \<Rightarrow> if cw_mkdir cw (scratch_dir base cw) then (scratch_dir base cw, True) else (cw_temp_dir cw, False))"

section \<open>The cache copy\<close>

definition path_extension :: "path \<Rightarrow> str option" where
  "path_extension p = Option.bind (path_file_name p) (\<lambda>n.
     let ps = split_on (CHR ''.'') n in if length ps < 2 \<or> butlast ps = [[]] then None else Some (last ps))"

definition first_line :: "str \<Rightarrow> str option" where
  "first_line content = (let l = takeWhile (\<lambda>c. c \<noteq> nl) content in if valid_utf8 l then Some l else None)"

text \<open>What the first line of the rollout has to say: a plain self-contained history of this session.\<close>

definition copyable_meta :: "str \<Rightarrow> json \<Rightarrow> bool" where
  "copyable_meta session v \<longleftrightarrow> j_get_str v ''type'' = Some ''session_meta''
     \<and> Option.bind (j_get v ''payload'') (\<lambda>p. j_get_str p ''id'') = Some session
     \<and> Option.bind (j_get v ''payload'') (\<lambda>p. j_get p ''history_base'') \<in> {None, Some JNull}"

definition below_sessions :: "path \<Rightarrow> path option" where
  "below_sessions rollout = (case dropWhile (\<lambda>c. c \<noteq> Normal ''sessions'') (components rollout) of [] \<Rightarrow> None | cs \<Rightarrow> Some (path_of cs))"

definition prepare_cache_copy :: "run_host \<Rightarrow> codex_world \<Rightarrow> path \<Rightarrow> str \<Rightarrow> path \<Rightarrow> path option" where
  "prepare_cache_copy rh cw base session rollout =
     (if path_extension rollout \<noteq> Some ''jsonl'' then None
      else case Option.bind (Option.bind (fs_read (rh_fs rh) rollout) first_line) (\<lambda>l. rh_parse rh (trim l)) of
        None \<Rightarrow> None
      | Some v \<Rightarrow> if \<not> copyable_meta session v then None
        else case codex_home (rh_fs rh) of None \<Rightarrow> None
        | Some real \<Rightarrow>
          (let home = path_join (path_join base ''tmp'') (''cx-'' @ take 13 (cw_home_uuid cw))
           in case below_sessions rollout of None \<Rightarrow> None
              | Some rel \<Rightarrow>
                (let dst = path_join home rel
                 in if (case path_parent dst of Some dir \<Rightarrow> cw_mkdir cw dir | None \<Rightarrow> False)
                      \<and> cw_copy_file cw rollout dst
                      \<and> cw_link cw (path_join real ''auth.json'') (path_join home ''auth.json'')
                    then Some home else None)))"

section \<open>The stream of a run\<close>

record stream =
  sm_thread :: "str option"
  sm_last :: "str option"
  sm_failed :: bool
  sm_completed :: bool

definition stream_new :: stream where
  "stream_new = \<lparr>sm_thread = None, sm_last = None, sm_failed = False, sm_completed = False\<rparr>"

text \<open>One event: \<open>own\<close> is the id of the session, \<open>copied\<close> whether the run resumes a copy of it.\<close>

definition stream_event :: "str \<Rightarrow> bool \<Rightarrow> json \<Rightarrow> stream \<Rightarrow> stream \<times> str list" where
  "stream_event own copied v sm = (let kind = j_get_str v ''type'' in
     if kind = Some ''thread.started'' then (case j_get_str v ''thread_id'' of
         Some i \<Rightarrow> if \<not> copied \<and> i \<noteq> own then (sm\<lparr>sm_thread := Some i\<rparr>, [i]) else (sm, [])
       | None \<Rightarrow> (sm, []))
     else if kind = Some ''item.completed'' then (case j_get v ''item'' of
         Some item \<Rightarrow> if j_get_str item ''type'' = Some ''agent_message''
           then (case j_get_str item ''text'' of Some t \<Rightarrow> (sm\<lparr>sm_last := Some t\<rparr>, []) | None \<Rightarrow> (sm, [])) else (sm, [])
       | None \<Rightarrow> (sm, []))
     else if kind = Some ''turn.completed'' then (sm\<lparr>sm_completed := True\<rparr>, [])
     else if kind = Some ''turn.failed'' \<or> kind = Some ''error'' then (sm\<lparr>sm_failed := True\<rparr>, [])
     else (sm, []))"

text \<open>The loop over the lines: the final state, and the thread ids registered on the way.\<close>

fun read_stream :: "(str \<Rightarrow> json option) \<Rightarrow> str \<Rightarrow> bool \<Rightarrow> stream_item list \<Rightarrow> stream \<Rightarrow> stream \<times> str list" where
  "read_stream parse own copied [] sm = (sm, [])"
| "read_stream parse own copied (LateLine # rest) sm = (sm\<lparr>sm_failed := True\<rparr>, [])"
| "read_stream parse own copied (BadLine # rest) sm = (sm, [])"
| "read_stream parse own copied (Line l # rest) sm = (case parse l of
     None \<Rightarrow> read_stream parse own copied rest sm
   | Some v \<Rightarrow> (case stream_event own copied v sm of (sm1, ids) \<Rightarrow>
       (case read_stream parse own copied rest sm1 of (sm2, later) \<Rightarrow> (sm2, ids @ later))))"

section \<open>One attempt\<close>

record run_outcome =
  ro_status :: str
  ro_report :: str
  ro_cont :: bool
  ro_fork_thread :: "str option"
  ro_copy_home :: "path option"

definition send_fork_frame :: "str \<Rightarrow> str \<Rightarrow> str option \<Rightarrow> (str \<times> bool option) option \<Rightarrow> request" where
  "send_fork_frame session fork run_ref completion =
     (let r = (case run_ref of Some r \<Rightarrow> r | None \<Rightarrow> ''unknown'')
      in case completion of None \<Rightarrow> ForkSpawned session fork r
         | Some (status, cont) \<Rightarrow> ForkCompleted session fork r status cont)"

definition codex_launch :: "run_host \<Rightarrow> str \<Rightarrow> path \<Rightarrow> wake_fork \<Rightarrow> str \<Rightarrow> str list \<Rightarrow> str option \<Rightarrow> path option \<Rightarrow> launch" where
  "codex_launch rh session cwd spec prompt sandbox model copy_home = \<lparr>ln_program = codex_bin rh,
     ln_args = [''exec'', ''--skip-git-repo-check'', ''--json'', ''-C'', cwd] @ sandbox
       @ (case model of Some m \<Rightarrow> [''-m'', m] | None \<Rightarrow> [])
       @ [if copy_home = None then ''fork'' else ''resume'', session, prompt],
     ln_dir = None, ln_env = (case copy_home of Some h \<Rightarrow> [(''CODEX_HOME'', h)] | None \<Rightarrow> []) @ fork_env session spec,
     ln_timeout = Some (codex_timeout rh)\<rparr>"

definition copy_home_of :: "run_host \<Rightarrow> codex_world \<Rightarrow> path \<Rightarrow> str \<Rightarrow> path option \<Rightarrow> str option \<Rightarrow> str option \<Rightarrow> path option" where
  "copy_home_of rh cw base session rollout parent_model candidate =
     (if (candidate = None \<or> candidate = parent_model) \<and> fs_env (rh_fs rh) ''AUTOFORK_CODEX_CACHE_COPY'' = Some ''1''
      then Option.bind rollout (prepare_cache_copy rh cw base session) else None)"

text \<open>What the attempt starts, with the sandbox and the directory the guard, or else the mode, decides.\<close>

definition attempt_sandbox :: "wake_fork \<Rightarrow> str option \<Rightarrow> str list" where
  "attempt_sandbox spec parent_permission_mode = (case wf_guard spec of Some g \<Rightarrow> guard_sandbox g
     | None \<Rightarrow> resolve_sandbox (wf_mode spec) parent_permission_mode)"

definition attempt_dir :: "run_host \<Rightarrow> codex_world \<Rightarrow> path \<Rightarrow> path \<Rightarrow> wake_fork \<Rightarrow> path" where
  "attempt_dir rh cw base cwd spec = (case wf_guard spec of Some g \<Rightarrow> fst (guard_cwd rh cw base g) | None \<Rightarrow> cwd)"

definition finish_stream :: "wake_fork \<Rightarrow> stream \<Rightarrow> bool \<Rightarrow> path option \<Rightarrow> run_outcome" where
  "finish_stream spec sm status_ok copy_home =
     (let status = (if sm_completed sm \<and> status_ok \<and> \<not> sm_failed sm then ''completed'' else ''failed'');
          raw = trim (case sm_last sm of Some t \<Rightarrow> t | None \<Rightarrow> []);
          chain_next = (status = ''completed'' \<and> wf_chain spec \<and> wants_continue raw)
      in \<lparr>ro_status = status, ro_report = (if chain_next then strip_continue raw else raw), ro_cont = chain_next,
          ro_fork_thread = sm_thread sm, ro_copy_home = copy_home\<rparr>)"

definition attempt_run :: "run_host \<Rightarrow> codex_world \<Rightarrow> path \<Rightarrow> str \<Rightarrow> path option \<Rightarrow> path \<Rightarrow> str option \<Rightarrow> str option
    \<Rightarrow> wake_fork \<Rightarrow> str \<Rightarrow> str option \<Rightarrow> launch \<times> request list \<times> run_outcome" where
  "attempt_run rh cw base session rollout cwd parent_model parent_permission_mode spec prompt candidate =
     (let copy_home = copy_home_of rh cw base session rollout parent_model candidate;
          copy_ref = map_option (\<lambda>_. ''copy:'' @ cw_copy_uuid cw) copy_home;
          frame = send_fork_frame session (wf_name spec);
          registered = (case copy_ref of Some r \<Rightarrow> [frame (Some r) None] | None \<Rightarrow> []);
          ln = codex_launch rh session (attempt_dir rh cw base cwd spec) spec prompt (attempt_sandbox spec parent_permission_mode)
            (case candidate of Some m \<Rightarrow> Some m | None \<Rightarrow> parent_model) copy_home
      in case cw_child cw ln of
           CxNoSpawn \<Rightarrow> (ln, registered @ [frame copy_ref (Some (''failed'', None))],
             \<lparr>ro_status = ''failed'', ro_report = [], ro_cont = False, ro_fork_thread = None, ro_copy_home = copy_home\<rparr>)
         | CxStream items status_ok \<Rightarrow>
             (let (sm, ids) = read_stream (rh_parse rh) session (copy_home \<noteq> None) items stream_new;
                  outcome = finish_stream spec sm status_ok copy_home
              in (ln, registered @ map (\<lambda>i. frame (Some i) None) ids
                    @ [frame (case copy_ref of Some r \<Rightarrow> Some r | None \<Rightarrow> sm_thread sm)
                         (Some (ro_status outcome, if ro_cont outcome then Some True else None))], outcome)))"

section \<open>One run\<close>

text \<open>What is deleted after a run: a thread, or the home of a copy.\<close>

definition cleanup_run :: "fsys \<Rightarrow> run_outcome \<Rightarrow> str list" where
  "cleanup_run fs outcome = (if ro_status outcome \<noteq> ''completed'' \<or> fs_env fs ''AUTOFORK_KEEP_FORK_SESSIONS'' \<noteq> None then []
     else (case ro_fork_thread outcome of Some i \<Rightarrow> [''thread '' @ i] | None \<Rightarrow> [])
       @ (case ro_copy_home outcome of Some h \<Rightarrow> [''home '' @ h] | None \<Rightarrow> []))"

fun execute_candidates :: "(nat \<Rightarrow> str option \<Rightarrow> launch \<times> request list \<times> run_outcome) \<Rightarrow> nat \<Rightarrow> str option list
    \<Rightarrow> (launch list \<times> request list \<times> run_outcome) option" where
  "execute_candidates attempt i [] = None"
| "execute_candidates attempt i (m # ms) = (case attempt i m of (ln, frames, outcome) \<Rightarrow>
     if ro_status outcome = ''completed'' \<or> ms = [] then Some ([ln], frames, outcome)
     else map_option (\<lambda>(lns, later, final). (ln # lns, frames @ later, final)) (execute_candidates attempt (Suc i) ms))"

definition execute_run :: "run_host \<Rightarrow> (nat \<Rightarrow> codex_world) \<Rightarrow> path \<Rightarrow> str \<Rightarrow> path option \<Rightarrow> path \<Rightarrow> str option \<Rightarrow> str option
    \<Rightarrow> wake_fork \<Rightarrow> str \<Rightarrow> (launch list \<times> request list \<times> run_outcome) option" where
  "execute_run rh cws base session rollout cwd parent_model parent_permission_mode spec prompt =
     execute_candidates (\<lambda>i. attempt_run rh (cws i) base session rollout cwd parent_model parent_permission_mode spec prompt)
       0 (model_candidates spec)"

section \<open>The waiter's runs\<close>

record waiter_shared =
  ws_live_by_fork :: "str \<rightharpoonup> nat"
  ws_reports :: "str \<rightharpoonup> str"

definition live_runs :: "waiter_shared \<Rightarrow> str \<Rightarrow> nat" where
  "live_runs ws name = (case ws_live_by_fork ws name of Some n \<Rightarrow> n | None \<Rightarrow> 0)"

text \<open>\<open>run_fork\<close>: the gate, and the count around the thread.\<close>

definition enter_fork :: "wake_fork \<Rightarrow> waiter_shared \<Rightarrow> waiter_shared option" where
  "enter_fork spec ws = (if \<not> wf_overlap spec \<and> live_runs ws (wf_name spec) > 0 then None
     else Some (ws\<lparr>ws_live_by_fork := (ws_live_by_fork ws)(wf_name spec \<mapsto> live_runs ws (wf_name spec) + 1)\<rparr>))"

definition leave_fork :: "str \<Rightarrow> waiter_shared \<Rightarrow> waiter_shared" where
  "leave_fork name ws = (case ws_live_by_fork ws name of
     Some n \<Rightarrow> ws\<lparr>ws_live_by_fork := (ws_live_by_fork ws)(name \<mapsto> n - 1)\<rparr> | None \<Rightarrow> ws)"

text \<open>\<open>run_fork_inner\<close>: the frames, and the report kept for dependents. The reports are read before the
  run and written after it, whatever other runs did in between.\<close>

definition run_fork_inner :: "run_host \<Rightarrow> (nat \<Rightarrow> codex_world) \<Rightarrow> path \<Rightarrow> str \<Rightarrow> path \<Rightarrow> path \<Rightarrow> str option \<Rightarrow> str option
    \<Rightarrow> wake_fork \<Rightarrow> (str \<rightharpoonup> str) \<Rightarrow> (request list \<times> run_outcome \<times> str option) option" where
  "run_fork_inner rh cws base session rollout cwd model permission_mode spec reports =
     map_option (\<lambda>(_, frames, outcome).
       (frames @ [SpoolReportReq session (wf_name spec)
            (report_block (wf_name spec) (wf_trigger spec) (ro_status outcome) (report_body (ro_status outcome) (ro_report outcome)))],
        outcome, if ro_status outcome = ''completed'' \<and> ro_report outcome \<noteq> [] then Some (ro_report outcome) else None))
     (execute_run rh cws base session (Some rollout) cwd model permission_mode spec (wf_prompt spec @ carried_after reports spec))"

definition keep_report :: "str \<Rightarrow> str option \<Rightarrow> waiter_shared \<Rightarrow> waiter_shared" where
  "keep_report name report ws = (case report of Some r \<Rightarrow> ws\<lparr>ws_reports := (ws_reports ws)(name \<mapsto> r)\<rparr> | None \<Rightarrow> ws)"

section \<open>The run on close\<close>

definition run_final_codex :: "run_host \<Rightarrow> (nat \<Rightarrow> codex_world) \<Rightarrow> path \<Rightarrow> str \<Rightarrow> path \<Rightarrow> str option \<Rightarrow> str option
    \<Rightarrow> wake_fork \<Rightarrow> str \<Rightarrow> (request list \<times> str option) option" where
  "run_final_codex rh cws base session cwd parent_model parent_permission_mode spec piped =
     map_option (\<lambda>(_, frames, outcome). let done = (ro_status outcome = ''completed'')
       in (frames @ (if done then [SpoolReportReq session (wf_name spec)
              (report_block (wf_name spec) (wf_trigger spec) (ro_status outcome) (report_body (ro_status outcome) (ro_report outcome)))] else []),
           if done \<and> ro_report outcome \<noteq> [] then Some (ro_report outcome) else None))
     (execute_run rh cws base session None cwd parent_model parent_permission_mode spec (wf_prompt spec @ piped))"

end
