(* ===== verification/Client_Hooks.thy ===== *)
theory Client_Hooks
  imports Codex_Run
begin

text \<open>
  The hook entry points of the three harnesses: \<open>autofork/src/hook.rs\<close> (Claude Code), the hooks of
  \<open>autofork/src/codex.rs\<close> and of \<open>autofork/src/opencode.rs\<close>, each as the \<open>talk\<close> it has with the daemon. The input
  is the JSON object as the hook deserializes it; a hook whose input cannot be read does nothing.
\<close>

section \<open>Claude Code\<close>

record hook_input =
  hi_session_id :: str
  hi_transcript_path :: "path option"
  hi_cwd :: "path option"
  hi_source :: "str option"
  hi_reason :: "str option"
  hi_model :: "str option"
  hi_prompt :: "str option"

datatype hook_kind = SessionStart | UserPromptSubmit | StopWaitHook | SessionEnd

definition bow_out :: talk where
  "bow_out = Exit (Some 0)"

definition claude_event :: "hook_host \<Rightarrow> hook_input \<Rightarrow> path \<Rightarrow> event_kind \<Rightarrow> event" where
  "claude_event hh hi cwd kind = (client_event (wd_fs (hh_world hh)) (hi_session_id hi) cwd (project_root (wd_fs (hh_world hh)) cwd) kind)
     \<lparr>ev_transcript_path := hi_transcript_path hi, ev_source := hi_source hi, ev_reason := hi_reason hi, ev_model := hi_model hi,
      ev_harness := client_process hh\<rparr>"

definition conversation_key :: "hook_input \<Rightarrow> str" where
  "conversation_key hi = (case Option.bind (hi_transcript_path hi) path_file_stem of Some s \<Rightarrow> s | None \<Rightarrow> hi_session_id hi)"

text \<open>What a prompt says of itself: a wake of ours, the notification of a task, or the user.\<close>

definition sniff_prompt :: "str option \<Rightarrow> event \<Rightarrow> event" where
  "sniff_prompt prompt ev = (case prompt of None \<Rightarrow> ev
   | Some p \<Rightarrow> if str_contains p WAKE_MARKER then ev\<lparr>ev_waking := Some False\<rparr>
       else (case parse_task_notification p of
           Some n \<Rightarrow> ev\<lparr>ev_waking := Some False, ev_notif_tool_use_id := tn_tool_use_id n, ev_notif_task_id := tn_task_id n,
             ev_notif_status := tn_status n, ev_notif_continue := Some (tn_continue n)\<rparr>
         | None \<Rightarrow> ev\<lparr>ev_waking := Some True\<rparr>))"

definition session_start_talk :: "hook_host \<Rightarrow> event \<Rightarrow> talk" where
  "session_start_talk hh ev = open_current (wd_version (hh_world hh)) bow_out (Ask (Event ev) (\<lambda>_. bow_out))"

definition prompt_submit_talk :: "hook_host \<Rightarrow> hook_input \<Rightarrow> path \<Rightarrow> talk" where
  "prompt_submit_talk hh hi cwd = Open OpenOnly (\<lambda>ok. if \<not> ok then Do SpawnsDaemon bow_out
     else Ask (TakeReportsReq (conversation_key hi) None) (\<lambda>answer. print_additional_context answer
       (Ask (Event (sniff_prompt (hi_prompt hi) (claude_event hh hi cwd EvPromptSubmit))) (\<lambda>_. bow_out))))"

text \<open>The headless loop, over the wakes it lives to see: the worlds of the runs of each, and the world in
  which they are over.\<close>

fun headless_loop :: "hook_host \<Rightarrow> run_host \<Rightarrow> hook_input \<Rightarrow> path \<Rightarrow> ((nat \<Rightarrow> run_world) \<times> world) list \<Rightarrow> (str \<rightharpoonup> str) \<Rightarrow> talk" where
  "headless_loop hh rh hi cwd [] reports = Exit None"
| "headless_loop hh rh hi cwd ((rws, w) # later) reports = Ask (StopWait (claude_event hh hi cwd EvStop)) (\<lambda>answer. case answer of
     Some (RWake payload forks feed) \<Rightarrow>
       if (case feed of Some f \<Rightarrow> fw_blocks f \<noteq> [] | None \<Rightarrow> False) then Do (Says payload) (Exit (Some 2))
       else (case execute_wake rh rws (hi_session_id hi) (conversation_key hi) cwd (case forks of Some fs \<Rightarrow> fs | None \<Rightarrow> []) reports of
         (frames, outcome, reports1) \<Rightarrow> Do (Frames (concat frames))
           (if wo_stale outcome then bow_out
            else if wo_wake_blocks outcome \<noteq> [] then Do (Says (build_chain_wake_payload (wo_wake_blocks outcome))) (Exit (Some 2))
            else if (case client_process hh of Some h \<Rightarrow> \<not> harness_alive w h | None \<Rightarrow> False) then bow_out
            else open_current (wd_version (hh_world hh)) bow_out (headless_loop hh rh hi cwd later reports1)))
   | _ \<Rightarrow> bow_out)"

definition subagent_wait :: "event \<Rightarrow> talk" where
  "subagent_wait ev = Ask (StopWait ev) (\<lambda>answer. case answer of
     Some (RWake payload _ _) \<Rightarrow> Do (Says payload) (Exit (Some 2)) | _ \<Rightarrow> bow_out)"

definition stop_wait_talk :: "hook_host \<Rightarrow> run_host \<Rightarrow> hook_input \<Rightarrow> path \<Rightarrow> ((nat \<Rightarrow> run_world) \<times> world) list \<Rightarrow> talk" where
  "stop_wait_talk hh rh hi cwd worlds = open_current (wd_version (hh_world hh)) bow_out
     (if runner_mode (cfg_for (hh_world hh) (Some (project_root (wd_fs (hh_world hh)) cwd))) = Headless
      then headless_loop hh rh hi cwd worlds Map.empty else subagent_wait (claude_event hh hi cwd EvStop))"

definition session_end_talk :: "hook_host \<Rightarrow> path \<Rightarrow> hook_input \<Rightarrow> path \<Rightarrow> talk" where
  "session_end_talk hh specs_path hi cwd = Open OpenOrSpawn (\<lambda>ok. if \<not> ok then bow_out
     else take_final_runs hh (project_root (wd_fs (hh_world hh)) cwd) specs_path
        \<lparr>fa_client = ''claude-code'', fa_session_id = hi_session_id hi, fa_resume_target = conversation_key hi, fa_cwd = cwd,
         fa_model = None, fa_permission_mode = None, fa_bin = parent_exe hh\<rparr>
        (Ask (Event (claude_event hh hi cwd EvSessionEnd)) (\<lambda>_. bow_out)))"

definition run_hook :: "hook_host \<Rightarrow> run_host \<Rightarrow> path \<Rightarrow> ((nat \<Rightarrow> run_world) \<times> world) list \<Rightarrow> hook_kind \<Rightarrow> hook_input option \<Rightarrow> talk" where
  "run_hook hh rh specs_path worlds kind input = (if inside_fork (wd_fs (hh_world hh)) then bow_out
     else case input of None \<Rightarrow> bow_out
     | Some hi \<Rightarrow> (case (case hi_cwd hi of Some c \<Rightarrow> Some c | None \<Rightarrow> hh_current_dir hh) of None \<Rightarrow> bow_out
       | Some cwd \<Rightarrow> (case kind of
           SessionStart \<Rightarrow> session_start_talk hh (claude_event hh hi cwd EvSessionStart)
         | UserPromptSubmit \<Rightarrow> prompt_submit_talk hh hi cwd
         | StopWaitHook \<Rightarrow> stop_wait_talk hh rh hi cwd worlds
         | SessionEnd \<Rightarrow> session_end_talk hh specs_path hi cwd)))"

section \<open>Codex\<close>

record cx_input =
  cx_session :: str
  cx_rollout :: "path option"
  cx_dir :: "path option"
  cx_source :: "str option"
  cx_reason :: "str option"
  cx_model :: "str option"
  cx_permission_mode :: "str option"
  cx_prompt :: "str option"

datatype cx_hook_kind = CxSessionStart | CxPromptSubmit | CxStop | CxSessionEnd

definition cx_event :: "hook_host \<Rightarrow> cx_input \<Rightarrow> path \<Rightarrow> event_kind \<Rightarrow> event" where
  "cx_event hh cx cwd kind = (client_event (wd_fs (hh_world hh)) (cx_session cx) cwd (project_root (wd_fs (hh_world hh)) cwd) kind)
     \<lparr>ev_source := cx_source cx, ev_reason := cx_reason cx, ev_model := cx_model cx, ev_client := Some ''codex'',
      ev_harness := client_process hh\<rparr>"

definition waiter_launch :: "hook_host \<Rightarrow> path \<Rightarrow> cx_input \<Rightarrow> path \<Rightarrow> path \<Rightarrow> launch" where
  "waiter_launch hh exe cx rollout cwd = \<lparr>ln_program = exe,
     ln_args = [''codex'', ''waiter'', ''--session'', cx_session cx, ''--rollout'', rollout, ''--codex-pid'',
         show_nat (pr_self_parent (hh_procs hh)), ''--cwd'', cwd]
       @ (case cx_model cx of Some m \<Rightarrow> [''--model'', m] | None \<Rightarrow> [])
       @ (case cx_permission_mode cx of Some m \<Rightarrow> [''--permission-mode'', m] | None \<Rightarrow> [])
       @ (case parent_exe hh of Some b \<Rightarrow> [''--codex-bin'', b] | None \<Rightarrow> []),
     ln_dir = None, ln_env = [], ln_timeout = None\<rparr>"

definition spawn_waiter :: "hook_host \<Rightarrow> cx_input \<Rightarrow> path \<Rightarrow> talk \<Rightarrow> talk" where
  "spawn_waiter hh cx cwd k = (case (cx_rollout cx, hh_exe hh) of
     (Some rollout, Some exe) \<Rightarrow> Do (Starts (waiter_launch hh exe cx rollout cwd)) k | _ \<Rightarrow> k)"

definition cx_prompt_talk :: "hook_host \<Rightarrow> cx_input \<Rightarrow> path \<Rightarrow> talk" where
  "cx_prompt_talk hh cx cwd = Open OpenOnly (\<lambda>ok. if \<not> ok then Do SpawnsDaemon bow_out
     else Ask (TakeReportsReq (cx_session cx) None) (\<lambda>answer. print_additional_context answer
       (Ask (Event ((cx_event hh cx cwd EvPromptSubmit)\<lparr>ev_waking := map_option (\<lambda>p. \<not> str_contains p WAKE_MARKER) (cx_prompt cx)\<rparr>))
         (\<lambda>_. spawn_waiter hh cx cwd bow_out))))"

definition stop_decision :: "str \<Rightarrow> json" where
  "stop_decision reason = JObj [(''decision'', JStr ''block''), (''reason'', JStr reason)]"

definition stop_body :: "run_outcome \<Rightarrow> str" where
  "stop_body outcome = (if ro_status outcome = ''completed'' \<and> ro_report outcome \<noteq> [] then ro_report outcome
     else if ro_status outcome = ''completed'' then ''(the fork finished without a report)''
     else ''(the fork run '' @ ro_status outcome @ '')'')"

text \<open>The forks that are due at this stop, one after the other; a continuing chain blocks the stop.\<close>

primrec stop_runs :: "run_host \<Rightarrow> (nat \<Rightarrow> nat \<Rightarrow> codex_world) \<Rightarrow> path \<Rightarrow> cx_input \<Rightarrow> path \<Rightarrow> nat \<Rightarrow> wake_fork list \<Rightarrow> str list \<Rightarrow> talk" where
  "stop_runs rh cws base cx cwd i [] blocks =
     (if blocks = [] then bow_out else Do (Prints (stop_decision (join_with [nl, nl] blocks))) bow_out)"
| "stop_runs rh cws base cx cwd i (spec # specs) blocks =
     (case execute_run rh (cws i) base (cx_session cx) (cx_rollout cx) cwd (cx_model cx) (cx_permission_mode cx) spec (wf_prompt spec) of
        None \<Rightarrow> bow_out
      | Some (_, frames, outcome) \<Rightarrow>
          (let block = report_block (wf_name spec) (wf_trigger spec) (ro_status outcome) (stop_body outcome)
           in Do (Frames (frames @ (if ro_cont outcome then [] else [SpoolReportReq (cx_session cx) (wf_name spec) block])))
                (stop_runs rh cws base cx cwd (Suc i) specs (if ro_cont outcome then blocks @ [block] else blocks))))"

definition cx_stop_talk :: "run_host \<Rightarrow> (nat \<Rightarrow> nat \<Rightarrow> codex_world) \<Rightarrow> path \<Rightarrow> cx_input \<Rightarrow> path \<Rightarrow> talk" where
  "cx_stop_talk rh cws base cx cwd = Open OpenOnly (\<lambda>ok. if \<not> ok then Do SpawnsDaemon bow_out
     else Ask (TakeWakeBlocksReq (cx_session cx)) (\<lambda>fed. let feed_blocks = (case fed of Some (RReports blocks) \<Rightarrow> blocks | _ \<Rightarrow> [])
       in Ask (PeekDue (cx_session cx)) (\<lambda>answer. case answer of
            Some (RDue (spec # specs)) \<Rightarrow> stop_runs rh cws base cx cwd 0 (spec # specs) feed_blocks
          | _ \<Rightarrow> if feed_blocks = [] then bow_out else Do (Prints (stop_decision (build_feed_wake_payload feed_blocks))) bow_out)))"

definition cx_end_talk :: "hook_host \<Rightarrow> path \<Rightarrow> cx_input \<Rightarrow> path \<Rightarrow> talk" where
  "cx_end_talk hh specs_path cx cwd =
     (let root = project_root (wd_fs (hh_world hh)) cwd;
          close = Do (Tombstone True) (Open OpenOrSpawn (\<lambda>ok. if \<not> ok then bow_out
            else Ask (Event (cx_event hh cx cwd EvSessionEnd)) (\<lambda>_. bow_out)))
      in if flush_on_close (cfg_for (hh_world hh) (Some root))
         then Open OpenOnly (\<lambda>ok. if \<not> ok then close else take_final_runs hh root specs_path
           \<lparr>fa_client = ''codex'', fa_session_id = cx_session cx, fa_resume_target = cx_session cx, fa_cwd = cwd,
            fa_model = cx_model cx, fa_permission_mode = cx_permission_mode cx, fa_bin = parent_exe hh\<rparr> close)
         else close)"

definition cx_run_hook :: "hook_host \<Rightarrow> run_host \<Rightarrow> (nat \<Rightarrow> nat \<Rightarrow> codex_world) \<Rightarrow> path \<Rightarrow> path \<Rightarrow> cx_hook_kind \<Rightarrow> cx_input option \<Rightarrow> talk" where
  "cx_run_hook hh rh cws base specs_path kind input = (if inside_fork (wd_fs (hh_world hh)) then bow_out
     else case input of None \<Rightarrow> bow_out
     | Some cx \<Rightarrow> (case (case cx_dir cx of Some c \<Rightarrow> Some c | None \<Rightarrow> hh_current_dir hh) of None \<Rightarrow> bow_out
       | Some cwd \<Rightarrow> (case kind of
           CxSessionStart \<Rightarrow> open_current (wd_version (hh_world hh)) bow_out (Ask (Event (cx_event hh cx cwd EvSessionStart))
             (\<lambda>_. Do (Tombstone False) (spawn_waiter hh cx cwd bow_out)))
         | CxPromptSubmit \<Rightarrow> cx_prompt_talk hh cx cwd
         | CxStop \<Rightarrow> cx_stop_talk rh cws base cx cwd
         | CxSessionEnd \<Rightarrow> cx_end_talk hh specs_path cx cwd)))"

section \<open>opencode\<close>

record oc_input =
  oc_session_id :: str
  oc_directory :: path
  oc_worktree :: "path option"
  oc_model :: "str option"
  oc_context_tokens :: "nat option"
  oc_context_window :: "nat option"
  oc_fork :: "str option"
  oc_run_ref :: "str option"
  oc_status :: "str option"
  oc_busy :: "bool option"
  oc_waking :: "bool option"
  oc_cont :: "bool option"
  oc_reason :: "str option"
  oc_bin :: "path option"

datatype oc_hook_kind = OcSessionStart | OcPromptSubmit | OcMessage | OcStopWait | OcSessionEnd | OcForkSpawned | OcForkCompleted | OcRunState

definition FEED_DRAIN_WAIT_MS :: nat where
  "FEED_DRAIN_WAIT_MS = 4000"

definition project_root_for :: "path option \<Rightarrow> path \<Rightarrow> path" where
  "project_root_for worktree directory = (case worktree of
     Some w \<Rightarrow> if \<not> path_eq w [slash] \<and> path_starts_with directory w then w else directory
   | None \<Rightarrow> directory)"

definition oc_event :: "hook_host \<Rightarrow> oc_input \<Rightarrow> event_kind \<Rightarrow> event" where
  "oc_event hh oi kind = (client_event (wd_fs (hh_world hh)) (oc_session_id oi) (oc_directory oi)
       (project_root_for (oc_worktree oi) (oc_directory oi)) kind)
     \<lparr>ev_reason := oc_reason oi, ev_model := oc_model oi, ev_context_tokens := oc_context_tokens oi,
      ev_context_window := oc_context_window oi, ev_client := Some ''opencode'', ev_busy := oc_busy oi\<rparr>"

text \<open>What is printed where the hook gives up before an answer.\<close>

definition oc_failed :: "oc_hook_kind \<Rightarrow> talk" where
  "oc_failed kind = (case kind of
     OcStopWait \<Rightarrow> Do (Prints (JObj [(''waited'', JBool True)])) bow_out
   | OcMessage \<Rightarrow> Do (Prints (JObj [])) bow_out
   | OcRunState \<Rightarrow> Do (Prints (JObj [(''stale'', JBool False)])) bow_out
   | _ \<Rightarrow> bow_out)"

definition wake_json :: "(wake_fork \<Rightarrow> json) \<Rightarrow> str \<Rightarrow> wake_fork list option \<Rightarrow> feed_wake option \<Rightarrow> json" where
  "wake_json fork_json payload forks feed = JObj [(''wake'', JObj [(''payload'', JStr payload),
     (''forks'', JArr (map fork_json (case forks of Some fs \<Rightarrow> fs | None \<Rightarrow> []))),
     (''feed'', case feed of None \<Rightarrow> JNull
        | Some f \<Rightarrow> JObj [(''blocks'', jstrs (fw_blocks f)), (''wake'', JBool (fw_wake f))])])]"

definition oc_hook :: "hook_host \<Rightarrow> (wake_fork \<Rightarrow> json) \<Rightarrow> path \<Rightarrow> oc_hook_kind \<Rightarrow> oc_input \<Rightarrow> talk" where
  "oc_hook hh fork_json specs_path kind oi =
     (let failed = oc_failed kind; mine = wd_version (hh_world hh);
          root = project_root_for (oc_worktree oi) (oc_directory oi) in case kind of
       OcSessionStart \<Rightarrow> open_current mine failed (Ask (Event (oc_event hh oi EvSessionStart)) (\<lambda>_. bow_out))
     | OcPromptSubmit \<Rightarrow> Open OpenOnly (\<lambda>ok. if \<not> ok then Do SpawnsDaemon bow_out
         else Ask (Event ((oc_event hh oi EvPromptSubmit)\<lparr>ev_waking := Some (case oc_waking oi of Some b \<Rightarrow> b | None \<Rightarrow> True)\<rparr>)) (\<lambda>_. bow_out))
     | OcMessage \<Rightarrow> open_current mine failed (Ask (TakeReportsReq (oc_session_id oi) (Some FEED_DRAIN_WAIT_MS)) (\<lambda>answer.
         Do (Prints (JObj [(''context'', JObj [(''blocks'', jstrs (case answer of Some (RReports blocks) \<Rightarrow> blocks | _ \<Rightarrow> []))])])) bow_out))
     | OcStopWait \<Rightarrow> open_current mine failed (Ask (StopWait (oc_event hh oi EvStop)) (\<lambda>answer. case answer of
         Some (RWake payload forks feed) \<Rightarrow> Do (Prints (wake_json fork_json payload forks feed)) bow_out
       | _ \<Rightarrow> Do (Prints (JObj [(''waited'', JBool True)])) bow_out))
     | OcSessionEnd \<Rightarrow> Open OpenOrSpawn (\<lambda>ok. if \<not> ok then failed
         else take_final_runs hh root specs_path
           \<lparr>fa_client = ''opencode'', fa_session_id = oc_session_id oi, fa_resume_target = oc_session_id oi,
            fa_cwd = oc_directory oi, fa_model = oc_model oi, fa_permission_mode = None, fa_bin = oc_bin oi\<rparr>
           (Ask (Event (oc_event hh oi EvSessionEnd)) (\<lambda>_. bow_out)))
     | OcForkSpawned \<Rightarrow> Open OpenOrSpawn (\<lambda>ok. case (oc_fork oi, oc_run_ref oi) of
         (Some fork, Some r) \<Rightarrow> if ok then Ask (ForkSpawned (oc_session_id oi) fork r) (\<lambda>_. bow_out) else failed | _ \<Rightarrow> failed)
     | OcRunState \<Rightarrow> Open OpenOrSpawn (\<lambda>ok. case oc_run_ref oi of
         Some r \<Rightarrow> if ok then Ask (RunStateReq (oc_session_id oi) r) (\<lambda>answer.
             Do (Prints (JObj [(''stale'', JBool (answer = Some (RRunState True)))])) bow_out) else failed
       | None \<Rightarrow> failed)
     | OcForkCompleted \<Rightarrow> Open OpenOrSpawn (\<lambda>ok. case (oc_fork oi, oc_run_ref oi) of
         (Some fork, Some r) \<Rightarrow> if ok then Ask (ForkCompleted (oc_session_id oi) fork r
             (case oc_status oi of Some s \<Rightarrow> s | None \<Rightarrow> ''completed'') (oc_cont oi)) (\<lambda>_. bow_out) else failed
       | _ \<Rightarrow> failed))"

definition oc_run_hook :: "hook_host \<Rightarrow> (wake_fork \<Rightarrow> json) \<Rightarrow> path \<Rightarrow> oc_hook_kind \<Rightarrow> oc_input option \<Rightarrow> talk" where
  "oc_run_hook hh fork_json specs_path kind input = (if inside_fork (wd_fs (hh_world hh)) then oc_failed kind
     else case input of None \<Rightarrow> oc_failed kind | Some oi \<Rightarrow> oc_hook hh fork_json specs_path kind oi)"

end
