(* ===== verification/Runner_Laws.thy ===== *)
theory Runner_Laws
  imports Runner Poll_Laws
begin

text \<open>
  What a headless run of Claude Code guarantees: which candidate answers, that a report goes exactly one
  way, which rules and which sandbox a guarded run is started with.
\<close>

section \<open>Candidates\<close>

definition first_completed :: "(nat \<Rightarrow> str \<times> str) \<Rightarrow> nat \<Rightarrow> nat \<Rightarrow> bool" where
  "first_completed res n k \<longleftrightarrow> k < n \<and> (\<forall>j<k. fst (res j) \<noteq> ''completed'') \<and> (fst (res k) \<noteq> ''completed'' \<longrightarrow> Suc k = n)"

lemma try_models_first:
  assumes "ms \<noteq> []"
  obtains k where "first_completed (\<lambda>j. snd (attempt (i + j) (ms ! j))) (length ms) k"
    and "try_models attempt i ms = (map (\<lambda>j. fst (attempt (i + j) (ms ! j))) [0..<Suc k], snd (attempt (i + k) (ms ! k)))"
proof -
  have "\<exists>k. first_completed (\<lambda>j. snd (attempt (i + j) (ms ! j))) (length ms) k
      \<and> try_models attempt i ms = (map (\<lambda>j. fst (attempt (i + j) (ms ! j))) [0..<Suc k], snd (attempt (i + k) (ms ! k)))"
    using assms
  proof (induction ms arbitrary: i)
    case (Cons m ms)
    obtain ln status report where a: "attempt i m = (ln, status, report)" by (cases "attempt i m")
    show ?case
    proof (cases "status = ''completed'' \<or> ms = []")
      case True
      then show ?thesis by (intro exI[of _ 0]) (auto simp: first_completed_def a)
    next
      case False
      then obtain k where k: "first_completed (\<lambda>j. snd (attempt (Suc i + j) (ms ! j))) (length ms) k"
        "try_models attempt (Suc i) ms = (map (\<lambda>j. fst (attempt (Suc i + j) (ms ! j))) [0..<Suc k], snd (attempt (Suc i + k) (ms ! k)))"
        using Cons.IH[of "Suc i"] by auto
      have "first_completed (\<lambda>j. snd (attempt (i + j) ((m # ms) ! j))) (length (m # ms)) (Suc k)"
        using k(1) False by (auto simp: first_completed_def a less_Suc_eq_0_disj)
      moreover have "try_models attempt i (m # ms) = (map (\<lambda>j. fst (attempt (i + j) ((m # ms) ! j))) [0..<Suc (Suc k)],
          snd (attempt (i + Suc k) ((m # ms) ! Suc k)))"
        using False k(2) by (simp add: a map_upt_Suc del: upt_Suc)
      ultimately show ?thesis by blast
    qed
  qed simp
  then show ?thesis using that by blast
qed

text \<open>The candidates of a run are tried in the order the fork names them, each with the same prompt and
  on the same conversation, up to the first whose run completes; the run's status and report are those of
  the last attempt made, so it fails only if every candidate failed.\<close>

theorem first_model_wins:
  fixes rh :: run_host and rw :: run_world and spec :: wake_fork and sid :: str and target :: str and cwd :: path and piped :: str
  defines "ms \<equiv> model_candidates spec"
    and "ln \<equiv> \<lambda>m. attempt_launch rh sid (attempt_target rh rw sid target cwd spec) cwd spec (wf_prompt spec @ piped) m"
  defines "res \<equiv> \<lambda>j. attempt_result rh (rw_child rw j (ln (ms ! j)))"
  shows "\<exists>k. first_completed res (length ms) k
    \<and> claude_attempts rh rw sid target cwd spec piped = (map (\<lambda>j. ln (ms ! j)) [0..<Suc k], res k)"
proof -
  have ne: "ms \<noteq> []" by (simp add: ms_def model_candidates_def split: option.split)
  define attempt where "attempt = (\<lambda>i model. (ln model, attempt_result rh (rw_child rw i (ln model))))"
  obtain k where k: "first_completed (\<lambda>j. snd (attempt (0 + j) (ms ! j))) (length ms) k"
    "try_models attempt 0 ms = (map (\<lambda>j. fst (attempt (0 + j) (ms ! j))) [0..<Suc k], snd (attempt (0 + k) (ms ! k)))"
    using try_models_first[OF ne] by blast
  have parts: "snd (attempt (0 + j) (ms ! j)) = res j" "fst (attempt (0 + j) (ms ! j)) = ln (ms ! j)" for j
    by (simp_all only: attempt_def res_def fst_conv snd_conv add_0)
  have "claude_attempts rh rw sid target cwd spec piped = try_models attempt 0 ms"
    by (simp only: claude_attempts_def Let_def attempt_def ln_def ms_def)
  then show ?thesis using k by (intro exI[of _ k]) (simp only: parts simp_thms)
qed

section \<open>Deny rules\<close>

lemma set_push_all: "set (foldl push_new acc xs) = set acc \<union> set xs"
  by (induction xs arbitrary: acc) auto

lemma set_deny_rules: "set (guard_deny_rules g) =
    (if g_network g then {} else {''WebFetch'', ''WebSearch''})
    \<union> (case g_tools g of None \<Rightarrow> {} | Some allowed \<Rightarrow> set (family_denies allowed))
    \<union> (\<Union>p\<in>set (g_deny g). set (guard_bash_deny_rules p))"
  by (auto simp: guard_deny_rules_def set_push_all split: option.split)

lemma all_families_all [simp]: "f \<in> set all_families"
  by (cases f) (simp_all add: all_families_def)

lemma bash_rules_cases:
  "guard_bash_deny_rules p = (let prefix = join_with '' '' (fst (split_star (split_whitespace p)))
     in if prefix = [] then [''Bash''] else (if snd (split_star (split_whitespace p)) then [] else [''Bash('' @ prefix @ '')''])
         @ [''Bash('' @ prefix @ '':*)''])"
  by (simp add: guard_bash_deny_rules_def Let_def split_beta)

lemma bash_rule_prefix: "r \<in> set (guard_bash_deny_rules p) \<Longrightarrow> starts_with r ''Bash''"
proof -
  have "starts_with (''Bash('' @ x) ''Bash''" for x by simp
  moreover assume "r \<in> set (guard_bash_deny_rules p)"
  ultimately show ?thesis by (auto simp: bash_rules_cases Let_def split: if_splits)
qed

lemma bash_rule_whole: "''Bash'' \<in> set (guard_bash_deny_rules p) \<longleftrightarrow> join_with '' '' (fst (split_star (split_whitespace p))) = []"
  by (auto simp: bash_rules_cases Let_def)

lemma family_tool_inj: "t \<in> set (family_tools f) \<Longrightarrow> t \<in> set (family_tools f') \<Longrightarrow> f = f'"
  by (cases f; cases f') auto

lemma family_tool_not_unfamilied: "t \<in> set (family_tools f) \<Longrightarrow> t \<notin> set UNFAMILIED_TOOLS"
  by (cases f) (auto simp: UNFAMILIED_TOOLS_def)

lemma in_family_denies:
  assumes "t \<in> set (family_tools f)"
  shows "t \<in> set (family_denies allowed) \<longleftrightarrow> f \<notin> set allowed"
proof
  assume f: "f \<notin> set allowed"
  then have "t \<in> set (if f \<in> set allowed then [] else family_tools f)" using assms by simp
  then have "t \<in> set (concat (map (\<lambda>f. if f \<in> set allowed then [] else family_tools f) all_families))"
    unfolding set_concat set_map using all_families_all by blast
  then show "t \<in> set (family_denies allowed)" by (simp add: family_denies_def)
next
  assume t: "t \<in> set (family_denies allowed)"
  show "f \<notin> set allowed"
  proof
    assume f: "f \<in> set allowed"
    then have "allowed \<noteq> []" by auto
    with t obtain f' where "f' \<notin> set allowed" "t \<in> set (family_tools f')"
      by (auto simp: family_denies_def split: if_splits)
    then show False using family_tool_inj[OF assms] f by blast
  qed
qed

text \<open>A guarded run refuses a tool by name exactly if the guard leaves its family out, or it is a web
  tool and the guard grants no network, or it is Bash and a deny pattern is a bare star or empty.\<close>

theorem deny_rules_exact:
  assumes "t \<in> set (family_tools f)"
  shows "t \<in> set (guard_deny_rules g) \<longleftrightarrow>
    \<not> allows_family g f \<or> (f = TWeb \<and> \<not> g_network g)
    \<or> (f = TShell \<and> (\<exists>p\<in>set (g_deny g). join_with '' '' (fst (split_star (split_whitespace p))) = []))"
proof -
  have web: "t \<in> {''WebFetch'', ''WebSearch''} \<longleftrightarrow> f = TWeb" using assms by (cases f) auto
  have mcp: "f \<noteq> TMcp" using assms by auto
  have fam: "(case g_tools g of None \<Rightarrow> False | Some allowed \<Rightarrow> t \<in> set (family_denies allowed)) \<longleftrightarrow> \<not> allows_family g f"
    using mcp by (cases "g_tools g") (simp_all add: in_family_denies[OF assms] allows_family_def)
  have bash: "t \<in> set (guard_bash_deny_rules p) \<longleftrightarrow> f = TShell \<and> join_with '' '' (fst (split_star (split_whitespace p))) = []" for p
  proof (cases "f = TShell")
    case True
    then show ?thesis using assms bash_rule_whole by simp
  next
    case False
    then have "\<not> starts_with t ''Bash''" using assms by (cases f) auto
    with False show ?thesis using bash_rule_prefix by blast
  qed
  have "t \<in> set (guard_deny_rules g) \<longleftrightarrow> (\<not> g_network g \<and> t \<in> {''WebFetch'', ''WebSearch''})
      \<or> (case g_tools g of None \<Rightarrow> False | Some allowed \<Rightarrow> t \<in> set (family_denies allowed))
      \<or> (\<exists>p\<in>set (g_deny g). t \<in> set (guard_bash_deny_rules p))"
    unfolding set_deny_rules by (cases "g_network g"; cases "g_tools g") simp_all
  then show ?thesis unfolding web fam bash by blast
qed

theorem deny_rules_exact_witness:
  "''Task'' \<in> set (guard_deny_rules (guard_default\<lparr>g_tools := Some [TRead, TWeb]\<rparr>))"
  using deny_rules_exact[of "''Task''" TTask "guard_default\<lparr>g_tools := Some [TRead, TWeb]\<rparr>"]
  by (simp add: allows_family_def guard_default_def)

text \<open>Every command line that begins with the words of a deny pattern, spelled with single spaces, is
  refused by a rule of the run - given that a rule \<open>Bash(p:*)\<close> matches whatever begins with \<open>p\<close>, and the bare
  \<open>Bash\<close> everything. Where the pattern ends in a star the last word may go on.\<close>

theorem deny_patterns_covered:
  assumes "\<And>c. matches ''Bash'' c"
    and "\<And>p rest. matches (''Bash('' @ p @ '':*)'') (p @ rest)"
    and "pattern \<in> set (g_deny g)"
  shows "\<exists>rule\<in>set (guard_deny_rules g). matches rule (join_with '' '' (fst (split_star (split_whitespace pattern))) @ rest)"
proof -
  let ?p = "join_with '' '' (fst (split_star (split_whitespace pattern)))"
  have sub: "set (guard_bash_deny_rules pattern) \<subseteq> set (guard_deny_rules g)" using assms(3) by (auto simp: set_deny_rules)
  show ?thesis
  proof (cases "?p = []")
    case True
    then have "''Bash'' \<in> set (guard_deny_rules g)" using sub by (auto simp: bash_rules_cases)
    then show ?thesis using assms(1) by blast
  next
    case False
    then have "''Bash('' @ ?p @ '':*)'' \<in> set (guard_deny_rules g)" using sub by (auto simp: bash_rules_cases Let_def)
    then show ?thesis using assms(2) by blast
  qed
qed

section \<open>The sandbox of a guarded run\<close>

lemma components_trailing: "q \<noteq> [] \<Longrightarrow> components (q @ replicate n slash) = components q"
proof (induction n)
  case (Suc n)
  have one: "split_on slash (r @ [slash]) = split_on slash r @ [[]]" for r
    by (induction r) (auto split: list.split)
  have "components (r @ [slash]) = components r" if "r \<noteq> []" for r
  proof -
    have "hd (split_on slash r @ [[]]) = hd (split_on slash r)" "tl (split_on slash r @ [[]]) = tl (split_on slash r) @ [[]]"
      by (simp_all add: hd_append)
    moreover have "is_abs (r @ [slash]) = is_abs r" using that by (cases r) (simp_all add: is_abs_def)
    ultimately show ?thesis by (simp only: components_def Let_def one map_append concat_append list.map concat.simps append_Nil2)
        (simp add: comp_of_def)
  qed
  moreover have "q @ replicate (Suc n) slash = (q @ replicate n slash) @ [slash]" by (simp add: replicate_append_same)
  ultimately show ?case using Suc by (metis append_is_Nil_conv)
qed simp

lemma components_trim: "\<not> set p \<subseteq> {slash} \<Longrightarrow> components (trim_end_char slash p) = components p"
proof -
  assume p: "\<not> set p \<subseteq> {slash}"
  have t: "takeWhile (\<lambda>c. c = slash) (rev p) = replicate n slash \<Longrightarrow> p = trim_end_char slash p @ replicate n slash" for n
    unfolding trim_end_char_def using arg_cong[OF takeWhile_dropWhile_id[of "\<lambda>c. c = slash" "rev p"], of rev] by simp
  have "\<exists>n. takeWhile (\<lambda>c. c = slash) (rev p) = replicate n slash"
    by (rule exI, rule replicate_eqI[OF refl]) (blast dest: set_takeWhileD)
  then obtain n where n: "p = trim_end_char slash p @ replicate n slash" using t by blast
  moreover have "trim_end_char slash p \<noteq> []"
    using p by (auto simp: trim_end_char_def dropWhile_eq_Nil_conv)
  ultimately show ?thesis using components_trailing by metis
qed

definition j_strs :: "json option \<Rightarrow> str list" where
  "j_strs v = (case Option.bind v j_arr of Some xs \<Rightarrow> List.map_filter j_str xs | None \<Rightarrow> [])"

lemma j_strs_jstrs [simp]: "j_strs (Some (jstrs xs)) = xs"
proof -
  have "List.map_filter j_str (map JStr xs) = xs" by (induction xs) (simp_all add: map_filter_simps)
  then show ?thesis by (simp add: j_strs_def jstrs_def)
qed

lemma starts_with_comparable: "starts_with p a \<Longrightarrow> starts_with p b \<Longrightarrow> starts_with a b \<or> starts_with b a"
  unfolding starts_with_iff by (metis append_eq_append_conv2)

text \<open>C35. What a guarded run can write through its sandbox, where that lets a path be written exactly if it
  is below an allowed path or the working directory and not below a denied one: the guard's write set and
  nothing else, unless the write set and the working directory overlap. Then the whole working directory
  stays writable, also where the guard would refuse it.\<close>

theorem sandbox_writable_exact:
  fixes g :: guard and cwd :: path
  defines "allow \<equiv> j_strs (j_get (guard_filesystem g cwd) ''allowWrite'')"
    and "deny \<equiv> j_strs (j_get (guard_filesystem g cwd) ''denyWrite'')"
  assumes sandbox: "\<And>p. may_write p \<longleftrightarrow> (\<exists>a\<in>insert cwd (set allow). path_starts_with p a) \<and> \<not> (\<exists>a\<in>set deny. path_starts_with p a)"
    and roots: "\<And>w. w \<in> set (g_write g) \<Longrightarrow> \<not> set w \<subseteq> {slash}"
  shows "may_write p \<longleftrightarrow> (\<exists>w\<in>set (g_write g). path_starts_with p w)
    \<or> (\<not> guard_denies_cwd g cwd \<and> path_starts_with p cwd)"
proof -
  have allow: "(\<exists>a\<in>set allow. path_starts_with p a) \<longleftrightarrow> (\<exists>w\<in>set (g_write g). path_starts_with p w)" for p
    using roots by (auto simp: allow_def guard_filesystem_def path_starts_with_def components_trim)
  have deny: "set deny = (if guard_denies_cwd g cwd then {cwd} else {})"
    by (simp add: deny_def guard_filesystem_def) (simp add: j_strs_def)
  have apart: "\<not> path_starts_with p cwd" if "guard_denies_cwd g cwd" "w \<in> set (g_write g)" "path_starts_with p w" for p w
    using that starts_with_comparable unfolding guard_denies_cwd_def list_ex_iff path_starts_with_def by blast
  show ?thesis unfolding sandbox using allow apart deny by auto
qed

text \<open>A fork that may write \<open>/p/docs\<close>, run in \<open>/p\<close>, can write the whole project through the sandbox.\<close>

definition open_sandbox :: "str list \<Rightarrow> str list \<Rightarrow> path \<Rightarrow> path \<Rightarrow> bool" where
  "open_sandbox allow deny cwd p \<longleftrightarrow> list_ex (path_starts_with p) (cwd # allow) \<and> \<not> list_ex (path_starts_with p) deny"

theorem sandbox_writable_exact_witness:
  fixes g :: guard
  defines "g \<equiv> guard_default\<lparr>g_write := [''/p/docs'']\<rparr>"
  shows "open_sandbox (j_strs (j_get (guard_filesystem g ''/p'') ''allowWrite'')) (j_strs (j_get (guard_filesystem g ''/p'') ''denyWrite'')) ''/p'' ''/p/src/x''"
proof -
  have "\<not> guard_denies_cwd g ''/p'' \<and> path_starts_with ''/p/src/x'' ''/p''" unfolding g_def by code_simp
  moreover have "open_sandbox (j_strs (j_get (guard_filesystem g ''/p'') ''allowWrite'')) (j_strs (j_get (guard_filesystem g ''/p'') ''denyWrite'')) ''/p'' p
      \<longleftrightarrow> (\<exists>w\<in>set (g_write g). path_starts_with p w) \<or> (\<not> guard_denies_cwd g ''/p'' \<and> path_starts_with p ''/p'')" for p
    by (rule sandbox_writable_exact) (auto simp: open_sandbox_def list_ex_iff g_def slash_def)
  ultimately show ?thesis by blast
qed

section \<open>Where the report of a run goes\<close>

text \<open>The frames of a run reach the daemon in order, each in a world of its own.\<close>

definition serve :: "(world \<times> request) list \<Rightarrow> daemon \<Rightarrow> daemon" where
  "serve served d = fold (\<lambda>(w, r) d. fst (dispatch w r d)) served d"

lemma serve_simps [simp]: "serve [] d = d" "serve ((w, r) # rest) d = serve rest (fst (dispatch w r d))"
  by (simp_all add: serve_def)

definition spool_of :: "daemon \<Rightarrow> spool_rec list \<times> int" where
  "spool_of d = (report_spool (dm_store d), next_report (dm_store d))"

definition held_reports :: "str \<Rightarrow> daemon \<Rightarrow> str list" where
  "held_reports key d = spool_texts key (report_spool (dm_store d))"

lemma spool_small [simp]:
  "spool_of (touch_busy w d) = spool_of d" "spool_of (cancel_wait sid d) = spool_of d" "spool_of (nudge sid d) = spool_of d"
  "spool_of (note_chain_continued w sid d) = spool_of d"
  by (simp_all add: spool_of_def touch_busy_def cancel_wait_def nudge_def note_chain_continued_def split: option.split)

lemma spool_rearm: "spool_of (fst (try_rearm w se name def d)) = spool_of d"
  by (simp add: try_rearm_def spool_of_def rearm_idle_latch_def Let_def split: option.split prod.split)

lemma spool_terminal: "spool_of (on_fork_terminal w sid name status cont stale d) = spool_of d"
proof -
  have "spool_of (with_store (\<lambda>s. clear_pause_baseline (clear_active_gate s sid) sid) d) = spool_of d" for d
    by (simp add: spool_of_def with_store_def clear_pause_baseline_def clear_active_gate_def upd_session_def)
  moreover have "spool_of (fst (if c then try_rearm w se name def (if n then note_chain_continued w sid d else d) else (d, False))) = spool_of d" for c n se def
    by (simp add: spool_rearm)
  ultimately show ?thesis
    by (simp add: on_fork_terminal_def on_stale_fork_terminal_def on_own_fork_terminal_def Let_def split_beta split: option.split)
qed

definition spool_frame :: "request \<Rightarrow> bool" where
  "spool_frame r = (case r of SpoolReportReq _ _ _ \<Rightarrow> True | _ \<Rightarrow> False)"

definition run_frame :: "request \<Rightarrow> bool" where
  "run_frame r = (case r of ForkSpawned _ _ _ \<Rightarrow> True | RunStateReq _ _ \<Rightarrow> True | ForkCompleted _ _ _ _ _ \<Rightarrow> True | _ \<Rightarrow> False)"

lemma frame_kinds [simp]:
  "run_frame (ForkSpawned sid fork run_ref)" "run_frame (RunStateReq sid run_ref)"
  "run_frame (ForkCompleted sid fork run_ref status cont)" "\<not> run_frame (SpoolReportReq key fork txt)"
  by (simp_all add: run_frame_def)

lemma spool_run_frame: "run_frame r \<Longrightarrow> spool_of (fst (dispatch w r d)) = spool_of d"
proof (cases r)
  case (ForkSpawned sid fork run_ref)
  have "spool_of (with_store (\<lambda>s. record_spawn s a b c t) d) = spool_of d" for a b c t d
    by (simp add: spool_of_def with_store_def record_spawn_def)
  then show ?thesis by (simp add: ForkSpawned acked_def handle_fork_spawned_def)
next
  case (ForkCompleted sid fork run_ref status cont)
  have put: "spool_of (dd\<lparr>dm_store := s\<rparr>) = spool_of dd"
    if "report_spool s = report_spool (dm_store dd)" "next_report s = next_report (dm_store dd)" for dd :: daemon and s
    using that by (simp add: spool_of_def)
  show ?thesis
    by (simp add: ForkCompleted acked_def handle_fork_completed_def Let_def split_beta spool_terminal put mark_spawn_terminal_def)
next
  case (RunStateReq sid run_ref)
  then show ?thesis by (simp add: handle_run_state_def)
qed (simp_all add: run_frame_def)

text \<open>The ids of the spool ascend, so what is spooled later is held later.\<close>

definition spool_fine :: "daemon \<Rightarrow> bool" where
  "spool_fine d \<longleftrightarrow> ids_ok (map sl_id (fst (spool_of d))) (snd (spool_of d))"

lemma serve_run_frames: "list_all (\<lambda>(w, r). run_frame r) served \<Longrightarrow> spool_of (serve served d) = spool_of d"
  by (induction served arbitrary: d) (auto simp: spool_run_frame)

lemma held_spooled:
  assumes "spool_fine d"
  shows "held_reports key (fst (dispatch w (SpoolReportReq key' fork txt) d)) = held_reports key d @ (if key' = key then [txt] else [])"
proof -
  define rows where "rows = report_spool (dm_store d)"
  have ids: "ids_ok (map sl_id rows) (next_report (dm_store d))" using assms by (simp add: spool_fine_def spool_of_def rows_def)
  define row where "row = \<lparr>sl_id = next_report (dm_store d), sl_session = key', sl_name = fork, sl_text = txt, sl_created_at = wd_now w\<rparr>"
  have "spool_of (touch_busy w (touch_busy w d)) = spool_of d" by simp
  then have "report_spool (dm_store (fst (dispatch w (SpoolReportReq key' fork txt) d))) = rows @ [row]"
    by (simp add: acked_def handle_spool_report_def with_store_def spool_of_def spool_report_def rows_def row_def)
  moreover have "ids_ok (map sl_id (rows @ [row])) (next_report (dm_store d) + 1)" using ids_ok_snoc[OF ids] by (simp add: row_def)
  ultimately show ?thesis
    using spool_texts_sorted[OF ids, of key] spool_texts_sorted[of "rows @ [row]" _ key]
    by (auto simp: held_reports_def rows_def[symmetric] row_def)
qed

lemma serve_append: "serve (xs @ ys) d = serve ys (serve xs d)"
  by (simp add: serve_def)

lemma held_of_spool: "spool_of d = spool_of d' \<Longrightarrow> held_reports key d = held_reports key d'"
  by (simp add: spool_of_def held_reports_def)

lemma serve_with_spool:
  assumes "spool_fine d" "list_all run_frame before" "list_all run_frame after"
    and "map snd served = before @ (if spools then [SpoolReportReq key' fork txt] else []) @ after"
  shows "held_reports key (serve served d) = held_reports key d @ (if spools \<and> key' = key then [txt] else [])"
proof -
  obtain xs ys zs where s: "served = xs @ ys @ zs" "map snd xs = before" "map snd ys = (if spools then [SpoolReportReq key' fork txt] else [])" "map snd zs = after"
    using assms(4) by (auto simp: map_eq_append_conv append_eq_map_conv)
  have quiet: "list_all (\<lambda>(w, r). run_frame r) us" if "list_all run_frame (map snd us)" for us :: "(world \<times> request) list"
    using that by (auto simp: list_all_iff)
  have x: "spool_of (serve xs d) = spool_of d" and z: "spool_of (serve zs d') = spool_of d'" for d'
    using serve_run_frames quiet assms(2,3) s(2,4) by auto
  have "held_reports key (serve ys (serve xs d)) = held_reports key (serve xs d) @ (if spools \<and> key' = key then [txt] else [])"
  proof (cases spools)
    case True
    then obtain w where "ys = [(w, SpoolReportReq key' fork txt)]" using s(3) by auto
    moreover have "spool_fine (serve xs d)" using assms(1) x by (simp add: spool_fine_def)
    ultimately show ?thesis using held_spooled True by simp
  qed (use s(3) in simp)
  then show ?thesis using held_of_spool[OF x] held_of_spool[OF z] by (simp add: s(1) serve_append)
qed

text \<open>C15. A report is delivered exactly once. What the daemon holds for the conversation after it served the
  frames of a run, followed by the block the parked hook wakes the session with, is what it held before,
  followed by this run's report; only a chain run that ended after its pause leaves nothing. A block wakes
  the session only for a chain that completed, asks to go on and is not stale.\<close>

theorem report_delivered_once:
  fixes d :: daemon
  assumes "store_ok (dm_store d)" and "run_one rh rw sid target cwd spec piped can_wake = (frames, res)"
    and "map snd served = frames"
    and "claude_attempts rh rw sid target cwd spec piped = (lns, status, raw)"
  shows "held_reports target (serve served d) @ (case rr_wake_block res of Some b \<Rightarrow> [b] | None \<Rightarrow> [])
      = held_reports target d @ (if rr_stale res \<and> wf_chain spec then []
         else [report_block (wf_name spec) (wf_trigger spec) status (report_body status
           (if status = ''completed'' \<and> wf_chain spec \<and> wants_continue (trim raw) then strip_continue (trim raw) else trim raw))])
    \<and> (rr_wake_block res \<noteq> None \<longleftrightarrow> can_wake \<and> \<not> rr_stale res \<and> status = ''completed'' \<and> wf_chain spec \<and> wants_continue (trim raw))
    \<and> (rr_stale res \<longleftrightarrow> can_wake \<and> rw_state rw = Some (RRunState True))"
proof -
  let ?ref = "''hl:'' @ rw_uuid rw"
  let ?next = "status = ''completed'' \<and> wf_chain spec \<and> wants_continue (trim raw)"
  let ?block = "report_block (wf_name spec) (wf_trigger spec) status (report_body status (if ?next then strip_continue (trim raw) else trim raw))"
  let ?spool = "if rr_wake_block res = None \<and> \<not> (rr_stale res \<and> wf_chain spec) then [SpoolReportReq target (wf_name spec) ?block] else []"
  have frames: "frames = ForkSpawned sid (wf_name spec) ?ref # (if can_wake then [RunStateReq sid ?ref] else []) @ ?spool
      @ [ForkCompleted sid (wf_name spec) ?ref status (if ?next then Some True else None)]"
    and stale: "rr_stale res \<longleftrightarrow> can_wake \<and> rw_state rw = Some (RRunState True)"
    and woken: "rr_wake_block res = (if ?next \<and> can_wake \<and> \<not> (rr_stale res \<and> wf_chain spec) then Some ?block else None)"
    using assms(2,4) by (auto simp: run_one_def finish_run_def Let_def run_is_stale_def)
  have fine: "spool_fine d" using assms(1) by (simp add: spool_fine_def store_ok_def spool_of_def)
  have "held_reports target (serve served d) = held_reports target d
      @ (if (rr_wake_block res = None \<and> \<not> (rr_stale res \<and> wf_chain spec)) \<and> target = target then [?block] else [])"
    by (rule serve_with_spool[OF fine, where before = "ForkSpawned sid (wf_name spec) ?ref # (if can_wake then [RunStateReq sid ?ref] else [])"
          and after = "[ForkCompleted sid (wf_name spec) ?ref status (if ?next then Some True else None)]" and fork = "wf_name spec"])
      (simp_all add: assms(3) frames)
  then have held: "held_reports target (serve served d) = held_reports target d
      @ (if rr_wake_block res = None \<and> \<not> (rr_stale res \<and> wf_chain spec) then [?block] else [])" by simp
  have open_or: "rr_wake_block res = Some ?block \<and> \<not> (rr_stale res \<and> wf_chain spec) \<or> rr_wake_block res = None" unfolding woken by auto
  show ?thesis
  proof (intro conjI)
    show "held_reports target (serve served d) @ (case rr_wake_block res of Some b \<Rightarrow> [b] | None \<Rightarrow> [])
        = held_reports target d @ (if rr_stale res \<and> wf_chain spec then [] else [?block])"
      using held open_or by (elim disjE conjE) simp_all
    show "rr_wake_block res \<noteq> None \<longleftrightarrow> can_wake \<and> \<not> rr_stale res \<and> ?next" unfolding woken by auto
  qed (rule stale)
qed

text \<open>A run that does not start leaves its failure in the spool.\<close>

definition no_claude :: run_host where
  "no_claude = \<lparr>rh_fs = wd_fs (bare_world 9), rh_harness_bin = None, rh_exe = None, rh_read_dir = (\<lambda>_. []), rh_render = (\<lambda>_. []), rh_parse = (\<lambda>_. None)\<rparr>"

definition dead_world :: run_world where
  "dead_world = \<lparr>rw_uuid = ''1'', rw_clear = (\<lambda>_. NoSpawn), rw_child = (\<lambda>_ _. NoSpawn), rw_state = None\<rparr>"

definition plain_fork :: wake_fork where
  "plain_fork = \<lparr>wf_name = ''f'', wf_path = ''/f.md'', wf_trigger = ''idle:0s'', wf_overlap = False, wf_after = [], wf_chain = True,
     wf_model = Some ''m'', wf_model_fallbacks = [''n''], wf_mode = None, wf_guard = None, wf_prompt = ''p''\<rparr>"

theorem report_delivered_once_witness:
  "held_reports ''c'' (serve (map (Pair (bare_world 9)) (fst (run_one no_claude dead_world ''s'' ''c'' ''/p'' plain_fork [] True))) bare_daemon)
    = held_reports ''c'' bare_daemon @ [report_block ''f'' ''idle:0s'' ''failed'' ''(the fork run failed)'']"
proof -
  obtain frames res where r: "run_one no_claude dead_world ''s'' ''c'' ''/p'' plain_fork [] True = (frames, res)" by force
  obtain lns where a: "claude_attempts no_claude dead_world ''s'' ''c'' ''/p'' plain_fork [] = (lns, ''failed'', [])"
    by (simp add: claude_attempts_def model_candidates_def plain_fork_def dead_world_def attempt_result_def Let_def)
  have wf: "wf_name plain_fork = ''f''" "wake_fork.wf_trigger plain_fork = ''idle:0s''" by (simp_all add: plain_fork_def)
  have st: "rw_state dead_world = None" and t: "trim [] = []" by (simp_all add: dead_world_def trim_def trim_end_def trim_start_def)
  have "map snd (map (Pair (bare_world 9)) frames) = frames" by (simp add: comp_def)
  from report_delivered_once[OF bare_daemon_ok r this a] show ?thesis
    unfolding r fst_conv by (simp add: wf st t report_body_def failed_body_def split: option.splits)
qed

end
