(* ===== verification/Codex_Waiter.thy ===== *)
theory Codex_Waiter
  imports Client_Hooks Runner_Laws
begin

text \<open>
  \<open>autofork/src/codex.rs\<close>, the waiter: the tail it keeps on the rollout of its session, one turn of its loop,
  and the step relation of a waiter with the polls it has parked and the runs it has started. A turn sees
  the rollout as it is, and at most one answer of a poll.
\<close>

section \<open>The rollout\<close>

record rollout_state =
  rl_busy :: bool
  rl_context_tokens :: "nat option"
  rl_context_window :: "nat option"
  rl_model :: "str option"

record rollout_tail =
  rt_offset :: nat
  rt_partial :: str

definition rollout_tail_new :: rollout_tail where
  "rollout_tail_new = \<lparr>rt_offset = 0, rt_partial = []\<rparr>"

text \<open>Indexing a JSON value for reading: null where there is nothing.\<close>

definition j_at :: "json \<Rightarrow> str \<Rightarrow> json" where
  "j_at v k = (case j_get v k of Some x \<Rightarrow> x | None \<Rightarrow> JNull)"

definition note_window :: "json \<Rightarrow> rollout_state \<Rightarrow> rollout_state" where
  "note_window v st = (case j_u64 (j_at v ''model_context_window'') of Some w \<Rightarrow> st\<lparr>rl_context_window := Some w\<rparr> | None \<Rightarrow> st)"

definition apply_event_msg :: "json \<Rightarrow> rollout_state \<Rightarrow> rollout_state \<times> bool" where
  "apply_event_msg payload st = (case j_str (j_at payload ''type'') of
     None \<Rightarrow> (st, False)
   | Some kind \<Rightarrow>
       if kind \<in> {''task_started'', ''turn_started''} then (note_window payload (st\<lparr>rl_busy := True\<rparr>), True)
       else if kind \<in> {''task_complete'', ''turn_complete'', ''turn_aborted''} then (st\<lparr>rl_busy := False\<rparr>, True)
       else if kind = ''token_count'' then
         (let info = j_at payload ''info''; used = j_at info ''last_token_usage'';
              output = (case j_u64 (j_at used ''output_tokens'') of Some n \<Rightarrow> n | None \<Rightarrow> 0);
              st1 = (case j_u64 (j_at used ''input_tokens'') of
                  Some i \<Rightarrow> st\<lparr>rl_context_tokens := Some (wrap_u64 (i + output))\<rparr> | None \<Rightarrow> st)
          in (note_window info st1, True))
       else (st, False))"

definition apply_rollout_line :: "(str \<Rightarrow> json option) \<Rightarrow> str \<Rightarrow> rollout_state \<Rightarrow> rollout_state \<times> bool" where
  "apply_rollout_line parse line st = (case parse line of None \<Rightarrow> (st, False)
   | Some v \<Rightarrow> (case j_str (j_at v ''type'') of
       None \<Rightarrow> (st, False)
     | Some kind \<Rightarrow>
         if kind = ''event_msg'' then apply_event_msg (j_at v ''payload'') st
         else if kind = ''turn_context'' then
           (case j_str (j_at (j_at v ''payload'') ''model'') of Some m \<Rightarrow> (st\<lparr>rl_model := Some m\<rparr>, True) | None \<Rightarrow> (st, True))
         else (st, False)))"

definition fold_line :: "(str \<Rightarrow> json option) \<Rightarrow> str \<Rightarrow> rollout_state \<times> bool \<Rightarrow> rollout_state \<times> bool" where
  "fold_line parse line acc = (case apply_rollout_line parse line (fst acc) of (st, applied) \<Rightarrow> (st, snd acc \<or> applied))"

text \<open>\<open>RolloutTail::poll\<close>; \<open>None\<close> for a file that cannot be opened or read.\<close>

definition tail_poll :: "(str \<Rightarrow> json option) \<Rightarrow> str option \<Rightarrow> rollout_tail \<Rightarrow> rollout_state \<Rightarrow> rollout_tail \<times> rollout_state \<times> bool" where
  "tail_poll parse file rt st = (case file of None \<Rightarrow> (rt, st, False)
   | Some content \<Rightarrow>
      (let rt1 = (if length content < rt_offset rt then rollout_tail_new else rt)
       in if length content = rt_offset rt1 then (rt1, st, False)
          else (let pieces = split_on nl (rt_partial rt1 @ drop (rt_offset rt1) content);
                    (st1, applied) = fold (fold_line parse) (butlast pieces) (st, False)
                in (\<lparr>rt_offset = length content, rt_partial = last pieces\<rparr>, st1, applied))))"

section \<open>One turn\<close>

record waiter_args =
  wa_session :: str
  wa_codex_pid :: nat
  wa_cwd :: path
  wa_model :: "str option"
  wa_permission_mode :: "str option"

record waiter =
  wv_tail :: rollout_tail
  wv_state :: rollout_state
  wv_generation :: nat
  wv_parked :: "bool option"
  wv_backoff :: nat
  wv_shared :: waiter_shared

definition waiter_new :: "(str \<Rightarrow> json option) \<Rightarrow> str option \<Rightarrow> waiter_args \<Rightarrow> waiter" where
  "waiter_new parse file wa =
     (let (rt, st, _) = tail_poll parse file rollout_tail_new
        \<lparr>rl_busy = False, rl_context_tokens = None, rl_context_window = None, rl_model = wa_model wa\<rparr>
      in \<lparr>wv_tail = rt, wv_state = st, wv_generation = 0, wv_parked = None, wv_backoff = 1,
          wv_shared = \<lparr>ws_live_by_fork = Map.empty, ws_reports = Map.empty\<rparr>\<rparr>)"

text \<open>What a turn meets: whether codex lives, whether the session ended, the rollout, an answer, and whether
  the poll it answers was parked for more than five seconds.\<close>

record turn_world =
  tw_alive :: bool
  tw_tombstone :: bool
  tw_rollout :: "str option"
  tw_answer :: "(nat \<times> response option) option"
  tw_long_park :: bool

definition waiter_event :: "hook_host \<Rightarrow> waiter_args \<Rightarrow> rollout_state \<Rightarrow> bool \<Rightarrow> event" where
  "waiter_event hh wa st busy = (client_event (wd_fs (hh_world hh)) (wa_session wa) (wa_cwd wa)
       (project_root (wd_fs (hh_world hh)) (wa_cwd wa)) EvStop)
     \<lparr>ev_model := rl_model st, ev_context_tokens := rl_context_tokens st, ev_context_window := rl_context_window st,
      ev_client := Some ''codex'', ev_busy := (if busy then Some True else None), ev_harness := of_pid hh (wa_codex_pid wa)\<rparr>"

text \<open>The forks of a wake that pass the gate on overlap.\<close>

fun admit_forks :: "wake_fork list \<Rightarrow> waiter_shared \<Rightarrow> waiter_shared \<times> wake_fork list" where
  "admit_forks [] ws = (ws, [])"
| "admit_forks (spec # specs) ws = (case enter_fork spec ws of
     None \<Rightarrow> admit_forks specs ws
   | Some ws1 \<Rightarrow> (case admit_forks specs ws1 of (ws2, started) \<Rightarrow> (ws2, spec # started)))"

definition MAX_BACKOFF :: nat where
  "MAX_BACKOFF = 60"

definition next_backoff :: "bool \<Rightarrow> nat \<Rightarrow> nat" where
  "next_backoff reset backoff = (if reset then 1 else min (backoff * 2) MAX_BACKOFF)"

text \<open>The poll that is parked where the mode has changed or none is.\<close>

definition park_turn :: "waiter \<Rightarrow> waiter \<times> nat list" where
  "park_turn wv = (if wv_parked wv \<noteq> Some (rl_busy (wv_state wv))
     then (wv\<lparr>wv_generation := wv_generation wv + 1, wv_parked := Some (rl_busy (wv_state wv))\<rparr>, [wv_generation wv + 1])
     else (wv, []))"

definition answer_turn :: "bool \<Rightarrow> (nat \<times> response option) option \<Rightarrow> waiter \<Rightarrow> waiter \<times> wake_fork list" where
  "answer_turn long_park answer wv = (case answer of
     None \<Rightarrow> (wv, [])
   | Some (g, res) \<Rightarrow> if g \<noteq> wv_generation wv then (wv, [])
       else (let forks = (case res of Some (RWake _ (Some forks) _) \<Rightarrow> forks | _ \<Rightarrow> []);
                 woke = (case res of Some (RWake _ _ _) \<Rightarrow> True | _ \<Rightarrow> False);
                 (ws, started) = admit_forks forks (wv_shared wv)
             in (wv\<lparr>wv_shared := ws, wv_backoff := next_backoff (woke \<or> long_park) (wv_backoff wv), wv_parked := None\<rparr>, started)))"

text \<open>A turn: \<open>None\<close> if the waiter leaves, else the waiter, the poll it parked and the runs it started.\<close>

definition waiter_turn :: "(str \<Rightarrow> json option) \<Rightarrow> turn_world \<Rightarrow> waiter \<Rightarrow> (waiter \<times> nat list \<times> wake_fork list) option" where
  "waiter_turn parse tw wv0 = (if \<not> tw_alive tw \<or> tw_tombstone tw then None
     else (let (rt, st, _) = tail_poll parse (tw_rollout tw) (wv_tail wv0) (wv_state wv0);
               (wv1, polls) = park_turn (wv0\<lparr>wv_tail := rt, wv_state := st\<rparr>);
               (wv2, started) = answer_turn (tw_long_park tw) (tw_answer tw) wv1
           in Some (wv2, polls, started)))"

section \<open>A waiter with its polls and runs\<close>

record waiting =
  wg_waiter :: waiter
  wg_polls :: "nat list"
  wg_runs :: "wake_fork list"

text \<open>A poll answers once; a run ends, with or without a report to keep, at any time.\<close>

inductive waiter_step :: "waiting \<Rightarrow> waiting \<Rightarrow> bool" where
  turned: "waiter_turn parse tw wv = Some (wv1, begun, started)
    \<Longrightarrow> (case tw_answer tw of None \<Rightarrow> rest = polls @ begun | Some (g, _) \<Rightarrow> g \<in> set (polls @ begun) \<and> rest = remove1 g (polls @ begun))
    \<Longrightarrow> waiter_step \<lparr>wg_waiter = wv, wg_polls = polls, wg_runs = live\<rparr> \<lparr>wg_waiter = wv1, wg_polls = rest, wg_runs = live @ started\<rparr>"
| ended: "spec \<in> set live
    \<Longrightarrow> waiter_step \<lparr>wg_waiter = wv, wg_polls = polls, wg_runs = live\<rparr>
          \<lparr>wg_waiter = wv\<lparr>wv_shared := leave_fork (wf_name spec) (keep_report (wf_name spec) report (wv_shared wv))\<rparr>,
           wg_polls = polls, wg_runs = remove1 spec live\<rparr>"

definition waiting_new :: "(str \<Rightarrow> json option) \<Rightarrow> str option \<Rightarrow> waiter_args \<Rightarrow> waiting" where
  "waiting_new parse file wa = \<lparr>wg_waiter = waiter_new parse file wa, wg_polls = [], wg_runs = []\<rparr>"

section \<open>The tail is exact\<close>

text \<open>What the lines of a rollout say, read at once.\<close>

definition rollout_of :: "(str \<Rightarrow> json option) \<Rightarrow> str \<Rightarrow> rollout_state \<Rightarrow> rollout_state" where
  "rollout_of parse content st = fold (\<lambda>line st. fst (apply_rollout_line parse line st)) (butlast (split_on nl content)) st"

definition tail_at :: "str \<Rightarrow> rollout_tail \<Rightarrow> bool" where
  "tail_at content rt \<longleftrightarrow> rt_offset rt = length content \<and> rt_partial rt = last (split_on nl content)"

lemma fold_line_state: "fst (fold (fold_line parse) ls acc) = fold (\<lambda>line st. fst (apply_rollout_line parse line st)) ls (fst acc)"
  by (induction ls arbitrary: acc) (simp_all add: fold_line_def split_beta)

lemma split_on_snoc_append: "split_on c (a @ b) = butlast (split_on c a) @ split_on c (last (split_on c a) @ b)"
proof (induction a)
  case (Cons x a)
  then show ?case by (cases "split_on c a") (auto split: list.splits)
qed simp

lemma tail_new_at [simp]: "tail_at [] rollout_tail_new"
  by (simp add: tail_at_def rollout_tail_new_def)

lemma rollout_of_append:
  "rollout_of parse (a @ b) st = fold (\<lambda>line st. fst (apply_rollout_line parse line st))
     (butlast (split_on nl (last (split_on nl a) @ b))) (rollout_of parse a st)"
  by (simp add: rollout_of_def split_on_snoc_append[of nl a b] butlast_append)

lemma tail_poll_more:
  assumes "tail_at old rt"
  shows "\<exists>rt1 applied. tail_poll parse (Some (old @ new)) rt (rollout_of parse old st) = (rt1, rollout_of parse (old @ new) st, applied)
    \<and> tail_at (old @ new) rt1"
proof (cases "new = []")
  case True
  then show ?thesis using assms by (intro exI[of _ rt] exI[of _ False]) (simp add: tail_poll_def tail_at_def Let_def)
next
  case False
  let ?pieces = "split_on nl (last (split_on nl old) @ new)"
  have "last (split_on nl (old @ new)) = last ?pieces" by (simp add: split_on_snoc_append[of nl old new])
  moreover have "fst (fold (fold_line parse) (butlast ?pieces) (rollout_of parse old st, False)) = rollout_of parse (old @ new) st"
    by (simp add: fold_line_state rollout_of_append)
  ultimately show ?thesis using assms False
    by (cases "fold (fold_line parse) (butlast ?pieces) (rollout_of parse old st, False)")
      (simp add: tail_poll_def tail_at_def Let_def)
qed

text \<open>The polls of a file that grows chunk by chunk.\<close>

fun poll_chunks :: "(str \<Rightarrow> json option) \<Rightarrow> str list \<Rightarrow> str \<Rightarrow> rollout_tail \<Rightarrow> rollout_state \<Rightarrow> rollout_tail \<times> rollout_state" where
  "poll_chunks parse [] content rt st = (rt, st)"
| "poll_chunks parse (c # cs) content rt st = (case tail_poll parse (Some (content @ c)) rt st of
     (rt1, st1, _) \<Rightarrow> poll_chunks parse cs (content @ c) rt1 st1)"

lemma poll_chunks_exact: "tail_at content rt \<Longrightarrow>
    snd (poll_chunks parse chunks content rt (rollout_of parse content st)) = rollout_of parse (content @ concat chunks) st
    \<and> tail_at (content @ concat chunks) (fst (poll_chunks parse chunks content rt (rollout_of parse content st)))"
proof (induction chunks arbitrary: content rt)
  case (Cons c cs)
  obtain rt1 applied where p: "tail_poll parse (Some (content @ c)) rt (rollout_of parse content st) = (rt1, rollout_of parse (content @ c) st, applied)"
    "tail_at (content @ c) rt1" using tail_poll_more[OF Cons.prems] by blast
  then show ?case using Cons.IH[OF p(2)] by simp
qed simp

text \<open>C32. However a rollout grows between the polls of the waiter - lines torn anywhere, several at once - the
  state it knows after the last poll is that of reading the complete lines of the whole file at once; a
  line is applied once, a torn one when it is complete. A rollout that became shorter is read again from
  its start.\<close>

theorem rollout_tail_exact:
  "snd (poll_chunks parse chunks [] rollout_tail_new st) = rollout_of parse (concat chunks) st
   \<and> (tail_at old rt \<longrightarrow> length content < length old \<longrightarrow>
        (\<exists>rt1 applied. tail_poll parse (Some content) rt st = (rt1, rollout_of parse content st, applied) \<and> tail_at content rt1))"
proof (intro conjI impI)
  show "snd (poll_chunks parse chunks [] rollout_tail_new st) = rollout_of parse (concat chunks) st"
    using poll_chunks_exact[OF tail_new_at, of parse chunks st] by (simp add: rollout_of_def)
  assume "tail_at old rt" "length content < length old"
  then have "tail_poll parse (Some content) rt st = tail_poll parse (Some ([] @ content)) rollout_tail_new (rollout_of parse [] st)"
    by (simp add: tail_poll_def tail_at_def rollout_of_def rollout_tail_new_def)
  then show "\<exists>rt1 applied. tail_poll parse (Some content) rt st = (rt1, rollout_of parse content st, applied) \<and> tail_at content rt1"
    using tail_poll_more[OF tail_new_at, of parse content st] by simp
qed

theorem rollout_tail_exact_witness:
  "\<exists>rt1 applied. tail_poll (\<lambda>_. None) (Some ''{'') \<lparr>rt_offset = 2, rt_partial = ''{}''\<rparr> \<lparr>rl_busy = False, rl_context_tokens = None, rl_context_window = None, rl_model = None\<rparr> = (rt1, rollout_of (\<lambda>_. None) ''{'' \<lparr>rl_busy = False, rl_context_tokens = None, rl_context_window = None, rl_model = None\<rparr>, applied)"
proof -
  have "tail_at ''{}'' \<lparr>rt_offset = 2, rt_partial = ''{}''\<rparr>" by (simp add: tail_at_def nl_def)
  then show ?thesis using rollout_tail_exact[of "\<lambda>_. None" "[]" "\<lparr>rl_busy = False, rl_context_tokens = None, rl_context_window = None, rl_model = None\<rparr>" "''{}''" "\<lparr>rt_offset = 2, rt_partial = ''{}''\<rparr>" "''{''"] by auto
qed

section \<open>The waiter is never without a poll\<close>

definition runs_of :: "str \<Rightarrow> wake_fork list \<Rightarrow> nat" where
  "runs_of name live = length (filter (\<lambda>spec. wf_name spec = name) live)"

definition waiter_ok :: "waiting \<Rightarrow> bool" where
  "waiter_ok g \<longleftrightarrow> distinct (wg_polls g) \<and> (\<forall>p\<in>set (wg_polls g). p \<le> wv_generation (wg_waiter g))
     \<and> (wv_parked (wg_waiter g) \<noteq> None \<longleftrightarrow> wv_generation (wg_waiter g) \<in> set (wg_polls g))
     \<and> 1 \<le> wv_backoff (wg_waiter g) \<and> wv_backoff (wg_waiter g) \<le> MAX_BACKOFF
     \<and> (\<forall>name. live_runs (wv_shared (wg_waiter g)) name = runs_of name (wg_runs g))
     \<and> sorted_wrt (\<lambda>a b. wf_name a = wf_name b \<longrightarrow> wf_overlap b) (wg_runs g)"

lemma runs_of_simps [simp]: "runs_of name [] = 0" "runs_of name (xs @ ys) = runs_of name xs + runs_of name ys"
  "runs_of name (x # xs) = (if wf_name x = name then 1 else 0) + runs_of name xs"
  by (simp_all add: runs_of_def)

lemma runs_of_none: "runs_of name live = 0 \<Longrightarrow> spec \<in> set live \<Longrightarrow> wf_name spec \<noteq> name"
  by (induction live) (auto split: if_splits)

lemma runs_of_remove: "spec \<in> set live \<Longrightarrow> runs_of name (remove1 spec live) = runs_of name live - (if wf_name spec = name then 1 else 0)"
proof (induction live)
  case (Cons a live)
  then show ?case using runs_of_none[of "wf_name spec" live spec]
    by (cases "spec = a"; cases "runs_of (wf_name spec) live") auto
qed simp

lemma sorted_wrt_remove1: "sorted_wrt R xs \<Longrightarrow> sorted_wrt R (remove1 x xs)"
  by (induction xs) (auto dest: notin_set_remove1)

abbreviation apart :: "wake_fork \<Rightarrow> wake_fork \<Rightarrow> bool" where
  "apart \<equiv> \<lambda>a b. wf_name a = wf_name b \<longrightarrow> wf_overlap b"

lemma enter_live: "enter_fork spec ws = Some ws1 \<Longrightarrow> live_runs ws1 name = live_runs ws name + (if wf_name spec = name then 1 else 0)
    \<and> (\<not> wf_overlap spec \<longrightarrow> live_runs ws (wf_name spec) = 0)"
  by (auto simp: enter_fork_def live_runs_def split: if_splits option.splits)

lemma admit_ok:
  "admit_forks specs ws = (ws1, started) \<Longrightarrow> (\<And>name. live_runs ws name = runs_of name live) \<Longrightarrow> sorted_wrt apart live \<Longrightarrow>
    (\<forall>name. live_runs ws1 name = runs_of name (live @ started)) \<and> sorted_wrt apart (live @ started)"
proof (induction specs arbitrary: ws live started)
  case (Cons spec specs)
  show ?case
  proof (cases "enter_fork spec ws")
    case None
    then show ?thesis using Cons by simp
  next
    case (Some ws2)
    obtain later where l: "admit_forks specs ws2 = (ws1, later)" "started = spec # later"
      using Cons.prems(1) Some by (auto split: prod.splits)
    have live: "live_runs ws2 name = runs_of name (live @ [spec])" for name using enter_live[OF Some, of name] Cons.prems(2) by simp
    have "wf_name a \<noteq> wf_name spec \<or> wf_overlap spec" if "a \<in> set live" for a
      using enter_live[OF Some, of "wf_name spec"] Cons.prems(2)[of "wf_name spec"] runs_of_none[of "wf_name spec" live a] that by auto
    then have "sorted_wrt apart (live @ [spec])" using Cons.prems(3) by (auto simp: sorted_wrt_append)
    with Cons.IH[OF l(1) live] l(2) show ?thesis by simp
  qed
qed simp

lemma leave_live: "live_runs (leave_fork n ws) name = live_runs ws name - (if name = n then 1 else 0)"
  by (auto simp: leave_fork_def live_runs_def split: option.split)

lemma keep_live [simp]: "live_runs (keep_report n report ws) name = live_runs ws name"
  by (simp add: keep_report_def live_runs_def split: option.split)

lemma park_ok: "park_turn wv = (wv1, begun) \<Longrightarrow> wv_parked wv1 \<noteq> None \<and> wv_backoff wv1 = wv_backoff wv \<and> wv_shared wv1 = wv_shared wv
    \<and> (begun = [] \<and> wv_generation wv1 = wv_generation wv \<and> wv_parked wv \<noteq> None
       \<or> begun = [wv_generation wv + 1] \<and> wv_generation wv1 = wv_generation wv + 1)"
  by (auto simp: park_turn_def split: if_splits)

lemma backoff_ok: "1 \<le> b \<Longrightarrow> 1 \<le> next_backoff r b \<and> next_backoff r b \<le> MAX_BACKOFF"
  by (auto simp: next_backoff_def MAX_BACKOFF_def)

text \<open>The part of the invariant that speaks of the polls, of the pace and of the runs.\<close>

lemma answer_ok:
  assumes "answer_turn long answer wv = (wv1, started)" "waiter_ok \<lparr>wg_waiter = wv, wg_polls = polls, wg_runs = live\<rparr>" "wv_parked wv \<noteq> None"
    "case answer of None \<Rightarrow> rest = polls | Some (g, _) \<Rightarrow> g \<in> set polls \<and> rest = remove1 g polls"
  shows "waiter_ok \<lparr>wg_waiter = wv1, wg_polls = rest, wg_runs = live @ started\<rparr>"
proof (cases answer)
  case None
  then show ?thesis using assms by (simp add: answer_turn_def)
next
  case (Some a)
  obtain g res where a: "answer = Some (g, res)" using Some by (cases a) simp
  have rest: "g \<in> set polls" "rest = remove1 g polls" using assms(4) by (simp_all add: a)
  show ?thesis
  proof (cases "g = wv_generation wv")
    case False
    then have "wv1 = wv" "started = []" using assms(1) by (simp_all add: answer_turn_def a)
    then show ?thesis using assms(2,3) rest False by (auto simp: waiter_ok_def in_set_remove1 dest: notin_set_remove1)
  next
    case True
    define forks where "forks = (case res of Some (RWake _ (Some forks) _) \<Rightarrow> forks | _ \<Rightarrow> [])"
    define woke where "woke = (case res of Some (RWake _ _ _) \<Rightarrow> True | _ \<Rightarrow> False)"
    obtain ws where w: "admit_forks forks (wv_shared wv) = (ws, started)"
      "wv1 = wv\<lparr>wv_shared := ws, wv_backoff := next_backoff (woke \<or> long) (wv_backoff wv), wv_parked := None\<rparr>"
      using assms(1) True unfolding answer_turn_def a Let_def by (simp flip: forks_def woke_def split: prod.splits)
    have "\<And>name. live_runs (wv_shared wv) name = runs_of name live" "sorted_wrt apart live" using assms(2) by (simp_all add: waiter_ok_def)
    from admit_ok[OF w(1) this] have "(\<forall>name. live_runs ws name = runs_of name (live @ started)) \<and> sorted_wrt apart (live @ started)" .
    moreover have "1 \<le> next_backoff (woke \<or> long) (wv_backoff wv) \<and> next_backoff (woke \<or> long) (wv_backoff wv) \<le> MAX_BACKOFF"
      using assms(2) by (intro backoff_ok) (simp add: waiter_ok_def)
    ultimately show ?thesis using assms(2) rest True
      unfolding waiter_ok_def w(2) by (auto simp: dest: notin_set_remove1)
  qed
qed

lemma park_turn_ok:
  assumes "park_turn wv = (wv1, begun)" "waiter_ok \<lparr>wg_waiter = wv, wg_polls = polls, wg_runs = live\<rparr>"
  shows "waiter_ok \<lparr>wg_waiter = wv1, wg_polls = polls @ begun, wg_runs = live\<rparr>"
  using park_ok[OF assms(1)] assms(2) unfolding waiter_ok_def by fastforce

lemma waiter_step_ok: "waiter_step g g1 \<Longrightarrow> waiter_ok g \<Longrightarrow> waiter_ok g1"
proof (induction rule: waiter_step.induct)
  case (turned parse tw wv wv1 begun started rest polls live)
  obtain rt st applied where t: "tail_poll parse (tw_rollout tw) (wv_tail wv) (wv_state wv) = (rt, st, applied)" by (metis prod_cases3)
  obtain wv2 begun2 where pk: "park_turn (wv\<lparr>wv_tail := rt, wv_state := st\<rparr>) = (wv2, begun2)" by force
  have an: "answer_turn (tw_long_park tw) (tw_answer tw) wv2 = (wv1, started)" "begun = begun2"
    using turned(1) by (auto simp: waiter_turn_def t pk split: if_splits prod.splits)
  have ok: "waiter_ok \<lparr>wg_waiter = wv\<lparr>wv_tail := rt, wv_state := st\<rparr>, wg_polls = polls, wg_runs = live\<rparr>"
    using turned.prems by (simp add: waiter_ok_def)
  show ?case
    by (rule answer_ok[OF an(1) park_turn_ok[OF pk ok]]) (use park_ok[OF pk] turned(2) an(2) in auto)
next
  case (ended spec live wv report polls)
  then show ?case
    by (auto simp: waiter_ok_def leave_live runs_of_remove sorted_wrt_remove1)
qed

lemma waiter_new_ok: "waiter_ok (waiting_new parse file wa)"
  by (simp add: waiting_new_def waiter_new_def waiter_ok_def live_runs_def MAX_BACKOFF_def split: prod.split)

text \<open>C18. In every reachable state of a waiter: a poll is outstanding under the current generation exactly
  when the waiter counts one as parked, and no generation is used twice, so an answer is never taken for
  that of another mode; the pause before parking again stays between one second and \<open>MAX_BACKOFF\<close>; the
  count of each fork is the number of its live in flight, and a fork that does not overlap is never
  started while a run of its name is in flight.\<close>

theorem waiter_invariant: "waiter_step\<^sup>*\<^sup>* (waiting_new parse file wa) g \<Longrightarrow> waiter_ok g"
  by (induction rule: rtranclp_induct) (rule waiter_new_ok, erule waiter_step_ok)

theorem waiter_invariant_witness:
  "\<exists>g. waiter_step (waiting_new (\<lambda>_. None) None \<lparr>wa_session = ''s'', wa_codex_pid = 7, wa_cwd = ''/p'', wa_model = None, wa_permission_mode = None\<rparr>) g
     \<and> wg_polls g = [1] \<and> waiter_ok g"
proof -
  let ?start = "waiting_new (\<lambda>_. None) None \<lparr>wa_session = ''s'', wa_codex_pid = 7, wa_cwd = ''/p'', wa_model = None, wa_permission_mode = None\<rparr>"
  let ?tw = "\<lparr>tw_alive = True, tw_tombstone = False, tw_rollout = None, tw_answer = None, tw_long_park = False\<rparr>"
  let ?g = "\<lparr>wg_waiter = (wg_waiter ?start)\<lparr>wv_generation := 1, wv_parked := Some False\<rparr>, wg_polls = [] @ [1], wg_runs = [] @ []\<rparr>"
  have "waiter_turn (\<lambda>_. None) ?tw (wg_waiter ?start) = Some (wg_waiter ?g, [1], [])"
    by (simp add: waiter_turn_def waiting_new_def waiter_new_def tail_poll_def park_turn_def answer_turn_def rollout_tail_new_def)
  from waiter_step.turned[OF this, of "[] @ [1]" "[]" "[]"] have s: "waiter_step ?start ?g" by (simp add: waiting_new_def)
  from waiter_invariant[OF r_into_rtranclp[of waiter_step, OF s]] s show ?thesis by (intro exI[of _ ?g]) simp
qed

section \<open>A wake that comes late\<close>

text \<open>C38. An answer that was on its way when the session changed between busy and idle is dropped, forks and
  all: the turn that notices the change parks a poll of the next generation, and the wake the daemon gave
  to the poll before it starts no run. (The daemon has counted those forks as fired.)\<close>

theorem late_wake_lost:
  assumes "tw_alive tw" "\<not> tw_tombstone tw" "tail_poll parse (tw_rollout tw) (wv_tail wv) (wv_state wv) = (rt, st, applied)"
    "wv_parked wv \<noteq> Some (rl_busy st)" "tw_answer tw = Some (wv_generation wv, Some (RWake wake_prompt (Some forks) fed))"
  shows "\<exists>wv1. waiter_turn parse tw wv = Some (wv1, [wv_generation wv + 1], []) \<and> wv_shared wv1 = wv_shared wv
    \<and> wv_parked wv1 = Some (rl_busy st)"
  using assms by (simp add: waiter_turn_def park_turn_def answer_turn_def)

theorem late_wake_lost_witness:
  "let parse = (\<lambda>line. if line = ''b'' then Some (JObj [(''type'', JStr ''event_msg''), (''payload'', JObj [(''type'', JStr ''task_started'')])]) else None);
       wv = (waiter_new parse None \<lparr>wa_session = ''s'', wa_codex_pid = 7, wa_cwd = ''/p'', wa_model = None, wa_permission_mode = None\<rparr>)
         \<lparr>wv_generation := 1, wv_parked := Some False\<rparr>
   in \<exists>wv1. waiter_turn parse \<lparr>tw_alive = True, tw_tombstone = False, tw_rollout = Some (''b'' @ [nl]),
        tw_answer = Some (1, Some (RWake ''p'' (Some [plain_fork]) None)), tw_long_park = True\<rparr> wv = Some (wv1, [2], [])"
proof -
  let ?parse = "\<lambda>line. if line = ''b'' then Some (JObj [(''type'', JStr ''event_msg''), (''payload'', JObj [(''type'', JStr ''task_started'')])]) else None"
  let ?wv = "(waiter_new ?parse None \<lparr>wa_session = ''s'', wa_codex_pid = 7, wa_cwd = ''/p'', wa_model = None, wa_permission_mode = None\<rparr>)
         \<lparr>wv_generation := 1, wv_parked := Some False\<rparr>"
  let ?tw = "\<lparr>tw_alive = True, tw_tombstone = False, tw_rollout = Some (''b'' @ [nl]),
        tw_answer = Some (1, Some (RWake ''p'' (Some [plain_fork]) None)), tw_long_park = True\<rparr>"
  have "tail_poll ?parse (tw_rollout ?tw) (wv_tail ?wv) (wv_state ?wv)
      = (\<lparr>rt_offset = 2, rt_partial = []\<rparr>, \<lparr>rl_busy = True, rl_context_tokens = None, rl_context_window = None, rl_model = None\<rparr>, True)"
    by (simp add: waiter_new_def tail_poll_def rollout_tail_new_def fold_line_def apply_rollout_line_def apply_event_msg_def
      note_window_def j_at_def nl_def Let_def)
  from late_wake_lost[OF _ _ this, where forks = "[plain_fork]" and wake_prompt = "''p''" and fed = None]
  have "\<exists>wv1. waiter_turn ?parse ?tw ?wv = Some (wv1, [1 + 1], [])" by (auto simp: waiter_new_def split: prod.splits)
  then show ?thesis unfolding Let_def by (simp only: one_add_one)
qed

end
