(* ===== verification/Codex_Hooks.thy ===== *)
theory Codex_Hooks
  imports Codex_Run "HOL-Library.AList"
begin

text \<open>
  \<open>autofork/src/codex.rs\<close>, installing: the merge of our hooks into \<open>hooks.json\<close>, their removal, the requests to
  the transient app server, the trust of the hooks, and the lines of the doctor. A JSON object is its
  entries; a new entry is put last, where \<open>serde_json\<close> keeps the keys sorted. \<open>None\<close> is a panic.
\<close>

section \<open>The hooks file\<close>

definition HOOK_EVENTS :: "(str \<times> str) list" where
  "HOOK_EVENTS = [(''SessionStart'', ''session-start''), (''UserPromptSubmit'', ''prompt-submit''), (''Stop'', ''stop''),
     (''SessionEnd'', ''session-end'')]"

definition codex_hook_command :: "str option \<Rightarrow> str \<Rightarrow> str" where
  "codex_hook_command exe kind = (case exe of Some e \<Rightarrow> e | None \<Rightarrow> ''autofork'') @ '' codex hook '' @ kind"

definition is_ours :: "json \<Rightarrow> bool" where
  "is_ours handler \<longleftrightarrow> (case j_get_str handler ''command'' of Some c \<Rightarrow> str_contains c '' codex hook '' | None \<Rightarrow> False)"

text \<open>A group of handlers that is ours altogether.\<close>

definition ours_group :: "json \<Rightarrow> bool" where
  "ours_group g \<longleftrightarrow> (case Option.bind (j_get g ''hooks'') j_arr of Some hs \<Rightarrow> list_all is_ours hs \<and> hs \<noteq> [] | None \<Rightarrow> False)"

definition our_group :: "str option \<Rightarrow> str \<Rightarrow> json" where
  "our_group exe kind = JObj [(''hooks'', JArr [JObj [(''type'', JStr ''command''), (''command'', JStr (codex_hook_command exe kind))]])]"

fun j_entries :: "json \<Rightarrow> (str \<times> json) list" where
  "j_entries (JObj m) = m"
| "j_entries _ = []"

definition groups_at :: "(str \<times> json) list \<Rightarrow> str \<Rightarrow> json list" where
  "groups_at hooks event = (case map_of hooks event of Some (JArr gs) \<Rightarrow> gs | _ \<Rightarrow> [])"

definition merge_event :: "str option \<Rightarrow> str \<times> str \<Rightarrow> (str \<times> json) list \<Rightarrow> (str \<times> json) list" where
  "merge_event exe ev hooks = (case ev of (event, kind) \<Rightarrow>
     AList.update event (JArr (filter (\<lambda>g. \<not> ours_group g) (groups_at hooks event) @ [our_group exe kind])) hooks)"

definition hooks_entries :: "json \<Rightarrow> (str \<times> json) list" where
  "hooks_entries root = (case j_get root ''hooks'' of Some v \<Rightarrow> j_entries v | None \<Rightarrow> [])"

definition merge_hooks :: "str option \<Rightarrow> json \<Rightarrow> json" where
  "merge_hooks exe root =
     JObj (AList.update ''hooks'' (JObj (fold (merge_event exe) HOOK_EVENTS (hooks_entries root))) (j_entries root))"

definition unmerge_event :: "json \<Rightarrow> json" where
  "unmerge_event arr = (case arr of JArr gs \<Rightarrow> JArr (filter (\<lambda>g. \<not> ours_group g) gs) | _ \<Rightarrow> arr)"

definition unmerge_entries :: "(str \<times> json) list \<Rightarrow> (str \<times> json) list" where
  "unmerge_entries hooks = filter (\<lambda>(_, v). v \<noteq> JArr []) (map (\<lambda>(k, v). (k, unmerge_event v)) hooks)"

text \<open>Indexing a value that is neither an object nor null for writing panics; a missing key comes out null.\<close>

definition unmerge_hooks :: "json \<Rightarrow> json option" where
  "unmerge_hooks root = (case root of
     JObj m \<Rightarrow> Some (JObj (case map_of m ''hooks'' of
         Some (JObj hooks) \<Rightarrow> AList.update ''hooks'' (JObj (unmerge_entries hooks)) m
       | Some _ \<Rightarrow> m
       | None \<Rightarrow> AList.update ''hooks'' JNull m))
   | JNull \<Rightarrow> Some (JObj [(''hooks'', JNull)])
   | _ \<Rightarrow> None)"

section \<open>The app server\<close>

text \<open>The handlers the server lists for a hooks file, and the entries that trust them.\<close>

definition j_items :: "json option \<Rightarrow> json list" where
  "j_items v = (case Option.bind v j_arr of Some xs \<Rightarrow> xs | None \<Rightarrow> [])"

definition listed_ours :: "path \<Rightarrow> json \<Rightarrow> json list" where
  "listed_ours hooks_path listed =
     filter (\<lambda>h. path_eq (case j_get_str h ''sourcePath'' of Some s \<Rightarrow> s | None \<Rightarrow> []) hooks_path \<and> is_ours h)
       (concat (map (\<lambda>scope. j_items (j_get scope ''hooks'')) (j_items (j_get listed ''data''))))"

definition trust_entry :: "json \<Rightarrow> (str \<times> str) option" where
  "trust_entry h = (case (j_get_str h ''key'', j_get_str h ''currentHash'') of (Some key, Some hash) \<Rightarrow> Some (key, hash) | _ \<Rightarrow> None)"

definition trust_state :: "(str \<times> str) list \<Rightarrow> (str \<times> json) list" where
  "trust_state entries = fold (\<lambda>(key, hash) st. AList.update key
     (JObj [(''enabled'', JBool True), (''trusted_hash'', JStr hash)]) st) entries []"

definition trust_write :: "(str \<times> json) list \<Rightarrow> json" where
  "trust_write st = JObj [(''edits'', JArr [JObj [(''keyPath'', JStr ''hooks.state''), (''mergeStrategy'', JStr ''upsert''), (''value'', JObj st)]])]"

text \<open>\<open>server\<close> answers a request, or says why it cannot; starting it is its first answer. Theory \<open>App_Server\<close>
  has the lines that carry this.\<close>

definition initialize_params :: json where
  "initialize_params = JObj
     [(''clientInfo'', JObj [(''name'', JStr ''autofork''), (''title'', JStr ''autofork''), (''version'', JStr ''0.32.0'')]),
      (''capabilities'', JObj [(''experimentalApi'', JBool True)])]"

definition trust_our_hooks :: "(str \<Rightarrow> json \<Rightarrow> str + json) \<Rightarrow> path \<Rightarrow> str + nat" where
  "trust_our_hooks server hooks_path = (case server ''initialize'' initialize_params of Inl e \<Rightarrow> Inl e
   | Inr _ \<Rightarrow> (case server ''hooks/list'' (JObj []) of Inl e \<Rightarrow> Inl e
     | Inr listed \<Rightarrow>
        (let entries = List.map_filter trust_entry (listed_ours hooks_path listed)
         in if entries = [] then Inl ''codex reported none of our hooks (is `codex` current?)''
            else (case server ''config/batchWrite'' (trust_write (trust_state entries)) of
                Inl e \<Rightarrow> Inl e | Inr _ \<Rightarrow> Inr (length entries)))))"

definition trust_status :: "(str \<Rightarrow> json \<Rightarrow> str + json) \<Rightarrow> path \<Rightarrow> str + bool" where
  "trust_status server hooks_path = (case server ''initialize'' initialize_params of Inl e \<Rightarrow> Inl e
   | Inr _ \<Rightarrow> (case server ''hooks/list'' (JObj []) of Inl e \<Rightarrow> Inl e
     | Inr listed \<Rightarrow> (let ours = listed_ours hooks_path listed
         in Inr (list_all (\<lambda>h. j_get_str h ''trustStatus'' = Some ''trusted'') ours \<and> ours \<noteq> []))))"

section \<open>Install, uninstall, doctor\<close>

datatype hooks_file = Absent | Unreadable str | Holds str

datatype install_result = InstallError str | InstallPrinted str | Installed str nat

definition existing_hooks :: "(str \<Rightarrow> str + json) \<Rightarrow> path \<Rightarrow> hooks_file \<Rightarrow> str + json" where
  "existing_hooks parse p file = (case file of Absent \<Rightarrow> Inr (JObj [])
     | Unreadable e \<Rightarrow> Inl (''reading '' @ p @ '': '' @ e)
     | Holds s \<Rightarrow> (case parse s of Inl e \<Rightarrow> Inl (''existing '' @ p @ '' is not valid JSON: '' @ e) | Inr v \<Rightarrow> Inr v))"

text \<open>The text written, beside the result; \<open>write_err\<close> says why the file could not be made or written.\<close>

definition install :: "(str \<Rightarrow> str + json) \<Rightarrow> (json \<Rightarrow> str) \<Rightarrow> (str \<Rightarrow> json \<Rightarrow> str + json) \<Rightarrow> fsys \<Rightarrow> str option \<Rightarrow> hooks_file
    \<Rightarrow> str option \<Rightarrow> bool \<Rightarrow> str option \<times> install_result" where
  "install parse pretty server fs exe file write_err print = (case codex_home fs of
     None \<Rightarrow> (None, InstallError ''cannot determine codex home'')
   | Some home \<Rightarrow> (let p = path_join home ''hooks.json'' in case existing_hooks parse p file of
       Inl e \<Rightarrow> (None, InstallError e)
     | Inr root \<Rightarrow> (let rendered = pretty (merge_hooks exe root)
         in if print then (None, InstallPrinted rendered)
            else (case write_err of Some e \<Rightarrow> (None, InstallError e)
              | None \<Rightarrow> (Some rendered, (case trust_our_hooks server p of Inr n \<Rightarrow> Installed p n
                  | Inl e \<Rightarrow> InstallError (''hooks written but NOT trusted ('' @ e @ '') '' @ em_dash
                      @ '' codex silently skips untrusted hooks; re-run `autofork codex install` or trust them in codex via /hooks'')))))))"

definition uninstall :: "(str \<Rightarrow> str + json) \<Rightarrow> (json \<Rightarrow> str) \<Rightarrow> fsys \<Rightarrow> hooks_file \<Rightarrow> str option
    \<Rightarrow> (str option \<times> str option) option" where
  "uninstall parse pretty fs file write_err = (case codex_home fs of
     None \<Rightarrow> Some (None, Some ''cannot determine codex home'')
   | Some home \<Rightarrow> if file = Absent then Some (None, None)
       else (case existing_hooks parse (path_join home ''hooks.json'') file of
           Inl e \<Rightarrow> Some (None, Some e)
         | Inr root \<Rightarrow> map_option (\<lambda>v. case write_err of Some e \<Rightarrow> (None, Some e) | None \<Rightarrow> (Some (pretty v), None)) (unmerge_hooks root)))"

text \<open>The commands of ours that a hooks file holds.\<close>

definition our_commands :: "json \<Rightarrow> str list" where
  "our_commands root = map (\<lambda>h. case j_get_str h ''command'' of Some c \<Rightarrow> c | None \<Rightarrow> [])
     (filter is_ours (concat (map (\<lambda>g. j_items (j_get g ''hooks'')) (concat (map (\<lambda>(_, arr). j_items (Some arr)) (hooks_entries root))))))"

definition doctor_lines :: "(str \<Rightarrow> str + json) \<Rightarrow> (str \<Rightarrow> json \<Rightarrow> str + json) \<Rightarrow> fsys \<Rightarrow> str option \<Rightarrow> hooks_file \<Rightarrow> str option \<Rightarrow> str list" where
  "doctor_lines parse server fs exe file codex_version = (case codex_home fs of None \<Rightarrow> []
   | Some home \<Rightarrow>
      (let p = path_join home ''hooks.json'';
           ours = (case file of Holds s \<Rightarrow> (case parse s of Inr root \<Rightarrow> our_commands root | Inl _ \<Rightarrow> []) | _ \<Rightarrow> []);
           run = '' '' @ em_dash @ '' run `autofork codex install` to ''
       in if ours = [] then (if codex_version = None then []
            else [''codex detected but the autofork hooks are not installed'' @ run @ ''enable forks in codex sessions''])
          else if length ours < length HOOK_EVENTS
          then [''codex hooks partially installed ('' @ show_nat (length ours) @ '' of '' @ show_nat (length HOOK_EVENTS) @ '')'' @ run @ ''repair'']
          else if (case exe of Some e \<Rightarrow> \<not> list_all (\<lambda>c. starts_with c e) ours | None \<Rightarrow> False)
          then [''codex hooks point at a different autofork binary'' @ run @ ''repoint and re-trust them'']
          else if codex_version = None then [''codex hooks are installed but `codex` was not found on PATH'']
          else (case trust_status server p of
              Inr True \<Rightarrow> [''codex hooks installed ('' @ p @ '')'']
            | Inr False \<Rightarrow> [''codex hooks are installed but not trusted'' @ run @ ''re-trust them'']
            | Inl e \<Rightarrow> [''codex hooks installed but trust could not be verified ('' @ e @ '')''])))"

section \<open>Laws\<close>

lemma our_group_ours [simp]: "ours_group (our_group exe kind)"
proof -
  have "str_contains (x @ '' codex hook '' @ kind) '' codex hook ''" for x
    by (induction x) simp_all
  then show ?thesis by (simp add: ours_group_def our_group_def is_ours_def codex_hook_command_def j_get_str_def)
qed

definition foreign :: "json list \<Rightarrow> json list" where
  "foreign gs = filter (\<lambda>g. \<not> ours_group g) gs"

lemma foreign_simps [simp]: "foreign (foreign gs) = foreign gs" "foreign (gs @ [our_group exe kind]) = foreign gs"
  by (simp_all add: foreign_def)

lemma merge_event_at: "map_of (merge_event exe (event, kind) hooks) e =
    (if e = event then Some (JArr (foreign (groups_at hooks e) @ [our_group exe kind])) else map_of hooks e)"
  by (simp add: merge_event_def update_conv' foreign_def)

lemma merge_fold_at:
  assumes "distinct (map fst evs)"
  shows "map_of (fold (merge_event exe) evs hooks) e = (case map_of evs e of
      Some kind \<Rightarrow> Some (JArr (foreign (groups_at hooks e) @ [our_group exe kind])) | None \<Rightarrow> map_of hooks e)"
  using assms
proof (induction evs arbitrary: hooks)
  case (Cons p evs)
  obtain event kind where p: "p = (event, kind)" by force
  have "groups_at (merge_event exe p hooks) e = groups_at hooks e" if "e \<noteq> event"
    using that by (simp add: groups_at_def p merge_event_at)
  moreover have "map_of evs event = None" using Cons.prems by (simp add: p map_of_eq_None_iff)
  ultimately show ?case using Cons by (auto simp: p merge_event_at split: option.splits)
qed simp

lemma merge_fold_again:
  assumes "\<And>event kind. (event, kind) \<in> set evs \<Longrightarrow> map_of hooks event = Some (JArr (foreign (gs event) @ [our_group exe kind]))"
  shows "fold (merge_event exe) evs hooks = hooks"
  using assms
proof (induction evs)
  case (Cons p evs)
  obtain event kind where p: "p = (event, kind)" by force
  have at: "map_of hooks event = Some (JArr (foreign (gs event) @ [our_group exe kind]))" using Cons.prems p by simp
  then have "merge_event exe p hooks = hooks"
    by (simp add: p merge_event_def groups_at_def foreign_def[symmetric] update_triv)
  then show ?case using Cons by simp
qed simp

definition groups_of :: "json \<Rightarrow> str \<Rightarrow> json list" where
  "groups_of root event = groups_at (hooks_entries root) event"

lemma j_get_merged: "j_get (merge_hooks exe root) k =
    (if k = ''hooks'' then Some (JObj (fold (merge_event exe) HOOK_EVENTS (hooks_entries root))) else j_get root k)"
  by (cases root) (simp_all add: merge_hooks_def update_conv')

lemma merged_entries: "hooks_entries (merge_hooks exe root) = fold (merge_event exe) HOOK_EVENTS (hooks_entries root)"
  by (simp add: hooks_entries_def[of "merge_hooks exe root"] j_get_merged)

lemma events_distinct: "distinct (map fst HOOK_EVENTS)"
  by (simp add: HOOK_EVENTS_def)

lemma unmerge_at:
  assumes "distinct (map fst hooks)"
  shows "groups_at (unmerge_entries hooks) e = foreign (groups_at hooks e)"
  using assms
proof (induction hooks)
  case (Cons p hooks)
  obtain k v where p: "p = (k, v)" by force
  have "map_of (unmerge_entries hooks) k = None" if "k \<notin> fst ` set hooks"
    using that by (force simp: unmerge_entries_def map_of_eq_None_iff)
  then show ?case using Cons
    by (cases v) (auto simp: p groups_at_def unmerge_entries_def unmerge_event_def foreign_def)
qed (simp add: groups_at_def unmerge_entries_def foreign_def)

lemma distinct_merge_fold: "distinct (map fst hooks) \<Longrightarrow> distinct (map fst (fold (merge_event exe) evs hooks))"
  by (induction evs arbitrary: hooks) (auto simp: merge_event_def distinct_update split: prod.split)

lemma install_groups:
  fixes exe :: "str option" and root :: json
  assumes "distinct (map fst (hooks_entries root))"
  defines "merged \<equiv> merge_hooks exe root"
  shows "(k \<noteq> ''hooks'' \<longrightarrow> j_get merged k = j_get root k)
    \<and> groups_of merged event = (case map_of HOOK_EVENTS event of
         Some kind \<Rightarrow> foreign (groups_of root event) @ [our_group exe kind] | None \<Rightarrow> groups_of root event)
    \<and> merge_hooks exe merged = merged
    \<and> (\<exists>r. unmerge_hooks merged = Some r \<and> groups_of r event = foreign (groups_of root event))"
proof (intro conjI)
  let ?hooks = "fold (merge_event exe) HOOK_EVENTS (hooks_entries root)"
  have groups: "groups_of merged event = (case map_of HOOK_EVENTS event of
         Some kind \<Rightarrow> foreign (groups_of root event) @ [our_group exe kind] | None \<Rightarrow> groups_of root event)" for event
    by (simp add: groups_of_def merged_def merged_entries groups_at_def[of ?hooks] merge_fold_at[OF events_distinct] split: option.split)
      (simp add: groups_at_def)
  then show "groups_of merged event = (case map_of HOOK_EVENTS event of
         Some kind \<Rightarrow> foreign (groups_of root event) @ [our_group exe kind] | None \<Rightarrow> groups_of root event)" .
  show "k \<noteq> ''hooks'' \<longrightarrow> j_get merged k = j_get root k" by (simp add: merged_def j_get_merged)
  have "map_of ?hooks e = Some (JArr (foreign (groups_at (hooks_entries root) e) @ [our_group exe kind]))"
    if "(e, kind) \<in> set HOOK_EVENTS" for e kind
    using that events_distinct by (simp add: merge_fold_at[OF events_distinct])
  then have "fold (merge_event exe) HOOK_EVENTS ?hooks = ?hooks" by (rule merge_fold_again)
  moreover have "map_of (j_entries merged) ''hooks'' = Some (JObj ?hooks)" by (simp add: merged_def merge_hooks_def update_conv')
  ultimately show "merge_hooks exe merged = merged"
    by (simp add: merge_hooks_def[of exe merged] merged_entries[of exe root, folded merged_def] update_triv)
      (simp add: merged_def merge_hooks_def)
  obtain m where m: "merged = JObj m" "map_of m ''hooks'' = Some (JObj ?hooks)" by (simp add: merged_def merge_hooks_def update_conv')
  have "groups_of (JObj (AList.update ''hooks'' (JObj (unmerge_entries ?hooks)) m)) event = groups_at (unmerge_entries ?hooks) event"
    by (simp add: groups_of_def hooks_entries_def update_conv')
  also have "\<dots> = foreign (groups_at ?hooks event)" using assms(1) by (simp add: unmerge_at distinct_merge_fold)
  also have "\<dots> = foreign (groups_of merged event)" by (simp add: groups_of_def merged_def merged_entries)
  also have "\<dots> = foreign (groups_of root event)" by (simp add: groups split: option.split)
  finally show "\<exists>r. unmerge_hooks merged = Some r \<and> groups_of r event = foreign (groups_of root event)"
    by (simp add: m unmerge_hooks_def)
qed

text \<open>A handler that runs autofork, a group that holds such handlers alone, and the handlers under an event that run
  anything else, read off the file.\<close>

definition runs_autofork :: "json \<Rightarrow> bool" where
  "runs_autofork h \<longleftrightarrow> (\<exists>c before after. j_get h ''command'' = Some (JStr c) \<and> c = before @ '' codex hook '' @ after)"

definition handlers_of :: "json \<Rightarrow> json list" where
  "handlers_of g = (case j_get g ''hooks'' of Some (JArr hs) \<Rightarrow> hs | _ \<Rightarrow> [])"

definition ours_alone :: "json \<Rightarrow> bool" where
  "ours_alone g \<longleftrightarrow> handlers_of g \<noteq> [] \<and> (\<forall>h\<in>set (handlers_of g). runs_autofork h)"

definition others_at :: "json \<Rightarrow> str \<Rightarrow> json list" where
  "others_at root event = filter (\<lambda>h. \<not> runs_autofork h) (concat (map handlers_of (groups_of root event)))"

lemma contains_iff: "str_contains s p \<longleftrightarrow> (\<exists>before after. s = before @ p @ after)"
proof (induction s)
  case (Cons c s)
  have "(\<exists>before after. c # s = before @ p @ after) \<longleftrightarrow> (\<exists>after. c # s = p @ after) \<or> (\<exists>before after. s = before @ p @ after)"
    by (metis append_Cons append_Nil list.distinct(1) list.inject neq_Nil_conv)
  with Cons show ?case by (simp add: starts_with_iff)
qed simp

lemma get_str_iff: "j_get_str h k = Some c \<longleftrightarrow> j_get h k = Some (JStr c)"
  by (auto simp: j_get_str_def bind_eq_Some_conv elim!: j_str.elims)

lemma runs_autofork_iff: "is_ours h = runs_autofork h"
proof -
  have "is_ours h \<longleftrightarrow> (\<exists>c. j_get_str h ''command'' = Some c \<and> str_contains c '' codex hook '')"
    by (simp add: is_ours_def split: option.split)
  then show ?thesis unfolding get_str_iff contains_iff runs_autofork_def by blast
qed

lemma ours_alone_iff: "ours_group g = ours_alone g"
proof -
  have "Option.bind (j_get g ''hooks'') j_arr = Some hs \<longleftrightarrow> j_get g ''hooks'' = Some (JArr hs)" for hs
    by (auto elim!: j_arr.elims split: bind_splits)
  then show ?thesis
    by (auto simp: ours_group_def ours_alone_def handlers_of_def list_all_iff runs_autofork_iff split: option.splits json.splits bind_splits)
qed

lemma others_foreign: "filter (\<lambda>h. \<not> runs_autofork h) (concat (map handlers_of (foreign gs))) = filter (\<lambda>h. \<not> runs_autofork h) (concat (map handlers_of gs))"
  by (induction gs) (auto simp: foreign_def ours_alone_iff ours_alone_def filter_empty_conv)

lemma our_group_silent: "filter (\<lambda>h. \<not> runs_autofork h) (handlers_of (our_group exe kind)) = []"
  using our_group_ours[of exe kind] by (simp add: ours_alone_iff ours_alone_def filter_empty_conv del: our_group_ours)

text \<open>C33. Installing changes nothing of the file but the hooks; under the events that we hook it removes the groups
  that run autofork alone and puts one group of ours last, so that there is exactly one such group, and under the others
  it changes nothing; no handler that runs anything else is lost, added or moved; and installing again changes
  nothing. Uninstalling then leaves, under every event, exactly the groups that do not run autofork alone, again
  without the loss of another handler. (A group in which a handler of ours stands beside others is kept as it is,
  by both; see \<open>mixed_group_doubles\<close>.)\<close>

theorem install_exact:
  fixes exe :: "str option" and root :: json
  assumes "distinct (map fst (hooks_entries root))"
  defines "merged \<equiv> merge_hooks exe root"
  shows "(k \<noteq> ''hooks'' \<longrightarrow> j_get merged k = j_get root k)
    \<and> groups_of merged event = (case map_of HOOK_EVENTS event of
         Some kind \<Rightarrow> filter (\<lambda>g. \<not> ours_alone g) (groups_of root event) @ [our_group exe kind] | None \<Rightarrow> groups_of root event)
    \<and> (\<forall>kind. map_of HOOK_EVENTS event = Some kind \<longrightarrow> filter ours_alone (groups_of merged event) = [our_group exe kind])
    \<and> others_at merged event = others_at root event
    \<and> merge_hooks exe merged = merged
    \<and> (\<exists>r. unmerge_hooks merged = Some r \<and> groups_of r event = filter (\<lambda>g. \<not> ours_alone g) (groups_of root event)
          \<and> others_at r event = others_at root event)"
proof -
  note g = install_groups[OF assms(1), of k exe event, folded merged_def]
  have groups: "groups_of merged event = (case map_of HOOK_EVENTS event of
       Some kind \<Rightarrow> foreign (groups_of root event) @ [our_group exe kind] | None \<Rightarrow> groups_of root event)" using g by blast
  have f: "foreign gs = filter (\<lambda>g. \<not> ours_alone g) gs" for gs by (simp add: foreign_def ours_alone_iff)
  obtain r where r: "unmerge_hooks merged = Some r" "groups_of r event = foreign (groups_of root event)" using g by blast
  have o: "others_at merged event = others_at root event"
    unfolding others_at_def groups using our_group_silent by (simp add: others_foreign split: option.split)
  have r': "others_at r event = others_at root event" by (simp add: others_at_def r(2) others_foreign)
  have "filter ours_alone (groups_of merged event) = [our_group exe kind]" if "map_of HOOK_EVENTS event = Some kind" for kind
    using our_group_ours[of exe kind] that by (simp add: groups f flip: ours_alone_iff)
  with g o r r' groups show ?thesis unfolding f by blast
qed

text \<open>A handler of ours that shares a group with another stays when we install, and is then there twice.\<close>

lemma mixed_group_doubles:
  "let group = JObj [(''hooks'', JArr [JObj [(''command'', JStr ''autofork codex hook stop'')], JObj [(''command'', JStr ''mine'')]])];
       root = JObj [(''hooks'', JObj [(''Stop'', JArr [group])])]
   in length (our_commands (merge_hooks None root)) = 5
      \<and> filter (\<lambda>c. c = ''autofork codex hook stop'') (our_commands (merge_hooks None root)) = [''autofork codex hook stop'', ''autofork codex hook stop'']"
  by code_simp

text \<open>A file with a group of the user's and an old one of ours.\<close>

definition old_hooks :: json where
  "old_hooks = JObj [(''hooks'', JObj [(''Stop'', JArr [JObj [(''hooks'', JArr [JObj [(''command'', JStr ''mine'')]])],
     JObj [(''hooks'', JArr [JObj [(''command'', JStr ''/old/autofork codex hook stop'')]])]])])]"

theorem install_exact_witness:
  "merge_hooks None (merge_hooks None old_hooks) = merge_hooks None old_hooks
   \<and> groups_of (merge_hooks None old_hooks) ''Stop'' = [JObj [(''hooks'', JArr [JObj [(''command'', JStr ''mine'')]])], our_group None ''stop'']"
proof -
  have "distinct (map fst (hooks_entries old_hooks))" by (simp add: hooks_entries_def old_hooks_def)
  note i = install_exact[OF this, of "''x''" None "''Stop''"]
  have "map_of HOOK_EVENTS ''Stop'' = Some ''stop''" by (simp add: HOOK_EVENTS_def)
  moreover have "filter (\<lambda>g. \<not> ours_alone g) (groups_of old_hooks ''Stop'') = [JObj [(''hooks'', JArr [JObj [(''command'', JStr ''mine'')]])]]"
    unfolding ours_alone_iff[symmetric] by code_simp
  ultimately show ?thesis using i by simp
qed

end
