(* ===== verification/App_Server.thy ===== *)
theory App_Server
  imports Codex_Hooks Codex_Waiter
begin

text \<open>
  \<open>AppServer\<close> of \<open>autofork/src/codex.rs\<close>: a transient \<open>codex app-server\<close> that is asked over lines of
  JSON, and the hook trust of \<open>Codex_Hooks\<close> over it. The peer is what it says after each frame it is sent; how a
  line parses, how a value prints and which writes fail are parameters. And the files that a waiter is
  known by.
\<close>

section \<open>A request and its answer\<close>

text \<open>What there is to read next: nothing before the deadline has passed, the end of the stream, an error, a
  line.\<close>

datatype heard = Late | Eof | Broken str | Text str

text \<open>How a request ends; \<open>Waits\<close>: the peer is silent, and the read has no limit of its own.\<close>

datatype 'a rpc_end = Waits | Failed str | Answered 'a

text \<open>The loop of \<open>request\<close>, with what is left to read.\<close>

fun rpc_await :: "(str \<Rightarrow> json option) \<Rightarrow> (json \<Rightarrow> str) \<Rightarrow> str \<Rightarrow> nat \<Rightarrow> heard list \<Rightarrow> heard list \<times> json rpc_end" where
  "rpc_await parse show meth i [] = ([], Waits)"
| "rpc_await parse show meth i (Late # hs) = (hs, Failed (meth @ '': timed out''))"
| "rpc_await parse show meth i (Eof # hs) = (Eof # hs, Failed ''app-server closed'')"
| "rpc_await parse show meth i (Broken e # hs) = (hs, Failed (''reading app-server: '' @ e))"
| "rpc_await parse show meth i (Text l # hs) = (case parse l of None \<Rightarrow> rpc_await parse show meth i hs
     | Some v \<Rightarrow> if j_u64 (j_at v ''id'') = Some i
         then (hs, if j_at v ''error'' \<noteq> JNull then Failed (meth @ '': '' @ show (j_at v ''error'')) else Answered (j_at v ''result''))
         else rpc_await parse show meth i hs)"

record app_server =
  as_next_id :: nat
  as_sent :: "json list"
  as_unread :: "heard list"

text \<open>\<open>send\<close>: the frame is written unless the pipe is broken, and the peer goes on.\<close>

definition rpc_send :: "(nat \<Rightarrow> str option) \<Rightarrow> (json \<Rightarrow> heard list) \<Rightarrow> json \<Rightarrow> app_server \<Rightarrow> app_server \<times> str option" where
  "rpc_send broken peer v s = (case broken (length (as_sent s)) of
     Some e \<Rightarrow> (s, Some (''writing to app-server: '' @ e))
   | None \<Rightarrow> (s\<lparr>as_sent := as_sent s @ [v], as_unread := as_unread s @ peer v\<rparr>, None))"

definition rpc_frame :: "str \<Rightarrow> nat \<Rightarrow> json \<Rightarrow> json" where
  "rpc_frame meth i params = JObj [(''method'', JStr meth), (''id'', JNum (JInt (int i))), (''params'', params)]"

definition notify_frame :: "str \<Rightarrow> json" where
  "notify_frame meth = JObj [(''method'', JStr meth)]"

text \<open>The platform of a session: the parser, the printing of a value, the writes that fail and the peer.\<close>

record wire =
  wi_parse :: "str \<Rightarrow> json option"
  wi_show :: "json \<Rightarrow> str"
  wi_broken :: "nat \<Rightarrow> str option"
  wi_peer :: "json \<Rightarrow> heard list"

definition rpc_request :: "wire \<Rightarrow> str \<Rightarrow> json \<Rightarrow> app_server \<Rightarrow> app_server \<times> json rpc_end" where
  "rpc_request w meth params s =
     (let i = as_next_id s
      in case rpc_send (wi_broken w) (wi_peer w) (rpc_frame meth i params) (s\<lparr>as_next_id := Suc i\<rparr>) of
        (s1, Some e) \<Rightarrow> (s1, Failed e)
      | (s1, None) \<Rightarrow> (case rpc_await (wi_parse w) (wi_show w) meth i (as_unread s1) of
          (hs, r) \<Rightarrow> (s1\<lparr>as_unread := hs\<rparr>, r)))"

definition rpc_notify :: "wire \<Rightarrow> str \<Rightarrow> app_server \<Rightarrow> app_server \<times> str option" where
  "rpc_notify w meth s = rpc_send (wi_broken w) (wi_peer w) (notify_frame meth) s"

text \<open>\<open>then_ask r f\<close>: the \<open>?\<close> of the source.\<close>

definition then_ask :: "app_server \<times> 'a rpc_end \<Rightarrow> ('a \<Rightarrow> app_server \<Rightarrow> app_server \<times> 'b rpc_end) \<Rightarrow> app_server \<times> 'b rpc_end" where
  "then_ask r f = (case r of (s, Answered v) \<Rightarrow> f v s | (s, Failed e) \<Rightarrow> (s, Failed e) | (s, Waits) \<Rightarrow> (s, Waits))"

definition app_start :: "wire \<Rightarrow> str option \<Rightarrow> app_server \<times> unit rpc_end" where
  "app_start w spawn_err =
     (let s0 = \<lparr>as_next_id = 1, as_sent = [], as_unread = []\<rparr>
      in case spawn_err of Some e \<Rightarrow> (s0, Failed (''spawning codex app-server: '' @ e))
         | None \<Rightarrow> then_ask (rpc_request w ''initialize'' initialize_params s0)
             (\<lambda>_ s. case rpc_notify w ''initialized'' s of (s1, Some e) \<Rightarrow> (s1, Failed e) | (s1, None) \<Rightarrow> (s1, Answered ())))"

text \<open>\<open>trust_our_hooks\<close> and \<open>trust_status\<close> over a session.\<close>

definition trust_over_wire :: "wire \<Rightarrow> str option \<Rightarrow> path \<Rightarrow> app_server \<times> nat rpc_end" where
  "trust_over_wire w spawn_err hooks_path =
     then_ask (app_start w spawn_err) (\<lambda>_ s. then_ask (rpc_request w ''hooks/list'' (JObj []) s) (\<lambda>listed s1.
       let entries = List.map_filter trust_entry (listed_ours hooks_path listed)
       in if entries = [] then (s1, Failed ''codex reported none of our hooks (is `codex` current?)'')
          else then_ask (rpc_request w ''config/batchWrite'' (trust_write (trust_state entries)) s1)
            (\<lambda>_ s2. (s2, Answered (length entries)))))"

definition status_over_wire :: "wire \<Rightarrow> str option \<Rightarrow> path \<Rightarrow> app_server \<times> bool rpc_end" where
  "status_over_wire w spawn_err hooks_path =
     then_ask (app_start w spawn_err) (\<lambda>_ s. then_ask (rpc_request w ''hooks/list'' (JObj []) s) (\<lambda>listed s1.
       let ours = listed_ours hooks_path listed
       in (s1, Answered (list_all (\<lambda>h. j_get_str h ''trustStatus'' = Some ''trusted'') ours \<and> ours \<noteq> []))))"

section \<open>A peer that speaks the protocol\<close>

text \<open>A line that answers nothing: no JSON, or JSON whose \<open>id\<close> is no number, like a notification.\<close>

definition is_noise :: "wire \<Rightarrow> heard \<Rightarrow> bool" where
  "is_noise w h \<longleftrightarrow> (case h of Text l \<Rightarrow> (case wi_parse w l of None \<Rightarrow> True | Some v \<Rightarrow> j_u64 (j_at v ''id'') = None) | _ \<Rightarrow> False)"

definition answer_of :: "wire \<Rightarrow> str \<Rightarrow> json \<Rightarrow> str + json" where
  "answer_of w meth v = (if j_at v ''error'' \<noteq> JNull then Inl (meth @ '': '' @ wi_show w (j_at v ''error'')) else Inr (j_at v ''result''))"

text \<open>The peer implements \<open>server\<close>: after a request it says some noise, and then the answer under the id of the
  request; after a notification only noise; and nothing breaks.\<close>

definition speaks :: "wire \<Rightarrow> (str \<Rightarrow> json \<Rightarrow> str + json) \<Rightarrow> bool" where
  "speaks w server \<longleftrightarrow> wi_broken w = (\<lambda>_. None)
     \<and> (\<forall>meth i params. i < 2 ^ 64 \<longrightarrow> (\<exists>noise l v. wi_peer w (rpc_frame meth i params) = noise @ [Text l] \<and> list_all (is_noise w) noise
          \<and> wi_parse w l = Some v \<and> j_u64 (j_at v ''id'') = Some i \<and> answer_of w meth v = server meth params))
     \<and> (\<forall>meth. list_all (is_noise w) (wi_peer w (notify_frame meth)))"

definition end_of :: "str + 'a \<Rightarrow> 'a rpc_end" where
  "end_of r = (case r of Inl e \<Rightarrow> Failed e | Inr v \<Rightarrow> Answered v)"

lemma await_past_noise:
  "list_all (is_noise w) noise \<Longrightarrow> rpc_await (wi_parse w) (wi_show w) meth i (noise @ hs) = rpc_await (wi_parse w) (wi_show w) meth i hs"
proof (induction noise)
  case (Cons h noise)
  then show ?case by (cases h) (auto simp: is_noise_def split: option.splits)
qed simp

lemma request_answered:
  assumes "speaks w server" "list_all (is_noise w) (as_unread s)" "as_next_id s < 2 ^ 64"
  shows "\<exists>s1. rpc_request w meth params s = (s1, end_of (server meth params)) \<and> as_unread s1 = []
     \<and> as_next_id s1 = Suc (as_next_id s) \<and> as_sent s1 = as_sent s @ [rpc_frame meth (as_next_id s) params]"
proof -
  obtain noise l v where n: "wi_peer w (rpc_frame meth (as_next_id s) params) = noise @ [Text l]" "list_all (is_noise w) noise"
    "wi_parse w l = Some v" "j_u64 (j_at v ''id'') = Some (as_next_id s)" "answer_of w meth v = server meth params"
    using assms(1,3) unfolding speaks_def by blast
  have b: "wi_broken w = (\<lambda>_. None)" using assms(1) by (simp add: speaks_def)
  have "rpc_await (wi_parse w) (wi_show w) meth (as_next_id s) (as_unread s @ noise @ [Text l]) = ([], end_of (server meth params))"
    using n by (simp add: await_past_noise[OF assms(2)] await_past_noise[OF n(2)] end_of_def n(5)[symmetric] answer_of_def)
  then show ?thesis by (simp add: rpc_request_def rpc_send_def Let_def b n(1))
qed

lemma start_answered:
  assumes "speaks w server"
  shows "\<exists>s. app_start w None = (s, end_of (map_sum id (\<lambda>_. ()) (server ''initialize'' initialize_params)))
     \<and> (\<forall>v. server ''initialize'' initialize_params = Inr v \<longrightarrow> list_all (is_noise w) (as_unread s) \<and> as_next_id s = 2)"
proof -
  obtain s1 where r: "rpc_request w ''initialize'' initialize_params \<lparr>as_next_id = 1, as_sent = [], as_unread = []\<rparr>
      = (s1, end_of (server ''initialize'' initialize_params))" "as_unread s1 = []" "as_next_id s1 = 2"
    using request_answered[OF assms, of "\<lparr>as_next_id = 1, as_sent = [], as_unread = []\<rparr>" "''initialize''" initialize_params] by auto
  then show ?thesis using assms
    by (cases "server ''initialize'' initialize_params")
       (simp_all add: app_start_def then_ask_def end_of_def rpc_notify_def rpc_send_def speaks_def)
qed

text \<open>Over any peer that implements a server, with notifications and lines that are no JSON between its
  answers, trusting the hooks and asking whether they are trusted end as the server answers: no answer is taken for
  another and nobody waits.\<close>

theorem wire_exact:
  assumes "speaks w server"
  shows "snd (trust_over_wire w None hooks_path) = end_of (trust_our_hooks server hooks_path)"
    "snd (status_over_wire w None hooks_path) = end_of (trust_status server hooks_path)"
proof -
  obtain s where s: "app_start w None = (s, end_of (map_sum id (\<lambda>_. ()) (server ''initialize'' initialize_params)))"
    "\<And>v. server ''initialize'' initialize_params = Inr v \<Longrightarrow> list_all (is_noise w) (as_unread s) \<and> as_next_id s = 2"
    using start_answered[OF assms] by blast
  show "snd (trust_over_wire w None hooks_path) = end_of (trust_our_hooks server hooks_path)"
    "snd (status_over_wire w None hooks_path) = end_of (trust_status server hooks_path)"
  proof (atomize(full), cases "server ''initialize'' initialize_params")
    case (Inl e)
    then show "snd (trust_over_wire w None hooks_path) = end_of (trust_our_hooks server hooks_path)
       \<and> snd (status_over_wire w None hooks_path) = end_of (trust_status server hooks_path)"
      by (simp add: trust_over_wire_def status_over_wire_def trust_our_hooks_def trust_status_def s(1) end_of_def then_ask_def)
  next
    case (Inr v)
    obtain s1 where l: "rpc_request w ''hooks/list'' (JObj []) s = (s1, end_of (server ''hooks/list'' (JObj [])))" "as_unread s1 = []" "as_next_id s1 = 3"
      using request_answered[OF assms, of s "''hooks/list''" "JObj []"] s(2)[OF Inr] by auto
    obtain s2 where b: "rpc_request w ''config/batchWrite'' p s1 = (s2 p, end_of (server ''config/batchWrite'' p))" for p
      using request_answered[OF assms, of s1 "''config/batchWrite''"] l(2,3) by simp metis
    show "snd (trust_over_wire w None hooks_path) = end_of (trust_our_hooks server hooks_path)
       \<and> snd (status_over_wire w None hooks_path) = end_of (trust_status server hooks_path)"
      by (simp add: trust_over_wire_def status_over_wire_def trust_our_hooks_def trust_status_def s(1) Inr l(1) b end_of_def
            then_ask_def Let_def split: sum.splits)
  qed
qed

text \<open>A wire that makes lines of the number of a request, with a letter for what is asked, and a notification
  before each answer.\<close>

definition listed_one :: json where
  "listed_one = JObj [(''data'', JArr [JObj [(''hooks'', JArr [JObj [(''sourcePath'', JStr ''/h''), (''command'', JStr ''x codex hook stop''),
     (''key'', JStr ''k''), (''currentHash'', JStr ''c''), (''trustStatus'', JStr ''new'')]])]])]"

definition small_server :: "str \<Rightarrow> json \<Rightarrow> str + json" where
  "small_server meth params = Inr (if meth = ''hooks/list'' then listed_one else JNull)"

definition small_line :: "str \<Rightarrow> json option" where
  "small_line l = (case l of [] \<Rightarrow> None
     | c # ds \<Rightarrow> Option.bind (digits_val 0 ds) (\<lambda>i. Some (JObj [(''id'', JNum (JInt (int i))), (''result'', if c = CHR ''h'' then listed_one else JNull)])))"

definition small_wire :: wire where
  "small_wire = \<lparr>wi_parse = small_line, wi_show = (\<lambda>_. []), wi_broken = (\<lambda>_. None),
     wi_peer = (\<lambda>v. case j_u64 (j_at v ''id'') of None \<Rightarrow> [Text ''note'']
       | Some i \<Rightarrow> [Text ''note'', Text ((if j_get_str v ''method'' = Some ''hooks/list'' then CHR ''h'' else CHR ''r'') # show_nat i)])\<rparr>"

lemma small_speaks: "speaks small_wire small_server"
proof -
  have "small_line ''note'' = None" by code_simp
  then have "list_all (is_noise small_wire) [Text ''note'']" by (simp add: is_noise_def small_wire_def)
  moreover have "wi_peer small_wire (rpc_frame meth i params) = [Text ''note''] @ [Text ((if meth = ''hooks/list'' then CHR ''h'' else CHR ''r'') # show_nat i)]
     \<and> (\<exists>v. small_line ((if meth = ''hooks/list'' then CHR ''h'' else CHR ''r'') # show_nat i) = Some v
         \<and> j_u64 (j_at v ''id'') = Some i \<and> answer_of small_wire meth v = small_server meth params)"
    if "i < 2 ^ 64" for meth i params
    using that by (simp add: small_wire_def rpc_frame_def j_at_def j_get_str_def small_line_def digits_val_show answer_of_def small_server_def)
  moreover have "wi_peer small_wire (notify_frame meth) = [Text ''note'']" for meth
    by (simp add: small_wire_def notify_frame_def j_at_def)
  ultimately show ?thesis unfolding speaks_def by (auto simp: small_wire_def)
qed

theorem wire_exact_witness: "snd (trust_over_wire small_wire None ''/h'') = Answered 1"
proof -
  have "trust_our_hooks small_server ''/h'' = Inr 1" by code_simp
  then show ?thesis using wire_exact(1)[OF small_speaks, of "''/h''"] by (simp add: end_of_def)
qed

text \<open>A request that the peer makes of us under the same number is taken for the answer, and a peer that says
  nothing is waited for: the deadline is only looked at between two lines.\<close>

lemma request_taken_for_answer:
  "parse l = Some (JObj [(''id'', JNum (JInt (int i))), (''method'', m)]) \<Longrightarrow> i < 2 ^ 64
   \<Longrightarrow> rpc_await parse show meth i (Text l # hs) = (hs, Answered JNull)"
  by (simp add: j_at_def)

lemma silence_is_waited_for: "(\<And>i params. wi_peer w (rpc_frame ''initialize'' i params) = []) \<Longrightarrow> wi_broken w 0 = None
   \<Longrightarrow> snd (trust_over_wire w None hooks_path) = Waits"
  by (simp add: trust_over_wire_def app_start_def rpc_request_def rpc_send_def then_ask_def Let_def)

section \<open>The files of a waiter\<close>

definition is_tag_char :: "char \<Rightarrow> bool" where
  "is_tag_char c \<longleftrightarrow> is_alnum c \<or> c = CHR ''-''"

definition session_tag :: "str \<Rightarrow> str" where
  "session_tag session_id = take 48 (filter is_tag_char session_id)"

definition run_dir :: "path \<Rightarrow> path" where
  "run_dir base = path_join base ''run''"

definition waiter_lock :: "path \<Rightarrow> str \<Rightarrow> path" where
  "waiter_lock base session_id = path_join (run_dir base) (''codex-'' @ session_tag session_id @ ''.lock'')"

definition waiter_tombstone :: "path \<Rightarrow> str \<Rightarrow> path" where
  "waiter_tombstone base session_id = path_join (run_dir base) (''codex-'' @ session_tag session_id @ ''.end'')"

text \<open>Ids of at most 48 letters, digits and dashes, like those that codex makes, are their own tags; so each session
  has its own lock.\<close>

definition plain_id :: "str \<Rightarrow> bool" where
  "plain_id s \<longleftrightarrow> length s \<le> 48 \<and> list_all is_tag_char s"

lemma plain_tag: "plain_id s \<Longrightarrow> session_tag s = s"
  by (simp add: plain_id_def session_tag_def list_all_iff)

lemma waiter_locks_apart: "plain_id a \<Longrightarrow> plain_id b \<Longrightarrow> a \<noteq> b \<Longrightarrow> waiter_lock base a \<noteq> waiter_lock base b \<and> waiter_tombstone base a \<noteq> waiter_tombstone base b"
  by (simp add: waiter_lock_def waiter_tombstone_def plain_tag path_push_def slash_def is_abs_def)

lemma tag_is_plain: "plain_id (session_tag s)"
  by (auto simp: plain_id_def session_tag_def list_all_iff dest: in_set_takeD)

end
