(* ===== verification/Commands.thy ===== *)
theory Commands
  imports Client
begin

text \<open>
  \<open>autofork/src/commands.rs\<close>: what the commands for people print. A command gets the answer of the daemon (or
  why there is none) and gives the lines it prints and the error it ends with. Printing, standard input
  and following the log are left out.
\<close>

section \<open>Numbers and ids\<close>

definition FORK_DEFAULT_VERSION :: version where
  "FORK_DEFAULT_VERSION = Version 2 1 161"

definition FORK_GATED_VERSION :: version where
  "FORK_GATED_VERSION = Version 2 1 117"

definition version_token :: "str \<Rightarrow> version option" where
  "version_token tok = (case split_on (CHR ''.'') tok of
     a # b # c # _ \<Rightarrow> (case (parse_u64 a, parse_u64 b, parse_u64 (takeWhile is_digit c)) of
        (Some x, Some y, Some z) \<Rightarrow> Some (Version x y z) | _ \<Rightarrow> None)
   | _ \<Rightarrow> None)"

text \<open>Splitting at brackets too; the empty tokens between two separators are no versions.\<close>

fun first_version :: "str list \<Rightarrow> version option" where
  "first_version [] = None"
| "first_version (t # ts) = (case version_token t of Some v \<Rightarrow> Some v | None \<Rightarrow> first_version ts)"

definition parse_version :: "str \<Rightarrow> version option" where
  "parse_version s = first_version (split_whitespace (map (\<lambda>c. if c = CHR ''('' \<or> c = CHR '')'' then CHR '' '' else c) s))"

definition fmt_ago :: "int \<Rightarrow> int \<Rightarrow> str" where
  "fmt_ago now ts = (let d = max 0 (i64_sub now ts)
     in if d \<le> 59 then show_int d @ ''s ago'' else if d \<le> 3599 then show_int (d div 60) @ ''m ago''
        else if d \<le> 86399 then show_int (d div 3600) @ ''h ago'' else show_int (d div 86400) @ ''d ago'')"

definition SESSION_ID_WIDTH :: nat where
  "SESSION_ID_WIDTH = 8"

definition display_session_id :: "str \<Rightarrow> str" where
  "display_session_id i = (let cs = utf8_chars i;
       time_ordered = (length i \<ge> 15 \<and> i ! 14 = CHR ''7'' \<or> CHR ''-'' \<notin> set i)
     in concat (if time_ordered then drop (length cs - SESSION_ID_WIDTH) cs else take SESSION_ID_WIDTH cs))"

section \<open>Status and prune\<close>

type_synonym printed = "str list \<times> str option"

definition dash :: str where
  "dash = '' '' @ em_dash @ '' ''"

text \<open>The rows with an id seen for the first time.\<close>

definition first_rows :: "session_info list \<Rightarrow> session_info list" where
  "first_rows rows = rev (foldl (\<lambda>acc r. if si_session_id r \<in> si_session_id ` set acc then acc else r # acc) [] rows)"

definition session_line :: "int \<Rightarrow> session_info \<Rightarrow> str" where
  "session_line t s = ''  session '' @ display_session_id (si_session_id s) @ '' ['' @ si_status s @ '']''
     @ (if si_stale s then '' [stale?]'' else []) @ '' '' @ si_project_root s @ '' (active '' @ fmt_ago t (si_last_activity s)
     @ (case si_prompt_tokens s of Some n \<Rightarrow> '', ~'' @ show_nat n @ '' prompt tokens'' | None \<Rightarrow> []) @ '')''"

definition print_sessions_header :: "int \<Rightarrow> status_info \<Rightarrow> str list" where
  "print_sessions_header t info =
     (let known = first_rows (st_sessions info); titled = (\<lambda>title ls. if ls = [] then [] else title # ls)
      in [''sessions: '' @ show_nat (length known)] @ map (session_line t) known
        @ titled ''fork runs in flight:'' (map (\<lambda>r. ''  '' @ ri_fork r @ dash @ display_session_id (ri_session_id r)
            @ dash @ fmt_ago t (ri_started_at r)) (st_running info))
        @ titled ''recent closes:'' (map (\<lambda>c. ''  '' @ display_session_id (ci_session_id c) @ dash @ ci_reason c
            @ dash @ fmt_ago t (ci_closed_at c)) (st_recent_closes info))
        @ titled ''recent wakes:'' (map (\<lambda>r. ''  '' @ ri_fork r @ '' ('' @ ri_trigger r @ '')'' @ dash
            @ display_session_id (ri_session_id r) @ dash @ fmt_ago t (ri_started_at r)) (st_recent_runs info)))"

definition status_cmd :: "int \<Rightarrow> str + response \<Rightarrow> printed" where
  "status_cmd t answer = (case answer of Inl e \<Rightarrow> ([], Some e)
   | Inr (RStatus info) \<Rightarrow> ([''autofork daemon v'' @ st_version info @ '' (pid '' @ show_nat (st_pid info) @ '')'']
       @ print_sessions_header t info, None)
   | Inr _ \<Rightarrow> ([], Some ''unexpected response''))"

definition plural :: "nat \<Rightarrow> str" where
  "plural n = (if n = 1 then [] else ''s'')"

definition prune_cmd :: "int \<Rightarrow> str + response \<Rightarrow> printed" where
  "prune_cmd t answer = (case answer of Inl e \<Rightarrow> ([], Some e)
   | Inr (RPruned gone) \<Rightarrow> (if gone = [] then [''no stale sessions'']
       else (''closed '' @ show_nat (length gone) @ '' stale session'' @ plural (length gone) @ '':'')
         # map (\<lambda>s. ''  session '' @ display_session_id (si_session_id s) @ '' '' @ si_project_root s @ '' (last active ''
             @ fmt_ago t (si_last_activity s) @ '')'') gone, None)
   | Inr _ \<Rightarrow> ([], Some ''unexpected response''))"

section \<open>Forks and hooks\<close>

definition fork_details :: "fork_info \<Rightarrow> str list" where
  "fork_details f = [''runs on: '' @ join_with '', '' (ki_triggers f)]
     @ (case ki_throttle_secs f of Some t \<Rightarrow> [''throttle: '' @ show_nat t @ ''s''] | None \<Rightarrow> [])
     @ (if ki_after f \<noteq> [] then [''after: '' @ join_with '', '' (ki_after f)] else [])
     @ (if ki_priority f \<noteq> 0 then [''priority: '' @ show_int (ki_priority f)] else [])
     @ (if ki_chain f then [''chain''] else []) @ (if ki_gate f then [''gate''] else [])
     @ (case ki_model f of Some m \<Rightarrow> [''model: '' @ m] | None \<Rightarrow> [])
     @ (case ki_mode f of Some m \<Rightarrow> [''mode: '' @ m] | None \<Rightarrow> [])
     @ (case ki_guard f of Some g \<Rightarrow> [''guard: '' @ g] | None \<Rightarrow> [])
     @ (if ki_tags f \<noteq> [] then [''tags: '' @ join_with '', '' (ki_tags f)] else [])
     @ (if ki_overlap f then [''overlap allowed''] else [])"

definition fork_lines :: "fork_info \<Rightarrow> str list" where
  "fork_lines f = [''  '' @ ki_name f @ dash @ (case ki_description f of Some d \<Rightarrow> d | None \<Rightarrow> ''(no description)''),
       replicate 6 (CHR '' '') @ join_with '' | '' (fork_details f), replicate 6 (CHR '' '') @ ki_path f]
     @ (case ki_skill f of Some s \<Rightarrow> [replicate 6 (CHR '' '') @ ''skill: '' @ s] | None \<Rightarrow> [])
     @ map (\<lambda>w. replicate 6 (CHR '' '') @ ''warning: '' @ w) (ki_warnings f)"

definition list_forks_cmd :: "path \<Rightarrow> str + response \<Rightarrow> printed" where
  "list_forks_cmd root answer = (case answer of Inl e \<Rightarrow> ([], Some e)
   | Inr (RForkList items) \<Rightarrow> (if items = [] then [''no forks discovered (looked for .autofork/forks/ up from here and user-level)'']
       else (''forks visible from '' @ root @ '' :'') # concat (map fork_lines items), None)
   | Inr _ \<Rightarrow> ([], Some ''unexpected response''))"

definition hook_lines :: "hook_entry \<Rightarrow> str list" where
  "hook_lines h = (let d = ph_def (he_parsed h); on = map hook_label (hd_on d); margin = replicate 6 (CHR '' '')
     in [''  '' @ he_name h @ dash @ (case hd_description d of Some x \<Rightarrow> x | None \<Rightarrow> ''(no description)''),
         margin @ ''on: '' @ (if on = [] then ''(nothing'' @ dash @ ''never fires)'' else join_with '', '' on)
           @ '' | timeout: '' @ show_nat (hd_timeout_secs d) @ ''s''
           @ (case hd_throttle_secs d of Some s \<Rightarrow> '' | throttle: '' @ show_nat s @ ''s'' | None \<Rightarrow> [])
           @ (if delivers (hd_deliver d) then '' | deliver: '' @ deliver_label (hd_deliver d) @ '' (max ''
                @ show_nat (hd_max_bytes d) @ '' bytes)'' else []),
         margin @ ''command: '' @ hd_command d, margin @ he_path h]
       @ map (\<lambda>w. margin @ ''warning: '' @ w) (ph_warnings (he_parsed h)))"

definition list_hooks_cmd :: "world \<Rightarrow> path \<Rightarrow> str list" where
  "list_hooks_cmd w cwd =
     (let (entries, warnings) = discover_hooks (wd_disk w) (wd_hook_yaml w) cwd (Some (user_hooks_root w))
      in if entries = [] \<and> warnings = []
         then [''no lifecycle hooks discovered (looked for .autofork/hooks/ up from here and '' @ user_hooks_root w @ '')'']
         else (''lifecycle hooks visible from '' @ cwd @ '' :'') # concat (map hook_lines entries) @ map (\<lambda>w. ''  warning: '' @ w) warnings)"

section \<open>Emit and run\<close>

text \<open>The request of an emit, given the standard input that a payload of \<open>-\<close> stands for.\<close>

definition emit_request :: "str \<Rightarrow> str option \<Rightarrow> str + path option \<Rightarrow> str option \<Rightarrow> str + str \<Rightarrow> str + request" where
  "emit_request name0 payload root session stdin = (let name = trim name0 in
     if name = [] then Inl ''an event name is required''
     else case root of Inl e \<Rightarrow> Inl e
     | Inr r \<Rightarrow> if payload = Some ''-'' then (case stdin of Inl e \<Rightarrow> Inl e
           | Inr s \<Rightarrow> Inr (Emit name (Some (trim s)) r session))
         else Inr (Emit name payload r session))"

definition emit_cmd :: "str \<Rightarrow> str + response \<Rightarrow> printed" where
  "emit_cmd name answer = (case answer of Inl e \<Rightarrow> ([], Some (''cannot reach the daemon: '' @ e))
   | Inr (REmitted n) \<Rightarrow> ([''emitted '' @ [CHR 0x27] @ trim name @ [CHR 0x27] @ '' to '' @ show_nat n @ '' open session'' @ plural n], None)
   | Inr (RError _ message) \<Rightarrow> ([], Some message)
   | Inr _ \<Rightarrow> ([], Some ''unexpected answer from the daemon''))"

definition picked_forks :: "fork_entry list \<Rightarrow> path \<Rightarrow> str option \<Rightarrow> str option \<Rightarrow> str + fork_entry list" where
  "picked_forks entries cwd name tag = (let quoted = (\<lambda>s. [CHR 0x27] @ s @ [CHR 0x27]) in case name of
     Some n \<Rightarrow> (case find (\<lambda>e. fe_name e = n) entries of Some e \<Rightarrow> Inr [e]
       | None \<Rightarrow> Inl (''no fork named '' @ quoted n @ '' visible from '' @ cwd))
   | None \<Rightarrow> (case tag of None \<Rightarrow> Inl ''provide a fork name or --tag <tag>''
       | Some t \<Rightarrow> (let matched = filter (\<lambda>e. t \<in> set (fd_tags (pf_def (fe_parsed e)))) entries
           in if matched = [] then Inl (''no forks with tag '' @ quoted t @ '' visible from '' @ cwd) else Inr matched)))"

definition manual_due :: "fsys \<Rightarrow> fork_entry \<Rightarrow> due_fork" where
  "manual_due fs e = \<lparr>du_name = fe_name e, du_path = fe_path e, du_trigger = ''manual'',
     du_overlap = fd_overlap (pf_def (fe_parsed e)), du_after = [], du_skill = skill_sibling fs (fe_path e),
     du_chain = fd_chain (pf_def (fe_parsed e)), du_model = None, du_model_fallbacks = [], du_mode = None,
     du_guard = None, du_detail = None\<rparr>"

definition run_fork_cmd :: "world \<Rightarrow> path \<Rightarrow> str option \<Rightarrow> str option \<Rightarrow> printed" where
  "run_fork_cmd w cwd name tag = (case picked_forks (forks_for w cwd) cwd name tag of
     Inl e \<Rightarrow> ([], Some e)
   | Inr picked \<Rightarrow> ([''autofork can no longer spawn forks itself'' @ dash @ ''forks run as fork subagents of an'',
        ''interactive session. Paste the following into an interactive Claude Code session'',
        ''to run the selected fork(s) now:'', [],
        build_wake_payload ''(the current session)'' ''(the current conversation)'' (project_root (wd_fs w) cwd)
          (map (manual_due (wd_fs w)) picked) []], None))"

section \<open>Logs and doctor\<close>

definition log_tail :: "str \<Rightarrow> str list" where
  "log_tail content = rev (take 100 (rev (str_lines content)))"

text \<open>The definitions that shadow the built-in fork agent.\<close>

definition impostor_agent_files :: "fsys \<Rightarrow> path option \<Rightarrow> path \<Rightarrow> path list" where
  "impostor_agent_files fs home root =
     (let out = (case home of Some h \<Rightarrow> (let p = path_join h ''.claude/agents/fork.md'' in if fs_is_file fs p then [p] else []) | None \<Rightarrow> []);
          p = path_join root ''.claude/agents/fork.md''
      in if fs_is_file fs p \<and> \<not> list_ex (path_eq p) out then out @ [p] else out)"

text \<open>The verdict on the version of Claude Code: the lines, and whether it is a problem. \<open>None\<close> stands for a
  command that did not run.\<close>

definition fork_enable_hint :: "bool \<Rightarrow> str list" where
  "fork_enable_hint env_set = (let margin = replicate 8 (CHR '' '') in
     [margin @ (if env_set then ''CLAUDE_CODE_FORK_SUBAGENT is set (fork subagent force-enabled)'' else ''note: CLAUDE_CODE_FORK_SUBAGENT is not set''),
      margin @ ''a current version can still lack the fork type due to a staged server-side'',
      margin @ ''rollout; force-enable it by adding {\"env\": {\"CLAUDE_CODE_FORK_SUBAGENT\": \"1\"}}'',
      margin @ ''to ~/.claude/settings.json (persistent; preferred over a shell export)''])"

definition doctor_claude :: "fsys \<Rightarrow> (str \<Rightarrow> str) \<Rightarrow> str option \<Rightarrow> str list \<times> bool" where
  "doctor_claude fs debug_quote output = (case output of
     None \<Rightarrow> ([''  note: could not run '' @ [CHR 0x27] @ ''claude --version'' @ [CHR 0x27] @ '' to check fork subagent support''], False)
   | Some out \<Rightarrow> (let raw = trim out in case parse_version raw of
       None \<Rightarrow> ([''  note: could not parse '' @ [CHR 0x27] @ ''claude --version'' @ [CHR 0x27] @ '' output ('' @ debug_quote raw @ '')''], False)
     | Some v \<Rightarrow>
         if FORK_DEFAULT_VERSION \<le> v
         then ((''  ok: claude: '' @ raw) # fork_enable_hint (fs_env fs ''CLAUDE_CODE_FORK_SUBAGENT'' \<noteq> None), False)
         else if FORK_GATED_VERSION \<le> v
         then ([''  WARN: claude '' @ raw @ '': the fork subagent is gated on this version '' @ em_dash,
                ''        export CLAUDE_CODE_FORK_SUBAGENT=1 or upgrade to >= 2.1.161''], False)
         else ([''  PROBLEM: claude '' @ raw @ '' is too old for autofork v0.5 (needs the fork subagent, >= 2.1.117)''], True)))"

text \<open>The credentials a run of the daemon would have, as this shell sees them.\<close>

definition doctor_credentials :: "fsys \<Rightarrow> str list" where
  "doctor_credentials fs =
     (case capture (fs_env fs) of
        Some snap \<Rightarrow> if re_vars snap \<noteq> [] then [''  ok: fork credentials: carrying '' @ join_with '', '' (map fst (re_vars snap)) @ '' to daemon-spawned runs'']
          else [''  note: fork credentials: nothing in this environment'' @ dash @ ''forks use the harness'' @ [CHR 0x27] @ ''s own stored login'']
      | None \<Rightarrow> [''  WARN: fork credentials: AUTOFORK_NO_CARRY_ENV is set'' @ dash @ ''daemon-spawned runs (flush-on-close) inherit the daemon''
          @ [CHR 0x27] @ ''s environment instead of this session'' @ [CHR 0x27] @ ''s''])
     @ (if oauth_token_override (fs_env fs) \<noteq> None
        then [''  ok: fork credentials: '' @ OAUTH_TOKEN_OVERRIDE @ '' is set'' @ dash @ ''claude fork runs authenticate with it as '' @ OAUTH_TOKEN]
        else if fs_env fs OAUTH_TOKEN \<noteq> None
        then [''  WARN: fork credentials: '' @ OAUTH_TOKEN @ '' is set here, but Claude Code strips it from its hooks, so autofork never sees it''
          @ dash @ ''if that token is how your sessions log in, export '' @ OAUTH_TOKEN_OVERRIDE @ '' with the same value'']
        else [])"

text \<open>A line of an integration is fine if it says so.\<close>

definition doctor_integration :: "str \<Rightarrow> str list \<Rightarrow> str list" where
  "doctor_integration marker ls = map (\<lambda>l. if str_contains l marker then ''  ok: '' @ l else ''  WARN: '' @ l) ls"

definition doctor_impostors :: "fsys \<Rightarrow> path option \<Rightarrow> str list \<times> nat" where
  "doctor_impostors fs current_dir =
     (let root = (case current_dir of Some c \<Rightarrow> project_root fs c | None \<Rightarrow> ''.''); files = impostor_agent_files fs (home_dir fs) root
      in (concat (map (\<lambda>f. [''  PROBLEM: custom agent '' @ [CHR 0x27] @ ''fork'' @ [CHR 0x27] @ '' at '' @ f @ '' shadows/impersonates the'',
            ''           built-in fork subagent type'' @ dash @ ''autofork forks would silently lose'', ''           conversation context; delete it.'']) files),
          length files))"

section \<open>The plugin for opencode\<close>

text \<open>\<open>str::replace\<close>, for a pattern that is not empty.\<close>

function replace_all :: "str \<Rightarrow> str \<Rightarrow> str \<Rightarrow> str" where
  "replace_all p r s = (if s = [] then []
     else if starts_with s p then r @ replace_all p r (drop (max 1 (length p)) s) else hd s # replace_all p r (tl s))"
  by pat_completeness auto
termination by (relation "measure (\<lambda>(p, r, s). length s)") auto

declare replace_all.simps [simp del]

text \<open>\<open>asset\<close> is the text of \<open>assets/opencode-plugin.js\<close>.\<close>

definition plugin_source :: "str \<Rightarrow> str \<Rightarrow> str" where
  "plugin_source asset version = replace_all ''{{VERSION}}'' version asset"

definition opencode_config_dir :: "fsys \<Rightarrow> path option" where
  "opencode_config_dir fs = (let home = map_option (\<lambda>h. path_join (path_join h ''.config'') ''opencode'') (home_dir fs)
     in case fs_env fs ''XDG_CONFIG_HOME'' of Some x \<Rightarrow> if x \<noteq> [] then Some (path_join x ''opencode'') else home | None \<Rightarrow> home)"

definition plugin_path :: "fsys \<Rightarrow> path option" where
  "plugin_path fs = map_option (\<lambda>d. path_join (path_join d ''plugin'') ''autofork.js'') (opencode_config_dir fs)"

text \<open>The file written, if any, beside what is printed; \<open>write_err\<close> says why the directory or the file could
  not be made.\<close>

definition plugin_install :: "fsys \<Rightarrow> str \<Rightarrow> str option \<Rightarrow> bool \<Rightarrow> (path \<times> str) option \<times> printed" where
  "plugin_install fs source write_err print = (if print then (None, ([source], None))
     else case plugin_path fs of None \<Rightarrow> (None, ([], Some ''cannot determine opencode config dir''))
     | Some p \<Rightarrow> (case write_err of Some e \<Rightarrow> (None, ([], Some e))
        | None \<Rightarrow> (Some (p, source), ([''installed '' @ p, ''restart opencode to load it (plugins load at instance start)''], None))))"

datatype removal = Removed | NotThere | RemovalError str

definition plugin_uninstall :: "fsys \<Rightarrow> removal \<Rightarrow> printed" where
  "plugin_uninstall fs r = (case plugin_path fs of None \<Rightarrow> ([], Some ''cannot determine opencode config dir'')
   | Some p \<Rightarrow> (case r of Removed \<Rightarrow> ([''removed '' @ p], None)
      | NotThere \<Rightarrow> ([''not installed ('' @ p @ '' absent)''], None)
      | RemovalError e \<Rightarrow> ([], Some (''removing '' @ p @ '': '' @ e))))"

definition plugin_doctor :: "fsys \<Rightarrow> str \<Rightarrow> str option \<Rightarrow> bool \<Rightarrow> str list" where
  "plugin_doctor fs source installed have_opencode = (case plugin_path fs of None \<Rightarrow> []
   | Some p \<Rightarrow> (case installed of
       Some txt \<Rightarrow> [if txt \<noteq> source then ''opencode plugin at '' @ p @ '' is outdated or modified'' @ dash @ ''run `autofork opencode install` to refresh it''
             else ''opencode plugin installed ('' @ p @ '')'']
           @ (if have_opencode then [] else [''opencode plugin is installed but `opencode` was not found on PATH''])
     | None \<Rightarrow> if have_opencode then [''opencode detected but the autofork plugin is not installed'' @ dash
           @ ''run `autofork opencode install` to enable forks in opencode sessions''] else []))"

text \<open>What an installation wrote, the doctor finds installed.\<close>

lemma installed_is_found:
  "plugin_install fs source err False = (Some (p, txt), out) \<Longrightarrow> plugin_doctor fs source (Some txt) True = [''opencode plugin installed ('' @ p @ '')'']"
  by (auto simp: plugin_install_def plugin_doctor_def split: option.splits)

section \<open>Doctor\<close>

definition good :: "str \<Rightarrow> str" where
  "good msg = ''  ok: '' @ msg"

definition doctor_binaries :: "fsys \<Rightarrow> str \<Rightarrow> str + path \<Rightarrow> str list \<times> nat" where
  "doctor_binaries fs version exe = (case exe of
     Inl e \<Rightarrow> ([''  PROBLEM: cannot resolve current exe: '' @ e], 1)
   | Inr p \<Rightarrow> (let cli = good (''cli: '' @ p @ '' (v'' @ version @ '')'')
       in case map_option (\<lambda>d. path_join d ''autofork-daemon'') (path_parent p) of
            Some b \<Rightarrow> if fs_is_file fs b then ([cli, good (''daemon binary: '' @ b)], 0)
              else ([cli, ''  PROBLEM: autofork-daemon not found next to the CLI''], 1)
          | None \<Rightarrow> ([cli, ''  PROBLEM: autofork-daemon not found next to the CLI''], 1)))"

definition doctor_sandbox :: "host \<Rightarrow> str" where
  "doctor_sandbox h = (case availability h of
     None \<Rightarrow> good ''guard sandbox: available (commands the guard cannot prove run confined)''
   | Some e \<Rightarrow> ''  note: guard sandbox unavailable ('' @ e @ ''); guarded forks refuse commands the analyser cannot prove'')"

text \<open>\<open>handshake\<close>: no daemon, the version it answers with, or how anything else is printed.\<close>

definition doctor_daemon :: "path \<Rightarrow> (str + str) option \<Rightarrow> str \<times> nat" where
  "doctor_daemon socket handshake = (case handshake of
     None \<Rightarrow> (''  note: daemon not running (it auto-starts on the next hook event)'', 0)
   | Some (Inr version) \<Rightarrow> (good (''daemon answering at '' @ socket @ '' (v'' @ version @ '')''), 0)
   | Some (Inl other) \<Rightarrow> (''  PROBLEM: daemon handshake failed: '' @ other, 1))"

definition doctor_db :: "fsys \<Rightarrow> path \<Rightarrow> str" where
  "doctor_db fs db = (if fs_is_file fs db then good (''state db: '' @ db) else ''  note: no state db yet at '' @ db)"

text \<open>What doctor meets: its own executable, the daemon's answer, the output of claude, the lines of the
  two integrations, its directory. On Unix; the look for a shell on Windows is left out.\<close>

record checkup =
  ck_host :: host
  ck_exe :: "str + path"
  ck_handshake :: "(str + str) option"
  ck_claude :: "str option"
  ck_quote :: "str \<Rightarrow> str"
  ck_opencode :: "str list"
  ck_codex :: "str list"
  ck_dir :: "path option"

definition doctor_cmd :: "fsys \<Rightarrow> path \<Rightarrow> str \<Rightarrow> checkup \<Rightarrow> printed" where
  "doctor_cmd fs base version ck =
     (let (bins, p1) = doctor_binaries fs version (ck_exe ck); (daemon, p2) = doctor_daemon (paths_socket fs base) (ck_handshake ck);
          (claude, old) = doctor_claude fs (ck_quote ck) (ck_claude ck); (impostors, p3) = doctor_impostors fs (ck_dir ck);
          problems = p1 + p2 + (if old then 1 else 0) + p3;
          ls = [''autofork doctor''] @ bins @ [doctor_sandbox (ck_host ck), daemon, doctor_db fs (state_db base)] @ claude
            @ doctor_credentials fs @ doctor_integration ''plugin installed'' (ck_opencode ck) @ doctor_integration ''hooks installed ('' (ck_codex ck)
            @ impostors @ [''  note: v0.5 forks run as fork subagents of your interactive session'' @ dash @ ''no headless'',
                ''        fork subprocesses, and no separate fork-session transcripts to prune.'']
      in if problems = 0 then (ls @ [''all good''], None) else (ls, Some (show_nat problems @ '' problem(s) found'')))"

text \<open>Doctor fails exactly if some check found a problem.\<close>

lemma doctor_fails_iff:
  "snd (doctor_cmd fs base version ck) = None \<longleftrightarrow> snd (doctor_binaries fs version (ck_exe ck)) = 0
     \<and> (\<forall>other. ck_handshake ck \<noteq> Some (Inl other)) \<and> \<not> snd (doctor_claude fs (ck_quote ck) (ck_claude ck))
     \<and> snd (doctor_impostors fs (ck_dir ck)) = 0"
  by (auto simp: doctor_cmd_def Let_def split_beta doctor_daemon_def split: option.splits sum.splits)

section \<open>Following the log\<close>

text \<open>One turn of \<open>logs --follow\<close>: the length the file had and the bytes that are read a moment later; what is
  printed and where the next turn starts, or the error of bytes that are not text.\<close>

definition follow_turn :: "nat \<Rightarrow> str \<Rightarrow> nat \<Rightarrow> str + (str \<times> nat)" where
  "follow_turn len content pos0 =
     (let pos = (if len < pos0 then 0 else pos0)
      in if len > pos then (if valid_utf8 (drop pos content) then Inr (drop pos content, len)
            else Inl ''stream did not contain valid UTF-8'')
         else Inr ([], pos))"

fun follow :: "(nat \<times> str) list \<Rightarrow> nat \<Rightarrow> str + str" where
  "follow [] pos = Inr []"
| "follow ((len, content) # turns) pos = (case follow_turn len content pos of
     Inl e \<Rightarrow> Inl e
   | Inr (out, pos') \<Rightarrow> map_sum id (\<lambda>rest. out @ rest) (follow turns pos'))"

text \<open>The sizes a file had and its content then, as it grows chunk by chunk.\<close>

fun growth :: "str \<Rightarrow> str list \<Rightarrow> (nat \<times> str) list" where
  "growth content [] = []"
| "growth content (c # cs) = (length (content @ c), content @ c) # growth (content @ c) cs"

lemma valid_utf8_ascii: "valid_utf8 []" "valid_utf8 ''b''" "valid_utf8 ''ab''" "\<not> valid_utf8 [CHR 0xC3]"
  by code_simp+

text \<open>What is appended in whole characters while nobody writes between the two looks is printed once.\<close>

lemma follow_exact: "list_all valid_utf8 chunks \<Longrightarrow> follow (growth content chunks) (length content) = Inr (concat chunks)"
proof (induction chunks arbitrary: content)
  case (Cons c cs)
  then have "follow_turn (length (content @ c)) (content @ c) (length content) = Inr (c, length (content @ c))"
    by (cases "c = []") (simp_all add: follow_turn_def)
  moreover have "follow (growth (content @ c) cs) (length (content @ c)) = Inr (concat cs)"
    using Cons.prems by (intro Cons.IH) simp
  ultimately show ?case by simp
qed simp

text \<open>What is written between the two looks is printed twice, and a character that is torn when it is read ends
  the command.\<close>

lemma follow_repeats: "follow [(1, ''ab''), (2, ''ab'')] 0 = Inr ''abb''"
  by (simp add: follow_turn_def valid_utf8_ascii)

lemma follow_torn: "follow [(1, [CHR 0xC3])] 0 = Inl ''stream did not contain valid UTF-8''"
  by (simp add: follow_turn_def valid_utf8_ascii)

section \<open>Ends\<close>

text \<open>\<open>exit_on_err\<close>: what goes to standard output and to standard error, and the exit code.\<close>

definition exit_on_err :: "printed \<Rightarrow> str list \<times> str list \<times> nat" where
  "exit_on_err r = (case r of (out, None) \<Rightarrow> (out, [], 0) | (out, Some e) \<Rightarrow> (out, [''autofork: '' @ e], 1))"

text \<open>\<open>stop_daemon\<close>: no connection, or the answer to the request.\<close>

definition stop_daemon :: "(str + response) option \<Rightarrow> printed" where
  "stop_daemon answer = (case answer of None \<Rightarrow> ([''daemon not running''], None)
     | Some (Inl e) \<Rightarrow> ([], Some e)
     | Some (Inr _) \<Rightarrow> ([''daemon asked to exit''], None))"

end
