(* ===== verification/Platform.thy ===== *)
theory Platform
  imports Commands Daemon
begin

text \<open>
  The parts of \<open>autofork-core/src/sys.rs\<close> that compute: the fields of a process that a Linux kernel reports, the
  text of a random id, the command line, environment and names of Windows; and the end-runner a daemon starts
  (\<open>autofork-daemon/src/flush.rs\<close>). The calls of the platform themselves are parameters of the model.
\<close>

section \<open>The fields of a process\<close>

text \<open>What follows the last \<open>c\<close>.\<close>

fun after_last :: "char \<Rightarrow> str \<Rightarrow> str option" where
  "after_last c [] = None"
| "after_last c (x # s) = (case after_last c s of Some r \<Rightarrow> Some r | None \<Rightarrow> if x = c then Some s else None)"

definition stat_field :: "nat \<Rightarrow> str \<Rightarrow> str option" where
  "stat_field k stat = (case after_last (CHR 0x29) stat of None \<Rightarrow> None
     | Some rest \<Rightarrow> (let fs = split_whitespace rest in if k < length fs then Some (fs ! k) else None))"

text \<open>\<open>str::parse::<i64>()\<close>.\<close>

definition parse_i64 :: "str \<Rightarrow> int option" where
  "parse_i64 s =
     (let neg = (s \<noteq> [] \<and> hd s = CHR ''-''); ds = (if s \<noteq> [] \<and> hd s \<in> {CHR ''-'', CHR ''+''} then tl s else s)
      in if ds = [] then None
         else case digits_val 0 ds of None \<Rightarrow> None
           | Some n \<Rightarrow> (let i = (if neg then - int n else int n) in if - (2 ^ 63) \<le> i \<and> i < 2 ^ 63 then Some i else None))"

definition stat_parent :: "str \<Rightarrow> nat option" where
  "stat_parent stat = Option.bind (stat_field 1 stat) parse_u32"

definition stat_start :: "str \<Rightarrow> int option" where
  "stat_start stat = Option.bind (stat_field 19 stat) parse_i64"

text \<open>The line of the kernel: the process, its command in brackets, whatever characters it has, and the
  fields that follow.\<close>

definition stat_line :: "nat \<Rightarrow> str \<Rightarrow> str list \<Rightarrow> str" where
  "stat_line pid cmd fds = show_nat pid @ '' ('' @ cmd @ '') '' @ join_with '' '' fds @ [nl]"

lemma after_last_none: "c \<notin> set s \<Longrightarrow> after_last c s = None"
  by (induction s) auto

lemma after_last_append: "c \<notin> set b \<Longrightarrow> after_last c (a @ c # b) = Some b"
  by (induction a) (simp_all add: after_last_none)

definition is_field :: "str \<Rightarrow> bool" where
  "is_field f \<longleftrightarrow> f \<noteq> [] \<and> list_all (\<lambda>c. \<not> is_ws c \<and> c \<noteq> CHR 0x29) f"

lemma split_ws_field: "list_all (\<lambda>c. \<not> is_ws c) f \<Longrightarrow> split_ws_acc acc (f @ s) = split_ws_acc (rev f @ acc) s"
  by (induction f arbitrary: acc) simp_all

lemma split_ws_fields: "list_all is_field fs \<Longrightarrow> split_whitespace (join_with '' '' fs @ [nl]) = fs"
proof -
  have ws: "is_ws (CHR '' '')" "is_ws nl" by (simp_all add: is_ws_def nl_def)
  have "list_all is_field fs \<Longrightarrow> split_ws_acc [] (join_with '' '' fs @ [nl]) = fs"
  proof (induction "'' ''" fs rule: join_with.induct)
    case (2 x)
    then show ?case using split_ws_field[of x "[]" "[nl]"] ws by (simp add: is_field_def list_all_iff)
  next
    case (3 x y ys)
    then show ?case using split_ws_field[of x "[]" "CHR '' '' # join_with '' '' (y # ys) @ [nl]"] ws
      by (simp add: is_field_def list_all_iff)
  qed (simp add: ws)
  then show "list_all is_field fs \<Longrightarrow> ?thesis" by (simp add: split_whitespace_def)
qed

lemma split_ws_lead: "is_ws c \<Longrightarrow> split_whitespace (c # s) = split_whitespace s"
  by (simp add: split_whitespace_def)

theorem stat_exact:
  assumes "list_all is_field fds" "20 \<le> length fds"
  shows "stat_parent (stat_line pid cmd fds) = parse_u32 (fds ! 1)"
    "stat_start (stat_line pid cmd fds) = parse_i64 (fds ! 19)"
proof -
  have line: "stat_line pid cmd fds = (show_nat pid @ '' ('' @ cmd) @ CHR 0x29 # CHR '' '' # join_with '' '' fds @ [nl]"
    by (simp add: stat_line_def)
  have "CHR 0x29 \<notin> set (join_with '' '' fds)" if "list_all is_field fds" for fds
    using that by (induction "'' ''" fds rule: join_with.induct) (auto simp: is_field_def list_all_iff)
  then have "after_last (CHR 0x29) (stat_line pid cmd fds) = Some (CHR '' '' # join_with '' '' fds @ [nl])"
    unfolding line using assms(1) by (intro after_last_append) (auto simp: nl_def)
  moreover have "split_whitespace (CHR '' '' # join_with '' '' fds @ [nl]) = fds"
    using split_ws_fields[OF assms(1)] by (simp add: split_ws_lead is_ws_def)
  ultimately have f: "k < 20 \<Longrightarrow> stat_field k (stat_line pid cmd fds) = Some (fds ! k)" for k
    using assms(2) by (simp add: stat_field_def)
  show "stat_parent (stat_line pid cmd fds) = parse_u32 (fds ! 1)" by (simp add: stat_parent_def f)
  show "stat_start (stat_line pid cmd fds) = parse_i64 (fds ! 19)" by (simp add: stat_start_def f)
qed

section \<open>Random ids\<close>

definition uuid_v4 :: "8 word list \<Rightarrow> str" where
  "uuid_v4 b =
     (let v = b[6 := or (and (b ! 6) 0x0F) 0x40, 8 := or (and (b ! 8) 0x3F) 0x80];
          hex = (\<lambda>i. hex_pad 2 (unat (v ! i)))
      in concat (map hex [0, 1, 2, 3]) @ ''-'' @ concat (map hex [4, 5]) @ ''-'' @ concat (map hex [6, 7]) @ ''-''
           @ concat (map hex [8, 9]) @ ''-'' @ concat (map hex [10, 11, 12, 13, 14, 15]))"

lemma hex_two: "hex_pad 2 n = [hex_digit (n div 16 mod 16), hex_digit (n mod 16)]"
  by (simp add: numeral_2_eq_2)

lemma nibble_chars: "hex_digit 4 = CHR ''4''" "hex_digit 8 = CHR ''8''" "hex_digit 9 = CHR ''9''" "hex_digit 10 = CHR ''a''" "hex_digit 11 = CHR ''b''"
  by code_simp+

lemma zero_bits: "bit (0 :: 8 word) n = False"
  by simp

lemma version_nibble: "unat (or (and b 0x0F) 0x40 :: 8 word) div 16 = 4"
proof -
  have m: "and b 0x0F = take_bit 4 b" by (simp add: take_bit_eq_mask mask_eq_exp_minus_1)
  have "0x40 = push_bit 6 (1 :: 8 word)" by simp
  then have "and (take_bit 4 b) 0x40 = (0 :: 8 word)" by (intro bit_eqI) (auto simp only: bit_simps bit_1_iff zero_bits)
  then have "or (take_bit 4 b) 0x40 = take_bit 4 b + (0x40 :: 8 word)" by (simp only: disjunctive_add_eq_or)
  moreover have l: "unat (take_bit 4 b) < 16" using take_bit_nat_less_exp[of 4 "unat b"] by (simp add: unsigned_take_bit_eq)
  ultimately show ?thesis using l by (simp add: m unat_word_ariths)
qed

lemma variant_nibble: "unat (or (and b 0x3F) 0x80 :: 8 word) div 16 \<in> {8, 9, 10, 11}"
proof -
  have m: "and b 0x3F = take_bit 6 b" by (simp add: take_bit_eq_mask mask_eq_exp_minus_1)
  have "0x80 = push_bit 7 (1 :: 8 word)" by simp
  then have "and (take_bit 6 b) 0x80 = (0 :: 8 word)" by (intro bit_eqI) (auto simp only: bit_simps bit_1_iff zero_bits)
  then have "or (take_bit 6 b) 0x80 = take_bit 6 b + (0x80 :: 8 word)" by (simp only: disjunctive_add_eq_or)
  moreover have l: "unat (take_bit 6 b) < 64" using take_bit_nat_less_exp[of 6 "unat b"] by (simp add: unsigned_take_bit_eq)
  ultimately have "unat (or (and b 0x3F) 0x80 :: 8 word) = unat (take_bit 6 b) + 128" by (simp add: m unat_word_ariths)
  then show ?thesis using l by auto
qed

text \<open>The text of an id has the shape of a version 4 UUID; so a listing shows its first characters, which
  are as random as any, and not its last as for an id in order of time.\<close>

theorem uuid_shape:
  assumes "length b = 16"
  shows "length (uuid_v4 b) = 36" "uuid_v4 b ! 14 = CHR ''4''" "uuid_v4 b ! 19 \<in> {CHR ''8'', CHR ''9'', CHR ''a'', CHR ''b''}"
    "\<forall>k\<in>{8, 13, 18, 23}. uuid_v4 b ! k = CHR ''-''"
proof -
  show "length (uuid_v4 b) = 36" "\<forall>k\<in>{8, 13, 18, 23}. uuid_v4 b ! k = CHR ''-''"
    by (simp_all add: uuid_v4_def hex_two Let_def)
  show "uuid_v4 b ! 14 = CHR ''4''" using assms version_nibble[of "b ! 6"]
    by (simp add: uuid_v4_def hex_two Let_def nibble_chars)
  show "uuid_v4 b ! 19 \<in> {CHR ''8'', CHR ''9'', CHR ''a'', CHR ''b''}" using assms variant_nibble[of "b ! 8"]
    by (auto simp: uuid_v4_def hex_two Let_def nibble_chars)
qed

section \<open>A Windows command line\<close>

text \<open>The loop of \<open>quote_arg\<close>, with the backslashes it has seen and not written, and the end of it.\<close>

fun quote_loop :: "nat \<Rightarrow> str \<Rightarrow> str" where
  "quote_loop n [] = replicate (n * 2) backslash @ [CHR 0x22]"
| "quote_loop n (c # s) = (if c = backslash then quote_loop (Suc n) s
     else if c = CHR 0x22 then replicate (n * 2 + 1) backslash @ [CHR 0x22] @ quote_loop 0 s
     else replicate n backslash @ [c] @ quote_loop 0 s)"

definition needs_quotes :: "str \<Rightarrow> bool" where
  "needs_quotes s \<longleftrightarrow> s = [] \<or> list_ex (\<lambda>c. c \<in> {CHR '' '', CHR 0x09, CHR 0x22}) s"

definition quote_arg :: "str \<Rightarrow> str" where
  "quote_arg s = (if needs_quotes s then [CHR 0x22] @ quote_loop 0 s else s)"

definition command_line :: "str \<Rightarrow> str list \<Rightarrow> str" where
  "command_line program args = quote_arg program @ concat (map (\<lambda>a. [CHR '' ''] @ quote_arg a) args)"

text \<open>How a process reads its line, after the documentation of \<open>CommandLineToArgvW\<close>: backslashes are literal
  unless a quote follows, where two stand for one and an odd one makes the quote literal; any other quote
  opens or closes a part in which blanks do not separate. \<open>inq\<close>: inside such a part; \<open>n\<close>: the backslashes
  that wait for what follows; \<open>cur\<close>: the argument so far. The program is read by the same rules; Windows knows no
  backslash rule for it, which differs only for a name with a quote, or with a blank and a backslash at its end.\<close>

fun read_line :: "bool \<Rightarrow> nat \<Rightarrow> str option \<Rightarrow> str \<Rightarrow> str list" where
  "read_line inq n cur [] = (case cur of None \<Rightarrow> [] | Some a \<Rightarrow> [a @ replicate n backslash])"
| "read_line inq n cur (c # s) = (let a = (case cur of Some a \<Rightarrow> a | None \<Rightarrow> []) in
     if c = backslash then read_line inq (Suc n) (Some a) s
     else if c = CHR 0x22 then (if even n then read_line (\<not> inq) 0 (Some (a @ replicate (n div 2) backslash)) s
       else read_line inq 0 (Some (a @ replicate (n div 2) backslash @ [c])) s)
     else if c \<in> {CHR '' '', CHR 0x09} \<and> \<not> inq
     then (case cur of None \<Rightarrow> read_line False 0 None s | Some _ \<Rightarrow> (a @ replicate n backslash) # read_line False 0 None s)
     else read_line inq 0 (Some (a @ replicate n backslash @ [c])) s)"

lemma read_slashes: "read_line inq m (Some a) (replicate k backslash @ s) = read_line inq (m + k) (Some a) s"
  by (induction k arbitrary: m) simp_all

lemma not_special: "backslash \<noteq> CHR 0x22" "backslash \<noteq> CHR '' ''" "backslash \<noteq> CHR 0x09"
  by (simp_all add: backslash_def)

lemma read_quoted: "read_line True 0 (Some a) (quote_loop n s @ t) = read_line False 0 (Some (a @ replicate n backslash @ s)) t"
proof (induction s arbitrary: n a)
  case Nil
  then show ?case using not_special by (simp add: read_slashes)
next
  case (Cons c s)
  consider "c = backslash" | "c = CHR 0x22" | "c \<noteq> backslash" "c \<noteq> CHR 0x22" by blast
  then show ?case
  proof cases
    case 1
    then show ?thesis using Cons.IH[of a "Suc n"] by (simp add: replicate_append_same[symmetric])
  next
    case 2
    then show ?thesis using Cons.IH[of "a @ replicate n backslash @ [CHR 0x22]" 0] not_special by (simp add: read_slashes)
  next
    case 3
    then show ?thesis using Cons.IH[of "a @ replicate n backslash @ [c]" 0] by (simp add: read_slashes)
  qed
qed

lemma read_plain: "list_all (\<lambda>c. c \<notin> {CHR '' '', CHR 0x09, CHR 0x22}) s \<Longrightarrow> t = [] \<or> hd t = CHR '' '' \<Longrightarrow>
    read_line False n (Some a) (s @ t) = (a @ replicate n backslash @ s) # read_line False 0 None t"
proof (induction s arbitrary: n a)
  case Nil
  then show ?case using not_special by (cases t) simp_all
next
  case (Cons c s)
  show ?case
  proof (cases "c = backslash")
    case True
    then show ?thesis using Cons.IH[of "Suc n" a] Cons.prems by (simp add: replicate_append_same[symmetric])
  next
    case False
    then show ?thesis using Cons.IH[of 0 "a @ replicate n backslash @ [c]"] Cons.prems by simp
  qed
qed

lemma read_arg: "t = [] \<or> hd t = CHR '' '' \<Longrightarrow> read_line False 0 None (quote_arg s @ t) = s # read_line False 0 None t"
proof (cases "needs_quotes s")
  case True
  assume t: "t = [] \<or> hd t = CHR '' ''"
  have "read_line False 0 None (quote_arg s @ t) = read_line False 0 (Some s) t"
    using True not_special read_quoted[of "[]" 0 s t] by (simp add: quote_arg_def)
  also have "\<dots> = s # read_line False 0 None t" using t read_plain[of "[]" t 0 s] by simp
  finally show ?thesis .
next
  case False
  assume t: "t = [] \<or> hd t = CHR '' ''"
  then obtain c s' where s: "s = c # s'" using False by (cases s) (simp_all add: needs_quotes_def)
  have l: "list_all (\<lambda>c. c \<notin> {CHR '' '', CHR 0x09, CHR 0x22}) (c # s')" using False by (auto simp: needs_quotes_def s list_all_iff list_ex_iff)
  then have "read_line False 0 None (c # s' @ t) = read_line False 0 (Some []) (c # s' @ t)" by (simp split: if_splits)
  also have "\<dots> = s # read_line False 0 None t" using read_plain[OF l t, of 0 "[]"] by (simp add: s)
  finally show ?thesis using False by (simp add: quote_arg_def s)
qed

text \<open>C27. The command line built for a process on Windows is read back, by the documented rules, as exactly the
  program and the arguments it was built from, whatever blanks, quotes and backslashes they have.\<close>

theorem command_line_roundtrip: "read_line False 0 None (command_line program args) = program # args"
proof -
  have "read_line False 0 None (concat (map (\<lambda>a. [CHR '' ''] @ quote_arg a) as)) = as" for as
  proof (induction as)
    case (Cons a as)
    have "concat (map (\<lambda>a. [CHR '' ''] @ quote_arg a) as) = [] \<or> hd (concat (map (\<lambda>a. [CHR '' ''] @ quote_arg a) as)) = CHR '' ''"
      by (cases as) simp_all
    from read_arg[OF this, of a] Cons.IH show ?case by (simp add: backslash_def)
  qed simp
  moreover have "concat (map (\<lambda>a. [CHR '' ''] @ quote_arg a) args) = [] \<or> hd (concat (map (\<lambda>a. [CHR '' ''] @ quote_arg a) args)) = CHR '' ''"
    by (cases args) simp_all
  ultimately show ?thesis unfolding command_line_def using read_arg by metis
qed

section \<open>The environment of a process on Windows\<close>

text \<open>The variables of \<open>spawn_with_handle_list\<close>: a map in the order of its names.\<close>

fun str_before :: "str \<Rightarrow> str \<Rightarrow> bool" where
  "str_before [] t \<longleftrightarrow> t \<noteq> []"
| "str_before (a # s) [] \<longleftrightarrow> False"
| "str_before (a # s) (b # t) \<longleftrightarrow> (of_char a :: nat) < of_char b \<or> a = b \<and> str_before s t"

fun env_put :: "str \<Rightarrow> str \<Rightarrow> (str \<times> str) list \<Rightarrow> (str \<times> str) list" where
  "env_put k v [] = [(k, v)]"
| "env_put k v ((k', v') # m) = (if k = k' then (k, v) # m
     else if str_before k k' then (k, v) # (k', v') # m else (k', v') # env_put k v m)"

definition env_change :: "str \<times> str option \<Rightarrow> (str \<times> str) list \<Rightarrow> (str \<times> str) list" where
  "env_change kv m = (case kv of (k, Some v) \<Rightarrow> env_put k v m | (k, None) \<Rightarrow> filter (\<lambda>e. fst e \<noteq> k) m)"

definition spawn_vars :: "(str \<times> str) list \<Rightarrow> (str \<times> str option) list \<Rightarrow> (str \<times> str) list" where
  "spawn_vars inherited overrides = fold env_change overrides (fold (\<lambda>(k, v). env_put k v) inherited [])"

definition env_entry :: "str \<times> str \<Rightarrow> str" where
  "env_entry kv = fst kv @ ''='' @ snd kv"

definition env_block :: "(str \<times> str) list \<Rightarrow> (str \<times> str option) list \<Rightarrow> str option" where
  "env_block inherited overrides = (if overrides = [] then None
     else Some (concat (map (\<lambda>kv. env_entry kv @ [CHR 0x00]) (spawn_vars inherited overrides)) @ [CHR 0x00]))"

text \<open>How a process reads its block: entries that end in a zero, up to an empty one.\<close>

function block_entries :: "str \<Rightarrow> str list" where
  "block_entries b = (let e = takeWhile (\<lambda>c. c \<noteq> CHR 0x00) b
     in if e = [] then [] else e # block_entries (drop (Suc (length e)) b))"
  by pat_completeness auto
termination by (relation "measure length") (auto simp: takeWhile_eq_Nil_iff)

declare block_entries.simps [simp del]

lemma env_put_map: "map_of (env_put k v m) = (map_of m)(k \<mapsto> v)"
  by (induction k v m rule: env_put.induct) (auto simp: fun_eq_iff)

lemma env_change_map: "map_of (env_change kv m) = (map_of m)(fst kv := snd kv)"
proof (cases kv)
  case (Pair k ov)
  have "map_of (filter (\<lambda>e. fst e \<noteq> k) m) = (map_of m)(k := None)"
    by (induction m) (auto simp: fun_eq_iff)
  then show ?thesis by (cases ov) (simp_all add: Pair env_change_def env_put_map)
qed

text \<open>A child has what it inherits, changed as it was asked.\<close>

lemma spawn_vars_map:
  "map_of (spawn_vars inherited overrides)
     = fold (\<lambda>kv f. f(fst kv := snd kv)) overrides (fold (\<lambda>kv f. f(fst kv \<mapsto> snd kv)) inherited Map.empty)"
proof -
  have "map_of (fold (\<lambda>(k, v). env_put k v) inherited m) = fold (\<lambda>kv f. f(fst kv \<mapsto> snd kv)) inherited (map_of m)" for m
    by (induction inherited arbitrary: m) (auto simp: env_put_map)
  moreover have "map_of (fold env_change overrides m) = fold (\<lambda>kv f. f(fst kv := snd kv)) overrides (map_of m)" for m
    by (induction overrides arbitrary: m) (simp_all add: env_change_map)
  ultimately show ?thesis by (simp add: spawn_vars_def)
qed

lemma block_exact:
  assumes "\<forall>kv\<in>set vars. CHR 0x00 \<notin> set (env_entry kv)"
  shows "block_entries (concat (map (\<lambda>kv. env_entry kv @ [CHR 0x00]) vars) @ [CHR 0x00]) = map env_entry vars"
  using assms
proof (induction vars)
  case Nil
  then show ?case by (subst block_entries.simps) simp
next
  case (Cons kv vars)
  have "takeWhile (\<lambda>c. c \<noteq> CHR 0x00) (env_entry kv @ CHR 0x00 # b) = env_entry kv" for b
    using Cons.prems by (subst takeWhile_append2) auto
  moreover have "env_entry kv \<noteq> []" by (simp add: env_entry_def)
  ultimately show ?case using Cons by (subst block_entries.simps) (simp add: Let_def)
qed

text \<open>Names that differ in their case alone are two variables here, though the platform takes them for one.\<close>

lemma env_two_spellings: "spawn_vars [(''Path'', ''a'')] [(''PATH'', Some ''b'')] = [(''PATH'', ''b''), (''Path'', ''a'')]"
  by code_simp

section \<open>Start tokens and homes of the other platforms\<close>

definition windows_token :: "32 word \<Rightarrow> 32 word \<Rightarrow> 64 word" where
  "windows_token high low = or (push_bit 32 (ucast high)) (ucast low)"

definition mac_token :: "64 word \<Rightarrow> 64 word \<Rightarrow> 64 word" where
  "mac_token sec usec = sec * 1000000 + usec"

definition home_dir_windows :: "(str \<Rightarrow> str option) \<Rightarrow> str option" where
  "home_dir_windows var =
     (let set_var = (\<lambda>k. case var k of Some v \<Rightarrow> if v \<noteq> [] then Some v else None | None \<Rightarrow> None)
      in case set_var ''USERPROFILE'' of Some p \<Rightarrow> Some p
         | None \<Rightarrow> (case (set_var ''HOMEDRIVE'', set_var ''HOMEPATH'') of
             (Some d, Some p) \<Rightarrow> Some (d @ p) | _ \<Rightarrow> set_var ''HOME''))"

definition simplify_windows :: "str \<Rightarrow> str" where
  "simplify_windows p =
     (let verbatim = [backslash, backslash, CHR ''?'', backslash]; unc = verbatim @ ''UNC'' @ [backslash]
      in if starts_with p unc then [backslash, backslash] @ drop (length unc) p
         else if starts_with p verbatim then drop (length verbatim) p else p)"

lemma windows_token_bit: "bit (windows_token high low) n \<longleftrightarrow> (if n < 32 then bit low n else bit high (n - 32))"
  by (auto simp: windows_token_def bit_simps dest: bit_imp_le_length)

text \<open>The tokens of two moments are equal only if the moments are.\<close>

lemma windows_token_inj:
  assumes "windows_token h l = windows_token h' l'"
  shows "h = h' \<and> l = l'"
proof -
  have same: "bit (windows_token h l) n = bit (windows_token h' l') n" for n using assms by simp
  show ?thesis
  proof (intro conjI bit_word_eqI)
    show "bit h n = bit h' n" for n using same[of "n + 32"] by (simp add: windows_token_bit)
    show "n < LENGTH(32) \<Longrightarrow> bit l n = bit l' n" for n using same[of n] by (simp add: windows_token_bit)
  qed
qed

lemma simplify_windows_examples:
  "simplify_windows ([backslash, backslash, CHR ''?'', backslash] @ ''C:'') = ''C:''"
  "simplify_windows ([backslash, backslash, CHR ''?'', backslash] @ ''UNC'' @ [backslash] @ ''srv'') = [backslash, backslash] @ ''srv''"
  "simplify_windows ''C:'' = ''C:''"
  by code_simp+

section \<open>The end-runner of the daemon\<close>

definition cli_binary :: "fsys \<Rightarrow> path option \<Rightarrow> path" where
  "cli_binary fs exe = (case fs_env fs ''AUTOFORK_FINAL_RUNNER_BIN'' of Some over \<Rightarrow> over
     | None \<Rightarrow> (case Option.bind exe path_parent of
         Some dir \<Rightarrow> if fs_is_file fs (path_join dir ''autofork'') then path_join dir ''autofork'' else ''autofork''
       | None \<Rightarrow> ''autofork''))"

definition end_launch :: "fsys \<Rightarrow> path option \<Rightarrow> path \<Rightarrow> end_run \<Rightarrow> launch" where
  "end_launch fs exe specs_path er = \<lparr>ln_program = cli_binary fs exe,
     ln_args = [''final-run'', ''--client'', er_client er, ''--session'', er_session_id er, ''--resume-target'', er_resume_target er,
         ''--cwd'', er_cwd er, ''--specs'', specs_path]
       @ (case er_model er of Some m \<Rightarrow> [''--model'', m] | None \<Rightarrow> []) @ (case er_bin er of Some b \<Rightarrow> [''--bin'', b] | None \<Rightarrow> []),
     ln_dir = None, ln_env = (case er_env er of Some re \<Rightarrow> re_vars re | None \<Rightarrow> []), ln_timeout = None\<rparr>"

definition end_env :: "end_run \<Rightarrow> getenv \<Rightarrow> getenv" where
  "end_env er inherited = (case er_env er of Some re \<Rightarrow> apply_env re inherited | None \<Rightarrow> inherited)"

text \<open>The daemon starts the end-runner with the arguments the hook of the session would have given it.\<close>

lemma end_launch_mirrors:
  "ln_args (end_launch fs exe specs_path (end_run_of d row specs))
     = ln_args (final_launch bin specs_path \<lparr>fa_client = (case s_client row of Some c \<Rightarrow> c | None \<Rightarrow> ''claude-code''),
         fa_session_id = s_session_id row, fa_resume_target = conversation_id row, fa_cwd = s_cwd row,
         fa_model = s_model row, fa_permission_mode = None, fa_bin = Option.bind (s_harness row) hp_bin\<rparr>)"
  by (simp add: end_launch_def final_launch_def end_run_of_def)

end
