(* ===== verification/Codex_Laws.thy ===== *)
theory Codex_Laws
  imports Codex_Run Runner_Laws
begin

text \<open>
  What a run on codex guarantees: how a guarded run is confined, which frames an attempt sends, and what a
  run that never registered leaves behind.
\<close>

section \<open>TOML strings\<close>

text \<open>A reader of TOML basic strings, after the opening quote, and of arrays of them. Of the \<open>\\u\<close> escapes it
  knows those below 128.\<close>

definition hex_value :: "char \<Rightarrow> nat option" where
  "hex_value c = (let n = of_char c :: nat in if 48 \<le> n \<and> n < 58 then Some (n - 48) else if 65 \<le> n \<and> n < 71 then Some (n - 55) else None)"

fun toml_hex :: "str \<Rightarrow> (char \<times> str) option" where
  "toml_hex (z # y # a # b # r) = (if z = CHR ''0'' \<and> y = CHR ''0''
     then (case (hex_value a, hex_value b) of (Some m, Some n) \<Rightarrow> if m < 8 then Some (char_of (16 * m + n), r) else None | _ \<Rightarrow> None)
     else None)"
| "toml_hex _ = None"

fun toml_escape :: "str \<Rightarrow> (char \<times> str) option" where
  "toml_escape (c # r) = (if c = CHR ''u'' then toml_hex r else if c = backslash then Some (backslash, r)
     else if c = CHR 0x22 then Some (c, r) else if c = CHR ''n'' then Some (nl, r)
     else if c = CHR ''r'' then Some (CHR 0x0D, r) else if c = CHR ''t'' then Some (CHR 0x09, r) else None)"
| "toml_escape [] = None"

lemma toml_hex_shorter: "toml_hex s = Some (c, r) \<Longrightarrow> length r < length s"
  by (induction s rule: toml_hex.induct) (auto split: option.splits if_splits)

lemma toml_escape_shorter: "toml_escape s = Some (c, r) \<Longrightarrow> length r < length s"
  by (cases s) (auto split: if_splits dest: toml_hex_shorter)

function toml_body :: "str \<Rightarrow> (str \<times> str) option" where
  "toml_body s = (case s of [] \<Rightarrow> None
     | c # r \<Rightarrow> if c = CHR 0x22 then Some ([], r)
        else if c = backslash then (case toml_escape r of None \<Rightarrow> None
            | Some (x, r1) \<Rightarrow> map_option (\<lambda>(t, r2). (x # t, r2)) (toml_body r1))
        else if (of_char c :: nat) < 0x20 \<or> (of_char c :: nat) = 0x7F then None
        else map_option (\<lambda>(t, r2). (c # t, r2)) (toml_body r))"
  by pat_completeness auto
termination by (relation "measure length") (auto dest: toml_escape_shorter)

declare toml_body.simps [simp del]

definition toml_read :: "str \<Rightarrow> (str \<times> str) option" where
  "toml_read s = (case s of c # r \<Rightarrow> if c = CHR 0x22 then toml_body r else None | [] \<Rightarrow> None)"

lemma hex_upper_value: "n < 16 \<Longrightarrow> hex_value (hex_upper n) = Some n"
  by (auto simp: hex_upper_def hex_value_def)

lemma toml_escaped:
  assumes "(of_char c :: nat) < 0x20 \<or> (of_char c :: nat) = 0x7F"
  shows "toml_escape (CHR ''u'' # CHR ''0'' # CHR ''0'' # hex_upper (of_char c div 16) # hex_upper (of_char c mod 16) # r) = Some (c, r)"
proof -
  have "(of_char c :: nat) div 16 < 8" using assms by auto
  moreover have "16 * ((of_char c :: nat) div 16) + of_char c mod 16 = of_char c" by simp
  ultimately show ?thesis by (simp add: hex_upper_value)
qed

lemma toml_body_quote: "toml_body (CHR 0x22 # r) = Some ([], r)"
  by (subst toml_body.simps) simp

lemma toml_body_escape: "toml_body (backslash # r) = (case toml_escape r of None \<Rightarrow> None
    | Some (x, r1) \<Rightarrow> map_option (\<lambda>(t, r2). (x # t, r2)) (toml_body r1))"
  by (subst toml_body.simps) (simp add: backslash_def)

lemma toml_body_plain: "c \<noteq> CHR 0x22 \<Longrightarrow> c \<noteq> backslash \<Longrightarrow> \<not> ((of_char c :: nat) < 0x20 \<or> (of_char c :: nat) = 0x7F) \<Longrightarrow>
    toml_body (c # r) = map_option (\<lambda>(t, r2). (c # t, r2)) (toml_body r)"
  by (subst toml_body.simps) (simp only: list.case if_False de_Morgan_disj simp_thms)

lemma escapes: "toml_escape (backslash # r) = Some (backslash, r)" "toml_escape (CHR 0x22 # r) = Some (CHR 0x22, r)"
  "toml_escape (CHR ''n'' # r) = Some (nl, r)" "toml_escape (CHR ''r'' # r) = Some (CHR 0x0D, r)"
  "toml_escape (CHR ''t'' # r) = Some (CHR 0x09, r)"
  by (simp_all add: backslash_def)

lemma toml_body_char: "toml_body (toml_char c @ r) = map_option (\<lambda>(t, r2). (c # t, r2)) (toml_body r)"
proof -
  let ?low = "(of_char c :: nat) < 0x20 \<or> (of_char c :: nat) = 0x7F"
  consider "c = backslash" | "c = CHR 0x22" "c \<noteq> backslash" | "c = nl" "c \<noteq> backslash" "c \<noteq> CHR 0x22"
    | "c = CHR 0x0D" "c \<noteq> backslash" "c \<noteq> CHR 0x22" "c \<noteq> nl" | "c = CHR 0x09" "c \<noteq> backslash" "c \<noteq> CHR 0x22" "c \<noteq> nl" "c \<noteq> CHR 0x0D"
    | "c \<noteq> backslash" "c \<noteq> CHR 0x22" "c \<noteq> nl" "c \<noteq> CHR 0x0D" "c \<noteq> CHR 0x09" by blast
  then show ?thesis
  proof cases
    case 6
    show ?thesis
    proof (cases ?low)
      case True
      then have "toml_char c = backslash # CHR ''u'' # CHR ''0'' # CHR ''0'' # hex_upper (of_char c div 16) # hex_upper (of_char c mod 16) # []"
        using 6 by (simp only: toml_char_def Let_def if_False if_True simp_thms)
      then show ?thesis by (simp only: append_Cons append_Nil toml_body_escape toml_escaped[OF True]) simp
    next
      case False
      then have "toml_char c = [c]" using 6 by (simp only: toml_char_def Let_def if_False simp_thms)
      then show ?thesis using toml_body_plain[OF 6(2,1) False] by simp
    qed
  qed (simp_all only: toml_char_def if_True if_False simp_thms append_Cons append_Nil toml_body_escape escapes, simp_all)
qed

lemma toml_body_string: "toml_body (concat (map toml_char s) @ CHR 0x22 # r) = Some (s, r)"
proof (induction s)
  case Nil
  show ?case by (simp add: toml_body_quote)
next
  case (Cons c s)
  then show ?case by (simp add: toml_body_char)
qed

lemma toml_read_string: "toml_read (toml_string s @ r) = Some (s, r)"
  using toml_body_string[of s r] by (simp add: toml_read_def toml_string_def)

primrec toml_items :: "nat \<Rightarrow> str \<Rightarrow> str list option" where
  "toml_items 0 s = None"
| "toml_items (Suc n) s = (case toml_read s of None \<Rightarrow> None
     | Some (x, r) \<Rightarrow> if r = '']'' then Some [x] else if take 1 r = '','' then map_option (Cons x) (toml_items n (drop 1 r)) else None)"

definition toml_array :: "str \<Rightarrow> str list option" where
  "toml_array s = (if s = ''[]'' then Some [] else if take 1 s = ''['' then toml_items (length s) (drop 1 s) else None)"

lemma toml_items_read: "ws \<noteq> [] \<Longrightarrow> length ws \<le> n \<Longrightarrow> toml_items n (join_with '','' (map toml_string ws) @ '']'') = Some ws"
proof (induction ws arbitrary: n)
  case (Cons w ws)
  then obtain n' where n: "n = Suc n'" by (cases n) auto
  show ?case
  proof (cases "ws = []")
    case False
    then show ?thesis using Cons by (simp add: n join_with_Cons toml_read_string)
  qed (simp add: n toml_read_string)
qed simp

lemma joined_length: "length ws \<le> Suc (length (join_with '','' (map toml_string ws)))"
proof (induction ws)
  case (Cons w ws)
  then show ?case by (cases "ws = []") (auto simp: join_with_Cons toml_string_def)
qed simp

lemma toml_array_read: "toml_array (''['' @ join_with '','' (map toml_string ws) @ '']'') = Some ws"
proof (cases "ws = []")
  case False
  have "join_with '','' (map toml_string ws) @ '']'' \<noteq> '']''"
    using False by (cases ws) (auto simp: toml_string_def neq_Nil_conv join_with_Cons intro: list.exhaust[of "tl ws"])
  with False show ?thesis using toml_items_read[OF False, of "Suc (Suc (length (join_with '','' (map toml_string ws))))"] joined_length[of ws]
    by (simp add: toml_array_def del: toml_items.simps)
qed (simp add: toml_array_def)

section \<open>A guarded run is confined\<close>

text \<open>The values of the \<open>-c\<close> overrides among the arguments.\<close>

fun overrides :: "str list \<Rightarrow> str list" where
  "overrides (a # v # rest) = (if a = ''-c'' then v # overrides rest else overrides (v # rest))"
| "overrides _ = []"

text \<open>C17. A guarded run on codex never bypasses the sandbox. It may not write at all if the guard names
  nothing to write or no tool; otherwise the writable roots that codex reads from its arguments are the
  guard's write set, and the network is on only if the guard grants it. It starts in a directory of the
  write set, or, if that has none, in a scratch or temporary directory, never in the parent's project.\<close>

theorem guarded_codex_confined:
  fixes g :: guard
  defines "sb \<equiv> guard_sandbox g"
  assumes "wf_guard spec = Some g"
    and "attempt_run rh cw base session rollout cwd parent_model parent_mode spec prompt candidate = (ln, frames, outcome)"
  shows "(\<exists>dir rest. ln_args ln = [''exec'', ''--skip-git-repo-check'', ''--json'', ''-C'', dir] @ sb @ rest
      \<and> (dir \<in> set (g_write g) \<and> fs_is_dir (rh_fs rh) dir
         \<or> (\<forall>w\<in>set (g_write g). \<not> fs_is_dir (rh_fs rh) w) \<and> dir \<in> {scratch_dir base cw, cw_temp_dir cw}))
    \<and> BYPASS \<notin> set sb
    \<and> take 2 sb = [''--sandbox'', if g_write g = [] \<or> g_tools g = Some [] then ''read-only'' else ''workspace-write'']
    \<and> (g_write g \<noteq> [] \<and> g_tools g \<noteq> Some [] \<longrightarrow>
        (\<exists>v. hd (overrides sb) = ''sandbox_workspace_write.writable_roots='' @ v \<and> toml_array v = Some (g_write g))
        \<and> (''sandbox_workspace_write.network_access=true'' \<in> set (overrides sb) \<longleftrightarrow> g_network g))
    \<and> (''mcp_servers={}'' \<in> set (overrides sb) \<longleftrightarrow> \<not> allows_family g TMcp)"
proof (intro conjI)
  have ln: "ln = codex_launch rh session (fst (guard_cwd rh cw base g)) spec prompt sb
      (case candidate of Some m \<Rightarrow> Some m | None \<Rightarrow> parent_model) (copy_home_of rh cw base session rollout parent_model candidate)"
    using assms(2,3) by (auto simp: attempt_run_def attempt_dir_def attempt_sandbox_def sb_def Let_def split: codex_child.splits prod.splits)
  have dir: "fst (guard_cwd rh cw base g) \<in> set (g_write g) \<and> fs_is_dir (rh_fs rh) (fst (guard_cwd rh cw base g))
      \<or> (\<forall>w\<in>set (g_write g). \<not> fs_is_dir (rh_fs rh) w) \<and> fst (guard_cwd rh cw base g) \<in> {scratch_dir base cw, cw_temp_dir cw}"
    (is "?dir")
  proof (cases "find (fs_is_dir (rh_fs rh)) (g_write g)")
    case None
    then have "\<forall>w\<in>set (g_write g). \<not> fs_is_dir (rh_fs rh) w" by (simp add: find_None_iff)
    with None show ?dir by (simp add: guard_cwd_def)
  next
    case (Some w)
    then have "w \<in> set (g_write g) \<and> fs_is_dir (rh_fs rh) w" by (auto simp: find_Some_iff)
    with Some show ?dir by (simp add: guard_cwd_def)
  qed
  then show "\<exists>dir rest. ln_args ln = [''exec'', ''--skip-git-repo-check'', ''--json'', ''-C'', dir] @ sb @ rest
      \<and> (dir \<in> set (g_write g) \<and> fs_is_dir (rh_fs rh) dir
         \<or> (\<forall>w\<in>set (g_write g). \<not> fs_is_dir (rh_fs rh) w) \<and> dir \<in> {scratch_dir base cw, cw_temp_dir cw})"
    by (intro exI[of _ "fst (guard_cwd rh cw base g)"]) (simp add: ln codex_launch_def)
  let ?roots = "''sandbox_workspace_write.writable_roots=['' @ join_with '','' (map toml_string (g_write g)) @ '']''"
  let ?net = "''sandbox_workspace_write.network_access='' @ (if g_network g then ''true'' else ''false'')"
  let ?read = "g_write g = [] \<or> g_tools g = Some []"
  have sb: "sb = (if ?read then [''--sandbox'', ''read-only''] else [''--sandbox'', ''workspace-write'', ''-c'', ?roots, ''-c'', ?net])
      @ (if allows_family g TMcp then [] else [''-c'', ''mcp_servers={}''])"
    by (simp only: sb_def guard_sandbox_def guard_mcp_args_def) simp
  have over: "overrides sb = (if ?read then [] else [?roots, ?net]) @ (if allows_family g TMcp then [] else [''mcp_servers={}''])"
    unfolding sb by simp
  show "BYPASS \<notin> set sb" unfolding sb BYPASS_def by simp
  show "take 2 sb = [''--sandbox'', if ?read then ''read-only'' else ''workspace-write'']" unfolding sb by (simp add: numeral_2_eq_2)
  show "g_write g \<noteq> [] \<and> g_tools g \<noteq> Some [] \<longrightarrow>
        (\<exists>v. hd (overrides sb) = ''sandbox_workspace_write.writable_roots='' @ v \<and> toml_array v = Some (g_write g))
        \<and> (''sandbox_workspace_write.network_access=true'' \<in> set (overrides sb) \<longleftrightarrow> g_network g)"
    unfolding over using toml_array_read[of "g_write g"] by auto
  show "''mcp_servers={}'' \<in> set (overrides sb) \<longleftrightarrow> \<not> allows_family g TMcp" unfolding over by simp
qed

definition docs_guard :: guard where
  "docs_guard = guard_default\<lparr>g_write := [''/p/docs'']\<rparr>"

definition still_world :: codex_world where
  "still_world = \<lparr>cw_dir_uuid = ''1'', cw_copy_uuid = ''2'', cw_home_uuid = ''3'', cw_mkdir = (\<lambda>_. True), cw_copy_file = (\<lambda>_ _. True),
     cw_link = (\<lambda>_ _. True), cw_temp_dir = ''/tmp'', cw_child = (\<lambda>_. CxNoSpawn)\<rparr>"

theorem guarded_codex_confined_witness:
  "take 2 (guard_sandbox docs_guard) = [''--sandbox'', ''workspace-write'']
   \<and> BYPASS \<notin> set (guard_sandbox docs_guard)"
proof -
  obtain ln frames outcome where a: "attempt_run no_claude still_world ''/b'' ''s'' None ''/p'' None (Some ''bypassPermissions'')
      (plain_fork\<lparr>wf_guard := Some docs_guard\<rparr>) ''go'' None = (ln, frames, outcome)"
    by (metis prod_cases3)
  have "wf_guard (plain_fork\<lparr>wf_guard := Some docs_guard\<rparr>) = Some docs_guard" by simp
  from guarded_codex_confined[OF this a] show ?thesis by (simp add: docs_guard_def guard_default_def)
qed

section \<open>What an attempt tells the daemon\<close>

lemma stream_event_thread:
  "stream_event own copied v sm = (sm', ids) \<Longrightarrow> sm_thread sm' = (if ids = [] then sm_thread sm else Some (last ids))
    \<and> (copied \<longrightarrow> ids = []) \<and> own \<notin> set ids"
  by (auto simp: stream_event_def Let_def split: option.splits if_splits)

lemma read_stream_thread:
  "read_stream parse own copied items sm = (sm', ids) \<Longrightarrow> sm_thread sm' = (if ids = [] then sm_thread sm else Some (last ids))
    \<and> (copied \<longrightarrow> ids = []) \<and> own \<notin> set ids"
proof (induction parse own copied items sm arbitrary: sm' ids rule: read_stream.induct)
  case (4 parse own copied l rest sm)
  show ?case
  proof (cases "parse l")
    case None
    then show ?thesis using 4 by simp
  next
    case (Some v)
    obtain sm1 ids1 where e: "stream_event own copied v sm = (sm1, ids1)" by force
    obtain sm2 ids2 where r: "read_stream parse own copied rest sm1 = (sm2, ids2)" by force
    have "sm' = sm2" "ids = ids1 @ ids2" using 4(3) Some e r by auto
    then show ?thesis using stream_event_thread[OF e] 4(2)[OF Some e[symmetric] r] by auto
  qed
qed auto

text \<open>The frames of one attempt: it registers some references, and settles the last of them.\<close>

definition attempt_settled :: "str \<Rightarrow> str \<Rightarrow> request list \<Rightarrow> bool" where
  "attempt_settled session name frames \<longleftrightarrow> (\<exists>refs status cont. session \<notin> set refs
     \<and> frames = map (ForkSpawned session name) refs @ [ForkCompleted session name (if refs = [] then ''unknown'' else last refs) status cont])"

lemma attempt_settles:
  assumes "session \<noteq> ''copy:'' @ cw_copy_uuid cw"
    and "attempt_run rh cw base session rollout cwd parent_model parent_mode spec prompt candidate = (ln, frames, outcome)"
  shows "attempt_settled session (wf_name spec) frames"
proof -
  define copy_home where "copy_home = copy_home_of rh cw base session rollout parent_model candidate"
  show ?thesis
  proof (cases "cw_child cw (codex_launch rh session (attempt_dir rh cw base cwd spec) spec prompt (attempt_sandbox spec parent_mode)
      (case candidate of Some m \<Rightarrow> Some m | None \<Rightarrow> parent_model) copy_home)")
    case CxNoSpawn
    then show ?thesis using assms
      by (intro attempt_settled_def[THEN iffD2] exI[of _ "case copy_home of None \<Rightarrow> [] | Some _ \<Rightarrow> [''copy:'' @ cw_copy_uuid cw]"])
        (auto simp: attempt_run_def Let_def copy_home_def[symmetric] send_fork_frame_def split: option.splits)
  next
    case (CxStream items ok)
    obtain sm ids where r: "read_stream (rh_parse rh) session (copy_home \<noteq> None) items stream_new = (sm, ids)" by force
    note t = read_stream_thread[OF r]
    show ?thesis using assms t CxStream r
      by (intro attempt_settled_def[THEN iffD2] exI[of _ "case copy_home of None \<Rightarrow> ids | Some _ \<Rightarrow> [''copy:'' @ cw_copy_uuid cw]"])
        (auto simp: attempt_run_def Let_def copy_home_def[symmetric] send_fork_frame_def stream_new_def split: option.splits)
  qed
qed

lemma execute_candidates_settle:
  assumes "\<And>i m ln frames outcome. attempt i m = (ln, frames, outcome) \<Longrightarrow> attempt_settled session name frames"
    and "ms \<noteq> []"
  shows "\<exists>lns parts outcome. execute_candidates attempt i ms = Some (lns, concat parts, outcome)
    \<and> length parts = length lns \<and> list_all (attempt_settled session name) parts"
  using assms(2)
proof (induction ms arbitrary: i)
  case (Cons m ms)
  obtain ln frames outcome where a: "attempt i m = (ln, frames, outcome)" by (cases "attempt i m")
  note here = assms(1)[OF a]
  show ?case
  proof (cases "ro_status outcome = ''completed'' \<or> ms = []")
    case True
    with a here show ?thesis by (intro exI[of _ "[ln]"] exI[of _ "[frames]"] exI[of _ outcome]) auto
  next
    case False
    then obtain lns parts final where "execute_candidates attempt (Suc i) ms = Some (lns, concat parts, final)"
      "length parts = length lns" "list_all (attempt_settled session name) parts" using Cons.IH[of "Suc i"] by auto
    with a here False show ?thesis by (intro exI[of _ "ln # lns"] exI[of _ "frames # parts"] exI[of _ final]) auto
  qed
qed simp

lemma model_candidates_some: "model_candidates spec \<noteq> []"
  by (simp add: model_candidates_def split: option.split)

text \<open>A run on codex always ends, and each attempt it makes settles with the daemon: it registers its
  references and completes the last of them, exactly once, or completes under no reference if it never
  had one. The parent's own session is never registered as a fork run.\<close>

theorem codex_run_settles:
  assumes "\<And>i. session \<noteq> ''copy:'' @ cw_copy_uuid (cws i)"
  shows "\<exists>lns parts outcome. execute_run rh cws base session rollout cwd parent_model parent_mode spec prompt = Some (lns, concat parts, outcome)
    \<and> length parts = length lns \<and> list_all (attempt_settled session (wf_name spec)) parts"
  unfolding execute_run_def
  by (rule execute_candidates_settle[OF _ model_candidates_some]) (rule attempt_settles[OF assms])

theorem codex_run_settles_witness:
  "\<exists>lns parts outcome. execute_run no_claude (\<lambda>_. still_world) ''/b'' ''s'' None ''/p'' None None plain_fork ''go'' = Some (lns, concat parts, outcome)
    \<and> length parts = length lns"
  using codex_run_settles[of "''s''" "\<lambda>_. still_world" no_claude "''/b''" None "''/p''" None None plain_fork "''go''"] by auto

text \<open>C39. A run that fails before it has a reference - codex does not start, or ends before it names its
  thread - completes under a reference the daemon does not know, and the completion changes nothing in
  the store: the gate the fork holds stays, and the forks that wait for it stay held.\<close>

theorem failed_start_unnoticed:
  assumes "attempt_run rh cw base session rollout cwd parent_model parent_mode spec prompt candidate = (ln, frames, outcome)"
    and "ro_copy_home outcome = None" and "ro_fork_thread outcome = None"
    and "\<not> is_fork_spawn (dm_store d) session (Some ''unknown'') None" and "map snd served = frames"
  shows "frames = [ForkCompleted session (wf_name spec) ''unknown'' (ro_status outcome) (if ro_cont outcome then Some True else None)]
    \<and> dm_store (serve served d) = dm_store d"
proof -
  define copy_home where "copy_home = copy_home_of rh cw base session rollout parent_model candidate"
  have frames: "frames = [ForkCompleted session (wf_name spec) ''unknown'' (ro_status outcome) (if ro_cont outcome then Some True else None)]"
  proof (cases "cw_child cw (codex_launch rh session (attempt_dir rh cw base cwd spec) spec prompt (attempt_sandbox spec parent_mode)
      (case candidate of Some m \<Rightarrow> Some m | None \<Rightarrow> parent_model) copy_home)")
    case CxNoSpawn
    then show ?thesis using assms(1,2) by (auto simp: attempt_run_def Let_def copy_home_def[symmetric] send_fork_frame_def)
  next
    case (CxStream items ok)
    obtain sm ids where r: "read_stream (rh_parse rh) session (copy_home \<noteq> None) items stream_new = (sm, ids)" by force
    then show ?thesis using assms(1-3) CxStream read_stream_thread[OF r]
      by (auto simp: attempt_run_def Let_def copy_home_def[symmetric] send_fork_frame_def stream_new_def finish_stream_def split: if_splits)
  qed
  then obtain w where "served = [(w, ForkCompleted session (wf_name spec) ''unknown'' (ro_status outcome) (if ro_cont outcome then Some True else None))]"
    using assms(5) by auto
  moreover have "dm_store (touch_busy w d) = dm_store d" for w d by (simp add: touch_busy_def)
  moreover have "dm_store (cancel_wait session d) = dm_store d" "dm_store (nudge session d) = dm_store d" for d
    by (simp_all add: cancel_wait_def nudge_def split: option.split)
  ultimately show ?thesis using assms(4) frames
    by (simp add: acked_def handle_fork_completed_def Let_def mark_spawn_terminal_def)
qed

theorem failed_start_unnoticed_witness:
  "\<exists>frames. fst (snd (attempt_run no_claude still_world ''/b'' ''s'' None ''/p'' None None plain_fork ''go'' None)) = frames
    \<and> dm_store (serve (map (Pair (bare_world 9)) frames) bare_daemon) = dm_store bare_daemon"
proof -
  have a: "attempt_run no_claude still_world ''/b'' ''s'' None ''/p'' None None plain_fork ''go'' None =
    (fst (attempt_run no_claude still_world ''/b'' ''s'' None ''/p'' None None plain_fork ''go'' None),
     fst (snd (attempt_run no_claude still_world ''/b'' ''s'' None ''/p'' None None plain_fork ''go'' None)),
     snd (snd (attempt_run no_claude still_world ''/b'' ''s'' None ''/p'' None None plain_fork ''go'' None)))" by simp
  have copy: "ro_copy_home (snd (snd (attempt_run no_claude still_world ''/b'' ''s'' None ''/p'' None None plain_fork ''go'' None))) = None"
    and thread: "ro_fork_thread (snd (snd (attempt_run no_claude still_world ''/b'' ''s'' None ''/p'' None None plain_fork ''go'' None))) = None"
    by (simp_all add: attempt_run_def still_world_def copy_home_of_def Let_def)
  have new: "\<not> is_fork_spawn (dm_store bare_daemon) ''s'' (Some ''unknown'') None"
    by (simp add: bare_daemon_def daemon_new_def) code_simp
  have sent: "map snd (map (Pair (bare_world 9)) frames) = frames" for frames :: "request list" by (simp add: comp_def)
  show ?thesis using failed_start_unnoticed[OF a copy thread new sent] by blast
qed

end
