(* ===== verification/Final_Run.thy ===== *)
theory Final_Run
  imports Codex_Laws Client_Hooks
begin

text \<open>
  \<open>autofork final-run\<close>: the batch of forks that a closed session still owes, run one after the other by a
  detached process (\<open>run_final\<close> of \<open>autofork/src/runner.rs\<close>), for each of the three harnesses.
\<close>

section \<open>A run of opencode\<close>

text \<open>\<open>String::from_utf8_lossy\<close>: each maximal ill-formed part becomes the replacement character.\<close>

definition bad_part :: "str \<Rightarrow> nat" where
  "bad_part s = (let a = hd s; b = hd (tl s); c = hd (tl (tl s)); n = length s;
       second = (if byte_in 0xE0 0xE0 a then byte_in 0xA0 0xBF b else if byte_in 0xED 0xED a then byte_in 0x80 0x9F b
         else if byte_in 0xF0 0xF0 a then byte_in 0x90 0xBF b else if byte_in 0xF4 0xF4 a then byte_in 0x80 0x8F b
         else byte_in 0x80 0xBF b)
     in if n > 1 \<and> byte_in 0xE0 0xF4 a \<and> second then (if n > 2 \<and> byte_in 0xF0 0xF4 a \<and> byte_in 0x80 0xBF c then 3 else 2) else 1)"

function lossy :: "str \<Rightarrow> str" where
  "lossy s = (if s = [] then [] else case utf8_tail s of
     Some r \<Rightarrow> take (length s - length r) s @ lossy r
   | None \<Rightarrow> [CHR 0xEF, CHR 0xBF, CHR 0xBD] @ lossy (drop (max 1 (bad_part s)) s))"
  by pat_completeness auto
termination by (relation "measure length") (auto dest: utf8_tail_shorter)

declare lossy.simps [simp del]

definition opencode_run_args :: "str \<Rightarrow> str option \<Rightarrow> str option \<Rightarrow> str list" where
  "opencode_run_args session_id model mode = [''run'', ''-s'', session_id, ''--fork'']
     @ (case model of Some m \<Rightarrow> [''-m'', m] | None \<Rightarrow> []) @ (case mode of Some a \<Rightarrow> [''--agent'', a] | None \<Rightarrow> []) @ [''--auto'']"

definition opencode_bin :: "run_host \<Rightarrow> str" where
  "opencode_bin rh = (case utf8_var (rh_fs rh) ''AUTOFORK_OPENCODE_BIN'' of Some b \<Rightarrow> b
     | None \<Rightarrow> (case rh_harness_bin rh of Some b \<Rightarrow> b | None \<Rightarrow> ''opencode''))"

definition opencode_launch :: "run_host \<Rightarrow> str \<Rightarrow> path \<Rightarrow> wake_fork \<Rightarrow> str \<Rightarrow> str option \<Rightarrow> launch" where
  "opencode_launch rh session_id cwd spec prompt model = \<lparr>ln_program = opencode_bin rh,
     ln_args = opencode_run_args session_id model (wf_mode spec) @ [prompt], ln_dir = Some cwd,
     ln_env = fork_env session_id spec, ln_timeout = None\<rparr>"

definition opencode_result :: "child_end \<Rightarrow> str \<times> str" where
  "opencode_result e = (case e of Ended (Some True) out \<Rightarrow> (''completed'', trim (lossy out)) | _ \<Rightarrow> (''failed'', []))"

definition opencode_attempts :: "run_host \<Rightarrow> run_world \<Rightarrow> str \<Rightarrow> path \<Rightarrow> wake_fork \<Rightarrow> str \<Rightarrow> launch list \<times> str \<times> str" where
  "opencode_attempts rh rw session_id cwd spec piped =
     try_models (\<lambda>i model. let ln = opencode_launch rh session_id cwd spec (wf_prompt spec @ piped) model
         in (ln, opencode_result (rw_child rw i ln))) 0 (model_candidates spec)"

definition run_final_opencode :: "run_host \<Rightarrow> run_world \<Rightarrow> str \<Rightarrow> path \<Rightarrow> wake_fork \<Rightarrow> str \<Rightarrow> request list \<times> str option" where
  "run_final_opencode rh rw session_id cwd spec piped =
     (let run_ref = ''fr:'' @ rw_uuid rw; (_, status, report) = opencode_attempts rh rw session_id cwd spec piped
      in ([ForkSpawned session_id (wf_name spec) run_ref, ForkCompleted session_id (wf_name spec) run_ref status None],
          if status = ''completed'' \<and> report \<noteq> [] then Some report else None))"

section \<open>The batch\<close>

definition final_one :: "run_host \<Rightarrow> (nat \<Rightarrow> run_world) \<Rightarrow> (nat \<Rightarrow> nat \<Rightarrow> codex_world) \<Rightarrow> path \<Rightarrow> str \<Rightarrow> str \<Rightarrow> str \<Rightarrow> path
    \<Rightarrow> str option \<Rightarrow> str option \<Rightarrow> nat \<Rightarrow> wake_fork \<Rightarrow> str \<Rightarrow> request list \<times> str option" where
  "final_one rh rws cws base client session_id resume_target cwd parent_model parent_mode i spec piped =
     (if client = ''codex'' then (case run_final_codex rh (cws i) base session_id cwd parent_model parent_mode spec piped of
          Some r \<Rightarrow> r | None \<Rightarrow> ([], None))
      else if client = ''opencode'' then run_final_opencode rh (rws i) session_id cwd spec piped
      else (case run_one rh (rws i) session_id resume_target cwd spec piped False of (frames, r) \<Rightarrow> (frames, rr_report r)))"

primrec run_final :: "(nat \<Rightarrow> wake_fork \<Rightarrow> str \<Rightarrow> request list \<times> str option) \<Rightarrow> nat \<Rightarrow> wake_fork list \<Rightarrow> (str \<rightharpoonup> str) \<Rightarrow> request list list" where
  "run_final one i [] reports = []"
| "run_final one i (spec # specs) reports = (case one i spec (carried_after reports spec) of (frames, report) \<Rightarrow>
     frames # run_final one (Suc i) specs (case report of Some r \<Rightarrow> reports(wf_name spec \<mapsto> r) | None \<Rightarrow> reports))"

section \<open>What the batch needs of a run\<close>

text \<open>The contract between a run of one fork and the batch it is part of: the run settles - its frames end
  with the completion of this fork - and only a completed run has a report to hand on.\<close>

definition completions :: "request list \<Rightarrow> request list" where
  "completions frames = filter (\<lambda>f. case f of ForkCompleted _ _ _ _ _ \<Rightarrow> True | _ \<Rightarrow> False) frames"

definition ends_completed :: "str \<Rightarrow> wake_fork \<Rightarrow> request list \<Rightarrow> str \<Rightarrow> bool" where
  "ends_completed session_id spec frames status \<longleftrightarrow>
     (\<exists>before r cont. completions frames = before @ [ForkCompleted session_id (wf_name spec) r status cont])"

locale final_runner =
  fixes one :: "nat \<Rightarrow> wake_fork \<Rightarrow> str \<Rightarrow> request list \<times> str option" and session_id :: str
  assumes settles_one: "one i spec piped = (frames, report) \<Longrightarrow> \<exists>status. ends_completed session_id spec frames status
      \<and> (report \<noteq> None \<longrightarrow> status = ''completed'')"
begin

lemma batch_length: "length (run_final one i specs reports) = length specs"
  by (induction specs arbitrary: i reports) (simp_all add: split_beta)

lemma batch_settles:
  "k < length specs \<Longrightarrow> \<exists>status. ends_completed session_id (specs ! k) (run_final one i specs reports ! k) status"
proof (induction specs arbitrary: i reports k)
  case (Cons spec specs)
  obtain frames report where o: "one i spec (carried_after reports spec) = (frames, report)" by force
  show ?case
  proof (cases k)
    case 0
    then show ?thesis using settles_one[OF o] by (auto simp: o)
  next
    case (Suc j)
    then show ?thesis using Cons.IH[of j] Cons.prems by (simp add: o)
  qed
qed simp

text \<open>A fork of the batch is handed a report of a predecessor only if a run of that name completed before it.\<close>

lemma batch_reports:
  assumes "\<And>name. reports name \<noteq> None \<Longrightarrow> name \<in> done"
  shows "k < length specs \<Longrightarrow> \<exists>known. run_final one i specs reports ! k = fst (one (i + k) (specs ! k) (carried_after known (specs ! k)))
    \<and> (\<forall>name r. known name = Some r \<longrightarrow> name \<in> done \<or> (\<exists>j<k. wf_name (specs ! j) = name
         \<and> ends_completed session_id (specs ! j) (run_final one i specs reports ! j) ''completed''))"
  using assms
proof (induction specs arbitrary: i reports k "done")
  case (Cons spec specs)
  obtain frames report where o: "one i spec (carried_after reports spec) = (frames, report)" by force
  define reports1 where "reports1 = (case report of Some r \<Rightarrow> reports(wf_name spec \<mapsto> r) | None \<Rightarrow> reports)"
  have step: "run_final one i (spec # specs) reports = frames # run_final one (Suc i) specs reports1" by (simp add: o reports1_def)
  show ?case
  proof (cases k)
    case 0
    then show ?thesis using Cons.prems(2) by (intro exI[of _ reports]) (auto simp: step o simp del: run_final.simps)
  next
    case (Suc j)
    let ?done = "done \<union> (if report = None then {} else {wf_name spec})"
    have "\<And>name. reports1 name \<noteq> None \<Longrightarrow> name \<in> ?done"
      using Cons.prems(2) by (auto simp: reports1_def split: option.splits if_splits)
    then obtain known where k: "run_final one (Suc i) specs reports1 ! j = fst (one (Suc i + j) (specs ! j) (carried_after known (specs ! j)))"
      "\<forall>name r. known name = Some r \<longrightarrow> name \<in> ?done \<or> (\<exists>m<j. wf_name (specs ! m) = name
         \<and> ends_completed session_id (specs ! m) (run_final one (Suc i) specs reports1 ! m) ''completed'')"
      using Cons.IH[of j reports1 ?done "Suc i"] Cons.prems(1) Suc by auto
    have first: "report \<noteq> None \<Longrightarrow> ends_completed session_id spec frames ''completed''" using settles_one[OF o] by auto
    show ?thesis
    proof (intro exI[of _ known] conjI allI impI)
      show "run_final one i (spec # specs) reports ! k = fst (one (i + k) ((spec # specs) ! k) (carried_after known ((spec # specs) ! k)))"
        using k(1) Suc by (simp add: step del: run_final.simps)
      fix name r assume "known name = Some r"
      then consider "name \<in> done" | "report \<noteq> None" "name = wf_name spec"
        | m where "m < j" "wf_name (specs ! m) = name" "ends_completed session_id (specs ! m) (run_final one (Suc i) specs reports1 ! m) ''completed''"
        using k(2) by (auto split: if_splits)
      then show "name \<in> done \<or> (\<exists>m<k. wf_name ((spec # specs) ! m) = name
          \<and> ends_completed session_id ((spec # specs) ! m) (run_final one i (spec # specs) reports ! m) ''completed'')"
      proof cases
        case 2
        then show ?thesis using first Suc by (intro disjI2 exI[of _ 0]) (simp add: step del: run_final.simps)
      next
        case 3
        then show ?thesis using Suc by (intro disjI2 exI[of _ "Suc m"]) (simp add: step del: run_final.simps)
      qed simp
    qed
  qed
qed simp

end

section \<open>The three runs keep the contract\<close>

lemma completions_simps [simp]:
  "completions [] = []" "completions (xs @ ys) = completions xs @ completions ys"
  "completions (ForkCompleted a b c e f # xs) = ForkCompleted a b c e f # completions xs"
  "completions (ForkSpawned a b c # xs) = completions xs" "completions (RunStateReq a b # xs) = completions xs"
  "completions (SpoolReportReq a b c # xs) = completions xs"
  by (simp_all add: completions_def)

lemma finish_completes:
  assumes "finish_run rw sid key spec r status raw can_wake = (frames, res)"
  shows "ends_completed sid spec frames status" "rr_report res \<noteq> None \<Longrightarrow> status = ''completed''"
proof -
  obtain A B c where f: "frames = (if A then [RunStateReq sid r] else []) @ (if B then [SpoolReportReq key (wf_name spec) c] else [])
      @ [ForkCompleted sid (wf_name spec) r status (if status = ''completed'' \<and> wf_chain spec \<and> wants_continue (trim raw) then Some True else None)]"
    using assms unfolding finish_run_def Let_def prod.inject by metis
  show "ends_completed sid spec frames status" unfolding f by (cases A; cases B; simp add: ends_completed_def)
  show "rr_report res \<noteq> None \<Longrightarrow> status = ''completed''" using assms unfolding finish_run_def Let_def prod.inject by (auto split: if_split_asm)
qed

lemma ends_completed_after: "ends_completed sid spec frames status \<Longrightarrow> ends_completed sid spec (ForkSpawned a b c # frames) status"
  by (simp add: ends_completed_def)

lemma claude_settles:
  assumes "run_one rh rw sid target cwd spec piped can_wake = (frames, res)"
  shows "\<exists>status. ends_completed sid spec frames status \<and> (rr_report res \<noteq> None \<longrightarrow> status = ''completed'')"
proof -
  obtain lns status raw where c: "claude_attempts rh rw sid target cwd spec piped = (lns, status, raw)" by (metis prod_cases3)
  obtain rest where "finish_run rw sid target spec (''hl:'' @ rw_uuid rw) status raw can_wake = (rest, res)" "frames = ForkSpawned sid (wf_name spec) (''hl:'' @ rw_uuid rw) # rest"
    using assms c by (auto simp: run_one_def Let_def split: prod.splits)
  then show ?thesis using finish_completes(1) finish_completes(2) ends_completed_after by meson
qed

lemma opencode_settles:
  assumes "run_final_opencode rh rw sid cwd spec piped = (frames, report)"
  shows "\<exists>status. ends_completed sid spec frames status \<and> (report \<noteq> None \<longrightarrow> status = ''completed'')"
proof -
  obtain lns status raw where "opencode_attempts rh rw sid cwd spec piped = (lns, status, raw)" by (metis prod_cases3)
  then show ?thesis using assms
    by (intro exI[of _ status]) (auto simp: run_final_opencode_def Let_def ends_completed_def split: if_splits)
qed

lemma attempt_completes:
  assumes "attempt_run rh cw base session rollout cwd parent_model parent_mode spec prompt candidate = (ln, frames, outcome)"
  shows "ends_completed session spec frames (ro_status outcome)"
proof -
  have spawned: "completions (map (\<lambda>i. ForkSpawned session (wf_name spec) (f i)) ids) = []" for ids :: "str list" and f
    by (induction ids) simp_all
  show ?thesis using assms
    by (auto simp: attempt_run_def Let_def send_fork_frame_def ends_completed_def spawned split: codex_child.splits prod.splits option.splits)
qed

lemma candidates_complete:
  assumes "\<And>i m ln frames outcome. attempt i m = (ln, frames, outcome) \<Longrightarrow> ends_completed session spec frames (ro_status outcome)"
  shows "execute_candidates attempt i ms = Some (lns, frames, outcome) \<Longrightarrow> ends_completed session spec frames (ro_status outcome)"
proof (induction ms arbitrary: i lns frames)
  case (Cons m ms)
  obtain ln frames1 outcome1 where a: "attempt i m = (ln, frames1, outcome1)" by (cases "attempt i m")
  show ?case
  proof (cases "ro_status outcome1 = ''completed'' \<or> ms = []")
    case True
    then show ?thesis using Cons.prems a assms[OF a] by simp
  next
    case False
    then obtain lns2 frames2 where r: "execute_candidates attempt (Suc i) ms = Some (lns2, frames2, outcome)" "frames = frames1 @ frames2"
      using Cons.prems a by auto
    then show ?thesis using Cons.IH[OF r(1)] by (auto simp: ends_completed_def)
  qed
qed simp

lemma codex_settles:
  assumes "run_final_codex rh cws base session cwd parent_model parent_mode spec piped = Some (frames, report)"
  shows "\<exists>status. ends_completed session spec frames status \<and> (report \<noteq> None \<longrightarrow> status = ''completed'')"
proof -
  obtain lns frames1 outcome where e: "execute_run rh cws base session None cwd parent_model parent_mode spec (wf_prompt spec @ piped) = Some (lns, frames1, outcome)"
    using assms by (auto simp: run_final_codex_def)
  have "ends_completed session spec frames1 (ro_status outcome)"
    using candidates_complete[OF attempt_completes e[unfolded execute_run_def]] .
  then show ?thesis using assms e
    by (intro exI[of _ "ro_status outcome"]) (auto simp: run_final_codex_def Let_def ends_completed_def split: if_splits)
qed

lemma codex_final_some: "run_final_codex rh cws base session cwd parent_model parent_mode spec piped \<noteq> None"
proof -
  have "execute_candidates attempt i ms \<noteq> None" if "ms \<noteq> []" for attempt i ms
    using that
  proof (induction ms arbitrary: i)
    case (Cons m ms)
    obtain ln frames outcome where a: "attempt i m = (ln, frames, outcome)" by (cases "attempt i m")
    show ?case using Cons.IH[of "Suc i"] by (cases "ms = []") (auto simp: a)
  qed simp
  then show ?thesis by (simp add: run_final_codex_def execute_run_def model_candidates_some)
qed

interpretation end_run: final_runner "final_one rh rws cws base client session_id target cwd parent_model parent_mode" session_id
  for rh rws cws base client session_id target cwd parent_model parent_mode
proof unfold_locales
  fix i spec piped frames report
  assume one: "final_one rh rws cws base client session_id target cwd parent_model parent_mode i spec piped = (frames, report)"
  show "\<exists>status. ends_completed session_id spec frames status \<and> (report \<noteq> None \<longrightarrow> status = ''completed'')"
  proof (cases "client = ''codex''")
    case True
    then have "run_final_codex rh (cws i) base session_id cwd parent_model parent_mode spec piped = Some (frames, report)"
      using one codex_final_some[of rh "cws i" base session_id cwd parent_model parent_mode spec piped] by (auto simp: final_one_def)
    then show ?thesis by (rule codex_settles)
  next
    case False
    then show ?thesis using one opencode_settles claude_settles
      by (auto simp: final_one_def split: if_splits prod.splits)
  qed
qed

text \<open>C19. The batch of a closed session runs every fork it was given, in order, and each ends with its
  completion told to the daemon, whatever the harness. A fork is handed the report of a predecessor only
  if a fork of that name completed before it in the batch.\<close>

theorem final_batch_settles:
  fixes rh rws cws base client session_id target cwd parent_model parent_mode and specs :: "wake_fork list"
  defines "one \<equiv> final_one rh rws cws base client session_id target cwd parent_model parent_mode"
  defines "out \<equiv> run_final one 0 specs Map.empty"
  assumes "k < length specs"
  shows "length out = length specs \<and> (\<exists>status. ends_completed session_id (specs ! k) (out ! k) status)
    \<and> (\<exists>known. out ! k = fst (one k (specs ! k) (carried_after known (specs ! k)))
        \<and> (\<forall>name r. known name = Some r \<longrightarrow> (\<exists>j<k. wf_name (specs ! j) = name \<and> ends_completed session_id (specs ! j) (out ! j) ''completed'')))"
  using end_run.batch_length[of rh rws cws base client session_id target cwd parent_model parent_mode 0 specs Map.empty]
    end_run.batch_settles[OF assms(3), of session_id rh rws cws base client target cwd parent_model parent_mode 0 Map.empty]
    end_run.batch_reports[of Map.empty "{}" k specs rh rws cws base client session_id target cwd parent_model parent_mode 0] assms(3)
  by (simp add: out_def one_def)

theorem final_batch_settles_witness:
  "\<exists>status. ends_completed ''s'' plain_fork (run_final (final_one no_claude (\<lambda>_. dead_world) (\<lambda>_ _. still_world) ''/b'' ''codex'' ''s'' ''s'' ''/p'' None None)
    0 [plain_fork] Map.empty ! 0) status"
  using final_batch_settles[of 0 "[plain_fork]" no_claude "\<lambda>_. dead_world" "\<lambda>_ _. still_world" "''/b''" "''codex''" "''s''" "''s''" "''/p''" None None] by auto

end
