(* ===== verification/Hook_Laws.thy ===== *)
theory Hook_Laws
  imports Final_Run
begin

text \<open>
  What the hook entry points promise: the hooks that fire inside a run of ours do nothing, the reports held
  for a conversation reach its next prompt, and what is printed fits the budget without tearing a
  character.
\<close>

section \<open>Cutting UTF-8\<close>

text \<open>One character: a first byte that continues nothing, followed by bytes that continue it.\<close>

lemma byte_cont: "byte_in lo hi c \<Longrightarrow> 0x80 \<le> lo \<Longrightarrow> hi \<le> 0xBF \<Longrightarrow> is_cont c"
  by (simp add: byte_in_def is_cont_def less_eq_char_def)

lemma byte_not_cont: "byte_in lo hi c \<Longrightarrow> hi \<le> 0x7F \<or> 0xC0 \<le> lo \<Longrightarrow> \<not> is_cont c"
  by (auto simp: byte_in_def is_cont_def less_eq_char_def)

definition one_char :: "str \<Rightarrow> bool" where
  "one_char g \<longleftrightarrow> g \<noteq> [] \<and> length g \<le> 4 \<and> \<not> is_cont (hd g) \<and> list_all is_cont (tl g) \<and> (\<forall>t. utf8_tail (g @ t) = Some t)"

lemma utf8_tail_split:
  assumes "utf8_tail s = Some r"
  shows "\<exists>g. s = g @ r \<and> one_char g"
proof -
  obtain a r1 where s: "s = a # r1" using assms by (cases s) (auto simp: utf8_tail_def)
  consider (1) "byte_in 0 0x7F a" "r = r1"
    | (2) b where "r1 = b # r" "byte_in 0xC2 0xDF a" "byte_in 0x80 0xBF b"
    | (3) b c where "r1 = b # c # r" "byte_in 0xE0 0xEF a" "byte_in 0x80 0xBF b" "byte_in 0x80 0xBF c"
    | (4) b c d where "r1 = b # c # d # r" "byte_in 0xF0 0xF4 a" "byte_in 0x80 0xBF b" "byte_in 0x80 0xBF c" "byte_in 0x80 0xBF d"
    using assms unfolding s utf8_tail_def by (auto simp: byte_in_def split: list.splits if_splits)
  then show ?thesis
  proof cases
    case 1
    then show ?thesis by (intro exI[of _ "[a]"]) (simp add: s one_char_def utf8_tail_def byte_not_cont[of "0" "0x7F" a])
  next
    case 2
    then show ?thesis using assms byte_cont[of "0x80" "0xBF"] byte_not_cont[of "0xC2" "0xDF" a]
      by (intro exI[of _ "[a, b]"]) (simp add: s one_char_def utf8_tail_def split: if_splits)
  next
    case 3
    then show ?thesis using assms byte_cont[of "0x80" "0xBF"] byte_not_cont[of "0xE0" "0xEF" a]
      by (intro exI[of _ "[a, b, c]"]) (simp add: s one_char_def utf8_tail_def split: if_splits)
  next
    case 4
    then show ?thesis using assms byte_cont[of "0x80" "0xBF"] byte_not_cont[of "0xF0" "0xF4" a]
      by (intro exI[of _ "[a, b, c, d]"]) (simp add: s one_char_def utf8_tail_def split: if_splits)
  qed
qed

lemma valid_utf8_nil [simp]: "valid_utf8 []"
  by (simp add: valid_utf8.simps)

lemma valid_utf8_char: "one_char g \<Longrightarrow> valid_utf8 (g @ s) = valid_utf8 s"
  by (subst valid_utf8.simps) (simp add: one_char_def)

lemma valid_utf8_induct [consumes 1, case_names nil char]:
  assumes "valid_utf8 s" and "P []" and "\<And>g s. one_char g \<Longrightarrow> valid_utf8 s \<Longrightarrow> P s \<Longrightarrow> P (g @ s)"
  shows "P s"
  using assms(1)
proof (induction s rule: valid_utf8.induct)
  case (1 s)
  show ?case
  proof (cases "s = []")
    case False
    then obtain r where r: "utf8_tail s = Some r" "valid_utf8 r" using "1.prems" by (subst (asm) valid_utf8.simps) (auto split: option.splits)
    obtain g where "s = g @ r" "one_char g" using utf8_tail_split[OF r(1)] by blast
    then show ?thesis using assms(3) "1.IH"[OF False r(1) r(2)] r(2) by blast
  qed (simp add: assms(2))
qed

lemma valid_utf8_append: "valid_utf8 a \<Longrightarrow> valid_utf8 b \<Longrightarrow> valid_utf8 (a @ b)"
  by (induction a rule: valid_utf8_induct) (simp_all add: valid_utf8_char)

lemma valid_utf8_start: "valid_utf8 s \<Longrightarrow> s \<noteq> [] \<Longrightarrow> \<not> is_cont (hd s)"
  by (induction s rule: valid_utf8_induct) (simp_all add: one_char_def)

lemma cont_inside: "one_char g \<Longrightarrow> 0 < n \<Longrightarrow> n < length g \<Longrightarrow> is_cont ((g @ s) ! n)"
  by (cases g; cases n) (auto simp: one_char_def nth_append list_all_length)

text \<open>A cut at a character boundary leaves valid text, and a boundary is never more than three bytes away.\<close>

lemma valid_take: "valid_utf8 s \<Longrightarrow> is_char_boundary s n \<Longrightarrow> valid_utf8 (take n s)"
proof (induction s arbitrary: n rule: valid_utf8_induct)
  case (char g s)
  show ?case
  proof (cases "n < length g")
    case True
    then have "n = 0" using char.prems cont_inside[OF char.hyps(1), of n s] by (auto simp: is_char_boundary_def)
    then show ?thesis by simp
  next
    case False
    then have "is_char_boundary s (n - length g)" using char.prems by (auto simp: is_char_boundary_def nth_append)
    then show ?thesis using char.IH False by (simp add: valid_utf8_char[OF char.hyps(1)])
  qed
qed simp

lemma boundary_near: "valid_utf8 s \<Longrightarrow> n \<le> length s \<Longrightarrow> \<exists>m. m \<le> n \<and> n \<le> m + 3 \<and> is_char_boundary s m"
proof (induction s arbitrary: n rule: valid_utf8_induct)
  case nil
  then show ?case by (simp add: is_char_boundary_def)
next
  case (char g s)
  show ?case
  proof (cases "n < length g")
    case True
    then show ?thesis using char.hyps(1) by (intro exI[of _ 0]) (simp add: is_char_boundary_def one_char_def)
  next
    case False
    obtain m where m: "m \<le> n - length g" "n - length g \<le> m + 3" "is_char_boundary s m" using char.IH[of "n - length g"] char.prems False by (auto simp: le_diff_conv)
    have "is_char_boundary (g @ s) (length g + m)"
      using m(3) valid_utf8_start[OF char.hyps(2)] by (auto simp: is_char_boundary_def nth_append hd_conv_nth)
    then show ?thesis using m False by (intro exI[of _ "length g + m"]) auto
  qed
qed

lemma boundary_below_near: "valid_utf8 s \<Longrightarrow> n \<le> length s \<Longrightarrow> n \<le> boundary_below s n + 3"
  using boundary_near[of s n] boundary_below_ge by fastforce

lemma valid_ascii: "list_all (byte_in 0 0x7F) s \<Longrightarrow> valid_utf8 s"
  by (induction s) (simp, subst valid_utf8.simps, simp add: utf8_tail_def)

lemma valid_join: "valid_utf8 sep \<Longrightarrow> list_all valid_utf8 xs \<Longrightarrow> valid_utf8 (join_with sep xs)"
  by (induction sep xs rule: join_with.induct) (simp_all add: valid_utf8_append)

section \<open>What a prompt is given\<close>

definition truncation_note :: str where
  "truncation_note = [nl] @ ''['' @ ellipsis @ ''report truncated to fit the context budget]''"

lemma note_valid: "valid_utf8 truncation_note" "length truncation_note = 48"
proof -
  have e: "valid_utf8 ellipsis" by (simp add: ellipsis_def valid_utf8.simps utf8_tail_def byte_in_def)
  have "valid_utf8 ([nl] @ ''['')" "valid_utf8 ''report truncated to fit the context budget]''"
    by (rule valid_ascii, simp add: nl_def byte_in_def)+
  then show "valid_utf8 truncation_note" unfolding truncation_note_def using e by (metis valid_utf8_append append.assoc)
  show "length truncation_note = 48" by (simp add: truncation_note_def ellipsis_def)
qed

text \<open>The context a prompt is given is valid text of at most \<open>CONTEXT_CAP\<close> bytes and the note. Reports that
  fit are given whole; of longer ones everything is given up to at most three bytes below the cap, cut between
  two characters, with the note behind.\<close>

theorem context_bounded:
  assumes "list_all valid_utf8 blocks"
  defines "t \<equiv> join_with [nl, nl] blocks"
  shows "valid_utf8 (context_text blocks) \<and> length (context_text blocks) \<le> CONTEXT_CAP + length truncation_note
    \<and> (if length t \<le> CONTEXT_CAP then context_text blocks = t
       else \<exists>n. CONTEXT_CAP - 3 \<le> n \<and> n \<le> CONTEXT_CAP \<and> context_text blocks = take n t @ truncation_note)"
proof -
  have v: "valid_utf8 t" unfolding t_def by (rule valid_join) (simp_all add: assms valid_ascii byte_in_def nl_def)
  show ?thesis
  proof (cases "length t \<le> CONTEXT_CAP")
    case True
    then show ?thesis using v by (simp add: context_text_def flip: t_def)
  next
    case False
    let ?n = "boundary_below t CONTEXT_CAP"
    have given: "context_text blocks = take ?n t @ truncation_note"
      using False by (simp add: context_text_def truncation_note_def flip: t_def)
    have n: "?n \<le> CONTEXT_CAP" "is_char_boundary t ?n" using boundary_below_le[of t CONTEXT_CAP] by simp_all
    have "CONTEXT_CAP \<le> ?n + 3" using boundary_below_near[OF v] False by simp
    moreover have "valid_utf8 (context_text blocks)"
      unfolding given by (intro valid_utf8_append valid_take[OF v n(2)] note_valid)
    ultimately show ?thesis using False n given by (auto intro!: exI[of _ ?n])
  qed
qed

theorem context_bounded_witness: "context_text [''a'', ''b''] = ''a'' @ [nl, nl] @ ''b''"
proof -
  have "list_all valid_utf8 [''a'', ''b'']" by (simp add: valid_ascii byte_in_def)
  from context_bounded[OF this] show ?thesis by (simp add: CONTEXT_CAP_def)
qed

section \<open>Hooks inside our own runs\<close>

text \<open>A talk that neither asks the daemon, nor starts it or anything else, and writes no tombstone.\<close>

primrec silent :: "talk \<Rightarrow> bool" where
  "silent (Exit code) = True"
| "silent (Do d k) = ((case d of Prints _ \<Rightarrow> True | _ \<Rightarrow> False) \<and> silent k)"
| "silent (Open m k) = False"
| "silent (Ask r k) = False"

lemma silent_unheard: "silent t \<Longrightarrow> fst (talk_with opn ask t s) = s"
  by (induction t arbitrary: s) (auto simp: Let_def split_beta split: deed.splits)

lemma fork_env_inside: "fs_env fs = child_env inherited [] (before @ fork_env sid spec @ after) \<Longrightarrow> inside_fork fs"
  by (auto simp: inside_fork_def child_env_def fork_env_def map_of_append map_add_def split: option.split)

lemma inside_silent:
  assumes "inside_fork (wd_fs (hh_world hh))"
  shows "silent (run_hook hh rh specs_path worlds kind input)" "silent (cx_run_hook hh rh cws base specs_path cx_kind cx_in)"
    "silent (oc_run_hook hh fork_json specs_path oc_kind oc_in)"
  using assms by (simp_all add: run_hook_def cx_run_hook_def oc_run_hook_def bow_out_def oc_failed_def split: oc_hook_kind.split)

text \<open>C11. A fork never begets forks. Whatever a run of ours starts - claude, the clearing of its goal, codex,
  opencode - the hooks of any of the three harnesses that fire inside it, in the environment the child was
  given, are silent: they do not talk to the daemon, start nothing, and leave every state of it as it was.\<close>

theorem fork_children_are_silent:
  assumes "ln \<in> {attempt_launch rh sid target cwd spec prompt model, clear_launch rh sid target cwd spec,
      codex_launch rh sid cwd spec prompt sandbox model copy_home, opencode_launch rh sid cwd spec prompt model}"
    and "fs_env (wd_fs (hh_world hh)) = child_env inherited [] (ln_env ln)"
    and "t \<in> {run_hook hh rh2 specs_path worlds kind input, cx_run_hook hh rh2 cws base specs_path cx_kind cx_in,
      oc_run_hook hh fork_json specs_path oc_kind oc_in}"
  shows "silent t \<and> fst (talk_with opn ask t s) = s"
proof -
  obtain before after where "ln_env ln = before @ fork_env sid spec @ after"
  proof -
    have "ln_env ln = [] @ fork_env sid spec @ oauth_env (rh_fs rh) \<or> ln_env ln = [] @ fork_env sid spec @ []
        \<or> (\<exists>before. ln_env ln = before @ fork_env sid spec @ [])"
      using assms(1) by (auto simp: attempt_launch_def clear_launch_def codex_launch_def opencode_launch_def)
    then show thesis using that by blast
  qed
  then have "inside_fork (wd_fs (hh_world hh))" using fork_env_inside assms(2) by metis
  from inside_silent[OF this] have "silent t" using assms(3) by blast
  then show ?thesis by (simp add: silent_unheard)
qed

definition hooks_in :: "(str \<times> str) list \<Rightarrow> hook_host" where
  "hooks_in env = \<lparr>hh_world = (bare_world 9)\<lparr>wd_disk := (wd_disk (bare_world 9))
       \<lparr>dk_fs := (wd_fs (bare_world 9))\<lparr>fs_env := child_env (\<lambda>_. None) [] env\<rparr>\<rparr>\<rparr>,
     hh_procs = \<lparr>pr_self_parent = 7, pr_parent = (\<lambda>_. None), pr_exe = (\<lambda>_. None)\<rparr>, hh_current_dir = Some ''/p'', hh_exe = Some ''/bin/autofork''\<rparr>"

theorem fork_children_are_silent_witness:
  "let hh = hooks_in (ln_env (opencode_launch no_claude ''s'' ''/p'' plain_fork ''p'' None))
   in silent (oc_run_hook hh (\<lambda>_. JNull) ''/specs'' OcSessionStart None)"
proof -
  let ?ln = "opencode_launch no_claude ''s'' ''/p'' plain_fork ''p'' None"
  let ?t = "oc_run_hook (hooks_in (ln_env ?ln)) (\<lambda>_. JNull) ''/specs'' OcSessionStart None"
  have a: "?ln \<in> {attempt_launch no_claude ''s'' ''t'' ''/p'' plain_fork ''p'' None, clear_launch no_claude ''s'' ''t'' ''/p'' plain_fork,
      codex_launch no_claude ''s'' ''/p'' plain_fork ''p'' [] None None, ?ln}" by (simp only: insert_iff simp_thms)
  have e: "fs_env (wd_fs (hh_world (hooks_in (ln_env ?ln)))) = child_env (\<lambda>_. None) [] (ln_env ?ln)" by (simp add: hooks_in_def)
  have t: "?t \<in> {run_hook (hooks_in (ln_env ?ln)) no_claude ''/specs'' [] StopWaitHook None,
      cx_run_hook (hooks_in (ln_env ?ln)) no_claude (\<lambda>_ _. still_world) ''/b'' ''/specs'' CxStop None, ?t}" by (simp only: insert_iff simp_thms)
  show ?thesis unfolding Let_def by (rule fork_children_are_silent[OF a e t, THEN conjunct1])
qed

section \<open>Reports reach the prompt\<close>

text \<open>The daemon as the server of a talk: it can be reached, and every request is dispatched in the same world.\<close>

definition daemon_opn :: "open_mode \<Rightarrow> daemon \<Rightarrow> daemon \<times> bool" where
  "daemon_opn m d = (d, True)"

definition daemon_ask :: "world \<Rightarrow> request \<Rightarrow> daemon \<Rightarrow> daemon \<times> response option" where
  "daemon_ask w r d = (case dispatch w r d of (d1, a) \<Rightarrow> (d1, Some a))"

definition drained :: "world \<Rightarrow> str \<Rightarrow> daemon \<Rightarrow> daemon" where
  "drained w key d = fst (dispatch w (TakeReportsReq key None) d)"

lemma take_reports_asked:
  "daemon_ask w (TakeReportsReq key None) d = (drained w key d, Some (RReports (held_reports key d)))" "held_reports key (drained w key d) = []"
proof -
  have t: "dm_store (touch_busy w d) = dm_store d" for d by (simp add: touch_busy_def)
  show "daemon_ask w (TakeReportsReq key None) d = (drained w key d, Some (RReports (held_reports key d)))"
    by (simp add: daemon_ask_def drained_def handle_take_reports_def take_reports_def held_reports_def t)
  show "held_reports key (drained w key d) = []"
    by (simp add: drained_def handle_take_reports_def take_reports_def held_reports_def spool_texts_def t del_where_def)
qed

definition printed_reports :: "str list \<Rightarrow> deed list" where
  "printed_reports blocks = (if blocks = [] then [] else [Prints (additional_context blocks)])"

lemma asked:
  "talk_with opn ask (print_additional_context (Some (RReports blocks)) k) d
     = (let (d1, ds, code) = talk_with opn ask k d in (d1, printed_reports blocks @ ds, code))"
  "talk_with opn (daemon_ask w) (Ask (Event ev) f) d = talk_with opn (daemon_ask w) (f (Some (snd (dispatch w (Event ev) d)))) (fst (dispatch w (Event ev) d))"
  "talk_with opn ask bow_out d = (d, [], Some 0)"
  by (simp_all add: printed_reports_def print_additional_context_def daemon_ask_def bow_out_def Let_def split_beta)

lemma asked_first: "daemon_ask w r d = (d1, a) \<Longrightarrow> talk_with opn (daemon_ask w) (Ask r f) d = talk_with opn (daemon_ask w) (f a) d1"
  by simp

lemma waiter_spawned: "\<exists>ds. \<forall>d. talk_with opn ask (spawn_waiter hh cx cwd bow_out) d = (d, ds, Some 0)"
  by (auto simp: spawn_waiter_def bow_out_def split: option.split)

text \<open>What the context of a prompt says of the reports: nothing where there are none; else all of them in order, a blank
  line between two, in one text if that has at most 9800 bytes; of a longer one what fits, up to a character
  that is cut off whole, and the note that it was cut.\<close>

definition context_given :: "str list \<Rightarrow> deed list \<Rightarrow> bool" where
  "context_given blocks ds \<longleftrightarrow> (if blocks = [] then ds = []
     else \<exists>txt. ds = [Prints (JObj [(''hookSpecificOutput'', JObj [(''hookEventName'', JStr ''UserPromptSubmit''), (''additionalContext'', JStr txt)])])]
       \<and> (let t = join_with [nl, nl] blocks in if length t \<le> 9800 then txt = t
            else \<exists>n. 9797 \<le> n \<and> n \<le> 9800 \<and> txt = take n t @ truncation_note))"

lemma printed_given:
  assumes "list_all valid_utf8 blocks"
  shows "context_given blocks (printed_reports blocks)"
  using context_bounded[OF assms] by (auto simp: context_given_def printed_reports_def additional_context_def CONTEXT_CAP_def Let_def)

text \<open>C16. The reports the daemon holds for a conversation reach its next prompt as far as they fit. The prompt hook of
  Claude Code prints them as the context of the prompt, all and in order up to 9800 bytes, with a note where
  the rest is cut; the daemon holds none of them any more, so what is cut is not shown later; and only then is the
  prompt reported to it. Where it holds none, nothing is printed. Codex the same, under the id of its session, before
  it sees to its waiter.\<close>

theorem report_reaches_prompt:
  assumes "\<not> inside_fork (wd_fs (hh_world hh))" and "hi_cwd hi = Some cwd" and "cx_dir cx = Some cwd"
    and "list_all valid_utf8 (held_reports (conversation_key hi) d)" "list_all valid_utf8 (held_reports (cx_session cx) d)"
  shows "held_reports key (drained w key d) = []
    \<and> (\<exists>ds. context_given (held_reports (conversation_key hi) d) ds
      \<and> talk_with daemon_opn (daemon_ask w) (run_hook hh rh specs_path worlds UserPromptSubmit (Some hi)) d
      = (fst (dispatch w (Event (sniff_prompt (hi_prompt hi) (claude_event hh hi cwd EvPromptSubmit))) (drained w (conversation_key hi) d)), ds, Some 0))
    \<and> (\<exists>ds ds'. context_given (held_reports (cx_session cx) d) ds
      \<and> talk_with daemon_opn (daemon_ask w) (cx_run_hook hh rh cws base specs_path CxPromptSubmit (Some cx)) d
      = (fst (dispatch w (Event ((cx_event hh cx cwd EvPromptSubmit)\<lparr>ev_waking := map_option (\<lambda>p. \<not> str_contains p WAKE_MARKER) (cx_prompt cx)\<rparr>))
           (drained w (cx_session cx) d)), ds @ ds', Some 0))"
proof (intro conjI)
  show "held_reports key (drained w key d) = []" by (rule take_reports_asked(2))
  show "\<exists>ds. context_given (held_reports (conversation_key hi) d) ds
      \<and> talk_with daemon_opn (daemon_ask w) (run_hook hh rh specs_path worlds UserPromptSubmit (Some hi)) d
      = (fst (dispatch w (Event (sniff_prompt (hi_prompt hi) (claude_event hh hi cwd EvPromptSubmit))) (drained w (conversation_key hi) d)), ds, Some 0)"
    using assms(1,2) by (intro exI[of _ "printed_reports (held_reports (conversation_key hi) d)"] conjI printed_given[OF assms(4)])
      (simp add: run_hook_def prompt_submit_talk_def daemon_opn_def asked_first[OF take_reports_asked(1)] asked del: talk_with.simps(4) dispatch.simps)
  obtain ds' where "talk_with daemon_opn (daemon_ask w) (spawn_waiter hh cx cwd bow_out) x = (x, ds', Some 0)" for x
    using waiter_spawned by metis
  then show "\<exists>ds ds'. context_given (held_reports (cx_session cx) d) ds
      \<and> talk_with daemon_opn (daemon_ask w) (cx_run_hook hh rh cws base specs_path CxPromptSubmit (Some cx)) d
      = (fst (dispatch w (Event ((cx_event hh cx cwd EvPromptSubmit)\<lparr>ev_waking := map_option (\<lambda>p. \<not> str_contains p WAKE_MARKER) (cx_prompt cx)\<rparr>))
           (drained w (cx_session cx) d)), ds @ ds', Some 0)"
    using assms(1,3) by (intro exI[of _ "printed_reports (held_reports (cx_session cx) d)"] exI[of _ ds'] conjI printed_given[OF assms(5)])
      (simp add: cx_run_hook_def cx_prompt_talk_def daemon_opn_def asked_first[OF take_reports_asked(1)] asked del: talk_with.simps(4) dispatch.simps)
qed

definition a_prompt :: hook_input where
  "a_prompt = \<lparr>hi_session_id = ''s'', hi_transcript_path = None, hi_cwd = Some ''/p'', hi_source = None, hi_reason = None, hi_model = None, hi_prompt = None\<rparr>"

definition a_cx_prompt :: cx_input where
  "a_cx_prompt = \<lparr>cx_session = ''s'', cx_rollout = None, cx_dir = Some ''/p'', cx_source = None, cx_reason = None, cx_model = None,
     cx_permission_mode = None, cx_prompt = None\<rparr>"

theorem report_reaches_prompt_witness:
  "fst (snd (talk_with daemon_opn (daemon_ask (bare_world 9)) (run_hook (hooks_in []) no_claude ''/specs'' [] UserPromptSubmit (Some a_prompt))
      (fst (dispatch (bare_world 9) (SpoolReportReq ''s'' ''f'' ''hi'') bare_daemon)))) = [Prints (additional_context [''hi''])]"
proof -
  let ?d = "fst (dispatch (bare_world 9) (SpoolReportReq ''s'' ''f'' ''hi'') bare_daemon)"
  have out: "\<not> inside_fork (wd_fs (hh_world (hooks_in [])))" by (simp add: inside_fork_def hooks_in_def child_env_def)
  have dirs: "hi_cwd a_prompt = Some ''/p''" "cx_dir a_cx_prompt = Some ''/p''" by (simp_all add: a_prompt_def a_cx_prompt_def)
  have key: "conversation_key a_prompt = ''s''" "cx_session a_cx_prompt = ''s''"
    by (simp_all add: conversation_key_def a_prompt_def a_cx_prompt_def)
  have fine: "spool_fine bare_daemon" using bare_daemon_ok by (simp add: spool_fine_def store_ok_def spool_of_def)
  have "held_reports ''s'' ?d = held_reports ''s'' bare_daemon @ [''hi'']" using held_spooled[OF fine] by simp
  moreover have "held_reports ''s'' bare_daemon = []" by (simp add: held_reports_def bare_daemon_def daemon_new_def spool_texts_def upsert_session_def store_empty_def Let_def)
  ultimately have held: "held_reports ''s'' ?d = [''hi'']" by simp
  have v: "list_all valid_utf8 (held_reports (conversation_key a_prompt) ?d)" "list_all valid_utf8 (held_reports (cx_session a_cx_prompt) ?d)"
    unfolding key held by (simp_all add: valid_ascii byte_in_def)
  obtain ds where "context_given (held_reports (conversation_key a_prompt) ?d) ds"
    "fst (snd (talk_with daemon_opn (daemon_ask (bare_world 9)) (run_hook (hooks_in []) no_claude ''/specs'' [] UserPromptSubmit (Some a_prompt)) ?d)) = ds"
    using report_reaches_prompt[OF out dirs v, THEN conjunct2, THEN conjunct1] by (metis fst_conv snd_conv)
  then show ?thesis unfolding key held by (auto simp: context_given_def additional_context_def context_text_def CONTEXT_CAP_def)
qed

end
