(* ===== verification/Server.thy ===== *)
theory Server
  imports System_Laws
begin

text \<open>
  \<open>server.rs\<close>: the connections of the daemon. A connection is a loop over the lines it reads, one frame in
  and one frame out, except that a stop-wait is held until its poll answers; \<open>serve\<close> counts the open
  connections, which is what \<open>quiet_reaper\<close> looks at. \<open>server_step\<close> is the daemon with its
  connections; the laws say that it does nothing \<open>sys_step\<close> does not allow, which polls the connections
  hold, and that answers follow requests. Reading of JSON is a parameter; a frame is written or the
  write fails.
\<close>

section \<open>One line\<close>

record frame =
  fr_proto :: nat
  fr_id :: nat
  fr_body :: request

text \<open>A line is blank, refused with an answer, answered, or held as a poll. A refused line is answered under
  the id 0 where it could not be read.\<close>

datatype line_end = Blank | Refused nat response | Replied nat response | Held nat poll

definition proto_fits :: "frame \<Rightarrow> bool" where
  "proto_fits f \<longleftrightarrow> fr_proto f = PROTO_VERSION \<or> (case fr_body f of Shutdown _ \<Rightarrow> True | _ \<Rightarrow> False)"

definition conn_frame :: "world \<Rightarrow> frame \<Rightarrow> daemon \<Rightarrow> daemon \<times> line_end" where
  "conn_frame w f d = (if \<not> proto_fits f
     then (d, Refused (fr_id f) (RError ProtoMismatch
         (''daemon speaks proto '' @ show_nat PROTO_VERSION @ '', client sent '' @ show_nat (fr_proto f))))
     else case fr_body f of
       StopWait ev \<Rightarrow> (case enter_stop_wait w ev d of
           (d', Answered r) \<Rightarrow> (d', Replied (fr_id f) r)
         | (d', Parked pl) \<Rightarrow> (d', Held (fr_id f) pl))
     | r \<Rightarrow> (case dispatch w r d of (d', b) \<Rightarrow> (d', Replied (fr_id f) b)))"

definition conn_line :: "(str \<Rightarrow> str + frame) \<Rightarrow> world \<Rightarrow> str \<Rightarrow> daemon \<Rightarrow> daemon \<times> line_end" where
  "conn_line parse w line d = (if trim line = [] then (d, Blank)
     else case parse line of
       Inl e \<Rightarrow> (d, Refused 0 (RError BadRequest (''bad request: '' @ e)))
     | Inr f \<Rightarrow> conn_frame w f d)"

section \<open>The daemon with its connections\<close>

datatype conn = Reading | Holding nat nat

text \<open>What a connection took and wrote: the ids of the frames it accepted, the answers to them.\<close>

datatype log_entry = Took nat | Wrote nat response

record server =
  sv_daemon :: daemon
  sv_polls :: "poll list"
  sv_conns :: "nat \<rightharpoonup> conn"
  sv_next :: nat
  sv_count :: nat
  sv_log :: "(nat \<times> log_entry) list"

abbreviation sv_system :: "server \<Rightarrow> system" where
  "sv_system sv \<equiv> \<lparr>sy_daemon = sv_daemon sv, sy_polls = sv_polls sv\<rparr>"

definition server_new :: "store \<Rightarrow> int \<Rightarrow> server" where
  "server_new s now = \<lparr>sv_daemon = daemon_new s now, sv_polls = [], sv_conns = Map.empty, sv_next = 0, sv_count = 0, sv_log = []\<rparr>"

definition accept_conn :: "world \<Rightarrow> server \<Rightarrow> server" where
  "accept_conn w sv = sv\<lparr>sv_daemon := touch_busy w (sv_daemon sv), sv_conns := (sv_conns sv)(sv_next sv \<mapsto> Reading),
     sv_next := sv_next sv + 1, sv_count := sv_count sv + 1\<rparr>"

definition close_conn :: "world \<Rightarrow> nat \<Rightarrow> server \<Rightarrow> server" where
  "close_conn w i sv = sv\<lparr>sv_daemon := touch_busy w (sv_daemon sv), sv_conns := (sv_conns sv)(i := None),
     sv_count := sv_count sv - 1\<rparr>"

text \<open>The answer to an accepted frame is written and the loop goes on, or the write fails and ends it.\<close>

definition write_answer :: "world \<Rightarrow> bool \<Rightarrow> nat \<Rightarrow> nat \<Rightarrow> response \<Rightarrow> server \<Rightarrow> server" where
  "write_answer w written i ident r sv = (if written
     then sv\<lparr>sv_conns := (sv_conns sv)(i \<mapsto> Reading), sv_log := sv_log sv @ [(i, Wrote ident r)]\<rparr>
     else close_conn w i sv)"

definition took :: "nat \<Rightarrow> nat \<Rightarrow> server \<Rightarrow> server" where
  "took i ident sv = sv\<lparr>sv_log := sv_log sv @ [(i, Took ident)]\<rparr>"

definition read_line_step :: "(str \<Rightarrow> str + frame) \<Rightarrow> world \<Rightarrow> world \<Rightarrow> bool \<Rightarrow> nat \<Rightarrow> str \<Rightarrow> server \<Rightarrow> server" where
  "read_line_step parse w w' written i line sv = (case conn_line parse w line (sv_daemon sv) of
     (d, Blank) \<Rightarrow> sv\<lparr>sv_daemon := d\<rparr>
   | (d, Refused ident r) \<Rightarrow> sv\<lparr>sv_daemon := d\<rparr>
   | (d, Replied ident r) \<Rightarrow> write_answer w' written i ident r (took i ident (sv\<lparr>sv_daemon := d\<rparr>))
   | (d, Held ident pl) \<Rightarrow> (took i ident (sv\<lparr>sv_daemon := d\<rparr>))
        \<lparr>sv_polls := sv_polls sv @ [pl], sv_conns := (sv_conns sv)(i \<mapsto> Holding ident (pl_id pl))\<rparr>)"

text \<open>What the daemon does by itself, \<open>n\<close> connections being open.\<close>

inductive own_step :: "nat \<Rightarrow> daemon \<Rightarrow> daemon \<Rightarrow> bool" for n where
  job: "j \<in> set (hook_jobs d) \<Longrightarrow> own_step n d (job_finished w j e d)"
| grace: "t \<in> set (grace_timers d) \<Longrightarrow> own_step n d (grace_elapsed w t d)"
| harness: "own_step n d (harness_sweep w d)"
| session: "own_step n d (session_sweep w d)"
| quiet: "own_step n d (quiet_sweep w n d)"
| watched: "own_step n d (deliver_change w paths sub d)"

inductive server_step :: "server \<Rightarrow> server \<Rightarrow> bool" where
  accepted: "server_step sv (accept_conn w sv)"
| line: "sv_conns sv i = Some Reading \<Longrightarrow> server_step sv (read_line_step parse w w' written i line sv)"
| hung_up: "sv_conns sv i = Some Reading \<Longrightarrow> server_step sv (close_conn w i sv)"
| polled: "pl \<in> set (sv_polls sv) \<Longrightarrow> poll_enabled w a pl (sv_daemon sv)
    \<Longrightarrow> poll_act_of w a pl (sv_daemon sv) = (d, Still pl')
    \<Longrightarrow> server_step sv (sv\<lparr>sv_daemon := d, sv_polls := put_poll pl (Still pl') (sv_polls sv)\<rparr>)"
| answered: "sv_conns sv i = Some (Holding ident (pl_id pl)) \<Longrightarrow> pl \<in> set (sv_polls sv)
    \<Longrightarrow> poll_enabled w a pl (sv_daemon sv) \<Longrightarrow> poll_act_of w a pl (sv_daemon sv) = (d, Resolved r)
    \<Longrightarrow> server_step sv (write_answer w' written i ident r
          (sv\<lparr>sv_daemon := d, sv_polls := put_poll pl (Resolved r) (sv_polls sv)\<rparr>))"
| stray: "sv_conns sv i = Some (Holding ident p) \<Longrightarrow> server_step sv sv"
| lost: "sv_conns sv i = Some (Holding ident (pl_id pl)) \<Longrightarrow> pl \<in> set (sv_polls sv)
    \<Longrightarrow> server_step sv (close_conn w' i (sv\<lparr>sv_daemon := lose_poll w pl (sv_daemon sv),
          sv_polls := filter (\<lambda>q. pl_id q \<noteq> pl_id pl) (sv_polls sv)\<rparr>))"
| own: "own_step (sv_count sv) (sv_daemon sv) d \<Longrightarrow> server_step sv (sv\<lparr>sv_daemon := d\<rparr>)"

section \<open>Nothing new happens to the daemon\<close>

lemma touch_is_step: "sys_step \<lparr>sy_daemon = d, sy_polls = ps\<rparr> \<lparr>sy_daemon = touch_busy w d, sy_polls = ps\<rparr>"
  using sys_step.request[of "Hello []" d ps w PROTO_VERSION] by (simp add: answer_frame_def is_stop_wait_def)

lemma conn_frame_step:
  assumes "conn_frame w f d = (d', e)"
  shows "sys_step\<^sup>*\<^sup>* \<lparr>sy_daemon = d, sy_polls = ps\<rparr>
    \<lparr>sy_daemon = d', sy_polls = (case e of Held _ pl \<Rightarrow> ps @ [pl] | _ \<Rightarrow> ps)\<rparr>"
proof (cases "proto_fits f")
  case False
  with assms show ?thesis by (auto simp: conn_frame_def)
next
  case True
  show ?thesis
  proof (cases "is_stop_wait (fr_body f)")
    case True
    then obtain ev where "fr_body f = StopWait ev" by (auto simp: is_stop_wait_def split: request.splits)
    with assms \<open>proto_fits f\<close> show ?thesis
      by (auto simp: conn_frame_def split: prod.splits entry.splits intro!: sys_step.enter sys_step.enter_answered)
  next
    case False
    then have "conn_frame w f d = (case dispatch w (fr_body f) d of (d', b) \<Rightarrow> (d', Replied (fr_id f) b))"
      using True by (cases "fr_body f") (simp_all add: conn_frame_def is_stop_wait_def)
    moreover have "answer_frame w PROTO_VERSION (fr_body f) d = dispatch w (fr_body f) d"
      by (simp add: answer_frame_def)
    ultimately have "d' = fst (answer_frame w PROTO_VERSION (fr_body f) d)" "\<forall>i pl. e \<noteq> Held i pl"
      using assms by (auto split: prod.splits)
    then show ?thesis using sys_step.request[OF False, of d ps w PROTO_VERSION]
      by (cases e) auto
  qed
qed

lemma conn_line_step:
  assumes "conn_line parse w line d = (d', e)"
  shows "sys_step\<^sup>*\<^sup>* \<lparr>sy_daemon = d, sy_polls = ps\<rparr>
    \<lparr>sy_daemon = d', sy_polls = (case e of Held _ pl \<Rightarrow> ps @ [pl] | _ \<Rightarrow> ps)\<rparr>"
  using assms conn_frame_step[of w _ d d' e ps]
  by (auto simp: conn_line_def split: if_splits sum.splits)

lemma close_conn_step: "sys_step\<^sup>*\<^sup>* (sv_system sv) (sv_system (close_conn w i sv))"
  using touch_is_step by (auto simp: close_conn_def)

lemma write_answer_step: "sys_step\<^sup>*\<^sup>* (sv_system sv) (sv_system (write_answer w written i ident r sv))"
  using close_conn_step[of sv w i] by (simp add: write_answer_def)

lemma own_is_step: "own_step n d d' \<Longrightarrow> sys_step \<lparr>sy_daemon = d, sy_polls = ps\<rparr> \<lparr>sy_daemon = d', sy_polls = ps\<rparr>"
  by (induction rule: own_step.induct) (auto intro: sys_step.intros)

lemma read_line_refines: "sys_step\<^sup>*\<^sup>* (sv_system sv) (sv_system (read_line_step parse w w' written i line sv))"
proof -
  obtain d e where c: "conn_line parse w line (sv_daemon sv) = (d, e)" by fastforce
  note step = conn_line_step[OF c, of "sv_polls sv"]
  show ?thesis
  proof (cases e)
    case (Replied ident r)
    with c step write_answer_step[of "took i ident (sv\<lparr>sv_daemon := d\<rparr>)" w' written i ident r] show ?thesis
      by (simp add: read_line_step_def took_def)
  qed (use c step in \<open>simp_all add: read_line_step_def took_def\<close>)
qed

lemma server_refines: "server_step sv sv' \<Longrightarrow> sys_step\<^sup>*\<^sup>* (sv_system sv) (sv_system sv')"
proof (induction rule: server_step.induct)
  case (accepted sv w)
  then show ?case using touch_is_step by (auto simp: accept_conn_def)
next
  case (line sv i parse w w' written line)
  show ?case by (rule read_line_refines)
next
  case (hung_up sv i w)
  show ?case by (rule close_conn_step)
next
  case (polled pl sv w a d pl')
  then show ?case using sys_step.poll[of pl "sv_polls sv" w a "sv_daemon sv"] by auto
next
  case (answered sv i ident pl w a d r w' written)
  let ?sv = "sv\<lparr>sv_daemon := d, sv_polls := put_poll pl (Resolved r) (sv_polls sv)\<rparr>"
  have "sys_step (sv_system sv) (sv_system ?sv)"
    using answered sys_step.poll[of pl "sv_polls sv" w a "sv_daemon sv"] by simp
  then show ?case using write_answer_step[of ?sv w' written i ident r] by (rule converse_rtranclp_into_rtranclp)
next
  case (stray sv i ident p)
  show ?case by simp
next
  case (lost sv i ident pl w' w)
  let ?sv = "sv\<lparr>sv_daemon := lose_poll w pl (sv_daemon sv), sv_polls := filter (\<lambda>q. pl_id q \<noteq> pl_id pl) (sv_polls sv)\<rparr>"
  have "sys_step (sv_system sv) (sv_system ?sv)"
    using lost sys_step.lost[of pl "sv_polls sv" "sv_daemon sv" w] by simp
  then show ?case using close_conn_step[of ?sv w' i] by (rule converse_rtranclp_into_rtranclp)
next
  case (own sv d)
  then show ?case using own_is_step by auto
qed

lemma server_run_refines: "server_step\<^sup>*\<^sup>* sv sv' \<Longrightarrow> sys_step\<^sup>*\<^sup>* (sv_system sv) (sv_system sv')"
  by (induction rule: rtranclp_induct) (auto dest: server_refines)

section \<open>Connections, polls and answers\<close>

definition conns_ok :: "server \<Rightarrow> bool" where
  "conns_ok sv \<longleftrightarrow> finite (dom (sv_conns sv)) \<and> dom (sv_conns sv) \<subseteq> {..<sv_next sv} \<and> sv_count sv = card (dom (sv_conns sv))"

text \<open>Every poll is held by exactly one connection.\<close>

definition one_holder :: "('i \<Rightarrow> 'p \<Rightarrow> bool) \<Rightarrow> 'p set \<Rightarrow> bool" where
  "one_holder holds ps \<longleftrightarrow> (\<forall>p. p \<in> ps \<longleftrightarrow> (\<exists>i. holds i p)) \<and> (\<forall>i j p. holds i p \<longrightarrow> holds j p \<longrightarrow> i = j)"

definition holds_poll :: "(nat \<rightharpoonup> conn) \<Rightarrow> nat \<Rightarrow> nat \<Rightarrow> bool" where
  "holds_poll conns i p \<longleftrightarrow> (\<exists>ident. conns i = Some (Holding ident p))"

definition holders_ok :: "server \<Rightarrow> bool" where
  "holders_ok sv \<longleftrightarrow> one_holder (holds_poll (sv_conns sv)) (pl_id ` set (sv_polls sv))"

definition taken_ids :: "nat \<Rightarrow> (nat \<times> log_entry) list \<Rightarrow> nat list" where
  "taken_ids i log = concat (map (\<lambda>(j, e). case e of Took ident \<Rightarrow> if j = i then [ident] else [] | _ \<Rightarrow> []) log)"

definition written_ids :: "nat \<Rightarrow> (nat \<times> log_entry) list \<Rightarrow> nat list" where
  "written_ids i log = concat (map (\<lambda>(j, e). case e of Wrote ident r \<Rightarrow> if j = i then [ident] else [] | _ \<Rightarrow> []) log)"

text \<open>Answers are those to the frames taken, in order; one frame at most is open, and it is the one the
  connection holds a poll for, or one whose answer was lost with the connection.\<close>

definition open_frames :: "conn option \<Rightarrow> nat list \<Rightarrow> bool" where
  "open_frames c ids = (case c of Some Reading \<Rightarrow> ids = [] | Some (Holding ident p) \<Rightarrow> ids = [ident] | None \<Rightarrow> length ids \<le> 1)"

definition answers_ok :: "server \<Rightarrow> bool" where
  "answers_ok sv \<longleftrightarrow> (\<forall>i. (\<exists>ids. taken_ids i (sv_log sv) = written_ids i (sv_log sv) @ ids \<and> open_frames (sv_conns sv i) ids)
     \<and> (sv_next sv \<le> i \<longrightarrow> taken_ids i (sv_log sv) = []))"

definition server_ok :: "server \<Rightarrow> bool" where
  "server_ok sv \<longleftrightarrow> sys_ok (sv_system sv) \<and> conns_ok sv \<and> holders_ok sv \<and> answers_ok sv"

lemma log_ids [simp]:
  "taken_ids i [] = []" "written_ids i [] = []"
  "taken_ids i ((j, Took a) # log) = (if j = i then [a] else []) @ taken_ids i log"
  "taken_ids i ((j, Wrote a r) # log) = taken_ids i log"
  "written_ids i ((j, Took a) # log) = written_ids i log"
  "written_ids i ((j, Wrote a r) # log) = (if j = i then [a] else []) @ written_ids i log"
  "taken_ids i (log @ log') = taken_ids i log @ taken_ids i log'"
  "written_ids i (log @ log') = written_ids i log @ written_ids i log'"
  by (simp_all add: taken_ids_def written_ids_def)

text \<open>The parts a step may replace: the daemon, the polls; the connections.\<close>

lemma conns_ok_cong: "sv_conns sv' = sv_conns sv \<Longrightarrow> sv_next sv' = sv_next sv \<Longrightarrow> sv_count sv' = sv_count sv \<Longrightarrow> conns_ok sv' = conns_ok sv"
  by (simp add: conns_ok_def)

lemma conns_ok_close: "conns_ok sv \<Longrightarrow> sv_conns sv i \<noteq> None \<Longrightarrow> conns_ok (close_conn w i sv)"
  by (auto simp: conns_ok_def close_conn_def card_Diff_singleton domIff)

lemma conns_ok_upd:
  assumes "conns_ok sv" "sv_conns sv i \<noteq> None" "sv_conns sv' = (sv_conns sv)(i \<mapsto> c)" "sv_next sv' = sv_next sv" "sv_count sv' = sv_count sv"
  shows "conns_ok sv'"
proof -
  have "insert i (dom (sv_conns sv)) = dom (sv_conns sv)" using assms(2) by auto
  with assms show ?thesis by (simp add: conns_ok_def)
qed

lemma one_holder_add:
  assumes "one_holder holds ps" "q \<notin> ps" "\<And>p. \<not> holds i p"
  shows "one_holder (\<lambda>j p. if j = i then p = q else holds j p) (insert q ps)"
proof -
  have "\<not> holds j q" for j using assms(1,2) unfolding one_holder_def by blast
  with assms(1,3) show ?thesis unfolding one_holder_def by (metis insert_iff)
qed

lemma one_holder_remove:
  assumes "one_holder holds ps" "holds i q" "\<And>p. holds i p \<Longrightarrow> p = q"
  shows "one_holder (\<lambda>j p. j \<noteq> i \<and> holds j p) (ps - {q})"
  unfolding one_holder_def
proof (intro conjI allI impI)
  fix p
  have "p \<in> ps \<longleftrightarrow> (\<exists>j. holds j p)" "holds j q \<Longrightarrow> j = i" for j
    using assms(1,2) unfolding one_holder_def by blast+
  then show "p \<in> ps - {q} \<longleftrightarrow> (\<exists>j. j \<noteq> i \<and> holds j p)"
    using assms(3) by (cases "p = q") (auto, metis)
next
  fix j k p
  assume "j \<noteq> i \<and> holds j p" "k \<noteq> i \<and> holds k p"
  with assms(1) show "j = k" unfolding one_holder_def by blast
qed

lemma holds_poll_upd: "holds_poll (conns(i := c)) = (\<lambda>j p. if j = i then \<exists>ident. c = Some (Holding ident p) else holds_poll conns j p)"
  by (auto simp: holds_poll_def fun_eq_iff)

text \<open>A connection that holds nothing may become another that holds nothing, or hold a new poll; one that
  holds a poll may let go of it.\<close>

lemma holders_ok_same:
  "holders_ok sv \<Longrightarrow> sv_conns sv' = sv_conns sv \<Longrightarrow> pl_id ` set (sv_polls sv') = pl_id ` set (sv_polls sv) \<Longrightarrow> holders_ok sv'"
  by (simp add: holders_ok_def)

lemma holders_ok_reading:
  assumes "holders_ok sv" "\<And>p. \<not> holds_poll (sv_conns sv) i p" "c = None \<or> c = Some Reading"
    "sv_conns sv' = (sv_conns sv)(i := c)" "sv_polls sv' = sv_polls sv"
  shows "holders_ok sv'"
proof -
  have "holds_poll (sv_conns sv') = holds_poll (sv_conns sv)"
    using assms(2,3) unfolding assms(4) holds_poll_upd by (auto simp: fun_eq_iff)
  with assms(1,5) show ?thesis by (simp add: holders_ok_def)
qed

lemma holders_ok_hold:
  assumes "holders_ok sv" "\<And>p. \<not> holds_poll (sv_conns sv) i p" "pl_id pl \<notin> pl_id ` set (sv_polls sv)"
    "sv_conns sv' = (sv_conns sv)(i \<mapsto> Holding ident (pl_id pl))" "sv_polls sv' = sv_polls sv @ [pl]"
  shows "holders_ok sv'"
proof -
  have "holds_poll (sv_conns sv') = (\<lambda>j p. if j = i then p = pl_id pl else holds_poll (sv_conns sv) j p)"
    unfolding assms(4) holds_poll_upd by (auto simp: fun_eq_iff)
  with one_holder_add[of "holds_poll (sv_conns sv)" _ "pl_id pl" i] assms(1-3,5) show ?thesis
    by (simp add: holders_ok_def)
qed

lemma holders_ok_release:
  assumes "holders_ok sv" "sv_conns sv i = Some (Holding ident (pl_id pl))" "c = None \<or> c = Some Reading"
    "sv_conns sv' = (sv_conns sv)(i := c)" "sv_polls sv' = filter (\<lambda>q. pl_id q \<noteq> pl_id pl) (sv_polls sv)"
  shows "holders_ok sv'"
proof -
  have "holds_poll (sv_conns sv') = (\<lambda>j p. j \<noteq> i \<and> holds_poll (sv_conns sv) j p)"
    using assms(3) unfolding assms(4) holds_poll_upd by (auto simp: fun_eq_iff)
  moreover have "pl_id ` set (sv_polls sv') = pl_id ` set (sv_polls sv) - {pl_id pl}" using assms(5) by auto
  moreover have "one_holder (\<lambda>j p. j \<noteq> i \<and> holds_poll (sv_conns sv) j p) (pl_id ` set (sv_polls sv) - {pl_id pl})"
    by (rule one_holder_remove[OF assms(1)[unfolded holders_ok_def]]) (use assms(2) in \<open>auto simp: holds_poll_def\<close>)
  ultimately show ?thesis by (simp only: holders_ok_def)
qed

lemma answers_ok_same:
  "answers_ok sv \<Longrightarrow> sv_conns sv' = sv_conns sv \<Longrightarrow> sv_log sv' = sv_log sv \<Longrightarrow> sv_next sv' = sv_next sv \<Longrightarrow> answers_ok sv'"
  by (simp add: answers_ok_def)

text \<open>A change of one connection, its part of the log with it.\<close>

lemma answers_ok_at:
  assumes "answers_ok sv" "sv_conns sv' = (sv_conns sv)(i := c)" "sv_next sv' = sv_next sv" "i < sv_next sv"
    "\<And>j. j \<noteq> i \<Longrightarrow> taken_ids j (sv_log sv') = taken_ids j (sv_log sv) \<and> written_ids j (sv_log sv') = written_ids j (sv_log sv)"
    "\<And>ids. taken_ids i (sv_log sv) = written_ids i (sv_log sv) @ ids \<Longrightarrow> open_frames (sv_conns sv i) ids
       \<Longrightarrow> \<exists>ids'. taken_ids i (sv_log sv') = written_ids i (sv_log sv') @ ids' \<and> open_frames c ids'"
  shows "answers_ok sv'"
  unfolding answers_ok_def
proof (intro allI conjI)
  fix j
  have old: "\<exists>ids. taken_ids j (sv_log sv) = written_ids j (sv_log sv) @ ids \<and> open_frames (sv_conns sv j) ids"
    "sv_next sv \<le> j \<longrightarrow> taken_ids j (sv_log sv) = []" using assms(1) by (simp_all add: answers_ok_def)
  show "\<exists>ids. taken_ids j (sv_log sv') = written_ids j (sv_log sv') @ ids \<and> open_frames (sv_conns sv' j) ids"
    using old(1) assms(2,5,6) by (cases "j = i") auto
  show "sv_next sv' \<le> j \<longrightarrow> taken_ids j (sv_log sv') = []"
    using old(2) assms(3,4,5) by (cases "j = i") auto
qed

lemma conn_below_next: "conns_ok sv \<Longrightarrow> sv_conns sv i = Some c \<Longrightarrow> i < sv_next sv"
  by (auto simp: conns_ok_def)

lemma open_frames_simps [simp]:
  "open_frames (Some Reading) ids \<longleftrightarrow> ids = []" "open_frames (Some (Holding ident p)) ids \<longleftrightarrow> ids = [ident]"
  "open_frames None ids \<longleftrightarrow> length ids \<le> 1"
  by (simp_all add: open_frames_def)

text \<open>The ways a step ends for its connection: closed, answered or closed on the way, holding.\<close>

abbreviation links_ok :: "server \<Rightarrow> bool" where
  "links_ok sv \<equiv> conns_ok sv \<and> holders_ok sv \<and> answers_ok sv"

lemma links_ok_same:
  assumes "links_ok sv" "sv_conns sv' = sv_conns sv" "sv_log sv' = sv_log sv" "sv_next sv' = sv_next sv" "sv_count sv' = sv_count sv"
    "pl_id ` set (sv_polls sv') = pl_id ` set (sv_polls sv)"
  shows "links_ok sv'"
proof -
  have "conns_ok sv'" using assms by (simp add: conns_ok_def)
  moreover have "holders_ok sv'" using assms by (simp add: holders_ok_def)
  moreover have "answers_ok sv'" using assms by (simp add: answers_ok_def)
  ultimately show ?thesis by blast
qed

lemma links_ok_close:
  assumes "links_ok sv" "sv_conns sv i = Some Reading"
  shows "links_ok (close_conn w i sv)"
proof -
  have "conns_ok (close_conn w i sv)" using assms by (intro conns_ok_close) auto
  moreover have "holders_ok (close_conn w i sv)"
    by (rule holders_ok_reading[of sv i None]) (use assms in \<open>auto simp: close_conn_def holds_poll_def\<close>)
  moreover have "answers_ok (close_conn w i sv)"
    by (rule answers_ok_at[of sv _ i None]) (use assms conn_below_next[of sv i] in \<open>auto simp: close_conn_def\<close>)
  ultimately show ?thesis by blast
qed

lemma links_ok_take:
  assumes "links_ok sv" "sv_conns sv i = Some Reading"
  shows "links_ok (write_answer w written i ident r (took i ident (sv\<lparr>sv_daemon := d\<rparr>)))" (is "links_ok ?sv")
proof -
  have "conns_ok (took i ident (sv\<lparr>sv_daemon := d\<rparr>))" using assms(1) by (simp add: conns_ok_def took_def)
  then have "conns_ok ?sv"
    using assms(2) conns_ok_close[of "took i ident (sv\<lparr>sv_daemon := d\<rparr>)" i w]
    by (auto simp: write_answer_def took_def intro!: conns_ok_upd[of sv i _ Reading] assms(1)[THEN conjunct1])
  moreover have "holders_ok ?sv"
    by (rule holders_ok_reading[of sv i "if written then Some Reading else None"])
      (use assms in \<open>auto simp: write_answer_def took_def close_conn_def holds_poll_def\<close>)
  moreover have "answers_ok ?sv"
    by (rule answers_ok_at[of sv _ i "if written then Some Reading else None"])
      (use assms conn_below_next[of sv i] in \<open>auto simp: write_answer_def took_def close_conn_def\<close>)
  ultimately show ?thesis by blast
qed

lemma links_ok_hold:
  assumes "links_ok sv" "sv_conns sv i = Some Reading" "pl_id pl \<notin> pl_id ` set (sv_polls sv)"
  shows "links_ok ((took i ident (sv\<lparr>sv_daemon := d\<rparr>))
    \<lparr>sv_polls := sv_polls sv @ [pl], sv_conns := (sv_conns sv)(i \<mapsto> Holding ident (pl_id pl))\<rparr>)" (is "links_ok ?sv")
proof -
  have "conns_ok ?sv" by (rule conns_ok_upd[of sv i]) (use assms in \<open>auto simp: took_def\<close>)
  moreover have "holders_ok ?sv"
    by (rule holders_ok_hold[of sv i pl]) (use assms in \<open>auto simp: took_def holds_poll_def\<close>)
  moreover have "answers_ok ?sv"
    by (rule answers_ok_at[of sv _ i]) (use assms conn_below_next[of sv i] in \<open>auto simp: took_def\<close>)
  ultimately show ?thesis by blast
qed

text \<open>A connection lets go of its poll, with the answer written or with its end.\<close>

lemma links_ok_release:
  assumes "links_ok sv" "sv_conns sv i = Some (Holding ident (pl_id pl))"
    "sv_conns sv' = (sv_conns sv)(i := c)" "sv_polls sv' = filter (\<lambda>q. pl_id q \<noteq> pl_id pl) (sv_polls sv)"
    "sv_next sv' = sv_next sv"
    "c = Some Reading \<and> sv_log sv' = sv_log sv @ [(i, Wrote ident r)] \<and> sv_count sv' = sv_count sv
     \<or> c = None \<and> sv_log sv' = sv_log sv \<and> sv_count sv' = sv_count sv - 1"
  shows "links_ok sv'"
proof -
  have "conns_ok sv'"
    using assms(6)
  proof
    assume "c = Some Reading \<and> sv_log sv' = sv_log sv @ [(i, Wrote ident r)] \<and> sv_count sv' = sv_count sv"
    with assms show ?thesis by (intro conns_ok_upd[of sv i sv' Reading]) auto
  next
    assume "c = None \<and> sv_log sv' = sv_log sv \<and> sv_count sv' = sv_count sv - 1"
    with assms conns_ok_close[of sv i undefined] show ?thesis by (auto simp: conns_ok_def close_conn_def)
  qed
  moreover have "holders_ok sv'"
    by (rule holders_ok_release[of sv i ident pl c]) (use assms in auto)
  moreover have "answers_ok sv'"
    by (rule answers_ok_at[of sv _ i c]) (use assms conn_below_next[of sv i] in auto)
  ultimately show ?thesis by blast
qed

lemma links_ok_accept: "links_ok sv \<Longrightarrow> links_ok (accept_conn w sv)"
proof -
  assume ok: "links_ok sv"
  then have fresh: "sv_conns sv (sv_next sv) = None" by (auto simp: conns_ok_def)
  have "conns_ok (accept_conn w sv)"
    using ok fresh by (auto simp: conns_ok_def accept_conn_def domIff less_Suc_eq)
  moreover have "holders_ok (accept_conn w sv)"
    by (rule holders_ok_reading[of sv "sv_next sv" "Some Reading"]) (use ok fresh in \<open>auto simp: accept_conn_def holds_poll_def\<close>)
  moreover have "answers_ok (accept_conn w sv)"
    using ok by (auto simp: answers_ok_def accept_conn_def)
  ultimately show ?thesis by blast
qed

lemma links_ok_line:
  assumes "links_ok sv" "sv_conns sv i = Some Reading" "sys_ok (sv_system (read_line_step parse w w' written i line sv))"
  shows "links_ok (read_line_step parse w w' written i line sv)"
proof -
  obtain d e where c: "conn_line parse w line (sv_daemon sv) = (d, e)" by fastforce
  have same: "links_ok (sv\<lparr>sv_daemon := d\<rparr>)" by (rule links_ok_same[OF assms(1)]) simp_all
  show ?thesis
  proof (cases e)
    case (Replied ident r)
    with c links_ok_take[OF assms(1,2)] show ?thesis by (simp add: read_line_step_def)
  next
    case (Held ident pl)
    with assms(3) c have "pl_id pl \<notin> pl_id ` set (sv_polls sv)"
      by (simp add: read_line_step_def took_def sys_ok_def polls_ok_def)
    with Held c links_ok_hold[OF assms(1,2)] show ?thesis by (simp add: read_line_step_def)
  qed (use c same in \<open>simp_all add: read_line_step_def\<close>)
qed

lemma write_answer_fields:
  "sv_conns (write_answer w written i ident r sv) = (sv_conns sv)(i := if written then Some Reading else None)"
  "sv_polls (write_answer w written i ident r sv) = sv_polls sv"
  "sv_next (write_answer w written i ident r sv) = sv_next sv"
  "sv_log (write_answer w written i ident r sv) = (if written then sv_log sv @ [(i, Wrote ident r)] else sv_log sv)"
  "sv_count (write_answer w written i ident r sv) = (if written then sv_count sv else sv_count sv - 1)"
  by (simp_all add: write_answer_def close_conn_def)

lemma server_step_ok: "server_step sv sv' \<Longrightarrow> server_ok sv \<Longrightarrow> server_ok sv'"
proof -
  assume st: "server_step sv sv'" and ok: "server_ok sv"
  have sys: "sys_ok (sv_system sv')"
    using sys_run_ok[OF server_refines[OF st]] ok by (simp add: server_ok_def)
  have links: "links_ok sv" using ok by (simp add: server_ok_def)
  from st links sys have "links_ok sv'"
  proof (induction rule: server_step.induct)
    case (accepted sv w)
    show ?case by (rule links_ok_accept[OF accepted.prems(1)])
  next
    case (line sv i parse w w' written line)
    show ?case by (rule links_ok_line[OF line.prems(1) line.hyps line.prems(2)])
  next
    case (hung_up sv i w)
    show ?case by (rule links_ok_close[OF hung_up.prems(1) hung_up.hyps])
  next
    case (polled pl sv w a d pl')
    have "pl_id pl' = pl_id pl" using polled.hyps(3) poll_act_shape[where w = w and a = a and pl = pl and d = "sv_daemon sv"] by simp
    then have "map pl_id (put_poll pl (Still pl') (sv_polls sv)) = map pl_id (sv_polls sv)"
      by (simp add: put_poll_def)
    then have "pl_id ` set (put_poll pl (Still pl') (sv_polls sv)) = pl_id ` set (sv_polls sv)"
      by (metis list.set_map)
    then show ?case by (intro links_ok_same[OF polled.prems(1)]) simp_all
  next
    case (answered sv i ident pl w a d r w' written)
    show ?case
      by (rule links_ok_release[OF answered.prems(1) answered.hyps(1), of _ "if written then Some Reading else None" r])
        (auto simp: write_answer_fields put_poll_def)
  next
    case (stray sv i ident p)
    show ?case by (rule stray.prems(1))
  next
    case (lost sv i ident pl w' w)
    show ?case
      by (rule links_ok_release[OF lost.prems(1) lost.hyps(1), of _ None]) (auto simp: close_conn_def)
  next
    case (own sv d)
    show ?case by (intro links_ok_same[OF own.prems(1)]) simp_all
  qed
  with sys show ?thesis by (simp add: server_ok_def)
qed

lemma server_run_ok: "server_step\<^sup>*\<^sup>* sv sv' \<Longrightarrow> server_ok sv \<Longrightarrow> server_ok sv'"
  by (induction rule: rtranclp_induct) (simp_all add: server_step_ok)

lemma server_new_ok: "store_ok s \<Longrightarrow> server_ok (server_new s now)"
  by (simp add: server_ok_def server_new_def sys_ok_def daemon_new_def feed_ok_def feeds_running_def polls_ok_def
      timers_ok_def conns_ok_def holders_ok_def one_holder_def holds_poll_def answers_ok_def)

text \<open>C2. The connections of the daemon, whatever they send and whenever they end, make nothing happen that
  the daemon's own step relation does not allow. On every connection the answers are those to the frames
  it took, in their order and under their ids; while it is open at most one frame has no answer yet, the one whose poll it holds. Every parked
  poll is held by exactly one open connection, and the count of connections is right, so a daemon that
  retires because it is quiet has no poll parked.\<close>

theorem server_invariant:
  assumes "store_ok s" "server_step\<^sup>*\<^sup>* (server_new s now) sv"
  shows "sys_step\<^sup>*\<^sup>* (system_new s now) (sv_system sv)
    \<and> (\<forall>i. \<exists>ids. taken_ids i (sv_log sv) = written_ids i (sv_log sv) @ ids \<and> open_frames (sv_conns sv i) ids)
    \<and> (\<forall>pl\<in>set (sv_polls sv). \<exists>!i. holds_poll (sv_conns sv) i (pl_id pl))
    \<and> sv_count sv = card (dom (sv_conns sv))
    \<and> (quiet_for_good w (sv_count sv) (sv_daemon sv) \<longrightarrow> sv_polls sv = [])"
proof -
  have ok: "server_ok sv" using server_run_ok[OF assms(2) server_new_ok[OF assms(1)]] .
  then have one: "one_holder (holds_poll (sv_conns sv)) (pl_id ` set (sv_polls sv))"
    by (simp add: server_ok_def holders_ok_def)
  have held: "\<exists>!i. holds_poll (sv_conns sv) i (pl_id pl)" if "pl \<in> set (sv_polls sv)" for pl
  proof -
    have "\<exists>i. holds_poll (sv_conns sv) i (pl_id pl)" using one that unfolding one_holder_def by blast
    with one show ?thesis unfolding one_holder_def by blast
  qed
  have none: "sv_polls sv = []" if "sv_count sv = 0"
  proof -
    have "finite (dom (sv_conns sv))" "card (dom (sv_conns sv)) = 0" using that ok by (simp_all add: server_ok_def conns_ok_def)
    then have "dom (sv_conns sv) = {}" by (simp only: card_0_eq)
    then have "\<not> holds_poll (sv_conns sv) i p" for i p by (simp add: holds_poll_def)
    then show ?thesis using held by (cases "sv_polls sv") auto
  qed
  have "\<forall>i. \<exists>ids. taken_ids i (sv_log sv) = written_ids i (sv_log sv) @ ids \<and> open_frames (sv_conns sv i) ids"
    using ok by (simp add: server_ok_def answers_ok_def)
  moreover have "sv_count sv = card (dom (sv_conns sv))" using ok by (simp add: server_ok_def conns_ok_def)
  moreover have "sys_step\<^sup>*\<^sup>* (system_new s now) (sv_system sv)"
    using server_run_refines[OF assms(2)] by (simp add: system_new_def server_new_def)
  ultimately show ?thesis using held none by (auto simp: quiet_for_good_def)
qed

definition hello_frame :: frame where
  "hello_frame = \<lparr>fr_proto = 1, fr_id = 1, fr_body = Hello ''1''\<rparr>"

text \<open>One connection is accepted and says hello.\<close>

definition greeted :: server where
  "greeted = read_line_step (\<lambda>_. Inr hello_frame) (bare_world 6) (bare_world 6) True 0 ''{}''
     (accept_conn (bare_world 5) (server_new store_empty 5))"

lemma greeted_run: "server_step\<^sup>*\<^sup>* (server_new store_empty 5) greeted"
proof -
  have "server_step (server_new store_empty 5) (accept_conn (bare_world 5) (server_new store_empty 5))"
    by (rule server_step.accepted)
  moreover have "server_step (accept_conn (bare_world 5) (server_new store_empty 5)) greeted"
    unfolding greeted_def by (rule server_step.line) (simp add: accept_conn_def server_new_def)
  ultimately show ?thesis by auto
qed

theorem server_invariant_witness:
  "(\<exists>ids. taken_ids 0 (sv_log greeted) = written_ids 0 (sv_log greeted) @ ids) \<and> sv_count greeted = card (dom (sv_conns greeted))"
  using server_invariant[OF store_ok_empty greeted_run] by blast

end
