(* ===== verification/Spec2Isabelle.thy ===== *)
theory Spec2Isabelle
  imports Schedule Glob Frontmatter Moments Store_Laws Startup Config Wake Planner_Laws Guard_Cmd Watch_Laws Codex_Waiter App_Server Platform Hook_Laws Server
begin

text \<open>
  A verification development for autofork: a daemon that watches coding-agent sessions (Claude Code, codex,
  opencode) and, when a session pauses, starts forks of its conversation that a user defined in files.

  \<^bold>\<open>The program.\<close> Three crates under \<open>src/crates\<close>. \<open>autofork-core\<close> has the semantics: what a fork file says
  (\<open>frontmatter.rs\<close>, \<open>duration.rs\<close>), where fork and hook files are found (\<open>discovery.rs\<close>, \<open>hooks.rs\<close>), which
  moment fires which fork (\<open>moments.rs\<close>, \<open>tags.rs\<close>, \<open>glob.rs\<close>), in which order forks run (\<open>schedule.rs\<close>), the
  state in SQLite (\<open>store.rs\<close>), the texts a session gets (\<open>wake.rs\<close>, \<open>notification.rs\<close>), and the guard that
  decides what a fork may touch (\<open>guard/\<close>). \<open>autofork-daemon\<close> has the daemon: it takes events from the hooks of a
  harness, parks the long poll of a session's Stop hook, plans (\<open>planner.rs\<close>) and answers the poll with a
  wake. \<open>autofork\<close> has the processes around it: the hooks (\<open>hook.rs\<close>, \<open>codex.rs\<close>, \<open>opencode.rs\<close>), which run
  inside a harness, report events and carry wakes and reports; the runners (\<open>runner.rs\<close>, \<open>codex.rs\<close>), which
  start the children that are the forks; the guard at the tool boundary (\<open>guard_cmd.rs\<close>) and the commands for
  people (\<open>commands.rs\<close>).

  \<^bold>\<open>The theories\<close>, in the order they build on each other. \<open>Prelude\<close>: strings as the UTF-8 bytes Rust has, integers
  at their width, lists. \<open>Tables\<close>: the SQL of the store on lists of rows, and two contracts on runs of
  operations as locales, an edge taken once until released (\<open>once\<close>) and a queue that loses and repeats
  nothing (\<open>conveyor\<close>). \<open>Paths\<close>: \<open>std::path\<close> on Unix. Then one theory for each component, the laws beside it
  or in a theory named after it with \<open>_Laws\<close>:

  \<^item> \<open>Frontmatter\<close>, \<open>Moments\<close>, \<open>Glob\<close>, \<open>Schedule\<close>, \<open>Config\<close>, \<open>Discovery\<close>, \<open>Hooks\<close>, \<open>Wake\<close>, \<open>Runenv\<close>: the files of
    \<open>autofork-core\<close> of the same names (\<open>Runenv\<close> for \<open>runenv.rs\<close>, \<open>Moments\<close> with \<open>tags.rs\<close>, \<open>Wake\<close> with
    \<open>notification.rs\<close>). Names are those of the source.
  \<^item> \<open>Store\<close>, \<open>Store_Laws\<close>: every table as a list of a record, every method that reads or writes; the laws hold
    over all runs of the writing methods. \<open>Migration\<close>: how an old database file becomes the current one
    (\<open>Store::init\<close>), as SQL statements on tables with columns and rows.
  \<^item> \<open>Shell_Values\<close>, \<open>Shell_Tools\<close>, \<open>Shell_Commands\<close>, \<open>Shell\<close>, \<open>Shell_Laws\<close>: the analyser of \<open>guard/shell.rs\<close>, from
    partly known words over the table of commands to the walk of a syntax tree. \<open>Guard\<close>, \<open>Guard_Laws\<close>: the
    verdict (\<open>guard/mod.rs\<close>) and the sandbox line (\<open>guard/sandbox.rs\<close>). \<open>Guard_Cmd\<close>: how the call of a harness
    becomes a call the guard decides.
  \<^item> \<open>Planner\<close>, \<open>Planner_Laws\<close>: selection, waves and gates, releases, the batch on close.
  \<^item> \<open>World\<close>: what the daemon sees from outside (record \<open>world\<close>) and keeps (record \<open>daemon\<close>), the frames of
    \<open>protocol.rs\<close>. \<open>Transcript\<close>, \<open>Daemon\<close>, \<open>Requests\<close>, \<open>Hook_Runs\<close>, \<open>Stop_Wait\<close>, \<open>Watch\<close>: the handlers, sweeps
    and polls of \<open>autofork-daemon\<close>. \<open>System\<close>: one step relation for all of them, \<open>sys_step\<close>. \<open>Daemon_Frames\<close>,
    \<open>Daemon_Laws\<close>, \<open>System_Laws\<close>, \<open>Poll_Laws\<close>, \<open>Watch_Laws\<close>: what a handler can change, what it does, the
    invariant of every reachable state, what a poll delivers, what a sweep sees. \<open>Server\<close>: the connections of
    \<open>server.rs\<close> over that daemon, \<open>server_step\<close>, one line in and one frame out, and the polls they hold. \<open>Startup\<close>:
    the processes that start, retire and are daemons (\<open>main.rs\<close> of the daemon, \<open>ipc.rs\<close> on Unix, \<open>client.rs\<close>), with the
    two lock files, the socket and the database they share, \<open>machine_step\<close>; each may die at any time.
  \<^item> \<open>Client\<close>: a hook process as a \<open>talk\<close>, what it does and asks in order and how it goes on after each answer;
    how it reaches and renews the daemon (\<open>client.rs\<close>), finds the client process (\<open>harness.rs\<close>) and the
    project (\<open>project.rs\<close>). \<open>Runner\<close>, \<open>Codex_Run\<close>: one run of a fork on Claude Code and on codex, as the child it
    starts and the frames it sends. \<open>Client_Hooks\<close>: the hooks of the three harnesses. \<open>Codex_Waiter\<close>: the process
    that polls for a codex session, as a step relation. \<open>Final_Run\<close>: the batch of a closed session.
    \<open>Codex_Hooks\<close>: installing into codex; \<open>App_Server\<close>: the lines by which codex is asked to trust the hooks, and the
    files of a waiter. \<open>Commands\<close>: the commands, the followed log, the ends of a command. \<open>Platform\<close>: what \<open>sys.rs\<close>
    computes, the end-runner of the daemon. \<open>Runner_Laws\<close>, \<open>Codex_Laws\<close>, \<open>Hook_Laws\<close>: what they guarantee, the last with the
    daemon as the server of a talk.

  \<^bold>\<open>How the code is modelled.\<close> A handler is a function from the state and what it sees to the state and its
  answer; every step of \<open>sys_step\<close> may see another \<open>world\<close>, so files, the clock and other processes change
  freely between steps. An asynchronous handler is cut at its suspension points. Errors and early returns are
  options and sums; a panic is \<open>None\<close> of the analyser (and of the removal of codex hooks), an error of the store
  never happens, save in \<open>Migration\<close>, where it does. Integers are at their width where they can leave it (\<open>i64\<close> wraps in the release build; hashes
  and random ids are words), and \<open>nat\<close> where the code bounds them.

  \<^bold>\<open>Interfaces.\<close> \<open>once\<close> and \<open>conveyor\<close> are interpreted on the latch, the queue, the final flush, the life of a
  session, the spools and the settling of spawns. \<open>acyclic_deps\<close> (what a wake needs of its dependencies) is
  interpreted on \<open>resolve_deps\<close>; \<open>insertion\<close> (first definition wins) on the walks for forks and for hooks;
  \<open>walker_law\<close> (a step of the analyser only adds) on the log of a walk; \<open>preorder_frame\<close> (a relation kept by
  folds and branches) on the frames of the daemon; \<open>final_runner\<close> (a run settles and only then reports) on the
  runs of the three harnesses.

  \<^bold>\<open>What is shown.\<close> The store: keys stay unique, latches, claims and settlements happen once per life, spools
  deliver once and in order; a database of any earlier version upgrades to the current tables with every row
  kept, unless the upgrade is cut short, after which it never opens again. Start-up: there is at most one daemon
  and the socket leads to it, whoever races and dies; after an upgrade cut short no daemon ever serves. The
  connections: they do to the daemon nothing but its steps, hold each poll exactly once, are counted right and are
  answered in order. The planner: selection keeps its guards, an idle fork fires once per pause, a wake
  accounts for every fork and cannot deadlock, releases are exact. The guard: it allows exactly what the policy
  on effects allows, the deny list sees through the plain wrappers, a refused line is never sandboxed, the sandbox line
  survives the shell. The daemon: an invariant of every reachable state under all interleavings; when a prompt
  starts a pause, what a completion changes, that fork runs are never scheduled, that a wake is not spent
  unless it is answered. The processes around it: hooks inside a run of ours are silent, so forks do not beget
  forks; a report is delivered once and reaches the next prompt as far as its budget goes; guarded runs are confined;
  every run settles; the waiter never loses count of polls and runs; round trips of installation, of the
  transcript and rollout readers, of command lines. Some theorems state where the code falls short of what its
  comments say: the window in which a nudge is lost, a gate that blocks itself, blind spots of the analyser, a
  failed start nobody notices, a late wake that is dropped, a sandbox wider than the write set, a client whose look
  at the lock turns a daemon away, a silent app server that is waited for without end, a log printed twice.

  \<^bold>\<open>Bounds and fuel.\<close> \<open>run_upto\<close> of \<open>Shell_Tools\<close> has as fuel the literal words of the command line, which every
  wrapper makes fewer (\<open>run_unfold\<close>: a step asks only for commands with fewer, so the recursion of the code ends and the fuel never ends it). The depth of a walk (\<open>MAX_WALK_DEPTH\<close>,
  \<open>MAX_FORK_NESTING_DEPTH\<close>), the caps of texts and the hops to an ancestor are the constants of the code. The loop
  of the headless hook runs over the list of wakes it lives to see; the list is arbitrary.

  \<^bold>\<open>Not modelled.\<close> Readers of JSON, YAML and TOML, the shell grammar of tree-sitter, SQLite, the bytes on sockets and
  pipes and their timeouts, logging, and the children themselves are parameters or are left out; what a child does
  is an arbitrary function of what it was started with. The order in which a HashMap yields its keys is a parameter
  of the watcher. A lock is what the kernel promises of \<open>flock\<close>: one holder, released at its end. The command-line
  parser (clap) and the dispatch of \<open>main.rs\<close> of \<open>autofork\<close>, the named pipe of Windows, the JavaScript plugin of
  opencode, the calls of Windows and macOS in \<open>sys.rs\<close> and the watchdog that ends a process whose client has died
  are not modelled.
\<close>

end
